(* ===== verification/Prelude.thy ===== *)
theory Prelude
  imports Main "HOL-Library.Word" "HOL-Library.AList"
begin

text \<open>
  Shared vocabulary of the development: the machine types of the Go sources, byte slices and the
  operations the code performs on them (slicing, \<^verbatim>\<open>copy\<close>, the little-endian accessors of
  \<^verbatim>\<open>encoding/binary\<close>, the IEEE CRC-32 of \<^verbatim>\<open>hash/crc32\<close>), the error-threading combinator for
  functions that return \<^verbatim>\<open>(T, error)\<close>, and the interface \<open>prefix_codec\<close> under which a list of
  self-delimiting encodings is shown to decode back.
\<close>

unbundle bit_operations_syntax

named_theorems codec "facts on encoders and decoders"
named_theorems bytes_simps "facts on byte slices and in-place copies"

type_synonym byte = "8 word"
type_synonym u16 = "16 word"
type_synonym u32 = "32 word"
type_synonym u64 = "64 word"
type_synonym bytes = "byte list"

section \<open>Errors as values\<close>

text \<open>
  A Go function with results \<^verbatim>\<open>(T, error)\<close> returns \<open>Inl e\<close> for a non-nil error and \<open>Inr v\<close>
  otherwise. \<open>bindE\<close> is the idiom \<^verbatim>\<open>if err != nil { return ..., err }\<close>.
\<close>

definition bindE :: "'e + 'a \<Rightarrow> ('a \<Rightarrow> 'e + 'b) \<Rightarrow> 'e + 'b" where
  "bindE r k = (case r of Inl e \<Rightarrow> Inl e | Inr v \<Rightarrow> k v)"

lemma bindE_simps [simp]: "bindE (Inl e) k = Inl e" "bindE (Inr v) k = k v"
  by (simp_all add: bindE_def)

lemma bindE_eq_Inr_iff: "bindE r k = Inr b \<longleftrightarrow> (\<exists>v. r = Inr v \<and> k v = Inr b)"
  by (cases r) auto

lemma bindE_Inr_elim: "bindE r k = Inr b \<Longrightarrow> (\<And>v. r = Inr v \<Longrightarrow> k v = Inr b \<Longrightarrow> P) \<Longrightarrow> P"
  by (auto simp: bindE_eq_Inr_iff)

text \<open>
  A method that also changes its receiver takes the state last and returns it with the result;
  \<open>bindS\<close> sequences two such methods and returns early on an error, keeping the state reached.
\<close>

type_synonym ('s, 'e, 'a) go_method = "'s \<Rightarrow> 's \<times> ('e + 'a)"

definition bindS :: "('s, 'e, 'a) go_method \<Rightarrow> ('a \<Rightarrow> ('s, 'e, 'b) go_method) \<Rightarrow> ('s, 'e, 'b) go_method" where
  "bindS m k s = (case m s of (s', Inl e) \<Rightarrow> (s', Inl e) | (s', Inr v) \<Rightarrow> k v s')"

definition returnS :: "'a \<Rightarrow> ('s, 'e, 'a) go_method" where
  "returnS v s = (s, Inr v)"

definition failS :: "'e \<Rightarrow> ('s, 'e, 'a) go_method" where
  "failS e s = (s, Inl e)"

lemma bindS_Inr: "m s = (s', Inr v) \<Longrightarrow> bindS m k s = k v s'"
  by (simp add: bindS_def)

lemma bindS_Inl: "m s = (s', Inl e) \<Longrightarrow> bindS m k s = (s', Inl e)"
  by (simp add: bindS_def)

lemma bindS_eq_Inr_iff: "bindS m k s = (t, Inr b) \<longleftrightarrow> (\<exists>s' v. m s = (s', Inr v) \<and> k v s' = (t, Inr b))"
  by (auto simp: bindS_def split: prod.splits sum.splits)

section \<open>Maps\<close>

text \<open>
  A Go map is an association list with distinct keys (the order of the list stands for the order of
  iteration, which Go leaves open); \<open>put_key\<close> and \<open>del_key\<close> are \<^verbatim>\<open>m[k] = v\<close> and \<^verbatim>\<open>delete(m, k)\<close>.
\<close>

type_synonym ('k, 'v) gomap = "('k \<times> 'v) list"

abbreviation put_key :: "'k \<Rightarrow> 'v \<Rightarrow> ('k, 'v) gomap \<Rightarrow> ('k, 'v) gomap" where "put_key \<equiv> AList.update"
abbreviation del_key :: "'k \<Rightarrow> ('k, 'v) gomap \<Rightarrow> ('k, 'v) gomap" where "del_key \<equiv> AList.delete"
abbreviation keys_of :: "('k, 'v) gomap \<Rightarrow> 'k list" where "keys_of m \<equiv> map fst m"

definition has_key :: "'k \<Rightarrow> ('k, 'v) gomap \<Rightarrow> bool" where
  "has_key k m \<longleftrightarrow> map_of m k \<noteq> None"

named_theorems gomap "facts on Go maps"

declare update_conv' [gomap] delete_conv' [gomap] update_keys [gomap] delete_keys [gomap]
  distinct_update [gomap] distinct_delete [gomap] dom_update [gomap]

lemma has_key_iff [gomap]: "has_key k m \<longleftrightarrow> k \<in> set (keys_of m)"
  by (simp add: has_key_def map_of_eq_None_iff)

lemma keys_del_key [gomap]: "set (keys_of (del_key k m)) = set (keys_of m) - {k}"
  by (simp add: delete_keys)

lemma length_put_key [gomap]: "length (put_key k v m) = (if k \<in> set (keys_of m) then length m else Suc (length m))"
  using arg_cong [OF update_keys [of k v m], of length] by (auto split: if_splits)

lemma length_del_key [gomap]:
  "distinct (keys_of m) \<Longrightarrow> length (del_key k m) = (if k \<in> set (keys_of m) then length m - 1 else length m)"
  using arg_cong [OF delete_keys [of k m], of length] by (simp add: distinct_remove1_removeAll [symmetric] length_remove1)

lemma map_of_key: "map_of m k = Some v \<Longrightarrow> k \<in> set (keys_of m)"
  by (force dest: map_of_SomeD)

lemma set_put_key_subset: "set (put_key k v m) \<subseteq> insert (k, v) (set m)"
  by (induction m) auto

lemma set_del_key: "set (del_key k m) = {e \<in> set m. fst e \<noteq> k}"
  by (induction m) auto

section \<open>Strings and bytes\<close>

text \<open>A Go string is a sequence of bytes; the conversions \<^verbatim>\<open>[]byte(s)\<close> and \<^verbatim>\<open>string(b)\<close>.\<close>

definition byte_of :: "char \<Rightarrow> byte" where
  "byte_of c = of_nat (of_char c)"

definition char_of_byte :: "byte \<Rightarrow> char" where
  "char_of_byte b = char_of (unat b)"

definition bytes_of :: "string \<Rightarrow> bytes" where
  "bytes_of s = map byte_of s"

definition string_of :: "bytes \<Rightarrow> string" where
  "string_of b = map char_of_byte b"

lemma unat_byte_of [simp]: "unat (byte_of c) = of_char c"
proof -
  have "of_char c < (2::nat) ^ LENGTH(8)" using nat_of_char_less_256 [of c] by simp
  then show ?thesis by (simp add: byte_of_def unat_of_nat)
qed

lemma char_of_byte_byte_of [simp]: "char_of_byte (byte_of c) = c"
  by (simp add: char_of_byte_def)

lemma byte_of_char_of_byte [simp]: "byte_of (char_of_byte b) = b"
proof -
  have "unat b < 256" using unsigned_less [of b] by simp
  then have "unat (byte_of (char_of_byte b)) = unat b" by (simp add: char_of_byte_def)
  then show ?thesis by (simp only: word_unat_eq_iff)
qed

lemma string_of_bytes_of [simp, codec]: "string_of (bytes_of s) = s"
  by (simp add: string_of_def bytes_of_def o_def)

lemma bytes_of_string_of [simp, codec]: "bytes_of (string_of b) = b"
  by (simp add: string_of_def bytes_of_def o_def)

lemma length_bytes_of [simp]: "length (bytes_of s) = length s"
  by (simp add: bytes_of_def)

lemma length_string_of [simp]: "length (string_of b) = length b"
  by (simp add: string_of_def)

section \<open>Slices and copies\<close>

text \<open>\<open>slice i j xs\<close> is \<^verbatim>\<open>xs[i:j]\<close>; callers guarantee \<open>i \<le> j \<le> length xs\<close> or model the panic.\<close>

definition slice :: "nat \<Rightarrow> nat \<Rightarrow> 'a list \<Rightarrow> 'a list" where
  "slice i j xs = take (j - i) (drop i xs)"

text \<open>\<open>copy_at i d xs\<close> is \<^verbatim>\<open>copy(xs[i:], d)\<close>: it stops at the end of the shorter of the two.\<close>

definition copy_at :: "nat \<Rightarrow> 'a list \<Rightarrow> 'a list \<Rightarrow> 'a list" where
  "copy_at i d xs = take i xs @ take (length xs - i) d @ drop (i + length d) xs"

lemma length_slice [simp, bytes_simps]: "length (slice i j xs) = min (j - i) (length xs - i)"
  by (simp add: slice_def min.commute)

lemma slice_append_left [bytes_simps]: "j \<le> length xs \<Longrightarrow> slice i j (xs @ ys) = slice i j xs"
  by (cases "i \<le> length xs") (simp_all add: slice_def)

lemma slice_append_right [bytes_simps]:
  "length xs \<le> i \<Longrightarrow> slice i j (xs @ ys) = slice (i - length xs) (j - length xs) ys"
  by (cases "j \<le> i") (simp_all add: slice_def)

lemma slice_full [bytes_simps]: "j = length xs \<Longrightarrow> slice 0 j xs = xs"
  by (simp add: slice_def)

lemma length_copy_at [simp, bytes_simps]: "i \<le> length xs \<Longrightarrow> length (copy_at i d xs) = length xs"
  by (auto simp: copy_at_def)

lemma slice_copy_at_same [bytes_simps]:
  assumes "i + length d \<le> length xs" "j = i + length d"
  shows "slice i j (copy_at i d xs) = d"
  using assms by (simp add: slice_def copy_at_def)

lemma slice_copy_at_above [bytes_simps]:
  assumes "i + length d \<le> length xs" "i + length d \<le> a"
  shows "slice a b (copy_at i d xs) = slice a b xs"
  using assms by (simp add: slice_def copy_at_def add.commute)

lemma slice_copy_at_below [bytes_simps]:
  assumes "i + length d \<le> length xs" "b \<le> i"
  shows "slice a b (copy_at i d xs) = slice a b xs"
  using assms by (auto simp: slice_def copy_at_def take_drop min_def)

lemma drop_copy_at_same [bytes_simps]:
  "i + length d \<le> length xs \<Longrightarrow> drop i (copy_at i d xs) = d @ drop (i + length d) xs"
  by (simp add: copy_at_def)

lemma drop_copy_at_above [bytes_simps]:
  assumes "i + length d \<le> length xs" "i + length d \<le> a"
  shows "drop a (copy_at i d xs) = drop a xs"
  using assms by (simp add: copy_at_def)

lemma slice_slice: "j \<le> b - a \<Longrightarrow> slice i j (slice a b xs) = slice (a + i) (a + j) xs"
  by (auto simp: slice_def take_drop min_def add.commute)

section \<open>Little-endian integers\<close>

text \<open>
  \<open>le_bytes n w\<close> is what \<^verbatim>\<open>binary.LittleEndian.PutUint16/32/64\<close> store (byte \<open>i\<close> is \<^verbatim>\<open>byte(v >> 8i)\<close>)
  and \<open>le_word\<close> what \<^verbatim>\<open>binary.LittleEndian.Uint16/32/64\<close> read (the bytes shifted and or-ed).
\<close>

definition le_bytes :: "nat \<Rightarrow> 'a::len word \<Rightarrow> bytes" where
  "le_bytes n w = map (\<lambda>i. ucast (drop_bit (8 * i) w)) [0..<n]"

primrec le_word :: "bytes \<Rightarrow> 'a::len word" where
  "le_word [] = 0"
| "le_word (b # bs) = ucast b OR push_bit 8 (le_word bs)"

lemma length_le_bytes [simp, bytes_simps]: "length (le_bytes n w) = n"
  by (simp add: le_bytes_def)

lemma bit_le_word:
  "bit (le_word bs :: 'a::len word) k \<longleftrightarrow>
     k < LENGTH('a) \<and> k < 8 * length bs \<and> bit (bs ! (k div 8)) (k mod 8)"
proof (induction bs arbitrary: k)
  case Nil
  then show ?case by simp
next
  case (Cons b bs)
  show ?case
  proof (cases "k < 8")
    case True
    then show ?thesis
      by (auto simp: bit_or_iff bit_push_bit_iff bit_ucast_iff)
  next
    case False
    then obtain j where j: "k = 8 + j" using le_Suc_ex not_less by blast
    have "\<not> bit b k" using False by (auto dest: bit_imp_le_length)
    then show ?thesis
      using Cons.IH [of j] by (auto simp: j bit_or_iff bit_push_bit_iff bit_ucast_iff div_add_self1)
  qed
qed

lemma le_word_le_bytes [codec]:
  assumes "LENGTH('a) \<le> 8 * n"
  shows "le_word (le_bytes n w) = (w :: 'a::len word)"
proof (rule bit_word_eqI)
  fix k assume k: "k < LENGTH('a)"
  with assms have "k < 8 * n" by simp
  moreover have "k div 8 < n" using \<open>k < 8 * n\<close> by (simp add: less_mult_imp_div_less mult.commute)
  moreover have "8 * (k div 8) + k mod 8 = k" by simp
  ultimately show "bit (le_word (le_bytes n w) :: 'a word) k = bit w k"
    using k by (simp add: bit_le_word le_bytes_def bit_ucast_iff bit_drop_bit_eq)
qed

lemma le_bytes_le_word [codec]:
  assumes "8 * length bs \<le> LENGTH('a)"
  shows "le_bytes (length bs) (le_word bs :: 'a::len word) = bs"
proof (rule nth_equalityI)
  fix i assume "i < length (le_bytes (length bs) (le_word bs :: 'a word))"
  then have i: "i < length bs" by simp
  show "le_bytes (length bs) (le_word bs :: 'a word) ! i = bs ! i"
  proof (rule bit_word_eqI)
    fix k assume "k < LENGTH(8)"
    then have k: "k < 8" by simp
    have "8 * i + k < 8 * length bs" using i k by linarith
    then show "bit (le_bytes (length bs) (le_word bs :: 'a word) ! i) k = bit (bs ! i) k"
      using i k assms by (simp add: le_bytes_def bit_ucast_iff bit_drop_bit_eq bit_le_word)
  qed
qed simp

section \<open>CRC-32\<close>

text \<open>\<^verbatim>\<open>crc32.ChecksumIEEE\<close>: reflected polynomial \<^verbatim>\<open>0xEDB88320\<close>, initial value and final xor \<^verbatim>\<open>0xFFFFFFFF\<close>.\<close>

definition crc_shift :: "u32 \<Rightarrow> u32" where
  "crc_shift c = (if bit c 0 then drop_bit 1 c XOR 0xEDB88320 else drop_bit 1 c)"

definition crc_byte :: "byte \<Rightarrow> u32 \<Rightarrow> u32" where
  "crc_byte b c = (crc_shift ^^ 8) (c XOR ucast b)"

definition crc32 :: "bytes \<Rightarrow> u32" where
  "crc32 bs = NOT (fold crc_byte bs 0xFFFFFFFF)"

section \<open>Sequences of self-delimiting encodings\<close>

text \<open>
  \<open>decode_seq dec n d\<close> is the loop the row and packet readers share: decode an item at the current
  offset, advance by the number of bytes it reports, \<open>n\<close> times.
\<close>

fun decode_seq :: "(bytes \<Rightarrow> 'e + ('a \<times> nat)) \<Rightarrow> nat \<Rightarrow> bytes \<Rightarrow> 'e + ('a list \<times> nat)" where
  "decode_seq dec 0 d = Inr ([], 0)"
| "decode_seq dec (Suc n) d =
     bindE (dec d) (\<lambda>(v, k). bindE (decode_seq dec n (drop k d)) (\<lambda>(vs, k'). Inr (v # vs, k + k')))"

text \<open>
  The contract of an encoder with its decoder: on the values \<open>ok\<close> accepts, the decoder reads exactly
  the encoding, whatever follows it, and returns the value up to \<open>norm\<close>.
\<close>

locale prefix_codec =
  fixes enc :: "'a \<Rightarrow> bytes"
    and dec :: "bytes \<Rightarrow> 'e + ('b \<times> nat)"
    and norm :: "'a \<Rightarrow> 'b"
    and ok :: "'a \<Rightarrow> bool"
  assumes dec_enc: "ok x \<Longrightarrow> dec (enc x @ rest) = Inr (norm x, length (enc x))"
begin

lemma dec_enc_exact: "ok x \<Longrightarrow> dec (enc x) = Inr (norm x, length (enc x))"
  using dec_enc [of x "[]"] by simp

lemma decode_seq_concat:
  "list_all ok xs \<Longrightarrow>
   decode_seq dec (length xs) (concat (map enc xs) @ rest) =
     Inr (map norm xs, length (concat (map enc xs)))"
  by (induction xs) (simp_all add: dec_enc)

lemma enc_inj_norm: "ok x \<Longrightarrow> ok y \<Longrightarrow> enc x @ r = enc y @ r' \<Longrightarrow> norm x = norm y \<and> r = r'"
  using dec_enc [of x r] dec_enc [of y r'] by (metis Inr_inject append_eq_append_conv prod.inject)

end

end
