(* ===== verification/Crypto.thy ===== *)
theory Crypto
  imports Prelude
begin

text \<open>
  \<^verbatim>\<open>src/storage/crypto/crypto.go\<close>: the TXDEF stream cipher that protects the metadata file, the WAL
  and the external blobs. The bytes \<^verbatim>\<open>rand.Read\<close> delivers are the argument \<open>rnd\<close> (one block of random
  bytes per requested length). An \<^verbatim>\<open>io.Reader\<close> is the list of the chunks its successive reads have
  available, an \<^verbatim>\<open>io.Writer\<close> an operation \<open>write\<close> on a writer state that may fail.
\<close>

section \<open>Definitions\<close>

datatype crypto_error = ErrInvalidMagic | ErrDecryptionFailed | ErrNilStream | ErrEOF | ErrRead | ErrWrite

definition MagicTXDEF :: bytes where
  "MagicTXDEF = bytes_of ''//TXDEF#''"

definition HeaderLen :: nat where "HeaderLen = 8"

definition BufferSize :: nat where "BufferSize = 4096"

definition sumBytes :: "bytes \<Rightarrow> u32" where
  "sumBytes data = fold (\<lambda>b sum. sum + ucast b) data 0"

text \<open>The key schedule every entry point repeats: the default code, the pad length and the index.\<close>

definition codeOf :: "string \<Rightarrow> bytes" where
  "codeOf code = bytes_of (if code = [] then ''xxldb'' else code)"

definition addLenOf :: "bytes \<Rightarrow> nat" where
  "addLenOf codeBytes = unat (sumBytes codeBytes mod 5 + 2)"

definition encIndexOf :: "bytes \<Rightarrow> nat" where
  "encIndexOf codeBytes = unat (sumBytes codeBytes) mod addLenOf codeBytes"

text \<open>\<^verbatim>\<open>codeBytes[i%codeLen] + byte(i+1) + idxByte\<close>, the key stream at position \<open>i\<close>.\<close>

definition keyByte :: "bytes \<Rightarrow> byte \<Rightarrow> nat \<Rightarrow> byte" where
  "keyByte codeBytes idxByte i = codeBytes ! (i mod length codeBytes) + of_nat (i + 1) + idxByte"

definition EncryptData :: "(nat \<Rightarrow> bytes) \<Rightarrow> bytes option \<Rightarrow> string \<Rightarrow> bytes option" where
  "EncryptData rnd srcData code =
     (case srcData of
        None \<Rightarrow> None
      | Some d \<Rightarrow>
          if length d < 1 then Some d
          else
            let codeBytes = codeOf code;
                addLen = addLenOf codeBytes;
                encIndex = encIndexOf codeBytes;
                randomBytes = rnd addLen;
                idxByte = randomBytes ! encIndex
            in Some (MagicTXDEF @ randomBytes @
                     map (\<lambda>i. d ! i + keyByte codeBytes idxByte i) [0..<length d]))"

definition DecryptData :: "bytes option \<Rightarrow> string \<Rightarrow> crypto_error + bytes option" where
  "DecryptData srcData code =
     (case srcData of
        None \<Rightarrow> Inr None
      | Some d0 \<Rightarrow>
          let codeBytes = codeOf code;
              addLen = addLenOf codeBytes;
              encIndex = encIndexOf codeBytes
          in if take HeaderLen d0 \<noteq> MagicTXDEF then Inl ErrInvalidMagic
             else
               let d = drop HeaderLen d0
               in if length d < addLen then Inl ErrDecryptionFailed
                  else Inr (Some (map (\<lambda>i. d ! (addLen + i) - codeBytes ! (i mod length codeBytes)
                                            - of_nat (i + 1) - d ! encIndex)
                                      [0..<length d - addLen])))"

definition IsEncrypted :: "bytes \<Rightarrow> bool" where
  "IsEncrypted data \<longleftrightarrow> take (length MagicTXDEF) data = MagicTXDEF"

definition IsEncryptedFile :: "bytes \<Rightarrow> bool" where
  "IsEncryptedFile data = IsEncrypted data"

definition ReadHeader :: "bytes \<Rightarrow> crypto_error + bytes" where
  "ReadHeader data = (if length data < HeaderLen then Inl ErrEOF else Inr (take HeaderLen data))"

subsection \<open>Streams\<close>

datatype rd = Chunk bytes | ReadErr

text \<open>One \<^verbatim>\<open>Read\<close> into a buffer of \<open>k\<close> bytes: data with the remaining reader, end of file, or an error.\<close>

datatype read_result = Got bytes "rd list" | GotEOF | GotErr

fun reader_read :: "nat \<Rightarrow> rd list \<Rightarrow> read_result" where
  "reader_read k [] = GotEOF"
| "reader_read k (ReadErr # rs) = GotErr"
| "reader_read k (Chunk c # rs) =
     (if length c \<le> k then Got c rs else Got (take k c) (Chunk (drop k c) # rs))"

fun rd_size :: "rd \<Rightarrow> nat" where
  "rd_size (Chunk c) = Suc (length c)"
| "rd_size ReadErr = 1"

lemma reader_read_decreases:
  "0 < k \<Longrightarrow> reader_read k rs = Got c rs' \<Longrightarrow> sum_list (map rd_size rs') < sum_list (map rd_size rs)"
  by (cases "(k, rs)" rule: reader_read.cases) (auto split: if_splits)

text \<open>\<^verbatim>\<open>io.ReadFull\<close>.\<close>

function readFull :: "nat \<Rightarrow> rd list \<Rightarrow> crypto_error + (bytes \<times> rd list)" where
  "readFull n rs =
     (if n = 0 then Inr ([], rs)
      else case reader_read n rs of
             GotEOF \<Rightarrow> Inl ErrEOF
           | GotErr \<Rightarrow> Inl ErrRead
           | Got c rs' \<Rightarrow> bindE (readFull (n - length c) rs') (\<lambda>(d, rs''). Inr (c @ d, rs'')))"
  by pat_completeness auto
termination
  by (relation "measure (\<lambda>(n, rs). sum_list (map rd_size rs))") (auto intro: reader_read_decreases)

declare readFull.simps [simp del]

text \<open>
  The copy loop of the two stream functions: each chunk is transformed by \<open>f\<close> (the running index is
  the number of bytes seen so far) and written out.
\<close>

function streamLoop ::
  "('w \<Rightarrow> bytes \<Rightarrow> crypto_error + 'w) \<Rightarrow> (nat \<Rightarrow> byte \<Rightarrow> byte) \<Rightarrow> nat \<Rightarrow> rd list \<Rightarrow> 'w \<Rightarrow> crypto_error + 'w"
where
  "streamLoop write f i rs w =
     (case reader_read BufferSize rs of
        GotEOF \<Rightarrow> Inr w
      | GotErr \<Rightarrow> Inl ErrRead
      | Got buf rs' \<Rightarrow>
          if 0 < length buf
          then bindE (write w (map (\<lambda>j. f (i + j) (buf ! j)) [0..<length buf]))
                 (\<lambda>w'. streamLoop write f (i + length buf) rs' w')
          else streamLoop write f i rs' w)"
  by pat_completeness auto
termination
  by (relation "measure (\<lambda>(write, f, i, rs, w). sum_list (map rd_size rs))")
     (auto simp: BufferSize_def intro: reader_read_decreases [where k = 4096])

declare streamLoop.simps [simp del]

definition EncryptStream ::
  "(nat \<Rightarrow> bytes) \<Rightarrow> ('w \<Rightarrow> bytes \<Rightarrow> crypto_error + 'w) \<Rightarrow> rd list option \<Rightarrow> 'w option \<Rightarrow> string
     \<Rightarrow> crypto_error + 'w"
where
  "EncryptStream rnd write reader writer code =
     (case (reader, writer) of
        (Some rs, Some w) \<Rightarrow>
          (let codeBytes = codeOf code;
               addLen = addLenOf codeBytes;
               encIndex = encIndexOf codeBytes;
               randomBytes = rnd addLen;
               idxByte = randomBytes ! encIndex
           in bindE (write w MagicTXDEF) (\<lambda>w.
              bindE (write w randomBytes) (\<lambda>w.
              streamLoop write (\<lambda>i b. b + keyByte codeBytes idxByte i) 0 rs w)))
      | _ \<Rightarrow> Inl ErrNilStream)"

definition DecryptStream ::
  "('w \<Rightarrow> bytes \<Rightarrow> crypto_error + 'w) \<Rightarrow> rd list option \<Rightarrow> 'w option \<Rightarrow> string \<Rightarrow> crypto_error + 'w"
where
  "DecryptStream write reader writer code =
     (case (reader, writer) of
        (Some rs, Some w) \<Rightarrow>
          (let codeBytes = codeOf code;
               addLen = addLenOf codeBytes;
               encIndex = encIndexOf codeBytes
           in bindE (readFull HeaderLen rs) (\<lambda>(header, rs).
              if header \<noteq> MagicTXDEF then Inl ErrInvalidMagic
              else bindE (readFull addLen rs) (\<lambda>(randomBytes, rs).
                let idxByte = randomBytes ! encIndex
                in streamLoop write
                     (\<lambda>i b. b - codeBytes ! (i mod length codeBytes) - of_nat (i + 1) - idxByte) 0 rs w)))
      | _ \<Rightarrow> Inl ErrNilStream)"

subsection \<open>Encryptor\<close>

record Encryptor =
  enc_code :: string
  enc_codeBytes :: bytes
  enc_codeLen :: nat
  enc_addLen :: nat
  enc_encIndex :: nat

definition NewEncryptor :: "string \<Rightarrow> bytes \<Rightarrow> Encryptor" where
  "NewEncryptor password salt =
     (let password = (if password = [] then ''xxldb'' else password);
          codeBytes = bytes_of password
      in \<lparr>enc_code = password, enc_codeBytes = codeBytes, enc_codeLen = length codeBytes,
          enc_addLen = addLenOf codeBytes, enc_encIndex = encIndexOf codeBytes\<rparr>)"

definition Encrypt :: "(nat \<Rightarrow> bytes) \<Rightarrow> Encryptor \<Rightarrow> bytes option \<Rightarrow> bytes option" where
  "Encrypt rnd e plaintext = EncryptData rnd plaintext (enc_code e)"

definition Decrypt :: "Encryptor \<Rightarrow> bytes option \<Rightarrow> crypto_error + bytes option" where
  "Decrypt e ciphertext = DecryptData ciphertext (enc_code e)"

definition EncryptFile :: "(nat \<Rightarrow> bytes) \<Rightarrow> Encryptor \<Rightarrow> bytes option \<Rightarrow> bytes option" where
  "EncryptFile rnd e plaintext = EncryptData rnd plaintext (enc_code e)"

definition DecryptFile :: "Encryptor \<Rightarrow> bytes option \<Rightarrow> crypto_error + bytes option" where
  "DecryptFile e data = DecryptData data (enc_code e)"

section \<open>Key schedule\<close>

lemma length_MagicTXDEF [simp]: "length MagicTXDEF = 8"
  by (simp add: MagicTXDEF_def)

lemma MagicTXDEF_not_Nil [simp]: "MagicTXDEF \<noteq> []" "[] \<noteq> MagicTXDEF"
  by (simp_all add: MagicTXDEF_def bytes_of_def)

lemma codeOf_nonempty [simp]: "codeOf c \<noteq> []"
  by (simp add: codeOf_def bytes_of_def)

lemma addLenOf_bounds: "2 \<le> addLenOf c" "addLenOf c \<le> 6"
proof -
  have "unat (sumBytes c mod 5) \<le> 4"
    by (simp add: unat_mod_distrib)
  then show "2 \<le> addLenOf c" "addLenOf c \<le> 6"
    by (simp_all add: addLenOf_def unat_word_ariths)
qed

lemma encIndexOf_less: "encIndexOf c < addLenOf c"
  using addLenOf_bounds(1) [of c] by (simp add: encIndexOf_def)

section \<open>Block encryption\<close>

lemma EncryptData_header: "d \<noteq> [] \<Longrightarrow> \<exists>r. EncryptData rnd (Some d) c = Some (MagicTXDEF @ r)"
  by (auto simp: EncryptData_def Let_def)

lemma decrypt_body:
  assumes "length r = addLenOf cb" "idx = r ! encIndexOf cb"
  shows "map (\<lambda>i. (r @ map (\<lambda>i. d ! i + keyByte cb idx i) [0..<length d]) ! (addLenOf cb + i)
                  - cb ! (i mod length cb) - of_nat (i + 1)
                  - (r @ map (\<lambda>i. d ! i + keyByte cb idx i) [0..<length d]) ! encIndexOf cb) [0..<length d] = d"
  using assms encIndexOf_less [of cb]
  by (intro nth_equalityI) (simp_all add: nth_append keyByte_def)

lemma DecryptData_EncryptData:
  assumes "d \<noteq> []" "length (rnd (addLenOf (codeOf c))) = addLenOf (codeOf c)" "codeOf c' = codeOf c"
  shows "DecryptData (EncryptData rnd (Some d) c) c' = Inr (Some d)"
  using assms(1,3) decrypt_body [OF assms(2) refl, of d] assms(2)
  by (simp add: DecryptData_def EncryptData_def Let_def HeaderLen_def)

section \<open>Streams\<close>

text \<open>The bytes a reader still delivers, when none of its reads fails.\<close>

fun rd_bytes :: "rd list \<Rightarrow> bytes" where
  "rd_bytes [] = []"
| "rd_bytes (Chunk c # rs) = c @ rd_bytes rs"
| "rd_bytes (ReadErr # rs) = []"

definition no_read_errors :: "rd list \<Rightarrow> bool" where
  "no_read_errors rs \<longleftrightarrow> ReadErr \<notin> set rs"

definition buffer_write :: "bytes \<Rightarrow> bytes \<Rightarrow> crypto_error + bytes" where
  "buffer_write w d = Inr (w @ d)"

lemma reader_read_Got:
  "no_read_errors rs \<Longrightarrow> reader_read k rs = Got c rs' \<Longrightarrow>
     rd_bytes rs = c @ rd_bytes rs' \<and> no_read_errors rs' \<and> length c \<le> k"
  by (cases "(k, rs)" rule: reader_read.cases) (auto simp: no_read_errors_def split: if_splits)

lemma reader_read_total:
  "no_read_errors rs \<Longrightarrow> rs = [] \<and> reader_read k rs = GotEOF \<or> (\<exists>c rs'. reader_read k rs = Got c rs')"
  by (cases "(k, rs)" rule: reader_read.cases) (auto simp: no_read_errors_def)

lemma streamLoop_buffer:
  "no_read_errors rs \<Longrightarrow>
   streamLoop buffer_write f i rs w =
     Inr (w @ map (\<lambda>j. f (i + j) (rd_bytes rs ! j)) [0..<length (rd_bytes rs)])"
proof (induction "buffer_write" f i rs w rule: streamLoop.induct)
  case (1 f i rs w)
  consider "rs = []" | c rs' where "reader_read BufferSize rs = Got c rs'"
    using reader_read_total [OF 1(3)] by blast
  then show ?case
  proof cases
    case 1
    then show ?thesis by (simp add: streamLoop.simps)
  next
    case (2 c rs')
    note got = reader_read_Got [OF 1(3) 2]
    have split: "map (\<lambda>j. f (i + j) ((c @ rd_bytes rs') ! j)) [0..<length c + length (rd_bytes rs')] =
      map (\<lambda>j. f (i + j) (c ! j)) [0..<length c] @
      map (\<lambda>j. f (i + length c + j) (rd_bytes rs' ! j)) [0..<length (rd_bytes rs')]"
      by (rule nth_equalityI) (auto simp: nth_append add.assoc)
    show ?thesis
    proof (cases "c = []")
      case True
      with 1(2) [OF 2] got show ?thesis by (simp add: streamLoop.simps [of _ f i rs w] 2)
    next
      case False
      with 1(1) [OF 2] got show ?thesis
        by (simp add: streamLoop.simps [of _ f i rs w] 2 buffer_write_def split)
    qed
  qed
qed

lemma readFull_bytes:
  "no_read_errors rs \<Longrightarrow> n \<le> length (rd_bytes rs) \<Longrightarrow>
   \<exists>rs'. readFull n rs = Inr (take n (rd_bytes rs), rs') \<and> rd_bytes rs' = drop n (rd_bytes rs)
     \<and> no_read_errors rs'"
proof (induction n rs rule: readFull.induct)
  case (1 n rs)
  show ?case
  proof (cases "n = 0")
    case True
    with 1 show ?thesis by (simp add: readFull.simps)
  next
    case False
    with 1(3) have "rs \<noteq> []" by auto
    with reader_read_total [OF 1(2)] obtain c rs' where c: "reader_read n rs = Got c rs'" by blast
    note got = reader_read_Got [OF 1(2) c]
    with 1(3) have "n - length c \<le> length (rd_bytes rs')" by simp
    with 1(1) [OF False c] got obtain rs'' where
      "readFull (n - length c) rs' = Inr (take (n - length c) (rd_bytes rs'), rs'')"
      "rd_bytes rs'' = drop (n - length c) (rd_bytes rs')" "no_read_errors rs''"
      by auto
    with got c False show ?thesis by (simp add: readFull.simps [of n rs])
  qed
qed

section \<open>Properties\<close>

text \<open>
  C26. Decrypting what \<^verbatim>\<open>EncryptData\<close> produced, with the same password, returns the data, for every
  non-empty data, every password (the empty one stands for the default) and every random block of the
  requested length.
\<close>
theorem decrypt_encrypt:
  assumes "d \<noteq> []" "length (rnd (addLenOf (codeOf c))) = addLenOf (codeOf c)"
  shows "DecryptData (EncryptData rnd (Some d) c) c = Inr (Some d)"
  using assms by (simp add: DecryptData_EncryptData)

theorem decrypt_encrypt_witness:
  "DecryptData (EncryptData (\<lambda>n. replicate n 7) (Some [1, 2, 3]) ''secret'') ''secret'' = Inr (Some [1, 2, 3])"
  by (rule decrypt_encrypt) simp_all

text \<open>
  Encrypting a stream writes the same bytes as encrypting the block of all its data, whatever the
  sizes of the chunks the reader delivers (empty chunks included).
\<close>
theorem encrypt_stream_is_encrypt_data:
  assumes "no_read_errors rs" "rd_bytes rs \<noteq> []"
  shows "EncryptStream rnd buffer_write (Some rs) (Some []) c =
           Inr (the (EncryptData rnd (Some (rd_bytes rs)) c))"
  using assms by (simp add: EncryptStream_def EncryptData_def Let_def buffer_write_def streamLoop_buffer)

theorem encrypt_stream_is_encrypt_data_witness:
  "EncryptStream (\<lambda>n. replicate n 7) buffer_write (Some [Chunk [1], Chunk [], Chunk [2, 3]]) (Some []) ''k'' =
     Inr (the (EncryptData (\<lambda>n. replicate n 7) (Some [1, 2, 3]) ''k''))"
  using encrypt_stream_is_encrypt_data [of "[Chunk [1], Chunk [], Chunk [2, 3]]" "\<lambda>n. replicate n 7" "''k''"]
  by (simp add: no_read_errors_def)

text \<open>
  Decrypting an encrypted stream returns the plain stream even when the two readers split the bytes
  differently: header and random block are collected by \<^verbatim>\<open>io.ReadFull\<close> across chunks.
\<close>
theorem decrypt_stream_encrypt_stream:
  assumes rnd: "length (rnd (addLenOf (codeOf c))) = addLenOf (codeOf c)"
    and src: "no_read_errors rs" and enc: "no_read_errors es"
    and es: "EncryptStream rnd buffer_write (Some rs) (Some []) c = Inr (rd_bytes es)"
  shows "DecryptStream buffer_write (Some es) (Some []) c = Inr (rd_bytes rs)"
proof -
  define r where "r = rnd (addLenOf (codeOf c))"
  define body where "body = map (\<lambda>j. rd_bytes rs ! j + keyByte (codeOf c) (r ! encIndexOf (codeOf c)) j)
    [0..<length (rd_bytes rs)]"
  have bytes: "rd_bytes es = MagicTXDEF @ r @ body"
    using es by (simp add: EncryptStream_def Let_def buffer_write_def [of _ MagicTXDEF]
        buffer_write_def [of MagicTXDEF] streamLoop_buffer [OF src] r_def body_def)
  obtain es1 where es1: "readFull HeaderLen es = Inr (MagicTXDEF, es1)" "rd_bytes es1 = r @ body" "no_read_errors es1"
    using readFull_bytes [OF enc, of HeaderLen] by (auto simp: bytes HeaderLen_def)
  obtain es2 where es2: "readFull (addLenOf (codeOf c)) es1 = Inr (r, es2)" "rd_bytes es2 = body" "no_read_errors es2"
    using readFull_bytes [OF es1(3), of "addLenOf (codeOf c)"] rnd by (auto simp: es1(2) r_def)
  have "map (\<lambda>j. body ! j - codeOf c ! (j mod length (codeOf c)) - of_nat (j + 1) - r ! encIndexOf (codeOf c))
      [0..<length body] = rd_bytes rs"
    by (rule nth_equalityI) (simp_all add: body_def keyByte_def)
  then show ?thesis
    by (simp add: DecryptStream_def Let_def es1 es2 streamLoop_buffer)
qed

theorem decrypt_stream_encrypt_stream_witness:
  "DecryptStream buffer_write
     (Some [Chunk (the (EncryptData (\<lambda>n. replicate n 7) (Some [1, 2, 3]) ''k''))]) (Some []) ''k'' = Inr [1, 2, 3]"
proof -
  have "EncryptStream (\<lambda>n. replicate n 7) buffer_write (Some [Chunk [1, 2, 3]]) (Some []) ''k'' =
      Inr (the (EncryptData (\<lambda>n. replicate n 7) (Some [1, 2, 3]) ''k''))"
    by (simp add: EncryptStream_def EncryptData_def Let_def buffer_write_def [abs_def] streamLoop.simps BufferSize_def upt_rec)
  then show ?thesis
    using decrypt_stream_encrypt_stream [of "\<lambda>n. replicate n 7" "''k''" "[Chunk [1, 2, 3]]"
        "[Chunk (the (EncryptData (\<lambda>n. replicate n 7) (Some [1, 2, 3]) ''k''))]"]
    by (simp add: no_read_errors_def)
qed

text \<open>
  The cipher does not authenticate: data of at least four bytes encrypted under one password decrypts
  without error under every other password. A successful \<^verbatim>\<open>DecryptData\<close> therefore says nothing about the password.
\<close>
theorem decrypt_accepts_any_password:
  assumes "4 \<le> length d" "length (rnd (addLenOf (codeOf c))) = addLenOf (codeOf c)"
  shows "\<exists>x. DecryptData (EncryptData rnd (Some d) c) c' = Inr (Some x)"
proof -
  have "addLenOf (codeOf c') \<le> addLenOf (codeOf c) + length d"
    using addLenOf_bounds(1) [of "codeOf c"] addLenOf_bounds(2) [of "codeOf c'"] assms(1) by linarith
  with assms show ?thesis
    by (auto simp: EncryptData_def DecryptData_def Let_def HeaderLen_def)
qed

theorem decrypt_accepts_any_password_witness:
  "\<exists>x. DecryptData (EncryptData (\<lambda>n. replicate n 7) (Some [1, 2, 3, 4]) ''right'') ''wrong'' = Inr (Some x)"
  by (rule decrypt_accepts_any_password) simp_all

text \<open>
  Empty data is the exception to the round trip: \<^verbatim>\<open>EncryptData\<close> returns it without a header, which
  \<^verbatim>\<open>DecryptData\<close> rejects, while the nil slice passes through both unchanged.
\<close>
theorem decrypt_encrypt_empty:
  "DecryptData (EncryptData rnd (Some []) c) c' = Inl ErrInvalidMagic \<and>
   DecryptData (EncryptData rnd None c) c' = Inr None"
  by (simp add: DecryptData_def EncryptData_def Let_def)

end
