(* ===== verification/Values.thy ===== *)
theory Values
  imports Prelude
begin

text \<open>
  \<^verbatim>\<open>src/types/types.go\<close>: data types, values, their conversions and their comparison, column and
  table descriptors. A \<^verbatim>\<open>float64\<close> is its IEEE-754 bit pattern; conversions to and from integers
  are written out. What the sources take from the Go runtime without an algorithm of their own
  (conversions the language leaves to the implementation, float division, decimal formatting and parsing of floats,
  time formatting and parsing, case mapping outside ASCII) are the fields of \<open>go_rt\<close>.
\<close>

section \<open>Numbers\<close>

type_synonym float64 = u64
type_synonym float32 = u32

fun ilog2 :: "nat \<Rightarrow> nat" where
  "ilog2 n = (if n < 2 then 0 else Suc (ilog2 (n div 2)))"

declare ilog2.simps [simp del]

definition f64_exp :: "float64 \<Rightarrow> nat" where
  "f64_exp f = unat (drop_bit 52 f AND mask 11)"

definition f64_man :: "float64 \<Rightarrow> nat" where
  "f64_man f = unat (f AND mask 52)"

definition f64_finite :: "float64 \<Rightarrow> bool" where
  "f64_finite f \<longleftrightarrow> f64_exp f \<noteq> 2047"

definition f64_nan :: "float64 \<Rightarrow> bool" where
  "f64_nan f \<longleftrightarrow> f64_exp f = 2047 \<and> f64_man f \<noteq> 0"

text \<open>The integer part, rounded towards zero, of a finite float.\<close>

definition f64_trunc :: "float64 \<Rightarrow> int" where
  "f64_trunc f =
     (let e = f64_exp f;
          m = (if e = 0 then f64_man f else f64_man f + 2 ^ 52);
          e' = max e 1;
          mag = (if 1075 \<le> e' then m * 2 ^ (e' - 1075) else m div 2 ^ (1075 - e'))
      in if bit f 63 then - int mag else int mag)"

text \<open>Rounding of a natural number to the nearest float, ties to even.\<close>

definition nat_to_f64 :: "nat \<Rightarrow> float64" where
  "nat_to_f64 n =
     (if n = 0 then 0
      else let k = ilog2 n
           in if k \<le> 52 then of_nat ((k + 1023) * 2 ^ 52 + (n - 2 ^ k) * 2 ^ (52 - k))
              else let s = k - 52; q = n div 2 ^ s; r = n mod 2 ^ s; h = 2 ^ (s - 1);
                       q' = (if h < r \<or> r = h \<and> odd q then q + 1 else q)
                   in of_nat ((k + 1023) * 2 ^ 52 + (q' - 2 ^ 52)))"

definition u64_to_f64 :: "u64 \<Rightarrow> float64" where
  "u64_to_f64 w = nat_to_f64 (unat w)"

definition i64_to_f64 :: "u64 \<Rightarrow> float64" where
  "i64_to_f64 w =
     (if sint w < 0 then nat_to_f64 (nat (- sint w)) OR push_bit 63 1 else nat_to_f64 (nat (sint w)))"

definition f32_to_f64 :: "float32 \<Rightarrow> float64" where
  "f32_to_f64 f =
     (let e = unat (drop_bit 23 f AND mask 8); m = unat (f AND mask 23);
          s = (if bit f 31 then 2 ^ 63 else 0);
          b = (if e = 255 then 2047 * 2 ^ 52 + m * 2 ^ 29
               else if e = 0 \<and> m = 0 then 0
               else if e = 0 then (ilog2 m + 874) * 2 ^ 52 + (m - 2 ^ ilog2 m) * 2 ^ (52 - ilog2 m)
               else (e + 896) * 2 ^ 52 + m * 2 ^ 29)
      in of_nat (s + b))"

text \<open>The order of the floats: no NaN is comparable, both zeros are equal.\<close>

definition f64_key :: "float64 \<Rightarrow> int" where
  "f64_key f = (if bit f 63 then - int (unat (f AND mask 63)) else int (unat (f AND mask 63)))"

definition f64_less :: "float64 \<Rightarrow> float64 \<Rightarrow> bool" where
  "f64_less f g \<longleftrightarrow> \<not> f64_nan f \<and> \<not> f64_nan g \<and> f64_key f < f64_key g"

definition f64_eq :: "float64 \<Rightarrow> float64 \<Rightarrow> bool" where
  "f64_eq f g \<longleftrightarrow> \<not> f64_nan f \<and> \<not> f64_nan g \<and> f64_key f = f64_key g"

section \<open>Strings\<close>

definition digit_char :: "nat \<Rightarrow> char" where
  "digit_char d = char_of (48 + d)"

fun dec_nat :: "nat \<Rightarrow> string" where
  "dec_nat n = (if n < 10 then [digit_char n] else dec_nat (n div 10) @ [digit_char (n mod 10)])"

declare dec_nat.simps [simp del]

definition dec_int :: "int \<Rightarrow> string" where
  "dec_int i = (if i < 0 then CHR ''-'' # dec_nat (nat (- i)) else dec_nat (nat i))"

definition is_ascii :: "char \<Rightarrow> bool" where
  "is_ascii c \<longleftrightarrow> of_char c < (128 :: nat)"

definition upper_ascii :: "char \<Rightarrow> char" where
  "upper_ascii c = (if 97 \<le> (of_char c :: nat) \<and> (of_char c :: nat) \<le> 122 then char_of ((of_char c :: nat) - 32) else c)"

definition lower_ascii :: "char \<Rightarrow> char" where
  "lower_ascii c = (if 65 \<le> (of_char c :: nat) \<and> (of_char c :: nat) \<le> 90 then char_of ((of_char c :: nat) + 32) else c)"

section \<open>Types\<close>

text \<open>\<^verbatim>\<open>type DataType int\<close> with its \<^verbatim>\<open>iota\<close> constants.\<close>

type_synonym DataType = int

abbreviation TypeUnknown :: DataType where "TypeUnknown \<equiv> 0"
abbreviation TypeNull :: DataType where "TypeNull \<equiv> 1"
abbreviation TypeSeq :: DataType where "TypeSeq \<equiv> 2"
abbreviation TypeInt :: DataType where "TypeInt \<equiv> 3"
abbreviation TypeFloat :: DataType where "TypeFloat \<equiv> 4"
abbreviation TypeChar :: DataType where "TypeChar \<equiv> 5"
abbreviation TypeVarchar :: DataType where "TypeVarchar \<equiv> 6"
abbreviation TypeText :: DataType where "TypeText \<equiv> 7"
abbreviation TypeDate :: DataType where "TypeDate \<equiv> 8"
abbreviation TypeTime :: DataType where "TypeTime \<equiv> 9"
abbreviation TypeDatetime :: DataType where "TypeDatetime \<equiv> 10"
abbreviation TypeBlob :: DataType where "TypeBlob \<equiv> 11"
abbreviation TypeFile :: DataType where "TypeFile \<equiv> 12"
abbreviation TypeImage :: DataType where "TypeImage \<equiv> 13"

text \<open>The dynamic values an \<^verbatim>\<open>interface{}\<close> column value can hold.\<close>

datatype godata =
    GNil
  | GInt u64 | GInt8 "8 word" | GInt16 "16 word" | GInt32 "32 word" | GInt64 u64
  | GUint u64 | GUint8 "8 word" | GUint16 "16 word" | GUint32 "32 word" | GUint64 u64
  | GFloat32 float32 | GFloat64 float64
  | GString string | GBytes bytes | GBool bool | GTime int | GOther nat

record go_rt =
  rt_f64_i64 :: "float64 \<Rightarrow> u64"
  rt_f64_u64 :: "float64 \<Rightarrow> u64"
  rt_fdiv :: "float64 \<Rightarrow> float64 \<Rightarrow> float64"
  rt_fmt_v :: "godata \<Rightarrow> string"
  rt_fmt_s :: "godata \<Rightarrow> string"
  rt_fmt_f0 :: "float64 \<Rightarrow> string"
  rt_fmt_f :: "float64 \<Rightarrow> string"
  rt_parseFloat :: "string \<Rightarrow> float64 option"
  rt_parseTime :: "string \<Rightarrow> string \<Rightarrow> int option"
  rt_formatTime :: "string \<Rightarrow> int \<Rightarrow> string"
  rt_upper :: "string \<Rightarrow> string"
  rt_lower :: "string \<Rightarrow> string"
  rt_trim :: "string \<Rightarrow> string"

text \<open>\<^verbatim>\<open>int64(f)\<close> and \<^verbatim>\<open>uint64(f)\<close>: truncation when the result is representable.\<close>

definition f64_to_i64 :: "go_rt \<Rightarrow> float64 \<Rightarrow> u64" where
  "f64_to_i64 rt f =
     (if f64_finite f \<and> - (2 ^ 63) \<le> f64_trunc f \<and> f64_trunc f < 2 ^ 63
      then of_int (f64_trunc f) else rt_f64_i64 rt f)"

definition f64_to_u64 :: "go_rt \<Rightarrow> float64 \<Rightarrow> u64" where
  "f64_to_u64 rt f =
     (if f64_finite f \<and> 0 \<le> f64_trunc f \<and> f64_trunc f < 2 ^ 64
      then of_int (f64_trunc f) else rt_f64_u64 rt f)"

definition ToUpper :: "go_rt \<Rightarrow> string \<Rightarrow> string" where
  "ToUpper rt s = (if list_all is_ascii s then map upper_ascii s else rt_upper rt s)"

definition ToLower :: "go_rt \<Rightarrow> string \<Rightarrow> string" where
  "ToLower rt s = (if list_all is_ascii s then map lower_ascii s else rt_lower rt s)"

definition is_space_ascii :: "char \<Rightarrow> bool" where
  "is_space_ascii c \<longleftrightarrow> (of_char c :: nat) \<in> {9, 10, 11, 12, 13, 32}"

definition TrimSpace :: "go_rt \<Rightarrow> string \<Rightarrow> string" where
  "TrimSpace rt s =
     (if list_all is_ascii s
      then rev (dropWhile is_space_ascii (rev (dropWhile is_space_ascii s)))
      else rt_trim rt s)"

text \<open>\<^verbatim>\<open>fmt.Sprintf("%v", d)\<close> and \<^verbatim>\<open>fmt.Sprintf("%s", d)\<close>.\<close>

fun join_sp :: "string list \<Rightarrow> string" where
  "join_sp [] = []"
| "join_sp [s] = s"
| "join_sp (s # t # ss) = s @ CHR '' '' # join_sp (t # ss)"

fun fmt_v :: "go_rt \<Rightarrow> godata \<Rightarrow> string" where
  "fmt_v rt GNil = ''<nil>''"
| "fmt_v rt (GInt w) = dec_int (sint w)"
| "fmt_v rt (GInt8 w) = dec_int (sint w)"
| "fmt_v rt (GInt16 w) = dec_int (sint w)"
| "fmt_v rt (GInt32 w) = dec_int (sint w)"
| "fmt_v rt (GInt64 w) = dec_int (sint w)"
| "fmt_v rt (GUint w) = dec_nat (unat w)"
| "fmt_v rt (GUint8 w) = dec_nat (unat w)"
| "fmt_v rt (GUint16 w) = dec_nat (unat w)"
| "fmt_v rt (GUint32 w) = dec_nat (unat w)"
| "fmt_v rt (GUint64 w) = dec_nat (unat w)"
| "fmt_v rt (GString s) = s"
| "fmt_v rt (GBytes b) = ''['' @ join_sp (map (\<lambda>x. dec_nat (unat x)) b) @ '']''"
| "fmt_v rt (GBool b) = (if b then ''true'' else ''false'')"
| "fmt_v rt d = rt_fmt_v rt d"

fun fmt_s :: "go_rt \<Rightarrow> godata \<Rightarrow> string" where
  "fmt_s rt (GString s) = s"
| "fmt_s rt (GBytes b) = string_of b"
| "fmt_s rt d = rt_fmt_s rt d"

definition DataType_String :: "DataType \<Rightarrow> string" where
  "DataType_String dt =
     (if dt = TypeNull then ''NULL'' else if dt = TypeSeq then ''SEQ'' else if dt = TypeInt then ''INT''
      else if dt = TypeFloat then ''FLOAT'' else if dt = TypeChar then ''CHAR''
      else if dt = TypeVarchar then ''VARCHAR'' else if dt = TypeText then ''TEXT''
      else if dt = TypeDate then ''DATE'' else if dt = TypeTime then ''TIME''
      else if dt = TypeDatetime then ''DATETIME'' else if dt = TypeBlob then ''BLOB''
      else if dt = TypeFile then ''FILE'' else if dt = TypeImage then ''IMAGE'' else ''UNKNOWN'')"

text \<open>\<^verbatim>\<open>s[:strings.Index(s, "(")]\<close> when the parenthesis is not at position 0.\<close>

definition strip_paren :: "string \<Rightarrow> string" where
  "strip_paren s =
     (let p = takeWhile (\<lambda>c. c \<noteq> CHR ''('') s in if p \<noteq> [] \<and> length p < length s then p else s)"

definition ParseDataType :: "go_rt \<Rightarrow> string \<Rightarrow> DataType" where
  "ParseDataType rt s0 =
     (let s = strip_paren (ToUpper rt (TrimSpace rt s0))
      in if s \<in> {''SEQ'', ''SERIAL'', ''AUTO_INCREMENT'', ''BIGSERIAL''} then TypeSeq
         else if s \<in> {''INT'', ''INTEGER'', ''BIGINT'', ''SMALLINT'', ''TINYINT'', ''INT64''} then TypeInt
         else if s \<in> {''FLOAT'', ''DOUBLE'', ''DECIMAL'', ''NUMERIC'', ''REAL'', ''DOUBLE PRECISION''} then TypeFloat
         else if s \<in> {''CHAR'', ''CHARACTER''} then TypeChar
         else if s \<in> {''VARCHAR'', ''VARCHAR2'', ''NVARCHAR'', ''TEXT''} then TypeVarchar
         else if s \<in> {''CLOB'', ''LONGTEXT''} then TypeText
         else if s = ''DATE'' then TypeDate
         else if s = ''TIME'' then TypeTime
         else if s \<in> {''DATETIME'', ''TIMESTAMP'', ''TIMESTAMP WITHOUT TIME ZONE''} then TypeDatetime
         else if s \<in> {''BLOB'', ''BINARY'', ''VARBINARY'', ''BYTEA'', ''LONGBLOB''} then TypeBlob
         else if s = ''FILE'' then TypeFile
         else if s \<in> {''IMAGE'', ''IMG'', ''PICTURE''} then TypeImage
         else TypeUnknown)"

definition IsNumeric :: "DataType \<Rightarrow> bool" where
  "IsNumeric dt \<longleftrightarrow> dt = TypeInt \<or> dt = TypeFloat \<or> dt = TypeSeq"

definition IsString :: "DataType \<Rightarrow> bool" where
  "IsString dt \<longleftrightarrow> dt = TypeChar \<or> dt = TypeVarchar \<or> dt = TypeText"

definition IsDateTime :: "DataType \<Rightarrow> bool" where
  "IsDateTime dt \<longleftrightarrow> dt = TypeDate \<or> dt = TypeTime \<or> dt = TypeDatetime"

definition IsBinary :: "DataType \<Rightarrow> bool" where
  "IsBinary dt \<longleftrightarrow> dt = TypeBlob \<or> dt = TypeFile \<or> dt = TypeImage"

definition DataType_Size :: "DataType \<Rightarrow> int" where
  "DataType_Size dt =
     (if dt = TypeNull then 0 else if dt = TypeSeq \<or> dt = TypeInt then 8 else if dt = TypeFloat then 8
      else if dt = TypeDate \<or> dt = TypeTime \<or> dt = TypeDatetime then 8 else - 1)"

section \<open>Values\<close>

record BlobRef =
  ref_ID :: u64
  ref_Size :: u64

record Value =
  Type :: DataType
  Data :: godata
  IsNull :: bool
  ValueBlobRef :: "BlobRef option"

abbreviation mkValue :: "DataType \<Rightarrow> godata \<Rightarrow> Value" where
  "mkValue t d \<equiv> \<lparr>Type = t, Data = d, IsNull = False, ValueBlobRef = None\<rparr>"

fun detectType :: "godata \<Rightarrow> DataType" where
  "detectType (GInt _) = TypeInt"
| "detectType (GInt8 _) = TypeInt"
| "detectType (GInt16 _) = TypeInt"
| "detectType (GInt32 _) = TypeInt"
| "detectType (GInt64 _) = TypeInt"
| "detectType (GUint _) = TypeInt"
| "detectType (GUint8 _) = TypeInt"
| "detectType (GUint16 _) = TypeInt"
| "detectType (GUint32 _) = TypeInt"
| "detectType (GUint64 _) = TypeInt"
| "detectType (GFloat32 _) = TypeFloat"
| "detectType (GFloat64 _) = TypeFloat"
| "detectType (GString _) = TypeVarchar"
| "detectType (GTime _) = TypeDatetime"
| "detectType (GBytes _) = TypeBlob"
| "detectType (GBool _) = TypeInt"
| "detectType _ = TypeUnknown"

definition NewNullValue :: Value where
  "NewNullValue = \<lparr>Type = TypeNull, Data = GNil, IsNull = True, ValueBlobRef = None\<rparr>"

definition NewValue :: "godata \<Rightarrow> Value" where
  "NewValue data = (if data = GNil then NewNullValue else mkValue (detectType data) data)"

definition NewIntValue :: "u64 \<Rightarrow> Value" where "NewIntValue n = mkValue TypeInt (GInt64 n)"

definition NewFloatValue :: "float64 \<Rightarrow> Value" where "NewFloatValue f = mkValue TypeFloat (GFloat64 f)"

definition NewStringValue :: "string \<Rightarrow> Value" where "NewStringValue s = mkValue TypeVarchar (GString s)"

definition NewBoolValue :: "bool \<Rightarrow> Value" where
  "NewBoolValue b = (if b then mkValue TypeInt (GInt64 1) else mkValue TypeInt (GInt64 0))"

definition NewDateValue :: "int \<Rightarrow> Value" where "NewDateValue t = mkValue TypeDate (GTime t)"

definition NewDatetimeValue :: "int \<Rightarrow> Value" where "NewDatetimeValue t = mkValue TypeDatetime (GTime t)"

definition NewBlobValue :: "bytes \<Rightarrow> Value" where "NewBlobValue d = mkValue TypeBlob (GBytes d)"

definition NewImageValue :: "bytes \<Rightarrow> Value" where "NewImageValue d = mkValue TypeImage (GBytes d)"

definition NewBlobRefValue :: "u64 \<Rightarrow> u64 \<Rightarrow> Value" where
  "NewBlobRefValue blobID sz =
     \<lparr>Type = TypeBlob, Data = GNil, IsNull = False, ValueBlobRef = Some \<lparr>ref_ID = blobID, ref_Size = sz\<rparr>\<rparr>"

definition IsBlobRef :: "Value \<Rightarrow> bool" where
  "IsBlobRef v \<longleftrightarrow> ValueBlobRef v \<noteq> None"

definition BlobSize :: "Value \<Rightarrow> u64" where
  "BlobSize v =
     (if IsNull v then 0
      else case ValueBlobRef v of
             Some r \<Rightarrow> ref_Size r
           | None \<Rightarrow> (case Data v of GBytes b \<Rightarrow> of_nat (length b) | GString s \<Rightarrow> of_nat (length s) | _ \<Rightarrow> 0))"

definition Value_Clone :: "Value \<Rightarrow> Value" where
  "Value_Clone v =
     (if IsNull v then NewNullValue
      else \<lparr>Type = Type v, Data = Data v, IsNull = False, ValueBlobRef = ValueBlobRef v\<rparr>)"

subsection \<open>Conversions\<close>

datatype conv_error = ConvNull | ConvType | ConvSyntax | ConvRange | ConvTime

text \<open>\<^verbatim>\<open>strconv.ParseInt(s, 10, 64)\<close>: an optional sign and decimal digits.\<close>

definition is_digit_char :: "char \<Rightarrow> bool" where
  "is_digit_char c \<longleftrightarrow> 48 \<le> (of_char c :: nat) \<and> (of_char c :: nat) \<le> 57"

definition digits_val :: "string \<Rightarrow> nat" where
  "digits_val s = fold (\<lambda>c n. 10 * n + ((of_char c :: nat) - 48)) s 0"

definition ParseInt64 :: "string \<Rightarrow> conv_error + u64" where
  "ParseInt64 s =
     (let neg = (s \<noteq> [] \<and> hd s = CHR ''-'');
          ds = (if s \<noteq> [] \<and> (hd s = CHR ''-'' \<or> hd s = CHR ''+'') then tl s else s)
      in if ds = [] \<or> \<not> list_all is_digit_char ds then Inl ConvSyntax
         else if neg then (if digits_val ds \<le> 2 ^ 63 then Inr (of_int (- int (digits_val ds))) else Inl ConvRange)
         else (if digits_val ds < 2 ^ 63 then Inr (of_nat (digits_val ds)) else Inl ConvRange))"

text \<open>\<^verbatim>\<open>fmt.Sscanf(s, "%d", &i)\<close> on ASCII text: blanks, a sign, digits in the range of an \<^verbatim>\<open>int64\<close>; what follows is not read.\<close>

definition scanDecimal :: "string \<Rightarrow> u64 option" where
  "scanDecimal s =
     (let t = dropWhile (\<lambda>c. is_space_ascii c \<and> c \<noteq> char_of (10 :: nat)) s;
          (neg, ds) = (case t of c # u \<Rightarrow> if c = CHR ''-'' then (True, u) else if c = CHR ''+'' then (False, u) else (False, t)
                       | [] \<Rightarrow> (False, []));
          ds = takeWhile (\<lambda>c. 48 \<le> (of_char c :: nat) \<and> (of_char c :: nat) \<le> 57) ds;
          n = foldl (\<lambda>a c. 10 * a + (of_char c - 48)) (0 :: int) ds;
          i = (if neg then - n else n)
      in if ds = [] \<or> i < - (2 ^ 63) \<or> 2 ^ 63 \<le> i then None else Some (of_int i))"

fun dataToInt64 :: "go_rt \<Rightarrow> godata \<Rightarrow> conv_error + u64" where
  "dataToInt64 rt (GInt w) = Inr w"
| "dataToInt64 rt (GInt8 w) = Inr (scast w)"
| "dataToInt64 rt (GInt16 w) = Inr (scast w)"
| "dataToInt64 rt (GInt32 w) = Inr (scast w)"
| "dataToInt64 rt (GInt64 w) = Inr w"
| "dataToInt64 rt (GUint w) = Inr w"
| "dataToInt64 rt (GUint8 w) = Inr (ucast w)"
| "dataToInt64 rt (GUint16 w) = Inr (ucast w)"
| "dataToInt64 rt (GUint32 w) = Inr (ucast w)"
| "dataToInt64 rt (GUint64 w) = Inr w"
| "dataToInt64 rt (GFloat32 f) = Inr (f64_to_i64 rt (f32_to_f64 f))"
| "dataToInt64 rt (GFloat64 f) = Inr (f64_to_i64 rt f)"
| "dataToInt64 rt (GString s) = ParseInt64 s"
| "dataToInt64 rt (GBool b) = Inr (if b then 1 else 0)"
| "dataToInt64 rt _ = Inl ConvType"

definition ToInt64 :: "go_rt \<Rightarrow> Value \<Rightarrow> conv_error + u64" where
  "ToInt64 rt v = (if IsNull v then Inl ConvNull else dataToInt64 rt (Data v))"

fun dataToFloat64 :: "go_rt \<Rightarrow> godata \<Rightarrow> conv_error + float64" where
  "dataToFloat64 rt (GInt w) = Inr (i64_to_f64 w)"
| "dataToFloat64 rt (GInt8 w) = Inr (i64_to_f64 (scast w))"
| "dataToFloat64 rt (GInt16 w) = Inr (i64_to_f64 (scast w))"
| "dataToFloat64 rt (GInt32 w) = Inr (i64_to_f64 (scast w))"
| "dataToFloat64 rt (GInt64 w) = Inr (i64_to_f64 w)"
| "dataToFloat64 rt (GUint w) = Inr (u64_to_f64 w)"
| "dataToFloat64 rt (GUint8 w) = Inr (u64_to_f64 (ucast w))"
| "dataToFloat64 rt (GUint16 w) = Inr (u64_to_f64 (ucast w))"
| "dataToFloat64 rt (GUint32 w) = Inr (u64_to_f64 (ucast w))"
| "dataToFloat64 rt (GUint64 w) = Inr (u64_to_f64 w)"
| "dataToFloat64 rt (GFloat32 f) = Inr (f32_to_f64 f)"
| "dataToFloat64 rt (GFloat64 f) = Inr f"
| "dataToFloat64 rt (GString s) = (case rt_parseFloat rt s of None \<Rightarrow> Inl ConvSyntax | Some f \<Rightarrow> Inr f)"
| "dataToFloat64 rt _ = Inl ConvType"

definition ToFloat64 :: "go_rt \<Rightarrow> Value \<Rightarrow> conv_error + float64" where
  "ToFloat64 rt v = (if IsNull v then Inl ConvNull else dataToFloat64 rt (Data v))"

definition ToBool :: "go_rt \<Rightarrow> Value \<Rightarrow> bool" where
  "ToBool rt v =
     (if IsNull v then False
      else case Data v of
             GBool b \<Rightarrow> b
           | GInt _ \<Rightarrow> ToInt64 rt v \<noteq> Inr 0
           | GInt8 _ \<Rightarrow> ToInt64 rt v \<noteq> Inr 0
           | GInt16 _ \<Rightarrow> ToInt64 rt v \<noteq> Inr 0
           | GInt32 _ \<Rightarrow> ToInt64 rt v \<noteq> Inr 0
           | GInt64 _ \<Rightarrow> ToInt64 rt v \<noteq> Inr 0
           | GFloat32 f \<Rightarrow> \<not> f64_eq (f32_to_f64 f) 0
           | GFloat64 f \<Rightarrow> \<not> f64_eq f 0
           | GString s \<Rightarrow> ToLower rt s \<in> {''true'', ''1'', ''yes''}
           | _ \<Rightarrow> False)"

definition timeFormats :: "string list" where
  "timeFormats = [''2006-01-02 15:04:05'', ''2006-01-02T15:04:05'', ''2006-01-02 15:04:05.999'',
                  ''2006-01-02T15:04:05.999'', ''2006-01-02'', ''15:04:05'']"

fun firstTime :: "go_rt \<Rightarrow> string list \<Rightarrow> string \<Rightarrow> int option" where
  "firstTime rt [] s = None"
| "firstTime rt (f # fs) s = (case rt_parseTime rt f s of Some t \<Rightarrow> Some t | None \<Rightarrow> firstTime rt fs s)"

definition ToTime :: "go_rt \<Rightarrow> Value \<Rightarrow> conv_error + int" where
  "ToTime rt v =
     (if IsNull v then Inl ConvNull
      else case Data v of
             GTime t \<Rightarrow> Inr t
           | GString s \<Rightarrow> (case firstTime rt timeFormats s of Some t \<Rightarrow> Inr t | None \<Rightarrow> Inl ConvTime)
           | _ \<Rightarrow> Inl ConvType)"

definition ToBytes :: "Value \<Rightarrow> conv_error + bytes option" where
  "ToBytes v =
     (if IsNull v then Inr None
      else case Data v of GBytes b \<Rightarrow> Inr (Some b) | GString s \<Rightarrow> Inr (Some (bytes_of s)) | _ \<Rightarrow> Inl ConvType)"

definition ToString :: "go_rt \<Rightarrow> Value \<Rightarrow> string" where
  "ToString rt v =
     (if IsNull v then ''NULL''
      else if Type v = TypeInt \<or> Type v = TypeSeq then
        (case Data v of
           GInt w \<Rightarrow> dec_int (sint w)
         | GInt64 w \<Rightarrow> dec_int (sint w)
         | GInt32 w \<Rightarrow> dec_int (sint w)
         | GFloat64 f \<Rightarrow> dec_int (sint (f64_to_i64 rt f))
         | GFloat32 f \<Rightarrow> dec_int (sint (f64_to_i64 rt (f32_to_f64 f)))
         | d \<Rightarrow> fmt_v rt d)
      else if Type v = TypeFloat then
        (case Data v of
           GFloat64 f \<Rightarrow> if f64_eq f (i64_to_f64 (f64_to_i64 rt f)) then rt_fmt_f0 rt f else fmt_v rt (GFloat64 f)
         | d \<Rightarrow> fmt_v rt d)
      else if Type v = TypeDate then
        (case Data v of GTime t \<Rightarrow> rt_formatTime rt ''2006-01-02'' t | d \<Rightarrow> fmt_v rt d)
      else if Type v = TypeTime then
        (case Data v of GTime t \<Rightarrow> rt_formatTime rt ''15:04:05'' t | d \<Rightarrow> fmt_v rt d)
      else if Type v = TypeDatetime then
        (case Data v of GTime t \<Rightarrow> rt_formatTime rt ''2006-01-02 15:04:05'' t | d \<Rightarrow> fmt_v rt d)
      else if IsString (Type v) then fmt_s rt (Data v)
      else if Type v = TypeBlob then
        (case Data v of GBytes b \<Rightarrow> ''[BLOB '' @ dec_nat (length b) @ '' bytes]'' | d \<Rightarrow> fmt_v rt d)
      else if Type v = TypeFile then ''[FILE '' @ fmt_s rt (Data v) @ '']''
      else fmt_v rt (Data v))"

subsection \<open>Comparison\<close>

text \<open>Go compares strings bytewise.\<close>

fun str_less :: "string \<Rightarrow> string \<Rightarrow> bool" where
  "str_less _ [] = False"
| "str_less [] (_ # _) = True"
| "str_less (a # as) (b # bs) =
     ((of_char a :: nat) < of_char b \<or> a = b \<and> str_less as bs)"

definition cmp_by :: "('a \<Rightarrow> 'a \<Rightarrow> bool) \<Rightarrow> 'a \<Rightarrow> 'a \<Rightarrow> int" where
  "cmp_by lt a b = (if lt a b then - 1 else if lt b a then 1 else 0)"

definition Compare :: "go_rt \<Rightarrow> Value \<Rightarrow> Value \<Rightarrow> int" where
  "Compare rt v w =
     (if IsNull v \<and> IsNull w then 0
      else if IsNull v then - 1
      else if IsNull w then 1
      else case (ToFloat64 rt v, ToFloat64 rt w) of
             (Inr f, Inr g) \<Rightarrow> cmp_by f64_less f g
           | _ \<Rightarrow> (case (ToTime rt v, ToTime rt w) of
                      (Inr s, Inr t) \<Rightarrow> cmp_by (<) s t
                    | _ \<Rightarrow> cmp_by str_less (ToString rt v) (ToString rt w)))"

definition Equals :: "go_rt \<Rightarrow> Value \<Rightarrow> Value \<Rightarrow> bool" where
  "Equals rt v w \<longleftrightarrow> Compare rt v w = 0"

section \<open>Columns, tables and rows\<close>

record ColumnDef =
  col_Name :: string
  col_Type :: DataType
  col_Length :: int
  col_Precision :: int
  col_Nullable :: bool
  col_Default :: "Value option"
  col_PrimaryKey :: bool
  col_AutoInc :: bool

definition NewColumnDef :: "string \<Rightarrow> DataType \<Rightarrow> int \<Rightarrow> ColumnDef" where
  "NewColumnDef name typ len =
     \<lparr>col_Name = name, col_Type = typ, col_Length = len, col_Precision = 0, col_Nullable = True,
      col_Default = None, col_PrimaryKey = False, col_AutoInc = False\<rparr>"

definition WithNullable :: "bool \<Rightarrow> ColumnDef \<Rightarrow> ColumnDef" where
  "WithNullable nullable c = c\<lparr>col_Nullable := nullable\<rparr>"

definition WithPrimaryKey :: "bool \<Rightarrow> ColumnDef \<Rightarrow> ColumnDef" where
  "WithPrimaryKey pk c =
     (let c = c\<lparr>col_PrimaryKey := pk\<rparr> in if pk then c\<lparr>col_Nullable := False\<rparr> else c)"

definition WithAutoInc :: "bool \<Rightarrow> ColumnDef \<Rightarrow> ColumnDef" where
  "WithAutoInc auto c = c\<lparr>col_AutoInc := auto\<rparr>"

definition WithDefault :: "godata \<Rightarrow> ColumnDef \<Rightarrow> ColumnDef" where
  "WithDefault val c = c\<lparr>col_Default := Some (mkValue (col_Type c) val)\<rparr>"

definition ColumnDef_String :: "ColumnDef \<Rightarrow> string" where
  "ColumnDef_String c =
     col_Name c @ '' '' @ DataType_String (col_Type c) @
     (if 0 < col_Length c then ''('' @ dec_int (col_Length c) @ '')'' else []) @
     (if col_PrimaryKey c then '' PRIMARY KEY'' else []) @
     (if col_AutoInc c then '' AUTO INCREMENT'' else []) @
     (if \<not> col_Nullable c \<and> \<not> col_PrimaryKey c then '' NOT NULL'' else [])"

record TableInfo =
  tbl_ID :: u64
  tbl_Name :: string
  tbl_Columns :: "ColumnDef list"
  tbl_RowCount :: int

fun find_index :: "('a \<Rightarrow> bool) \<Rightarrow> 'a list \<Rightarrow> nat option" where
  "find_index P [] = None"
| "find_index P (x # xs) = (if P x then Some 0 else map_option Suc (find_index P xs))"

definition PrimaryKeyColumn :: "TableInfo \<Rightarrow> ColumnDef option" where
  "PrimaryKeyColumn t = List.find col_PrimaryKey (tbl_Columns t)"

definition ColumnIndex :: "go_rt \<Rightarrow> TableInfo \<Rightarrow> string \<Rightarrow> int \<times> bool" where
  "ColumnIndex rt t name =
     (case find_index (\<lambda>col. ToLower rt (col_Name col) = ToLower rt name) (tbl_Columns t) of
        Some i \<Rightarrow> (int i, True)
      | None \<Rightarrow> (- 1, False))"

definition ColumnNames :: "TableInfo \<Rightarrow> string list" where
  "ColumnNames t = map col_Name (tbl_Columns t)"

record Row =
  row_ID :: u64
  row_Data :: "Value list"

definition NewRow :: "Value list \<Rightarrow> Row" where
  "NewRow data = \<lparr>row_ID = 0, row_Data = data\<rparr>"

definition Row_Clone :: "Row \<Rightarrow> Row" where
  "Row_Clone r = \<lparr>row_ID = row_ID r, row_Data = map Value_Clone (row_Data r)\<rparr>"

text \<open>\<^verbatim>\<open>Result\<close> of \<^verbatim>\<open>src/executor/executor.go\<close>, with its rows: what a statement returns\<close>

record Result =
  res_Columns :: "string list"
  res_Rows :: "Row list"
  res_RowsAffected :: u64
  res_LastInsertID :: u64
  res_IsExecutionResult :: bool
  res_Message :: string

section \<open>Decimal integers\<close>

lemma of_char_digit_char: "d < 10 \<Longrightarrow> (of_char (digit_char d) :: nat) = 48 + d"
  by (simp add: digit_char_def)

lemma is_digit_digit_char: "d < 10 \<Longrightarrow> is_digit_char (digit_char d)"
  by (simp add: is_digit_char_def of_char_digit_char)

lemma digits_val_snoc: "digits_val (s @ [c]) = 10 * digits_val s + ((of_char c :: nat) - 48)"
  by (simp add: digits_val_def)

lemma dec_nat_spec: "dec_nat n \<noteq> [] \<and> list_all is_digit_char (dec_nat n) \<and> digits_val (dec_nat n) = n"
proof (induction n rule: dec_nat.induct)
  case (1 n)
  show ?case
  proof (cases "n < 10")
    case True
    then show ?thesis
      by (simp add: dec_nat.simps [of n] is_digit_digit_char of_char_digit_char digits_val_def)
  next
    case False
    with 1 show ?thesis
      by (simp add: dec_nat.simps [of n] digits_val_snoc of_char_digit_char is_digit_digit_char)
  qed
qed

lemma hd_dec_nat: "is_digit_char (hd (dec_nat n))"
  using dec_nat_spec [of n] by (cases "dec_nat n") simp_all

lemma ParseInt64_dec_nat: "n < 2 ^ 63 \<Longrightarrow> ParseInt64 (dec_nat n) = Inr (of_nat n)"
proof -
  assume n: "n < 2 ^ 63"
  have "hd (dec_nat n) \<noteq> CHR ''-''" "hd (dec_nat n) \<noteq> CHR ''+''"
    using hd_dec_nat [of n] by (auto simp: is_digit_char_def)
  with n dec_nat_spec [of n] show ?thesis by (simp add: ParseInt64_def Let_def)
qed

lemma ParseInt64_neg: "n \<le> 2 ^ 63 \<Longrightarrow> ParseInt64 (CHR ''-'' # dec_nat n) = Inr (of_int (- int n))"
  using dec_nat_spec [of n] by (simp add: ParseInt64_def Let_def)

lemma ParseInt64_dec_int: "ParseInt64 (dec_int (sint w)) = Inr (w :: u64)"
proof (cases "sint w < 0")
  case True
  have "- (2 ^ 63) \<le> sint w" using sint_ge [of w] by simp
  with True have "nat (- sint w) \<le> 2 ^ 63" by (simp add: nat_le_iff)
  from ParseInt64_neg [OF this] True show ?thesis by (simp add: dec_int_def)
next
  case False
  have "sint w < 2 ^ 63" using sint_lt [of w] by simp
  with False have "nat (sint w) < 2 ^ 63" by (simp add: nat_less_iff)
  from ParseInt64_dec_nat [OF this] False show ?thesis by (simp add: dec_int_def)
qed

section \<open>Comparison\<close>

lemma cmp_by_antisym:
  "(\<And>x y. lt x y \<Longrightarrow> \<not> lt y x) \<Longrightarrow> cmp_by lt a b = - cmp_by lt b a"
  by (auto simp: cmp_by_def)

lemma str_less_asym: "str_less s t \<Longrightarrow> \<not> str_less t s"
  by (induction s t rule: str_less.induct) auto

lemma str_less_total: "str_less s t \<or> s = t \<or> str_less t s"
proof (induction s arbitrary: t)
  case Nil
  then show ?case by (cases t) auto
next
  case (Cons a s)
  then show ?case
  proof (cases t)
    case (Cons b t')
    have "(of_char a :: nat) < of_char b \<or> a = b \<or> (of_char b :: nat) < of_char a"
      by (metis linorder_neq_iff of_char_eq_iff)
    with Cons Cons.IH [of t'] show ?thesis by auto
  qed simp
qed

lemma Compare_swap: "Compare rt v w = - Compare rt w v"
proof -
  have f: "cmp_by f64_less f g = - cmp_by f64_less g f" for f g
    by (rule cmp_by_antisym) (simp add: f64_less_def)
  have t: "cmp_by (<) s t = - cmp_by (<) t s" for s t :: int
    by (rule cmp_by_antisym) simp
  have s: "cmp_by str_less s t = - cmp_by str_less t s" for s t
    by (rule cmp_by_antisym) (rule str_less_asym)
  show ?thesis
  proof (cases "IsNull v \<or> IsNull w")
    case False
    then show ?thesis
      by (cases "ToFloat64 rt v"; cases "ToFloat64 rt w"; cases "ToTime rt v"; cases "ToTime rt w")
         (simp_all add: Compare_def, (rule f t s)+)
  qed (auto simp: Compare_def)
qed

text \<open>The unfoldings that evaluate float expressions on literals.\<close>

lemmas f64_eval = f64_less_def f64_nan_def f64_finite_def f64_exp_def f64_man_def f64_key_def f64_trunc_def
  i64_to_f64_def u64_to_f64_def nat_to_f64_def ilog2.simps Let_def mask_eq_exp_minus_1

section \<open>Properties\<close>

text \<open>
  An integer value printed by \<^verbatim>\<open>ToString\<close> and read back by \<^verbatim>\<open>ToInt64\<close> is the same 64-bit integer,
  for every \<^verbatim>\<open>int64\<close> including the smallest one.
\<close>
theorem int_text_roundtrip:
  "ToInt64 rt (NewStringValue (ToString rt (NewIntValue w))) = Inr w"
  by (simp add: ToInt64_def NewStringValue_def ToString_def NewIntValue_def ParseInt64_dec_int)

text \<open>
  \<^verbatim>\<open>Compare\<close> is antisymmetric on all values, NULL sorts before every other value and equals NULL, and
  \<^verbatim>\<open>Equals\<close> is symmetric.
\<close>
theorem compare_antisymmetric:
  "Compare rt v w = - Compare rt w v \<and>
   (IsNull v \<longrightarrow> Compare rt v w = (if IsNull w then 0 else - 1)) \<and>
   (Equals rt v w \<longleftrightarrow> Equals rt w v)"
proof (intro conjI)
  show "Compare rt v w = - Compare rt w v" by (rule Compare_swap)
  show "Equals rt v w \<longleftrightarrow> Equals rt w v" using Compare_swap [of rt v w] by (simp add: Equals_def)
qed (simp add: Compare_def)

text \<open>A runtime on which the witnesses run: no text parses as a float or a time, nothing is formatted.\<close>

definition rt_plain :: go_rt where
  "rt_plain = \<lparr>rt_f64_i64 = (\<lambda>_. 0), rt_f64_u64 = (\<lambda>_. 0), rt_fdiv = (\<lambda>_ _. 0), rt_fmt_v = (\<lambda>_. []), rt_fmt_s = (\<lambda>_. []),
     rt_fmt_f0 = (\<lambda>_. []), rt_fmt_f = (\<lambda>_. []), rt_parseFloat = (\<lambda>s. if s = ''9'' then Some 0x4022000000000000
       else if s = ''10'' then Some 0x4024000000000000 else None),
     rt_parseTime = (\<lambda>_ _. None), rt_formatTime = (\<lambda>_ _. []), rt_upper = id, rt_lower = id, rt_trim = id\<rparr>"

theorem compare_antisymmetric_witness:
  "IsNull NewNullValue \<and> Compare rt_plain NewNullValue (NewIntValue 7) = - 1"
  using compare_antisymmetric [of rt_plain NewNullValue "NewIntValue 7"] by (simp add: NewNullValue_def NewIntValue_def)

text \<open>
  \<^verbatim>\<open>Compare\<close> is not an order on strings: text that reads as a number is compared as a number and
  other text bytewise, so "9" is below "10", "10" below "1a" and "1a" below "9". The hypotheses say what
  \<^verbatim>\<open>strconv.ParseFloat\<close> and \<^verbatim>\<open>time.Parse\<close> do with these three texts.
\<close>
theorem compare_not_transitive:
  assumes "rt_parseFloat rt ''9'' = Some 0x4022000000000000" "rt_parseFloat rt ''10'' = Some 0x4024000000000000"
    and "rt_parseFloat rt ''1a'' = None" "\<forall>f. rt_parseTime rt f ''1a'' = None"
  shows "Compare rt (NewStringValue ''9'') (NewStringValue ''10'') = - 1 \<and>
    Compare rt (NewStringValue ''10'') (NewStringValue ''1a'') = - 1 \<and>
    Compare rt (NewStringValue ''1a'') (NewStringValue ''9'') = - 1"
proof (intro conjI)
  have "f64_less 0x4022000000000000 0x4024000000000000" by (simp add: f64_eval)
  then show "Compare rt (NewStringValue ''9'') (NewStringValue ''10'') = - 1"
    using assms(1,2) by (simp add: Compare_def NewStringValue_def ToFloat64_def cmp_by_def)
qed (use assms in \<open>simp_all add: Compare_def NewStringValue_def ToFloat64_def cmp_by_def ToTime_def timeFormats_def
       ToString_def IsString_def split: option.split\<close>)

theorem compare_not_transitive_witness:
  "Compare rt_plain (NewStringValue ''9'') (NewStringValue ''10'') = - 1 \<and>
   Compare rt_plain (NewStringValue ''10'') (NewStringValue ''1a'') = - 1 \<and>
   Compare rt_plain (NewStringValue ''1a'') (NewStringValue ''9'') = - 1"
  by (rule compare_not_transitive) (simp_all add: rt_plain_def)

text \<open>
  Integers are compared through \<^verbatim>\<open>float64\<close>: the distinct integers 9007199254740992 and
  9007199254740993 are equal for \<^verbatim>\<open>Equals\<close>, so a lookup of one finds the other.
\<close>
theorem equals_confuses_large_ints:
  "Equals rt (NewIntValue 9007199254740992) (NewIntValue 9007199254740993) \<and>
   \<not> Equals rt (NewIntValue 9007199254740991) (NewIntValue 9007199254740992)"
proof -
  have "i64_to_f64 9007199254740992 = i64_to_f64 9007199254740993" by (simp add: f64_eval)
  moreover have "f64_less (i64_to_f64 9007199254740991) (i64_to_f64 9007199254740992)" by (simp add: f64_eval)
  ultimately show ?thesis
    by (simp add: Equals_def Compare_def NewIntValue_def ToFloat64_def cmp_by_def f64_less_def)
qed

text \<open>
  The name of every data type parses back to that type, whatever the runtime does outside ASCII,
  except that \<^verbatim>\<open>TEXT\<close> parses as VARCHAR and that the names of the NULL and unknown types parse as unknown.
\<close>
theorem data_type_names_parse:
  "2 \<le> t \<Longrightarrow> t \<le> 13 \<Longrightarrow>
   ParseDataType rt (DataType_String t) = (if t = TypeText then TypeVarchar else t)"
proof -
  assume "2 \<le> t" "t \<le> 13"
  then have "t \<in> {2, 3, 4, 5, 6, 7, 8, 9, 10, 11, 12, 13}" unfolding insert_iff empty_iff by presburger
  then show ?thesis
    by (elim insertE emptyE) (simp_all add: DataType_String_def ParseDataType_def ToUpper_def TrimSpace_def is_ascii_def
        upper_ascii_def strip_paren_def is_space_ascii_def)
qed

theorem data_type_names_parse_witness:
  "ParseDataType rt_plain (DataType_String TypeText) = TypeVarchar \<and>
   ParseDataType rt_plain (DataType_String TypeImage) = TypeImage"
  using data_type_names_parse [of TypeText rt_plain] data_type_names_parse [of TypeImage rt_plain] by simp

end
