(* ===== verification/Utf8.thy ===== *)
theory Utf8
  imports Prelude
begin

text \<open>
  The UTF-8 functions of the Go library that the sources rely on: \<open>decodeRune\<close> is
  \<^verbatim>\<open>utf8.DecodeRuneInString\<close>, \<open>encodeRune\<close> is \<^verbatim>\<open>strings.Builder.WriteRune\<close>, \<open>runesOf\<close> is the conversion
  \<^verbatim>\<open>[]rune(s)\<close> and the order in which \<^verbatim>\<open>range\<close> visits a string, \<open>textOf\<close> is \<^verbatim>\<open>string(runes)\<close>. A rune is a natural
  number. Shown is that decoding inverts encoding on every valid rune.
\<close>

section \<open>Runes\<close>

type_synonym rune = nat

abbreviation RuneError :: rune where "RuneError \<equiv> 0xFFFD"

definition chr_code :: "char \<Rightarrow> nat" where
  "chr_code c = of_char c"

definition is_cont :: "nat \<Rightarrow> nat \<Rightarrow> nat \<Rightarrow> bool" where
  "is_cont lo hi b \<longleftrightarrow> lo \<le> b \<and> b \<le> hi"

definition decodeRune :: "string \<Rightarrow> rune \<times> nat" where
  "decodeRune s =
     (let b = (\<lambda>i. if i < length s then chr_code (s ! i) else 0); b0 = b 0; b1 = b 1; b2 = b 2; b3 = b 3;
          c = is_cont 0x80 0xBF
      in if b0 < 0x80 then (b0, 1)
         else if 0xC2 \<le> b0 \<and> b0 \<le> 0xDF then
           (if c b1 then ((b0 - 0xC0) * 64 + (b1 - 0x80), 2) else (RuneError, 1))
         else if 0xE0 \<le> b0 \<and> b0 \<le> 0xEF then
           (if is_cont (if b0 = 0xE0 then 0xA0 else 0x80) (if b0 = 0xED then 0x9F else 0xBF) b1 \<and> c b2
            then ((b0 - 0xE0) * 4096 + (b1 - 0x80) * 64 + (b2 - 0x80), 3) else (RuneError, 1))
         else if 0xF0 \<le> b0 \<and> b0 \<le> 0xF4 then
           (if is_cont (if b0 = 0xF0 then 0x90 else 0x80) (if b0 = 0xF4 then 0x8F else 0xBF) b1 \<and> c b2 \<and> c b3
            then ((b0 - 0xF0) * 262144 + (b1 - 0x80) * 4096 + (b2 - 0x80) * 64 + (b3 - 0x80), 4) else (RuneError, 1))
         else (RuneError, 1))"

definition encodeRune :: "rune \<Rightarrow> string" where
  "encodeRune r =
     (let r = (if 0x10FFFF < r \<or> (0xD800 \<le> r \<and> r \<le> 0xDFFF) then RuneError else r)
      in map char_of
           (if r < 0x80 then [r]
            else if r < 0x800 then [0xC0 + r div 64, 0x80 + r mod 64]
            else if r < 0x10000 then [0xE0 + r div 4096, 0x80 + r div 64 mod 64, 0x80 + r mod 64]
            else [0xF0 + r div 262144, 0x80 + r div 4096 mod 64, 0x80 + r div 64 mod 64, 0x80 + r mod 64]))"

text \<open>\<^verbatim>\<open>unicode.IsSpace\<close>\<close>

definition IsSpace :: "rune \<Rightarrow> bool" where
  "IsSpace r \<longleftrightarrow> r \<in> {9, 10, 11, 12, 13, 32, 0x85, 0xA0, 0x1680, 0x2028, 0x2029, 0x202F, 0x205F, 0x3000}
     \<or> 0x2000 \<le> r \<and> r \<le> 0x200A"

section \<open>Decoding what was encoded\<close>

definition valid_rune :: "rune \<Rightarrow> bool" where
  "valid_rune r \<longleftrightarrow> r < 0xD800 \<or> (0xE000 \<le> r \<and> r \<le> 0x10FFFF)"

lemma chr_code_char_of: "n < 256 \<Longrightarrow> chr_code (char_of n) = n"
  by (simp add: chr_code_def)

text \<open>The byte sequences that \<^verbatim>\<open>utf8.DecodeRuneInString\<close> accepts, by their length\<close>

lemma decode_1: "a < 0x80 \<Longrightarrow> decodeRune (map char_of [a] @ t) = (a, 1)"
  by (simp add: decodeRune_def Let_def chr_code_char_of)

lemma decode_2:
  "2 \<le> a \<Longrightarrow> a < 32 \<Longrightarrow> b < 64 \<Longrightarrow> decodeRune (map char_of [0xC0 + a, 0x80 + b] @ t) = (a * 64 + b, 2)"
  by (simp add: decodeRune_def Let_def chr_code_char_of is_cont_def)

lemma decode_3:
  "a < 16 \<Longrightarrow> b < 64 \<Longrightarrow> c < 64 \<Longrightarrow> (a = 0 \<Longrightarrow> 32 \<le> b) \<Longrightarrow> (a = 13 \<Longrightarrow> b \<le> 31)
   \<Longrightarrow> decodeRune (map char_of [0xE0 + a, 0x80 + b, 0x80 + c] @ t) = (a * 4096 + b * 64 + c, 3)"
  by (simp add: decodeRune_def Let_def chr_code_char_of is_cont_def)

lemma decode_4:
  "a < 5 \<Longrightarrow> b < 64 \<Longrightarrow> c < 64 \<Longrightarrow> d < 64 \<Longrightarrow> (a = 0 \<Longrightarrow> 16 \<le> b) \<Longrightarrow> (a = 4 \<Longrightarrow> b \<le> 15)
   \<Longrightarrow> decodeRune (map char_of [0xF0 + a, 0x80 + b, 0x80 + c, 0x80 + d] @ t)
       = (a * 262144 + b * 4096 + c * 64 + d, 4)"
  by (simp add: decodeRune_def Let_def chr_code_char_of is_cont_def)

lemma decode_encode_3: "0x800 \<le> r \<Longrightarrow> r < 0x10000 \<Longrightarrow> valid_rune r \<Longrightarrow> decodeRune (encodeRune r @ t) = (r, 3)"
proof -
  assume r: "0x800 \<le> r" "r < 0x10000" "valid_rune r"
  define a b c where abc: "a = r div 4096" "b = r div 64 mod 64" "c = r mod 64"
  have a: "a = r div 64 div 64" unfolding abc by (simp add: div_mult2_eq [symmetric])
  have eq: "r = a * 4096 + b * 64 + c"
    using div_mult_mod_eq [of r 64] div_mult_mod_eq [of "r div 64" 64] unfolding a abc(2,3) by linarith
  have lt: "b < 64" "c < 64" unfolding abc by auto
  have "encodeRune r = map char_of [0xE0 + a, 0x80 + b, 0x80 + c]"
    using r unfolding abc by (auto simp: encodeRune_def Let_def valid_rune_def)
  moreover have "a < 16" "a = 0 \<Longrightarrow> 32 \<le> b" "a = 13 \<Longrightarrow> b \<le> 31"
    using r lt unfolding valid_rune_def eq by linarith+
  ultimately show ?thesis using lt by (simp only: decode_3 eq [symmetric])
qed

lemma decode_encode_4: "0x10000 \<le> r \<Longrightarrow> r \<le> 0x10FFFF \<Longrightarrow> decodeRune (encodeRune r @ t) = (r, 4)"
proof -
  assume r: "0x10000 \<le> r" "r \<le> 0x10FFFF"
  define a b c d where abc: "a = r div 262144" "b = r div 4096 mod 64" "c = r div 64 mod 64" "d = r mod 64"
  have h: "r div 4096 = r div 64 div 64" "a = r div 64 div 64 div 64" unfolding abc by (simp_all add: div_mult2_eq [symmetric])
  have eq: "r = a * 262144 + b * 4096 + c * 64 + d"
    using div_mult_mod_eq [of r 64] div_mult_mod_eq [of "r div 64" 64] div_mult_mod_eq [of "r div 64 div 64" 64]
    unfolding h abc(2-4) by linarith
  have lt: "b < 64" "c < 64" "d < 64" unfolding abc by auto
  have "encodeRune r = map char_of [0xF0 + a, 0x80 + b, 0x80 + c, 0x80 + d]"
    using r unfolding abc by (auto simp: encodeRune_def Let_def)
  moreover have "a < 5" "a = 0 \<Longrightarrow> 16 \<le> b" "a = 4 \<Longrightarrow> b \<le> 15" using r lt unfolding eq by linarith+
  ultimately show ?thesis using lt by (simp only: decode_4 eq [symmetric])
qed

lemma decode_encode_1: "r < 0x80 \<Longrightarrow> decodeRune (encodeRune r @ t) = (r, 1)"
  using decode_1 [of r t] by (simp add: encodeRune_def Let_def)

lemma decode_encode_2: "0x80 \<le> r \<Longrightarrow> r < 0x800 \<Longrightarrow> decodeRune (encodeRune r @ t) = (r, 2)"
proof -
  assume r: "0x80 \<le> r" "r < 0x800"
  then have "encodeRune r = map char_of [0xC0 + r div 64, 0x80 + r mod 64]" by (simp add: encodeRune_def Let_def)
  moreover have "2 \<le> r div 64" "r div 64 < 32" "r mod 64 < 64" using r by auto
  ultimately show ?thesis using div_mult_mod_eq [of r 64] by (simp only: decode_2)
qed

lemma length_encodeRune:
  "length (encodeRune r) = (if r < 0x80 then 1 else if r < 0x800 then 2 else if r < 0x10000 \<or> \<not> valid_rune r then 3 else 4)"
  by (auto simp: encodeRune_def Let_def valid_rune_def)

lemma decode_encode: "valid_rune r \<Longrightarrow> decodeRune (encodeRune r @ t) = (r, length (encodeRune r))"
  using decode_encode_1 [of r t] decode_encode_2 [of r t] decode_encode_3 [of r t] decode_encode_4 [of r t]
  by (cases "r < 0x80"; cases "r < 0x800"; cases "r < 0x10000") (auto simp: length_encodeRune valid_rune_def)

lemma encodeRune_not_Nil [simp]: "encodeRune r \<noteq> []"
  by (simp add: encodeRune_def Let_def)

section \<open>Strings as lists of runes\<close>

lemma decodeRune_width: "1 \<le> snd (decodeRune s)"
  by (simp add: decodeRune_def Let_def)

function runesOf :: "string \<Rightarrow> rune list" where
  "runesOf s = (if s = [] then [] else fst (decodeRune s) # runesOf (drop (snd (decodeRune s)) s))"
  by pat_completeness auto
termination
proof (relation "measure length")
  fix s :: string
  assume "s \<noteq> []"
  with decodeRune_width [of s] show "(drop (snd (decodeRune s)) s, s) \<in> measure length" by simp
qed simp

declare runesOf.simps [simp del]

definition textOf :: "rune list \<Rightarrow> string" where
  "textOf rs = concat (map encodeRune rs)"

definition RuneCountInString :: "string \<Rightarrow> nat" where
  "RuneCountInString s = length (runesOf s)"

lemma runesOf_encoded: "valid_rune r \<Longrightarrow> runesOf (encodeRune r @ t) = r # runesOf t"
  using decode_encode [of r t] by (subst runesOf.simps) simp

lemma runesOf_textOf: "list_all valid_rune rs \<Longrightarrow> runesOf (textOf rs) = rs"
  by (induction rs) (simp_all add: textOf_def runesOf_encoded runesOf.simps [of "[]"])

end
