(* ===== verification/Json.thy ===== *)
theory Json
  imports Values Utf8
begin

text \<open>
  The JSON form of the stored objects. \<open>json\<close> is the tree a JSON text denotes (a number without fraction
  or exponent is \<open>JInt\<close>), \<open>iface\<close> is what \<^verbatim>\<open>encoding/json\<close> decodes such a text to when the target is an
  \<^verbatim>\<open>interface{}\<close>: numbers become \<^verbatim>\<open>float64\<close>, objects \<^verbatim>\<open>map[string]interface{}\<close>. The definitions follow the struct
  tags and the methods \<^verbatim>\<open>MarshalJSON\<close> and \<^verbatim>\<open>UnmarshalJSON\<close> of \<^verbatim>\<open>src/types/types.go\<close>; the text of a tree is the
  concern of the standard library and a parameter of the theories that write files.
\<close>

section \<open>Trees\<close>

datatype json =
  JNull | JBool bool | JInt int | JFloat float64 | JStr string | JArr "json list" | JObj "(string \<times> json) list"

datatype iface = IData godata | IArr "iface list" | IMap "(string \<times> iface) list"

abbreviation INil :: iface where "INil \<equiv> IData GNil"

definition int_to_f64 :: "int \<Rightarrow> float64" where
  "int_to_f64 i = (if i < 0 then nat_to_f64 (nat (- i)) OR push_bit 63 1 else nat_to_f64 (nat i))"

primrec iface_of :: "json \<Rightarrow> iface" where
  "iface_of JNull = INil"
| "iface_of (JBool b) = IData (GBool b)"
| "iface_of (JInt i) = IData (GFloat64 (int_to_f64 i))"
| "iface_of (JFloat f) = IData (GFloat64 f)"
| "iface_of (JStr s) = IData (GString s)"
| "iface_of (JArr js) = IArr (map iface_of js)"
| "iface_of (JObj kvs) = IMap (map (map_prod id iface_of) kvs)"

text \<open>\<^verbatim>\<open>m[k]\<close> of a decoded object, \<open>None\<close> when the key is missing or the value is not a map\<close>

definition ifield :: "string \<Rightarrow> iface \<Rightarrow> iface option" where
  "ifield k v = (case v of IMap m \<Rightarrow> map_of m k | _ \<Rightarrow> None)"

section \<open>Standard encodings of leaves\<close>

text \<open>\<^verbatim>\<open>base64.StdEncoding\<close>, the form of a \<^verbatim>\<open>[]byte\<close>\<close>

definition base64_char :: "nat \<Rightarrow> char" where
  "base64_char n =
     char_of (if n < 26 then 65 + n else if n < 52 then 71 + n else if n < 62 then n - 4 else if n = 62 then 43 else 47)"

fun base64 :: "bytes \<Rightarrow> string" where
  "base64 [] = []"
| "base64 [a] = (let n = unat a * 16 in [base64_char (n div 64), base64_char (n mod 64), CHR ''='', CHR ''=''])"
| "base64 [a, b] =
     (let n = unat a * 1024 + unat b * 4
      in [base64_char (n div 4096), base64_char (n div 64 mod 64), base64_char (n mod 64), CHR ''=''])"
| "base64 (a # b # c # bs) =
     (let n = unat a * 65536 + unat b * 256 + unat c
      in base64_char (n div 262144) # base64_char (n div 4096 mod 64) # base64_char (n div 64 mod 64)
         # base64_char (n mod 64) # base64 bs)"

text \<open>Strings are written as valid UTF-8; a float that is not negative zero and integral below \<open>10^21\<close> prints as an integer.\<close>

definition json_string :: "string \<Rightarrow> json" where
  "json_string s = JStr (textOf (runesOf s))"

definition json_float :: "float64 \<Rightarrow> json option" where
  "json_float f =
     (if \<not> f64_finite f then None
      else if int_to_f64 (f64_trunc f) = f \<and> \<bar>f64_trunc f\<bar> < 10 ^ 21 then Some (JInt (f64_trunc f))
      else Some (JFloat f))"

text \<open>\<^verbatim>\<open>time.RFC3339Nano\<close>, in which \<^verbatim>\<open>time.Time\<close> marshals itself\<close>

definition RFC3339Nano :: string where "RFC3339Nano = ''2006-01-02T15:04:05.999999999Z07:00''"
definition RFC3339 :: string where "RFC3339 = ''2006-01-02T15:04:05Z07:00''"

fun json_of_data :: "go_rt \<Rightarrow> godata \<Rightarrow> json option" where
  "json_of_data rt GNil = Some JNull"
| "json_of_data rt (GInt w) = Some (JInt (sint w))"
| "json_of_data rt (GInt8 w) = Some (JInt (sint w))"
| "json_of_data rt (GInt16 w) = Some (JInt (sint w))"
| "json_of_data rt (GInt32 w) = Some (JInt (sint w))"
| "json_of_data rt (GInt64 w) = Some (JInt (sint w))"
| "json_of_data rt (GUint w) = Some (JInt (uint w))"
| "json_of_data rt (GUint8 w) = Some (JInt (uint w))"
| "json_of_data rt (GUint16 w) = Some (JInt (uint w))"
| "json_of_data rt (GUint32 w) = Some (JInt (uint w))"
| "json_of_data rt (GUint64 w) = Some (JInt (uint w))"
| "json_of_data rt (GFloat32 f) = Option.bind (rt_parseFloat rt (fmt_v rt (GFloat32 f))) json_float"
| "json_of_data rt (GFloat64 f) = json_float f"
| "json_of_data rt (GString s) = Some (json_string s)"
| "json_of_data rt (GBytes b) = Some (JStr (base64 b))"
| "json_of_data rt (GBool b) = Some (JBool b)"
| "json_of_data rt (GTime t) = Some (JStr (rt_formatTime rt RFC3339Nano t))"
| "json_of_data rt (GOther n) = None"

section \<open>Values\<close>

definition blobRefJSON :: "BlobRef \<Rightarrow> json" where
  "blobRefJSON r = JObj [(''id'', JInt (uint (ref_ID r))), (''size'', JInt (sint (ref_Size r)))]"

text \<open>The field \<^verbatim>\<open>Data\<close> of \<^verbatim>\<open>valueJSON\<close>: what \<^verbatim>\<open>MarshalJSON\<close> stores there, nil included.\<close>

definition valueJSONData :: "go_rt \<Rightarrow> Value \<Rightarrow> godata" where
  "valueJSONData rt v =
     (if IsNull v \<or> ValueBlobRef v \<noteq> None then GNil
      else if IsDateTime (Type v) then
        (case Data v of GTime t \<Rightarrow> GString (rt_formatTime rt RFC3339 t) | _ \<Rightarrow> GNil)
      else if Type v = TypeBlob then (case Data v of GBytes b \<Rightarrow> GBytes b | _ \<Rightarrow> GNil)
      else Data v)"

definition Value_MarshalJSON :: "go_rt \<Rightarrow> Value \<Rightarrow> json option" where
  "Value_MarshalJSON rt v =
     map_option
       (\<lambda>d. JObj ([(''type'', JStr (DataType_String (Type v)))]
                  @ (if valueJSONData rt v = GNil then [] else [(''data'', d)])
                  @ [(''is_null'', JBool (IsNull v))]
                  @ (case (IsNull v, ValueBlobRef v) of (False, Some r) \<Rightarrow> [(''blob_ref'', blobRefJSON r)] | _ \<Rightarrow> [])))
       (json_of_data rt (valueJSONData rt v))"

text \<open>Decoding into a struct field: a missing key or null leaves the zero value, another kind of value is an error.\<close>

definition jsonKey :: "string \<Rightarrow> (string \<times> json) list \<Rightarrow> json" where
  "jsonKey k kvs = (case map_of kvs k of Some j \<Rightarrow> j | None \<Rightarrow> JNull)"

definition get_string :: "json \<Rightarrow> string option" where
  "get_string j = (case j of JNull \<Rightarrow> Some [] | JStr s \<Rightarrow> Some s | _ \<Rightarrow> None)"

definition get_bool :: "json \<Rightarrow> bool option" where
  "get_bool j = (case j of JNull \<Rightarrow> Some False | JBool b \<Rightarrow> Some b | _ \<Rightarrow> None)"

definition get_uint :: "int \<Rightarrow> json \<Rightarrow> int option" where
  "get_uint bound j =
     (case j of JNull \<Rightarrow> Some 0 | JInt i \<Rightarrow> if 0 \<le> i \<and> i < bound then Some i else None | _ \<Rightarrow> None)"

definition get_int64 :: "json \<Rightarrow> u64 option" where
  "get_int64 j =
     (case j of JNull \<Rightarrow> Some 0 | JInt i \<Rightarrow> if - (2 ^ 63) \<le> i \<and> i < 2 ^ 63 then Some (of_int i) else None | _ \<Rightarrow> None)"

definition get_blobRef :: "json \<Rightarrow> BlobRef option option" where
  "get_blobRef j =
     (case j of
        JNull \<Rightarrow> Some None
      | JObj kvs \<Rightarrow>
          Option.bind (get_uint (2 ^ 64) (jsonKey ''id'' kvs)) (\<lambda>i.
            map_option (\<lambda>n. Some \<lparr>ref_ID = of_int i, ref_Size = n\<rparr>) (get_int64 (jsonKey ''size'' kvs)))
      | _ \<Rightarrow> None)"

text \<open>Values that hold an array or an object have no column type; they are kept as an unspecified datum.\<close>

definition data_of_iface :: "iface \<Rightarrow> godata" where
  "data_of_iface v = (case v of IData d \<Rightarrow> d | IArr _ \<Rightarrow> GOther 0 | IMap _ \<Rightarrow> GOther 1)"

definition Value_UnmarshalJSON :: "go_rt \<Rightarrow> json \<Rightarrow> Value option" where
  "Value_UnmarshalJSON rt j =
     (case j of
        JObj kvs \<Rightarrow>
          Option.bind (get_string (jsonKey ''type'' kvs)) (\<lambda>t.
          Option.bind (get_bool (jsonKey ''is_null'' kvs)) (\<lambda>isNull.
          map_option
            (\<lambda>ref.
               let typ = ParseDataType rt t;
                   raw = data_of_iface (iface_of (jsonKey ''data'' kvs));
                   data = (if isNull \<or> raw = GNil \<or> ref \<noteq> None then GNil
                           else if typ = TypeInt \<or> typ = TypeSeq then
                             (case raw of GFloat64 f \<Rightarrow> GInt64 (f64_to_i64 rt f) | d \<Rightarrow> d)
                           else if IsDateTime typ then
                             (case raw of
                                GString s \<Rightarrow> GTime (case rt_parseTime rt RFC3339 s of Some u \<Rightarrow> u | None \<Rightarrow> 0)
                              | _ \<Rightarrow> GNil)
                           else raw)
               in \<lparr>Type = typ, Data = data, IsNull = isNull, ValueBlobRef = ref\<rparr>)
            (get_blobRef (jsonKey ''blob_ref'' kvs))))
      | _ \<Rightarrow> None)"

section \<open>Columns and tables\<close>

fun map_all :: "('a \<Rightarrow> 'b option) \<Rightarrow> 'a list \<Rightarrow> 'b list option" where
  "map_all f [] = Some []"
| "map_all f (x # xs) = Option.bind (f x) (\<lambda>y. map_option ((#) y) (map_all f xs))"

lemma map_all_cong [fundef_cong]:
  "xs = ys \<Longrightarrow> (\<And>x. x \<in> set ys \<Longrightarrow> f x = g x) \<Longrightarrow> map_all f xs = map_all g ys"
  by (induction ys arbitrary: xs) auto

definition columnJSON :: "go_rt \<Rightarrow> ColumnDef \<Rightarrow> json option" where
  "columnJSON rt c =
     map_option
       (\<lambda>dflt. JObj ([(''name'', json_string (col_Name c)), (''type'', JInt (col_Type c))]
          @ (if col_Length c = 0 then [] else [(''length'', JInt (col_Length c))])
          @ (if col_Precision c = 0 then [] else [(''precision'', JInt (col_Precision c))])
          @ [(''nullable'', JBool (col_Nullable c))] @ dflt
          @ [(''primary_key'', JBool (col_PrimaryKey c)), (''auto_inc'', JBool (col_AutoInc c))]))
       (case col_Default c of
          None \<Rightarrow> Some []
        | Some v \<Rightarrow> map_option (\<lambda>j. [(''default'', j)]) (Value_MarshalJSON rt v))"

lemma map_all_Some: "(\<And>x. x \<in> set xs \<Longrightarrow> f x = Some (g x)) \<Longrightarrow> map_all f xs = Some (map g xs)"
  by (induction xs) auto

lemma map_all_eq_Some: "map_all f xs = Some ys \<longleftrightarrow> map f xs = map Some ys"
  by (induction xs arbitrary: ys) (auto simp: map_eq_Cons_conv Cons_eq_map_conv split: bind_splits)

section \<open>Numbers through JSON\<close>

text \<open>Integers of up to 53 bits are exact as a \<^verbatim>\<open>float64\<close>.\<close>

lemma ilog2_bounds: "0 < n \<Longrightarrow> 2 ^ ilog2 n \<le> n \<and> n < 2 ^ Suc (ilog2 n)"
proof (induction n rule: ilog2.induct)
  case (1 n)
  show ?case
  proof (cases "n < 2")
    case True
    with 1(2) show ?thesis by (simp add: ilog2.simps [of n])
  next
    case False
    then have "2 ^ ilog2 (n div 2) \<le> n div 2 \<and> n div 2 < 2 ^ Suc (ilog2 (n div 2))" using 1 by simp
    with False show ?thesis by (subst (1 2) ilog2.simps) (simp, linarith)
  qed
qed

lemma f64_fields: "f64_exp f = unat f div 2 ^ 52 mod 2 ^ 11" "f64_man f = unat f mod 2 ^ 52"
  by (simp_all add: f64_exp_def f64_man_def take_bit_eq_mask [symmetric] take_bit_eq_mod drop_bit_eq_div
      unat_div_distrib unat_mod_distrib)

lemma f64_sign: "bit f 63 \<longleftrightarrow> 2 ^ 63 \<le> unat f" for f :: float64
proof -
  have "unat f div 2 ^ 63 < 2" using unsigned_less [of f, where 'a = nat] by (simp add: less_mult_imp_div_less)
  then have "bit (unat f) 63 \<longleftrightarrow> 2 ^ 63 \<le> unat f"
    by (auto simp: bit_iff_odd less_2_cases_iff div_eq_0_iff not_le)
  then show ?thesis by (simp add: bit_unsigned_iff)
qed

lemma unat_of_nat_f64: "v < 2 ^ 63 \<Longrightarrow> unat (of_nat v :: float64) = v"
  by (simp add: unat_of_nat)

lemma f64_trunc_nat_to_f64:
  assumes "n < 2 ^ 53"
  shows "f64_finite (nat_to_f64 n)" "f64_trunc (nat_to_f64 n) = int n" "unat (nat_to_f64 n) < 2 ^ 63"
proof -
  have "f64_finite (nat_to_f64 n) \<and> f64_trunc (nat_to_f64 n) = int n \<and> unat (nat_to_f64 n) < 2 ^ 63"
  proof (cases "n = 0")
    case True
    then show ?thesis by (simp add: nat_to_f64_def f64_finite_def f64_trunc_def f64_fields f64_sign)
  next
    case False
    define k where "k = ilog2 n"
    have k: "2 ^ k \<le> n" "n < 2 * 2 ^ k" using ilog2_bounds [of n] False by (simp_all add: k_def)
    then have "(2::nat) ^ k < 2 ^ 53" using assms by linarith
    then have k52: "k \<le> 52" using power_less_imp_less_exp [of "2::nat" k 53] by linarith
    define man where "man = (n - 2 ^ k) * 2 ^ (52 - k)"
    have two: "(2::nat) ^ k * 2 ^ (52 - k) = 2 ^ 52" using k52 by (simp add: power_add [symmetric])
    have manlt: "man < 2 ^ 52"
    proof -
      have "n - 2 ^ k < 2 ^ k" using k by linarith
      then have "man < 2 ^ k * 2 ^ (52 - k)" unfolding man_def by (rule mult_strict_right_mono) simp
      then show ?thesis by (simp add: two)
    qed
    have full: "man + 2 ^ 52 = n * 2 ^ (52 - k)"
      using mult_le_mono1 [OF k(1), of "2 ^ (52 - k)"] two by (simp add: man_def diff_mult_distrib)
    have vlt: "(k + 1023) * 2 ^ 52 + man < 2 ^ 63" using k52 manlt by simp
    have "nat_to_f64 n = of_nat ((k + 1023) * 2 ^ 52 + man)"
      using False k52 by (simp add: nat_to_f64_def k_def [symmetric] man_def)
    then have u: "unat (nat_to_f64 n) = (k + 1023) * 2 ^ 52 + man"
      using unat_of_nat_f64 [OF vlt] by (rule trans [OF arg_cong [where f = unat]])
    have e: "f64_exp (nat_to_f64 n) = k + 1023" and m: "f64_man (nat_to_f64 n) = man"
      using manlt k52 unfolding f64_fields u by (simp_all only: div_mult_self3 mod_mult_self3) simp_all
    have "\<not> bit (nat_to_f64 n) 63" using vlt unfolding f64_sign u by simp
    then have "f64_trunc (nat_to_f64 n) = int n"
      using k52 full by (auto simp: f64_trunc_def e m Let_def)
    with e k52 u vlt show ?thesis by (simp add: f64_finite_def)
  qed
  then show "f64_finite (nat_to_f64 n)" "f64_trunc (nat_to_f64 n) = int n" "unat (nat_to_f64 n) < 2 ^ 63" by auto
qed

text \<open>Setting the sign bit\<close>

lemma f64_or_sign:
  assumes "unat f < 2 ^ 63"
  shows "unat (f OR push_bit 63 1 :: float64) = unat f + 2 ^ 11 * 2 ^ 52"
proof -
  have nb: "\<not> bit f 63" using assms by (simp add: f64_sign)
  have "bit (push_bit 63 1 :: float64) n \<Longrightarrow> n = 63" for n
    by (simp only: bit_push_bit_iff bit_1_iff) auto
  with nb have "f AND push_bit 63 1 = 0"
    by (intro bit_word_eqI) (auto simp only: bit_and_iff bit_0_eq bot_apply bot_bool_def)
  then have "f OR push_bit 63 1 = f + push_bit 63 1" by (rule disjunctive_add_eq_or [symmetric])
  moreover have "unat (push_bit 63 1 :: float64) = 2 ^ 11 * 2 ^ 52" by simp
  ultimately show ?thesis using assms by (simp add: unat_word_ariths)
qed

lemma f64_trunc_neg:
  assumes "unat f < 2 ^ 63" "g = f OR push_bit 63 1"
  shows "f64_trunc g = - f64_trunc f" "f64_finite g = f64_finite f"
proof -
  have u: "unat g = unat f + 2 ^ 11 * 2 ^ 52" unfolding assms(2) by (rule f64_or_sign [OF assms(1)])
  have "unat g div 2 ^ 52 = 2 ^ 11 + unat f div 2 ^ 52" unfolding u by (rule div_mult_self1) simp
  then have e: "f64_exp g = f64_exp f" "f64_man g = f64_man f"
    unfolding f64_fields by (simp_all only: mod_add_self1 u mod_mult_self1)
  have "bit g 63" "\<not> bit f 63" using assms(1) u by (simp_all add: f64_sign)
  with e show "f64_trunc g = - f64_trunc f" by (simp add: f64_trunc_def Let_def)
  show "f64_finite g = f64_finite f" by (simp add: f64_finite_def e)
qed

lemma int_through_f64:
  assumes "\<bar>i\<bar> < 2 ^ 53"
  shows "f64_finite (int_to_f64 i)" "f64_trunc (int_to_f64 i) = i" "f64_to_i64 rt (int_to_f64 i) = of_int i"
proof -
  have "nat \<bar>i\<bar> < 2 ^ 53" using assms by simp
  note n = f64_trunc_nat_to_f64 [OF this] and neg = f64_trunc_neg [OF f64_trunc_nat_to_f64(3) [OF this] refl]
  have "f64_finite (int_to_f64 i) \<and> f64_trunc (int_to_f64 i) = i"
  proof (cases "i < 0")
    case True
    then have "int_to_f64 i = nat_to_f64 (nat \<bar>i\<bar>) OR push_bit 63 1" unfolding int_to_f64_def by (simp only: if_True abs_of_neg)
    with True n neg show ?thesis by (simp only: abs_of_neg) simp
  qed (use n in \<open>simp add: int_to_f64_def\<close>)
  then show *: "f64_finite (int_to_f64 i)" "f64_trunc (int_to_f64 i) = i" by auto
  show "f64_to_i64 rt (int_to_f64 i) = of_int i" using * assms by (simp add: f64_to_i64_def abs_less_iff)
qed

end
