(* ===== verification/Page.thy ===== *)
theory Page
  imports Values
begin

text \<open>
  \<^verbatim>\<open>src/storage/page.go\<close>: the 16KB slotted page. A page is its header and its content array; row
  records grow from the end of the content, the array of two-byte cell pointers grows from its
  beginning. The theory holds the page operations, the row and column codec, the representation
  relation \<open>page_rep\<close> between a page and the sequence of its cells (each alive or deleted), and the
  proofs that insertion, lookup and deletion implement the operations on that sequence.
  Slice expressions that Go would refuse at run time return the error \<open>Panic\<close>.
\<close>

section \<open>Data\<close>

definition PageSize16KB :: nat where "PageSize16KB = 16384"
definition PageHeaderSizeV2 :: nat where "PageHeaderSizeV2 = 32"
definition MaxPageContentV2 :: nat where "MaxPageContentV2 = 16352"

type_synonym PageType = "8 word"

abbreviation PageTypeFree :: PageType where "PageTypeFree \<equiv> 0"
abbreviation PageTypeData :: PageType where "PageTypeData \<equiv> 1"
abbreviation PageTypeOverflow :: PageType where "PageTypeOverflow \<equiv> 2"
abbreviation PageTypeBTree :: PageType where "PageTypeBTree \<equiv> 3"
abbreviation PageTypeBTreeLeaf :: PageType where "PageTypeBTreeLeaf \<equiv> 4"

definition PageType_String :: "PageType \<Rightarrow> string" where
  "PageType_String pt =
     (if pt = PageTypeFree then ''FREE'' else if pt = PageTypeData then ''DATA''
      else if pt = PageTypeOverflow then ''OVERFLOW'' else if pt = PageTypeBTree then ''BTREE''
      else if pt = PageTypeBTreeLeaf then ''BTREE_LEAF'' else ''UNKNOWN'')"

definition PageFlagEncrypted :: "8 word" where "PageFlagEncrypted = 1"
definition PageFlagCompressed :: "8 word" where "PageFlagCompressed = 2"
definition PageFlagDirty :: "8 word" where "PageFlagDirty = 4"

record PageHeaderV2 =
  hdr_PageID :: u64
  hdr_PageType :: PageType
  hdr_Flags :: "8 word"
  hdr_Version :: u16
  hdr_FreeSpace :: u16
  hdr_CellCount :: u16
  hdr_Fragmented :: u16
  hdr_Reserved :: u16
  hdr_RightPage :: u64
  hdr_Checksum :: u32

record PageV2 =
  Header :: PageHeaderV2
  Content :: bytes

datatype page_error =
    ErrPageSize nat | ErrRowTooShort nat | ErrColumn nat page_error
  | ErrEmptyColumn | ErrColumnShort | ErrColumnTruncated
  | ErrPageFull u16 nat | ErrCellIndex int | ErrCellOffset u16 | ErrPrevCellOffset u16
  | ErrCellBounds | ErrCellDeleted | Panic

section \<open>Page operations\<close>

definition NewPageV2 :: "u64 \<Rightarrow> PageType \<Rightarrow> PageV2" where
  "NewPageV2 pageID pageType =
     \<lparr>Header = \<lparr>hdr_PageID = pageID, hdr_PageType = pageType, hdr_Flags = 0, hdr_Version = 1,
        hdr_FreeSpace = of_nat MaxPageContentV2, hdr_CellCount = 0, hdr_Fragmented = 0, hdr_Reserved = 0,
        hdr_RightPage = 0, hdr_Checksum = 0\<rparr>,
      Content = replicate MaxPageContentV2 0\<rparr>"

definition AvailableSpace :: "PageV2 \<Rightarrow> u16" where
  "AvailableSpace p =
     (let pointerArraySize = hdr_CellCount (Header p) * 2
      in if hdr_FreeSpace (Header p) < pointerArraySize then 0
         else let available = hdr_FreeSpace (Header p) - pointerArraySize
              in if available < hdr_Fragmented (Header p) then 0
                 else available - hdr_Fragmented (Header p))"

definition CanInsert :: "PageV2 \<Rightarrow> nat \<Rightarrow> bool" where
  "CanInsert p rowSize \<longleftrightarrow> (let needed = (of_nat rowSize :: u16) + 2 in needed \<le> AvailableSpace p)"

definition UsageRatio :: "go_rt \<Rightarrow> PageV2 \<Rightarrow> float64" where
  "UsageRatio rt p =
     (let used = (of_nat MaxPageContentV2 :: u16) - hdr_FreeSpace (Header p)
      in rt_fdiv rt (u64_to_f64 (ucast used)) (u64_to_f64 (of_nat MaxPageContentV2)))"

definition CalculateChecksum :: "PageV2 \<Rightarrow> u32" where
  "CalculateChecksum p = crc32 (Content p)"

definition UpdateChecksum :: "PageV2 \<Rightarrow> PageV2" where
  "UpdateChecksum p = p\<lparr>Header := (Header p)\<lparr>hdr_Checksum := CalculateChecksum p\<rparr>\<rparr>"

definition VerifyChecksum :: "PageV2 \<Rightarrow> bool" where
  "VerifyChecksum p \<longleftrightarrow> hdr_Checksum (Header p) = CalculateChecksum p"

text \<open>The serialised page: the header fields at their offsets 0, 8, 9, 10, \dots, 28 and the content at 32.\<close>

definition Page_ToBytes :: "PageV2 \<Rightarrow> bytes" where
  "Page_ToBytes p =
     (let h = Header p; d = replicate PageSize16KB 0;
          d = copy_at 0 (le_bytes 8 (hdr_PageID h)) d;
          d = d[8 := hdr_PageType h];
          d = d[9 := hdr_Flags h];
          d = copy_at 10 (le_bytes 2 (hdr_Version h)) d;
          d = copy_at 12 (le_bytes 2 (hdr_FreeSpace h)) d;
          d = copy_at 14 (le_bytes 2 (hdr_CellCount h)) d;
          d = copy_at 16 (le_bytes 2 (hdr_Fragmented h)) d;
          d = copy_at 18 (le_bytes 2 (hdr_Reserved h)) d;
          d = copy_at 20 (le_bytes 8 (hdr_RightPage h)) d;
          d = copy_at 28 (le_bytes 4 (hdr_Checksum h)) d
      in copy_at PageHeaderSizeV2 (Content p) d)"

definition Page_FromBytes :: "PageV2 \<Rightarrow> bytes \<Rightarrow> page_error + PageV2" where
  "Page_FromBytes p data =
     (if length data \<noteq> PageSize16KB then Inl (ErrPageSize (length data))
      else Inr \<lparr>Header = \<lparr>hdr_PageID = le_word (slice 0 8 data), hdr_PageType = data ! 8, hdr_Flags = data ! 9,
                 hdr_Version = le_word (slice 10 12 data), hdr_FreeSpace = le_word (slice 12 14 data),
                 hdr_CellCount = le_word (slice 14 16 data), hdr_Fragmented = le_word (slice 16 18 data),
                 hdr_Reserved = le_word (slice 18 20 data), hdr_RightPage = le_word (slice 20 28 data),
                 hdr_Checksum = le_word (slice 28 32 data)\<rparr>,
                Content = copy_at 0 (drop PageHeaderSizeV2 data) (Content p)\<rparr>)"

definition GetCellPointer :: "PageV2 \<Rightarrow> int \<Rightarrow> page_error + u16" where
  "GetCellPointer p index =
     (if index < 0 \<or> int (unat (hdr_CellCount (Header p))) \<le> index then Inr 0
      else let offset = nat index * 2
           in if length (Content p) < offset + 2 then Inl Panic
              else Inr (le_word (slice offset (offset + 2) (Content p))))"

definition SetCellPointer :: "int \<Rightarrow> u16 \<Rightarrow> PageV2 \<Rightarrow> page_error + PageV2" where
  "SetCellPointer index cellOffset p =
     (let offset = nat index * 2
      in if index < 0 \<or> length (Content p) < offset + 2 then Inl Panic
         else Inr (p\<lparr>Content := copy_at offset (le_bytes 2 cellOffset) (Content p)\<rparr>))"

definition AddCellPointer :: "u16 \<Rightarrow> PageV2 \<Rightarrow> page_error + PageV2" where
  "AddCellPointer cellOffset p =
     bindE (SetCellPointer (int (unat (hdr_CellCount (Header p)))) cellOffset p)
       (\<lambda>p. Inr (p\<lparr>Header := (Header p)\<lparr>hdr_CellCount := hdr_CellCount (Header p) + 1\<rparr>\<rparr>))"

section \<open>Row encoding\<close>

definition ColNullMarker :: byte where "ColNullMarker = 0xFF"
definition ColBlobRefMarker :: byte where "ColBlobRefMarker = 0xFE"

text \<open>The three payloads \<^verbatim>\<open>encodeColumn\<close> extracts from the dynamic value of a column.\<close>

definition intPayload :: "go_rt \<Rightarrow> godata \<Rightarrow> u64" where
  "intPayload rt d =
     (case d of GInt64 w \<Rightarrow> w | GInt w \<Rightarrow> w | GInt32 w \<Rightarrow> scast w | GFloat64 f \<Rightarrow> f64_to_i64 rt f | _ \<Rightarrow> 0)"

definition floatPayload :: "go_rt \<Rightarrow> godata \<Rightarrow> u64" where
  "floatPayload rt d =
     f64_to_u64 rt (case d of GFloat64 f \<Rightarrow> f | GFloat32 f \<Rightarrow> f32_to_f64 f | _ \<Rightarrow> 0)"

definition strPayload :: "go_rt \<Rightarrow> godata \<Rightarrow> string" where
  "strPayload rt d = (case d of GString s \<Rightarrow> s | d \<Rightarrow> fmt_v rt d)"

definition blobPayload :: "go_rt \<Rightarrow> godata \<Rightarrow> bytes" where
  "blobPayload rt d = (case d of GBytes b \<Rightarrow> b | GString s \<Rightarrow> bytes_of s | d \<Rightarrow> bytes_of (fmt_v rt d))"

definition lenPrefixed :: "DataType \<Rightarrow> bytes \<Rightarrow> bytes" where
  "lenPrefixed t d = of_int t # le_bytes 4 (of_nat (length d) :: u32) @ d"

definition encodeColumn :: "go_rt \<Rightarrow> Value \<Rightarrow> bytes" where
  "encodeColumn rt v =
     (if IsNull v then [ColNullMarker]
      else case ValueBlobRef v of
             Some ref \<Rightarrow> of_int (Type v) # ColBlobRefMarker # le_bytes 8 (ref_ID ref) @ le_bytes 8 (ref_Size ref)
           | None \<Rightarrow>
               if Type v = TypeInt \<or> Type v = TypeSeq then of_int (Type v) # le_bytes 8 (intPayload rt (Data v))
               else if Type v = TypeFloat then of_int (Type v) # le_bytes 8 (floatPayload rt (Data v))
               else if Type v = TypeVarchar \<or> Type v = TypeText \<or> Type v = TypeChar
                 then lenPrefixed (Type v) (bytes_of (strPayload rt (Data v)))
               else if Type v = TypeBlob \<or> Type v = TypeImage then lenPrefixed (Type v) (blobPayload rt (Data v))
               else if Type v = TypeDate \<or> Type v = TypeTime \<or> Type v = TypeDatetime
                 then lenPrefixed (Type v) (bytes_of (strPayload rt (Data v)))
               else lenPrefixed (Type v) (bytes_of (fmt_v rt (Data v))))"

definition EncodeRow :: "go_rt \<Rightarrow> u64 \<Rightarrow> Value list \<Rightarrow> bytes" where
  "EncodeRow rt rowID row =
     le_bytes 8 rowID @ le_bytes 2 (of_nat (length row) :: u16) @ concat (map (encodeColumn rt) row)"

text \<open>
  The length-prefixed read the string, blob and datetime branches share: \<^verbatim>\<open>5 + length\<close> in the slice
  bound is \<^verbatim>\<open>uint32\<close> arithmetic and may wrap below 5.
\<close>

definition readPrefixed :: "bytes \<Rightarrow> page_error + (bytes \<times> nat)" where
  "readPrefixed data =
     (if length data < 5 then Inl ErrColumnShort
      else let len = (le_word (slice 1 5 data) :: u32)
           in if length data < 5 + unat len then Inl ErrColumnTruncated
              else if 5 + len < 5 then Inl Panic
              else Inr (slice 5 (unat (5 + len)) data, unat (5 + len)))"

definition decodeColumn :: "bytes \<Rightarrow> ColumnDef \<Rightarrow> page_error + (Value \<times> nat)" where
  "decodeColumn data colDef =
     (if length data < 1 then Inl ErrEmptyColumn
      else if data ! 0 = ColNullMarker then Inr (NewNullValue, 1)
      else let dataType = (uint (data ! 0) :: DataType)
           in if (dataType = TypeBlob \<or> dataType = TypeImage) \<and> 18 \<le> length data \<and> data ! 1 = ColBlobRefMarker
              then Inr (NewBlobRefValue (le_word (slice 2 10 data)) (le_word (slice 10 18 data)), 18)
              else if dataType = TypeInt \<or> dataType = TypeSeq then
                (if length data < 9 then Inl ErrColumnShort
                 else Inr (NewIntValue (le_word (slice 1 9 data)), 9))
              else if dataType = TypeFloat then
                (if length data < 9 then Inl ErrColumnShort
                 else Inr (NewFloatValue (u64_to_f64 (le_word (slice 1 9 data))), 9))
              else if dataType = TypeVarchar \<or> dataType = TypeText \<or> dataType = TypeChar then
                bindE (readPrefixed data) (\<lambda>(b, n). Inr (NewStringValue (string_of b), n))
              else if dataType = TypeBlob \<or> dataType = TypeImage then
                bindE (readPrefixed data) (\<lambda>(b, n). Inr (NewBlobValue b, n))
              else if dataType = TypeDate \<or> dataType = TypeTime \<or> dataType = TypeDatetime then
                bindE (readPrefixed data) (\<lambda>(b, n). Inr (NewStringValue (string_of b), n))
              else (case readPrefixed data of
                      Inr (b, n) \<Rightarrow> Inr (NewStringValue (string_of b), n)
                    | Inl Panic \<Rightarrow> Inl Panic
                    | Inl _ \<Rightarrow> Inr (NewNullValue, 1)))"

text \<open>The zero \<^verbatim>\<open>types.ColumnDef\<close> that stands in for a missing column definition.\<close>

definition zeroColumnDef :: ColumnDef where
  "zeroColumnDef = \<lparr>col_Name = [], col_Type = TypeUnknown, col_Length = 0, col_Precision = 0,
     col_Nullable = False, col_Default = None, col_PrimaryKey = False, col_AutoInc = False\<rparr>"

fun decodeColumns :: "ColumnDef list \<Rightarrow> nat \<Rightarrow> nat \<Rightarrow> bytes \<Rightarrow> page_error + Value list" where
  "decodeColumns colDefs i 0 data = Inr []"
| "decodeColumns colDefs i (Suc n) data =
     (let colDef = (if i < length colDefs then colDefs ! i else zeroColumnDef)
      in case decodeColumn data colDef of
           Inl e \<Rightarrow> Inl (ErrColumn i e)
         | Inr (val, bytesRead) \<Rightarrow>
             bindE (decodeColumns colDefs (Suc i) n (drop bytesRead data)) (\<lambda>vs. Inr (val # vs)))"

definition DecodeRow :: "bytes \<Rightarrow> ColumnDef list \<Rightarrow> page_error + (u64 \<times> Value list)" where
  "DecodeRow data colDefs =
     (if length data < 10 then Inl (ErrRowTooShort (length data))
      else let rowID = le_word (slice 0 8 data);
               colCount = unat (le_word (slice 8 10 data) :: u16)
           in bindE (decodeColumns colDefs 0 colCount (drop 10 data)) (\<lambda>row. Inr (rowID, row)))"

section \<open>Rows in pages\<close>

definition InsertRowToPage :: "go_rt \<Rightarrow> PageV2 \<Rightarrow> u64 \<Rightarrow> Value list \<Rightarrow> page_error + (PageV2 \<times> int)" where
  "InsertRowToPage rt page rowID row =
     (let rowData = EncodeRow rt rowID row; rowSize = length rowData
      in if \<not> CanInsert page rowSize then Inl (ErrPageFull (AvailableSpace page) (rowSize + 2))
         else let cellOffset = hdr_FreeSpace (Header page) - (of_nat rowSize :: u16)
              in if length (Content page) < unat cellOffset then Inl Panic
                 else let page = page\<lparr>Content := copy_at (unat cellOffset) rowData (Content page)\<rparr>
                      in bindE (AddCellPointer cellOffset page) (\<lambda>page.
                           let page = page\<lparr>Header := (Header page)\<lparr>hdr_FreeSpace := cellOffset,
                                 hdr_Flags := hdr_Flags (Header page) OR PageFlagDirty\<rparr>\<rparr>
                           in Inr (page, int (unat (hdr_CellCount (Header page))) - 1)))"

text \<open>\<^verbatim>\<open>page.Content[cellStart:cellEnd]\<close>, refused when the end is beyond the array.\<close>

definition contentSlice :: "PageV2 \<Rightarrow> u16 \<Rightarrow> u16 \<Rightarrow> page_error + bytes" where
  "contentSlice p cellStart cellEnd =
     (if length (Content p) < unat cellEnd then Inl Panic
      else Inr (slice (unat cellStart) (unat cellEnd) (Content p)))"

definition GetRowFromPage :: "PageV2 \<Rightarrow> int \<Rightarrow> ColumnDef list \<Rightarrow> page_error + (u64 \<times> Value list)" where
  "GetRowFromPage page index colDefs =
     (if index < 0 \<or> int (unat (hdr_CellCount (Header page))) \<le> index then Inl (ErrCellIndex index)
      else bindE (GetCellPointer page index) (\<lambda>cellStart.
        if cellStart = 0 \<or> of_nat MaxPageContentV2 \<le> cellStart then Inl (ErrCellOffset cellStart)
        else bindE (if index = 0 then Inr (of_nat MaxPageContentV2)
                    else bindE (GetCellPointer page (index - 1)) (\<lambda>cellEnd.
                      if cellEnd = 0 \<or> of_nat MaxPageContentV2 \<le> cellEnd then Inl (ErrPrevCellOffset cellEnd)
                      else Inr cellEnd)) (\<lambda>cellEnd.
          if cellEnd \<le> cellStart then Inl ErrCellBounds
          else bindE (contentSlice page cellStart cellEnd) (\<lambda>cellData. DecodeRow cellData colDefs))))"

definition DeleteRowFromPage :: "PageV2 \<Rightarrow> int \<Rightarrow> page_error + PageV2" where
  "DeleteRowFromPage page index =
     (if index < 0 \<or> int (unat (hdr_CellCount (Header page))) \<le> index then Inl (ErrCellIndex index)
      else bindE (GetCellPointer page index) (\<lambda>cellStart.
        if cellStart = 0 then Inl ErrCellDeleted
        else bindE (if index = 0 then Inr (of_nat MaxPageContentV2) else GetCellPointer page (index - 1)) (\<lambda>cellEnd.
          if cellEnd \<le> cellStart then Inl ErrCellBounds
          else let cellSize = cellEnd - cellStart;
                   page = page\<lparr>Header := (Header page)\<lparr>hdr_Fragmented := hdr_Fragmented (Header page) + cellSize\<rparr>\<rparr>
               in bindE (SetCellPointer index 0 page) (\<lambda>page.
                    Inr (page\<lparr>Header := (Header page)\<lparr>hdr_Flags := hdr_Flags (Header page) OR PageFlagDirty\<rparr>\<rparr>)))))"

definition GetCellData :: "PageV2 \<Rightarrow> int \<Rightarrow> page_error + bytes" where
  "GetCellData page index =
     (if index < 0 \<or> int (unat (hdr_CellCount (Header page))) \<le> index then Inl (ErrCellIndex index)
      else bindE (GetCellPointer page index) (\<lambda>cellStart.
        if cellStart = 0 \<or> of_nat MaxPageContentV2 \<le> cellStart then Inl (ErrCellOffset cellStart)
        else bindE (if index = 0 then Inr (of_nat MaxPageContentV2) else GetCellPointer page (index - 1)) (\<lambda>cellEnd.
          if cellEnd \<le> cellStart then Inl ErrCellBounds
          else contentSlice page cellStart cellEnd)))"

definition estimateColumn :: "go_rt \<Rightarrow> Value \<Rightarrow> nat" where
  "estimateColumn rt v =
     (if IsNull v then 1
      else if ValueBlobRef v \<noteq> None then 18
      else if Type v = TypeInt \<or> Type v = TypeSeq \<or> Type v = TypeFloat then 9
      else if Type v = TypeVarchar \<or> Type v = TypeText \<or> Type v = TypeChar \<or> Type v = TypeBlob \<or> Type v = TypeImage
              \<or> Type v = TypeDate \<or> Type v = TypeTime \<or> Type v = TypeDatetime
        then 5 + (case Data v of GString s \<Rightarrow> length s | GBytes b \<Rightarrow> length b | d \<Rightarrow> length (fmt_v rt d))
      else 10)"

definition EstimateRowSize :: "go_rt \<Rightarrow> Value list \<Rightarrow> nat" where
  "EstimateRowSize rt row = fold (\<lambda>v sz. sz + estimateColumn rt v) row 10"

section \<open>The column codec\<close>

text \<open>
  What a stored column reads back as, and the columns for which it does. Every string-like type comes
  back as VARCHAR, SEQ as INT and IMAGE as BLOB. Excluded are the columns whose encoding is ambiguous:
  a blob reference under a type other than BLOB or IMAGE, and an inline blob whose length has low byte
  \<^verbatim>\<open>0xFE\<close>, the marker of a reference.
\<close>

definition storedColumn :: "go_rt \<Rightarrow> Value \<Rightarrow> Value" where
  "storedColumn rt v =
     (if IsNull v then NewNullValue
      else case ValueBlobRef v of
             Some ref \<Rightarrow> NewBlobRefValue (ref_ID ref) (ref_Size ref)
           | None \<Rightarrow>
               if Type v = TypeInt \<or> Type v = TypeSeq then NewIntValue (intPayload rt (Data v))
               else if Type v = TypeFloat then NewFloatValue (u64_to_f64 (floatPayload rt (Data v)))
               else if IsString (Type v) \<or> IsDateTime (Type v) then NewStringValue (strPayload rt (Data v))
               else if Type v = TypeBlob \<or> Type v = TypeImage then NewBlobValue (blobPayload rt (Data v))
               else NewStringValue (fmt_v rt (Data v)))"

definition columnOk :: "go_rt \<Rightarrow> Value \<Rightarrow> bool" where
  "columnOk rt v \<longleftrightarrow>
     IsNull v \<or>
     0 \<le> Type v \<and> Type v \<le> TypeImage \<and>
     (case ValueBlobRef v of
        Some ref \<Rightarrow> Type v = TypeBlob \<or> Type v = TypeImage
      | None \<Rightarrow>
          if Type v = TypeBlob \<or> Type v = TypeImage
          then length (blobPayload rt (Data v)) < 2 ^ 32 - 5 \<and> length (blobPayload rt (Data v)) mod 256 \<noteq> 254
          else if IsString (Type v) \<or> IsDateTime (Type v) then length (strPayload rt (Data v)) < 2 ^ 32 - 5
          else IsNumeric (Type v) \<or> length (fmt_v rt (Data v)) < 2 ^ 32 - 5)"

text \<open>A value whose type and representation survive storage unchanged.\<close>

definition canonicalColumn :: "Value \<Rightarrow> bool" where
  "canonicalColumn v \<longleftrightarrow>
     v = NewNullValue \<or>
     (case ValueBlobRef v of
        Some ref \<Rightarrow> v = NewBlobRefValue (ref_ID ref) (ref_Size ref)
      | None \<Rightarrow>
          (case Data v of
             GInt64 n \<Rightarrow> v = NewIntValue n
           | GString s \<Rightarrow> v = NewStringValue s \<and> length s < 2 ^ 32 - 5
           | GBytes b \<Rightarrow> v = NewBlobValue b \<and> length b < 2 ^ 32 - 5 \<and> length b mod 256 \<noteq> 254
           | _ \<Rightarrow> False))"

lemma uint_of_DataType [simp]: "0 \<le> t \<Longrightarrow> t \<le> 13 \<Longrightarrow> uint (of_int t :: byte) = t"
  by (simp add: uint_word_of_int take_bit_eq_mod)

lemma of_DataType_not_null [simp]: "0 \<le> t \<Longrightarrow> t \<le> 13 \<Longrightarrow> (of_int t :: byte) \<noteq> ColNullMarker"
proof
  assume "0 \<le> t" "t \<le> 13" "(of_int t :: byte) = ColNullMarker"
  then have "uint ColNullMarker = t" using uint_of_DataType [of t] by simp
  with \<open>t \<le> 13\<close> show False by (simp add: ColNullMarker_def)
qed

lemma readPrefixed_lenPrefixed [codec]:
  assumes "length d < 2 ^ 32 - 5"
  shows "readPrefixed (lenPrefixed t d @ rest) = Inr (d, 5 + length d)"
proof -
  have len: "unat (of_nat (length d) :: u32) = length d"
    using assms by (simp add: unat_of_nat)
  have five: "unat (5 + of_nat (length d) :: u32) = 5 + length d"
    using assms by (simp add: unat_word_ariths unat_of_nat)
  have "slice 1 5 (lenPrefixed t d @ rest) = le_bytes 4 (of_nat (length d) :: u32)"
    by (simp add: slice_def lenPrefixed_def)
  moreover have "slice 5 (5 + length d) (lenPrefixed t d @ rest) = d"
    by (simp add: slice_def lenPrefixed_def)
  moreover have "\<not> 5 + (of_nat (length d) :: u32) < 5"
    by (simp add: word_less_nat_alt five)
  ultimately show ?thesis
    by (simp add: readPrefixed_def Let_def le_word_le_bytes len five) (simp add: lenPrefixed_def)
qed

lemma length_lenPrefixed [simp]: "length (lenPrefixed t d) = 5 + length d"
  by (simp add: lenPrefixed_def)

lemma lenPrefixed_not_Nil [simp]: "lenPrefixed t d \<noteq> []"
  by (simp add: lenPrefixed_def)

lemma nth_lenPrefixed_0 [simp]: "(lenPrefixed t d @ rest) ! 0 = of_int t"
  by (simp add: lenPrefixed_def)

lemma lenPrefixed_low_byte:
  "(lenPrefixed t d @ rest) ! Suc 0 = ColBlobRefMarker \<longleftrightarrow> length d mod 256 = 254"
proof -
  have "(lenPrefixed t d @ rest) ! Suc 0 = ucast (of_nat (length d) :: u32)"
    by (simp add: lenPrefixed_def le_bytes_def nth_append upt_rec)
  moreover have "unat (ucast (of_nat (length d) :: u32) :: byte) = length d mod 256"
    by (simp add: unsigned_ucast_eq take_bit_eq_mod unsigned_of_nat mod_mod_cancel)
  ultimately show ?thesis
    by (simp add: ColBlobRefMarker_def word_unat_eq_iff)
qed

lemma columnOk_Type: "columnOk rt v \<Longrightarrow> \<not> IsNull v \<Longrightarrow> 0 \<le> Type v \<and> Type v \<le> 13"
  by (auto simp: columnOk_def)

lemma DataType_cases:
  "0 \<le> t \<Longrightarrow> t \<le> 13 \<Longrightarrow> IsNumeric t \<or> IsString t \<or> IsDateTime t \<or> (t = TypeBlob \<or> t = TypeImage)
     \<or> (t = TypeUnknown \<or> t = TypeNull \<or> t = TypeFile)"
  unfolding IsString_def IsDateTime_def IsNumeric_def by presburger

lemma decodeColumn_number:
  "decodeColumn (3 # le_bytes 8 w @ rest) cd = Inr (NewIntValue w, 9)"
  "decodeColumn (2 # le_bytes 8 w @ rest) cd = Inr (NewIntValue w, 9)"
  "decodeColumn (4 # le_bytes 8 w @ rest) cd = Inr (NewFloatValue (u64_to_f64 w), 9)"
proof -
  have "slice 1 9 (b # le_bytes 8 w @ rest) = le_bytes 8 w" for b
    by (simp add: slice_def)
  then show "decodeColumn (3 # le_bytes 8 w @ rest) cd = Inr (NewIntValue w, 9)"
    "decodeColumn (2 # le_bytes 8 w @ rest) cd = Inr (NewIntValue w, 9)"
    "decodeColumn (4 # le_bytes 8 w @ rest) cd = Inr (NewFloatValue (u64_to_f64 w), 9)"
    by (simp_all add: decodeColumn_def le_word_le_bytes ColNullMarker_def)
qed

lemma decodeColumn_string:
  assumes "length d < 2 ^ 32 - 5" "IsString t \<or> IsDateTime t \<or> t = TypeUnknown \<or> t = TypeNull \<or> t = TypeFile"
  shows "decodeColumn (lenPrefixed t d @ rest) cd = Inr (NewStringValue (string_of d), 5 + length d)"
proof -
  have t: "t \<noteq> TypeBlob" "t \<noteq> TypeImage" "t \<noteq> TypeInt" "t \<noteq> TypeSeq" "t \<noteq> TypeFloat" "0 \<le> t" "t \<le> 13"
    using assms(2) unfolding IsString_def IsDateTime_def by presburger+
  then show ?thesis by (simp add: decodeColumn_def readPrefixed_lenPrefixed [OF assms(1)])
qed

lemma decodeColumn_blob:
  assumes "length d < 2 ^ 32 - 5" "length d mod 256 \<noteq> 254" "t = TypeBlob \<or> t = TypeImage"
  shows "decodeColumn (lenPrefixed t d @ rest) cd = Inr (NewBlobValue d, 5 + length d)"
proof -
  have t: "t \<noteq> TypeInt" "t \<noteq> TypeSeq" "t \<noteq> TypeFloat" "t \<noteq> TypeVarchar" "t \<noteq> TypeText" "t \<noteq> TypeChar"
    "0 \<le> t" "t \<le> 13"
    using assms(3) by presburger+
  with assms(2,3) show ?thesis by (simp add: decodeColumn_def readPrefixed_lenPrefixed [OF assms(1)] lenPrefixed_low_byte)
qed

lemma decodeColumn_blobRef:
  assumes "t = TypeBlob \<or> t = TypeImage"
  shows "decodeColumn (of_int t # ColBlobRefMarker # le_bytes 8 i @ le_bytes 8 n @ rest) cd = Inr (NewBlobRefValue i n, 18)"
proof -
  have "slice 2 10 (b # c # le_bytes 8 i @ le_bytes 8 n @ rest) = le_bytes 8 i"
    "slice 10 18 (b # c # le_bytes 8 i @ le_bytes 8 n @ rest) = le_bytes 8 n" for b c
    by (simp_all add: slice_def)
  with assms show ?thesis
    using of_DataType_not_null [of t] by (auto simp: decodeColumn_def le_word_le_bytes simp del: of_DataType_not_null)
qed

lemma decodeColumn_encodeColumn:
  assumes ok: "columnOk rt v"
  shows "decodeColumn (encodeColumn rt v @ rest) cd = Inr (storedColumn rt v, length (encodeColumn rt v))"
proof (cases "IsNull v")
  case True
  then show ?thesis by (simp add: decodeColumn_def encodeColumn_def storedColumn_def)
next
  case nn: False
  show ?thesis
  proof (cases "ValueBlobRef v")
    case (Some ref)
    with ok nn have "Type v = TypeBlob \<or> Type v = TypeImage" by (simp add: columnOk_def)
    with Some nn show ?thesis
      by (simp add: encodeColumn_def storedColumn_def decodeColumn_blobRef del: of_int_numeral)
  next
    case None
    note enc = encodeColumn_def storedColumn_def nn None
    consider (num) "IsNumeric (Type v)" | (str) "IsString (Type v) \<or> IsDateTime (Type v)"
      | (blob) "Type v = TypeBlob \<or> Type v = TypeImage"
      | (other) "Type v = TypeUnknown \<or> Type v = TypeNull \<or> Type v = TypeFile"
      using DataType_cases columnOk_Type [OF ok nn] by blast
    then show ?thesis
    proof cases
      case num
      then consider "Type v = TypeInt" | "Type v = TypeSeq" | "Type v = TypeFloat" by (auto simp: IsNumeric_def)
      then show ?thesis by cases (simp_all add: enc decodeColumn_number)
    next
      case str
      then have t: "Type v \<noteq> TypeBlob" "Type v \<noteq> TypeImage" "Type v \<noteq> TypeInt" "Type v \<noteq> TypeSeq" "Type v \<noteq> TypeFloat"
        unfolding IsString_def IsDateTime_def by presburger+
      with str ok nn None have "length (strPayload rt (Data v)) < 2 ^ 32 - 5" by (simp add: columnOk_def)
      moreover from t str have "encodeColumn rt v = lenPrefixed (Type v) (bytes_of (strPayload rt (Data v)))"
        unfolding IsString_def IsDateTime_def by (simp add: enc) blast
      moreover from t str have "storedColumn rt v = NewStringValue (strPayload rt (Data v))" by (simp add: enc)
      ultimately show ?thesis
        using decodeColumn_string [of "bytes_of (strPayload rt (Data v))" "Type v" rest cd] str by auto
    next
      case blob
      with ok nn None show ?thesis
        by (elim disjE) (simp_all add: columnOk_def enc decodeColumn_blob IsString_def IsDateTime_def)
    next
      case other
      with ok nn None show ?thesis
        by (elim disjE) (simp_all add: columnOk_def enc decodeColumn_string IsString_def IsDateTime_def IsNumeric_def)
    qed
  qed
qed

interpretation column: prefix_codec "encodeColumn rt" "\<lambda>d. decodeColumn d cd" "storedColumn rt" "columnOk rt" for rt cd
  by unfold_locales (rule decodeColumn_encodeColumn)

lemma encodeColumn_not_Nil [simp]: "encodeColumn rt v \<noteq> []"
  by (auto simp: encodeColumn_def split: option.split)

text \<open>The column definition handed to \<^verbatim>\<open>decodeColumn\<close> never influences its result.\<close>

lemma decodeColumn_colDef: "decodeColumn d cd = decodeColumn d cd'"
  by (simp add: decodeColumn_def)

lemma decodeColumns_seq:
  "decode_seq (\<lambda>d. decodeColumn d zeroColumnDef) n d = Inr (vs, k) \<Longrightarrow> decodeColumns cds i n d = Inr vs"
proof (induction n arbitrary: i d vs k)
  case (Suc n)
  then obtain v k1 vs' k2 where dec: "decodeColumn d zeroColumnDef = Inr (v, k1)"
    and rest: "decode_seq (\<lambda>d. decodeColumn d zeroColumnDef) n (drop k1 d) = Inr (vs', k2)" and vs: "vs = v # vs'"
    by (auto elim!: bindE_Inr_elim)
  have "decodeColumn d cd = Inr (v, k1)" for cd
    using dec decodeColumn_colDef by metis
  with Suc.IH [OF rest] vs show ?case by (simp add: Let_def)
qed simp

lemma length_EncodeRow_ge: "10 + length row \<le> length (EncodeRow rt rowID row)"
proof -
  have "length row \<le> length (concat (map (encodeColumn rt) row))"
  proof (induction row)
    case (Cons v row)
    have "0 < length (encodeColumn rt v)" by simp
    with Cons show ?case by (simp del: length_greater_0_conv)
  qed simp
  then show ?thesis by (simp add: EncodeRow_def)
qed

lemma EncodeRow_not_Nil [simp]: "EncodeRow rt rowID row \<noteq> []"
  using length_EncodeRow_ge [of row rt rowID] by auto

lemma DecodeRow_EncodeRow:
  assumes "list_all (columnOk rt) row" "length row < 2 ^ 16"
  shows "DecodeRow (EncodeRow rt rowID row) colDefs = Inr (rowID, map (storedColumn rt) row)"
proof -
  let ?d = "EncodeRow rt rowID row"
  have "slice 0 8 ?d = le_bytes 8 rowID" "slice 8 10 ?d = le_bytes 2 (of_nat (length row) :: u16)"
    and drop: "drop 10 ?d = concat (map (encodeColumn rt) row)"
    by (simp_all add: EncodeRow_def slice_def)
  then have id: "le_word (slice 0 8 ?d) = rowID"
    and n: "unat (le_word (slice 8 10 ?d) :: u16) = length row"
    using assms(2) by (simp_all add: le_word_le_bytes unat_of_nat)
  have "decode_seq (\<lambda>d. decodeColumn d zeroColumnDef) (length row) (drop 10 ?d) =
      Inr (map (storedColumn rt) row, length (concat (map (encodeColumn rt) row)))"
    using column.decode_seq_concat [OF assms(1), of zeroColumnDef "[]"] by (simp add: drop)
  from decodeColumns_seq [OF this] have "decodeColumns colDefs 0 (length row) (drop 10 ?d) = Inr (map (storedColumn rt) row)" .
  with length_EncodeRow_ge [of row rt rowID] show ?thesis
    by (simp add: DecodeRow_def Let_def id n)
qed

lemma canonicalColumn_cases:
  assumes "canonicalColumn v"
  obtains "v = NewNullValue" | n where "v = NewIntValue n"
    | s where "v = NewStringValue s" "length s < 2 ^ 32 - 5"
    | b where "v = NewBlobValue b" "length b < 2 ^ 32 - 5" "length b mod 256 \<noteq> 254"
    | i n where "v = NewBlobRefValue i n"
  using assms by (auto simp: canonicalColumn_def split: option.splits godata.splits)

lemma storedColumn_canonical:
  "canonicalColumn v \<Longrightarrow> columnOk rt v \<and> storedColumn rt v = v"
  by (erule canonicalColumn_cases)
     (simp_all add: columnOk_def storedColumn_def NewNullValue_def NewIntValue_def NewStringValue_def
      NewBlobValue_def NewBlobRefValue_def intPayload_def strPayload_def blobPayload_def IsString_def IsNumeric_def IsDateTime_def)

section \<open>Serialisation\<close>

definition page_wf :: "PageV2 \<Rightarrow> bool" where
  "page_wf p \<longleftrightarrow> length (Content p) = MaxPageContentV2"

lemma copy_at_zeros:
  "i = length xs \<Longrightarrow> length d \<le> n \<Longrightarrow> copy_at i d (xs @ replicate n z) = (xs @ d) @ replicate (n - length d) z"
  by (simp add: copy_at_def)

lemma update_zeros:
  "i = length xs \<Longrightarrow> 0 < n \<Longrightarrow> (xs @ replicate n z)[i := v] = (xs @ [v]) @ replicate (n - 1) z"
  by (cases n) (simp_all add: list_update_append)

lemma copy_at_zeros_0: "length d \<le> n \<Longrightarrow> copy_at 0 d (replicate n z) = d @ replicate (n - length d) z"
  by (simp add: copy_at_def)

lemma Page_ToBytes_concat:
  assumes "page_wf p"
  shows "Page_ToBytes p =
    le_bytes 8 (hdr_PageID (Header p)) @ [hdr_PageType (Header p), hdr_Flags (Header p)] @
    le_bytes 2 (hdr_Version (Header p)) @ le_bytes 2 (hdr_FreeSpace (Header p)) @
    le_bytes 2 (hdr_CellCount (Header p)) @ le_bytes 2 (hdr_Fragmented (Header p)) @
    le_bytes 2 (hdr_Reserved (Header p)) @ le_bytes 8 (hdr_RightPage (Header p)) @
    le_bytes 4 (hdr_Checksum (Header p)) @ Content p"
  using assms
  by (simp add: Page_ToBytes_def Let_def copy_at_zeros copy_at_zeros_0 update_zeros PageSize16KB_def
      PageHeaderSizeV2_def page_wf_def MaxPageContentV2_def del: append_assoc)

lemma length_Page_ToBytes: "page_wf p \<Longrightarrow> length (Page_ToBytes p) = PageSize16KB"
  by (simp add: Page_ToBytes_concat PageSize16KB_def page_wf_def MaxPageContentV2_def)

lemma Page_FromBytes_ToBytes:
  assumes "page_wf p" "page_wf q"
  shows "Page_FromBytes q (Page_ToBytes p) = Inr p"
proof -
  have "Content p = copy_at 0 (Content p) (Content q)"
    using assms by (simp add: copy_at_def page_wf_def)
  then show ?thesis
    using length_Page_ToBytes [OF assms(1)] Page_ToBytes_concat [OF assms(1)]
    by (simp add: Page_FromBytes_def slice_def le_word_le_bytes PageHeaderSizeV2_def nth_append)
qed

lemma Page_FromBytes_wf: "page_wf q \<Longrightarrow> Page_FromBytes q d = Inr p \<Longrightarrow> page_wf p"
  by (auto simp: Page_FromBytes_def page_wf_def split: if_splits)

lemma page_wf_simps [simp]:
  "page_wf (NewPageV2 i t)" "page_wf (UpdateChecksum p) = page_wf p" "page_wf (p\<lparr>Header := h\<rparr>) = page_wf p"
  by (simp_all add: page_wf_def NewPageV2_def UpdateChecksum_def)

lemma VerifyChecksum_UpdateChecksum: "VerifyChecksum (UpdateChecksum p)"
  by (simp add: VerifyChecksum_def UpdateChecksum_def CalculateChecksum_def)

section \<open>The cells of a page\<close>

text \<open>
  A page represents the sequence of its cells in insertion order, each with its bytes and whether it
  is alive: cell \<open>i\<close> starts \<open>cellStartOf cells i\<close> bytes into the content, its pointer is that offset while it is
  alive and 0 once deleted, and the bytes deleted cells occupy are counted as fragmented.
\<close>

type_synonym cells = "(bytes \<times> bool) list"

definition cellStartOf :: "cells \<Rightarrow> nat \<Rightarrow> nat" where
  "cellStartOf cells i = MaxPageContentV2 - length (concat (map fst (take (Suc i) cells)))"

definition cellBytes :: "cells \<Rightarrow> bytes" where
  "cellBytes cells = concat (rev (map fst cells))"

definition deadBytes :: "cells \<Rightarrow> nat" where
  "deadBytes cells = length (concat (map fst (filter (\<lambda>c. \<not> snd c) cells)))"

definition page_rep :: "PageV2 \<Rightarrow> cells \<Rightarrow> bool" where
  "page_rep p cells \<longleftrightarrow>
     page_wf p \<and> [] \<notin> fst ` set cells \<and>
     2 * length cells + length (cellBytes cells) \<le> MaxPageContentV2 \<and>
     unat (hdr_CellCount (Header p)) = length cells \<and>
     unat (hdr_FreeSpace (Header p)) + length (cellBytes cells) = MaxPageContentV2 \<and>
     unat (hdr_Fragmented (Header p)) = deadBytes cells \<and>
     drop (unat (hdr_FreeSpace (Header p))) (Content p) = cellBytes cells \<and>
     (\<forall>i < length cells. unat (le_word (slice (2 * i) (2 * i + 2) (Content p)) :: u16) =
        (if snd (cells ! i) then cellStartOf cells i else 0))"

lemma page_rep_new: "page_rep (NewPageV2 pageID pageType) []"
  by (simp add: page_rep_def NewPageV2_def page_wf_def cellBytes_def deadBytes_def MaxPageContentV2_def)

lemma page_repD:
  assumes "page_rep p cells"
  shows "page_wf p" "i < length cells \<Longrightarrow> fst (cells ! i) \<noteq> []"
    "2 * length cells + length (cellBytes cells) \<le> MaxPageContentV2"
    "unat (hdr_CellCount (Header p)) = length cells"
    "unat (hdr_FreeSpace (Header p)) + length (cellBytes cells) = MaxPageContentV2"
    "unat (hdr_Fragmented (Header p)) = deadBytes cells"
    "drop (unat (hdr_FreeSpace (Header p))) (Content p) = cellBytes cells"
    "length (Content p) = MaxPageContentV2"
proof -
  show "i < length cells \<Longrightarrow> fst (cells ! i) \<noteq> []"
    using assms by (metis page_rep_def image_eqI nth_mem)
qed (use assms in \<open>simp_all add: page_rep_def page_wf_def\<close>)

lemma page_rep_pointer:
  assumes "page_rep p cells" "i < length cells"
  shows "\<exists>w. GetCellPointer p (int i) = Inr w \<and> unat w = (if snd (cells ! i) then cellStartOf cells i else 0)"
  using assms by (auto simp: page_rep_def GetCellPointer_def Let_def page_wf_def mult.commute)

lemma length_cellBytes: "length (cellBytes cells) = length (concat (map fst cells))"
  by (simp add: cellBytes_def length_concat rev_map [symmetric] sum_list_rev)

lemma length_concat_take_le: "length (concat (take n xss)) \<le> length (concat xss)"
  by (metis append_take_drop_id concat_append length_append le_add1)

lemma length_concat_take_Suc:
  "i < length xss \<Longrightarrow> length (concat (take (Suc i) xss)) = length (concat (take i xss)) + length (xss ! i)"
  by (simp add: take_Suc_conv_app_nth)

lemma cellStartOf_bounds:
  assumes "page_rep p cells" "i < length cells"
  shows "0 < cellStartOf cells i" "cellStartOf cells i < MaxPageContentV2"
    "unat (hdr_FreeSpace (Header p)) \<le> cellStartOf cells i"
    "0 < i \<Longrightarrow> cellStartOf cells (i - 1) = cellStartOf cells i + length (fst (cells ! i))"
    "MaxPageContentV2 = cellStartOf cells 0 + length (fst (cells ! 0))"
proof -
  let ?xs = "map fst cells"
  have le: "length (concat (take (Suc i) ?xs)) \<le> length (cellBytes cells)"
    by (simp only: length_cellBytes length_concat_take_le)
  have tot: "2 * length cells + length (cellBytes cells) \<le> MaxPageContentV2"
    "unat (hdr_FreeSpace (Header p)) + length (cellBytes cells) = MaxPageContentV2"
    using assms(1) by (simp_all add: page_rep_def)
  have suc: "length (concat (take (Suc i) ?xs)) = length (concat (take i ?xs)) + length (fst (cells ! i))"
    using length_concat_take_Suc [of i ?xs] assms(2) by simp
  have pos: "0 < length (fst (cells ! i))"
    using page_repD(2) [OF assms] by simp
  note c = cellStartOf_def take_map [symmetric]
  show "0 < cellStartOf cells i" "unat (hdr_FreeSpace (Header p)) \<le> cellStartOf cells i"
    using le tot assms(2) unfolding c by linarith+
  show "cellStartOf cells i < MaxPageContentV2"
    using pos suc le tot assms(2) unfolding c by linarith
  show "0 < i \<Longrightarrow> cellStartOf cells (i - 1) = cellStartOf cells i + length (fst (cells ! i))"
    using suc le tot assms(2) unfolding c by (cases i) (auto simp: take_map)
  have "length (concat (take (Suc 0) ?xs)) \<le> length (cellBytes cells)"
    by (simp only: length_cellBytes length_concat_take_le)
  moreover have "length (concat (take (Suc 0) ?xs)) = length (fst (cells ! 0))"
    using length_concat_take_Suc [of 0 ?xs] assms(2) by (cases cells) simp_all
  ultimately show "MaxPageContentV2 = cellStartOf cells 0 + length (fst (cells ! 0))"
    using tot unfolding c by linarith
qed

text \<open>The bytes between the pointer of a cell and that of its predecessor are the cell.\<close>

lemma page_rep_slice:
  assumes "page_rep p cells" "i < length cells"
  shows "slice (cellStartOf cells i) (cellStartOf cells i + length (fst (cells ! i))) (Content p) = fst (cells ! i)"
proof -
  let ?fs = "unat (hdr_FreeSpace (Header p))"
  let ?hi = "concat (rev (map fst (drop (Suc i) cells)))" and ?lo = "concat (rev (map fst (take i cells)))"
  have "cells = take i cells @ cells ! i # drop (Suc i) cells"
    by (simp add: assms(2) id_take_nth_drop)
  then have "cellBytes cells = concat (rev (map fst (take i cells @ cells ! i # drop (Suc i) cells)))"
    unfolding cellBytes_def by (rule arg_cong)
  then have bytes: "cellBytes cells = ?hi @ fst (cells ! i) @ ?lo" by simp
  have lo: "length ?lo = length (concat (take i (map fst cells)))"
    by (simp add: length_concat rev_map [symmetric] sum_list_rev take_map)
  have start: "cellStartOf cells i = length ?hi + ?fs"
    using assms(2) lo length_concat_take_Suc [of i "map fst cells"] arg_cong [OF bytes, of length]
      page_repD(5) [OF assms(1)]
    by (simp add: cellStartOf_def take_map)
  have "drop ?fs (Content p) = ?hi @ fst (cells ! i) @ ?lo"
    using page_repD(7) [OF assms(1)] bytes by simp
  then have "drop (length ?hi) (drop ?fs (Content p)) = fst (cells ! i) @ ?lo"
    by simp
  then have "drop (cellStartOf cells i) (Content p) = fst (cells ! i) @ ?lo"
    unfolding start drop_drop .
  then show ?thesis by (simp add: slice_def)
qed

lemma u16_MaxPageContentV2 [simp]: "unat (of_nat MaxPageContentV2 :: u16) = MaxPageContentV2"
  by (simp add: MaxPageContentV2_def)

definition cellReadable :: "cells \<Rightarrow> nat \<Rightarrow> bool" where
  "cellReadable cells i \<longleftrightarrow> i < length cells \<and> snd (cells ! i) \<and> (i = 0 \<or> snd (cells ! (i - 1)))"

text \<open>The lower and upper pointer the readers and the deletion compute for a readable cell.\<close>

lemma cell_pointers:
  assumes "page_rep p cells" "cellReadable cells i"
  obtains a b where "GetCellPointer p (int i) = Inr a" "unat a = cellStartOf cells i" "a \<noteq> 0"
    "(if int i = 0 then Inr (of_nat MaxPageContentV2) else GetCellPointer p (int i - 1)) = (Inr b :: page_error + u16)"
    "unat b = cellStartOf cells i + length (fst (cells ! i))" "\<not> b \<le> a" "\<not> of_nat MaxPageContentV2 \<le> a"
    "unat b \<le> MaxPageContentV2" "b \<noteq> 0" "i \<noteq> 0 \<longrightarrow> \<not> of_nat MaxPageContentV2 \<le> b"
proof -
  have i: "i < length cells" using assms(2) by (simp add: cellReadable_def)
  note st = cellStartOf_bounds [OF assms(1) i]
  obtain a where a: "GetCellPointer p (int i) = Inr a" "unat a = cellStartOf cells i"
    using page_rep_pointer [OF assms(1) i] assms(2) by (auto simp: cellReadable_def)
  obtain b where b: "(if int i = 0 then Inr (of_nat MaxPageContentV2) else GetCellPointer p (int i - 1)) = (Inr b :: page_error + u16)"
    "unat b = cellStartOf cells i + length (fst (cells ! i))" "unat b \<le> MaxPageContentV2"
    "i \<noteq> 0 \<longrightarrow> unat b < MaxPageContentV2"
  proof (cases i)
    case 0
    then show ?thesis using that [of "of_nat MaxPageContentV2"] st(5) by simp
  next
    case (Suc j)
    with page_rep_pointer [OF assms(1), of j] assms(2) i obtain b where
      "GetCellPointer p (int j) = Inr b" "unat b = cellStartOf cells j" by (auto simp: cellReadable_def)
    then show ?thesis
      using that [of b] st(4) Suc i cellStartOf_bounds(2) [OF assms(1), of j] by simp
  qed
  have "0 < length (fst (cells ! i))" using page_repD(2) [OF assms(1) i] by simp
  with a(2) b(2) st(1,2) have "unat a < unat b" "unat a < MaxPageContentV2" "unat a \<noteq> 0" "unat b \<noteq> 0" by linarith+
  with a b show ?thesis
    by (intro that [of a b]) (auto simp: word_le_nat_alt)
qed

lemma GetCellData_rep:
  assumes "page_rep p cells" "cellReadable cells i"
  shows "GetCellData p (int i) = Inr (fst (cells ! i))"
proof -
  have i: "i < length cells" using assms(2) by (simp add: cellReadable_def)
  obtain a b where "GetCellPointer p (int i) = Inr a" "unat a = cellStartOf cells i" "a \<noteq> 0"
    "(if int i = 0 then Inr (of_nat MaxPageContentV2) else GetCellPointer p (int i - 1)) = (Inr b :: page_error + u16)"
    "unat b = cellStartOf cells i + length (fst (cells ! i))" "\<not> b \<le> a" "\<not> of_nat MaxPageContentV2 \<le> a"
    "unat b \<le> MaxPageContentV2"
    using cell_pointers [OF assms] by metis
  then show ?thesis
    using i page_repD(4,8) [OF assms(1)] page_rep_slice [OF assms(1) i]
    by (simp add: GetCellData_def contentSlice_def)
qed

lemma GetRowFromPage_rep:
  assumes "page_rep p cells" "cellReadable cells i"
  shows "GetRowFromPage p (int i) colDefs = DecodeRow (fst (cells ! i)) colDefs"
proof -
  have i: "i < length cells" using assms(2) by (simp add: cellReadable_def)
  obtain a b where "GetCellPointer p (int i) = Inr a" "unat a = cellStartOf cells i" "a \<noteq> 0"
    "(if int i = 0 then Inr (of_nat MaxPageContentV2) else GetCellPointer p (int i - 1)) = (Inr b :: page_error + u16)"
    "unat b = cellStartOf cells i + length (fst (cells ! i))" "\<not> b \<le> a" "\<not> of_nat MaxPageContentV2 \<le> a"
    "unat b \<le> MaxPageContentV2" "b \<noteq> 0" "i \<noteq> 0 \<longrightarrow> \<not> of_nat MaxPageContentV2 \<le> b"
    using cell_pointers [OF assms] by metis
  then show ?thesis
    using i page_repD(4,8) [OF assms(1)] page_rep_slice [OF assms(1) i]
    by (auto simp: GetRowFromPage_def contentSlice_def)
qed

text \<open>A cell that is deleted, or whose predecessor is, cannot be read.\<close>

lemma GetCellData_unreadable:
  assumes "page_rep p cells" "\<not> cellReadable cells i"
  shows "\<exists>e. GetCellData p (int i) = Inl e"
proof (cases "i < length cells")
  case i: True
  obtain a where a: "GetCellPointer p (int i) = Inr a"
    "unat a = (if snd (cells ! i) then cellStartOf cells i else 0)"
    using page_rep_pointer [OF assms(1) i] by auto
  show ?thesis
  proof (cases "snd (cells ! i)")
    case True
    with assms(2) i obtain j where j: "i = Suc j" "\<not> snd (cells ! j)"
      by (cases i) (auto simp: cellReadable_def)
    then obtain b where "GetCellPointer p (int i - 1) = Inr b" "unat b = 0"
      using page_rep_pointer [OF assms(1), of j] i by auto
    with a j show ?thesis by (simp add: GetCellData_def word_le_nat_alt)
  qed (use a i in \<open>simp add: GetCellData_def unat_eq_0\<close>)
qed (use page_repD(4) [OF assms(1)] in \<open>simp add: GetCellData_def\<close>)

section \<open>Insertion and deletion\<close>

lemma AvailableSpace_rep:
  assumes "page_rep p cells"
  shows "unat (AvailableSpace p) = MaxPageContentV2 - length (cellBytes cells) - 2 * length cells - deadBytes cells"
proof -
  note r = page_repD(3-6) [OF assms]
  have mul: "unat (hdr_CellCount (Header p) * 2) = 2 * length cells"
    using r by (simp add: unat_word_ariths MaxPageContentV2_def)
  then have "hdr_CellCount (Header p) * 2 \<le> hdr_FreeSpace (Header p)"
    using r by (simp add: word_le_nat_alt)
  then have "unat (hdr_FreeSpace (Header p) - hdr_CellCount (Header p) * 2) = unat (hdr_FreeSpace (Header p)) - 2 * length cells"
    using mul by (simp add: unat_sub_if_size word_le_nat_alt)
  then show ?thesis
    using r mul by (auto simp: AvailableSpace_def Let_def word_less_nat_alt unat_sub_if_size)
qed

lemma deadBytes_le: "deadBytes cells \<le> length (cellBytes cells)"
  by (induction cells) (auto simp: deadBytes_def length_cellBytes)

lemma CanInsert_rep:
  assumes "page_rep p cells" "n < 2 ^ 16 - 2"
  shows "CanInsert p n \<longleftrightarrow> n + 2 + 2 * length cells + length (cellBytes cells) + deadBytes cells \<le> MaxPageContentV2"
proof -
  have "unat ((of_nat n :: u16) + 2) = n + 2"
    using assms(2) by (simp add: unat_word_ariths unat_of_nat)
  then show ?thesis
    using AvailableSpace_rep [OF assms(1)] page_repD(3) [OF assms(1)]
    by (auto simp: CanInsert_def Let_def word_le_nat_alt)
qed

lemma cellBytes_snoc [simp]: "cellBytes (cells @ [(d, b)]) = d @ cellBytes cells"
  by (simp add: cellBytes_def)

lemma deadBytes_snoc [simp]: "deadBytes (cells @ [(d, b)]) = deadBytes cells + (if b then 0 else length d)"
  by (simp add: deadBytes_def)

lemma cellStartOf_snoc:
  "i < length cells \<Longrightarrow> cellStartOf (cells @ [c]) i = cellStartOf cells i"
  "cellStartOf (cells @ [(d, b)]) (length cells) = MaxPageContentV2 - length (cellBytes cells) - length d"
  by (simp_all add: cellStartOf_def length_cellBytes)

text \<open>Writing the record and its pointer into the content of a page that has room for both.\<close>

lemma page_content_insert:
  fixes off :: u16
  assumes rep: "page_rep p cells" and d: "d \<noteq> []"
    and room: "length d + 2 + 2 * length cells + length (cellBytes cells) \<le> MaxPageContentV2"
    and off: "unat off = unat (hdr_FreeSpace (Header p)) - length d"
    and C: "C = copy_at (length cells * 2) (le_bytes 2 off) (copy_at (unat off) d (Content p))"
  shows "length C = MaxPageContentV2" "drop (unat off) C = d @ cellBytes cells"
    "i \<le> length cells \<Longrightarrow> unat (le_word (slice (2 * i) (2 * i + 2) C) :: u16) =
        (if snd ((cells @ [(d, True)]) ! i) then cellStartOf (cells @ [(d, True)]) i else 0)"
proof -
  note r = page_repD(5,7,8) [OF rep]
  let ?C = "copy_at (unat off) d (Content p)"
  have off': "unat off + length d = unat (hdr_FreeSpace (Header p))" "2 * length cells + 2 \<le> unat off"
    using off room r(1) by linarith+
  then have fits: "unat off + length d \<le> length (Content p)" using r(1,3) by simp
  then have lenC: "length ?C = MaxPageContentV2" using r(3) by simp
  then show "length C = MaxPageContentV2" using off' r by (simp add: C)
  have "drop (unat off) C = drop (unat off) ?C"
    using off' r lenC by (simp add: C drop_copy_at_above)
  also have "\<dots> = d @ cellBytes cells"
    using fits off' r(2) by (simp add: drop_copy_at_same)
  finally show "drop (unat off) C = d @ cellBytes cells" .
  assume i: "i \<le> length cells"
  show "unat (le_word (slice (2 * i) (2 * i + 2) C) :: u16) =
        (if snd ((cells @ [(d, True)]) ! i) then cellStartOf (cells @ [(d, True)]) i else 0)"
  proof (cases "i = length cells")
    case True
    then have "slice (2 * i) (2 * i + 2) C = le_bytes 2 off"
      using off' r(1) lenC unfolding C by (simp add: mult.commute slice_copy_at_same)
    with True off off' r(1) show ?thesis by (simp add: le_word_le_bytes cellStartOf_snoc)
  next
    case False
    with i have i: "i < length cells" by simp
    then have "slice (2 * i) (2 * i + 2) C = slice (2 * i) (2 * i + 2) ?C"
      using off' lenC r(1) unfolding C by (subst slice_copy_at_below) simp_all
    also have "\<dots> = slice (2 * i) (2 * i + 2) (Content p)"
      using off' fits i by (subst slice_copy_at_below) simp_all
    finally show ?thesis
      using i rep by (simp add: page_rep_def nth_append cellStartOf_snoc)
  qed
qed

lemma InsertRowToPage_rep:
  assumes rep: "page_rep p cells" and d: "d = EncodeRow rt rowID row" and small: "length d < 2 ^ 16 - 2"
    and can: "CanInsert p (length d)"
  obtains p' where "InsertRowToPage rt p rowID row = Inr (p', int (length cells))"
    "page_rep p' (cells @ [(d, True)])"
    "hdr_PageID (Header p') = hdr_PageID (Header p)" "hdr_RightPage (Header p') = hdr_RightPage (Header p)"
proof -
  note r = page_repD [OF rep]
  have room: "length d + 2 + 2 * length cells + length (cellBytes cells) + deadBytes cells \<le> MaxPageContentV2"
    using can CanInsert_rep [OF rep small] by simp
  define off :: u16 where "off = hdr_FreeSpace (Header p) - (of_nat (length d) :: u16)"
  have len: "unat (of_nat (length d) :: u16) = length d"
    using small by (simp add: unat_of_nat)
  have off: "unat off = unat (hdr_FreeSpace (Header p)) - length d"
    using room r(5) len by (simp add: off_def unat_sub_if_size)
  have fits: "\<not> MaxPageContentV2 < unat off" using off r(5) by simp
  define C where "C = copy_at (length cells * 2) (le_bytes 2 off) (copy_at (unat off) d (Content p))"
  have "d \<noteq> []" by (simp add: d)
  note c = page_content_insert [OF rep this _ off C_def]
  have room': "length d + 2 + 2 * length cells + length (cellBytes cells) \<le> MaxPageContentV2"
    using room by simp
  define p' where "p' = p\<lparr>Content := C, Header := (Header p)\<lparr>hdr_CellCount := hdr_CellCount (Header p) + 1,
      hdr_FreeSpace := off, hdr_Flags := hdr_Flags (Header p) OR PageFlagDirty\<rparr>\<rparr>"
  have cnt: "unat (hdr_CellCount (Header p) + 1) = Suc (length cells)"
    using r(3,4) by (simp add: unat_word_ariths MaxPageContentV2_def)
  have "InsertRowToPage rt p rowID row = Inr (p', int (length cells))"
    using can r(4,8) room' fits arg_cong [OF cnt, of int]
    by (simp add: InsertRowToPage_def Let_def d [symmetric] off_def [symmetric] AddCellPointer_def
        SetCellPointer_def C_def [symmetric] p'_def)
  moreover have "page_rep p' (cells @ [(d, True)])"
    unfolding page_rep_def
    using c [OF room'] cnt off room rep \<open>d \<noteq> []\<close> r(5)
    by (auto simp: p'_def page_wf_def less_Suc_eq_le page_rep_def)
  moreover have "hdr_PageID (Header p') = hdr_PageID (Header p)" "hdr_RightPage (Header p') = hdr_RightPage (Header p)"
    by (simp_all add: p'_def)
  ultimately show ?thesis by (rule that)
qed

text \<open>Deletion of a readable cell clears its pointer and counts its bytes as fragmented.\<close>

lemma deadBytes_update:
  assumes "i < length cells" "snd (cells ! i)"
  shows "deadBytes (cells[i := (fst (cells ! i), False)]) = deadBytes cells + length (fst (cells ! i))"
proof -
  have "cells = take i cells @ cells ! i # drop (Suc i) cells"
    by (simp add: assms(1) id_take_nth_drop)
  then obtain xs ys where c: "cells = xs @ cells ! i # ys" "length xs = i"
    using assms(1) by (metis length_take less_imp_le_nat min.absorb2)
  then have "cells[i := (fst (cells ! i), False)] = xs @ (fst (cells ! i), False) # ys"
    by (metis list_update_length)
  moreover have "deadBytes cells = deadBytes (xs @ cells ! i # ys)" using c(1) by (rule arg_cong)
  ultimately show ?thesis using assms(2) by (simp add: deadBytes_def)
qed

lemma cells_update_fst [simp]:
  "map fst (cells[i := (fst (cells ! i), b)]) = map fst cells"
  by (simp add: map_update) (metis list_update_id map_update nth_map list_update_beyond not_le)

lemma cells_update_same [simp]:
  "cellBytes (cells[i := (fst (cells ! i), b)]) = cellBytes cells"
  "cellStartOf (cells[i := (fst (cells ! i), b)]) j = cellStartOf cells j"
  "fst ` set (cells[i := (fst (cells ! i), b)]) = fst ` set cells"
  by (simp_all add: cellBytes_def cellStartOf_def take_map [symmetric] flip: set_map)

lemma DeleteRowFromPage_rep:
  assumes rep: "page_rep p cells" and read: "cellReadable cells i"
  obtains p' where "DeleteRowFromPage p (int i) = Inr p'"
    "page_rep p' (cells[i := (fst (cells ! i), False)])"
    "hdr_PageID (Header p') = hdr_PageID (Header p)" "hdr_RightPage (Header p') = hdr_RightPage (Header p)"
proof -
  note r = page_repD [OF rep]
  have i: "i < length cells" "snd (cells ! i)" using read by (simp_all add: cellReadable_def)
  obtain a b where ab: "GetCellPointer p (int i) = Inr a" "unat a = cellStartOf cells i" "a \<noteq> 0"
    "(if int i = 0 then Inr (of_nat MaxPageContentV2) else GetCellPointer p (int i - 1)) = (Inr b :: page_error + u16)"
    "unat b = cellStartOf cells i + length (fst (cells ! i))" "\<not> b \<le> a"
    using cell_pointers [OF rep read] by metis
  let ?C = "copy_at (i * 2) (le_bytes 2 (0 :: u16)) (Content p)"
  define p' where "p' = p\<lparr>Header := (Header p)\<lparr>hdr_Fragmented := hdr_Fragmented (Header p) + (b - a),
      hdr_Flags := hdr_Flags (Header p) OR PageFlagDirty\<rparr>, Content := ?C\<rparr>"
  have fits: "i * 2 + 2 \<le> length (Content p)" "i * 2 + 2 \<le> unat (hdr_FreeSpace (Header p))"
    using i r(3,5,8) by linarith+
  have "DeleteRowFromPage p (int i) = Inr p'"
    using ab i r(4) fits by (simp add: DeleteRowFromPage_def Let_def SetCellPointer_def p'_def)
  moreover have "page_rep p' (cells[i := (fst (cells ! i), False)])"
  proof -
    have "unat (b - a) = length (fst (cells ! i))"
      using ab by (simp add: unat_sub_if_size word_le_nat_alt)
    moreover have "deadBytes cells + length (fst (cells ! i)) \<le> MaxPageContentV2"
      using deadBytes_le [of "cells[i := (fst (cells ! i), False)]"] deadBytes_update [OF i] r(3) by simp
    ultimately have "unat (hdr_Fragmented (Header p) + (b - a)) = deadBytes (cells[i := (fst (cells ! i), False)])"
      using r(6) deadBytes_update [OF i] by (simp add: unat_word_ariths MaxPageContentV2_def)
    moreover have "unat (le_word (slice (2 * j) (2 * j + 2) ?C) :: u16) =
        (if snd (cells[i := (fst (cells ! i), False)] ! j) then cellStartOf cells j else 0)"
      if "j < length cells" for j
    proof -
      consider "j = i" | "j < i" | "i < j" by linarith
      then show ?thesis
      proof cases
        case 1
        then show ?thesis using fits i by (simp add: mult.commute slice_copy_at_same le_word_le_bytes)
      next
        case 2
        then show ?thesis using fits that rep by (simp add: slice_copy_at_below page_rep_def)
      next
        case 3
        then show ?thesis using fits that rep by (simp add: slice_copy_at_above page_rep_def)
      qed
    qed
    ultimately show ?thesis
      using rep fits by (simp add: page_rep_def p'_def page_wf_def drop_copy_at_above)
  qed
  moreover have "hdr_PageID (Header p') = hdr_PageID (Header p)" "hdr_RightPage (Header p') = hdr_RightPage (Header p)"
    by (simp_all add: p'_def)
  ultimately show ?thesis by (rule that)
qed

section \<open>Properties\<close>

text \<open>
  C22. A row decodes from its encoding with its row ID and with every column in its stored form
  \<open>storedColumn\<close>, whatever the column definitions handed to the decoder, for rows of fewer than 65536
  columns whose encodings are unambiguous.
\<close>
theorem row_roundtrip:
  assumes "list_all (columnOk rt) row" "length row < 2 ^ 16"
  shows "DecodeRow (EncodeRow rt rowID row) colDefs = Inr (rowID, map (storedColumn rt) row)"
  using assms by (rule DecodeRow_EncodeRow)

theorem row_roundtrip_witness:
  "DecodeRow (EncodeRow rt_plain 9 [NewNullValue, NewIntValue 5, mkValue TypeChar (GString ''ab''), NewBlobValue [1, 2]]) [] =
     Inr (9, [NewNullValue, NewIntValue 5, NewStringValue ''ab'', NewBlobValue [1, 2]])"
  using row_roundtrip [of rt_plain "[NewNullValue, NewIntValue 5, mkValue TypeChar (GString ''ab''), NewBlobValue [1, 2]]" 9 "[]"]
  by (simp add: columnOk_def storedColumn_def NewNullValue_def NewIntValue_def NewBlobValue_def NewStringValue_def
      intPayload_def strPayload_def blobPayload_def IsString_def IsNumeric_def IsDateTime_def)

text \<open>
  A row of NULLs, integers, VARCHARs, blob references and blobs whose length does not end in the byte
  \<^verbatim>\<open>0xFE\<close> is stored without any change, and \<^verbatim>\<open>EstimateRowSize\<close> is then the exact size of its encoding.
\<close>
theorem canonical_row_exact:
  assumes "list_all canonicalColumn row" "length row < 2 ^ 16"
  shows "DecodeRow (EncodeRow rt rowID row) colDefs = Inr (rowID, row) \<and>
         EstimateRowSize rt row = length (EncodeRow rt rowID row)"
proof
  have "list_all (columnOk rt) row" "map (storedColumn rt) row = row"
    using assms(1) storedColumn_canonical by (auto simp: list_all_iff map_idI)
  with DecodeRow_EncodeRow [OF _ assms(2), of rt rowID colDefs]
  show "DecodeRow (EncodeRow rt rowID row) colDefs = Inr (rowID, row)" by simp
  have one: "estimateColumn rt v = length (encodeColumn rt v)" if "canonicalColumn v" for v
    using that by (rule canonicalColumn_cases) (simp_all add: estimateColumn_def encodeColumn_def NewNullValue_def NewIntValue_def
        NewStringValue_def NewBlobValue_def NewBlobRefValue_def strPayload_def blobPayload_def)
  have "fold (\<lambda>v sz. sz + estimateColumn rt v) row n = n + length (concat (map (encodeColumn rt) row))" for n
    using assms(1) by (induction row arbitrary: n) (simp_all add: one)
  then show "EstimateRowSize rt row = length (EncodeRow rt rowID row)"
    by (simp add: EstimateRowSize_def EncodeRow_def)
qed

theorem canonical_row_exact_witness:
  "DecodeRow (EncodeRow rt_plain 1 [NewIntValue 5, NewStringValue ''ab'']) [] = Inr (1, [NewIntValue 5, NewStringValue ''ab''])"
  using canonical_row_exact [of "[NewIntValue 5, NewStringValue ''ab'']" rt_plain 1 "[]"]
  by (simp add: canonicalColumn_def NewIntValue_def NewStringValue_def)

text \<open>
  FLOAT columns lose their fraction: 1.5 is stored with \<^verbatim>\<open>uint64(val)\<close> and read back with
  \<^verbatim>\<open>float64(val)\<close>, so it comes back as 1.0.
\<close>
theorem float_fraction_lost:
  "decodeColumn (encodeColumn rt (NewFloatValue 0x3FF8000000000000)) cd = Inr (NewFloatValue 0x3FF0000000000000, 9)"
proof -
  have "floatPayload rt (GFloat64 0x3FF8000000000000) = 1"
    by (simp add: floatPayload_def f64_to_u64_def f64_eval)
  moreover have "u64_to_f64 1 = 0x3FF0000000000000" by (simp add: f64_eval)
  ultimately show ?thesis
    using decodeColumn_number(3) [of 1 "[]" cd] by (simp add: encodeColumn_def NewFloatValue_def)
qed

text \<open>
  An inline blob whose length has low byte \<^verbatim>\<open>0xFE\<close> is read back as a reference to an external blob:
  its length prefix is taken for the reference marker and its first bytes for the blob ID and size.
\<close>
theorem inline_blob_read_as_reference:
  assumes "length b mod 256 = 254"
  shows "\<exists>i n. decodeColumn (encodeColumn rt (NewBlobValue b)) cd = Inr (NewBlobRefValue i n, 18)"
proof -
  have "13 \<le> length b" using assms mod_less_eq_dividend [of "length b" 256] by linarith
  moreover have "(lenPrefixed TypeBlob b @ []) ! Suc 0 = ColBlobRefMarker" using assms lenPrefixed_low_byte by blast
  moreover have "(lenPrefixed TypeBlob b @ []) ! 0 = of_int TypeBlob" by (rule nth_lenPrefixed_0)
  ultimately show ?thesis
    by (simp add: encodeColumn_def NewBlobValue_def blobPayload_def decodeColumn_def ColNullMarker_def) blast
qed

theorem inline_blob_read_as_reference_witness:
  "\<exists>i n. decodeColumn (encodeColumn rt_plain (NewBlobValue (replicate 254 0))) zeroColumnDef = Inr (NewBlobRefValue i n, 18)"
  by (rule inline_blob_read_as_reference) simp

text \<open>
  A page survives serialisation: after its checksum is refreshed, reading back its 16384 bytes into any
  page gives the same page, whose checksum verifies.
\<close>
theorem page_serialisation_roundtrip:
  assumes "page_wf p" "page_wf q"
  shows "length (Page_ToBytes p) = PageSize16KB \<and>
         Page_FromBytes q (Page_ToBytes (UpdateChecksum p)) = Inr (UpdateChecksum p) \<and> VerifyChecksum (UpdateChecksum p)"
  using assms Page_FromBytes_ToBytes [of "UpdateChecksum p" q] VerifyChecksum_UpdateChecksum length_Page_ToBytes by simp

theorem page_serialisation_roundtrip_witness:
  "Page_FromBytes (NewPageV2 0 0) (Page_ToBytes (UpdateChecksum (NewPageV2 3 PageTypeData))) =
     Inr (UpdateChecksum (NewPageV2 3 PageTypeData))"
  using page_serialisation_roundtrip [of "NewPageV2 3 PageTypeData" "NewPageV2 0 0"] by simp


lemma EncodeRow_one_int: "length (EncodeRow rt i [NewIntValue n]) = 19" "list_all (columnOk rt) [NewIntValue n]"
  by (simp_all add: EncodeRow_def encodeColumn_def NewIntValue_def columnOk_def IsNumeric_def IsString_def IsDateTime_def)

lemma CanInsert_new: "n < 16350 \<Longrightarrow> CanInsert (NewPageV2 i t) n"
  using CanInsert_rep [OF page_rep_new, of n i t] by (simp add: cellBytes_def deadBytes_def MaxPageContentV2_def)


text \<open>
  On a page that represents a sequence of cells, \<^verbatim>\<open>GetCellData\<close> returns exactly the bytes of a cell
  that is alive and whose predecessor is alive or which is the first one, and fails for every other index.
\<close>
theorem get_cell_data_spec:
  assumes "page_rep p cells"
  shows "if cellReadable cells i then GetCellData p (int i) = Inr (fst (cells ! i))
         else (\<exists>e. GetCellData p (int i) = Inl e)"
  using GetCellData_rep [OF assms, of i] GetCellData_unreadable [OF assms, of i] by simp

theorem get_cell_data_spec_witness: "\<exists>e. GetCellData (NewPageV2 1 PageTypeData) 0 = Inl e"
  using get_cell_data_spec [OF page_rep_new, of 0 1 PageTypeData] by (simp add: cellReadable_def)

text \<open>
  Deletion clears exactly one cell: the page then represents the same cells with that one dead, its
  bytes counted as fragmented, its identity and its link unchanged.
\<close>
theorem delete_row_kills_cell:
  assumes "page_rep p cells" "cellReadable cells i"
  shows "\<exists>p'. DeleteRowFromPage p (int i) = Inr p' \<and> page_rep p' (cells[i := (fst (cells ! i), False)]) \<and>
           hdr_PageID (Header p') = hdr_PageID (Header p) \<and> hdr_RightPage (Header p') = hdr_RightPage (Header p)"
  using DeleteRowFromPage_rep [OF assms] by metis

text \<open>A page with one row, on which the witnesses of the deletion run.\<close>

definition samplePage :: PageV2 where
  "samplePage = (case InsertRowToPage rt_plain (NewPageV2 1 PageTypeData) 4 [NewIntValue 5] of
     Inr (p, _) \<Rightarrow> p | Inl _ \<Rightarrow> NewPageV2 0 0)"

lemma samplePage_rep: "page_rep samplePage [(EncodeRow rt_plain 4 [NewIntValue 5], True)]"
proof -
  have "length (EncodeRow rt_plain 4 [NewIntValue 5]) < 2 ^ 16 - 2" by (simp add: EncodeRow_one_int)
  moreover have "CanInsert (NewPageV2 1 PageTypeData) (length (EncodeRow rt_plain 4 [NewIntValue 5]))"
    by (simp only: EncodeRow_one_int) (rule CanInsert_new, simp)
  ultimately obtain p' where "InsertRowToPage rt_plain (NewPageV2 1 PageTypeData) 4 [NewIntValue 5] = Inr (p', int (length ([] :: cells)))"
    "page_rep p' ([] @ [(EncodeRow rt_plain 4 [NewIntValue 5], True)])"
    by (rule InsertRowToPage_rep [OF page_rep_new refl])
  then show ?thesis by (simp add: samplePage_def)
qed

theorem delete_row_kills_cell_witness:
  "\<exists>p'. DeleteRowFromPage samplePage 0 = Inr p' \<and> page_rep p' [(EncodeRow rt_plain 4 [NewIntValue 5], False)]"
  using delete_row_kills_cell [OF samplePage_rep, of 0] by (auto simp: cellReadable_def)

text \<open>
  After the last row of a page is deleted, the next row inserted into that page cannot be read: its end
  is taken from the cleared pointer of the deleted cell, and \<^verbatim>\<open>GetRowFromPage\<close> reports an invalid offset.
\<close>
theorem row_after_deleted_row_unreadable:
  assumes rep: "page_rep p (cells @ [(d, True)])" and alive: "cells = [] \<or> snd (last cells)"
    and del: "DeleteRowFromPage p (int (length cells)) = Inr p1"
    and ins: "InsertRowToPage rt p1 rowID row = Inr (p2, i)" and small: "length (EncodeRow rt rowID row) < 2 ^ 16 - 2"
  shows "i = int (length cells) + 1 \<and> GetRowFromPage p2 i colDefs = Inl (ErrPrevCellOffset 0)"
proof -
  let ?e = "EncodeRow rt rowID row" and ?cs = "cells @ [(d, False)]"
  have "cellReadable (cells @ [(d, True)]) (length cells)"
    using alive by (cases cells rule: rev_cases) (auto simp: cellReadable_def nth_append)
  from DeleteRowFromPage_rep [OF rep this] obtain p1' where
    "DeleteRowFromPage p (int (length cells)) = Inr p1'" "page_rep p1' ?cs" by (metis fst_conv list_update_length nth_append_length)
  with del have p1: "page_rep p1 ?cs" by simp
  have "CanInsert p1 (length ?e)" using ins by (auto simp: InsertRowToPage_def Let_def split: if_splits)
  from InsertRowToPage_rep [OF p1 refl small this] ins
  have p2: "page_rep p2 (?cs @ [(?e, True)])" and i: "i = int (length ?cs)" by auto
  have len: "Suc (length cells) < length (?cs @ [(?e, True)])" "length cells < length (?cs @ [(?e, True)])" by simp_all
  obtain w where w: "GetCellPointer p2 i = Inr w" "unat w = cellStartOf (?cs @ [(?e, True)]) (Suc (length cells))"
    using page_rep_pointer [OF p2 len(1)] i by (auto simp: nth_append)
  have "w \<noteq> 0" "\<not> of_nat MaxPageContentV2 \<le> w"
    using w(2) cellStartOf_bounds(1,2) [OF p2 len(1)] by (auto simp: word_le_nat_alt)
  moreover obtain z where "GetCellPointer p2 (i - 1) = Inr z" "unat z = 0"
    using page_rep_pointer [OF p2 len(2)] i by (auto simp: nth_append)
  ultimately show ?thesis
    using w(1) i page_repD(4) [OF p2] by (simp add: GetRowFromPage_def unat_eq_0)
qed

theorem row_after_deleted_row_unreadable_witness:
  "\<exists>p1 p2 i. DeleteRowFromPage samplePage 0 = Inr p1 \<and> InsertRowToPage rt_plain p1 6 [NewIntValue 7] = Inr (p2, i) \<and>
     GetRowFromPage p2 i [] = Inl (ErrPrevCellOffset 0)"
proof -
  let ?d = "EncodeRow rt_plain 4 [NewIntValue 5]" and ?e = "EncodeRow rt_plain 6 [NewIntValue 7]"
  have rep: "page_rep samplePage ([] @ [(?d, True)])" using samplePage_rep by simp
  obtain p1 where p1: "DeleteRowFromPage samplePage (int 0) = Inr p1" "page_rep p1 [(?d, False)]"
    using DeleteRowFromPage_rep [OF samplePage_rep, of 0] by (auto simp: cellReadable_def)
  have small: "length ?e < 2 ^ 16 - 2" by (simp add: EncodeRow_one_int)
  have "CanInsert p1 (length ?e)"
    using CanInsert_rep [OF p1(2) small] by (simp add: EncodeRow_one_int cellBytes_def deadBytes_def MaxPageContentV2_def)
  from InsertRowToPage_rep [OF p1(2) refl small this] obtain p2 i where
    p2: "InsertRowToPage rt_plain p1 6 [NewIntValue 7] = Inr (p2, i)" by metis
  from row_after_deleted_row_unreadable [OF rep _ _ p2 small, of "[]"] p1(1) p2 show ?thesis by auto
qed

end
