(* ===== verification/PageCache.thy ===== *)
theory PageCache
  imports Page
begin

text \<open>
  \<^verbatim>\<open>src/storage/pagecache.go\<close>: the LRU cache of pages. The entries of \<^verbatim>\<open>container/list\<close> are
  identified by the page ID they carry (their \<^verbatim>\<open>page\<close> field is written and never read), front first;
  \<open>lruMap\<close> maps a page ID to its list entry. Each operation returns the new cache with its result.
  The theory shows the consistency invariant, the capacity bound, that the cache refines a plain
  list in order of use, and the contract \<open>page_store\<close> on which the table files rely.
\<close>

section \<open>Definitions\<close>

record PageCacheConfig =
  MaxPages :: int
  WriteBehind :: bool
  WriteBatch :: int

definition DefaultPageCacheConfig :: PageCacheConfig where
  "DefaultPageCacheConfig = \<lparr>MaxPages = 1000, WriteBehind = True, WriteBatch = 100\<rparr>"

record PageCache =
  config :: PageCacheConfig
  pages :: "(u64, PageV2) gomap"
  lruList :: "u64 list"
  lruMap :: "(u64, u64) gomap"
  dirty :: "(u64, bool) gomap"
  hits :: u64
  misses :: u64

datatype 'e cache_error = ErrNilPage | ErrNoPagesToEvict | ErrEvictDirty u64 | ErrWriteFunc 'e

definition NewPageCache :: "PageCacheConfig \<Rightarrow> PageCache" where
  "NewPageCache cfg = \<lparr>config = cfg, pages = [], lruList = [], lruMap = [], dirty = [], hits = 0, misses = 0\<rparr>"

definition MoveToFront :: "u64 \<Rightarrow> u64 list \<Rightarrow> u64 list" where
  "MoveToFront el l = (if el \<in> set l then el # remove1 el l else l)"

definition touchPage :: "u64 \<Rightarrow> PageCache \<Rightarrow> PageCache" where
  "touchPage pageID c =
     (case map_of (lruMap c) pageID of
        Some element \<Rightarrow> c\<lparr>lruList := MoveToFront element (lruList c)\<rparr>
      | None \<Rightarrow> c)"

definition Get :: "u64 \<Rightarrow> PageCache \<Rightarrow> PageCache \<times> PageV2 option" where
  "Get pageID c =
     (case map_of (pages c) pageID of
        None \<Rightarrow> (c\<lparr>misses := misses c + 1\<rparr>, None)
      | Some page \<Rightarrow> (touchPage pageID (c\<lparr>hits := hits c + 1\<rparr>), Some page))"

definition isDirty :: "PageCache \<Rightarrow> u64 \<Rightarrow> bool" where
  "isDirty c pageID \<longleftrightarrow> map_of (dirty c) pageID = Some True"

definition evictLRU :: "PageCache \<Rightarrow> PageCache \<times> 'e cache_error option" where
  "evictLRU c =
     (if lruList c = [] then (c, Some ErrNoPagesToEvict)
      else let pageID = last (lruList c)
           in if isDirty c pageID
              then (c\<lparr>lruList := pageID # butlast (lruList c)\<rparr>, Some (ErrEvictDirty pageID))
              else (c\<lparr>pages := del_key pageID (pages c), lruMap := del_key pageID (lruMap c),
                      lruList := butlast (lruList c)\<rparr>, None))"

text \<open>The eviction loops of \<^verbatim>\<open>Put\<close> and \<^verbatim>\<open>Resize\<close>: evict until at most \<open>n\<close> pages remain, stop at an error.\<close>

function evictWhile :: "int \<Rightarrow> PageCache \<Rightarrow> PageCache \<times> 'e cache_error option" where
  "evictWhile n c =
     (if int (length (pages c)) \<le> n then (c, None)
      else case evictLRU c of
             (c', Some e) \<Rightarrow> (c', Some e)
           | (c', None) \<Rightarrow> evictWhile n c')"
  by pat_completeness auto
termination
  by (relation "measure (\<lambda>(n, c). length (lruList c))") (auto simp: evictLRU_def Let_def split: if_splits)

declare evictWhile.simps [simp del]

definition Put :: "PageV2 option \<Rightarrow> PageCache \<Rightarrow> PageCache \<times> 'e cache_error option" where
  "Put page c =
     (case page of
        None \<Rightarrow> (c, Some ErrNilPage)
      | Some page \<Rightarrow>
          let pageID = hdr_PageID (Header page)
          in if has_key pageID (pages c)
             then (touchPage pageID (c\<lparr>pages := put_key pageID page (pages c)\<rparr>), None)
             else (case evictWhile (MaxPages (config c) - 1) c of
                     (c', Some e) \<Rightarrow> (c', Some e)
                   | (c', None) \<Rightarrow>
                       (c'\<lparr>pages := put_key pageID page (pages c'), lruList := pageID # lruList c',
                           lruMap := put_key pageID pageID (lruMap c')\<rparr>, None)))"

definition MarkDirty :: "u64 \<Rightarrow> PageCache \<Rightarrow> PageCache" where
  "MarkDirty pageID c = c\<lparr>dirty := put_key pageID True (dirty c)\<rparr>"

definition IsDirty :: "u64 \<Rightarrow> PageCache \<Rightarrow> bool" where
  "IsDirty pageID c = isDirty c pageID"

definition ClearDirty :: "u64 \<Rightarrow> PageCache \<Rightarrow> PageCache" where
  "ClearDirty pageID c = c\<lparr>dirty := del_key pageID (dirty c)\<rparr>"

definition GetDirtyPages :: "PageCache \<Rightarrow> u64 list" where
  "GetDirtyPages c = keys_of (dirty c)"

definition Remove :: "u64 \<Rightarrow> PageCache \<Rightarrow> PageCache" where
  "Remove pageID c =
     (let c = (case map_of (lruMap c) pageID of
                 Some element \<Rightarrow> c\<lparr>lruList := remove1 element (lruList c), lruMap := del_key pageID (lruMap c)\<rparr>
               | None \<Rightarrow> c)
      in c\<lparr>pages := del_key pageID (pages c), dirty := del_key pageID (dirty c)\<rparr>)"

definition Clear :: "PageCache \<Rightarrow> PageCache" where
  "Clear c = c\<lparr>pages := [], lruList := [], lruMap := [], dirty := []\<rparr>"

definition Size :: "PageCache \<Rightarrow> nat" where
  "Size c = length (pages c)"

record CacheStats =
  st_pages :: nat
  st_max_pages :: int
  st_dirty :: nat
  st_hits :: u64
  st_misses :: u64
  st_hit_rate :: float64
  st_usage_mb :: nat

definition Stats :: "go_rt \<Rightarrow> PageCache \<Rightarrow> CacheStats" where
  "Stats rt c =
     (let total = hits c + misses c;
          hitRate = (if 0 < sint total then rt_fdiv rt (i64_to_f64 (hits c)) (i64_to_f64 total) else 0)
      in \<lparr>st_pages = length (pages c), st_max_pages = MaxPages (config c), st_dirty = length (dirty c),
          st_hits = hits c, st_misses = misses c, st_hit_rate = hitRate,
          st_usage_mb = length (pages c) * PageSize16KB div (1024 * 1024)\<rparr>)"

text \<open>
  \<^verbatim>\<open>writeFunc\<close> acts on some outer state \<open>w\<close> and may change the page it is given (the table file
  refreshes its checksum). \<^verbatim>\<open>Flush\<close> visits the dirty map in the order of its list.
\<close>

type_synonym ('w, 'e) writeFunc = "PageV2 \<Rightarrow> 'w \<Rightarrow> 'w \<times> PageV2 \<times> 'e option"

fun flushLoop :: "('w, 'e) writeFunc \<Rightarrow> u64 list \<Rightarrow> PageCache \<Rightarrow> 'w \<Rightarrow> PageCache \<times> 'w \<times> 'e cache_error option" where
  "flushLoop write [] c w = (c, w, None)"
| "flushLoop write (pageID # rest) c w =
     (if \<not> isDirty c pageID then flushLoop write rest c w
      else case map_of (pages c) pageID of
             None \<Rightarrow> flushLoop write rest (ClearDirty pageID c) w
           | Some page \<Rightarrow>
               (case write page w of
                  (w', page', Some e) \<Rightarrow>
                    (c\<lparr>pages := put_key pageID page' (pages c)\<rparr>, w', Some (ErrWriteFunc e))
                | (w', page', None) \<Rightarrow>
                    flushLoop write rest (ClearDirty pageID (c\<lparr>pages := put_key pageID page' (pages c)\<rparr>)) w'))"

definition Flush :: "('w, 'e) writeFunc \<Rightarrow> PageCache \<Rightarrow> 'w \<Rightarrow> PageCache \<times> 'w \<times> 'e cache_error option" where
  "Flush write c w = flushLoop write (keys_of (dirty c)) c w"

definition FlushPage :: "u64 \<Rightarrow> ('w, 'e) writeFunc \<Rightarrow> PageCache \<Rightarrow> 'w \<Rightarrow> PageCache \<times> 'w \<times> 'e cache_error option" where
  "FlushPage pageID write c w =
     (if \<not> isDirty c pageID then (c, w, None)
      else case map_of (pages c) pageID of
             None \<Rightarrow> (ClearDirty pageID c, w, None)
           | Some page \<Rightarrow>
               (case write page w of
                  (w', page', Some e) \<Rightarrow>
                    (c\<lparr>pages := put_key pageID page' (pages c)\<rparr>, w', Some (ErrWriteFunc e))
                | (w', page', None) \<Rightarrow>
                    (ClearDirty pageID (c\<lparr>pages := put_key pageID page' (pages c)\<rparr>), w', None)))"

definition Resize :: "int \<Rightarrow> PageCache \<Rightarrow> PageCache \<times> 'e cache_error option" where
  "Resize maxPages c =
     (let c = c\<lparr>config := (config c)\<lparr>MaxPages := maxPages\<rparr>\<rparr> in evictWhile maxPages c)"

section \<open>Consistency\<close>

text \<open>
  The page map, the list and the list index hold the same distinct IDs, and only \<^verbatim>\<open>true\<close> is ever stored
  in the dirty map.
\<close>

definition cache_inv :: "PageCache \<Rightarrow> bool" where
  "cache_inv c \<longleftrightarrow>
     distinct (keys_of (pages c)) \<and> distinct (lruList c) \<and> set (lruList c) = set (keys_of (pages c)) \<and>
     (\<forall>k. map_of (lruMap c) k = (if k \<in> set (lruList c) then Some k else None)) \<and>
     distinct (keys_of (dirty c)) \<and> (\<forall>b \<in> snd ` set (dirty c). b)"

lemma cache_inv_length: "cache_inv c \<Longrightarrow> length (lruList c) = length (pages c)"
  by (metis cache_inv_def distinct_card length_map)

lemma set_MoveToFront [simp]: "set (MoveToFront el l) = set l"
  using set_remove1_subset [of el l] by (auto simp: MoveToFront_def) (metis in_set_remove1)

lemma distinct_MoveToFront [simp]: "distinct l \<Longrightarrow> distinct (MoveToFront el l)"
  by (simp add: MoveToFront_def)

lemma touchPage_simps [simp]:
  "pages (touchPage k c) = pages c" "lruMap (touchPage k c) = lruMap c" "dirty (touchPage k c) = dirty c"
  "config (touchPage k c) = config c" "hits (touchPage k c) = hits c" "misses (touchPage k c) = misses c"
  by (simp_all add: touchPage_def split: option.split)

lemma lruList_touchPage: "cache_inv c \<Longrightarrow> lruList (touchPage k c) = MoveToFront k (lruList c)"
  by (auto simp: touchPage_def cache_inv_def MoveToFront_def)

lemma touchPage_inv: "cache_inv c \<Longrightarrow> cache_inv (touchPage k c)"
  using lruList_touchPage [of c k] by (simp add: cache_inv_def)

lemma NewPageCache_inv: "cache_inv (NewPageCache cfg)"
  by (simp add: cache_inv_def NewPageCache_def)

lemma evictLRU_inv:
  assumes "cache_inv c" "evictLRU c = (c', r)"
  shows "cache_inv c'"
proof (cases "lruList c" rule: rev_cases)
  case Nil
  with assms show ?thesis by (simp add: evictLRU_def)
next
  case (snoc l k)
  show ?thesis
  proof (cases "isDirty c k")
    case True
    with assms(2) snoc have "c' = c\<lparr>lruList := k # l\<rparr>" by (simp add: evictLRU_def)
    moreover have "set (k # l) = set (lruList c)" "distinct (k # l)"
      using assms(1) snoc by (auto simp: cache_inv_def)
    ultimately show ?thesis using assms(1) by (simp add: cache_inv_def)
  next
    case False
    with assms snoc have "c' = c\<lparr>pages := del_key k (pages c), lruMap := del_key k (lruMap c), lruList := l\<rparr>"
      by (auto simp: evictLRU_def Let_def)
    moreover have "set l = set (keys_of (pages c)) - {k}" "distinct l"
      using assms(1) snoc by (auto simp: cache_inv_def)
    ultimately show ?thesis
      using assms(1) snoc by (auto simp: cache_inv_def delete_keys delete_conv' distinct_removeAll)
  qed
qed

text \<open>Eviction only ever drops pages.\<close>

definition shrinks :: "PageCache \<Rightarrow> PageCache \<Rightarrow> bool" where
  "shrinks c c' \<longleftrightarrow> dirty c' = dirty c \<and> config c' = config c \<and> map_of (pages c') \<subseteq>\<^sub>m map_of (pages c)
     \<and> length (pages c') \<le> length (pages c)"

lemma shrinks_refl [simp]: "shrinks c c"
  by (simp add: shrinks_def)

lemma shrinks_trans: "shrinks a b \<Longrightarrow> shrinks b c \<Longrightarrow> shrinks a c"
  by (auto simp: shrinks_def intro: map_le_trans)

lemma evictLRU_shrinks: "evictLRU c = (c', r) \<Longrightarrow> shrinks c c'"
  by (auto simp: shrinks_def evictLRU_def Let_def map_le_def delete_conv' length_delete_le split: if_splits)

lemma evictWhile_spec:
  fixes r :: "'e cache_error option"
  shows "cache_inv c \<Longrightarrow> evictWhile n c = (c', r) \<Longrightarrow>
     cache_inv c' \<and> shrinks c c' \<and> (r = None \<longrightarrow> int (length (pages c')) \<le> n)"
proof (induction n c rule: evictWhile.induct [where 'a = 'e])
  case (1 n c)
  show ?case
  proof (cases "int (length (pages c)) \<le> n")
    case True
    with 1(2,3) show ?thesis by (auto simp: evictWhile.simps [of n c])
  next
    case False
    obtain c1 r1 where e: "evictLRU c = (c1, r1 :: 'e cache_error option)" by fastforce
    note c1 = evictLRU_inv [OF 1(2) e] evictLRU_shrinks [OF e]
    show ?thesis
    proof (cases r1)
      case None
      with 1(1) [OF False e [symmetric] None c1(1)] 1(3) False e c1(2) show ?thesis
        by (auto simp: evictWhile.simps [of n c] intro: shrinks_trans)
    next
      case (Some er)
      with 1(3) False e c1 show ?thesis by (auto simp: evictWhile.simps [of n c])
    qed
  qed
qed

section \<open>Every operation keeps the cache consistent\<close>

lemma Get_inv: "cache_inv c \<Longrightarrow> Get k c = (c', r) \<Longrightarrow> cache_inv c'"
proof -
  assume inv: "cache_inv c" and g: "Get k c = (c', r)"
  have "cache_inv (c\<lparr>misses := m\<rparr>)" "cache_inv (c\<lparr>hits := m\<rparr>)" for m
    using inv by (simp_all add: cache_inv_def)
  with g show ?thesis by (auto simp: Get_def touchPage_inv split: option.splits)
qed

lemma put_new_inv:
  assumes "cache_inv c" "k \<notin> set (keys_of (pages c))"
  shows "cache_inv (c\<lparr>pages := put_key k p (pages c), lruList := k # lruList c, lruMap := put_key k k (lruMap c)\<rparr>)"
  using assms by (auto simp: cache_inv_def update_keys update_conv')

lemma put_old_inv:
  assumes "cache_inv c" "k \<in> set (keys_of (pages c))"
  shows "cache_inv (c\<lparr>pages := put_key k p (pages c)\<rparr>)"
  using assms by (auto simp: cache_inv_def update_keys)

lemma shrinks_keys: "shrinks c c' \<Longrightarrow> k \<notin> set (keys_of (pages c)) \<Longrightarrow> k \<notin> set (keys_of (pages c'))"
  by (auto simp: shrinks_def map_le_def dom_map_of_conv_image_fst dom_def map_of_eq_None_iff [symmetric])

lemma Put_Some_inv:
  assumes "cache_inv c" "Put (Some p) c = (c', r)"
  shows "cache_inv c'"
proof (cases "has_key (hdr_PageID (Header p)) (pages c)")
  case True
  with assms put_old_inv [OF assms(1), of "hdr_PageID (Header p)"] show ?thesis
    by (auto simp: Put_def Let_def has_key_iff touchPage_inv)
next
  case False
  obtain c1 r1 where e: "evictWhile (MaxPages (config c) - 1) c = (c1, r1 :: 'a cache_error option)" by fastforce
  from evictWhile_spec [OF assms(1) e] have c1: "cache_inv c1" "shrinks c c1" by simp_all
  with False have "hdr_PageID (Header p) \<notin> set (keys_of (pages c1))"
    using shrinks_keys by (auto simp: has_key_iff)
  with assms(2) False e c1(1) put_new_inv [OF c1(1)] show ?thesis
    by (auto simp: Put_def Let_def split: option.splits)
qed

lemma Put_inv: "cache_inv c \<Longrightarrow> Put p c = (c', r) \<Longrightarrow> cache_inv c'"
  by (cases p) (simp add: Put_def, blast intro: Put_Some_inv)

lemma MarkDirty_inv: "cache_inv c \<Longrightarrow> cache_inv (MarkDirty k c)"
  using set_put_key_subset [of k True "dirty c"]
  by (auto simp: cache_inv_def MarkDirty_def distinct_update)

lemma ClearDirty_inv: "cache_inv c \<Longrightarrow> cache_inv (ClearDirty k c)"
  by (auto simp: cache_inv_def ClearDirty_def distinct_delete set_del_key)

lemma Remove_inv:
  assumes "cache_inv c"
  shows "cache_inv (Remove k c)"
proof (cases "k \<in> set (lruList c)")
  case True
  with assms have "Remove k c = c\<lparr>lruList := remove1 k (lruList c), lruMap := del_key k (lruMap c),
      pages := del_key k (pages c), dirty := del_key k (dirty c)\<rparr>"
    by (simp add: Remove_def cache_inv_def)
  with assms show ?thesis
    by (auto simp: cache_inv_def distinct_delete delete_keys delete_conv' set_del_key distinct_removeAll)
next
  case False
  with assms have "Remove k c = c\<lparr>pages := del_key k (pages c), dirty := del_key k (dirty c)\<rparr>"
    by (simp add: Remove_def cache_inv_def)
  moreover have "del_key k (pages c) = pages c"
    using assms False by (simp add: cache_inv_def)
  ultimately show ?thesis
    using assms by (auto simp: cache_inv_def distinct_delete set_del_key)
qed

lemma Clear_inv: "cache_inv (Clear c)"
  by (simp add: cache_inv_def Clear_def)

lemma Resize_inv: "cache_inv c \<Longrightarrow> Resize n c = (c', r) \<Longrightarrow> cache_inv c'"
proof -
  assume "cache_inv c" and r: "Resize n c = (c', r)"
  then have "cache_inv (c\<lparr>config := (config c)\<lparr>MaxPages := n\<rparr>\<rparr>)" by (simp add: cache_inv_def)
  with r show ?thesis using evictWhile_spec by (auto simp: Resize_def)
qed

lemma flushLoop_spec:
  "cache_inv c \<Longrightarrow> flushLoop write ks c w = (c', w', r) \<Longrightarrow>
     cache_inv c' \<and> keys_of (pages c') = keys_of (pages c) \<and> config c' = config c \<and>
     set (dirty c') \<subseteq> set (dirty c) \<and> lruList c' = lruList c"
proof (induction "write" ks c w rule: flushLoop.induct)
  case (2 wr k ks c w)
  show ?case
  proof (cases "isDirty c k")
    case False
    with 2 show ?thesis by simp
  next
    case True
    show ?thesis
    proof (cases "map_of (pages c) k")
      case None
      with 2(2) [OF _ None] 2(4,5) True ClearDirty_inv [OF 2(4)] show ?thesis
        by (auto simp: ClearDirty_def set_del_key)
    next
      case (Some page)
      obtain w1 p1 r1 where w: "wr page w = (w1, p1, r1)" by (cases "wr page w") auto
      have k: "k \<in> set (keys_of (pages c))" using Some by (rule map_of_key)
      let ?c = "c\<lparr>pages := put_key k p1 (pages c)\<rparr>"
      have c: "cache_inv ?c" "keys_of (pages ?c) = keys_of (pages c)"
        using put_old_inv [OF 2(4) k, of p1] k by (simp_all add: update_keys)
      show ?thesis
      proof (cases r1)
        case None
        with 2(3) [OF _ Some w [symmetric] refl None] 2(5) True Some w c ClearDirty_inv [OF c(1)] show ?thesis
          by (auto simp: ClearDirty_def set_del_key)
      next
        case (Some e)
        with 2(5) True \<open>map_of (pages c) k = Some page\<close> w c show ?thesis by auto
      qed
    qed
  qed
qed simp

text \<open>
  The states a cache goes through: a new cache, then any sequence of operations; \<open>write\<close> is the
  function handed to \<^verbatim>\<open>Flush\<close> and \<^verbatim>\<open>FlushPage\<close>.
\<close>

inductive cache_step :: "('w, 'e) writeFunc \<Rightarrow> PageCache \<Rightarrow> PageCache \<Rightarrow> bool" for "write" where
  "Get k c = (c', r) \<Longrightarrow> cache_step write c c'"
| "Put p c = (c', (r :: 'e cache_error option)) \<Longrightarrow> cache_step write c c'"
| "cache_step write c (MarkDirty k c)"
| "cache_step write c (ClearDirty k c)"
| "cache_step write c (Remove k c)"
| "cache_step write c (Clear c)"
| "Flush write c w = (c', w', r') \<Longrightarrow> cache_step write c c'"
| "FlushPage k write c w = (c', w', r') \<Longrightarrow> cache_step write c c'"
| "Resize n c = (c', (None :: 'e cache_error option)) \<Longrightarrow> cache_step write c c'"

inductive cache_reach :: "('w, 'e) writeFunc \<Rightarrow> PageCache \<Rightarrow> bool" for "write" where
  init: "cache_reach write (NewPageCache cfg)"
| step: "cache_reach write c \<Longrightarrow> cache_step write c c' \<Longrightarrow> cache_reach write c'"

definition cache_cap :: "PageCache \<Rightarrow> bool" where
  "cache_cap c \<longleftrightarrow> int (length (pages c)) \<le> max 0 (MaxPages (config c))"

lemma FlushPage_flushLoop: "FlushPage k write c w = flushLoop write [k] c w"
  by (simp add: FlushPage_def split: option.split prod.split)

lemma Get_frame: "Get k c = (c', r) \<Longrightarrow> pages c' = pages c \<and> config c' = config c \<and> dirty c' = dirty c \<and> r = map_of (pages c) k"
  by (auto simp: Get_def split: option.splits)

lemma Put_cap:
  assumes "cache_inv c" "cache_cap c" "Put p c = (c', (r :: 'e cache_error option))"
  shows "cache_cap c'"
proof (cases p)
  case (Some q)
  show ?thesis
  proof (cases "has_key (hdr_PageID (Header q)) (pages c)")
    case True
    then have "length (put_key (hdr_PageID (Header q)) q (pages c)) = length (pages c)"
      by (simp add: has_key_iff length_put_key)
    with assms Some True show ?thesis
      by (auto simp: Put_def Let_def cache_cap_def)
  next
    case False
    obtain c1 r1 where e: "evictWhile (MaxPages (config c) - 1) c = (c1, r1 :: 'e cache_error option)" by fastforce
    from evictWhile_spec [OF assms(1) e] have
      "shrinks c c1" "r1 = None \<longrightarrow> int (length (pages c1)) \<le> MaxPages (config c) - 1" by simp_all
    with assms(2,3) Some False e show ?thesis
      by (auto simp: Put_def Let_def cache_cap_def shrinks_def length_put_key split: option.splits)
  qed
qed (use assms in \<open>auto simp: Put_def\<close>)

lemma flushLoop_cap:
  assumes "cache_inv c" "cache_cap c" "flushLoop wr ks c w = (c', w', r)"
  shows "cache_inv c' \<and> cache_cap c'"
proof -
  note f = flushLoop_spec [OF assms(1,3)]
  then have "length (pages c') = length (pages c)" by (metis length_map)
  with f assms(2) show ?thesis by (simp add: cache_cap_def)
qed

lemma cache_step_ok:
  fixes wr :: "('w, 'e) writeFunc"
  assumes "cache_step wr c c'" "cache_inv c" "cache_cap c"
  shows "cache_inv c' \<and> cache_cap c'"
  using assms
proof (cases rule: cache_step.cases)
  case (1 k r)
  from Get_inv [OF assms(2) this] Get_frame [OF this] assms(3) show ?thesis by (simp add: cache_cap_def)
next
  case (2 p r)
  from Put_cap [OF assms(2,3) this] Put_inv [OF assms(2) this] show ?thesis by simp
next
  case (5 k)
  have "pages c' = del_key k (pages c)" "config c' = config c"
    using 5 by (auto simp: Remove_def Let_def split: option.split)
  with 5 assms Remove_inv [of c k] show ?thesis
    using length_delete_le [of k "pages c"] by (simp add: cache_cap_def)
next
  case (7 w w' r')
  from this [unfolded Flush_def] show ?thesis by (rule flushLoop_cap [OF assms(2,3)])
next
  case (8 k w w' r')
  from this [unfolded FlushPage_flushLoop] show ?thesis by (rule flushLoop_cap [OF assms(2,3)])
next
  case (9 n)
  have "cache_inv (c\<lparr>config := (config c)\<lparr>MaxPages := n\<rparr>\<rparr>)" using assms(2) by (simp add: cache_inv_def)
  from evictWhile_spec [OF this 9 [unfolded Resize_def Let_def]] show ?thesis by (simp add: cache_cap_def shrinks_def)
qed (use MarkDirty_inv ClearDirty_inv Clear_inv in \<open>auto simp: cache_cap_def MarkDirty_def ClearDirty_def Clear_def\<close>)

section \<open>Refinement of a list in order of use\<close>

text \<open>
  The abstract cache is the list of the cached pages, the most recently used first. \<open>lru_view\<close> is the
  abstraction; the specification of \<^verbatim>\<open>Get\<close> moves the entry it finds to the front, that of \<^verbatim>\<open>Put\<close> puts the
  page in front and keeps the most recently used of the others.
\<close>

definition lru_view :: "PageCache \<Rightarrow> (u64 \<times> PageV2) list" where
  "lru_view c = map (\<lambda>k. (k, the (map_of (pages c) k))) (lruList c)"

definition lru_get :: "u64 \<Rightarrow> (u64 \<times> PageV2) list \<Rightarrow> (u64 \<times> PageV2) list \<times> PageV2 option" where
  "lru_get k l = (case map_of l k of None \<Rightarrow> (l, None) | Some p \<Rightarrow> ((k, p) # del_key k l, Some p))"

definition lru_put :: "nat \<Rightarrow> PageV2 \<Rightarrow> (u64 \<times> PageV2) list \<Rightarrow> (u64 \<times> PageV2) list" where
  "lru_put m p l =
     (let k = hdr_PageID (Header p)
      in (k, p) # (if k \<in> set (keys_of l) then del_key k l else take (m - 1) l))"

lemma keys_lru_view [simp]: "keys_of (lru_view c) = lruList c"
  by (simp add: lru_view_def o_def)

lemma map_of_lru_view: "cache_inv c \<Longrightarrow> map_of (lru_view c) = map_of (pages c)"
proof
  fix k assume inv: "cache_inv c"
  show "map_of (lru_view c) k = map_of (pages c) k"
  proof (cases "k \<in> set (lruList c)")
    case True
    with inv obtain p where "map_of (pages c) k = Some p"
      by (auto simp: cache_inv_def dest: weak_map_of_SomeI)
    moreover have "map_of (lru_view c) k = Some (the (map_of (pages c) k))"
      using True by (simp add: lru_view_def map_of_map_restrict)
    ultimately show ?thesis by simp
  next
    case False
    with inv show ?thesis
      by (metis cache_inv_def keys_lru_view map_of_eq_None_iff set_map)
  qed
qed

lemma del_key_map: "distinct ks \<Longrightarrow> del_key k (map (\<lambda>k. (k, f k)) ks) = map (\<lambda>k. (k, f k)) (remove1 k ks)"
  by (induction ks) (auto simp: remove1_idem)

lemma lru_view_touch:
  assumes "cache_inv c" "k \<in> set (lruList c)"
  shows "lru_view (touchPage k c) = (k, the (map_of (pages c) k)) # del_key k (lru_view c)"
proof -
  have "distinct (lruList c)" using assms(1) by (simp add: cache_inv_def)
  with assms show ?thesis
    by (simp add: lru_view_def lruList_touchPage MoveToFront_def del_key_map)
qed

lemma cached_in_lruList: "cache_inv c \<Longrightarrow> map_of (pages c) k = Some p \<Longrightarrow> k \<in> set (lruList c)"
  using map_of_key [of "pages c" k p] by (simp add: cache_inv_def)

lemma lru_view_counters [simp]: "lru_view (c\<lparr>hits := h\<rparr>) = lru_view c" "lru_view (c\<lparr>misses := h\<rparr>) = lru_view c"
  by (simp_all add: lru_view_def)

lemma lru_view_evict:
  assumes "cache_inv c" "lruList c = l @ [k]" "\<not> isDirty c k"
  obtains c' where "evictLRU c = (c', None)" "lru_view c' = butlast (lru_view c)" "lruList c' = l" "dirty c' = dirty c"
proof -
  let ?c = "c\<lparr>pages := del_key k (pages c), lruMap := del_key k (lruMap c), lruList := l\<rparr>"
  have "evictLRU c = (?c, None)" using assms(2,3) by (simp add: evictLRU_def)
  moreover have "k \<notin> set l" using assms(1,2) by (simp add: cache_inv_def)
  then have "map (\<lambda>j. (j, the (map_of (del_key k (pages c)) j))) l = map (\<lambda>j. (j, the (map_of (pages c) j))) l"
    by (intro map_cong) (auto simp: delete_conv')
  then have "lru_view ?c = butlast (lru_view c)" using assms(2) by (simp add: lru_view_def)
  ultimately show ?thesis by (intro that [of ?c]) simp_all
qed

text \<open>When no cached page is dirty the eviction loop keeps exactly the \<open>n\<close> most recently used pages.\<close>

lemma evictWhile_clean:
  fixes c :: PageCache
  assumes "cache_inv c" "\<forall>k \<in> set (lruList c). \<not> isDirty c k"
  shows "\<exists>c'. evictWhile (int n) c = (c', None :: 'e cache_error option) \<and> lru_view c' = take n (lru_view c)"
  using assms
proof (induction "length (lruList c)" arbitrary: c)
  case 0
  then show ?case using cache_inv_length [of c] by (simp add: evictWhile.simps [of _ c] lru_view_def)
next
  case (Suc m)
  show ?case
  proof (cases "length (pages c) \<le> n")
    case True
    with Suc show ?thesis using cache_inv_length [of c] by (simp add: evictWhile.simps [of _ c] lru_view_def)
  next
    case False
    obtain l k where l: "lruList c = l @ [k]" using Suc(2) by (cases "lruList c" rule: rev_cases) auto
    with Suc(4) have "\<not> isDirty c k" by simp
    from lru_view_evict [OF Suc(3) l this] obtain c1 where
      c1: "evictLRU c = (c1, None :: 'e cache_error option)" "lru_view c1 = butlast (lru_view c)" "lruList c1 = l" "dirty c1 = dirty c"
      by blast
    have "\<exists>c'. evictWhile (int n) c1 = (c', None :: 'e cache_error option) \<and> lru_view c' = take n (lru_view c1)"
      using Suc(1) [of c1] Suc(2,4) l c1 evictLRU_inv [OF Suc(3) c1(1)] by (simp add: isDirty_def)
    moreover have "take n (lru_view c1) = take n (lru_view c)"
      using c1(2) False cache_inv_length [OF Suc(3)] by (simp add: take_butlast lru_view_def)
    ultimately show ?thesis using False c1(1) by (simp add: evictWhile.simps [of _ c])
  qed
qed

section \<open>The contract with the table files\<close>

text \<open>
  A table file reads and writes its pages through a store that may forget pages at any time but never
  returns a stale one: reading changes nothing, and after a write the store holds at most what it held
  before and the page written. Under this contract, a store that agrees with the file keeps doing so.
\<close>

locale page_store =
  fixes lookup :: "'c \<Rightarrow> u64 \<Rightarrow> PageV2 option"
    and get :: "u64 \<Rightarrow> 'c \<Rightarrow> 'c \<times> PageV2 option"
    and put :: "PageV2 \<Rightarrow> 'c \<Rightarrow> 'c"
    and ok :: "'c \<Rightarrow> bool"
  assumes get_ok: "ok c \<Longrightarrow> ok (fst (get k c))"
    and get_lookup: "ok c \<Longrightarrow> lookup (fst (get k c)) = lookup c"
    and get_result: "ok c \<Longrightarrow> snd (get k c) = lookup c k"
    and put_ok: "ok c \<Longrightarrow> ok (put p c)"
    and put_lookup: "ok c \<Longrightarrow> lookup (put p c) \<subseteq>\<^sub>m (lookup c)(hdr_PageID (Header p) \<mapsto> p)"
begin

lemma get_coherent: "ok c \<Longrightarrow> lookup c \<subseteq>\<^sub>m disk \<Longrightarrow> lookup (fst (get k c)) \<subseteq>\<^sub>m disk"
  by (simp add: get_lookup)

lemma get_hit: "ok c \<Longrightarrow> lookup c \<subseteq>\<^sub>m disk \<Longrightarrow> snd (get k c) = Some p \<Longrightarrow> disk k = Some p"
  by (auto simp: get_result map_le_def dom_def)

lemma put_coherent:
  "ok c \<Longrightarrow> lookup c \<subseteq>\<^sub>m disk \<Longrightarrow> lookup (put p c) \<subseteq>\<^sub>m disk(hdr_PageID (Header p) \<mapsto> p)"
  using put_lookup [of c p] by (meson map_le_trans map_le_upd)

text \<open>A read that misses and puts the page it fetched from the file.\<close>

lemma fill_coherent:
  "ok c \<Longrightarrow> lookup c \<subseteq>\<^sub>m disk \<Longrightarrow> disk (hdr_PageID (Header p)) = Some p \<Longrightarrow> lookup (put p c) \<subseteq>\<^sub>m disk"
  using put_coherent [of c disk p] by (simp add: fun_upd_idem)

end

text \<open>\<^verbatim>\<open>if tf.cache != nil { ... }\<close> around the calls of the cache; the error of \<^verbatim>\<open>Put\<close> is ignored there.\<close>

definition cacheGet :: "u64 \<Rightarrow> PageCache option \<Rightarrow> PageCache option \<times> PageV2 option" where
  "cacheGet k c = (case c of None \<Rightarrow> (None, None) | Some c \<Rightarrow> (case Get k c of (c', r) \<Rightarrow> (Some c', r)))"

definition cachePut :: "PageV2 \<Rightarrow> PageCache option \<Rightarrow> PageCache option" where
  "cachePut p c = map_option (\<lambda>c. fst (Put (Some p) c :: PageCache \<times> unit cache_error option)) c"

definition cachePutClean :: "PageV2 \<Rightarrow> PageCache option \<Rightarrow> PageCache option" where
  "cachePutClean p c = map_option (ClearDirty (hdr_PageID (Header p))) (cachePut p c)"

definition cacheLookup :: "PageCache option \<Rightarrow> u64 \<Rightarrow> PageV2 option" where
  "cacheLookup c k = (case c of None \<Rightarrow> None | Some c \<Rightarrow> map_of (pages c) k)"

lemma cacheLookup_simps [simp]: "cacheLookup None = Map.empty" "cacheLookup (Some c) = map_of (pages c)"
  by (simp_all add: fun_eq_iff cacheLookup_def)

definition cacheOk :: "PageCache option \<Rightarrow> bool" where
  "cacheOk c = pred_option cache_inv c"

lemma Put_lookup:
  assumes "cache_inv c" "Put (Some p) c = (c', r :: 'e cache_error option)"
  shows "map_of (pages c') \<subseteq>\<^sub>m (map_of (pages c))(hdr_PageID (Header p) \<mapsto> p)"
proof (cases "has_key (hdr_PageID (Header p)) (pages c)")
  case True
  with assms show ?thesis by (auto simp: Put_def Let_def update_conv')
next
  case False
  obtain c1 r1 where e: "evictWhile (MaxPages (config c) - 1) c = (c1, r1 :: 'e cache_error option)" by fastforce
  from evictWhile_spec [OF assms(1) e] have le: "map_of (pages c1) \<subseteq>\<^sub>m map_of (pages c)" by (simp add: shrinks_def)
  moreover have "hdr_PageID (Header p) \<notin> dom (map_of (pages c1))"
    using le False by (auto simp: map_le_def has_key_def dom_def)
  then have "map_of (pages c1) \<subseteq>\<^sub>m (map_of (pages c1))(hdr_PageID (Header p) \<mapsto> p)"
    by (auto simp: map_le_def)
  ultimately show ?thesis
    using assms(2) False e by (auto simp: Put_def Let_def update_conv' map_le_upd intro: map_le_trans split: option.splits)
qed

interpretation cached: page_store cacheLookup cacheGet cachePut cacheOk
proof
  fix c k and p :: PageV2
  assume ok: "cacheOk c"
  show "cacheOk (fst (cacheGet k c))"
    using ok by (auto simp: cacheOk_def cacheGet_def Get_inv split: option.split prod.split)
  show "cacheLookup (fst (cacheGet k c)) = cacheLookup c"
    by (auto simp: cacheGet_def dest: Get_frame split: option.split prod.split)
  show "snd (cacheGet k c) = cacheLookup c k"
    by (auto simp: cacheGet_def dest: Get_frame split: option.split prod.split)
  show "cacheOk (cachePut p c)"
    using ok by (cases c) (auto simp: cacheOk_def cachePut_def Put_inv [OF _ surjective_pairing])
  show "cacheLookup (cachePut p c) \<subseteq>\<^sub>m (cacheLookup c)(hdr_PageID (Header p) \<mapsto> p)"
    using ok Put_lookup [OF _ surjective_pairing, of _ p]
    by (cases c) (auto simp: cacheOk_def cachePut_def)
qed

text \<open>Clearing the dirty flag after the write keeps the contract.\<close>

interpretation cleaned: page_store cacheLookup cacheGet cachePutClean cacheOk
proof
  fix c k and p :: PageV2
  assume ok: "cacheOk c"
  have "cacheLookup (map_option (ClearDirty j) d) = cacheLookup d" for j d
    by (cases d) (simp_all add: ClearDirty_def)
  then show "cacheLookup (cachePutClean p c) \<subseteq>\<^sub>m (cacheLookup c)(hdr_PageID (Header p) \<mapsto> p)"
    using cached.put_lookup [OF ok, of p] by (simp add: cachePutClean_def)
  show "cacheOk (cachePutClean p c)"
    using cached.put_ok [OF ok, of p] by (auto simp: cachePutClean_def cacheOk_def option.pred_map pred_option_def ClearDirty_inv)
qed (simp_all add: cached.get_ok cached.get_lookup cached.get_result)

section \<open>Properties\<close>

text \<open>
  C24. Whatever sequence of operations a page cache goes through, its page map, its LRU list and its list
  index hold the same distinct pages, and it never holds more than \<^verbatim>\<open>MaxPages\<close> pages (no page at all when
  that bound is not positive). A failing \<^verbatim>\<open>Resize\<close> is the one step left out: it may stop above the new bound.
\<close>
theorem cache_reachable_consistent:
  "cache_reach wr c \<Longrightarrow> cache_inv c \<and> int (length (pages c)) \<le> max 0 (MaxPages (config c))"
proof -
  assume "cache_reach wr c"
  then have "cache_inv c \<and> cache_cap c"
    by (induction rule: cache_reach.induct)
       (auto simp: cache_step_ok NewPageCache_inv, simp add: NewPageCache_def cache_cap_def)
  then show ?thesis by (simp add: cache_cap_def)
qed

definition noWrite :: "(unit, unit) writeFunc" where
  "noWrite p w = (w, p, None)"

theorem cache_reachable_consistent_witness:
  "cache_inv (fst (Get 5 (NewPageCache DefaultPageCacheConfig)))"
proof -
  have "cache_reach noWrite (fst (Get 5 (NewPageCache DefaultPageCacheConfig)))"
    by (rule cache_reach.step [OF cache_reach.init cache_step.intros(1) [OF surjective_pairing]])
  from cache_reachable_consistent [OF this] show ?thesis by simp
qed

text \<open>
  \<^verbatim>\<open>Get\<close> refines the lookup in the list in order of use: it returns the cached page, if any, and moves
  it to the front, and changes nothing else.
\<close>
theorem get_refines_lru:
  assumes "cache_inv c"
  shows "(case Get k c of (c', r) \<Rightarrow> (lru_view c', r)) = lru_get k (lru_view c)"
proof (cases "map_of (pages c) k")
  case None
  then show ?thesis by (simp add: Get_def lru_get_def map_of_lru_view assms)
next
  case (Some p)
  have inv: "cache_inv (c\<lparr>hits := hits c + 1\<rparr>)" using assms by (simp add: cache_inv_def)
  have "lru_view (touchPage k (c\<lparr>hits := hits c + 1\<rparr>)) = (k, p) # del_key k (lru_view c)"
    using lru_view_touch [OF inv, of k] cached_in_lruList [OF assms Some] Some by simp
  with Some show ?thesis by (simp add: Get_def lru_get_def map_of_lru_view assms)
qed

theorem get_refines_lru_witness:
  "(case Get 5 (NewPageCache DefaultPageCacheConfig) of (c', r) \<Rightarrow> (lru_view c', r)) = ([], None)"
  using get_refines_lru [OF NewPageCache_inv, of 5 DefaultPageCacheConfig]
  by (simp add: lru_get_def lru_view_def NewPageCache_def)

text \<open>
  C23. \<^verbatim>\<open>Put\<close> refines the insertion into the list in order of use: with no dirty page cached and a positive
  bound it always succeeds, puts the page in front, and of the other pages drops exactly the least recently
  used ones beyond the bound.
\<close>
theorem put_refines_lru:
  assumes inv: "cache_inv c" and clean: "\<forall>k \<in> set (lruList c). \<not> isDirty c k" and m: "0 < MaxPages (config c)"
  shows "\<exists>c'. Put (Some p) c = (c', None :: 'e cache_error option) \<and>
           lru_view c' = lru_put (nat (MaxPages (config c))) p (lru_view c)"
proof (cases "hdr_PageID (Header p) \<in> set (keys_of (pages c))")
  case True
  let ?k = "hdr_PageID (Header p)" and ?c = "c\<lparr>pages := put_key (hdr_PageID (Header p)) p (pages c)\<rparr>"
  have k: "?k \<in> set (lruList c)" using True inv by (simp add: cache_inv_def)
  have c: "cache_inv ?c" "lruList ?c = lruList c" using put_old_inv [OF inv True] by simp_all
  have d: "distinct (lruList c)" using inv by (simp add: cache_inv_def)
  have "lru_view (touchPage ?k ?c) = (?k, p) # del_key ?k (lru_view ?c)"
    using lru_view_touch [OF c(1), of ?k] k c(2) by (simp add: update_conv')
  also have "del_key ?k (lru_view ?c) = del_key ?k (lru_view c)"
    using d by (auto simp: lru_view_def del_key_map update_conv')
  finally show ?thesis using True k by (simp add: Put_def Let_def has_key_iff lru_put_def)
next
  case False
  let ?k = "hdr_PageID (Header p)"
  obtain c1 where e: "evictWhile (MaxPages (config c) - 1) c = (c1, None :: 'e cache_error option)"
    and v: "lru_view c1 = take (nat (MaxPages (config c)) - 1) (lru_view c)"
    using evictWhile_clean [OF inv clean, of "nat (MaxPages (config c) - 1)"] m by (auto simp: nat_diff_distrib)
  let ?c = "c1\<lparr>pages := put_key ?k p (pages c1), lruList := ?k # lruList c1, lruMap := put_key ?k ?k (lruMap c1)\<rparr>"
  have c1: "cache_inv c1" "shrinks c c1" using evictWhile_spec [OF inv e] by simp_all
  then have "?k \<notin> set (lruList c1)" using shrinks_keys [OF c1(2) False] by (simp add: cache_inv_def)
  then have "lru_view ?c = (?k, p) # lru_view c1"
    by (auto simp: lru_view_def update_conv' intro!: map_cong)
  moreover have "?k \<notin> set (lruList c)" using False inv by (simp add: cache_inv_def)
  ultimately show ?thesis using e v False by (simp add: Put_def Let_def has_key_iff lru_put_def)
qed

theorem put_refines_lru_witness:
  "\<exists>c'. Put (Some (NewPageV2 3 0)) (NewPageCache DefaultPageCacheConfig) = (c', None :: unit cache_error option) \<and>
        lru_view c' = [(3, NewPageV2 3 0)]"
  using put_refines_lru [OF NewPageCache_inv, of DefaultPageCacheConfig "NewPageV2 3 0"]
  by (simp add: lru_put_def lru_view_def NewPageCache_def DefaultPageCacheConfig_def) (simp add: NewPageV2_def)

text \<open>
  A dirty page is never evicted: when the least recently used page is dirty, \<^verbatim>\<open>Put\<close> of a new page into
  a full cache fails, keeps every cached page, and moves the dirty page to the front.
\<close>
theorem dirty_page_not_evicted:
  assumes full: "MaxPages (config c) \<le> int (length (pages c))" and ne: "lruList c \<noteq> []"
    and dirt: "isDirty c (last (lruList c))" and new: "\<not> has_key (hdr_PageID (Header p)) (pages c)"
  shows "Put (Some p) c = (c\<lparr>lruList := last (lruList c) # butlast (lruList c)\<rparr>, Some (ErrEvictDirty (last (lruList c))))"
  using assms by (simp add: Put_def Let_def evictWhile.simps [of _ c] evictLRU_def)

text \<open>A cache of one page, which is dirty.\<close>

definition dirtyCache :: PageCache where
  "dirtyCache = \<lparr>config = \<lparr>MaxPages = 1, WriteBehind = True, WriteBatch = 1\<rparr>, pages = [(1, NewPageV2 1 0)], lruList = [1],
     lruMap = [(1, 1)], dirty = [(1, True)], hits = 0, misses = 0\<rparr>"

theorem dirty_page_not_evicted_witness:
  "Put (Some (NewPageV2 2 0)) dirtyCache = (dirtyCache, Some (ErrEvictDirty 1 :: unit cache_error))"
  using dirty_page_not_evicted [of dirtyCache "NewPageV2 2 0"]
  by (simp add: dirtyCache_def isDirty_def has_key_def NewPageV2_def)

end
