(* ===== verification/TableFile.thy ===== *)
theory TableFile
  imports PageCache
begin

text \<open>
  \<^verbatim>\<open>src/storage/tablefile.go\<close>: the file of a table, a header page followed by data pages linked through
  \<^verbatim>\<open>RightPage\<close>, accessed through the page cache. The state holds the bytes of the operating system file,
  the header, the cache and the row ID counter of the parent storage. A page obtained from the cache is
  shared with it: \<open>aliasPage\<close> makes a change of such a page visible in the cache. The encoding of the
  column definitions (\<^verbatim>\<open>encoding/json\<close>) is a parameter. Loops along the page chain take fuel and return
  \<open>None\<close> when it runs out; an operation that waits for a lock it holds itself returns \<open>TFDeadlock\<close>.
\<close>

section \<open>State\<close>

definition TableFileMagic :: bytes where
  "TableFileMagic = bytes_of ''XXLDTBL'' @ [0]"

definition TableFileVersion :: u16 where "TableFileVersion = 1"

record TableFileHeader =
  tfh_Magic :: bytes
  tfh_Version :: u16
  tfh_TableID :: u64
  tfh_PageSize :: u16
  tfh_PageCount :: u32
  tfh_RootPage :: u64
  tfh_FirstDataPage :: u64
  tfh_LastDataPage :: u64
  tfh_FreePageList :: u64
  tfh_RowCount :: u64
  tfh_ColumnDefs :: "ColumnDef list option"

text \<open>The operating system file: its bytes, and whether writes succeed.\<close>

record os_file =
  file_bytes :: bytes
  file_writable :: bool

record TableFile =
  tf_file :: os_file
  tf_header :: TableFileHeader
  tf_cache :: "PageCache option"
  tf_dirty :: bool
  tf_nextID :: u64

datatype tf_error =
    TFNotExist | TFExists | TFReadAt | TFWriteAt | TFMagic bytes | TFColumnDefs | TFPage page_error
  | TFCache "unit cache_error" | TFRowTooLarge nat | TFRowNotFound u64 | TFDeadlock

type_synonym 'a tf_method = "(TableFile, tf_error, 'a) go_method"

definition liftP :: "page_error + 'a \<Rightarrow> 'a tf_method" where
  "liftP r tf = (tf, case r of Inl e \<Rightarrow> Inl (TFPage e) | Inr v \<Rightarrow> Inr v)"

section \<open>File access\<close>

definition fileReadAt :: "os_file \<Rightarrow> nat \<Rightarrow> int \<Rightarrow> bytes option" where
  "fileReadAt f n off =
     (if off < 0 \<or> length (file_bytes f) < nat off + n then None
      else Some (slice (nat off) (nat off + n) (file_bytes f)))"

definition fileWriteAt :: "os_file \<Rightarrow> bytes \<Rightarrow> int \<Rightarrow> os_file option" where
  "fileWriteAt f d off =
     (if off < 0 \<or> \<not> file_writable f then None
      else let b = file_bytes f @ replicate (nat off - length (file_bytes f)) 0
           in Some (f\<lparr>file_bytes := take (nat off) b @ d @ drop (nat off + length d) b\<rparr>))"

definition fileTruncate :: "nat \<Rightarrow> os_file \<Rightarrow> os_file option" where
  "fileTruncate n f =
     (if file_writable f
      then Some (f\<lparr>file_bytes := take n (file_bytes f) @ replicate (n - length (file_bytes f)) 0\<rparr>) else None)"

text \<open>\<^verbatim>\<open>int64(pageID) * PageSize16KB\<close>\<close>

definition pageOffset :: "u64 \<Rightarrow> int" where
  "pageOffset pageID = sint (pageID * of_nat PageSize16KB)"

text \<open>A change of a page that the cache holds is a change of the cached page.\<close>

definition aliasPage :: "PageV2 \<Rightarrow> TableFile \<Rightarrow> TableFile" where
  "aliasPage page tf =
     (case tf_cache tf of
        Some c \<Rightarrow> if has_key (hdr_PageID (Header page)) (pages c)
                  then tf\<lparr>tf_cache := Some (c\<lparr>pages := put_key (hdr_PageID (Header page)) page (pages c)\<rparr>)\<rparr> else tf
      | None \<Rightarrow> tf)"

section \<open>Header\<close>

definition headerFields :: "TableFileHeader \<Rightarrow> bytes" where
  "headerFields h =
     (let d = replicate PageSize16KB 0;
          d = copy_at 0 (tfh_Magic h) d;
          d = copy_at 8 (le_bytes 2 (tfh_Version h)) d;
          d = copy_at 10 (le_bytes 8 (tfh_TableID h)) d;
          d = copy_at 18 (le_bytes 2 (tfh_PageSize h)) d;
          d = copy_at 20 (le_bytes 4 (tfh_PageCount h)) d;
          d = copy_at 24 (le_bytes 8 (tfh_RootPage h)) d;
          d = copy_at 32 (le_bytes 8 (tfh_FirstDataPage h)) d;
          d = copy_at 40 (le_bytes 8 (tfh_LastDataPage h)) d;
          d = copy_at 48 (le_bytes 8 (tfh_FreePageList h)) d
      in copy_at 56 (le_bytes 8 (tfh_RowCount h)) d)"

definition headerData :: "(ColumnDef list \<Rightarrow> bytes option) \<Rightarrow> TableFileHeader \<Rightarrow> tf_error + bytes" where
  "headerData jsonMarshal h =
     (case tfh_ColumnDefs h of
        None \<Rightarrow> Inr (headerFields h)
      | Some cols \<Rightarrow>
          (case jsonMarshal cols of
             None \<Rightarrow> Inl TFColumnDefs
           | Some cd \<Rightarrow> Inr (copy_at 66 cd (copy_at 64 (le_bytes 2 (of_nat (length cd) :: u16)) (headerFields h)))))"

definition writeHeader :: "(ColumnDef list \<Rightarrow> bytes option) \<Rightarrow> unit tf_method" where
  "writeHeader jsonMarshal tf =
     (case headerData jsonMarshal (tf_header tf) of
        Inl e \<Rightarrow> (tf, Inl e)
      | Inr d \<Rightarrow>
          (case fileWriteAt (tf_file tf) d 0 of
             None \<Rightarrow> (tf, Inl TFWriteAt)
           | Some f \<Rightarrow> (tf\<lparr>tf_file := f, tf_dirty := False\<rparr>, Inr ())))"

definition readHeader :: "(bytes \<Rightarrow> ColumnDef list option) \<Rightarrow> unit tf_method" where
  "readHeader jsonUnmarshal tf =
     (case fileReadAt (tf_file tf) PageSize16KB 0 of
        None \<Rightarrow> (tf, Inl TFReadAt)
      | Some d \<Rightarrow>
          let h = tf_header tf; h = h\<lparr>tfh_Magic := slice 0 8 d\<rparr>
          in if tfh_Magic h \<noteq> TableFileMagic then (tf\<lparr>tf_header := h\<rparr>, Inl (TFMagic (tfh_Magic h)))
             else
               let h = h\<lparr>tfh_Version := le_word (slice 8 10 d), tfh_TableID := le_word (slice 10 18 d),
                        tfh_PageSize := le_word (slice 18 20 d), tfh_PageCount := le_word (slice 20 24 d),
                        tfh_RootPage := le_word (slice 24 32 d), tfh_FirstDataPage := le_word (slice 32 40 d),
                        tfh_LastDataPage := le_word (slice 40 48 d), tfh_FreePageList := le_word (slice 48 56 d),
                        tfh_RowCount := le_word (slice 56 64 d)\<rparr>;
                   colDefsLen = (le_word (slice 64 66 d) :: u16)
               in if 0 < colDefsLen then
                    (let e = 66 + colDefsLen
                     in if e < 66 \<or> PageSize16KB < unat e then (tf\<lparr>tf_header := h\<rparr>, Inl (TFPage Panic))
                        else case jsonUnmarshal (slice 66 (unat e) d) of
                               None \<Rightarrow> (tf\<lparr>tf_header := h\<rparr>, Inl TFColumnDefs)
                             | Some cols \<Rightarrow> (tf\<lparr>tf_header := h\<lparr>tfh_ColumnDefs := Some cols\<rparr>\<rparr>, Inr ()))
                  else (tf\<lparr>tf_header := h\<rparr>, Inr ()))"

definition zeroHeader :: TableFileHeader where
  "zeroHeader = \<lparr>tfh_Magic = replicate 8 0, tfh_Version = 0, tfh_TableID = 0, tfh_PageSize = 0, tfh_PageCount = 0,
     tfh_RootPage = 0, tfh_FirstDataPage = 0, tfh_LastDataPage = 0, tfh_FreePageList = 0, tfh_RowCount = 0,
     tfh_ColumnDefs = None\<rparr>"

text \<open>Opening and creating: the second argument is the file found under the table's path, if any.\<close>

definition OpenTableFile ::
  "(bytes \<Rightarrow> ColumnDef list option) \<Rightarrow> os_file option \<Rightarrow> PageCache option \<Rightarrow> u64 \<Rightarrow> tf_error + TableFile"
where
  "OpenTableFile jsonUnmarshal stored cache nextID =
     (case stored of
        None \<Rightarrow> Inl TFNotExist
      | Some f \<Rightarrow>
          (case readHeader jsonUnmarshal
                  \<lparr>tf_file = f, tf_header = zeroHeader, tf_cache = cache, tf_dirty = False, tf_nextID = nextID\<rparr> of
             (_, Inl e) \<Rightarrow> Inl e
           | (tf, Inr _) \<Rightarrow> Inr tf))"

definition CreateTableFile ::
  "(ColumnDef list \<Rightarrow> bytes option) \<Rightarrow> os_file option \<Rightarrow> PageCache option \<Rightarrow> u64 \<Rightarrow> u64 \<Rightarrow> ColumnDef list option
     \<Rightarrow> tf_error + TableFile"
where
  "CreateTableFile jsonMarshal stored cache nextID tableID columns =
     (case stored of
        Some _ \<Rightarrow> Inl TFExists
      | None \<Rightarrow>
          (let h = zeroHeader\<lparr>tfh_Magic := TableFileMagic, tfh_Version := TableFileVersion, tfh_TableID := tableID,
                 tfh_PageSize := of_nat PageSize16KB, tfh_PageCount := 1, tfh_ColumnDefs := columns, tfh_RowCount := 0\<rparr>
           in case writeHeader jsonMarshal
                     \<lparr>tf_file = \<lparr>file_bytes = [], file_writable = True\<rparr>, tf_header = h, tf_cache = cache,
                      tf_dirty = True, tf_nextID = nextID\<rparr> of
                (_, Inl e) \<Rightarrow> Inl e
              | (tf, Inr _) \<Rightarrow> Inr tf))"

section \<open>Pages\<close>

definition zeroPage :: PageV2 where
  "zeroPage = \<lparr>Header = \<lparr>hdr_PageID = 0, hdr_PageType = 0, hdr_Flags = 0, hdr_Version = 0, hdr_FreeSpace = 0,
     hdr_CellCount = 0, hdr_Fragmented = 0, hdr_Reserved = 0, hdr_RightPage = 0, hdr_Checksum = 0\<rparr>,
     Content = replicate MaxPageContentV2 0\<rparr>"

definition readPageNoLock :: "u64 \<Rightarrow> PageV2 tf_method" where
  "readPageNoLock pageID tf =
     (case cacheGet pageID (tf_cache tf) of
        (c, Some page) \<Rightarrow> (tf\<lparr>tf_cache := c\<rparr>, Inr page)
      | (c, None) \<Rightarrow>
          let tf = tf\<lparr>tf_cache := c\<rparr>
          in case fileReadAt (tf_file tf) PageSize16KB (pageOffset pageID) of
               None \<Rightarrow> (tf, Inl TFReadAt)
             | Some d \<Rightarrow>
                 (case Page_FromBytes zeroPage d of
                    Inl e \<Rightarrow> (tf, Inl (TFPage e))
                  | Inr page \<Rightarrow> (tf\<lparr>tf_cache := cachePut page (tf_cache tf)\<rparr>, Inr page)))"

text \<open>\<^verbatim>\<open>readPage\<close> looks into the cache and then takes the read lock: under a read lock it gets it again.\<close>

definition readPage :: "u64 \<Rightarrow> PageV2 tf_method" where
  "readPage pageID tf =
     (case cacheGet pageID (tf_cache tf) of
        (c, Some page) \<Rightarrow> (tf\<lparr>tf_cache := c\<rparr>, Inr page)
      | (c, None) \<Rightarrow> readPageNoLock pageID (tf\<lparr>tf_cache := c\<rparr>))"

text \<open>\<^verbatim>\<open>readPage\<close> called while the caller holds the write lock: a miss waits for that lock for ever.\<close>

definition readPageHeld :: "u64 \<Rightarrow> PageV2 tf_method" where
  "readPageHeld pageID tf =
     (case cacheGet pageID (tf_cache tf) of
        (c, Some page) \<Rightarrow> (tf\<lparr>tf_cache := c\<rparr>, Inr page)
      | (c, None) \<Rightarrow> (tf\<lparr>tf_cache := c\<rparr>, Inl TFDeadlock))"

text \<open>The three ways to write a page; each returns the page with its refreshed checksum.\<close>

definition writePageToFileNoLock :: "PageV2 \<Rightarrow> PageV2 tf_method" where
  "writePageToFileNoLock page tf =
     (let page = UpdateChecksum page; tf = aliasPage page tf
      in case fileWriteAt (tf_file tf) (Page_ToBytes page) (pageOffset (hdr_PageID (Header page))) of
           None \<Rightarrow> (tf, Inl TFWriteAt)
         | Some f \<Rightarrow> (tf\<lparr>tf_file := f\<rparr>, Inr page))"

definition writePageToFile :: "PageV2 \<Rightarrow> PageV2 tf_method" where
  "writePageToFile page = writePageToFileNoLock page"

definition writePage :: "PageV2 \<Rightarrow> PageV2 tf_method" where
  "writePage page =
     bindS (writePageToFileNoLock page) (\<lambda>page tf. (tf\<lparr>tf_cache := cachePutClean page (tf_cache tf)\<rparr>, Inr page))"

definition writePageToFileWithCache :: "PageV2 \<Rightarrow> PageV2 tf_method" where
  "writePageToFileWithCache page =
     bindS (writePageToFileNoLock page) (\<lambda>page tf. (tf\<lparr>tf_cache := cachePut page (tf_cache tf)\<rparr>, Inr page))"

definition updHeader :: "(TableFileHeader \<Rightarrow> TableFileHeader) \<Rightarrow> TableFile \<Rightarrow> TableFile" where
  "updHeader f tf = tf\<lparr>tf_header := f (tf_header tf)\<rparr>"

definition allocatePageNoLock :: "PageType \<Rightarrow> (PageV2 \<times> u64) tf_method" where
  "allocatePageNoLock pageType tf =
     (if 0 < tfh_FreePageList (tf_header tf) then
        (let freePageID = tfh_FreePageList (tf_header tf)
         in bindS (readPageNoLock freePageID) (\<lambda>page tf.
              let tf = updHeader (\<lambda>h. h\<lparr>tfh_FreePageList := hdr_RightPage (Header page)\<rparr>) (tf\<lparr>tf_dirty := True\<rparr>);
                  page' = page\<lparr>Header := \<lparr>hdr_PageID = freePageID, hdr_PageType = pageType, hdr_Flags = 0,
                    hdr_Version = 1, hdr_FreeSpace = of_nat MaxPageContentV2, hdr_CellCount = 0, hdr_Fragmented = 0,
                    hdr_Reserved = 0, hdr_RightPage = 0, hdr_Checksum = 0\<rparr>\<rparr>
              in (aliasPage page' tf, Inr (page', freePageID))) tf)
      else
        (let pageID = ucast (tfh_PageCount (tf_header tf)); page = NewPageV2 pageID pageType;
             tf = updHeader (\<lambda>h. h\<lparr>tfh_PageCount := tfh_PageCount h + 1\<rparr>) (tf\<lparr>tf_dirty := True\<rparr>)
         in bindS (writePageToFileWithCache page) (\<lambda>page tf. (tf, Inr (page, pageID))) tf))"

definition allocatePage :: "PageType \<Rightarrow> (PageV2 \<times> u64) tf_method" where
  "allocatePage pageType = allocatePageNoLock pageType"

section \<open>Row operations\<close>

text \<open>The page \<^verbatim>\<open>InsertRow\<close> writes to: the last data page when it has room, else a new page linked after it.\<close>

definition linkLastPage :: "u64 \<Rightarrow> u64 \<Rightarrow> TableFile \<Rightarrow> TableFile" where
  "linkLastPage lastPageID pageID tf =
     (case readPageNoLock lastPageID tf of
        (tf, Inl _) \<Rightarrow> tf
      | (tf, Inr lastPage) \<Rightarrow>
          let lastPage = lastPage\<lparr>Header := (Header lastPage)\<lparr>hdr_RightPage := pageID\<rparr>\<rparr>
          in fst (writePage lastPage (aliasPage lastPage tf)))"

definition newTargetPage :: "PageV2 tf_method" where
  "newTargetPage =
     bindS (allocatePageNoLock PageTypeData) (\<lambda>(page, pageID) tf.
       let tf = (if tfh_FirstDataPage (tf_header tf) = 0 then updHeader (\<lambda>h. h\<lparr>tfh_FirstDataPage := pageID\<rparr>) tf else tf);
           tf = (if 0 < tfh_LastDataPage (tf_header tf)
                 then linkLastPage (tfh_LastDataPage (tf_header tf)) pageID tf
                 else tf);
           tf = updHeader (\<lambda>h. h\<lparr>tfh_LastDataPage := pageID\<rparr>) (tf\<lparr>tf_dirty := True\<rparr>)
       in (tf, Inr page))"

definition targetPage :: "nat \<Rightarrow> PageV2 tf_method" where
  "targetPage rowSize tf =
     (if 0 < tfh_LastDataPage (tf_header tf) then
        bindS (readPageNoLock (tfh_LastDataPage (tf_header tf))) (\<lambda>page.
          if CanInsert page rowSize then returnS page else newTargetPage) tf
      else newTargetPage tf)"

definition InsertRow :: "go_rt \<Rightarrow> Value list \<Rightarrow> u64 tf_method" where
  "InsertRow rt row tf =
     (let rowID = tf_nextID tf; tf = tf\<lparr>tf_nextID := tf_nextID tf + 1\<rparr>;
          rowSize = length (EncodeRow rt rowID row)
      in if MaxPageContentV2 - 100 < rowSize then (tf, Inl (TFRowTooLarge rowSize))
         else bindS (targetPage rowSize) (\<lambda>target.
              bindS (liftP (InsertRowToPage rt target rowID row)) (\<lambda>(target, _) tf.
              bindS (writePage target) (\<lambda>_ tf.
                (updHeader (\<lambda>h. h\<lparr>tfh_RowCount := tfh_RowCount h + 1\<rparr>) (tf\<lparr>tf_dirty := True\<rparr>), Inr rowID))
              (aliasPage target tf))) tf)"

text \<open>
  The search for a row ID in a page: cells that cannot be read or decoded are passed over, a run-time
  panic is not.
\<close>

definition colDefsOf :: "TableFile \<Rightarrow> ColumnDef list" where
  "colDefsOf tf = (case tfh_ColumnDefs (tf_header tf) of None \<Rightarrow> [] | Some cs \<Rightarrow> cs)"

definition cellRowID :: "PageV2 \<Rightarrow> ColumnDef list \<Rightarrow> nat \<Rightarrow> page_error + u64" where
  "cellRowID page colDefs i =
     bindE (GetCellData page (int i)) (\<lambda>cellData. bindE (DecodeRow cellData colDefs) (\<lambda>(rowID, _). Inr rowID))"

definition isPanic :: "page_error \<Rightarrow> bool" where
  "isPanic e \<longleftrightarrow> (case e of Panic \<Rightarrow> True | ErrColumn _ Panic \<Rightarrow> True | _ \<Rightarrow> False)"

fun findCell :: "PageV2 \<Rightarrow> ColumnDef list \<Rightarrow> u64 \<Rightarrow> nat list \<Rightarrow> page_error + nat option" where
  "findCell page colDefs rowID [] = Inr None"
| "findCell page colDefs rowID (i # is) =
     (case cellRowID page colDefs i of
        Inl e \<Rightarrow> if isPanic e then Inl e else findCell page colDefs rowID is
      | Inr r \<Rightarrow> if r = rowID then Inr (Some i) else findCell page colDefs rowID is)"

definition cellIndices :: "PageV2 \<Rightarrow> nat list" where
  "cellIndices page = [0..<unat (hdr_CellCount (Header page))]"

text \<open>
  The loop over the page chain that \<^verbatim>\<open>GetRow\<close>, \<^verbatim>\<open>DeleteRow\<close> and \<^verbatim>\<open>UpdateRow\<close> share: \<open>read\<close> fetches a page and
  \<open>act\<close> is what they do with the cell found.
\<close>

fun scanFor ::
  "(u64 \<Rightarrow> PageV2 tf_method) \<Rightarrow> (u64 \<Rightarrow> PageV2 \<Rightarrow> nat \<Rightarrow> 'a tf_method) \<Rightarrow> u64 \<Rightarrow> nat \<Rightarrow> u64 \<Rightarrow> TableFile
     \<Rightarrow> (TableFile \<times> (tf_error + 'a)) option"
where
  "scanFor read act rowID 0 pageID tf = None"
| "scanFor read act rowID (Suc fuel) pageID tf =
     (if pageID = 0 then Some (tf, Inl (TFRowNotFound rowID))
      else case read pageID tf of
             (tf, Inl e) \<Rightarrow> Some (tf, Inl e)
           | (tf, Inr page) \<Rightarrow>
               (case findCell page (colDefsOf tf) rowID (cellIndices page) of
                  Inl e \<Rightarrow> Some (tf, Inl (TFPage e))
                | Inr (Some i) \<Rightarrow> Some (act pageID page i tf)
                | Inr None \<Rightarrow> scanFor read act rowID fuel (hdr_RightPage (Header page)) tf))"

definition getRowAt :: "u64 \<Rightarrow> PageV2 \<Rightarrow> nat \<Rightarrow> Value list tf_method" where
  "getRowAt pageID page i tf =
     bindS (liftP (GetRowFromPage page (int i) (colDefsOf tf))) (\<lambda>(_, row). returnS row) tf"

definition GetRow :: "nat \<Rightarrow> u64 \<Rightarrow> TableFile \<Rightarrow> (TableFile \<times> (tf_error + Value list)) option" where
  "GetRow fuel rowID tf =
     scanFor readPage getRowAt rowID fuel (tfh_FirstDataPage (tf_header tf)) tf"

definition DeleteRow :: "nat \<Rightarrow> u64 \<Rightarrow> TableFile \<Rightarrow> (TableFile \<times> (tf_error + unit)) option" where
  "DeleteRow fuel rowID tf =
     scanFor readPageHeld
       (\<lambda>pageID page i. bindS (liftP (DeleteRowFromPage page (int i))) (\<lambda>page tf.
          bindS (writePage page) (\<lambda>_ tf.
            (updHeader (\<lambda>h. h\<lparr>tfh_RowCount := tfh_RowCount h - 1\<rparr>) (tf\<lparr>tf_dirty := True\<rparr>), Inr ()))
          (aliasPage page tf)))
       rowID fuel (tfh_FirstDataPage (tf_header tf)) tf"

text \<open>
  \<^verbatim>\<open>UpdateRow\<close> on the cell found: the old row is deleted in the page, then the new one inserted there, or in
  the last data page; with no room there either it calls \<^verbatim>\<open>allocatePage\<close>, which waits for the lock held.
\<close>

definition updateAt :: "go_rt \<Rightarrow> u64 \<Rightarrow> Value list \<Rightarrow> u64 \<Rightarrow> PageV2 \<Rightarrow> nat \<Rightarrow> unit tf_method" where
  "updateAt rt rowID row pageID page i =
     (let newRowSize = length (EncodeRow rt rowID row)
      in bindS (liftP (DeleteRowFromPage page (int i))) (\<lambda>page tf.
           bindS
             (if CanInsert page newRowSize then
                bindS (liftP (InsertRowToPage rt page rowID row)) (\<lambda>(page, _) tf. (aliasPage page tf, Inr page))
              else (\<lambda>tf.
                let (tf, target) =
                  (if 0 < tfh_LastDataPage (tf_header tf) \<and> tfh_LastDataPage (tf_header tf) \<noteq> pageID
                   then (case readPageHeld (tfh_LastDataPage (tf_header tf)) tf of
                           (tf, Inr lastPage) \<Rightarrow> (tf, if CanInsert lastPage newRowSize then Inr (Some lastPage) else Inr None)
                         | (tf, Inl e) \<Rightarrow> (tf, if e = TFDeadlock then Inl e else Inr None))
                   else (tf, Inr None))
                in case target of
                     Inl e \<Rightarrow> (tf, Inl e)
                   | Inr None \<Rightarrow> (tf, Inl TFDeadlock)
                   | Inr (Some target) \<Rightarrow>
                       bindS (liftP (InsertRowToPage rt target rowID row)) (\<lambda>(target, _) tf.
                         (fst (writePage target (aliasPage target tf)), Inr page)) tf))
             (\<lambda>page. bindS (writePage page) (\<lambda>_. returnS ()))
             (aliasPage page tf)))"

definition UpdateRow :: "go_rt \<Rightarrow> nat \<Rightarrow> u64 \<Rightarrow> Value list \<Rightarrow> TableFile \<Rightarrow> (TableFile \<times> (tf_error + unit)) option" where
  "UpdateRow rt fuel rowID row tf =
     scanFor readPageHeld (updateAt rt rowID row) rowID fuel (tfh_FirstDataPage (tf_header tf)) tf"

section \<open>Scans\<close>

record RowIterator =
  it_pageID :: u64
  it_cellIdx :: nat
  it_page :: "PageV2 option"
  it_err :: "tf_error option"
  it_started :: bool

definition ScanRows :: "TableFile \<Rightarrow> RowIterator" where
  "ScanRows tf = \<lparr>it_pageID = tfh_FirstDataPage (tf_header tf), it_cellIdx = 0, it_page = None, it_err = None,
     it_started = False\<rparr>"

text \<open>The first index from \<open>i\<close> on, among \<open>n\<close> of them, whose pointer is not cleared.\<close>

fun nextLive :: "PageV2 \<Rightarrow> nat \<Rightarrow> nat \<Rightarrow> page_error + nat" where
  "nextLive page i 0 = Inr i"
| "nextLive page i (Suc n) =
     bindE (GetCellPointer page (int i)) (\<lambda>p. if 0 < p then Inr i else nextLive page (Suc i) n)"

type_synonym iter_result = "(TableFile \<times> (tf_error + (RowIterator \<times> bool))) option"

fun iterLoop :: "nat \<Rightarrow> RowIterator \<Rightarrow> TableFile \<Rightarrow> iter_result" where
  "iterLoop 0 it tf = None"
| "iterLoop (Suc fuel) it tf =
     (case it_page it of
        None \<Rightarrow> Some (tf, Inr (it, False))
      | Some page \<Rightarrow>
          let i = (if it_started it then it_cellIdx it + 1 else it_cellIdx it);
              n = unat (hdr_CellCount (Header page))
          in case nextLive page i (n - i) of
               Inl e \<Rightarrow> Some (tf, Inl (TFPage e))
             | Inr j \<Rightarrow>
                 let it = it\<lparr>it_started := True, it_cellIdx := j\<rparr>
                 in if j < n then Some (tf, Inr (it, True))
                    else let it = it\<lparr>it_pageID := hdr_RightPage (Header page)\<rparr>
                         in if it_pageID it = 0 then Some (tf, Inr (it\<lparr>it_page := None\<rparr>, False))
                            else case readPage (it_pageID it) tf of
                                   (tf, Inl e) \<Rightarrow> Some (tf, Inr (it\<lparr>it_page := None, it_err := Some e\<rparr>, False))
                                 | (tf, Inr page) \<Rightarrow>
                                     iterLoop fuel (it\<lparr>it_page := Some page, it_cellIdx := 0, it_started := False\<rparr>) tf)"

definition Next :: "nat \<Rightarrow> RowIterator \<Rightarrow> TableFile \<Rightarrow> iter_result" where
  "Next fuel it tf =
     (if it_err it \<noteq> None then Some (tf, Inr (it, False))
      else if it_page it = None \<and> 0 < it_pageID it then
        (case readPage (it_pageID it) tf of
           (tf, Inl e) \<Rightarrow> Some (tf, Inr (it\<lparr>it_err := Some e\<rparr>, False))
         | (tf, Inr page) \<Rightarrow> iterLoop fuel (it\<lparr>it_page := Some page, it_cellIdx := 0\<rparr>) tf)
      else iterLoop fuel it tf)"

definition iterRow :: "RowIterator \<Rightarrow> TableFile \<Rightarrow> tf_error + (u64 \<times> Value list)" where
  "iterRow it tf =
     (case (it_page it, it_err it) of
        (_, Some e) \<Rightarrow> Inl e
      | (None, None) \<Rightarrow> Inr (0, [])
      | (Some page, None) \<Rightarrow>
          (case GetRowFromPage page (int (it_cellIdx it)) (colDefsOf tf) of Inl e \<Rightarrow> Inl (TFPage e) | Inr r \<Rightarrow> Inr r))"

text \<open>The collecting loop of \<^verbatim>\<open>GetAllRows\<close> and \<^verbatim>\<open>GetAllRowsWithIDs\<close>; every \<^verbatim>\<open>Next\<close> gets the fuel \<open>k\<close>.\<close>

fun collectRows ::
  "nat \<Rightarrow> nat \<Rightarrow> RowIterator \<Rightarrow> TableFile \<Rightarrow> (TableFile \<times> (tf_error + (u64 \<times> Value list) list)) option"
where
  "collectRows k 0 it tf = None"
| "collectRows k (Suc fuel) it tf =
     (case Next k it tf of
        None \<Rightarrow> None
      | Some (tf, Inl e) \<Rightarrow> Some (tf, Inl e)
      | Some (tf, Inr (it, False)) \<Rightarrow> Some (tf, case it_err it of None \<Rightarrow> Inr [] | Some e \<Rightarrow> Inl e)
      | Some (tf, Inr (it, True)) \<Rightarrow>
          (case iterRow it tf of
             Inl e \<Rightarrow> Some (tf, Inl e)
           | Inr r \<Rightarrow>
               (case collectRows k fuel it tf of
                  None \<Rightarrow> None
                | Some (tf, Inl e) \<Rightarrow> Some (tf, Inl e)
                | Some (tf, Inr rs) \<Rightarrow> Some (tf, Inr (r # rs)))))"

definition GetAllRowsWithIDs ::
  "nat \<Rightarrow> nat \<Rightarrow> TableFile \<Rightarrow> (TableFile \<times> (tf_error + (u64 \<times> Value list) list)) option"
where
  "GetAllRowsWithIDs k fuel tf = collectRows k fuel (ScanRows tf) tf"

definition GetAllRows :: "nat \<Rightarrow> nat \<Rightarrow> TableFile \<Rightarrow> (TableFile \<times> (tf_error + Value list list)) option" where
  "GetAllRows k fuel tf =
     (case collectRows k fuel (ScanRows tf) tf of
        None \<Rightarrow> None
      | Some (tf, Inl e) \<Rightarrow> Some (tf, Inl e)
      | Some (tf, Inr rs) \<Rightarrow> Some (tf, Inr (map snd rs)))"

section \<open>Flushing and clearing\<close>

definition writeDirtyPage :: "(TableFile, tf_error) writeFunc" where
  "writeDirtyPage page tf =
     (case writePageToFileNoLock page tf of
        (tf', Inl e) \<Rightarrow> (tf', UpdateChecksum page, Some e)
      | (tf', Inr page') \<Rightarrow> (tf', page', None))"

text \<open>\<^verbatim>\<open>tf.cache.Flush(tf.writePageToFileNoLock)\<close>: the flush works on the cache while the writer works on the file.\<close>

definition flushCache :: "TableFile \<Rightarrow> TableFile \<times> tf_error cache_error option" where
  "flushCache tf =
     (case tf_cache tf of
        None \<Rightarrow> (tf, None)
      | Some c \<Rightarrow>
          (case Flush writeDirtyPage c (tf\<lparr>tf_cache := None\<rparr>) of
             (c', tf', r) \<Rightarrow> (tf'\<lparr>tf_cache := Some c'\<rparr>, r)))"

definition flushError :: "tf_error cache_error \<Rightarrow> tf_error" where
  "flushError e = (case e of ErrWriteFunc e \<Rightarrow> e | ErrNilPage \<Rightarrow> TFCache ErrNilPage
     | ErrNoPagesToEvict \<Rightarrow> TFCache ErrNoPagesToEvict | ErrEvictDirty k \<Rightarrow> TFCache (ErrEvictDirty k))"

definition TableFile_Flush :: "(ColumnDef list \<Rightarrow> bytes option) \<Rightarrow> unit tf_method" where
  "TableFile_Flush jsonMarshal tf =
     (case flushCache tf of
        (tf, Some e) \<Rightarrow> (tf, Inl (flushError e))
      | (tf, None) \<Rightarrow> if tf_dirty tf then writeHeader jsonMarshal tf else (tf, Inr ()))"

definition TableFile_Close :: "(ColumnDef list \<Rightarrow> bytes option) \<Rightarrow> unit tf_method" where
  "TableFile_Close jsonMarshal tf =
     (case flushCache tf of (tf, _) \<Rightarrow> if tf_dirty tf then writeHeader jsonMarshal tf else (tf, Inr ()))"

definition TableFile_Clear :: "unit tf_method" where
  "TableFile_Clear tf =
     (let tf = updHeader (\<lambda>h. h\<lparr>tfh_FirstDataPage := 0, tfh_LastDataPage := 0, tfh_RowCount := 0, tfh_FreePageList := 0\<rparr>)
                 (tf\<lparr>tf_dirty := True\<rparr>);
          tf = tf\<lparr>tf_cache := map_option Clear (tf_cache tf)\<rparr>
      in case fileTruncate PageSize16KB (tf_file tf) of
           None \<Rightarrow> (tf, Inl TFWriteAt)
         | Some f \<Rightarrow> (updHeader (\<lambda>h. h\<lparr>tfh_PageCount := 1\<rparr>) (tf\<lparr>tf_file := f\<rparr>), Inr ()))"

definition GetRowCount :: "TableFile \<Rightarrow> u64" where
  "GetRowCount tf = tfh_RowCount (tf_header tf)"

definition GetColumnDefs :: "TableFile \<Rightarrow> ColumnDef list option" where
  "GetColumnDefs tf = tfh_ColumnDefs (tf_header tf)"

definition TableFile_PageCount :: "TableFile \<Rightarrow> u32" where
  "TableFile_PageCount tf = tfh_PageCount (tf_header tf)"

definition CacheSize :: "TableFile \<Rightarrow> nat" where
  "CacheSize tf = (case tf_cache tf of None \<Rightarrow> 0 | Some c \<Rightarrow> Size c)"

section \<open>The pages of the file\<close>

definition diskPage :: "os_file \<Rightarrow> u64 \<Rightarrow> PageV2 option" where
  "diskPage f k =
     (if (unat k + 1) * PageSize16KB \<le> length (file_bytes f)
      then (case Page_FromBytes zeroPage (slice (unat k * PageSize16KB) (unat k * PageSize16KB + PageSize16KB) (file_bytes f)) of
              Inr p \<Rightarrow> Some p | Inl _ \<Rightarrow> None)
      else None)"

lemma page_wf_zeroPage [simp]: "page_wf zeroPage"
  by (simp add: page_wf_def zeroPage_def)

lemma diskPage_wf: "diskPage f k = Some p \<Longrightarrow> page_wf p"
  by (auto simp: diskPage_def split: if_splits sum.splits dest: Page_FromBytes_wf [rotated])

lemma pageOffset_small:
  assumes "unat k < 2 ^ 32"
  shows "pageOffset k = int (unat k * PageSize16KB)"
proof -
  have m: "unat (k * of_nat PageSize16KB) = unat k * PageSize16KB"
    using assms by (simp add: unat_word_ariths PageSize16KB_def)
  have "uint (k * of_nat PageSize16KB) = int (unat k * PageSize16KB)"
    using m by (metis uint_nat)
  moreover have "int (unat k * PageSize16KB) < 2 ^ 63"
    using assms by (simp add: PageSize16KB_def del: of_nat_mult)
  ultimately show ?thesis
    by (simp add: pageOffset_def sint_uint signed_take_bit_int_eq_self_iff del: of_nat_mult)
qed

lemma pageOffset_nat:
  assumes "unat k < 2 ^ 32"
  shows "\<not> pageOffset k < 0" "nat (pageOffset k) = unat k * PageSize16KB"
  unfolding pageOffset_small [OF assms] nat_int by (simp_all del: of_nat_mult)

lemma fileReadAt_diskPage:
  assumes "unat k < 2 ^ 32" "diskPage f k = Some p"
  shows "\<exists>d. fileReadAt f PageSize16KB (pageOffset k) = Some d \<and> Page_FromBytes zeroPage d = Inr p"
  using assms(2) pageOffset_nat [OF assms(1)]
  by (auto simp: diskPage_def fileReadAt_def add.commute split: if_splits sum.splits)

text \<open>Writing a page at its aligned offset changes exactly that page of the file.\<close>

lemma slice_middle:
  assumes "length a = n * m" "length d = m" "m > 0"
  shows "slice (j * m) (j * m + m) (a @ d @ b) =
    (if j = n then d else if j < n then slice (j * m) (j * m + m) a else slice ((j - Suc n) * m) ((j - Suc n) * m + m) b)"
proof -
  consider "j = n" | "j < n" | "n < j" by linarith
  then show ?thesis
  proof cases
    case 1
    then show ?thesis using assms by (simp add: slice_def)
  next
    case 2
    then have "j * m + m \<le> n * m" by (metis Suc_leI add.commute mult_Suc mult_le_mono1)
    with 2 assms(1) show ?thesis by (simp add: slice_append_left)
  next
    case 3
    then obtain i where i: "j = Suc n + i" using less_iff_Suc_add by auto
    then have "j * m = length (a @ d) + i * m" using assms by (simp add: algebra_simps)
    then show ?thesis using 3 i slice_append_right [of "a @ d" "j * m" "j * m + m" b] by simp
  qed
qed

lemma diskPage_write_bytes:
  assumes len: "length (file_bytes f) = n * PageSize16KB" and k: "unat k \<le> n" "unat k < 2 ^ 32" and w: "file_writable f"
    and d: "length d = PageSize16KB" and parse: "Page_FromBytes zeroPage d = Inr p"
  obtains f' where "fileWriteAt f d (pageOffset k) = Some f'"
    "file_bytes f' = take (unat k * PageSize16KB) (file_bytes f) @ d @ drop (unat k * PageSize16KB + PageSize16KB) (file_bytes f)" "file_writable f'"
    "length (file_bytes f') = max n (unat k + 1) * PageSize16KB" "diskPage f' = (diskPage f)(k \<mapsto> p)"
proof -
  let ?P = "PageSize16KB" and ?b = "file_bytes f"
  define f' where "f' = f\<lparr>file_bytes := take (unat k * ?P) ?b @ d @ drop (unat k * ?P + ?P) ?b\<rparr>"
  have P: "0 < ?P" by (simp add: PageSize16KB_def)
  have le: "unat k * ?P \<le> length ?b" using k(1) len by simp
  have f': "fileWriteAt f d (pageOffset k) = Some f'"
    using w d le pageOffset_nat [OF k(2)] by (simp add: fileWriteAt_def f'_def Let_def)
  have a: "length (take (unat k * ?P) ?b) = unat k * ?P" using le by simp
  have n': "length (file_bytes f') = max n (unat k + 1) * ?P"
  proof (cases "unat k = n")
    case True
    then show ?thesis using len d by (simp add: f'_def)
  next
    case False
    then obtain r where "n = Suc (unat k) + r" using k(1) by (metis le_neq_implies_less less_iff_Suc_add add_Suc)
    then show ?thesis using len d by (simp add: f'_def algebra_simps)
  qed
  have "diskPage f' j = ((diskPage f)(k \<mapsto> p)) j" for j
  proof (cases "unat j = unat k")
    case True
    then have "j = k" by (simp add: word_unat_eq_iff)
    moreover have "slice (unat k * ?P) (unat k * ?P + ?P) (file_bytes f') = d"
      using slice_middle [OF a d P, of "unat k" "drop (unat k * ?P + ?P) ?b"] by (simp add: f'_def)
    moreover have "(unat k + 1) * ?P \<le> length (file_bytes f')" unfolding n' by (rule mult_le_mono1) simp
    ultimately show ?thesis using parse by (simp add: diskPage_def)
  next
    case False
    then have jk: "j \<noteq> k" by auto
    have len': "(unat j + 1) * ?P \<le> length (file_bytes f') \<longleftrightarrow> (unat j + 1) * ?P \<le> length ?b"
      unfolding n' len mult_le_cancel2 using P False k(1) by auto
    show ?thesis
    proof (cases "(unat j + 1) * ?P \<le> length ?b")
      case True
      have "slice (unat j * ?P) (unat j * ?P + ?P) (file_bytes f') = slice (unat j * ?P) (unat j * ?P + ?P) ?b"
      proof (cases "unat j < unat k")
        case True
        then have "unat j * ?P + ?P \<le> unat k * ?P" by (metis Suc_leI add.commute mult_Suc mult_le_mono1)
        then show ?thesis
          using slice_middle [OF a d P, of "unat j" "drop (unat k * ?P + ?P) ?b"] True
          by (simp add: f'_def slice_def take_drop min_def)
      next
        case ge: False
        with False have "unat k < unat j" by simp
        then obtain i where i: "unat j = Suc (unat k) + i" using less_iff_Suc_add by auto
        then show ?thesis
          using slice_middle [OF a d P, of "unat j" "drop (unat k * ?P + ?P) ?b"]
          by (simp add: f'_def slice_def algebra_simps)
      qed
      with True len' jk show ?thesis by (simp add: diskPage_def)
    qed (use len' jk in \<open>simp add: diskPage_def\<close>)
  qed
  then have "diskPage f' = (diskPage f)(k \<mapsto> p)" by blast
  moreover have "file_writable f'" using w by (simp add: f'_def)
  ultimately show ?thesis using f' n' by (intro that) (simp_all add: f'_def)
qed

lemma diskPage_write:
  assumes "length (file_bytes f) = n * PageSize16KB" "unat k \<le> n" "unat k < 2 ^ 32" "file_writable f" and p: "page_wf p"
  obtains f' where "fileWriteAt f (Page_ToBytes p) (pageOffset k) = Some f'" "file_writable f'"
    "length (file_bytes f') = max n (unat k + 1) * PageSize16KB" "diskPage f' = (diskPage f)(k \<mapsto> p)"
  using diskPage_write_bytes [OF assms(1-4) length_Page_ToBytes [OF p] Page_FromBytes_ToBytes [OF p page_wf_zeroPage]] by blast

section \<open>Reading and writing through the cache\<close>

text \<open>The cache agrees with the file, the file is writable and holds whole pages.\<close>

definition tf_ok :: "TableFile \<Rightarrow> bool" where
  "tf_ok tf \<longleftrightarrow>
     cacheOk (tf_cache tf) \<and> cacheLookup (tf_cache tf) \<subseteq>\<^sub>m diskPage (tf_file tf) \<and> file_writable (tf_file tf) \<and>
     length (file_bytes (tf_file tf)) = unat (tfh_PageCount (tf_header tf)) * PageSize16KB \<and>
     0 < unat (tfh_PageCount (tf_header tf))"

text \<open>Two states that differ only in what the cache holds.\<close>

definition same_table :: "TableFile \<Rightarrow> TableFile \<Rightarrow> bool" where
  "same_table tf tf' \<longleftrightarrow>
     tf_file tf' = tf_file tf \<and> tf_header tf' = tf_header tf \<and> tf_dirty tf' = tf_dirty tf \<and> tf_nextID tf' = tf_nextID tf"

lemma same_table_refl [simp]: "same_table tf tf"
  by (simp add: same_table_def)

lemma same_table_trans: "same_table a b \<Longrightarrow> same_table b c \<Longrightarrow> same_table a c"
  by (simp add: same_table_def)

lemma readPageNoLock_ok:
  assumes ok: "tf_ok tf" and k: "unat k < 2 ^ 32" and p: "diskPage (tf_file tf) k = Some p" "hdr_PageID (Header p) = k"
  obtains tf' where "readPageNoLock k tf = (tf', Inr p)" "tf_ok tf'" "same_table tf tf'"
proof -
  let ?D = "diskPage (tf_file tf)"
  have c: "cacheOk (tf_cache tf)" "cacheLookup (tf_cache tf) \<subseteq>\<^sub>m ?D" using ok by (simp_all add: tf_ok_def)
  obtain c1 r where g: "cacheGet k (tf_cache tf) = (c1, r)" by fastforce
  have c1: "cacheOk c1" "cacheLookup c1 \<subseteq>\<^sub>m ?D"
    using cached.get_ok [OF c(1), of k] cached.get_coherent [OF c, of k] g by simp_all
  show ?thesis
  proof (cases r)
    case (Some q)
    with cached.get_hit [OF c, of k q] g p have "q = p" by simp
    with Some g ok c1 show ?thesis
      by (intro that [of "tf\<lparr>tf_cache := c1\<rparr>"]) (simp_all add: readPageNoLock_def tf_ok_def same_table_def)
  next
    case None
    obtain d where d: "fileReadAt (tf_file tf) PageSize16KB (pageOffset k) = Some d" "Page_FromBytes zeroPage d = Inr p"
      using fileReadAt_diskPage [OF k p(1)] by auto
    have "cacheOk (cachePut p c1)" "cacheLookup (cachePut p c1) \<subseteq>\<^sub>m ?D"
      using cached.put_ok [OF c1(1)] cached.fill_coherent [OF c1, of p] p by simp_all
    with None g d ok show ?thesis
      by (intro that [of "tf\<lparr>tf_cache := cachePut p c1\<rparr>"]) (simp_all add: readPageNoLock_def tf_ok_def same_table_def)
  qed
qed

lemma readPage_ok:
  assumes ok: "tf_ok tf" and k: "unat k < 2 ^ 32" and p: "diskPage (tf_file tf) k = Some p" "hdr_PageID (Header p) = k"
  obtains tf' where "readPage k tf = (tf', Inr p)" "tf_ok tf'" "same_table tf tf'"
proof -
  let ?D = "diskPage (tf_file tf)"
  have c: "cacheOk (tf_cache tf)" "cacheLookup (tf_cache tf) \<subseteq>\<^sub>m ?D" using ok by (simp_all add: tf_ok_def)
  obtain c1 r where g: "cacheGet k (tf_cache tf) = (c1, r)" by fastforce
  have ok1: "tf_ok (tf\<lparr>tf_cache := c1\<rparr>)" "same_table tf (tf\<lparr>tf_cache := c1\<rparr>)"
    using cached.get_ok [OF c(1), of k] cached.get_coherent [OF c, of k] g ok by (simp_all add: tf_ok_def same_table_def)
  show ?thesis
  proof (cases r)
    case (Some q)
    with cached.get_hit [OF c, of k q] g p have "q = p" by simp
    with Some g ok1 show ?thesis by (intro that [of "tf\<lparr>tf_cache := c1\<rparr>"]) (simp_all add: readPage_def)
  next
    case None
    obtain tf' where "readPageNoLock k (tf\<lparr>tf_cache := c1\<rparr>) = (tf', Inr p)" "tf_ok tf'" "same_table (tf\<lparr>tf_cache := c1\<rparr>) tf'"
      using readPageNoLock_ok [OF ok1(1) k] p by auto
    with None g ok1(2) show ?thesis by (intro that [of tf']) (auto simp: readPage_def intro: same_table_trans)
  qed
qed

text \<open>A change of a page, seen by the cache, followed by the write of that page.\<close>

lemma aliasPage_lookup:
  "cacheLookup (tf_cache (aliasPage p tf)) \<subseteq>\<^sub>m (cacheLookup (tf_cache tf))(hdr_PageID (Header p) \<mapsto> p)"
  "cacheOk (tf_cache tf) \<Longrightarrow> cacheOk (tf_cache (aliasPage p tf))"
  "same_table tf (aliasPage p tf)"
proof -
  have le: "m \<subseteq>\<^sub>m m(hdr_PageID (Header p) \<mapsto> p)" if "m (hdr_PageID (Header p)) = None" for m :: "u64 \<Rightarrow> PageV2 option"
    using that by (auto simp: map_le_def)
  then show "cacheLookup (tf_cache (aliasPage p tf)) \<subseteq>\<^sub>m (cacheLookup (tf_cache tf))(hdr_PageID (Header p) \<mapsto> p)"
    by (cases "tf_cache tf") (auto simp: aliasPage_def has_key_def update_conv' intro: le)
  show "cacheOk (tf_cache tf) \<Longrightarrow> cacheOk (tf_cache (aliasPage p tf))"
    by (cases "tf_cache tf") (force simp: aliasPage_def cacheOk_def has_key_iff intro!: put_old_inv)+
  show "same_table tf (aliasPage p tf)"
    by (cases "tf_cache tf") (auto simp: aliasPage_def same_table_def)
qed

text \<open>
  The state just before a page is written: the cache agrees with the file except possibly on that page.
\<close>

definition tf_pending :: "u64 \<Rightarrow> TableFile \<Rightarrow> bool" where
  "tf_pending k tf \<longleftrightarrow>
     cacheOk (tf_cache tf) \<and> (\<exists>q. cacheLookup (tf_cache tf) \<subseteq>\<^sub>m (diskPage (tf_file tf))(k \<mapsto> q)) \<and> file_writable (tf_file tf)"

lemma tf_ok_pending: "tf_ok tf \<Longrightarrow> tf_pending (hdr_PageID (Header p)) (aliasPage p tf)"
proof -
  assume ok: "tf_ok tf"
  then have "cacheLookup (tf_cache (aliasPage p tf)) \<subseteq>\<^sub>m (diskPage (tf_file tf))(hdr_PageID (Header p) \<mapsto> p)"
    using aliasPage_lookup(1) [of p tf] by (meson map_le_trans map_le_upd tf_ok_def)
  with ok aliasPage_lookup(2,3) [of tf p] show ?thesis by (auto simp: tf_pending_def tf_ok_def same_table_def)
qed

lemma writePageToFileNoLock_ok:
  assumes pend: "tf_pending k tf" and p: "page_wf p" "hdr_PageID (Header p) = k"
    and n: "length (file_bytes (tf_file tf)) = n * PageSize16KB" "unat k \<le> n" "unat k < 2 ^ 32"
  obtains tf' where "writePageToFileNoLock p tf = (tf', Inr (UpdateChecksum p))"
    "diskPage (tf_file tf') = (diskPage (tf_file tf))(k \<mapsto> UpdateChecksum p)"
    "length (file_bytes (tf_file tf')) = max n (unat k + 1) * PageSize16KB" "file_writable (tf_file tf')"
    "tf_header tf' = tf_header tf" "tf_nextID tf' = tf_nextID tf"
    "cacheOk (tf_cache tf')" "cacheLookup (tf_cache tf') \<subseteq>\<^sub>m diskPage (tf_file tf')"
proof -
  let ?p = "UpdateChecksum p" and ?tf = "aliasPage (UpdateChecksum p) tf"
  have id: "hdr_PageID (Header ?p) = k" using p(2) by (simp add: UpdateChecksum_def)
  note al = aliasPage_lookup [where p = ?p, unfolded id]
  obtain q where q: "cacheLookup (tf_cache tf) \<subseteq>\<^sub>m (diskPage (tf_file tf))(k \<mapsto> q)" using pend by (auto simp: tf_pending_def)
  have "cacheLookup (tf_cache ?tf) \<subseteq>\<^sub>m (cacheLookup (tf_cache tf))(k \<mapsto> ?p)" by (rule al(1))
  also have "\<dots> \<subseteq>\<^sub>m ((diskPage (tf_file tf))(k \<mapsto> q))(k \<mapsto> ?p)" using q by (rule map_le_upd)
  finally (map_le_trans) have le: "cacheLookup (tf_cache ?tf) \<subseteq>\<^sub>m (diskPage (tf_file tf))(k \<mapsto> ?p)" by simp
  have w: "file_writable (tf_file tf)" using pend by (simp add: tf_pending_def)
  obtain f' where f': "fileWriteAt (tf_file tf) (Page_ToBytes ?p) (pageOffset k) = Some f'" "file_writable f'"
    "length (file_bytes f') = max n (unat k + 1) * PageSize16KB" "diskPage f' = (diskPage (tf_file tf))(k \<mapsto> ?p)"
    using diskPage_write [OF n(1,2,3) w, of ?p] p(1) by auto
  have same: "tf_file ?tf = tf_file tf" "tf_header ?tf = tf_header tf" "tf_nextID ?tf = tf_nextID tf"
    using al(3) [of tf] by (simp_all add: same_table_def)
  show ?thesis
  proof (rule that [of "?tf\<lparr>tf_file := f'\<rparr>"])
    show "writePageToFileNoLock p tf = (?tf\<lparr>tf_file := f'\<rparr>, Inr ?p)"
      using f'(1) same by (simp add: writePageToFileNoLock_def Let_def id)
  qed (use f' same le al(2) [of tf] pend in \<open>simp_all add: tf_pending_def\<close>)
qed

lemma writePage_ok:
  assumes pend: "tf_pending k tf" and p: "page_wf p" "hdr_PageID (Header p) = k"
    and n: "length (file_bytes (tf_file tf)) = n * PageSize16KB" "unat k \<le> n" "unat k < 2 ^ 32"
    and wr: "wr = writePage \<or> wr = writePageToFileWithCache"
  obtains tf' where "wr p tf = (tf', Inr (UpdateChecksum p))"
    "diskPage (tf_file tf') = (diskPage (tf_file tf))(k \<mapsto> UpdateChecksum p)"
    "length (file_bytes (tf_file tf')) = max n (unat k + 1) * PageSize16KB" "file_writable (tf_file tf')"
    "tf_header tf' = tf_header tf" "tf_nextID tf' = tf_nextID tf"
    "cacheOk (tf_cache tf')" "cacheLookup (tf_cache tf') \<subseteq>\<^sub>m diskPage (tf_file tf')"
proof -
  let ?p = "UpdateChecksum p"
  obtain tf1 where tf1: "writePageToFileNoLock p tf = (tf1, Inr ?p)"
    "diskPage (tf_file tf1) = (diskPage (tf_file tf))(k \<mapsto> ?p)"
    "length (file_bytes (tf_file tf1)) = max n (unat k + 1) * PageSize16KB" "file_writable (tf_file tf1)"
    "tf_header tf1 = tf_header tf" "tf_nextID tf1 = tf_nextID tf"
    "cacheOk (tf_cache tf1)" "cacheLookup (tf_cache tf1) \<subseteq>\<^sub>m diskPage (tf_file tf1)"
    by (rule writePageToFileNoLock_ok [OF pend p n])
  have id: "hdr_PageID (Header ?p) = k" using p(2) by (simp add: UpdateChecksum_def)
  have disk: "(diskPage (tf_file tf1))(k \<mapsto> ?p) = diskPage (tf_file tf1)" by (simp add: tf1(2))
  let ?c = "if wr = writePage then cachePutClean ?p (tf_cache tf1) else cachePut ?p (tf_cache tf1)"
  have c: "cacheOk ?c" "cacheLookup ?c \<subseteq>\<^sub>m diskPage (tf_file tf1)"
    using cached.put_ok [OF tf1(7), of ?p] cached.put_coherent [OF tf1(7,8), of ?p]
      cleaned.put_ok [OF tf1(7), of ?p] cleaned.put_coherent [OF tf1(7,8), of ?p]
    by (simp_all add: id disk)
  show ?thesis
  proof (rule that [of "tf1\<lparr>tf_cache := ?c\<rparr>"])
    show "wr p tf = (tf1\<lparr>tf_cache := ?c\<rparr>, Inr ?p)"
      using wr tf1(1) by (auto simp: writePage_def writePageToFileWithCache_def bindS_def)
  qed (use tf1 c in \<open>simp_all\<close>)
qed

section \<open>The chain of data pages\<close>

text \<open>
  \<open>chainRep m k chain\<close>: following \<^verbatim>\<open>RightPage\<close> from page \<open>k\<close> visits the pages of \<open>chain\<close>, each representing its
  cells, and ends with a zero link.
\<close>

fun chainRep :: "(u64 \<Rightarrow> PageV2 option) \<Rightarrow> u64 \<Rightarrow> (u64 \<times> cells) list \<Rightarrow> bool" where
  "chainRep m k [] \<longleftrightarrow> k = 0"
| "chainRep m k ((i, cs) # rest) \<longleftrightarrow>
     k = i \<and> i \<noteq> 0 \<and>
     (case m i of
        None \<Rightarrow> False
      | Some p \<Rightarrow> hdr_PageID (Header p) = i \<and> page_rep p cs \<and> chainRep m (hdr_RightPage (Header p)) rest)"

lemma chainRep_replace_tail:
  "chainRep m k (ch @ (i, cs) # rest) \<Longrightarrow> (\<And>x. x \<in> fst ` set ch \<Longrightarrow> m' x = m x) \<Longrightarrow> chainRep m' i tail \<Longrightarrow>
   chainRep m' k (ch @ tail)"
  by (induction ch arbitrary: k) (auto split: option.splits)

lemma chainRep_mem:
  "chainRep m k chain \<Longrightarrow> (i, cs) \<in> set chain \<Longrightarrow> \<exists>p. m i = Some p \<and> hdr_PageID (Header p) = i \<and> page_rep p cs \<and> i \<noteq> 0"
  by (induction chain arbitrary: k) (auto split: option.splits)

lemma chainRep_last:
  "chainRep m k (ch @ [(i, cs)]) \<Longrightarrow>
     \<exists>p. m i = Some p \<and> hdr_PageID (Header p) = i \<and> page_rep p cs \<and> i \<noteq> 0 \<and> hdr_RightPage (Header p) = 0"
  by (induction ch arbitrary: k) (auto split: option.splits)

definition liveCells :: "(u64 \<times> cells) list \<Rightarrow> nat" where
  "liveCells chain = length (filter snd (concat (map snd chain)))"

definition tf_rep :: "TableFile \<Rightarrow> (u64 \<times> cells) list \<Rightarrow> bool" where
  "tf_rep tf chain \<longleftrightarrow>
     tf_ok tf \<and> tfh_FreePageList (tf_header tf) = 0 \<and>
     chainRep (diskPage (tf_file tf)) (tfh_FirstDataPage (tf_header tf)) chain \<and>
     tfh_LastDataPage (tf_header tf) = (if chain = [] then 0 else fst (last chain)) \<and>
     distinct (map fst chain) \<and>
     (\<forall>i \<in> fst ` set chain. unat i < unat (tfh_PageCount (tf_header tf))) \<and>
     tfh_RowCount (tf_header tf) = of_nat (liveCells chain)"

lemma tf_rep_same_table: "tf_rep tf chain \<Longrightarrow> same_table tf tf' \<Longrightarrow> tf_ok tf' \<Longrightarrow> tf_rep tf' chain"
  by (simp add: tf_rep_def same_table_def)

lemma unat_u32_less: "unat (w :: u32) < 2 ^ 32"
  using unsigned_less [of w] by simp

lemma page_rep_header:
  "page_rep (p\<lparr>Header := (Header p)\<lparr>hdr_Checksum := x\<rparr>\<rparr>) cs = page_rep p cs"
  "page_rep (p\<lparr>Header := (Header p)\<lparr>hdr_RightPage := y\<rparr>\<rparr>) cs = page_rep p cs"
  by (simp_all add: page_rep_def page_wf_def)

lemma UpdateChecksum_simps [simp]:
  "page_rep (UpdateChecksum p) cs = page_rep p cs" "hdr_PageID (Header (UpdateChecksum p)) = hdr_PageID (Header p)"
  "hdr_RightPage (Header (UpdateChecksum p)) = hdr_RightPage (Header p)"
  by (simp_all add: UpdateChecksum_def page_rep_header)

text \<open>
  The insertion into a target page that is the last of the chain, possibly allocated just before: \<open>cs\<close> are
  the cells of the target, \<open>ch\<close> the pages before it.
\<close>

lemma insert_into_target:
  assumes rep: "tf_rep tf (ch @ [(i, cs)])" and p: "diskPage (tf_file tf) i = Some p"
    and d: "d = EncodeRow rt rowID row" and small: "length d < 2 ^ 16 - 2" and can: "CanInsert p (length d)"
  obtains tf' where
    "bindS (liftP (InsertRowToPage rt p rowID row)) (\<lambda>(target, _) tf.
       bindS (writePage target) (\<lambda>_ tf.
         (updHeader (\<lambda>h. h\<lparr>tfh_RowCount := tfh_RowCount h + 1\<rparr>) (tf\<lparr>tf_dirty := True\<rparr>), Inr rowID))
       (aliasPage target tf)) tf = (tf', Inr rowID)"
    "tf_rep tf' (ch @ [(i, cs @ [(d, True)])])" "tf_nextID tf' = tf_nextID tf"
    "tfh_PageCount (tf_header tf') = tfh_PageCount (tf_header tf)" "tfh_ColumnDefs (tf_header tf') = tfh_ColumnDefs (tf_header tf)"
proof -
  let ?D = "diskPage (tf_file tf)" and ?n = "unat (tfh_PageCount (tf_header tf))"
  have ok: "tf_ok tf" and chain: "chainRep ?D (tfh_FirstDataPage (tf_header tf)) (ch @ [(i, cs)])"
    and i: "unat i < ?n" and dist: "distinct (map fst (ch @ [(i, cs)]))"
    using rep by (simp_all add: tf_rep_def)
  have ni: "i \<notin> fst ` set ch" using dist by simp
  from chainRep_last [OF chain] p have prep: "hdr_PageID (Header p) = i" "page_rep p cs" "i \<noteq> 0" "hdr_RightPage (Header p) = 0"
    by auto
  obtain q where q: "InsertRowToPage rt p rowID row = Inr (q, int (length cs))" "page_rep q (cs @ [(d, True)])"
    "hdr_PageID (Header q) = i" "hdr_RightPage (Header q) = 0"
    using InsertRowToPage_rep [OF prep(2) d small can] prep by metis
  have pend: "tf_pending i (aliasPage q tf)" using tf_ok_pending [OF ok, of q] q(3) by simp
  have st: "same_table tf (aliasPage q tf)" by (rule aliasPage_lookup(3))
  have len: "length (file_bytes (tf_file (aliasPage q tf))) = ?n * PageSize16KB" "unat i \<le> ?n" "unat i < 2 ^ 32"
    using ok st i unat_u32_less [of "tfh_PageCount (tf_header tf)"] by (simp_all add: tf_ok_def same_table_def)
  obtain tf1 where w: "writePage q (aliasPage q tf) = (tf1, Inr (UpdateChecksum q))"
    "diskPage (tf_file tf1) = (diskPage (tf_file (aliasPage q tf)))(i \<mapsto> UpdateChecksum q)"
    "length (file_bytes (tf_file tf1)) = max ?n (unat i + 1) * PageSize16KB" "file_writable (tf_file tf1)"
    "tf_header tf1 = tf_header (aliasPage q tf)" "tf_nextID tf1 = tf_nextID (aliasPage q tf)"
    "cacheOk (tf_cache tf1)" "cacheLookup (tf_cache tf1) \<subseteq>\<^sub>m diskPage (tf_file tf1)"
    using writePage_ok [OF pend page_repD(1) [OF q(2)] q(3) len, of writePage] by blast
  note same = st [unfolded same_table_def]
  define tf2 where "tf2 = updHeader (\<lambda>h. h\<lparr>tfh_RowCount := tfh_RowCount h + 1\<rparr>) (tf1\<lparr>tf_dirty := True\<rparr>)"
  have "chainRep (?D(i \<mapsto> UpdateChecksum q)) (tfh_FirstDataPage (tf_header tf)) (ch @ [(i, cs @ [(d, True)])])"
  proof (rule chainRep_replace_tail [OF chain])
    show "(?D(i \<mapsto> UpdateChecksum q)) x = ?D x" if "x \<in> fst ` set ch" for x
      using that ni by (cases "x = i") simp_all
  qed (use q prep(3) in simp)
  moreover have "tf_ok tf2"
    using w ok i same by (simp add: tf_ok_def tf2_def updHeader_def max_def)
  ultimately have "tf_rep tf2 (ch @ [(i, cs @ [(d, True)])])"
    using rep w same by (simp add: tf_rep_def tf2_def updHeader_def liveCells_def)
  then show ?thesis
    using q(1) w(1,5,6) same by (intro that [of tf2]) (simp_all add: liftP_def bindS_def tf2_def updHeader_def)
qed

lemma NewPageV2_simps [simp]: "hdr_PageID (Header (NewPageV2 k t)) = k" "hdr_RightPage (Header (NewPageV2 k t)) = 0"
  by (simp_all add: NewPageV2_def)

lemma tf_ok_pending_any: "tf_ok tf \<Longrightarrow> tf_pending k tf"
proof -
  assume ok: "tf_ok tf"
  obtain q where "diskPage (tf_file tf) \<subseteq>\<^sub>m (diskPage (tf_file tf))(k \<mapsto> q)"
    by (cases "diskPage (tf_file tf) k") (auto simp: map_le_def dom_def)
  with ok show ?thesis by (auto simp: tf_pending_def tf_ok_def intro: map_le_trans)
qed

text \<open>Allocation at the end of the file: the new page is empty, the others stay.\<close>

lemma allocate_at_end:
  assumes ok: "tf_ok tf" and free: "tfh_FreePageList (tf_header tf) = 0" and room: "unat (tfh_PageCount (tf_header tf)) + 1 < 2 ^ 32"
    and k: "k = ucast (tfh_PageCount (tf_header tf))"
  obtains tf' where "allocatePageNoLock PageTypeData tf = (tf', Inr (UpdateChecksum (NewPageV2 k PageTypeData), k))" "tf_ok tf'"
    "diskPage (tf_file tf') = (diskPage (tf_file tf))(k \<mapsto> UpdateChecksum (NewPageV2 k PageTypeData))"
    "tf_header tf' = (tf_header tf)\<lparr>tfh_PageCount := tfh_PageCount (tf_header tf) + 1\<rparr>" "tf_nextID tf' = tf_nextID tf"
    "unat k = unat (tfh_PageCount (tf_header tf))"
proof -
  let ?n = "unat (tfh_PageCount (tf_header tf))" and ?p = "NewPageV2 k PageTypeData"
  define tf0 where "tf0 = updHeader (\<lambda>h. h\<lparr>tfh_PageCount := tfh_PageCount h + 1\<rparr>) (tf\<lparr>tf_dirty := True\<rparr>)"
  have kn: "unat k = ?n" by (simp add: k unsigned_ucast_eq take_bit_nat_eq_self_iff) (use unat_u32_less [of "tfh_PageCount (tf_header tf)"] in simp)
  have cnt: "unat (tfh_PageCount (tf_header tf) + 1) = ?n + 1" using room by (simp add: unat_word_ariths)
  have pend: "tf_pending k tf0" using tf_ok_pending_any [OF ok, of k] by (simp add: tf_pending_def tf0_def updHeader_def)
  have len: "length (file_bytes (tf_file tf0)) = ?n * PageSize16KB" "unat k \<le> ?n" "unat k < 2 ^ 32"
    using ok kn room by (simp_all add: tf0_def updHeader_def tf_ok_def)
  obtain tf1 where w: "writePageToFileWithCache ?p tf0 = (tf1, Inr (UpdateChecksum ?p))"
    "diskPage (tf_file tf1) = (diskPage (tf_file tf0))(k \<mapsto> UpdateChecksum ?p)"
    "length (file_bytes (tf_file tf1)) = max ?n (unat k + 1) * PageSize16KB" "file_writable (tf_file tf1)"
    "tf_header tf1 = tf_header tf0" "tf_nextID tf1 = tf_nextID tf0"
    "cacheOk (tf_cache tf1)" "cacheLookup (tf_cache tf1) \<subseteq>\<^sub>m diskPage (tf_file tf1)"
    using writePage_ok [OF pend page_wf_simps(1) [of k PageTypeData] NewPageV2_simps(1) len, of writePageToFileWithCache] by blast
  show ?thesis
  proof (rule that [of tf1])
    show "allocatePageNoLock PageTypeData tf = (tf1, Inr (UpdateChecksum ?p, k))"
      using free w(1) by (simp add: allocatePageNoLock_def Let_def bindS_def k tf0_def)
    show "tf_ok tf1" using w kn cnt by (simp add: tf_ok_def tf0_def updHeader_def max_def)
  qed (use w kn in \<open>simp_all add: tf0_def updHeader_def\<close>)
qed

text \<open>The link of the previous last page to the new one.\<close>

lemma link_last_page:
  assumes ok: "tf_ok tf" and l: "unat l < unat (tfh_PageCount (tf_header tf))"
    and p: "diskPage (tf_file tf) l = Some p" "hdr_PageID (Header p) = l"
  obtains tf' q where
    "linkLastPage l k tf = tf'"
    "tf_ok tf'" "diskPage (tf_file tf') = (diskPage (tf_file tf))(l \<mapsto> q)" "tf_header tf' = tf_header tf"
    "tf_nextID tf' = tf_nextID tf"
    "hdr_PageID (Header q) = l" "hdr_RightPage (Header q) = k" "page_rep q = page_rep p"
proof -
  let ?n = "unat (tfh_PageCount (tf_header tf))"
  have l32: "unat l < 2 ^ 32" using l unat_u32_less [of "tfh_PageCount (tf_header tf)"] by simp
  obtain tf1 where tf1: "readPageNoLock l tf = (tf1, Inr p)" "tf_ok tf1" "same_table tf tf1"
    by (rule readPageNoLock_ok [OF ok l32 p])
  define q where "q = p\<lparr>Header := (Header p)\<lparr>hdr_RightPage := k\<rparr>\<rparr>"
  have q: "hdr_PageID (Header q) = l" "page_wf q" using p diskPage_wf [OF p(1)] by (simp_all add: q_def)
  have pend: "tf_pending l (aliasPage q tf1)" using tf_ok_pending [OF tf1(2), of q] q(1) by simp
  have st: "same_table tf (aliasPage q tf1)" using tf1(3) aliasPage_lookup(3) same_table_trans by blast
  have "length (file_bytes (tf_file (aliasPage q tf1))) = ?n * PageSize16KB" "unat l \<le> ?n"
    using ok st l by (simp_all add: tf_ok_def same_table_def)
  from writePage_ok [OF pend q(2,1) this l32, of writePage] obtain tf2 where
    w: "writePage q (aliasPage q tf1) = (tf2, Inr (UpdateChecksum q))"
    "diskPage (tf_file tf2) = (diskPage (tf_file (aliasPage q tf1)))(l \<mapsto> UpdateChecksum q)"
    "length (file_bytes (tf_file tf2)) = max ?n (unat l + 1) * PageSize16KB" "file_writable (tf_file tf2)"
    "tf_header tf2 = tf_header (aliasPage q tf1)" "tf_nextID tf2 = tf_nextID (aliasPage q tf1)"
    "cacheOk (tf_cache tf2)" "cacheLookup (tf_cache tf2) \<subseteq>\<^sub>m diskPage (tf_file tf2)" by blast
  show ?thesis
  proof (rule that [of tf2 "UpdateChecksum q"])
    show "linkLastPage l k tf = tf2"
      using tf1(1) w(1) by (simp add: linkLastPage_def q_def [symmetric])
    show "tf_ok tf2" using w ok st l by (simp add: tf_ok_def same_table_def max_def)
  qed (use w st q in \<open>simp_all add: same_table_def q_def page_rep_header fun_eq_iff\<close>)
qed

lemma newTargetPage_ok:
  assumes rep: "tf_rep tf chain" and room: "unat (tfh_PageCount (tf_header tf)) + 1 < 2 ^ 32"
  obtains tf' k p where "newTargetPage tf = (tf', Inr p)" "tf_rep tf' (chain @ [(k, [])])"
    "diskPage (tf_file tf') k = Some p" "page_rep p []" "tf_nextID tf' = tf_nextID tf"
    "tfh_ColumnDefs (tf_header tf') = tfh_ColumnDefs (tf_header tf)"
    "unat (tfh_PageCount (tf_header tf')) = unat (tfh_PageCount (tf_header tf)) + 1"
proof -
  let ?n = "unat (tfh_PageCount (tf_header tf))" and ?D = "diskPage (tf_file tf)"
  define k :: u64 where "k = ucast (tfh_PageCount (tf_header tf))"
  define p where "p = UpdateChecksum (NewPageV2 k PageTypeData)"
  have r: "tf_ok tf" "tfh_FreePageList (tf_header tf) = 0" "chainRep ?D (tfh_FirstDataPage (tf_header tf)) chain"
    "tfh_LastDataPage (tf_header tf) = (if chain = [] then 0 else fst (last chain))" "distinct (map fst chain)"
    "\<forall>i \<in> fst ` set chain. unat i < ?n" "tfh_RowCount (tf_header tf) = of_nat (liveCells chain)"
    using rep by (simp_all add: tf_rep_def)
  obtain tf1 where a: "allocatePageNoLock PageTypeData tf = (tf1, Inr (p, k))" "tf_ok tf1"
    "diskPage (tf_file tf1) = ?D(k \<mapsto> p)"
    "tf_header tf1 = (tf_header tf)\<lparr>tfh_PageCount := tfh_PageCount (tf_header tf) + 1\<rparr>" "tf_nextID tf1 = tf_nextID tf" "unat k = ?n"
    using allocate_at_end [OF r(1,2) room k_def] unfolding p_def by metis
  have n1: "unat (tfh_PageCount (tf_header tf) + 1) = ?n + 1" using room by (simp add: unat_word_ariths)
  have k0: "k \<noteq> 0" using a(6) r(1) by (auto simp: tf_ok_def)
  have kn: "k \<notin> fst ` set chain" using r(6) a(6) by fastforce
  have p: "page_rep p []" "hdr_PageID (Header p) = k" "hdr_RightPage (Header p) = 0"
    by (simp_all add: p_def page_rep_new)
  show ?thesis
  proof (cases chain rule: rev_cases)
    case Nil
    define tf2 where "tf2 = updHeader (\<lambda>h. h\<lparr>tfh_LastDataPage := k\<rparr>) (updHeader (\<lambda>h. h\<lparr>tfh_FirstDataPage := k\<rparr>) tf1\<lparr>tf_dirty := True\<rparr>)"
    have "newTargetPage tf = (tf2, Inr p)"
      using a r(3,4) Nil by (simp add: newTargetPage_def bindS_def Let_def tf2_def updHeader_def)
    moreover have "tf_rep tf2 (chain @ [(k, [])])"
      using a r Nil p k0 n1 by (simp add: tf_rep_def tf2_def updHeader_def tf_ok_def liveCells_def)
    ultimately show ?thesis
      using that [of tf2 p k] a p n1 by (simp add: tf2_def updHeader_def)
  next
    case (snoc ch lc)
    obtain l cs where lc: "lc = (l, cs)" by (cases lc)
    have chain: "chainRep ?D (tfh_FirstDataPage (tf_header tf)) (ch @ [(l, cs)])" using r(3) snoc lc by simp
    obtain lp where lp: "?D l = Some lp" "hdr_PageID (Header lp) = l" "page_rep lp cs" "l \<noteq> 0"
      using chainRep_last [OF chain] by auto
    have lk: "l \<noteq> k" "l \<notin> fst ` set ch" "k \<notin> fst ` set ch" using kn r(5) snoc lc by auto
    have first: "tfh_FirstDataPage (tf_header tf) \<noteq> 0" using chain by (cases ch) auto
    have ln: "unat l < unat (tfh_PageCount (tf_header tf1))" "diskPage (tf_file tf1) l = Some lp"
      using r(6) snoc lc a(3,4) n1 lk lp(1) by auto
    obtain tf2 q where t2: "linkLastPage l k tf1 = tf2"
      "tf_ok tf2" "diskPage (tf_file tf2) = (diskPage (tf_file tf1))(l \<mapsto> q)" "tf_header tf2 = tf_header tf1"
      "tf_nextID tf2 = tf_nextID tf1" "hdr_PageID (Header q) = l" "hdr_RightPage (Header q) = k" "page_rep q = page_rep lp"
      by (rule link_last_page [OF a(2) ln lp(2), of k])
    define tf3 where "tf3 = updHeader (\<lambda>h. h\<lparr>tfh_LastDataPage := k\<rparr>) (tf2\<lparr>tf_dirty := True\<rparr>)"
    have last: "tfh_LastDataPage (tf_header tf1) = l" "tfh_FirstDataPage (tf_header tf1) = tfh_FirstDataPage (tf_header tf)"
      using r(4) snoc lc a(4) by simp_all
    have "0 < l" using lp(4) by (simp add: word_gt_0)
    then have "newTargetPage tf = (tf3, Inr p)"
      using a(1) first last t2(1) by (simp add: newTargetPage_def bindS_def Let_def tf3_def)
    moreover have "chainRep (?D(k \<mapsto> p, l \<mapsto> q)) (tfh_FirstDataPage (tf_header tf)) (ch @ [(l, cs), (k, [])])"
    proof (rule chainRep_replace_tail [OF chain])
      show "(?D(k \<mapsto> p, l \<mapsto> q)) x = ?D x" if "x \<in> fst ` set ch" for x
        using that lk by (cases "x = k"; cases "x = l") simp_all
    qed (use t2(6-8) lp(3,4) p k0 lk in simp)
    then have "tf_rep tf3 (chain @ [(k, [])])"
      using t2 a r snoc lc n1 kn
      by (auto simp: tf_rep_def tf3_def updHeader_def tf_ok_def liveCells_def less_Suc_eq)
    moreover have "diskPage (tf_file tf3) k = Some p" using t2(3) a(3) lk by (simp add: tf3_def updHeader_def)
    ultimately show ?thesis
      using that [of tf3 p k] a t2 p n1 by (simp add: tf3_def updHeader_def)
  qed
qed

section \<open>The rows of a table\<close>

text \<open>
  A table file represents a list of rows with their IDs, in insertion order, when the cells along its page
  chain are the encodings of these rows and none of them has been deleted.
\<close>

definition rowCell :: "go_rt \<Rightarrow> u64 \<times> Value list \<Rightarrow> bytes \<times> bool" where
  "rowCell rt r = (EncodeRow rt (fst r) (snd r), True)"

definition rowOk :: "go_rt \<Rightarrow> Value list \<Rightarrow> bool" where
  "rowOk rt row \<longleftrightarrow> list_all (columnOk rt) row \<and> length (EncodeRow rt 0 row) \<le> MaxPageContentV2 - 100"

definition table_rep :: "go_rt \<Rightarrow> TableFile \<Rightarrow> (u64 \<times> Value list) list \<Rightarrow> bool" where
  "table_rep rt tf rows \<longleftrightarrow>
     (\<exists>chain. tf_rep tf chain \<and> concat (map snd chain) = map (rowCell rt) rows) \<and> list_all (\<lambda>r. rowOk rt (snd r)) rows"

lemma length_EncodeRow_id: "length (EncodeRow rt i row) = length (EncodeRow rt 0 row)"
  by (simp add: EncodeRow_def)

lemma InsertRow_chain:
  assumes rep: "tf_rep tf chain" and room: "unat (tfh_PageCount (tf_header tf)) + 1 < 2 ^ 32"
    and d: "d = EncodeRow rt (tf_nextID tf) row" and small: "length d \<le> MaxPageContentV2 - 100"
  obtains tf' chain' where "InsertRow rt row tf = (tf', Inr (tf_nextID tf))" "tf_rep tf' chain'"
    "concat (map snd chain') = concat (map snd chain) @ [(d, True)]" "tf_nextID tf' = tf_nextID tf + 1"
    "tfh_ColumnDefs (tf_header tf') = tfh_ColumnDefs (tf_header tf)"
    "unat (tfh_PageCount (tf_header tf')) \<le> unat (tfh_PageCount (tf_header tf)) + 1"
proof -
  note result = that
  let ?ID = "tf_nextID tf"
  define tf0 where "tf0 = tf\<lparr>tf_nextID := ?ID + 1\<rparr>"
  let ?k = "\<lambda>target. bindS (liftP (InsertRowToPage rt target ?ID row)) (\<lambda>(target, _) tf.
       bindS (writePage target) (\<lambda>_ tf.
         (updHeader (\<lambda>h. h\<lparr>tfh_RowCount := tfh_RowCount h + 1\<rparr>) (tf\<lparr>tf_dirty := True\<rparr>), Inr ?ID))
       (aliasPage target tf))"
  have small': "length d < 2 ^ 16 - 2" using small by (simp add: MaxPageContentV2_def)
  have rep0: "tf_rep tf0 chain" "tf_header tf0 = tf_header tf" using rep by (simp_all add: tf0_def tf_rep_def tf_ok_def)
  have ins: "InsertRow rt row tf = bindS (targetPage (length d)) ?k tf0"
    using small by (simp add: InsertRow_def Let_def d [symmetric] tf0_def)
  have fresh: thesis if new: "targetPage (length d) tf0 = newTargetPage tfa" "tf_rep tfa chain" "same_table tf0 tfa" for tfa
  proof -
    have ha: "tf_header tfa = tf_header tf" "tf_nextID tfa = ?ID + 1" using new(3) by (simp_all add: same_table_def tf0_def)
    obtain tf1 k p where t: "newTargetPage tfa = (tf1, Inr p)" "tf_rep tf1 (chain @ [(k, [])])"
      "diskPage (tf_file tf1) k = Some p" "page_rep p []" "tf_nextID tf1 = tf_nextID tfa"
      "tfh_ColumnDefs (tf_header tf1) = tfh_ColumnDefs (tf_header tfa)"
      "unat (tfh_PageCount (tf_header tf1)) = unat (tfh_PageCount (tf_header tfa)) + 1"
      by (rule newTargetPage_ok [OF new(2)]) (use room ha in simp_all)
    have "CanInsert p (length d)"
      using CanInsert_rep [OF t(4) small'] small by (simp add: cellBytes_def deadBytes_def MaxPageContentV2_def)
    then obtain tf2 where i: "?k p tf1 = (tf2, Inr ?ID)"
      "tf_rep tf2 (chain @ [(k, [] @ [(d, True)])])" "tf_nextID tf2 = tf_nextID tf1"
      "tfh_PageCount (tf_header tf2) = tfh_PageCount (tf_header tf1)" "tfh_ColumnDefs (tf_header tf2) = tfh_ColumnDefs (tf_header tf1)"
      by (rule insert_into_target [OF t(2,3) d small'])
    show ?thesis
    proof (rule result [of tf2 "chain @ [(k, [(d, True)])]"])
      show "InsertRow rt row tf = (tf2, Inr ?ID)" using ins new(1) t(1) i(1) by (simp add: bindS_def)
    qed (use i t ha in simp_all)
  qed
  show ?thesis
  proof (cases chain rule: rev_cases)
    case Nil
    then show ?thesis using fresh [of tf0] rep0 by (simp add: targetPage_def tf_rep_def)
  next
    case (snoc ch lc)
    obtain l cs where lc: "lc = (l, cs)" by (cases lc)
    have chain: "chainRep (diskPage (tf_file tf0)) (tfh_FirstDataPage (tf_header tf0)) (ch @ [(l, cs)])"
      and last: "tfh_LastDataPage (tf_header tf0) = l" and ok: "tf_ok tf0" and ln: "unat l < unat (tfh_PageCount (tf_header tf0))"
      using rep0(1) snoc lc by (simp_all add: tf_rep_def)
    obtain p where p: "diskPage (tf_file tf0) l = Some p" "hdr_PageID (Header p) = l" "page_rep p cs" "l \<noteq> 0"
      using chainRep_last [OF chain] by auto
    have l32: "unat l < 2 ^ 32" using ln unat_u32_less [of "tfh_PageCount (tf_header tf0)"] by simp
    obtain tfa where ra: "readPageNoLock l tf0 = (tfa, Inr p)" "tf_ok tfa" "same_table tf0 tfa"
      by (rule readPageNoLock_ok [OF ok l32 p(1,2)])
    have repa: "tf_rep tfa chain" by (rule tf_rep_same_table [OF rep0(1) ra(3,2)])
    have tgt: "targetPage (length d) tf0 = (if CanInsert p (length d) then (tfa, Inr p) else newTargetPage tfa)"
      using last p(4) ra(1) by (simp add: targetPage_def bindS_def returnS_def word_gt_0)
    show ?thesis
    proof (cases "CanInsert p (length d)")
      case True
      have pa: "diskPage (tf_file tfa) l = Some p" using p(1) ra(3) by (simp add: same_table_def)
      have repl: "tf_rep tfa (ch @ [(l, cs)])" using repa snoc lc by simp
      obtain tf2 where i: "?k p tfa = (tf2, Inr ?ID)" "tf_rep tf2 (ch @ [(l, cs @ [(d, True)])])" "tf_nextID tf2 = tf_nextID tfa"
        "tfh_PageCount (tf_header tf2) = tfh_PageCount (tf_header tfa)" "tfh_ColumnDefs (tf_header tf2) = tfh_ColumnDefs (tf_header tfa)"
        by (rule insert_into_target [OF repl pa d small' True])
      show ?thesis
      proof (rule result [of tf2 "ch @ [(l, cs @ [(d, True)])]"])
        show "InsertRow rt row tf = (tf2, Inr ?ID)" using ins tgt True i(1) by (simp add: bindS_def)
      qed (use i ra(3) snoc lc in \<open>simp_all add: same_table_def tf0_def\<close>)
    next
      case False
      then show ?thesis using fresh [of tfa] tgt repa ra(3) by simp
    qed
  qed
qed

section \<open>Scanning\<close>

text \<open>
  \<open>iter_at tf it cells chain\<close>: the iterator will deliver \<open>cells\<close> next, of which the pages in \<open>chain\<close> are
  still to be read. All cells are alive.
\<close>

definition iter_at :: "TableFile \<Rightarrow> RowIterator \<Rightarrow> cells \<Rightarrow> (u64 \<times> cells) list \<Rightarrow> bool" where
  "iter_at tf it cells rest \<longleftrightarrow>
     tf_ok tf \<and> it_err it = None \<and> (\<forall>i \<in> fst ` set rest. unat i < 2 ^ 32) \<and> list_all (\<lambda>ic. list_all snd (snd ic)) rest \<and>
     (\<exists>p cs i. it_page it = Some p \<and> i = (if it_started it then it_cellIdx it + 1 else it_cellIdx it) \<and>
        page_rep p cs \<and> list_all snd cs \<and> i \<le> length cs \<and> chainRep (diskPage (tf_file tf)) (hdr_RightPage (Header p)) rest \<and>
        cells = drop i cs @ concat (map snd rest))"

text \<open>\<open>iter_on tf it c cells chain\<close>: the iterator stands on the cell \<open>c\<close>, with \<open>cells\<close> to follow.\<close>

definition iter_on :: "TableFile \<Rightarrow> RowIterator \<Rightarrow> bytes \<times> bool \<Rightarrow> cells \<Rightarrow> (u64 \<times> cells) list \<Rightarrow> bool" where
  "iter_on tf it c cells rest \<longleftrightarrow>
     iter_at tf it cells rest \<and>
     (\<exists>p cs. it_page it = Some p \<and> page_rep p cs \<and> cellReadable cs (it_cellIdx it) \<and> cs ! it_cellIdx it = c)"

lemma nextLive_alive:
  assumes "page_rep p cs" "list_all snd cs" "i \<le> length cs"
  shows "nextLive p i (length cs - i) = Inr i"
proof (cases "i < length cs")
  case True
  then obtain n where n: "length cs - i = Suc n" by (metis Suc_diff_Suc)
  have "snd (cs ! i)" using assms(2) True by (simp add: list_all_length)
  with page_rep_pointer [OF assms(1) True] obtain w where w: "GetCellPointer p (int i) = Inr w" "unat w = cellStartOf cs i" by auto
  moreover have "0 < w" using w(2) cellStartOf_bounds(1) [OF assms(1) True] by (simp add: word_less_nat_alt)
  ultimately show ?thesis by (simp add: n)
qed (use assms(3) in simp)

lemma alive_readable: "list_all snd cs \<Longrightarrow> i < length cs \<Longrightarrow> cellReadable cs i"
  by (auto simp: cellReadable_def list_all_length)

lemma iter_at_same: "iter_at tf it cells rest \<Longrightarrow> same_table tf tf' \<Longrightarrow> tf_ok tf' \<Longrightarrow> iter_at tf' it cells rest"
  by (simp add: iter_at_def same_table_def)

lemma iterLoop_spec:
  assumes "iter_at tf it cells rest" "length rest < fuel"
  shows "\<exists>tf' it'. same_table tf tf' \<and> tf_ok tf' \<and>
     (case cells of
        [] \<Rightarrow> iterLoop fuel it tf = Some (tf', Inr (it', False)) \<and> it_err it' = None
      | c # cells' \<Rightarrow> iterLoop fuel it tf = Some (tf', Inr (it', True)) \<and>
          (\<exists>rest'. iter_on tf' it' c cells' rest' \<and> length rest' \<le> length rest))"
  using assms
proof (induction rest arbitrary: tf it fuel)
  case Nil
  then obtain p cs i where at: "tf_ok tf" "it_err it = None" "it_page it = Some p"
    "i = (if it_started it then it_cellIdx it + 1 else it_cellIdx it)" "page_rep p cs" "list_all snd cs" "i \<le> length cs"
    "hdr_RightPage (Header p) = 0" "cells = drop i cs"
    by (auto simp: iter_at_def)
  obtain f where f: "fuel = Suc f" using Nil(2) by (cases fuel) auto
  let ?it = "it\<lparr>it_started := True, it_cellIdx := i\<rparr>"
  have live: "nextLive p i (unat (hdr_CellCount (Header p)) - i) = Inr i" "unat (hdr_CellCount (Header p)) = length cs"
    using nextLive_alive [OF at(5,6,7)] page_repD(4) [OF at(5)] by simp_all
  show ?case
  proof (cases "i < length cs")
    case True
    then have c: "cells = cs ! i # drop (Suc i) cs" using at(9) by (simp add: Cons_nth_drop_Suc)
    have "iterLoop fuel it tf = Some (tf, Inr (?it, True))"
      using True at live by (simp add: f Let_def)
    moreover have "iter_on tf ?it (cs ! i) (drop (Suc i) cs) []"
      using at True alive_readable [OF at(6) True] by (auto simp: iter_on_def iter_at_def intro!: exI [of _ cs])
    ultimately show ?thesis using c at(1) same_table_refl [of tf] by auto
  next
    case False
    then have "iterLoop fuel it tf = Some (tf, Inr (?it\<lparr>it_pageID := 0, it_page := None\<rparr>, False))"
      using at live by (simp add: f Let_def)
    moreover have "cells = []" using False at(9) by simp
    ultimately show ?thesis using at(1,2) by (intro exI [of _ tf] exI) auto
  qed
next
  case (Cons ic rest)
  obtain k cs2 where ic: "ic = (k, cs2)" by (cases ic)
  from Cons(2) obtain p cs i where at: "tf_ok tf" "it_err it = None" "it_page it = Some p"
    "i = (if it_started it then it_cellIdx it + 1 else it_cellIdx it)" "page_rep p cs" "list_all snd cs" "i \<le> length cs"
    "chainRep (diskPage (tf_file tf)) (hdr_RightPage (Header p)) ((k, cs2) # rest)"
    "cells = drop i cs @ cs2 @ concat (map snd rest)" "\<forall>i \<in> fst ` set rest. unat i < 2 ^ 32" "unat k < 2 ^ 32"
    "list_all snd cs2" "list_all (\<lambda>ic. list_all snd (snd ic)) rest"
    by (auto simp: iter_at_def ic)
  obtain q where q: "diskPage (tf_file tf) k = Some q" "hdr_PageID (Header q) = k" "page_rep q cs2" "k \<noteq> 0"
    "chainRep (diskPage (tf_file tf)) (hdr_RightPage (Header q)) rest" "hdr_RightPage (Header p) = k"
    using at(8) by (auto split: option.splits)
  obtain f where f: "fuel = Suc f" using Cons(3) by (cases fuel) auto
  let ?it = "it\<lparr>it_started := True, it_cellIdx := i\<rparr>"
  have live: "nextLive p i (unat (hdr_CellCount (Header p)) - i) = Inr i" "unat (hdr_CellCount (Header p)) = length cs"
    using nextLive_alive [OF at(5,6,7)] page_repD(4) [OF at(5)] by simp_all
  show ?case
  proof (cases "i < length cs")
    case True
    then have c: "cells = cs ! i # drop (Suc i) cs @ cs2 @ concat (map snd rest)" using at(9) by (simp add: Cons_nth_drop_Suc)
    have "iterLoop fuel it tf = Some (tf, Inr (?it, True))"
      using True at live by (simp add: f Let_def)
    moreover have "iter_on tf ?it (cs ! i) (drop (Suc i) cs @ cs2 @ concat (map snd rest)) (ic # rest)"
      using at True alive_readable [OF at(6) True] by (auto simp: iter_on_def iter_at_def ic intro!: exI [of _ cs])
    ultimately show ?thesis using c at(1) same_table_refl [of tf] by auto
  next
    case False
    obtain tf1 where r: "readPage k tf = (tf1, Inr q)" "tf_ok tf1" "same_table tf tf1"
      by (rule readPage_ok [OF at(1,11) q(1,2)])
    let ?it2 = "?it\<lparr>it_pageID := k, it_page := Some q, it_cellIdx := 0, it_started := False\<rparr>"
    have step: "iterLoop fuel it tf = iterLoop f ?it2 tf1"
      using False at live q(4,6) r(1) by (simp add: f Let_def)
    have "iter_at tf1 ?it2 cells rest"
      using at q r False by (auto simp: iter_at_def same_table_def)
    from Cons(1) [OF this, of f] Cons(3) f obtain tf' it' where IH: "same_table tf1 tf'" "tf_ok tf'"
      "case cells of
        [] \<Rightarrow> iterLoop f ?it2 tf1 = Some (tf', Inr (it', False)) \<and> it_err it' = None
      | c # cells' \<Rightarrow> iterLoop f ?it2 tf1 = Some (tf', Inr (it', True)) \<and>
          (\<exists>rest'. iter_on tf' it' c cells' rest' \<and> length rest' \<le> length rest)"
      by auto
    then show ?thesis
      using same_table_trans [OF r(3) IH(1)] by (intro exI [of _ tf'] exI [of _ it']) (auto simp: step split: list.splits intro: le_SucI)
  qed
qed

lemma collectRows_spec:
  assumes "iter_at tf it cells rest" "length rest < k" "length cells < fuel"
    and "\<forall>c \<in> set cells. DecodeRow (fst c) (colDefsOf tf) = Inr (g c)"
  shows "\<exists>tf'. collectRows k fuel it tf = Some (tf', Inr (map g cells)) \<and> same_table tf tf' \<and> tf_ok tf'"
  using assms
proof (induction cells arbitrary: tf it rest fuel)
  case Nil
  obtain f where f: "fuel = Suc f" using Nil(3) by (cases fuel) auto
  have nx: "Next k it tf = iterLoop k it tf" using Nil(1) by (auto simp: Next_def iter_at_def)
  obtain tf' it' where "same_table tf tf'" "tf_ok tf'" "iterLoop k it tf = Some (tf', Inr (it', False))" "it_err it' = None"
    using iterLoop_spec [OF Nil(1,2)] by auto
  then show ?case by (intro exI [of _ tf']) (simp add: f nx)
next
  case (Cons c cells)
  obtain f where f: "fuel = Suc f" using Cons(4) by (cases fuel) auto
  have nx: "Next k it tf = iterLoop k it tf" using Cons(2) by (auto simp: Next_def iter_at_def)
  obtain tf1 it1 rest1 where i: "same_table tf tf1" "tf_ok tf1" "iterLoop k it tf = Some (tf1, Inr (it1, True))"
    "iter_on tf1 it1 c cells rest1" "length rest1 \<le> length rest"
    using iterLoop_spec [OF Cons(2,3)] by auto
  have cd: "colDefsOf tf1 = colDefsOf tf" using i(1) by (simp add: same_table_def colDefsOf_def)
  have row: "iterRow it1 tf1 = Inr (g c)"
    using i(4) Cons(5) cd by (auto simp: iter_on_def iter_at_def iterRow_def GetRowFromPage_rep)
  obtain tf' where "collectRows k f it1 tf1 = Some (tf', Inr (map g cells))" "same_table tf1 tf'" "tf_ok tf'"
    using Cons(1) [of tf1 it1 rest1 f] i Cons(3,4,5) cd f by (auto simp: iter_on_def)
  with i row same_table_trans [OF i(1)] show ?case by (intro exI [of _ tf']) (simp add: f nx)
qed

lemma chain_length: "tf_rep tf chain \<Longrightarrow> length chain < unat (tfh_PageCount (tf_header tf))"
proof -
  assume rep: "tf_rep tf chain"
  let ?n = "unat (tfh_PageCount (tf_header tf))"
  have "unat ` set (map fst chain) \<subseteq> {1..<?n}"
  proof
    fix x assume "x \<in> unat ` set (map fst chain)"
    then obtain i cs where "x = unat i" "(i, cs) \<in> set chain" by auto
    with rep chainRep_mem [of "diskPage (tf_file tf)" _ chain i cs] show "x \<in> {1..<?n}"
      by (force simp: tf_rep_def unat_eq_0 Suc_le_eq unat_gt_0)
  qed
  moreover have "card (unat ` set (map fst chain)) = length chain"
  proof -
    have "distinct (map fst chain)" using rep by (simp add: tf_rep_def)
    then have "card (set (map fst chain)) = length chain" by (metis distinct_card length_map)
    moreover have "inj_on unat (set (map fst chain))" by (simp add: inj_on_def word_unat_eq_iff)
    ultimately show ?thesis by (metis card_image)
  qed
  ultimately have "length chain \<le> ?n - 1"
    using card_mono [of "{1..<?n}" "unat ` set (map fst chain)"] by simp
  moreover have "0 < ?n" using rep by (simp add: tf_rep_def tf_ok_def)
  ultimately show ?thesis by linarith
qed

lemma scan_chain:
  assumes rep: "tf_rep tf chain" and alive: "list_all snd (concat (map snd chain))"
    and k: "unat (tfh_PageCount (tf_header tf)) \<le> k" and fuel: "length (concat (map snd chain)) < fuel"
    and dec: "\<forall>c \<in> set (concat (map snd chain)). DecodeRow (fst c) (colDefsOf tf) = Inr (g c)"
  shows "\<exists>tf'. collectRows k fuel (ScanRows tf) tf = Some (tf', Inr (map g (concat (map snd chain)))) \<and> same_table tf tf' \<and> tf_ok tf'"
proof (cases chain)
  case Nil
  obtain f j where f: "fuel = Suc f" "k = Suc j"
    using fuel k rep by (cases fuel; cases k) (auto simp: tf_rep_def tf_ok_def)
  show ?thesis using rep Nil
    by (intro exI [of _ tf]) (simp add: f tf_rep_def ScanRows_def Next_def)
next
  case (Cons ic rest)
  obtain i cs where ic: "ic = (i, cs)" by (cases ic)
  have ok: "tf_ok tf" and first: "tfh_FirstDataPage (tf_header tf) = i" "i \<noteq> 0"
    and ids: "\<forall>j \<in> fst ` set chain. unat j < unat (tfh_PageCount (tf_header tf))"
    using rep Cons ic by (simp_all add: tf_rep_def)
  obtain p where p: "diskPage (tf_file tf) i = Some p" "hdr_PageID (Header p) = i" "page_rep p cs"
    "chainRep (diskPage (tf_file tf)) (hdr_RightPage (Header p)) rest"
    using rep Cons ic by (auto simp: tf_rep_def split: option.splits)
  have small: "unat j < 2 ^ 32" if "j \<in> fst ` set chain" for j
    using ids that unat_u32_less [of "tfh_PageCount (tf_header tf)"] by (meson less_trans)
  obtain tf1 where r: "readPage i tf = (tf1, Inr p)" "tf_ok tf1" "same_table tf tf1"
    using readPage_ok [OF ok small p(1,2)] Cons ic by auto
  let ?it = "(ScanRows tf)\<lparr>it_page := Some p, it_cellIdx := 0\<rparr>"
  have "list_all snd cs" "list_all (\<lambda>ic. list_all snd (snd ic)) rest" using alive Cons ic by (auto simp: list_all_iff)
  moreover have "\<forall>j \<in> fst ` set rest. unat j < 2 ^ 32" using small Cons by auto
  moreover have "chainRep (diskPage (tf_file tf1)) (hdr_RightPage (Header p)) rest" using p(4) r(3) by (simp add: same_table_def)
  ultimately have at: "iter_at tf1 ?it (cs @ concat (map snd rest)) rest"
    using r(2) p(3) by (auto simp: iter_at_def ScanRows_def)
  have "Next k (ScanRows tf) tf = Next k ?it tf1"
    using first r(1) by (auto simp: Next_def ScanRows_def word_gt_0)
  then have "collectRows k fuel (ScanRows tf) tf = collectRows k fuel ?it tf1"
    by (cases fuel) simp_all
  moreover have "length rest < k" using chain_length [OF rep] k Cons by simp
  ultimately show ?thesis
    using collectRows_spec [OF at, of k fuel g] fuel dec Cons ic r(3) same_table_trans [OF r(3)]
    by (auto simp: colDefsOf_def same_table_def)
qed

section \<open>Searching by row ID\<close>

lemma find_index_Some: "find_index P xs = Some i \<Longrightarrow> i < length xs \<and> P (xs ! i) \<and> List.find P xs = Some (xs ! i)"
  by (induction xs arbitrary: i) (auto split: if_splits)

lemma find_index_None: "find_index P xs = None \<longleftrightarrow> List.find P xs = None"
  by (induction xs) auto

lemma find_append: "List.find P (xs @ ys) = (case List.find P xs of None \<Rightarrow> List.find P ys | Some x \<Rightarrow> Some x)"
  by (induction xs) auto

lemma findCell_upt:
  "(\<And>j. i \<le> j \<Longrightarrow> j < n \<Longrightarrow> cellRowID p cds j = Inr (h j)) \<Longrightarrow>
   findCell p cds rowID [i..<n] = Inr (map_option (\<lambda>k. k + i) (find_index (\<lambda>j. h j = rowID) [i..<n]))"
proof (induction "n - i" arbitrary: i)
  case (Suc m)
  then have i: "i < n" by simp
  have IH: "findCell p cds rowID [Suc i..<n] = Inr (map_option (\<lambda>k. k + Suc i) (find_index (\<lambda>j. h j = rowID) [Suc i..<n]))"
    using Suc by simp
  show ?case
    unfolding upt_conv_Cons [OF i] using IH Suc(3) [of i] i by (simp add: option.map_comp o_def)
qed simp

lemma find_index_map: "find_index P (map f xs) = find_index (\<lambda>x. P (f x)) xs"
  by (induction xs) simp_all

lemma findCell_page:
  assumes rep: "page_rep p cs" and alive: "list_all snd cs" and dec: "\<forall>c \<in> set cs. DecodeRow (fst c) cds = Inr (g c)"
  shows "findCell p cds rowID (cellIndices p) = Inr (find_index (\<lambda>c. fst (g c) = rowID) cs)"
proof -
  have "cellRowID p cds j = Inr (fst (g (cs ! j)))" if "j < length cs" for j
    using GetCellData_rep [OF rep alive_readable [OF alive that]] dec that by (simp add: cellRowID_def split: prod.split)
  from findCell_upt [of 0 "length cs" p cds "\<lambda>j. fst (g (cs ! j))" rowID] this
  have "findCell p cds rowID [0..<length cs] = Inr (find_index (\<lambda>j. fst (g (cs ! j)) = rowID) [0..<length cs])"
    by (simp add: map_option.identity)
  also have "find_index (\<lambda>j. fst (g (cs ! j)) = rowID) [0..<length cs] = find_index (\<lambda>c. fst (g c) = rowID) (map ((!) cs) [0..<length cs])"
    by (simp add: find_index_map)
  finally show ?thesis using page_repD(4) [OF rep] by (simp add: cellIndices_def map_nth)
qed

lemma scanFor_spec:
  assumes "tf_ok tf" "chainRep (diskPage (tf_file tf)) k chain" "\<forall>j \<in> fst ` set chain. unat j < 2 ^ 32"
    and "list_all snd (concat (map snd chain))" "\<forall>c \<in> set (concat (map snd chain)). DecodeRow (fst c) (colDefsOf tf) = Inr (g c)"
    and "length chain < fuel"
  shows "\<exists>tf'. same_table tf tf' \<and> tf_ok tf' \<and>
    (case List.find (\<lambda>c. fst (g c) = rowID) (concat (map snd chain)) of
       None \<Rightarrow> scanFor readPage act rowID fuel k tf = Some (tf', Inl (TFRowNotFound rowID))
     | Some c \<Rightarrow> (\<exists>pid p cs i. scanFor readPage act rowID fuel k tf = Some (act pid p i tf') \<and> page_rep p cs \<and>
         cellReadable cs i \<and> cs ! i = c))"
  using assms
proof (induction chain arbitrary: tf k fuel)
  case Nil
  then obtain f where "fuel = Suc f" by (cases fuel) auto
  with Nil show ?case by (intro exI [of _ tf]) simp
next
  case (Cons ic rest)
  obtain i cs where ic: "ic = (i, cs)" by (cases ic)
  obtain f where f: "fuel = Suc f" using Cons(7) by (cases fuel) auto
  obtain p where p: "diskPage (tf_file tf) i = Some p" "hdr_PageID (Header p) = i" "page_rep p cs" "k = i" "i \<noteq> 0"
    "chainRep (diskPage (tf_file tf)) (hdr_RightPage (Header p)) rest"
    using Cons(3) ic by (auto split: option.splits)
  obtain tf1 where r: "readPage i tf = (tf1, Inr p)" "tf_ok tf1" "same_table tf tf1"
    using readPage_ok [OF Cons(2) _ p(1,2)] Cons(4) ic by auto
  have alive: "list_all snd cs" "list_all snd (concat (map snd rest))" using Cons(5) ic by simp_all
  have cd: "colDefsOf tf1 = colDefsOf tf" using r(3) by (simp add: same_table_def colDefsOf_def)
  have find: "findCell p (colDefsOf tf1) rowID (cellIndices p) = Inr (find_index (\<lambda>c. fst (g c) = rowID) cs)"
    using findCell_page [OF p(3) alive(1), of "colDefsOf tf1" g] Cons(6) ic cd by simp
  show ?case
  proof (cases "find_index (\<lambda>c. fst (g c) = rowID) cs")
    case None
    have step: "scanFor readPage act rowID fuel k tf = scanFor readPage act rowID f (hdr_RightPage (Header p)) tf1"
      using p(4,5) r(1) find None by (simp add: f)
    have fnd: "List.find (\<lambda>c. fst (g c) = rowID) (concat (map snd (ic # rest))) =
        List.find (\<lambda>c. fst (g c) = rowID) (concat (map snd rest))"
      using None by (simp add: ic find_append find_index_None)
    have "\<exists>tf'. same_table tf1 tf' \<and> tf_ok tf' \<and>
      (case List.find (\<lambda>c. fst (g c) = rowID) (concat (map snd rest)) of
         None \<Rightarrow> scanFor readPage act rowID f (hdr_RightPage (Header p)) tf1 = Some (tf', Inl (TFRowNotFound rowID))
       | Some c \<Rightarrow> (\<exists>pid p' cs i. scanFor readPage act rowID f (hdr_RightPage (Header p)) tf1 = Some (act pid p' i tf') \<and>
           page_rep p' cs \<and> cellReadable cs i \<and> cs ! i = c))"
      by (rule Cons(1)) (use Cons(4,6,7) ic p(6) r alive(2) cd f in \<open>auto simp: same_table_def\<close>)
    then show ?thesis unfolding fnd step using same_table_trans [OF r(3)] by blast
  next
    case (Some j)
    note j = find_index_Some [OF Some]
    have "scanFor readPage act rowID fuel k tf = Some (act i p j tf1)"
      using p(4,5) r(1) find Some by (simp add: f)
    moreover have "List.find (\<lambda>c. fst (g c) = rowID) (concat (map snd (ic # rest))) = Some (cs ! j)"
      using j by (simp add: ic find_append)
    moreover have "cellReadable cs j" using j alive_readable [OF alive(1)] by blast
    ultimately show ?thesis using r(2,3) p(3) by (intro exI [of _ tf1]) (simp del: scanFor.simps, blast)
  qed
qed

section \<open>The header page\<close>

lemma headerFields_concat:
  assumes "length (tfh_Magic h) = 8"
  shows "headerFields h =
    (tfh_Magic h @ le_bytes 2 (tfh_Version h) @ le_bytes 8 (tfh_TableID h) @ le_bytes 2 (tfh_PageSize h) @
     le_bytes 4 (tfh_PageCount h) @ le_bytes 8 (tfh_RootPage h) @ le_bytes 8 (tfh_FirstDataPage h) @
     le_bytes 8 (tfh_LastDataPage h) @ le_bytes 8 (tfh_FreePageList h) @ le_bytes 8 (tfh_RowCount h)) @
    replicate (PageSize16KB - 64) 0"
  using assms
  by (simp add: headerFields_def Let_def copy_at_zeros copy_at_zeros_0 PageSize16KB_def del: append_assoc)

text \<open>The column definitions fit behind the fixed fields.\<close>

definition columnsFit :: "(ColumnDef list \<Rightarrow> bytes option) \<Rightarrow> ColumnDef list option \<Rightarrow> bool" where
  "columnsFit jsonMarshal cols \<longleftrightarrow>
     (case cols of
        None \<Rightarrow> True
      | Some cs \<Rightarrow> (case jsonMarshal cs of None \<Rightarrow> False | Some d \<Rightarrow> 0 < length d \<and> length d \<le> PageSize16KB - 66))"

definition columnBytes :: "(ColumnDef list \<Rightarrow> bytes option) \<Rightarrow> ColumnDef list option \<Rightarrow> bytes" where
  "columnBytes jsonMarshal cols = (case cols of None \<Rightarrow> [] | Some cs \<Rightarrow> (case jsonMarshal cs of None \<Rightarrow> [] | Some d \<Rightarrow> d))"

lemma headerData_concat:
  assumes "length (tfh_Magic h) = 8" "columnsFit jsonMarshal (tfh_ColumnDefs h)"
  shows "headerData jsonMarshal h = Inr
    (tfh_Magic h @ le_bytes 2 (tfh_Version h) @ le_bytes 8 (tfh_TableID h) @ le_bytes 2 (tfh_PageSize h) @
     le_bytes 4 (tfh_PageCount h) @ le_bytes 8 (tfh_RootPage h) @ le_bytes 8 (tfh_FirstDataPage h) @
     le_bytes 8 (tfh_LastDataPage h) @ le_bytes 8 (tfh_FreePageList h) @ le_bytes 8 (tfh_RowCount h) @
     le_bytes 2 (of_nat (length (columnBytes jsonMarshal (tfh_ColumnDefs h))) :: u16) @
     columnBytes jsonMarshal (tfh_ColumnDefs h) @
     replicate (PageSize16KB - 66 - length (columnBytes jsonMarshal (tfh_ColumnDefs h))) 0)"
proof (cases "tfh_ColumnDefs h")
  case None
  have "replicate (PageSize16KB - 64) (0 :: byte) = le_bytes 2 (0 :: u16) @ replicate (PageSize16KB - 66) 0"
    by (simp add: PageSize16KB_def le_bytes_def numeral_2_eq_2 replicate_add [of 2, symmetric, simplified numeral_2_eq_2]
        flip: replicate_Suc)
  then show ?thesis using None by (simp add: headerData_def headerFields_concat [OF assms(1)] columnBytes_def)
next
  case (Some cs)
  then obtain d where d: "jsonMarshal cs = Some d" "length d \<le> PageSize16KB - 66"
    using assms(2) by (auto simp: columnsFit_def split: option.splits)
  then show ?thesis
    using Some assms(1)
    by (simp add: headerData_def headerFields_concat [OF assms(1)] columnBytes_def copy_at_zeros PageSize16KB_def
        del: append_assoc)
qed

lemma length_TableFileMagic [simp]: "length TableFileMagic = 8"
  by (simp add: TableFileMagic_def)

lemma headerData_length:
  assumes "length (tfh_Magic h) = 8" "columnsFit jm (tfh_ColumnDefs h)" "headerData jm h = Inr d"
  shows "length d = PageSize16KB"
proof -
  have "length (columnBytes jm (tfh_ColumnDefs h)) \<le> PageSize16KB - 66"
    using assms(2) by (auto simp: columnsFit_def columnBytes_def split: option.splits)
  then show ?thesis using assms(3) headerData_concat [OF assms(1,2)] assms(1) by (auto simp: PageSize16KB_def)
qed

lemma readHeader_headerData:
  assumes magic: "tfh_Magic h = TableFileMagic" and fit: "columnsFit jm (tfh_ColumnDefs h)"
    and json: "\<And>cs d. tfh_ColumnDefs h = Some cs \<Longrightarrow> jm cs = Some d \<Longrightarrow> ju d = Some cs"
    and d: "headerData jm h = Inr d" and f: "fileReadAt (tf_file tf) PageSize16KB 0 = Some d"
    and z: "tfh_ColumnDefs (tf_header tf) = None"
  shows "readHeader ju tf = (tf\<lparr>tf_header := h\<rparr>, Inr ())"
proof -
  let ?c = "columnBytes jm (tfh_ColumnDefs h)"
  have len: "length ?c \<le> PageSize16KB - 66"
    using fit by (auto simp: columnsFit_def columnBytes_def split: option.splits)
  have m8: "length (tfh_Magic h) = 8" using magic by simp
  note dc = headerData_concat [OF m8 fit, unfolded d]
  have n: "unat (of_nat (length ?c) :: u16) = length ?c" using len by (simp add: unat_of_nat PageSize16KB_def)
  have e: "unat (66 + of_nat (length ?c) :: u16) = 66 + length ?c"
    using len by (simp add: unat_word_ariths unat_of_nat PageSize16KB_def)
  have sl: "slice 0 8 d = TableFileMagic" "slice 8 10 d = le_bytes 2 (tfh_Version h)" "slice 10 18 d = le_bytes 8 (tfh_TableID h)"
    "slice 18 20 d = le_bytes 2 (tfh_PageSize h)" "slice 20 24 d = le_bytes 4 (tfh_PageCount h)"
    "slice 24 32 d = le_bytes 8 (tfh_RootPage h)" "slice 32 40 d = le_bytes 8 (tfh_FirstDataPage h)"
    "slice 40 48 d = le_bytes 8 (tfh_LastDataPage h)" "slice 48 56 d = le_bytes 8 (tfh_FreePageList h)"
    "slice 56 64 d = le_bytes 8 (tfh_RowCount h)" "slice 64 66 d = le_bytes 2 (of_nat (length ?c) :: u16)"
    "slice 66 (66 + length ?c) d = ?c"
    using dc magic by (simp_all add: slice_def)
  have words: "le_word (slice 8 10 d) = tfh_Version h" "le_word (slice 10 18 d) = tfh_TableID h"
    "le_word (slice 18 20 d) = tfh_PageSize h" "le_word (slice 20 24 d) = tfh_PageCount h"
    "le_word (slice 24 32 d) = tfh_RootPage h" "le_word (slice 32 40 d) = tfh_FirstDataPage h"
    "le_word (slice 40 48 d) = tfh_LastDataPage h" "le_word (slice 48 56 d) = tfh_FreePageList h"
    "le_word (slice 56 64 d) = tfh_RowCount h" "le_word (slice 64 66 d) = (of_nat (length ?c) :: u16)"
    unfolding sl by (simp_all add: le_word_le_bytes)
  show ?thesis
  proof (cases "tfh_ColumnDefs h")
    case None
    then have "?c = []" by (simp add: columnBytes_def)
    then show ?thesis using f words sl(1) magic None z by (simp add: readHeader_def Let_def)
  next
    case (Some cs)
    with fit obtain b where b: "jm cs = Some b" "?c = b" "0 < length b"
      by (auto simp: columnsFit_def columnBytes_def split: option.splits)
    have "0 < (of_nat (length ?c) :: u16)" using n b by (simp add: word_less_nat_alt)
    moreover have "\<not> (66 + of_nat (length ?c) :: u16) < 66" "\<not> PageSize16KB < unat (66 + of_nat (length ?c) :: u16)"
      using e len by (simp_all add: word_less_nat_alt PageSize16KB_def)
    moreover have "ju ?c = Some cs" using json [OF Some b(1)] b(2) by simp
    ultimately show ?thesis
      using f words sl(1) magic Some e sl(12) by (simp add: readHeader_def Let_def)
  qed
qed

section \<open>Properties\<close>

lemma chainRep_agree:
  "chainRep m k chain \<Longrightarrow> (\<And>i. i \<in> fst ` set chain \<Longrightarrow> m' i = m i) \<Longrightarrow> chainRep m' k chain"
  by (induction chain arbitrary: k) (auto split: option.splits)

lemma Page_FromBytes_total: "length d = PageSize16KB \<Longrightarrow> \<exists>p. Page_FromBytes q d = Inr p"
  by (simp add: Page_FromBytes_def)

lemma writeHeader_ok:
  assumes magic: "tfh_Magic (tf_header tf) = TableFileMagic" and fit: "columnsFit jm (tfh_ColumnDefs (tf_header tf))"
    and w: "file_writable (tf_file tf)" and len: "length (file_bytes (tf_file tf)) = n * PageSize16KB"
  obtains f' d p where "writeHeader jm tf = (tf\<lparr>tf_file := f', tf_dirty := False\<rparr>, Inr ())" "headerData jm (tf_header tf) = Inr d"
    "fileReadAt f' PageSize16KB 0 = Some d" "file_writable f'" "length (file_bytes f') = max n 1 * PageSize16KB"
    "diskPage f' = (diskPage (tf_file tf))(0 \<mapsto> p)"
proof -
  have m8: "length (tfh_Magic (tf_header tf)) = 8" using magic by simp
  obtain d where d: "headerData jm (tf_header tf) = Inr d" using headerData_concat [OF m8 fit] by blast
  have ld: "length d = PageSize16KB" by (rule headerData_length [OF m8 fit d])
  obtain p where p: "Page_FromBytes zeroPage d = Inr p" using Page_FromBytes_total [OF ld] by blast
  have z: "unat (0 :: u64) \<le> n" "unat (0 :: u64) < 2 ^ 32" by simp_all
  obtain f' where f': "fileWriteAt (tf_file tf) d (pageOffset 0) = Some f'"
    "file_bytes f' = take (unat (0 :: u64) * PageSize16KB) (file_bytes (tf_file tf)) @ d @
       drop (unat (0 :: u64) * PageSize16KB + PageSize16KB) (file_bytes (tf_file tf))"
    "file_writable f'" "length (file_bytes f') = max n (unat (0 :: u64) + 1) * PageSize16KB"
    "diskPage f' = (diskPage (tf_file tf))(0 \<mapsto> p)"
    by (rule diskPage_write_bytes [OF len z w ld p])
  have "pageOffset 0 = 0" by (simp add: pageOffset_def)
  then show ?thesis
    using that [of f' d p] f' d ld by (simp add: writeHeader_def fileReadAt_def slice_def)
qed

lemma find_map: "List.find P (map f xs) = map_option f (List.find (\<lambda>x. P (f x)) xs)"
  by (induction xs) simp_all

lemma map_of_find: "map_of rows k = map_option snd (List.find (\<lambda>r. fst r = k) rows)"
  by (induction rows) auto

lemma table_repE:
  assumes "table_rep rt tf rows"
  obtains chain where "tf_rep tf chain" "concat (map snd chain) = map (rowCell rt) rows"
    "list_all snd (concat (map snd chain))"
    "\<forall>r \<in> set rows. DecodeRow (fst (rowCell rt r)) (colDefsOf tf) = Inr (fst r, map (storedColumn rt) (snd r))"
proof -
  obtain chain where c: "tf_rep tf chain" "concat (map snd chain) = map (rowCell rt) rows" "list_all (\<lambda>r. rowOk rt (snd r)) rows"
    using assms by (auto simp: table_rep_def)
  have "DecodeRow (fst (rowCell rt r)) (colDefsOf tf) = Inr (fst r, map (storedColumn rt) (snd r))" if "r \<in> set rows" for r
  proof -
    have ok: "rowOk rt (snd r)" using c(3) that by (simp add: list_all_iff)
    then have "length (snd r) < 2 ^ 16"
      using length_EncodeRow_ge [of "snd r" rt 0] by (simp add: rowOk_def MaxPageContentV2_def)
    with ok show ?thesis by (simp add: rowCell_def DecodeRow_EncodeRow rowOk_def)
  qed
  moreover have "list_all snd (concat (map snd chain))" unfolding c(2) by (simp add: list_all_iff rowCell_def)
  ultimately show ?thesis using that c by blast
qed

lemma InsertRow_table:
  assumes rep: "table_rep rt tf rows" and row: "rowOk rt row" and room: "unat (tfh_PageCount (tf_header tf)) + 1 < 2 ^ 32"
  shows "\<exists>tf'. InsertRow rt row tf = (tf', Inr (tf_nextID tf)) \<and> table_rep rt tf' (rows @ [(tf_nextID tf, row)]) \<and>
           GetRowCount tf' = of_nat (length rows + 1) \<and> tf_nextID tf' = tf_nextID tf + 1"
proof -
  obtain chain where c: "tf_rep tf chain" "concat (map snd chain) = map (rowCell rt) rows" "list_all (\<lambda>r. rowOk rt (snd r)) rows"
    using rep by (auto simp: table_rep_def)
  have small: "length (EncodeRow rt (tf_nextID tf) row) \<le> MaxPageContentV2 - 100"
    using row length_EncodeRow_id [of rt "tf_nextID tf" row] by (simp add: rowOk_def)
  obtain tf' chain' where i: "InsertRow rt row tf = (tf', Inr (tf_nextID tf))" "tf_rep tf' chain'"
    "concat (map snd chain') = concat (map snd chain) @ [(EncodeRow rt (tf_nextID tf) row, True)]" "tf_nextID tf' = tf_nextID tf + 1"
    by (rule InsertRow_chain [OF c(1) room refl small])
  have cells: "concat (map snd chain') = map (rowCell rt) (rows @ [(tf_nextID tf, row)])"
    using i(3) c(2) by (simp add: rowCell_def)
  have "liveCells chain' = length rows + 1" unfolding liveCells_def cells by (simp add: rowCell_def o_def)
  then have "GetRowCount tf' = of_nat (length rows + 1)" using i(2) by (simp add: GetRowCount_def tf_rep_def)
  moreover have "table_rep rt tf' (rows @ [(tf_nextID tf, row)])"
    using i(2) cells c(3) row by (auto simp: table_rep_def)
  ultimately show ?thesis using i by blast
qed

lemma CreateTableFile_table:
  assumes fit: "columnsFit jsonMarshal columns" and cache: "cacheOk cache" "cacheLookup cache = Map.empty"
  shows "\<exists>tf. CreateTableFile jsonMarshal None cache nextID tableID columns = Inr tf \<and> table_rep rt tf [] \<and>
           GetColumnDefs tf = columns \<and> TableFile_PageCount tf = 1 \<and> tf_nextID tf = nextID"
proof -
  define h where "h = zeroHeader\<lparr>tfh_Magic := TableFileMagic, tfh_Version := TableFileVersion, tfh_TableID := tableID,
    tfh_PageSize := of_nat PageSize16KB, tfh_PageCount := 1, tfh_ColumnDefs := columns, tfh_RowCount := 0\<rparr>"
  define tf0 where "tf0 = \<lparr>tf_file = \<lparr>file_bytes = [], file_writable = True\<rparr>, tf_header = h, tf_cache = cache,
    tf_dirty = True, tf_nextID = nextID\<rparr>"
  have "length (file_bytes (tf_file tf0)) = 0 * PageSize16KB" "file_writable (tf_file tf0)" by (simp_all add: tf0_def)
  moreover have "tfh_Magic (tf_header tf0) = TableFileMagic" "columnsFit jsonMarshal (tfh_ColumnDefs (tf_header tf0))"
    using fit by (simp_all add: tf0_def h_def)
  ultimately obtain f' where w: "writeHeader jsonMarshal tf0 = (tf0\<lparr>tf_file := f', tf_dirty := False\<rparr>, Inr ())"
    "file_writable f'" "length (file_bytes f') = max 0 1 * PageSize16KB"
    using writeHeader_ok [of tf0 jsonMarshal 0] by metis
  let ?tf = "tf0\<lparr>tf_file := f', tf_dirty := False\<rparr>"
  have "tf_rep ?tf []"
    using w cache by (simp add: tf_rep_def tf_ok_def tf0_def h_def zeroHeader_def liveCells_def)
  then have "table_rep rt ?tf []" by (auto simp: table_rep_def)
  moreover have "CreateTableFile jsonMarshal None cache nextID tableID columns = Inr ?tf"
    using w(1) by (simp add: CreateTableFile_def Let_def h_def [symmetric] tf0_def [symmetric])
  ultimately show ?thesis
    by (auto simp: GetColumnDefs_def TableFile_PageCount_def tf0_def h_def)
qed

text \<open>A new table and the same table with one row, on which the witnesses run.\<close>

definition sampleTable :: TableFile where
  "sampleTable = projr (CreateTableFile (\<lambda>_. Some [91, 93]) None None 1 7 (Some []))"

definition sampleTable1 :: TableFile where
  "sampleTable1 = fst (InsertRow rt_plain [NewIntValue 5] sampleTable)"

lemma sample_row_ok: "rowOk rt_plain [NewIntValue 5]"
  using EncodeRow_one_int(2) [of rt_plain 5] by (simp add: rowOk_def EncodeRow_one_int(1) MaxPageContentV2_def)

lemma sample_fits: "columnsFit (\<lambda>_. Some [91, 93]) (Some [])" "cacheOk None"
  by (simp_all add: columnsFit_def PageSize16KB_def cacheOk_def)

lemma sampleTable_rep: "table_rep rt_plain sampleTable []" "TableFile_PageCount sampleTable = 1" "tf_nextID sampleTable = 1"
  using CreateTableFile_table [OF sample_fits cacheLookup_simps(1), of 1 7 rt_plain] by (auto simp: sampleTable_def)

lemma sampleTable1_rep: "table_rep rt_plain sampleTable1 [(1, [NewIntValue 5])]"
  using InsertRow_table [OF sampleTable_rep(1) sample_row_ok] sampleTable_rep(2,3)
  by (auto simp: sampleTable1_def TableFile_PageCount_def)



lemma GetAllRowsWithIDs_table:
  assumes rep: "table_rep rt tf rows" and k: "unat (tfh_PageCount (tf_header tf)) \<le> k" and fuel: "length rows < fuel"
  shows "\<exists>tf'. GetAllRowsWithIDs k fuel tf = Some (tf', Inr (map (\<lambda>r. (fst r, map (storedColumn rt) (snd r))) rows)) \<and>
           table_rep rt tf' rows"
proof -
  obtain chain where c: "tf_rep tf chain" "concat (map snd chain) = map (rowCell rt) rows" "list_all snd (concat (map snd chain))"
    "\<forall>r \<in> set rows. DecodeRow (fst (rowCell rt r)) (colDefsOf tf) = Inr (fst r, map (storedColumn rt) (snd r))"
    by (rule table_repE [OF rep])
  define g where "g = (\<lambda>c :: bytes \<times> bool. projr (DecodeRow (fst c) (colDefsOf tf)))"
  have dec: "\<forall>c \<in> set (concat (map snd chain)). DecodeRow (fst c) (colDefsOf tf) = Inr (g c)"
    unfolding c(2) using c(4) by (auto simp: g_def)
  have f: "length (concat (map snd chain)) < fuel" unfolding c(2) using fuel by simp
  obtain tf' where t: "collectRows k fuel (ScanRows tf) tf = Some (tf', Inr (map g (concat (map snd chain))))" "same_table tf tf'" "tf_ok tf'"
    using scan_chain [OF c(1,3) k f dec] by blast
  have "map g (concat (map snd chain)) = map (\<lambda>r. (fst r, map (storedColumn rt) (snd r))) rows"
    unfolding c(2) using c(4) by (simp add: g_def)
  moreover have "table_rep rt tf' rows"
    using rep tf_rep_same_table [OF _ t(2,3)] by (auto simp: table_rep_def)
  ultimately show ?thesis using t(1) by (auto simp: GetAllRowsWithIDs_def)
qed



text \<open>
  \<^verbatim>\<open>GetRow\<close> returns the first row with the given ID in stored form, and reports that the row is not found
  exactly when no row has that ID; it terminates with one step of fuel per page.
\<close>
theorem get_row_finds_row:
  assumes rep: "table_rep rt tf rows" and fuel: "unat (tfh_PageCount (tf_header tf)) \<le> fuel"
  shows "\<exists>tf'. table_rep rt tf' rows \<and> GetRow fuel rowID tf =
     Some (tf', case map_of rows rowID of None \<Rightarrow> Inl (TFRowNotFound rowID) | Some row \<Rightarrow> Inr (map (storedColumn rt) row))"
proof -
  obtain chain where c: "tf_rep tf chain" "concat (map snd chain) = map (rowCell rt) rows" "list_all snd (concat (map snd chain))"
    "\<forall>r \<in> set rows. DecodeRow (fst (rowCell rt r)) (colDefsOf tf) = Inr (fst r, map (storedColumn rt) (snd r))"
    by (rule table_repE [OF rep])
  define g where "g = (\<lambda>c :: bytes \<times> bool. projr (DecodeRow (fst c) (colDefsOf tf)))"
  have dec: "\<forall>c \<in> set (concat (map snd chain)). DecodeRow (fst c) (colDefsOf tf) = Inr (g c)"
    unfolding c(2) using c(4) by (auto simp: g_def)
  have find: "List.find (\<lambda>c. fst (g c) = rowID) (concat (map snd chain)) = map_option (rowCell rt) (List.find (\<lambda>r. fst r = rowID) rows)"
    unfolding c(2) find_map using c(4) by (auto simp: g_def intro!: arg_cong [where f = "map_option (rowCell rt)"] find_cong)
  have small: "\<forall>j \<in> fst ` set chain. unat j < 2 ^ 32"
    using c(1) unat_u32_less [of "tfh_PageCount (tf_header tf)"] by (fastforce simp: tf_rep_def)
  have ok: "tf_ok tf" "chainRep (diskPage (tf_file tf)) (tfh_FirstDataPage (tf_header tf)) chain" "length chain < fuel"
    using c(1) chain_length [OF c(1)] fuel by (simp_all add: tf_rep_def)
  obtain tf' where t: "same_table tf tf'" "tf_ok tf'"
    "case List.find (\<lambda>c. fst (g c) = rowID) (concat (map snd chain)) of
       None \<Rightarrow> scanFor readPage getRowAt rowID fuel (tfh_FirstDataPage (tf_header tf)) tf = Some (tf', Inl (TFRowNotFound rowID))
     | Some c \<Rightarrow> (\<exists>pid p cs i. scanFor readPage getRowAt rowID fuel (tfh_FirstDataPage (tf_header tf)) tf = Some (getRowAt pid p i tf') \<and>
         page_rep p cs \<and> cellReadable cs i \<and> cs ! i = c)"
    using scanFor_spec [OF ok(1,2) small c(3) dec ok(3), where rowID = rowID and act = getRowAt]
    by (elim exE conjE) (rule that)
  have cd: "colDefsOf tf' = colDefsOf tf" using t(1) by (simp add: same_table_def colDefsOf_def)
  have rep': "table_rep rt tf' rows"
    using rep tf_rep_same_table [OF _ t(1,2)] by (auto simp: table_rep_def)
  show ?thesis
  proof (cases "List.find (\<lambda>r. fst r = rowID) rows")
    case None
    with t(3) find rep' show ?thesis by (auto simp: GetRow_def map_of_find)
  next
    case (Some r)
    then have r: "r \<in> set rows" by (auto simp: find_Some_iff)
    from t(3) Some find obtain pid p cs i where a:
      "scanFor readPage getRowAt rowID fuel (tfh_FirstDataPage (tf_header tf)) tf = Some (getRowAt pid p i tf')"
      "page_rep p cs" "cellReadable cs i" "cs ! i = rowCell rt r" by auto
    have "GetRowFromPage p (int i) (colDefsOf tf') = Inr (fst r, map (storedColumn rt) (snd r))"
      using GetRowFromPage_rep [OF a(2,3)] a(4) c(4) r cd by simp
    with a(1) Some rep' show ?thesis by (auto simp: GetRow_def map_of_find getRowAt_def liftP_def bindS_def returnS_def)
  qed
qed

theorem get_row_finds_row_witness:
  "(\<exists>tf'. GetRow (2 ^ 32) 1 sampleTable1 = Some (tf', Inr [NewIntValue 5])) \<and>
   (\<exists>tf'. GetRow (2 ^ 32) 2 sampleTable1 = Some (tf', Inl (TFRowNotFound 2)))"
  using get_row_finds_row [OF sampleTable1_rep, of "2 ^ 32" 1] get_row_finds_row [OF sampleTable1_rep, of "2 ^ 32" 2]
    unat_u32_less [of "tfh_PageCount (tf_header sampleTable1)"]
  by (auto simp: storedColumn_def NewIntValue_def intPayload_def)

text \<open>
  A new table file represents the empty table. The hypothesis on \<open>jsonMarshal\<close> says that the column
  definitions serialise to at most 16318 bytes; the cache must not hold pages of another table.
\<close>
theorem create_table_empty:
  assumes fit: "columnsFit jsonMarshal columns" and cache: "cacheOk cache" "cacheLookup cache = Map.empty"
  shows "\<exists>tf. CreateTableFile jsonMarshal None cache nextID tableID columns = Inr tf \<and> table_rep rt tf [] \<and>
           GetColumnDefs tf = columns \<and> TableFile_PageCount tf = 1 \<and> tf_nextID tf = nextID"
  using assms by (rule CreateTableFile_table)

theorem create_table_empty_witness:
  "\<exists>tf. CreateTableFile (\<lambda>_. Some [91, 93]) None None 1 7 (Some []) = Inr tf \<and> table_rep rt_plain tf []"
  using create_table_empty [OF sample_fits cacheLookup_simps(1), of 1 7 rt_plain] by blast



text \<open>
  \<^verbatim>\<open>DeleteRow\<close> and \<^verbatim>\<open>UpdateRow\<close> hold the write lock of the table file and call \<^verbatim>\<open>readPage\<close>, which on a cache
  miss asks for the read lock of the same file: when the first data page is not cached, they never return.
\<close>
theorem delete_and_update_deadlock_on_miss:
  assumes "0 < tfh_FirstDataPage (tf_header tf)" "cacheOk (tf_cache tf)"
    and "cacheLookup (tf_cache tf) (tfh_FirstDataPage (tf_header tf)) = None" "0 < fuel"
  shows "(\<exists>tf'. DeleteRow fuel rowID tf = Some (tf', Inl TFDeadlock)) \<and>
         (\<exists>tf'. UpdateRow rt fuel rowID row tf = Some (tf', Inl TFDeadlock))"
proof -
  obtain c r where g: "cacheGet (tfh_FirstDataPage (tf_header tf)) (tf_cache tf) = (c, r)" by fastforce
  then have "r = None" using cached.get_result [OF assms(2), of "tfh_FirstDataPage (tf_header tf)"] assms(3) by simp
  with g assms(1,4) show ?thesis
    by (cases fuel) (auto simp: DeleteRow_def UpdateRow_def readPageHeld_def)
qed

theorem delete_and_update_deadlock_on_miss_witness:
  "\<exists>tf'. DeleteRow 3 1 (updHeader (\<lambda>h. h\<lparr>tfh_FirstDataPage := 1\<rparr>) (sampleTable\<lparr>tf_cache := None\<rparr>)) = Some (tf', Inl TFDeadlock)"
  using delete_and_update_deadlock_on_miss [of "updHeader (\<lambda>h. h\<lparr>tfh_FirstDataPage := 1\<rparr>) (sampleTable\<lparr>tf_cache := None\<rparr>)" 3 1]
  by (simp add: updHeader_def cacheOk_def)

text \<open>
  A page in the shared cache is served whatever table it belongs to: when the cache holds a page under an
  ID, reading that page ID of any table file returns the cached page, also when the file holds another one.
\<close>
theorem shared_cache_serves_foreign_page:
  assumes "cacheOk (tf_cache tf)" "cacheLookup (tf_cache tf) k = Some p" "diskPage (tf_file tf) k = Some q" "q \<noteq> p"
  shows "snd (readPageNoLock k tf) = Inr p \<and> snd (readPage k tf) = Inr p"
proof -
  obtain c r where g: "cacheGet k (tf_cache tf) = (c, r)" by fastforce
  then have "r = Some p" using cached.get_result [OF assms(1), of k] assms(2) by simp
  with g show ?thesis by (simp add: readPageNoLock_def readPage_def)
qed

text \<open>A file with one page, and a cache that holds another page under the same ID.\<close>

definition foreignCache :: PageCache where
  "foreignCache = \<lparr>config = DefaultPageCacheConfig, pages = [(0, NewPageV2 0 PageTypeFree)], lruList = [0], lruMap = [(0, 0)],
     dirty = [], hits = 0, misses = 0\<rparr>"

definition foreignTable :: TableFile where
  "foreignTable = \<lparr>tf_file = \<lparr>file_bytes = Page_ToBytes (NewPageV2 0 PageTypeData), file_writable = True\<rparr>,
     tf_header = zeroHeader, tf_cache = Some foreignCache, tf_dirty = False, tf_nextID = 1\<rparr>"

theorem shared_cache_serves_foreign_page_witness:
  "diskPage (tf_file foreignTable) 0 = Some (NewPageV2 0 PageTypeData) \<and>
   snd (readPageNoLock 0 foreignTable) = Inr (NewPageV2 0 PageTypeFree)"
proof -
  have disk: "diskPage (tf_file foreignTable) 0 = Some (NewPageV2 0 PageTypeData)"
    using Page_FromBytes_ToBytes [of "NewPageV2 0 PageTypeData" zeroPage] length_Page_ToBytes [of "NewPageV2 0 PageTypeData"]
    by (simp add: foreignTable_def diskPage_def slice_def)
  have "cacheOk (tf_cache foreignTable)" "cacheLookup (tf_cache foreignTable) 0 = Some (NewPageV2 0 PageTypeFree)"
    by (simp_all add: foreignTable_def foreignCache_def cacheOk_def cache_inv_def)
  from shared_cache_serves_foreign_page [OF this disk] disk show ?thesis by (simp add: NewPageV2_def)
qed

end
