(* ===== verification/Wal.thy ===== *)
theory Wal
  imports Crypto Json TableFile
begin

text \<open>
  \<^verbatim>\<open>src/storage/wal.go\<close>: the write-ahead log. A record is the JSON form of \<^verbatim>\<open>WALRecord\<close>, encrypted when an encryptor
  is set, behind a header of 16 bytes (LSN, length, checksum). The log file is opened with \<^verbatim>\<open>O_APPEND\<close>: writes
  extend its bytes. The text of a JSON tree (\<open>enc\<close>, \<open>dec\<close>), the random bytes of the cipher and the clock are
  parameters. Shown: what is written is read back in order, the sequence numbers survive reopening, a record
  torn by a crash makes the whole log unreadable, a corrupted one ends it.
\<close>

section \<open>Records\<close>

type_synonym WALType = byte

abbreviation WALTypeBegin :: WALType where "WALTypeBegin \<equiv> 0"
abbreviation WALTypeInsert :: WALType where "WALTypeInsert \<equiv> 1"
abbreviation WALTypeUpdate :: WALType where "WALTypeUpdate \<equiv> 2"
abbreviation WALTypeDelete :: WALType where "WALTypeDelete \<equiv> 3"
abbreviation WALTypeCreateTable :: WALType where "WALTypeCreateTable \<equiv> 4"
abbreviation WALTypeDropTable :: WALType where "WALTypeDropTable \<equiv> 5"
abbreviation WALTypeCommit :: WALType where "WALTypeCommit \<equiv> 6"
abbreviation WALTypeRollback :: WALType where "WALTypeRollback \<equiv> 7"
abbreviation WALTypeCheckpoint :: WALType where "WALTypeCheckpoint \<equiv> 8"
abbreviation WALTypeRenameTable :: WALType where "WALTypeRenameTable \<equiv> 9"
abbreviation WALTypeTruncateTable :: WALType where "WALTypeTruncateTable \<equiv> 10"

definition WALType_String :: "WALType \<Rightarrow> string" where
  "WALType_String t =
     (if t = WALTypeBegin then ''BEGIN'' else if t = WALTypeInsert then ''INSERT'' else if t = WALTypeUpdate then ''UPDATE''
      else if t = WALTypeDelete then ''DELETE'' else if t = WALTypeCreateTable then ''CREATE_TABLE''
      else if t = WALTypeDropTable then ''DROP_TABLE'' else if t = WALTypeCommit then ''COMMIT''
      else if t = WALTypeRollback then ''ROLLBACK'' else if t = WALTypeCheckpoint then ''CHECKPOINT''
      else if t = WALTypeRenameTable then ''RENAME_TABLE'' else if t = WALTypeTruncateTable then ''TRUNCATE_TABLE''
      else ''UNKNOWN'')"

text \<open>The table descriptor of the storage layer, and what the \<^verbatim>\<open>interface{}\<close> fields of a record hold.\<close>

record StoredTable = TableInfo +
  st_DataFile :: string
  st_CreatedAt :: int
  st_UpdatedAt :: int

datatype wal_data = WNil | WRow "Value list" | WName string | WTable StoredTable | WIface iface

record WALRecord =
  wal_LSN :: u64
  wal_TxnID :: u64
  wal_Type :: WALType
  wal_TableID :: u64
  wal_RowID :: u64
  wal_Timestamp :: u64
  wal_Data :: wal_data
  wal_OldData :: wal_data

definition tableJSON :: "go_rt \<Rightarrow> StoredTable \<Rightarrow> json option" where
  "tableJSON rt t =
     map_option (\<lambda>cols. JObj
       [(''id'', JInt (uint (tbl_ID t))), (''name'', json_string (tbl_Name t)), (''columns'', JArr cols),
        (''created_at'', JStr (rt_formatTime rt RFC3339Nano (st_CreatedAt t))),
        (''updated_at'', JStr (rt_formatTime rt RFC3339Nano (st_UpdatedAt t))),
        (''row_count'', JInt (tbl_RowCount t)), (''data_file'', json_string (st_DataFile t))])
     (map_all (columnJSON rt) (tbl_Columns t))"

fun ifaceJSON :: "go_rt \<Rightarrow> iface \<Rightarrow> json option" where
  "ifaceJSON rt (IData d) = json_of_data rt d"
| "ifaceJSON rt (IArr vs) = map_option JArr (map_all (ifaceJSON rt) vs)"
| "ifaceJSON rt (IMap kvs) =
     map_option (\<lambda>js. JObj (zip (map fst kvs) js)) (map_all (\<lambda>kv. ifaceJSON rt (snd kv)) kvs)"

text \<open>\<^verbatim>\<open>data,omitempty\<close>: a nil field is left out.\<close>

definition dataField :: "go_rt \<Rightarrow> string \<Rightarrow> wal_data \<Rightarrow> (string \<times> json) list option" where
  "dataField rt k d =
     (case d of
        WNil \<Rightarrow> Some []
      | WRow vs \<Rightarrow> map_option (\<lambda>js. [(k, JArr js)]) (map_all (Value_MarshalJSON rt) vs)
      | WName s \<Rightarrow> Some [(k, json_string s)]
      | WTable t \<Rightarrow> map_option (\<lambda>j. [(k, j)]) (tableJSON rt t)
      | WIface v \<Rightarrow> (if v = INil then Some [] else map_option (\<lambda>j. [(k, j)]) (ifaceJSON rt v)))"

definition recordJSON :: "go_rt \<Rightarrow> WALRecord \<Rightarrow> json option" where
  "recordJSON rt r =
     Option.bind (dataField rt ''data'' (wal_Data r)) (\<lambda>d.
     map_option (\<lambda>od. JObj
       ([(''lsn'', JInt (uint (wal_LSN r))), (''txn_id'', JInt (uint (wal_TxnID r))), (''type'', JInt (uint (wal_Type r))),
         (''table_id'', JInt (uint (wal_TableID r))), (''row_id'', JInt (uint (wal_RowID r))),
         (''timestamp'', JInt (sint (wal_Timestamp r)))] @ d @ od))
     (dataField rt ''old_data'' (wal_OldData r)))"

text \<open>\<^verbatim>\<open>json.Unmarshal(data, &record)\<close>: the \<^verbatim>\<open>interface{}\<close> fields get the generic form of their tree.\<close>

definition ifaceField :: "string \<Rightarrow> (string \<times> json) list \<Rightarrow> wal_data" where
  "ifaceField k kvs = (case jsonKey k kvs of JNull \<Rightarrow> WNil | j \<Rightarrow> WIface (iface_of j))"

definition recordOfJSON :: "json \<Rightarrow> WALRecord option" where
  "recordOfJSON j =
     (case j of
        JObj kvs \<Rightarrow>
          Option.bind (get_uint (2 ^ 64) (jsonKey ''lsn'' kvs)) (\<lambda>lsn.
          Option.bind (get_uint (2 ^ 64) (jsonKey ''txn_id'' kvs)) (\<lambda>txn.
          Option.bind (get_uint 256 (jsonKey ''type'' kvs)) (\<lambda>typ.
          Option.bind (get_uint (2 ^ 64) (jsonKey ''table_id'' kvs)) (\<lambda>tid.
          Option.bind (get_uint (2 ^ 64) (jsonKey ''row_id'' kvs)) (\<lambda>rid.
          map_option (\<lambda>ts.
            \<lparr>wal_LSN = of_int lsn, wal_TxnID = of_int txn, wal_Type = of_int typ, wal_TableID = of_int tid,
             wal_RowID = of_int rid, wal_Timestamp = ts, wal_Data = ifaceField ''data'' kvs,
             wal_OldData = ifaceField ''old_data'' kvs\<rparr>)
          (get_int64 (jsonKey ''timestamp'' kvs)))))))
      | _ \<Rightarrow> None)"

section \<open>The log file\<close>

record WALHeader =
  wh_LSN :: u64
  wh_Length :: u32
  wh_Checksum :: u32

record WAL =
  w_file :: "os_file option"
  w_lsn :: u64
  w_enabled :: bool
  w_encryptor :: "Encryptor option"

datatype wal_error = WalOpen | WalEOF | WalUnexpectedEOF | WalMarshal | WalUnmarshal | WalWrite

text \<open>\<^verbatim>\<open>binary.Write\<close> and \<^verbatim>\<open>binary.Read\<close> of the header, little endian\<close>

definition headerBytes :: "WALHeader \<Rightarrow> bytes" where
  "headerBytes h = le_bytes 8 (wh_LSN h) @ le_bytes 4 (wh_Length h) @ le_bytes 4 (wh_Checksum h)"

definition readWALHeader :: "bytes \<Rightarrow> wal_error + WALHeader" where
  "readWALHeader b =
     (if b = [] then Inl WalEOF
      else if length b < 16 then Inl WalUnexpectedEOF
      else Inr \<lparr>wh_LSN = le_word (slice 0 8 b), wh_Length = le_word (slice 8 12 b), wh_Checksum = le_word (slice 12 16 b)\<rparr>)"

lemma readWALHeader_length: "readWALHeader b = Inr h \<Longrightarrow> 16 \<le> length b"
  by (simp add: readWALHeader_def split: if_splits)

function lastLSN :: "u64 \<Rightarrow> bytes \<Rightarrow> wal_error + u64" where
  "lastLSN maxLSN b =
     (case readWALHeader b of
        Inl e \<Rightarrow> if e = WalEOF then Inr maxLSN else Inl e
      | Inr h \<Rightarrow> lastLSN (if maxLSN < wh_LSN h then wh_LSN h else maxLSN) (drop (16 + unat (wh_Length h)) b))"
  by pat_completeness auto
termination
  by (relation "measure (\<lambda>(m, b). length b)") (auto dest: readWALHeader_length)

declare lastLSN.simps [simp del]

definition readLastLSN :: "(WAL, wal_error, unit) go_method" where
  "readLastLSN w =
     (case w_file w of
        None \<Rightarrow> (w, Inr ())
      | Some f \<Rightarrow> (case lastLSN 0 (file_bytes f) of Inl e \<Rightarrow> (w, Inl e) | Inr n \<Rightarrow> (w\<lparr>w_lsn := n\<rparr>, Inr ())))"

text \<open>\<open>opened\<close> is the result of \<^verbatim>\<open>os.OpenFile\<close> on the path.\<close>

definition NewWAL :: "string \<Rightarrow> os_file option \<Rightarrow> wal_error + WAL" where
  "NewWAL path opened =
     (let w = \<lparr>w_file = None, w_lsn = 0, w_enabled = (path \<noteq> []), w_encryptor = None\<rparr>
      in if \<not> w_enabled w then Inr w
         else case opened of
                None \<Rightarrow> Inl WalOpen
              | Some f \<Rightarrow>
                  (case readLastLSN (w\<lparr>w_file := Some f\<rparr>) of
                     (w, Inl _) \<Rightarrow> Inr (w\<lparr>w_lsn := 0\<rparr>)
                   | (w, Inr _) \<Rightarrow> Inr w))"

definition appendFile :: "bytes \<Rightarrow> os_file \<Rightarrow> os_file option" where
  "appendFile d f = (if file_writable f then Some (f\<lparr>file_bytes := file_bytes f @ d\<rparr>) else None)"

text \<open>The header and the data of a record, written one after the other\<close>

definition frame :: "u64 \<Rightarrow> bytes \<Rightarrow> bytes" where
  "frame lsn data =
     headerBytes \<lparr>wh_LSN = lsn, wh_Length = of_nat (length data), wh_Checksum = crc32 data\<rparr> @ data"

definition WAL_Write ::
  "go_rt \<Rightarrow> (json \<Rightarrow> bytes) \<Rightarrow> (nat \<Rightarrow> bytes) \<Rightarrow> u64 \<Rightarrow> WALRecord \<Rightarrow> (WAL, wal_error, u64) go_method"
where
  "WAL_Write rt enc rnd now record w =
     (case w_file w of
        None \<Rightarrow> (w, Inr 0)
      | Some f \<Rightarrow>
          if \<not> w_enabled w then (w, Inr 0)
          else
            let w = w\<lparr>w_lsn := w_lsn w + 1\<rparr>;
                record = record\<lparr>wal_LSN := w_lsn w, wal_Timestamp := now\<rparr>
            in case recordJSON rt record of
                 None \<Rightarrow> (w, Inl WalMarshal)
               | Some j \<Rightarrow>
                   let data = (if w_encryptor w \<noteq> None then EncryptData rnd (Some (enc j)) [] else Some (enc j));
                       data = (case data of None \<Rightarrow> [] | Some d \<Rightarrow> d)
                   in case appendFile (frame (wal_LSN record) data) f of
                        None \<Rightarrow> (w, Inl WalWrite)
                      | Some f \<Rightarrow> (w\<lparr>w_file := Some f\<rparr>, Inr (wal_LSN record)))"

text \<open>The reading loop: it stops at a record whose checksum or decryption fails and fails on a short read.\<close>

definition decryptRecord :: "Encryptor option \<Rightarrow> bytes \<Rightarrow> bytes option" where
  "decryptRecord encryptor data =
     (case encryptor of
        None \<Rightarrow> Some data
      | Some e \<Rightarrow> (case Decrypt e (Some data) of Inl _ \<Rightarrow> None | Inr None \<Rightarrow> Some [] | Inr (Some d) \<Rightarrow> Some d))"

function readRecords :: "(bytes \<Rightarrow> json option) \<Rightarrow> Encryptor option \<Rightarrow> bytes \<Rightarrow> wal_error + WALRecord list" where
  "readRecords dec encryptor b =
     (case readWALHeader b of
        Inl e \<Rightarrow> if e = WalEOF then Inr [] else Inl e
      | Inr h \<Rightarrow>
          let n = unat (wh_Length h); rest = drop 16 b
          in if length rest < n then Inl (if rest = [] then WalEOF else WalUnexpectedEOF)
             else let data = take n rest
                  in if crc32 data \<noteq> wh_Checksum h then Inr []
                     else case decryptRecord encryptor data of
                            None \<Rightarrow> Inr []
                          | Some plain \<Rightarrow>
                              (case Option.bind (dec plain) recordOfJSON of
                                 None \<Rightarrow> Inl WalUnmarshal
                               | Some r \<Rightarrow> bindE (readRecords dec encryptor (drop (16 + n) b)) (\<lambda>rs. Inr (r # rs))))"
  by pat_completeness auto
termination
  by (relation "measure (\<lambda>(d, e, b). length b)") (auto dest: readWALHeader_length)

declare readRecords.simps [simp del]

definition ReadAll :: "(bytes \<Rightarrow> json option) \<Rightarrow> WAL \<Rightarrow> wal_error + WALRecord list" where
  "ReadAll dec w =
     (case w_file w of
        None \<Rightarrow> Inr []
      | Some f \<Rightarrow> if \<not> w_enabled w then Inr [] else readRecords dec (w_encryptor w) (file_bytes f))"

definition WAL_Truncate :: "(WAL, wal_error, unit) go_method" where
  "WAL_Truncate w =
     (case w_file w of
        None \<Rightarrow> (w, Inr ())
      | Some f \<Rightarrow>
          if \<not> w_enabled w then (w, Inr ())
          else case fileTruncate 0 f of
                 None \<Rightarrow> (w, Inl WalWrite)
               | Some f \<Rightarrow> (w\<lparr>w_file := Some f, w_lsn := 0\<rparr>, Inr ()))"

definition SetEncryptor :: "Encryptor option \<Rightarrow> WAL \<Rightarrow> WAL" where
  "SetEncryptor e w = w\<lparr>w_encryptor := e\<rparr>"

definition CurrentLSN :: "WAL \<Rightarrow> u64" where
  "CurrentLSN w = w_lsn w"

section \<open>Frames\<close>

lemma length_headerBytes [simp]: "length (headerBytes h) = 16"
  by (simp add: headerBytes_def)

lemma readWALHeader_headerBytes: "readWALHeader (headerBytes h @ t) = Inr h"
proof -
  have "headerBytes h \<noteq> []" by (metis length_headerBytes list.size(3) zero_neq_numeral)
  then show ?thesis
    by (simp add: readWALHeader_def) (simp add: headerBytes_def bytes_simps codec)
qed

lemma length_frame: "length (frame lsn d) = 16 + length d"
  by (simp add: frame_def)

lemma unat_length32: "length d < 2 ^ 32 \<Longrightarrow> unat (of_nat (length d) :: u32) = length d"
  by (simp add: unat_of_nat)

text \<open>The record \<open>r\<close> is what the data of a frame denotes for a reader with the encryptor \<open>e\<close>.\<close>

definition denotes :: "(bytes \<Rightarrow> json option) \<Rightarrow> Encryptor option \<Rightarrow> bytes \<Rightarrow> WALRecord \<Rightarrow> bool" where
  "denotes dec e data r \<longleftrightarrow>
     length data < 2 ^ 32 \<and> (\<exists>plain. decryptRecord e data = Some plain \<and> Option.bind (dec plain) recordOfJSON = Some r)"

lemma readRecords_frame:
  assumes "denotes dec e data r"
  shows "readRecords dec e (frame lsn data @ t) = bindE (readRecords dec e t) (\<lambda>rs. Inr (r # rs))"
proof -
  obtain plain where p: "length data < 2 ^ 32" "decryptRecord e data = Some plain"
    "Option.bind (dec plain) recordOfJSON = Some r" using assms by (auto simp: denotes_def)
  have "readWALHeader (frame lsn data @ t) =
      Inr \<lparr>wh_LSN = lsn, wh_Length = of_nat (length data), wh_Checksum = crc32 data\<rparr>"
    by (simp add: frame_def readWALHeader_headerBytes)
  with p show ?thesis
    by (subst readRecords.simps) (simp add: Let_def frame_def unat_length32)
qed

definition frames :: "(u64 \<times> bytes) list \<Rightarrow> bytes" where
  "frames fs = concat (map (\<lambda>(lsn, d). frame lsn d) fs)"

lemma frames_simps [simp]:
  "frames [] = []" "frames (f # fs) = frame (fst f) (snd f) @ frames fs" "frames (fs @ gs) = frames fs @ frames gs"
  by (simp_all add: frames_def case_prod_beta)

abbreviation log_denotes where
  "log_denotes dec e fs rs \<equiv> list_all2 (\<lambda>f r. denotes dec e (snd f) r) fs rs"

lemma readRecords_frames:
  "log_denotes dec e fs rs \<Longrightarrow>
   readRecords dec e (frames fs @ t) = bindE (readRecords dec e t) (\<lambda>rs'. Inr (rs @ rs'))"
proof (induction fs rs rule: list_all2_induct)
  case Nil
  show ?case by (cases "readRecords dec e t") (simp_all add: bindE_def)
next
  case (Cons f fs r rs)
  then show ?case
    by (cases "readRecords dec e t") (simp_all add: readRecords_frame bindE_def)
qed

lemma readRecords_Nil: "readRecords dec e [] = Inr []"
  by (simp add: readRecords.simps readWALHeader_def)

lemma lastLSN_frames:
  "list_all (\<lambda>f. length (snd f) < 2 ^ 32) fs \<Longrightarrow> lastLSN m (frames fs) = Inr (fold max (map fst fs) m)"
proof (induction fs arbitrary: m)
  case Nil
  show ?case by (simp add: lastLSN.simps readWALHeader_def)
next
  case (Cons f fs)
  have "readWALHeader (frames (f # fs)) =
      Inr \<lparr>wh_LSN = fst f, wh_Length = of_nat (length (snd f)), wh_Checksum = crc32 (snd f)\<rparr>"
    by (simp add: frame_def readWALHeader_headerBytes)
  moreover have "(if m < fst f then fst f else m) = max (fst f) m" by (auto simp: max_def)
  ultimately show ?case
    using Cons by (subst lastLSN.simps) (simp add: frame_def unat_length32)
qed

section \<open>Records through JSON\<close>

text \<open>What a field holds after it was written and read: the generic form of its tree\<close>

definition storedData :: "go_rt \<Rightarrow> wal_data \<Rightarrow> wal_data" where
  "storedData rt d =
     (case dataField rt [] d of
        Some [(_, j)] \<Rightarrow> (case j of JNull \<Rightarrow> WNil | _ \<Rightarrow> WIface (iface_of j))
      | _ \<Rightarrow> WNil)"

definition storedRecord :: "go_rt \<Rightarrow> WALRecord \<Rightarrow> WALRecord" where
  "storedRecord rt r = r\<lparr>wal_Data := storedData rt (wal_Data r), wal_OldData := storedData rt (wal_OldData r)\<rparr>"

lemma dataField_cases:
  assumes "dataField rt k d = Some kv"
  obtains "kv = []" "dataField rt [] d = Some []" | j where "kv = [(k, j)]" "dataField rt [] d = Some [([], j)]"
proof -
  have "kv = [] \<and> dataField rt [] d = Some [] \<or> (\<exists>j. kv = [(k, j)] \<and> dataField rt [] d = Some [([], j)])"
    using assms by (cases d) (auto simp: dataField_def split: if_splits)
  then show ?thesis using that by (elim disjE exE conjE)
qed

lemma get_uint_uint: "get_uint (2 ^ LENGTH('a)) (JInt (uint (w :: 'a::len word))) = Some (uint w)"
  using uint_lt2p [of w] by (simp add: get_uint_def)

lemma get_int64_sint: "get_int64 (JInt (sint w)) = Some w"
  using sint_ge [of w] sint_lt [of w] by (simp add: get_int64_def)

lemma ifaceField_stored:
  assumes "dataField rt k d = Some kv" "map_of rest k = None"
  shows "ifaceField k (kv @ rest) = storedData rt d"
  using assms(1) by (rule dataField_cases)
    (use assms(2) in \<open>auto simp: ifaceField_def jsonKey_def storedData_def split: json.split\<close>)

lemma ifaceField_skip: "map_of kv k = None \<Longrightarrow> ifaceField k (kv @ rest) = ifaceField k rest"
  by (simp add: ifaceField_def jsonKey_def map_add_def)

lemma jsonKey_Cons: "jsonKey k ((k', j) # kvs) = (if k = k' then j else jsonKey k kvs)"
  by (simp add: jsonKey_def)

lemma ifaceField_Cons: "ifaceField k ((k', j) # kvs) = (if k = k' then ifaceField k [(k, j)] else ifaceField k kvs)"
  by (simp add: ifaceField_def jsonKey_def)

lemma recordOfJSON_recordJSON:
  assumes "recordJSON rt r = Some j"
  shows "recordOfJSON j = Some (storedRecord rt r)"
proof -
  obtain d od where d: "dataField rt ''data'' (wal_Data r) = Some d" and od: "dataField rt ''old_data'' (wal_OldData r) = Some od"
    and j: "j = JObj ([(''lsn'', JInt (uint (wal_LSN r))), (''txn_id'', JInt (uint (wal_TxnID r))),
         (''type'', JInt (uint (wal_Type r))), (''table_id'', JInt (uint (wal_TableID r))),
         (''row_id'', JInt (uint (wal_RowID r))), (''timestamp'', JInt (sint (wal_Timestamp r)))] @ d @ od)"
    using assms by (auto simp: recordJSON_def split: bind_splits)
  have nod: "map_of od ''data'' = None" using od by (rule dataField_cases) simp_all
  have nd: "map_of d ''old_data'' = None" using d by (rule dataField_cases) simp_all
  have f1: "ifaceField ''data'' (d @ od) = storedData rt (wal_Data r)" by (rule ifaceField_stored [OF d nod])
  have f2: "ifaceField ''old_data'' (d @ od) = storedData rt (wal_OldData r)"
    using ifaceField_stored [OF od, of "[]"] by (simp add: ifaceField_skip [OF nd])
  note u64 = get_uint_uint [where 'a = 64, simplified] and u8 = get_uint_uint [where 'a = 8, simplified]
  show ?thesis
    by (simp add: j recordOfJSON_def jsonKey_Cons ifaceField_Cons f1 f2 u64 u8 get_int64_sint storedRecord_def)
qed

section \<open>The log as a list of records\<close>

text \<open>The log \<open>w\<close> holds the records \<open>rs\<close> and its counter is the last sequence number.\<close>

definition wal_rep :: "(bytes \<Rightarrow> json option) \<Rightarrow> WAL \<Rightarrow> WALRecord list \<Rightarrow> bool" where
  "wal_rep dec w rs \<longleftrightarrow>
     w_enabled w \<and> w_lsn w = fold max (map wal_LSN rs) 0 \<and>
     (\<exists>f fs. w_file w = Some f \<and> file_writable f \<and> file_bytes f = frames fs \<and> map fst fs = map wal_LSN rs \<and>
             log_denotes dec (w_encryptor w) fs rs)"

lemma wal_repE:
  assumes "wal_rep dec w rs"
  obtains f fs where "w_enabled w" "w_lsn w = fold max (map wal_LSN rs) 0" "w_file w = Some f" "file_writable f"
    "file_bytes f = frames fs" "map fst fs = map wal_LSN rs" "log_denotes dec (w_encryptor w) fs rs"
  using assms unfolding wal_rep_def by blast

lemma ReadAll_rep: "wal_rep dec w rs \<Longrightarrow> ReadAll dec w = Inr rs"
  by (erule wal_repE)
     (use readRecords_frames [where t = "[]"] in \<open>simp add: ReadAll_def readRecords_Nil\<close>)

text \<open>
  What the cipher of the log does to the text of a record: \<^verbatim>\<open>WAL.Write\<close> encrypts with the empty, that is the
  default code, \<^verbatim>\<open>writeWAL\<close> of the storage with the code of the encryptor.
\<close>

definition encryptRecord :: "(nat \<Rightarrow> bytes) \<Rightarrow> string option \<Rightarrow> bytes \<Rightarrow> bytes" where
  "encryptRecord rnd code d =
     (case code of
        None \<Rightarrow> d
      | Some c \<Rightarrow> (case EncryptData rnd (Some d) c of None \<Rightarrow> [] | Some x \<Rightarrow> x))"

definition same_code :: "Encryptor option \<Rightarrow> string option \<Rightarrow> bool" where
  "same_code e code =
     (case (e, code) of
        (None, None) \<Rightarrow> True
      | (Some e, Some c) \<Rightarrow> codeOf (enc_code e) = codeOf c
      | _ \<Rightarrow> False)"

lemma length_EncryptData:
  "length (rnd (addLenOf (codeOf c))) = addLenOf (codeOf c) \<Longrightarrow> d \<noteq> [] \<Longrightarrow>
   \<exists>x. EncryptData rnd (Some d) c = Some x \<and> length x \<le> length d + 14"
  using addLenOf_bounds(2) [of "codeOf c"] by (auto simp: EncryptData_def Let_def)

lemma denotes_encryptRecord:
  assumes "same_code e code" "\<forall>n. length (rnd n) = n" "recordJSON rt r = Some j" "dec (enc j) = Some j" "enc j \<noteq> []"
    "length (enc j) + 14 < 2 ^ 32"
  shows "denotes dec e (encryptRecord rnd code (enc j)) (storedRecord rt r)"
proof -
  note r = recordOfJSON_recordJSON [OF assms(3)]
  show ?thesis
  proof (cases code)
    case None
    then have "e = None" using assms(1) by (cases e) (simp_all add: same_code_def)
    with None r assms(4,6) show ?thesis by (simp add: denotes_def encryptRecord_def decryptRecord_def)
  next
    case (Some c)
    then obtain e' where e: "e = Some e'" "codeOf (enc_code e') = codeOf c"
      using assms(1) by (cases e) (simp_all add: same_code_def)
    obtain x where x: "EncryptData rnd (Some (enc j)) c = Some x" "length x \<le> length (enc j) + 14"
      using length_EncryptData [of rnd c "enc j"] assms(2,5) by auto
    have "DecryptData (Some x) (enc_code e') = Inr (Some (enc j))"
      using DecryptData_EncryptData [of "enc j" rnd c "enc_code e'"] assms(2,5) e(2) x(1) by simp
    with Some e x r assms(4,6) show ?thesis
      by (simp add: denotes_def encryptRecord_def decryptRecord_def Decrypt_def)
  qed
qed

lemma wal_rep_append:
  assumes rep: "wal_rep dec w rs" and d: "denotes dec (w_encryptor w) d r" and lsn: "wal_LSN r = w_lsn w + 1"
    and nowrap: "w_lsn w + 1 \<noteq> 0" and w': "w_file w' = Some (f\<lparr>file_bytes := file_bytes f @ frame (w_lsn w + 1) d\<rparr>)"
    "w_file w = Some f" "w_lsn w' = w_lsn w + 1" "w_enabled w' = w_enabled w" "w_encryptor w' = w_encryptor w"
  shows "wal_rep dec w' (rs @ [r])"
proof -
  obtain fs where fs: "w_enabled w" "w_lsn w = fold max (map wal_LSN rs) 0" "file_writable f"
    "file_bytes f = frames fs" "map fst fs = map wal_LSN rs" "log_denotes dec (w_encryptor w) fs rs"
    using rep w'(2) by (auto elim!: wal_repE)
  have "max (w_lsn w + 1) (w_lsn w) = w_lsn w + 1" 
    using nowrap unatSuc [of "w_lsn w"] by (auto simp: max_def word_le_nat_alt add.commute)
  moreover have "log_denotes dec (w_encryptor w) (fs @ [(w_lsn w + 1, d)]) (rs @ [r])"
    using fs(6) d by (simp add: list_all2_appendI)
  ultimately show ?thesis
    unfolding wal_rep_def using fs lsn w'
    by (auto intro!: exI [of _ "fs @ [(w_lsn w + 1, d)]"])
qed

section \<open>Properties\<close>

text \<open>
  C6. \<^verbatim>\<open>WAL.Write\<close> appends: it returns the next sequence number, and \<^verbatim>\<open>ReadAll\<close> then returns the records it returned
  before followed by the new one with that number and the current time, its dynamic fields in the generic form of
  their JSON tree. The log may be encrypted, with a password that has the default code.
\<close>
theorem wal_write_read:
  assumes "wal_rep dec w rs" "w_lsn w + 1 \<noteq> 0"
    and "r' = r\<lparr>wal_LSN := w_lsn w + 1, wal_Timestamp := now\<rparr>" "recordJSON rt r' = Some j"
    and "dec (enc j) = Some j" "enc j \<noteq> []" "length (enc j) + 14 < 2 ^ 32" "\<forall>n. length (rnd n) = n"
    and "same_code (w_encryptor w) (map_option (\<lambda>e. []) (w_encryptor w))"
  shows "\<exists>w'. WAL_Write rt enc rnd now r w = (w', Inr (w_lsn w + 1)) \<and> wal_rep dec w' (rs @ [storedRecord rt r'])
    \<and> ReadAll dec w' = Inr (rs @ [storedRecord rt r'])"
proof -
  obtain f where f: "w_file w = Some f" "file_writable f" "w_enabled w" using assms(1) by (rule wal_repE)
  let ?d = "encryptRecord rnd (map_option (\<lambda>e. []) (w_encryptor w)) (enc j)"
  let ?w = "w\<lparr>w_lsn := w_lsn w + 1, w_file := Some (f\<lparr>file_bytes := file_bytes f @ frame (w_lsn w + 1) ?d\<rparr>)\<rparr>"
  have den: "denotes dec (w_encryptor w) ?d (storedRecord rt r')"
    using assms by (intro denotes_encryptRecord) simp_all
  have rep: "wal_rep dec ?w (rs @ [storedRecord rt r'])"
    by (rule wal_rep_append [OF assms(1) den _ assms(2)]) (use f assms(3) in \<open>simp_all add: storedRecord_def\<close>)
  have "WAL_Write rt enc rnd now r w = (?w, Inr (w_lsn w + 1))"
    using f assms(4) unfolding assms(3)
    by (cases "w_encryptor w") (simp_all add: WAL_Write_def Let_def appendFile_def encryptRecord_def)
  with rep ReadAll_rep [OF rep] show ?thesis by blast
qed

definition emptyWAL :: WAL where
  "emptyWAL = \<lparr>w_file = Some \<lparr>file_bytes = [], file_writable = True\<rparr>, w_lsn = 0, w_enabled = True, w_encryptor = None\<rparr>"

definition commitRecord :: WALRecord where
  "commitRecord = \<lparr>wal_LSN = 1, wal_TxnID = 7, wal_Type = WALTypeCommit, wal_TableID = 0, wal_RowID = 0,
     wal_Timestamp = 99, wal_Data = WNil, wal_OldData = WNil\<rparr>"

definition commitJSON :: json where
  "commitJSON = JObj [(''lsn'', JInt 1), (''txn_id'', JInt 7), (''type'', JInt 6), (''table_id'', JInt 0),
     (''row_id'', JInt 0), (''timestamp'', JInt 99)]"

lemma emptyWAL_rep: "wal_rep dec emptyWAL []"
  by (auto simp: wal_rep_def emptyWAL_def intro!: exI [of _ "[]"])

lemma commitRecord_JSON: "recordJSON rt commitRecord = Some commitJSON"
  by (simp add: recordJSON_def commitRecord_def dataField_def commitJSON_def)

theorem wal_write_read_witness:
  "ReadAll (\<lambda>b. Some commitJSON)
     (fst (WAL_Write rt_plain (\<lambda>j. [1]) (\<lambda>n. replicate n 0) 99 commitRecord emptyWAL)) = Inr [commitRecord]"
proof -
  have "storedRecord rt_plain commitRecord = commitRecord"
    by (simp add: storedRecord_def storedData_def dataField_def commitRecord_def)
  moreover have "commitRecord = commitRecord\<lparr>wal_LSN := w_lsn emptyWAL + 1, wal_Timestamp := 99\<rparr>"
    by (simp add: commitRecord_def emptyWAL_def)
  ultimately show ?thesis
    using wal_write_read [OF emptyWAL_rep, where r = commitRecord and r' = commitRecord and now = 99 and rt = rt_plain
      and j = commitJSON and dec = "\<lambda>b. Some commitJSON" and enc = "\<lambda>j. [1]" and rnd = "\<lambda>n. replicate n 0"]
    by (auto simp: commitRecord_JSON emptyWAL_def same_code_def)
qed

text \<open>
  A log that is opened again continues where it ended: \<^verbatim>\<open>NewWAL\<close> finds the last sequence number in the file, and
  with the same encryptor the log holds the same records.
\<close>
theorem wal_reopen:
  assumes "wal_rep dec w rs" "path \<noteq> []"
  shows "\<exists>w'. NewWAL path (w_file w) = Inr w' \<and> CurrentLSN w' = CurrentLSN w \<and>
    wal_rep dec (SetEncryptor (w_encryptor w) w') rs \<and> ReadAll dec (SetEncryptor (w_encryptor w) w') = Inr rs"
proof -
  obtain f fs where f: "w_enabled w" "w_lsn w = fold max (map wal_LSN rs) 0" "w_file w = Some f" "file_writable f"
    "file_bytes f = frames fs" "map fst fs = map wal_LSN rs" "log_denotes dec (w_encryptor w) fs rs"
    using assms(1) by (rule wal_repE)
  have "list_all (\<lambda>f. length (snd f) < 2 ^ 32) fs"
    using f(7) by (induction rule: list_all2_induct) (simp_all add: denotes_def)
  then have "lastLSN 0 (file_bytes f) = Inr (w_lsn w)" by (simp add: f lastLSN_frames)
  then have nw: "NewWAL path (w_file w) = Inr \<lparr>w_file = Some f, w_lsn = w_lsn w, w_enabled = True, w_encryptor = None\<rparr>"
    using assms(2) f(3) by (simp add: NewWAL_def readLastLSN_def Let_def)
  have rep: "wal_rep dec (SetEncryptor (w_encryptor w) \<lparr>w_file = Some f, w_lsn = w_lsn w, w_enabled = True, w_encryptor = None\<rparr>) rs"
    using f by (auto simp: wal_rep_def SetEncryptor_def)
  show ?thesis using nw rep ReadAll_rep [OF rep] by (simp add: CurrentLSN_def)
qed

theorem wal_reopen_witness:
  "\<exists>w'. NewWAL ''xxldb.wal'' (w_file emptyWAL) = Inr w' \<and> CurrentLSN w' = 0"
  using wal_reopen [OF emptyWAL_rep [of "\<lambda>b. None"], of "''xxldb.wal''"] by (auto simp: CurrentLSN_def emptyWAL_def)

text \<open>
  How damage at the end of the log is handled. A record of which only a part reached the disk makes \<^verbatim>\<open>ReadAll\<close>
  fail, so that no record of the log is recovered; a complete record with a wrong checksum ends the log: the
  records before it are returned, whatever follows it.
\<close>
theorem wal_damaged_tail:
  assumes "wal_rep dec w rs" "w_file w = Some f" "length d < 2 ^ 32"
    and "0 < k" "k < length (frame lsn d)" "length d' = length d" "crc32 d' \<noteq> crc32 d"
  shows "(\<exists>e. ReadAll dec (w\<lparr>w_file := Some (f\<lparr>file_bytes := file_bytes f @ take k (frame lsn d)\<rparr>)\<rparr>) = Inl e) \<and>
    ReadAll dec (w\<lparr>w_file := Some (f\<lparr>file_bytes := file_bytes f @ take 16 (frame lsn d) @ d' @ t\<rparr>)\<rparr>) = Inr rs"
proof -
  obtain fs where fs: "w_enabled w" "file_bytes f = frames fs" "log_denotes dec (w_encryptor w) fs rs"
    using assms(1,2) by (auto elim!: wal_repE)
  have read: "ReadAll dec (w\<lparr>w_file := Some (f\<lparr>file_bytes := file_bytes f @ x\<rparr>)\<rparr>) =
      bindE (readRecords dec (w_encryptor w) x) (\<lambda>rs'. Inr (rs @ rs'))" for x
    using fs readRecords_frames [OF fs(3)] by (simp add: ReadAll_def)
  let ?h = "\<lparr>wh_LSN = lsn, wh_Length = of_nat (length d), wh_Checksum = crc32 d\<rparr>"
  have "\<exists>e. readRecords dec (w_encryptor w) (take k (frame lsn d)) = Inl e"
  proof (cases "k < 16")
    case True
    have "frame lsn d \<noteq> []" using length_frame [of lsn d] by auto
    with True have "readWALHeader (take k (frame lsn d)) = Inl WalUnexpectedEOF"
      using assms(4) by (simp add: readWALHeader_def length_frame)
    then show ?thesis by (subst readRecords.simps) simp
  next
    case False
    then have eq: "take k (frame lsn d) = headerBytes ?h @ take (k - 16) d" by (simp add: frame_def)
    have "k - 16 < length d" using False assms(5) by (simp add: length_frame)
    then show ?thesis
      using assms(3) unfolding eq
      by (subst readRecords.simps) (simp add: readWALHeader_headerBytes Let_def unat_length32 length_frame)
  qed
  moreover
  have eq: "take 16 (frame lsn d) @ d' @ t = headerBytes ?h @ d' @ t" by (simp add: frame_def)
  have "readRecords dec (w_encryptor w) (take 16 (frame lsn d) @ d' @ t) = Inr []"
    using assms(3,6,7) unfolding eq
    by (subst readRecords.simps) (simp add: readWALHeader_headerBytes Let_def unat_length32)
  ultimately show ?thesis by (auto simp: read)
qed

lemma crc32_samples: "crc32 [0] \<noteq> crc32 [1]"
  by code_simp

theorem wal_damaged_tail_witness:
  "(\<exists>e. ReadAll (\<lambda>b. None) (emptyWAL\<lparr>w_file := Some \<lparr>file_bytes = take 9 (frame 1 [1]), file_writable = True\<rparr>\<rparr>) = Inl e)
   \<and> ReadAll (\<lambda>b. None) (emptyWAL\<lparr>w_file := Some \<lparr>file_bytes = take 16 (frame 1 [1]) @ [0], file_writable = True\<rparr>\<rparr>) = Inr []"
  using wal_damaged_tail [OF emptyWAL_rep [of "\<lambda>b. None"], of "\<lparr>file_bytes = [], file_writable = True\<rparr>" "[1]" 9 1 "[0]" "[]"]
  by (simp add: emptyWAL_def length_frame crc32_samples)

end
