(* ===== verification/Storage.thy ===== *)
theory Storage
  imports Wal
begin

text \<open>
  \<^verbatim>\<open>src/storage/storage.go\<close>, \<^verbatim>\<open>delete_callback.go\<close>, \<^verbatim>\<open>update_callback.go\<close> and the storage half of \<^verbatim>\<open>wal.go\<close>: the catalogue of
  tables, row operations over the legacy rows in memory and over table files, sequences, external blobs, the
  log and the metadata file. A table file kept in \<^verbatim>\<open>s.tableFiles\<close> shares the page cache and the ID counter of the storage:
  \<open>onTable\<close> lends them for the time of one operation. The disk is a record of files; the library functions, the
  clock and the random source are the fields of \<open>senv\<close>.
\<close>

section \<open>State\<close>

record senv =
  env_rt :: go_rt
  env_enc :: "json \<Rightarrow> bytes"
  env_dec :: "bytes \<Rightarrow> json option"
  env_cols :: "ColumnDef list \<Rightarrow> bytes option"
  env_uncols :: "bytes \<Rightarrow> ColumnDef list option"
  env_rnd :: "nat \<Rightarrow> bytes"
  env_now :: int
  env_fmt :: "iface \<Rightarrow> string"
  env_scan :: "string \<Rightarrow> u64 option"

record FTSIndexInfo =
  fi_TableName :: string
  fi_ColumnName :: string
  fi_IndexName :: string

text \<open>The files of a database: the metadata, the table files by table name, the blobs by ID.\<close>

record disk =
  d_meta :: "bytes option"
  d_tables :: "(string, os_file) gomap"
  d_blobs :: "(u64, bytes) gomap"
  d_writable :: bool

record Storage =
  s_enabled :: bool
  s_fs :: bool
  s_tables :: "(string, StoredTable) gomap"
  s_sequences :: "(string, u64) gomap"
  s_nextID :: u64
  s_tableFiles :: "(string, TableFile) gomap"
  s_pageCache :: PageCache
  s_rowData :: "(string, Value list list) gomap"
  s_rowIDs :: "(string, u64 list) gomap"
  s_walFile :: "os_file option"
  s_walSeq :: u64
  s_blobThreshold :: int
  s_ftsIndexes :: "(string, FTSIndexInfo) gomap"
  s_authConfig :: "(string, iface) gomap"
  s_encrypted :: bool
  s_encryptor :: "Encryptor option"
  s_pendingPassword :: bool
  s_skipSave :: bool
  s_disk :: disk

datatype st_error =
    STExists string | STNoTable string | STTooLong string int nat | STNotNull string | STTable tf_error
  | STMarshal | STRead | STWrite | STCrypto | STBlob | STFts string | STNoKey | STPanic | STDiverge

type_synonym 'a st_method = "(Storage, st_error, 'a) go_method"

text \<open>\<^verbatim>\<open>m[k]\<close> with the zero value \<open>z\<close> of a missing key\<close>

definition getD :: "'v \<Rightarrow> ('k, 'v) gomap \<Rightarrow> 'k \<Rightarrow> 'v" where
  "getD z m k = (case map_of m k of Some v \<Rightarrow> v | None \<Rightarrow> z)"

definition NewStorage :: "bool \<Rightarrow> bool \<Rightarrow> disk \<Rightarrow> Storage" where
  "NewStorage inMemory hasPath d =
     \<lparr>s_enabled = \<not> inMemory, s_fs = (\<not> inMemory \<and> hasPath), s_tables = [], s_sequences = [], s_nextID = 1,
      s_tableFiles = [], s_pageCache = NewPageCache DefaultPageCacheConfig, s_rowData = [], s_rowIDs = [],
      s_walFile = None, s_walSeq = 0, s_blobThreshold = 64 * 1024, s_ftsIndexes = [], s_authConfig = [],
      s_encrypted = False, s_encryptor = None, s_pendingPassword = False, s_skipSave = False, s_disk = d\<rparr>"

section \<open>The log and the metadata\<close>

definition writeWAL :: "senv \<Rightarrow> WALRecord \<Rightarrow> unit st_method" where
  "writeWAL env record s =
     (case s_walFile s of
        None \<Rightarrow> (s, Inr ())
      | Some f \<Rightarrow>
          if \<not> s_enabled s then (s, Inr ())
          else
            let s = s\<lparr>s_walSeq := s_walSeq s + 1\<rparr>;
                record = record\<lparr>wal_LSN := s_walSeq s, wal_Timestamp := of_int (env_now env)\<rparr>
            in case recordJSON (env_rt env) record of
                 None \<Rightarrow> (s, Inl STMarshal)
               | Some j \<Rightarrow>
                   let code = (if s_encrypted s then map_option enc_code (s_encryptor s) else None);
                       data = encryptRecord (env_rnd env) code (env_enc env j)
                   in case appendFile (frame (wal_LSN record) data) f of
                        None \<Rightarrow> (s, Inl STWrite)
                      | Some f \<Rightarrow> (s\<lparr>s_walFile := Some f\<rparr>, Inr ()))"

text \<open>A value in the compact form of the metadata: null, \<^verbatim>\<open>[1, id, size]\<close> for a blob reference, else the raw data\<close>

definition rawJSON :: "go_rt \<Rightarrow> Value \<Rightarrow> json option" where
  "rawJSON rt v =
     (if IsNull v then Some JNull
      else case ValueBlobRef v of
             Some r \<Rightarrow> Some (JArr [JInt 1, JInt (uint (ref_ID r)), JInt (sint (ref_Size r))])
           | None \<Rightarrow> json_of_data rt (Data v))"

text \<open>The rows of a table; \<^verbatim>\<open>rowIDs[i]\<close> panics when there are fewer IDs than rows.\<close>

definition rowsJSON :: "go_rt \<Rightarrow> u64 list \<Rightarrow> Value list list \<Rightarrow> st_error + json" where
  "rowsJSON rt ids rows =
     (if length ids < length rows then Inl STPanic
      else case map_all (\<lambda>(i, row). map_option (\<lambda>js. JArr [JInt (uint i), JArr js]) (map_all (rawJSON rt) row))
                  (zip ids rows) of
             None \<Rightarrow> Inl STMarshal
           | Some js \<Rightarrow> Inr (JArr js))"

fun map_err :: "('a \<Rightarrow> 'e + 'b) \<Rightarrow> 'a list \<Rightarrow> 'e + 'b list" where
  "map_err f [] = Inr []"
| "map_err f (x # xs) = bindE (f x) (\<lambda>y. bindE (map_err f xs) (\<lambda>ys. Inr (y # ys)))"

definition marshal :: "json option \<Rightarrow> st_error + json" where
  "marshal j = (case j of None \<Rightarrow> Inl STMarshal | Some j \<Rightarrow> Inr j)"

definition ftsJSON :: "FTSIndexInfo \<Rightarrow> json" where
  "ftsJSON i = JObj [(''table_name'', json_string (fi_TableName i)), (''column_name'', json_string (fi_ColumnName i)),
     (''index_name'', json_string (fi_IndexName i))]"

definition omitEmpty :: "string \<Rightarrow> (string \<times> json) list \<Rightarrow> (string \<times> json) list" where
  "omitEmpty k kvs = (if kvs = [] then [] else [(k, JObj kvs)])"

definition metaJSON :: "go_rt \<Rightarrow> Storage \<Rightarrow> st_error + json" where
  "metaJSON rt s =
     bindE (map_err (\<lambda>(name, rows). bindE (rowsJSON rt (getD [] (s_rowIDs s) name) rows) (\<lambda>j. Inr (name, j))) (s_rowData s)) (\<lambda>rows.
     bindE (map_err (\<lambda>(name, t). bindE (marshal (tableJSON rt t)) (\<lambda>j. Inr (name, j))) (s_tables s)) (\<lambda>tables.
     bindE (map_err (\<lambda>(k, v). bindE (marshal (ifaceJSON rt v)) (\<lambda>j. Inr (k, j))) (s_authConfig s)) (\<lambda>auth.
     Inr (JObj ([(''version'', JInt 2), (''tables'', JObj tables),
                 (''sequences'', JObj (map (map_prod id (\<lambda>n. JInt (sint n))) (s_sequences s))),
                 (''next_id'', JInt (uint (s_nextID s)))]
                @ omitEmpty ''auth'' auth
                @ (if s_encrypted s then [(''encrypted'', JBool True)] else [])
                @ omitEmpty ''rows'' rows
                @ omitEmpty ''fts_indexes'' (map (map_prod id ftsJSON) (s_ftsIndexes s)))))))"

definition saveMetadata :: "senv \<Rightarrow> unit st_method" where
  "saveMetadata env s =
     (if \<not> s_enabled s \<or> \<not> s_fs s then (s, Inr ())
      else if s_skipSave s then (s, Inr ())
      else case metaJSON (env_rt env) s of
             Inl e \<Rightarrow> (s, Inl e)
           | Inr j \<Rightarrow>
               let code = (if s_encrypted s then map_option enc_code (s_encryptor s) else None);
                   data = encryptRecord (env_rnd env) code (env_enc env j)
               in if d_writable (s_disk s) then (s\<lparr>s_disk := (s_disk s)\<lparr>d_meta := Some data\<rparr>\<rparr>, Inr ())
                  else (s, Inl STWrite))"

definition persist :: "senv \<Rightarrow> WALRecord \<Rightarrow> unit st_method" where
  "persist env record s =
     (if s_enabled s then bindS (writeWAL env record) (\<lambda>_. saveMetadata env) s else (s, Inr ()))"

definition SetSkipSave :: "bool \<Rightarrow> Storage \<Rightarrow> Storage" where
  "SetSkipSave skip s = s\<lparr>s_skipSave := skip\<rparr>"

text \<open>\<^verbatim>\<open>s.walFile.Truncate(0)\<close>, \<^verbatim>\<open>Seek(0, 0)\<close>, \<^verbatim>\<open>s.walSeq = 0\<close>\<close>

definition truncateWAL :: "unit st_method" where
  "truncateWAL s =
     (case s_walFile s of
        None \<Rightarrow> (s, Inr ())
      | Some f \<Rightarrow> (case fileTruncate 0 f of
                      None \<Rightarrow> (s, Inl STWrite)
                    | Some f \<Rightarrow> (s\<lparr>s_walFile := Some f, s_walSeq := 0\<rparr>, Inr ())))"

definition ForceSave :: "senv \<Rightarrow> unit st_method" where
  "ForceSave env s =
     (let oldSkip = s_skipSave s
      in case bindS (saveMetadata env) (\<lambda>_. truncateWAL) (s\<lparr>s_skipSave := False\<rparr>) of
           (s, r) \<Rightarrow> (s\<lparr>s_skipSave := oldSkip\<rparr>, r))"

definition blankRecord :: WALRecord where
  "blankRecord = \<lparr>wal_LSN = 0, wal_TxnID = 0, wal_Type = 0, wal_TableID = 0, wal_RowID = 0, wal_Timestamp = 0,
     wal_Data = WNil, wal_OldData = WNil\<rparr>"

definition Checkpoint :: "senv \<Rightarrow> unit st_method" where
  "Checkpoint env s =
     (if \<not> s_enabled s then (s, Inr ())
      else bindS (saveMetadata env) (\<lambda>_. bindS (writeWAL env (blankRecord\<lparr>wal_Type := WALTypeCheckpoint\<rparr>)) (\<lambda>_. truncateWAL)) s)"

definition BeginTxn :: "Storage \<Rightarrow> Storage \<times> u64" where
  "BeginTxn s = (s\<lparr>s_walSeq := s_walSeq s + 1\<rparr>, s_walSeq s + 1)"

definition CommitTxn :: "senv \<Rightarrow> u64 \<Rightarrow> unit st_method" where
  "CommitTxn env txnID = writeWAL env (blankRecord\<lparr>wal_TxnID := txnID, wal_Type := WALTypeCommit\<rparr>)"

definition RollbackTxn :: "senv \<Rightarrow> u64 \<Rightarrow> unit st_method" where
  "RollbackTxn env txnID = writeWAL env (blankRecord\<lparr>wal_TxnID := txnID, wal_Type := WALTypeRollback\<rparr>)"

section \<open>Table files of the storage\<close>

definition lend :: "Storage \<Rightarrow> TableFile \<Rightarrow> TableFile" where
  "lend s tf = tf\<lparr>tf_cache := Some (s_pageCache s), tf_nextID := s_nextID s\<rparr>"

definition takeBack :: "string \<Rightarrow> TableFile \<Rightarrow> Storage \<Rightarrow> Storage" where
  "takeBack name tf s =
     s\<lparr>s_pageCache := (case tf_cache tf of Some c \<Rightarrow> c | None \<Rightarrow> s_pageCache s), s_nextID := tf_nextID tf,
       s_tableFiles := put_key name tf (s_tableFiles s),
       s_disk := (s_disk s)\<lparr>d_tables := put_key name (tf_file tf) (d_tables (s_disk s))\<rparr>\<rparr>"

definition onTable :: "string \<Rightarrow> TableFile \<Rightarrow> 'a tf_method \<Rightarrow> 'a st_method" where
  "onTable name tf m s =
     (case m (lend s tf) of
        (tf, Inl e) \<Rightarrow> (takeBack name tf s, Inl (STTable e))
      | (tf, Inr v) \<Rightarrow> (takeBack name tf s, Inr v))"

text \<open>A scan visits every page at most once unless the page chain is cyclic; these bounds are never reached on a proper file.\<close>

definition pageFuel :: "TableFile \<Rightarrow> nat" where
  "pageFuel tf = length (file_bytes (tf_file tf)) div PageSize16KB + 2"

definition rowFuel :: "TableFile \<Rightarrow> nat" where
  "rowFuel tf = pageFuel tf * MaxPageContentV2 + 2"

definition scanTable :: "string \<Rightarrow> TableFile \<Rightarrow> (u64 \<times> Value list) list st_method" where
  "scanTable name tf s =
     (case GetAllRowsWithIDs (pageFuel tf) (rowFuel tf) (lend s tf) of
        None \<Rightarrow> (s, Inl STDiverge)
      | Some (tf, Inl e) \<Rightarrow> (takeBack name tf s, Inl (STTable e))
      | Some (tf, Inr rows) \<Rightarrow> (takeBack name tf s, Inr rows))"

definition openTable :: "senv \<Rightarrow> string \<Rightarrow> Storage \<Rightarrow> tf_error + TableFile" where
  "openTable env name s =
     OpenTableFile (env_uncols env) (map_of (d_tables (s_disk s)) name) (Some (s_pageCache s)) (s_nextID s)"

definition createTableFile :: "senv \<Rightarrow> string \<Rightarrow> u64 \<Rightarrow> ColumnDef list \<Rightarrow> Storage \<Rightarrow> tf_error + TableFile" where
  "createTableFile env name tableID cols s =
     CreateTableFile (env_cols env) (map_of (d_tables (s_disk s)) name) (Some (s_pageCache s)) (s_nextID s) tableID
       (if cols = [] then None else Some cols)"

definition getTableFileLocked :: "senv \<Rightarrow> string \<Rightarrow> TableFile st_method" where
  "getTableFileLocked env name s =
     (case map_of (s_tableFiles s) name of
        Some tf \<Rightarrow> (s, Inr tf)
      | None \<Rightarrow>
          (case map_of (s_tables s) name of
             None \<Rightarrow> (s, Inl (STNoTable name))
           | Some info \<Rightarrow>
               (case (if has_key name (d_tables (s_disk s)) then openTable env name s
                      else createTableFile env name (tbl_ID info) (tbl_Columns info) s) of
                  Inl e \<Rightarrow> (s, Inl (STTable e))
                | Inr tf \<Rightarrow> (takeBack name tf s, Inr tf))))"

text \<open>
  The choice every row operation makes: the table file in memory, else the one found on disk when it opens,
  else the rows in memory. \<open>v2\<close> and \<open>v1\<close> are what the operation does with either.
\<close>

definition onRows :: "senv \<Rightarrow> string \<Rightarrow> (TableFile \<Rightarrow> 'a st_method) \<Rightarrow> 'a st_method \<Rightarrow> 'a st_method" where
  "onRows env name v2 v1 s =
     (case map_of (s_tableFiles s) name of
        Some tf \<Rightarrow> v2 tf s
      | None \<Rightarrow>
          if has_key name (d_tables (s_disk s)) then
            (case openTable env name s of
               Inl _ \<Rightarrow> v1 s
             | Inr tf \<Rightarrow> v2 tf (takeBack name tf s))
          else v1 s)"

section \<open>Tables\<close>

definition isAuto :: "ColumnDef \<Rightarrow> bool" where
  "isAuto col \<longleftrightarrow> col_AutoInc col \<or> col_Type col = TypeSeq"

definition seqKey :: "string \<Rightarrow> ColumnDef \<Rightarrow> string" where
  "seqKey table col = table @ ''_'' @ col_Name col"

definition resetSequences :: "string \<Rightarrow> ColumnDef list \<Rightarrow> Storage \<Rightarrow> Storage" where
  "resetSequences name cols s =
     s\<lparr>s_sequences := fold (\<lambda>col m. if isAuto col then put_key (seqKey name col) 0 m else m) cols (s_sequences s)\<rparr>"

definition updTable :: "string \<Rightarrow> (StoredTable \<Rightarrow> StoredTable) \<Rightarrow> Storage \<Rightarrow> Storage" where
  "updTable name f s =
     (case map_of (s_tables s) name of
        None \<Rightarrow> s
      | Some t \<Rightarrow> s\<lparr>s_tables := put_key name (f t) (s_tables s)\<rparr>)"

definition touchTable :: "senv \<Rightarrow> (int \<Rightarrow> int) \<Rightarrow> StoredTable \<Rightarrow> StoredTable" where
  "touchTable env count t = t\<lparr>tbl_RowCount := count (tbl_RowCount t), st_UpdatedAt := env_now env\<rparr>"

definition storedTable :: "senv \<Rightarrow> TableInfo \<Rightarrow> u64 \<Rightarrow> StoredTable" where
  "storedTable env info i =
     \<lparr>tbl_ID = i, tbl_Name = tbl_Name info, tbl_Columns = tbl_Columns info, tbl_RowCount = 0,
      st_DataFile = ''table_'' @ dec_nat (unat i) @ ''.db'', st_CreatedAt = env_now env, st_UpdatedAt = env_now env\<rparr>"

definition CreateTable :: "senv \<Rightarrow> TableInfo \<Rightarrow> unit st_method" where
  "CreateTable env info s =
     (let name = tbl_Name info
      in if has_key name (s_tables s) then (s, Inl (STExists name))
         else
           let i = s_nextID s;
               tableInfo = storedTable env info i;
               s = s\<lparr>s_nextID := i + 1, s_tables := put_key name tableInfo (s_tables s)\<rparr>;
               s = resetSequences name (tbl_Columns info) s
           in if s_enabled s then
                (if \<not> d_writable (s_disk s) then (s, Inl STWrite)
                 else case createTableFile env name i (tbl_Columns info) s of
                        Inl e \<Rightarrow> (s, Inl (STTable e))
                      | Inr tf \<Rightarrow>
                          persist env (blankRecord\<lparr>wal_Type := WALTypeCreateTable, wal_TableID := i, wal_Data := WTable tableInfo\<rparr>)
                            (takeBack name tf s))
              else (s\<lparr>s_rowData := put_key name [] (s_rowData s), s_rowIDs := put_key name [] (s_rowIDs s)\<rparr>, Inr ()))"

text \<open>
  \<^verbatim>\<open>DropTable\<close> removes the file named in \<^verbatim>\<open>info.DataFile\<close>, \<^verbatim>\<open>table_<ID>.db\<close>; the file of the table is \<^verbatim>\<open><name>.db\<close>, which stays,
  like the entry in \<^verbatim>\<open>s.tableFiles\<close>.
\<close>

definition removeDataFile :: "string \<Rightarrow> Storage \<Rightarrow> Storage" where
  "removeDataFile dataFile s =
     (if d_writable (s_disk s)
      then s\<lparr>s_disk := (s_disk s)\<lparr>d_tables := filter (\<lambda>(n, _). n @ ''.db'' \<noteq> dataFile) (d_tables (s_disk s))\<rparr>\<rparr>
      else s)"

definition DropTable :: "senv \<Rightarrow> string \<Rightarrow> unit st_method" where
  "DropTable env name s =
     (case map_of (s_tables s) name of
        None \<Rightarrow> (s, Inl (STNoTable name))
      | Some info \<Rightarrow>
          if s_enabled s \<and> st_DataFile info \<noteq> [] \<and> \<not> s_fs s then (s, Inl STPanic)
          else
            let s = (if s_enabled s \<and> st_DataFile info \<noteq> [] then removeDataFile (st_DataFile info) s else s);
                s = s\<lparr>s_sequences := fold (\<lambda>col m. if isAuto col then del_key (seqKey name col) m else m)
                          (tbl_Columns info) (s_sequences s)\<rparr>;
                s = s\<lparr>s_rowData := del_key name (s_rowData s), s_rowIDs := del_key name (s_rowIDs s),
                     s_tables := del_key name (s_tables s)\<rparr>
            in persist env (blankRecord\<lparr>wal_Type := WALTypeDropTable, wal_TableID := tbl_ID info, wal_Data := WName name\<rparr>) s)"

definition GetTableInfo :: "Storage \<Rightarrow> string \<Rightarrow> st_error + StoredTable" where
  "GetTableInfo s name = (case map_of (s_tables s) name of None \<Rightarrow> Inl (STNoTable name) | Some t \<Rightarrow> Inr t)"

definition ListTables :: "Storage \<Rightarrow> string list" where
  "ListTables s = keys_of (s_tables s)"

definition moveKey :: "'k \<Rightarrow> 'k \<Rightarrow> ('k, 'v) gomap \<Rightarrow> ('k, 'v) gomap" where
  "moveKey old new m = (case map_of m old of None \<Rightarrow> m | Some v \<Rightarrow> put_key new v (del_key old m))"

definition renameSequences :: "string \<Rightarrow> string \<Rightarrow> ColumnDef list \<Rightarrow> Storage \<Rightarrow> Storage" where
  "renameSequences old new cols s =
     s\<lparr>s_sequences := fold (\<lambda>col m. if isAuto col then moveKey (seqKey old col) (seqKey new col) m else m)
         cols (s_sequences s)\<rparr>"

definition RenameTable :: "senv \<Rightarrow> string \<Rightarrow> string \<Rightarrow> unit st_method" where
  "RenameTable env oldName newName s =
     (case map_of (s_tables s) oldName of
        None \<Rightarrow> (s, Inl (STNoTable oldName))
      | Some info \<Rightarrow>
          if has_key newName (s_tables s) then (s, Inl (STExists newName))
          else
            let s = s\<lparr>s_tables := put_key newName (info\<lparr>tbl_Name := newName\<rparr>) (del_key oldName (s_tables s))\<rparr>;
                s = (if has_key oldName (s_tableFiles s)
                     then s\<lparr>s_tableFiles := moveKey oldName newName (s_tableFiles s),
                            s_disk := (s_disk s)\<lparr>d_tables := moveKey oldName newName (d_tables (s_disk s))\<rparr>\<rparr>
                     else s);
                s = s\<lparr>s_rowData := moveKey oldName newName (s_rowData s), s_rowIDs := moveKey oldName newName (s_rowIDs s)\<rparr>;
                s = renameSequences oldName newName (tbl_Columns info) s
            in persist env (blankRecord\<lparr>wal_Type := WALTypeRenameTable, wal_TableID := tbl_ID info,
                 wal_Data := WName (oldName @ '':'' @ newName)\<rparr>) s)"

definition TruncateTable :: "senv \<Rightarrow> string \<Rightarrow> unit st_method" where
  "TruncateTable env name s =
     (case map_of (s_tables s) name of
        None \<Rightarrow> (s, Inl (STNoTable name))
      | Some info \<Rightarrow>
          (case map_of (s_tableFiles s) name of
             Some tf \<Rightarrow>
               bindS (onTable name tf TableFile_Clear) (\<lambda>_ s.
                 (updTable name (touchTable env (\<lambda>_. 0)) (resetSequences name (tbl_Columns info) s), Inr ())) s
           | None \<Rightarrow>
               let s = s\<lparr>s_rowData := put_key name [] (s_rowData s), s_rowIDs := put_key name [] (s_rowIDs s)\<rparr>;
                   s = resetSequences name (tbl_Columns info) s;
                   s = updTable name (touchTable env (\<lambda>_. 0)) s
               in persist env (blankRecord\<lparr>wal_Type := WALTypeTruncateTable, wal_TableID := tbl_ID info, wal_Data := WName name\<rparr>) s))"

section \<open>Blobs\<close>

definition writeBlobFile :: "senv \<Rightarrow> u64 \<Rightarrow> bytes \<Rightarrow> unit st_method" where
  "writeBlobFile env blobID data s =
     (let code = (if s_encrypted s then map_option enc_code (s_encryptor s) else None);
          d = encryptRecord (env_rnd env) code data
      in if d_writable (s_disk s)
         then (s\<lparr>s_disk := (s_disk s)\<lparr>d_blobs := put_key blobID d (d_blobs (s_disk s))\<rparr>\<rparr>, Inr ())
         else (s, Inl STWrite))"

definition processBlobValue :: "senv \<Rightarrow> Value \<Rightarrow> Storage \<Rightarrow> Storage \<times> Value" where
  "processBlobValue env v s =
     (case (IsNull v, Data v) of
        (False, GBytes data) \<Rightarrow>
          if s_blobThreshold s < int (length data) then
            let blobID = s_nextID s; s = s\<lparr>s_nextID := blobID + 1\<rparr>
            in case writeBlobFile env blobID data s of
                 (s, Inl _) \<Rightarrow> (s, v)
               | (s, Inr _) \<Rightarrow> (s, NewBlobRefValue blobID (of_nat (length data)))
          else (s, v)
      | _ \<Rightarrow> (s, v))"

definition ReadBlob :: "Storage \<Rightarrow> u64 \<Rightarrow> st_error + bytes" where
  "ReadBlob s blobID =
     (if \<not> s_enabled s then Inl STBlob
      else case map_of (d_blobs (s_disk s)) blobID of
             None \<Rightarrow> Inl STBlob
           | Some d \<Rightarrow>
               (case (s_encrypted s, s_encryptor s) of
                  (True, Some e) \<Rightarrow> (case Decrypt e (Some d) of Inr (Some x) \<Rightarrow> Inr x | _ \<Rightarrow> Inr d)
                | _ \<Rightarrow> Inr d))"

definition WriteBlob :: "senv \<Rightarrow> bytes \<Rightarrow> u64 st_method" where
  "WriteBlob env data s =
     (if \<not> s_enabled s then (s, Inl STBlob)
      else let blobID = s_nextID s
           in bindS (writeBlobFile env blobID data) (\<lambda>_. returnS blobID) (s\<lparr>s_nextID := blobID + 1\<rparr>))"

definition DeleteBlob :: "u64 \<Rightarrow> unit st_method" where
  "DeleteBlob blobID s =
     (if \<not> s_enabled s then (s, Inr ())
      else if has_key blobID (d_blobs (s_disk s)) \<and> d_writable (s_disk s)
           then (s\<lparr>s_disk := (s_disk s)\<lparr>d_blobs := del_key blobID (d_blobs (s_disk s))\<rparr>\<rparr>, Inr ())
      else (s, Inl STBlob))"

definition resolveBlobRef :: "Storage \<Rightarrow> Value \<Rightarrow> Value" where
  "resolveBlobRef s v =
     (case ValueBlobRef v of
        None \<Rightarrow> v
      | Some r \<Rightarrow>
          (case ReadBlob s (ref_ID r) of
             Inl _ \<Rightarrow> v
           | Inr d \<Rightarrow> \<lparr>Type = Type v, Data = GBytes d, IsNull = False, ValueBlobRef = Some r\<rparr>))"

section \<open>Inserting\<close>

definition padText :: "nat \<Rightarrow> string \<Rightarrow> string" where
  "padText n s = textOf (runesOf s @ replicate (n - RuneCountInString s) 32)"

text \<open>The CHAR, VARCHAR and NOT NULL checks; \<open>exempt\<close> says whether a generated column may be null.\<close>

definition processValue :: "go_rt \<Rightarrow> (ColumnDef \<Rightarrow> bool) \<Rightarrow> ColumnDef \<Rightarrow> Value \<Rightarrow> st_error + Value" where
  "processValue rt exempt col v =
     (let n = RuneCountInString (ToString rt v);
          isChar = (col_Type col = TypeChar \<and> 0 < col_Length col \<and> \<not> IsNull v)
      in if isChar \<and> col_Length col < int n then Inl (STTooLong (col_Name col) (col_Length col) n)
         else
           let v = (if isChar \<and> int n < col_Length col then NewStringValue (padText (nat (col_Length col)) (ToString rt v)) else v);
               m = RuneCountInString (ToString rt v)
           in if col_Type col = TypeVarchar \<and> 0 < col_Length col \<and> col_Length col < int m
              then Inl (STTooLong (col_Name col) (col_Length col) m)
              else if \<not> col_Nullable col \<and> IsNull v \<and> \<not> exempt col then Inl (STNotNull (col_Name col))
              else Inr v)"

definition processColumn :: "senv \<Rightarrow> ColumnDef \<Rightarrow> Value \<Rightarrow> Value st_method" where
  "processColumn env col v s =
     (case processValue (env_rt env) isAuto col v of
        Inl e \<Rightarrow> (s, Inl e)
      | Inr v \<Rightarrow>
          if s_enabled s \<and> 0 < s_blobThreshold s \<and> (col_Type col = TypeBlob \<or> col_Type col = TypeImage)
          then (case processBlobValue env v s of (s, v) \<Rightarrow> (s, Inr v))
          else (s, Inr v))"

fun processColumns :: "senv \<Rightarrow> ColumnDef list \<Rightarrow> Value list \<Rightarrow> Value list st_method" where
  "processColumns env (col # cols) (v # vs) =
     bindS (processColumn env col v) (\<lambda>v. bindS (processColumns env cols vs) (\<lambda>vs. returnS (v # vs)))"
| "processColumns env _ vs = returnS vs"

text \<open>The auto-increment loop: \<^verbatim>\<open>row[i]\<close> panics when the row is shorter than the columns.\<close>

fun assignSequences :: "string \<Rightarrow> ColumnDef list \<Rightarrow> Value list \<Rightarrow> u64 \<Rightarrow> (Value list \<times> u64) st_method" where
  "assignSequences table [] row lastID s = (s, Inr (row, lastID))"
| "assignSequences table (col # cols) row lastID s =
     (if isAuto col then
        let n = getD 0 (s_sequences s) (seqKey table col) + 1;
            s = s\<lparr>s_sequences := put_key (seqKey table col) n (s_sequences s)\<rparr>
        in case row of
             [] \<Rightarrow> (s, Inl STPanic)
           | v # vs \<Rightarrow> bindS (assignSequences table cols vs n) (\<lambda>(vs, l). returnS (NewIntValue n # vs, l)) s
      else
        case row of
          [] \<Rightarrow> assignSequences table cols [] lastID s
        | v # vs \<Rightarrow> bindS (assignSequences table cols vs lastID) (\<lambda>(vs, l). returnS (v # vs, l)) s)"

definition insertFile :: "senv \<Rightarrow> string \<Rightarrow> Value list \<Rightarrow> TableFile \<Rightarrow> u64 st_method" where
  "insertFile env name row tf =
     bindS (onTable name tf (InsertRow (env_rt env) row)) (\<lambda>rowID s.
       (updTable name (touchTable env (\<lambda>n. n + 1)) s, Inr rowID))"

definition insertMemory :: "senv \<Rightarrow> string \<Rightarrow> u64 \<Rightarrow> u64 \<Rightarrow> Value list \<Rightarrow> u64 st_method" where
  "insertMemory env name tableID rowID row s =
     bindS (\<lambda>s. if s_enabled s
                then writeWAL env (blankRecord\<lparr>wal_Type := WALTypeInsert, wal_TableID := tableID, wal_RowID := rowID,
                       wal_Data := WRow row\<rparr>) s
                else (s, Inr ()))
       (\<lambda>_ s.
          let s = s\<lparr>s_rowData := put_key name (getD [] (s_rowData s) name @ [row]) (s_rowData s),
                   s_rowIDs := put_key name (getD [] (s_rowIDs s) name @ [rowID]) (s_rowIDs s)\<rparr>;
              s = updTable name (touchTable env (\<lambda>n. n + 1)) s
          in if s_enabled s then bindS (saveMetadata env) (\<lambda>_. returnS rowID) s else (s, Inr rowID)) s"

definition Storage_InsertRow :: "senv \<Rightarrow> string \<Rightarrow> Value list \<Rightarrow> (u64 \<times> u64) st_method" where
  "Storage_InsertRow env name row s =
     (case map_of (s_tables s) name of
        None \<Rightarrow> (s, Inl (STNoTable name))
      | Some info \<Rightarrow>
          bindS (processColumns env (tbl_Columns info) row) (\<lambda>row.
          bindS (assignSequences name (tbl_Columns info) row 0) (\<lambda>(row, lastInsertID) s.
            let rowID = s_nextID s; s = s\<lparr>s_nextID := rowID + 1\<rparr>
            in bindS (onRows env name (insertFile env name row) (insertMemory env name (tbl_ID info) rowID row))
                 (\<lambda>rowID. returnS (rowID, lastInsertID)) s)) s)"

section \<open>Reading rows\<close>

definition GetRowsWithIDs :: "senv \<Rightarrow> string \<Rightarrow> (u64 \<times> Value list) list st_method" where
  "GetRowsWithIDs env name s =
     (if \<not> has_key name (s_tables s) then (s, Inl (STNoTable name))
      else bindS
        (onRows env name (scanTable name)
          (\<lambda>s. case map_of (s_rowData s) name of
                 None \<Rightarrow> (s, Inr [])
               | Some rows \<Rightarrow>
                   if length (getD [] (s_rowIDs s) name) < length rows then (s, Inl STPanic)
                   else (s, Inr (zip (getD [] (s_rowIDs s) name) rows))))
        (\<lambda>rows s. (s, Inr (map (\<lambda>(i, row). (i, map (resolveBlobRef s) row)) rows))) s)"

definition GetRows :: "senv \<Rightarrow> string \<Rightarrow> Value list list st_method" where
  "GetRows env name s =
     (if \<not> has_key name (s_tables s) then (s, Inl (STNoTable name))
      else bindS
        (onRows env name (\<lambda>tf. bindS (scanTable name tf) (\<lambda>rows. returnS (map snd rows)))
          (\<lambda>s. (s, Inr (getD [] (s_rowData s) name))))
        (\<lambda>rows s. (s, Inr (map (map (resolveBlobRef s)) rows))) s)"

definition GetRowsWithoutBlobRefs :: "string \<Rightarrow> Storage \<Rightarrow> st_error + Value list list" where
  "GetRowsWithoutBlobRefs name s =
     (if \<not> has_key name (s_tables s) then Inl (STNoTable name) else Inr (getD [] (s_rowData s) name))"

section \<open>Updating and deleting\<close>

text \<open>A table file is rewritten: all rows are read, the file is cleared and the rows are inserted again.\<close>

fun insertAll :: "senv \<Rightarrow> Value list list \<Rightarrow> unit tf_method" where
  "insertAll env [] tf = (tf, Inr ())"
| "insertAll env (row # rows) tf = bindS (InsertRow (env_rt env) row) (\<lambda>_. insertAll env rows) tf"

definition rewriteFile :: "senv \<Rightarrow> string \<Rightarrow> Value list list \<Rightarrow> unit st_method" where
  "rewriteFile env name rows s =
     (case map_of (s_tableFiles s) name of
        None \<Rightarrow> (s, Inl STPanic)
      | Some tf \<Rightarrow>
          bindS (onTable name tf (\<lambda>tf. insertAll env rows (fst (TableFile_Clear tf)))) (\<lambda>_ s.
            (updTable name (touchTable env (\<lambda>_. int (length rows))) s, Inr ())) s)"

definition putUpdates :: "(nat \<times> Value) list \<Rightarrow> Value list \<Rightarrow> Value list" where
  "putUpdates updates row = fold (\<lambda>(i, v) row. if i < length row then row[i := v] else row) updates row"

definition updateFile ::
  "senv \<Rightarrow> string \<Rightarrow> (nat, Value) gomap \<Rightarrow> (Value list \<Rightarrow> bool) \<Rightarrow> TableFile \<Rightarrow> nat st_method"
where
  "updateFile env name updates condition tf =
     bindS (scanTable name tf) (\<lambda>rows s.
       let n = length (filter (\<lambda>(_, row). condition row) rows);
           rows = map (\<lambda>(_, row). if condition row then putUpdates updates row else row) rows
       in if 0 < n then bindS (rewriteFile env name rows) (\<lambda>_. returnS n) s else (s, Inr n))"

definition deleteFile :: "senv \<Rightarrow> string \<Rightarrow> (Value list \<Rightarrow> bool) \<Rightarrow> TableFile \<Rightarrow> nat st_method" where
  "deleteFile env name condition tf =
     bindS (scanTable name tf) (\<lambda>rows s.
       let n = length (filter (\<lambda>(_, row). condition row) rows)
       in if 0 < n then bindS (rewriteFile env name (filter (\<lambda>row. \<not> condition row) (map snd rows))) (\<lambda>_. returnS n) s
          else (s, Inr n))"

text \<open>
  The loops over the rows in memory. The callbacks of the variants for full-text indexes are represented by
  the list of their arguments; \<open>cb\<close> says whether there is one. \<open>applyRow\<close> computes the new row from the old, with
  the columns already stored when a check fails.
\<close>

type_synonym calls = "(u64 \<times> Value list) list"

fun applyUpdates :: "go_rt \<Rightarrow> ColumnDef list \<Rightarrow> (nat \<times> Value) list \<Rightarrow> Value list \<Rightarrow> Value list \<times> st_error option" where
  "applyUpdates rt cols [] row = (row, None)"
| "applyUpdates rt cols ((i, v) # us) row =
     (if i < length row then
        (case (if i < length cols then processValue rt (\<lambda>_. False) (cols ! i) v else Inr v) of
           Inl e \<Rightarrow> (row, Some e)
         | Inr v \<Rightarrow> applyUpdates rt cols us (row[i := v]))
      else applyUpdates rt cols us row)"

definition setRow :: "string \<Rightarrow> nat \<Rightarrow> Value list \<Rightarrow> Storage \<Rightarrow> Storage" where
  "setRow name i row s = s\<lparr>s_rowData := put_key name ((getD [] (s_rowData s) name)[i := row]) (s_rowData s)\<rparr>"

fun updateLoop ::
  "senv \<Rightarrow> string \<Rightarrow> u64 \<Rightarrow> bool \<Rightarrow> (Value list \<Rightarrow> Value list \<times> st_error option) \<Rightarrow> (Value list \<Rightarrow> bool) \<Rightarrow> nat list
     \<Rightarrow> Storage \<Rightarrow> Storage \<times> calls \<times> (st_error + nat)"
where
  "updateLoop env name tableID cb applyRow condition [] s = (s, [], Inr 0)"
| "updateLoop env name tableID cb applyRow condition (i # is) s =
     (let row = getD [] (s_rowData s) name ! i
      in if \<not> condition row then updateLoop env name tableID cb applyRow condition is s
         else case applyRow row of
                (row', Some e) \<Rightarrow> (setRow name i row' s, [], Inl e)
              | (row', None) \<Rightarrow>
                  let s = setRow name i row' s; ids = getD [] (s_rowIDs s) name
                  in if (cb \<or> s_enabled s) \<and> length ids \<le> i then (s, [], Inl STPanic)
                     else case (if s_enabled s
                                then writeWAL env (blankRecord\<lparr>wal_Type := WALTypeUpdate, wal_TableID := tableID,
                                       wal_RowID := ids ! i, wal_Data := WRow row', wal_OldData := WRow row'\<rparr>) s
                                else (s, Inr ())) of
                            (s, Inl e) \<Rightarrow> (s, if cb then [(ids ! i, row')] else [], Inl e)
                          | (s, Inr _) \<Rightarrow>
                              (case updateLoop env name tableID cb applyRow condition is s of
                                 (s, tr, r) \<Rightarrow>
                                   (s, (if cb then (ids ! i, row') # tr else tr),
                                    case r of Inl e \<Rightarrow> Inl e | Inr n \<Rightarrow> Inr (Suc n))))"

definition updateMemory ::
  "senv \<Rightarrow> string \<Rightarrow> bool \<Rightarrow> (ColumnDef list \<Rightarrow> Value list \<Rightarrow> Value list \<times> st_error option) \<Rightarrow> (Value list \<Rightarrow> bool) \<Rightarrow> Storage
     \<Rightarrow> Storage \<times> calls \<times> (st_error + nat)"
where
  "updateMemory env name cb applyRow condition s =
     (case map_of (s_tables s) name of
        None \<Rightarrow> (s, [], Inl (STNoTable name))
      | Some info \<Rightarrow>
          (case map_of (s_rowData s) name of
             None \<Rightarrow> (s, [], Inr 0)
           | Some rows \<Rightarrow>
               (case updateLoop env name (tbl_ID info) cb (applyRow (tbl_Columns info)) condition [0..<length rows] s of
                  (s, tr, Inl e) \<Rightarrow> (s, tr, Inl e)
                | (s, tr, Inr n) \<Rightarrow>
                    if 0 < n \<and> s_enabled s
                    then (case saveMetadata env s of (s, Inl e) \<Rightarrow> (s, tr, Inl e) | (s, Inr _) \<Rightarrow> (s, tr, Inr n))
                    else (s, tr, Inr n))))"

definition UpdateRows :: "senv \<Rightarrow> string \<Rightarrow> (nat, Value) gomap \<Rightarrow> (Value list \<Rightarrow> bool) \<Rightarrow> nat st_method" where
  "UpdateRows env name updates condition s =
     (case (map_of (s_tables s) name, map_of (s_tableFiles s) name) of
        (None, _) \<Rightarrow> (s, Inl (STNoTable name))
      | (_, Some tf) \<Rightarrow> updateFile env name updates condition tf s
      | _ \<Rightarrow> (case updateMemory env name False (\<lambda>_ row. (putUpdates updates row, None)) condition s of (s, _, r) \<Rightarrow> (s, r)))"

definition UpdateRowsWithCallback ::
  "senv \<Rightarrow> string \<Rightarrow> (Value list \<Rightarrow> (nat, Value) gomap) \<Rightarrow> (Value list \<Rightarrow> bool) \<Rightarrow> bool \<Rightarrow> Storage
     \<Rightarrow> Storage \<times> calls \<times> (st_error + nat)"
where
  "UpdateRowsWithCallback env name updateFunc condition cb s =
     updateMemory env name cb (\<lambda>cols row. applyUpdates (env_rt env) cols (updateFunc row) row) condition s"

definition UpdateRowsWithFunc ::
  "senv \<Rightarrow> string \<Rightarrow> (Value list \<Rightarrow> (nat, Value) gomap) \<Rightarrow> (Value list \<Rightarrow> bool) \<Rightarrow> nat st_method"
where
  "UpdateRowsWithFunc env name updateFunc condition s =
     (case updateMemory env name False (\<lambda>cols row. applyUpdates (env_rt env) cols (updateFunc row) row) condition s of
        (s, _, r) \<Rightarrow> (s, r))"

text \<open>The deletion loop: it collects the rows that stay and logs the others; \<^verbatim>\<open>rowIDs[i]\<close> may panic.\<close>

fun deleteLoop ::
  "senv \<Rightarrow> u64 \<Rightarrow> bool \<Rightarrow> (Value list \<Rightarrow> bool) \<Rightarrow> Value list list \<Rightarrow> u64 list \<Rightarrow> Storage
     \<Rightarrow> Storage \<times> calls \<times> (st_error + (calls \<times> nat))"
where
  "deleteLoop env tableID cb condition [] ids s = (s, [], Inr ([], 0))"
| "deleteLoop env tableID cb condition (row # rows) ids s =
     (if ids = [] \<and> (cb \<or> s_enabled s \<or> \<not> condition row) then (s, [], Inl STPanic)
      else if condition row then
        (case (if s_enabled s
               then writeWAL env (blankRecord\<lparr>wal_Type := WALTypeDelete, wal_TableID := tableID, wal_RowID := hd ids,
                      wal_Data := WRow row\<rparr>) s
               else (s, Inr ())) of
           (s, Inl e) \<Rightarrow> (s, if cb then [(hd ids, row)] else [], Inl e)
         | (s, Inr _) \<Rightarrow>
             (case deleteLoop env tableID cb condition rows (tl ids) s of
                (s, tr, r) \<Rightarrow>
                  (s, (if cb then (hd ids, row) # tr else tr),
                   case r of Inl e \<Rightarrow> Inl e | Inr (kept, n) \<Rightarrow> Inr (kept, Suc n))))
      else
        (case deleteLoop env tableID cb condition rows (tl ids) s of
           (s, tr, r) \<Rightarrow> (s, tr, case r of Inl e \<Rightarrow> Inl e | Inr (kept, n) \<Rightarrow> Inr ((hd ids, row) # kept, n))))"

definition deleteMemory ::
  "senv \<Rightarrow> string \<Rightarrow> (Value list \<Rightarrow> bool) \<Rightarrow> bool \<Rightarrow> Storage \<Rightarrow> Storage \<times> calls \<times> (st_error + nat)"
where
  "deleteMemory env name condition cb s =
     (case map_of (s_tables s) name of
        None \<Rightarrow> (s, [], Inl (STNoTable name))
      | Some info \<Rightarrow>
          (case map_of (s_rowData s) name of
             None \<Rightarrow> (s, [], Inr 0)
           | Some rows \<Rightarrow>
               (case deleteLoop env (tbl_ID info) cb condition rows (getD [] (s_rowIDs s) name) s of
                  (s, tr, Inl e) \<Rightarrow> (s, tr, Inl e)
                | (s, tr, Inr (kept, n)) \<Rightarrow>
                    if 0 < n then
                      let s = s\<lparr>s_rowData := put_key name (map snd kept) (s_rowData s),
                               s_rowIDs := put_key name (map fst kept) (s_rowIDs s)\<rparr>;
                          s = updTable name (touchTable env (\<lambda>c. c - int n)) s
                      in if s_enabled s
                         then (case saveMetadata env s of (s, Inl e) \<Rightarrow> (s, tr, Inl e) | (s, Inr _) \<Rightarrow> (s, tr, Inr n))
                         else (s, tr, Inr n)
                    else (s, tr, Inr n))))"

definition DeleteRowsWithCallback ::
  "senv \<Rightarrow> string \<Rightarrow> (Value list \<Rightarrow> bool) \<Rightarrow> bool \<Rightarrow> Storage \<Rightarrow> Storage \<times> calls \<times> (st_error + nat)"
where
  "DeleteRowsWithCallback env name condition cb s = deleteMemory env name condition cb s"

definition DeleteRows :: "senv \<Rightarrow> string \<Rightarrow> (Value list \<Rightarrow> bool) \<Rightarrow> nat st_method" where
  "DeleteRows env name condition s =
     (case (map_of (s_tables s) name, map_of (s_tableFiles s) name) of
        (None, _) \<Rightarrow> (s, Inl (STNoTable name))
      | (_, Some tf) \<Rightarrow> deleteFile env name condition tf s
      | _ \<Rightarrow> (case deleteMemory env name condition False s of (s, _, r) \<Rightarrow> (s, r)))"

section \<open>Sequences, full-text indexes, encryption\<close>

definition GetSequence :: "Storage \<Rightarrow> string \<Rightarrow> u64" where
  "GetSequence s name = getD 0 (s_sequences s) name"

definition SetSequence :: "string \<Rightarrow> u64 \<Rightarrow> Storage \<Rightarrow> Storage" where
  "SetSequence name n s = s\<lparr>s_sequences := put_key name n (s_sequences s)\<rparr>"

definition SetAuthConfig :: "senv \<Rightarrow> (string, iface) gomap \<Rightarrow> unit st_method" where
  "SetAuthConfig env auth s = saveMetadata env (s\<lparr>s_authConfig := auth\<rparr>)"

text \<open>\<^verbatim>\<open>strings.EqualFold\<close> on column names, for ASCII letters\<close>

definition EqualFold :: "go_rt \<Rightarrow> string \<Rightarrow> string \<Rightarrow> bool" where
  "EqualFold rt s t \<longleftrightarrow> ToLower rt s = ToLower rt t"

definition CreateFTSIndex :: "senv \<Rightarrow> string \<Rightarrow> string \<Rightarrow> string \<Rightarrow> unit st_method" where
  "CreateFTSIndex env tableName columnName indexName s =
     (case map_of (s_tables s) tableName of
        None \<Rightarrow> (s, Inl (STNoTable tableName))
      | Some info \<Rightarrow>
          (case List.find (\<lambda>col. EqualFold (env_rt env) (col_Name col) columnName) (tbl_Columns info) of
             None \<Rightarrow> (s, Inl (STFts ''no such column''))
           | Some col \<Rightarrow>
               let k = tableName @ ''.'' @ columnName
               in if \<not> (IsString (col_Type col) \<or> col_Type col = TypeText) then (s, Inl (STFts ''not a text column''))
                  else if has_key k (s_ftsIndexes s) then (s, Inl (STFts ''exists''))
                  else
                    let s = s\<lparr>s_ftsIndexes := put_key k \<lparr>fi_TableName = tableName, fi_ColumnName = columnName, fi_IndexName = indexName\<rparr>
                               (s_ftsIndexes s)\<rparr>
                    in if s_enabled s then
                         (case saveMetadata env s of
                            (s, Inl e) \<Rightarrow> (s\<lparr>s_ftsIndexes := del_key k (s_ftsIndexes s)\<rparr>, Inl e)
                          | (s, Inr _) \<Rightarrow> (s, Inr ()))
                       else (s, Inr ())))"

definition DropFTSIndex :: "senv \<Rightarrow> string \<Rightarrow> string \<Rightarrow> unit st_method" where
  "DropFTSIndex env tableName columnName s =
     (let k = tableName @ ''.'' @ columnName
      in if \<not> has_key k (s_ftsIndexes s) then (s, Inl (STFts ''no such index''))
         else let s = s\<lparr>s_ftsIndexes := del_key k (s_ftsIndexes s)\<rparr>
              in if s_enabled s then saveMetadata env s else (s, Inr ()))"

definition HasFTSIndex :: "Storage \<Rightarrow> string \<Rightarrow> string \<Rightarrow> bool" where
  "HasFTSIndex s tableName columnName \<longleftrightarrow> has_key (tableName @ ''.'' @ columnName) (s_ftsIndexes s)"

definition encryptData :: "senv \<Rightarrow> Storage \<Rightarrow> bytes \<Rightarrow> bytes" where
  "encryptData env s data =
     encryptRecord (env_rnd env) (if s_encrypted s then map_option enc_code (s_encryptor s) else None) data"

definition decryptData :: "Storage \<Rightarrow> bytes \<Rightarrow> st_error + bytes" where
  "decryptData s data =
     (case (s_encrypted s, s_encryptor s) of
        (True, Some e) \<Rightarrow>
          if \<not> IsEncryptedFile data then Inr data
          else (case DecryptFile e (Some data) of Inr (Some d) \<Rightarrow> Inr d | Inr None \<Rightarrow> Inr [] | Inl _ \<Rightarrow> Inl STCrypto)
      | _ \<Rightarrow> Inr data)"

text \<open>\<^verbatim>\<open>ChangePassword\<close>: the old password only has to decrypt the metadata file.\<close>

definition ChangePassword :: "senv \<Rightarrow> string \<Rightarrow> string \<Rightarrow> unit st_method" where
  "ChangePassword env oldPassword newPassword s =
     (let invalid = (s_encrypted s \<and> s_encryptor s \<noteq> None \<and>
            (case d_meta (s_disk s) of
               Some d \<Rightarrow> IsEncryptedFile d \<and> isl (DecryptFile (NewEncryptor oldPassword []) (Some d))
             | None \<Rightarrow> False))
      in if invalid then (s, Inl STCrypto)
         else
           let s = (if newPassword = [] then s\<lparr>s_encrypted := False, s_encryptor := None\<rparr>
                    else s\<lparr>s_encrypted := True, s_encryptor := Some (NewEncryptor newPassword [])\<rparr>)
           in bindS (saveMetadata env) (\<lambda>_. truncateWAL) s)"

text \<open>\<^verbatim>\<open>Close\<close>: every table file is flushed and closed, errors ignored; then the metadata is saved and the log emptied.\<close>

fun closeTables :: "senv \<Rightarrow> string list \<Rightarrow> Storage \<Rightarrow> Storage" where
  "closeTables env [] s = s"
| "closeTables env (name # names) s =
     (case map_of (s_tableFiles s) name of
        None \<Rightarrow> closeTables env names s
      | Some tf \<Rightarrow>
          let tf = fst (TableFile_Flush (env_cols env) (lend s tf)); tf = fst (TableFile_Close (env_cols env) tf);
              s = takeBack name tf s
          in closeTables env names (s\<lparr>s_tableFiles := del_key name (s_tableFiles s)\<rparr>))"

definition Storage_Close :: "senv \<Rightarrow> unit st_method" where
  "Storage_Close env s =
     (let s = closeTables env (keys_of (s_tableFiles s)) s
      in if s_enabled s \<and> \<not> s_pendingPassword s
         then bindS (saveMetadata env) (\<lambda>_ s.
                (s\<lparr>s_walFile := (case s_walFile s of Some f \<Rightarrow> (case fileTruncate 0 f of Some f \<Rightarrow> Some f | None \<Rightarrow> Some f) | None \<Rightarrow> None)\<rparr>,
                 Inr ())) s
         else (s, Inr ()))"

end
