(* ===== verification/Database.thy ===== *)
theory Database
  imports Storage
begin

text \<open>
  What the storage promises to the layers above it, without its files: a database is a map from table
  names to columns and numbered rows, with sequences and one counter for fresh numbers. \<open>db_exec\<close> is the
  abstract operation, \<open>st_exec\<close> the one of the storage; the storage in memory mode is shown to implement it step by
  step, and every state it reaches is consistent.
\<close>

section \<open>The abstract database\<close>

type_synonym table = "ColumnDef list \<times> (u64 \<times> Value list) list"

record db =
  db_tables :: "string \<rightharpoonup> table"
  db_seqs :: "string \<rightharpoonup> u64"
  db_next :: u64

datatype st_op =
    OpCreate TableInfo | OpDrop string | OpRename string string | OpTruncate string | OpInsert string "Value list"
  | OpUpdate string "(nat, Value) gomap" "Value list \<Rightarrow> bool" | OpDelete string "Value list \<Rightarrow> bool"

datatype st_result = ROk | RCount nat | RRow u64 u64

definition clearSeqs :: "string \<Rightarrow> ColumnDef list \<Rightarrow> u64 option \<Rightarrow> (string \<rightharpoonup> u64) \<Rightarrow> (string \<rightharpoonup> u64)" where
  "clearSeqs name cols v = fold (\<lambda>col m. if isAuto col then m(seqKey name col := v) else m) cols"

definition moveSeqs :: "string \<Rightarrow> string \<Rightarrow> ColumnDef list \<Rightarrow> (string \<rightharpoonup> u64) \<Rightarrow> (string \<rightharpoonup> u64)" where
  "moveSeqs old new cols =
     fold (\<lambda>col m. if isAuto col \<and> m (seqKey old col) \<noteq> None
                    then m(seqKey old col := None, seqKey new col := m (seqKey old col)) else m) cols"

fun checkRow :: "go_rt \<Rightarrow> ColumnDef list \<Rightarrow> Value list \<Rightarrow> st_error + Value list" where
  "checkRow rt (col # cols) (v # vs) =
     bindE (processValue rt isAuto col v) (\<lambda>v. bindE (checkRow rt cols vs) (\<lambda>vs. Inr (v # vs)))"
| "checkRow rt _ vs = Inr vs"

fun numberRow ::
  "string \<Rightarrow> ColumnDef list \<Rightarrow> Value list \<Rightarrow> u64 \<Rightarrow> (string \<rightharpoonup> u64) \<Rightarrow> (string \<rightharpoonup> u64) \<times> (Value list \<times> u64) option"
where
  "numberRow table [] row lastID m = (m, Some (row, lastID))"
| "numberRow table (col # cols) row lastID m =
     (if isAuto col then
        let n = (case m (seqKey table col) of Some n \<Rightarrow> n | None \<Rightarrow> 0) + 1; m = m(seqKey table col \<mapsto> n)
        in case row of
             [] \<Rightarrow> (m, None)
           | v # vs \<Rightarrow> map_prod id (map_option (\<lambda>(vs, l). (NewIntValue n # vs, l))) (numberRow table cols vs n m)
      else
        case row of
          [] \<Rightarrow> numberRow table cols [] lastID m
        | v # vs \<Rightarrow> map_prod id (map_option (\<lambda>(vs, l). (v # vs, l))) (numberRow table cols vs lastID m))"

definition db_insert :: "go_rt \<Rightarrow> string \<Rightarrow> Value list \<Rightarrow> db \<Rightarrow> db \<times> (st_error + st_result)" where
  "db_insert rt name row db =
     (case db_tables db name of
        None \<Rightarrow> (db, Inl (STNoTable name))
      | Some (cols, rows) \<Rightarrow>
          (case checkRow rt cols row of
             Inl e \<Rightarrow> (db, Inl e)
           | Inr row \<Rightarrow>
               (case numberRow name cols row 0 (db_seqs db) of
                  (m, None) \<Rightarrow> (db\<lparr>db_seqs := m\<rparr>, Inl STPanic)
                | (m, Some (row, l)) \<Rightarrow>
                    (\<lparr>db_tables = (db_tables db)(name \<mapsto> (cols, rows @ [(db_next db, row)])), db_seqs = m,
                      db_next = db_next db + 1\<rparr>, Inr (RRow (db_next db) l)))))"

fun db_exec :: "go_rt \<Rightarrow> st_op \<Rightarrow> db \<Rightarrow> db \<times> (st_error + st_result)" where
  "db_exec rt (OpCreate info) db =
     (if db_tables db (tbl_Name info) \<noteq> None then (db, Inl (STExists (tbl_Name info)))
      else (\<lparr>db_tables = (db_tables db)(tbl_Name info \<mapsto> (tbl_Columns info, [])),
             db_seqs = clearSeqs (tbl_Name info) (tbl_Columns info) (Some 0) (db_seqs db), db_next = db_next db + 1\<rparr>, Inr ROk))"
| "db_exec rt (OpDrop name) db =
     (case db_tables db name of
        None \<Rightarrow> (db, Inl (STNoTable name))
      | Some (cols, _) \<Rightarrow>
          (db\<lparr>db_tables := (db_tables db)(name := None), db_seqs := clearSeqs name cols None (db_seqs db)\<rparr>, Inr ROk))"
| "db_exec rt (OpRename old new) db =
     (case db_tables db old of
        None \<Rightarrow> (db, Inl (STNoTable old))
      | Some (cols, rows) \<Rightarrow>
          if db_tables db new \<noteq> None then (db, Inl (STExists new))
          else (db\<lparr>db_tables := (db_tables db)(old := None, new \<mapsto> (cols, rows)),
                   db_seqs := moveSeqs old new cols (db_seqs db)\<rparr>, Inr ROk))"
| "db_exec rt (OpTruncate name) db =
     (case db_tables db name of
        None \<Rightarrow> (db, Inl (STNoTable name))
      | Some (cols, _) \<Rightarrow>
          (db\<lparr>db_tables := (db_tables db)(name \<mapsto> (cols, [])), db_seqs := clearSeqs name cols (Some 0) (db_seqs db)\<rparr>, Inr ROk))"
| "db_exec rt (OpInsert name row) db = db_insert rt name row db"
| "db_exec rt (OpUpdate name updates condition) db =
     (case db_tables db name of
        None \<Rightarrow> (db, Inl (STNoTable name))
      | Some (cols, rows) \<Rightarrow>
          (db\<lparr>db_tables := (db_tables db)(name \<mapsto>
                (cols, map (\<lambda>(i, row). (i, if condition row then putUpdates updates row else row)) rows))\<rparr>,
           Inr (RCount (length (filter (\<lambda>(_, row). condition row) rows)))))"
| "db_exec rt (OpDelete name condition) db =
     (case db_tables db name of
        None \<Rightarrow> (db, Inl (STNoTable name))
      | Some (cols, rows) \<Rightarrow>
          (db\<lparr>db_tables := (db_tables db)(name \<mapsto> (cols, filter (\<lambda>(_, row). \<not> condition row) rows))\<rparr>,
           Inr (RCount (length (filter (\<lambda>(_, row). condition row) rows)))))"

text \<open>The operations of the storage\<close>

fun st_exec :: "senv \<Rightarrow> st_op \<Rightarrow> st_result st_method" where
  "st_exec env (OpCreate info) = bindS (CreateTable env info) (\<lambda>_. returnS ROk)"
| "st_exec env (OpDrop name) = bindS (DropTable env name) (\<lambda>_. returnS ROk)"
| "st_exec env (OpRename old new) = bindS (RenameTable env old new) (\<lambda>_. returnS ROk)"
| "st_exec env (OpTruncate name) = bindS (TruncateTable env name) (\<lambda>_. returnS ROk)"
| "st_exec env (OpInsert name row) = bindS (Storage_InsertRow env name row) (\<lambda>(i, l). returnS (RRow i l))"
| "st_exec env (OpUpdate name updates condition) = bindS (UpdateRows env name updates condition) (\<lambda>n. returnS (RCount n))"
| "st_exec env (OpDelete name condition) = bindS (DeleteRows env name condition) (\<lambda>n. returnS (RCount n))"

section \<open>Consistent storages in memory\<close>

definition table_ok :: "u64 \<Rightarrow> string \<Rightarrow> StoredTable \<Rightarrow> Value list list \<Rightarrow> u64 list \<Rightarrow> bool" where
  "table_ok n name t rows ids \<longleftrightarrow>
     tbl_Name t = name \<and> tbl_ID t < n \<and> length ids = length rows \<and> tbl_RowCount t = int (length rows) \<and>
     distinct ids \<and> list_all (\<lambda>i. i < n) ids"

definition rows_ok ::
  "u64 \<Rightarrow> (string \<rightharpoonup> StoredTable) \<Rightarrow> (string \<rightharpoonup> Value list list) \<Rightarrow> (string \<rightharpoonup> u64 list) \<Rightarrow> bool"
where
  "rows_ok n T D I \<longleftrightarrow>
     dom D = dom T \<and> dom I = dom T \<and> inj_on (\<lambda>name. tbl_ID (the (T name))) (dom T) \<and>
     (\<forall>name t rows ids. T name = Some t \<and> D name = Some rows \<and> I name = Some ids \<longrightarrow> table_ok n name t rows ids)"

definition mem_inv :: "Storage \<Rightarrow> bool" where
  "mem_inv s \<longleftrightarrow>
     \<not> s_enabled s \<and> s_tableFiles s = [] \<and> d_tables (s_disk s) = [] \<and> distinct (keys_of (s_tables s)) \<and>
     rows_ok (s_nextID s) (map_of (s_tables s)) (map_of (s_rowData s)) (map_of (s_rowIDs s))"

definition abs_db :: "Storage \<Rightarrow> db" where
  "abs_db s =
     \<lparr>db_tables = (\<lambda>name. map_option (\<lambda>t. (tbl_Columns t, zip (getD [] (s_rowIDs s) name) (getD [] (s_rowData s) name)))
                       (map_of (s_tables s) name)),
      db_seqs = map_of (s_sequences s), db_next = s_nextID s\<rparr>"

lemma rows_okD:
  assumes "rows_ok n T D I" "T name = Some t"
  obtains rows ids where "D name = Some rows" "I name = Some ids" "table_ok n name t rows ids"
proof -
  have "name \<in> dom D" "name \<in> dom I" using assms by (auto simp: rows_ok_def)
  then obtain rows ids where "D name = Some rows" "I name = Some ids" by blast
  with assms that show ?thesis unfolding rows_ok_def by blast
qed

lemma table_ok_mono: "table_ok n name t rows ids \<Longrightarrow> n \<le> n' \<Longrightarrow> table_ok n' name t rows ids"
  by (auto simp: table_ok_def list_all_iff)

lemma rows_ok_put:
  assumes "rows_ok n T D I" "n \<le> n'" "table_ok n' name t rows ids"
    and new: "n \<le> tbl_ID t \<or> (\<exists>t'. T name = Some t' \<and> tbl_ID t' = tbl_ID t)"
  shows "rows_ok n' (T(name \<mapsto> t)) (D(name \<mapsto> rows)) (I(name \<mapsto> ids))"
proof -
  have low: "tbl_ID (the (T m)) < n" if "m \<in> dom T" for m
    using that assms(1) by (auto simp: table_ok_def elim!: rows_okD)
  have "inj_on (\<lambda>m. tbl_ID (the ((T(name \<mapsto> t)) m))) (dom (T(name \<mapsto> t)))"
  proof (rule inj_onI, goal_cases)
    case (1 x y)
    have inj: "inj_on (\<lambda>m. tbl_ID (the (T m))) (dom T)" using assms(1) by (simp add: rows_ok_def)
    have other: "m = name" if "m \<in> dom T" "tbl_ID (the (T m)) = tbl_ID t" for m
      using new
    proof
      assume "n \<le> tbl_ID t" with low [OF that(1)] that(2) show ?thesis by simp
    next
      assume "\<exists>t'. T name = Some t' \<and> tbl_ID t' = tbl_ID t"
      then show ?thesis using that inj_onD [OF inj, of m name] by (force simp: domIff)
    qed
    from 1 other inj show ?case by (auto simp: inj_on_def split: if_splits)
  qed
  moreover have "table_ok n' m t' rows' ids'"
    if "(T(name \<mapsto> t)) m = Some t'" "(D(name \<mapsto> rows)) m = Some rows'" "(I(name \<mapsto> ids)) m = Some ids'" for m t' rows' ids'
  proof (cases "m = name")
    case False
    then have "table_ok n m t' rows' ids'" using that assms(1) by (simp add: rows_ok_def)
    then show ?thesis using assms(2) by (rule table_ok_mono)
  qed (use that assms(3) in simp)
  ultimately show ?thesis using assms(1) by (auto simp: rows_ok_def)
qed

lemma rows_ok_del:
  assumes "rows_ok n T D I"
  shows "rows_ok n (T(name := None)) (D(name := None)) (I(name := None))"
  using assms by (auto simp: rows_ok_def inj_on_def split: if_splits)

section \<open>Each operation implements its specification\<close>

definition implements :: "senv \<Rightarrow> st_op \<Rightarrow> Storage \<Rightarrow> bool" where
  "implements env op s \<longleftrightarrow>
     (case (st_exec env op s, db_exec (env_rt env) op (abs_db s)) of
        ((s', r), (db', r')) \<Rightarrow> mem_inv s' \<and> abs_db s' = db' \<and> r = r')"

lemma implementsI:
  "st_exec env op s = (s', r) \<Longrightarrow> db_exec (env_rt env) op (abs_db s) = (abs_db s', r) \<Longrightarrow> mem_inv s' \<Longrightarrow> implements env op s"
  by (simp add: implements_def)

lemma persist_memory: "\<not> s_enabled s \<Longrightarrow> persist env r s = (s, Inr ())"
  by (simp add: persist_def)

lemma updTable_simps [simp]:
  "s_enabled (updTable name f s) = s_enabled s" "s_tableFiles (updTable name f s) = s_tableFiles s"
  "s_disk (updTable name f s) = s_disk s" "s_nextID (updTable name f s) = s_nextID s"
  "s_rowData (updTable name f s) = s_rowData s" "s_rowIDs (updTable name f s) = s_rowIDs s"
  "s_sequences (updTable name f s) = s_sequences s"
  "map_of (s_tables (updTable name f s)) = (map_of (s_tables s))(name := map_option f (map_of (s_tables s) name))"
  "distinct (keys_of (s_tables s)) \<Longrightarrow> distinct (keys_of (s_tables (updTable name f s)))"
  by (auto simp: updTable_def gomap fun_eq_iff split: option.split)

lemma resetSequences_simps [simp]:
  "s_enabled (resetSequences name cols s) = s_enabled s" "s_tableFiles (resetSequences name cols s) = s_tableFiles s"
  "s_disk (resetSequences name cols s) = s_disk s" "s_nextID (resetSequences name cols s) = s_nextID s"
  "s_rowData (resetSequences name cols s) = s_rowData s" "s_rowIDs (resetSequences name cols s) = s_rowIDs s"
  "s_tables (resetSequences name cols s) = s_tables s"
  by (simp_all add: resetSequences_def)

lemma map_of_fold_put:
  "map_of (fold (\<lambda>col m. if isAuto col then put_key (seqKey name col) v m else m) cols m) = clearSeqs name cols (Some v) (map_of m)"
  by (induction cols arbitrary: m) (simp_all add: clearSeqs_def gomap)

lemma map_of_fold_del:
  "map_of (fold (\<lambda>col m. if isAuto col then del_key (seqKey name col) m else m) cols m) = clearSeqs name cols None (map_of m)"
  by (induction cols arbitrary: m) (simp_all add: clearSeqs_def gomap)

lemma map_of_moveKey:
  "map_of (moveKey old new m) = (if map_of m old = None then map_of m else (map_of m)(old := None, new := map_of m old))"
  by (auto simp: moveKey_def gomap split: option.split)

lemma map_of_fold_move:
  "map_of (fold (\<lambda>col m. if isAuto col then moveKey (seqKey old col) (seqKey new col) m else m) cols m)
   = moveSeqs old new cols (map_of m)"
  by (induction cols arbitrary: m) (simp_all add: moveSeqs_def map_of_moveKey)

lemma map_of_resetSequences:
  "map_of (s_sequences (resetSequences name cols s)) = clearSeqs name cols (Some 0) (map_of (s_sequences s))"
  by (simp add: resetSequences_def map_of_fold_put)

lemma getD_simps [simp]: "map_of m k = Some v \<Longrightarrow> getD z m k = v" "getD z (put_key k v m) k = v"
  "k' \<noteq> k \<Longrightarrow> getD z (put_key k v m) k' = getD z m k'" "k' \<noteq> k \<Longrightarrow> getD z (del_key k m) k' = getD z m k'"
  by (simp_all add: getD_def gomap)

text \<open>An operation that replaces the rows of one table\<close>

lemma replace_rows:
  assumes inv: "mem_inv s" and t: "map_of (s_tables s) name = Some t"
    and s': "s' = (updTable name f s)\<lparr>s_rowData := put_key name rows (s_rowData s), s_rowIDs := put_key name ids (s_rowIDs s),
       s_sequences := q, s_nextID := n\<rparr>"
    and n: "s_nextID s \<le> n" and f: "tbl_ID (f t) = tbl_ID t" "tbl_Columns (f t) = tbl_Columns t" "table_ok n name (f t) rows ids"
  shows "mem_inv s'"
    and "abs_db s' = \<lparr>db_tables = (db_tables (abs_db s))(name \<mapsto> (tbl_Columns t, zip ids rows)), db_seqs = map_of q, db_next = n\<rparr>"
proof -
  have "rows_ok n ((map_of (s_tables s))(name \<mapsto> f t)) ((map_of (s_rowData s))(name \<mapsto> rows)) ((map_of (s_rowIDs s))(name \<mapsto> ids))"
    using inv t n f by (intro rows_ok_put [where n = "s_nextID s"]) (auto simp: mem_inv_def)
  with inv t show "mem_inv s'" by (simp add: mem_inv_def s' gomap)
  show "abs_db s' = \<lparr>db_tables = (db_tables (abs_db s))(name \<mapsto> (tbl_Columns t, zip ids rows)), db_seqs = map_of q, db_next = n\<rparr>"
    using t f by (auto simp: abs_db_def s' gomap fun_eq_iff)
qed

lemma mem_table:
  assumes "mem_inv s" "map_of (s_tables s) name = Some t"
  obtains rows ids where "map_of (s_rowData s) name = Some rows" "map_of (s_rowIDs s) name = Some ids"
    "table_ok (s_nextID s) name t rows ids" "db_tables (abs_db s) name = Some (tbl_Columns t, zip ids rows)"
proof -
  from assms have "rows_ok (s_nextID s) (map_of (s_tables s)) (map_of (s_rowData s)) (map_of (s_rowIDs s))"
    by (simp add: mem_inv_def)
  from this assms(2) obtain rows ids where *: "map_of (s_rowData s) name = Some rows" "map_of (s_rowIDs s) name = Some ids"
    "table_ok (s_nextID s) name t rows ids" by (rule rows_okD)
  then have "db_tables (abs_db s) name = Some (tbl_Columns t, zip ids rows)" using assms(2) by (simp add: abs_db_def)
  with * that show ?thesis by blast
qed

lemma mem_no_table: "map_of (s_tables s) name = None \<Longrightarrow> db_tables (abs_db s) name = None"
  by (simp add: abs_db_def)

lemma nowrap_le: "n + 1 \<noteq> (0::u64) \<Longrightarrow> n < n + 1"
  using unatSuc [of n] by (simp add: word_less_nat_alt add.commute)

lemma create_implements:
  assumes inv: "mem_inv s" and n: "s_nextID s + 1 \<noteq> 0"
  shows "implements env (OpCreate info) s"
proof (cases "map_of (s_tables s) (tbl_Name info)")
  case (Some t)
  then show ?thesis
    using inv by (intro implementsI [where s' = s]) (simp_all add: CreateTable_def bindS_def has_key_def Let_def abs_db_def)
next
  case None
  have no_key: "\<not> has_key (tbl_Name info) (s_tables s)" using None by (simp add: has_key_def)
  let ?name = "tbl_Name info" and ?n = "s_nextID s"
  let ?s = "(resetSequences ?name (tbl_Columns info)
      (s\<lparr>s_nextID := ?n + 1, s_tables := put_key ?name (storedTable env info ?n) (s_tables s)\<rparr>))
      \<lparr>s_rowData := put_key ?name [] (s_rowData s), s_rowIDs := put_key ?name [] (s_rowIDs s)\<rparr>"
  have "rows_ok (?n + 1) ((map_of (s_tables s))(?name \<mapsto> storedTable env info ?n)) ((map_of (s_rowData s))(?name \<mapsto> []))
      ((map_of (s_rowIDs s))(?name \<mapsto> []))"
    using inv nowrap_le [OF n] by (intro rows_ok_put [where n = ?n]) (auto simp: mem_inv_def storedTable_def table_ok_def)
  then have "mem_inv ?s" using inv by (simp add: mem_inv_def gomap)
  moreover have "st_exec env (OpCreate info) s = (?s, Inr ROk)"
    using inv no_key by (simp add: CreateTable_def bindS_def Let_def mem_inv_def returnS_def)
  moreover have "db_exec (env_rt env) (OpCreate info) (abs_db s) = (abs_db ?s, Inr ROk)"
    using None by (auto simp: abs_db_def storedTable_def map_of_resetSequences gomap fun_eq_iff)
  ultimately show ?thesis by (blast intro: implementsI)
qed

lemma drop_implements:
  assumes inv: "mem_inv s"
  shows "implements env (OpDrop name) s"
proof (cases "map_of (s_tables s) name")
  case None
  with inv show ?thesis by (intro implementsI [where s' = s]) (simp_all add: DropTable_def bindS_def mem_no_table)
next
  case (Some t)
  let ?s = "s\<lparr>s_sequences := fold (\<lambda>col m. if isAuto col then del_key (seqKey name col) m else m) (tbl_Columns t) (s_sequences s),
      s_rowData := del_key name (s_rowData s), s_rowIDs := del_key name (s_rowIDs s), s_tables := del_key name (s_tables s)\<rparr>"
  have "mem_inv ?s" using inv rows_ok_del by (auto simp: mem_inv_def gomap distinct_removeAll)
  moreover have "st_exec env (OpDrop name) s = (?s, Inr ROk)"
    using inv Some by (simp add: DropTable_def bindS_def Let_def mem_inv_def returnS_def persist_def)
  moreover have "db_exec (env_rt env) (OpDrop name) (abs_db s) = (abs_db ?s, Inr ROk)"
    using Some by (auto simp: abs_db_def map_of_fold_del gomap fun_eq_iff)
  ultimately show ?thesis by (blast intro: implementsI)
qed

lemma truncate_implements:
  assumes inv: "mem_inv s"
  shows "implements env (OpTruncate name) s"
proof (cases "map_of (s_tables s) name")
  case None
  with inv show ?thesis by (intro implementsI [where s' = s]) (simp_all add: TruncateTable_def bindS_def mem_no_table)
next
  case (Some t)
  obtain rows ids where t: "map_of (s_rowData s) name = Some rows" "map_of (s_rowIDs s) name = Some ids"
    "table_ok (s_nextID s) name t rows ids" "db_tables (abs_db s) name = Some (tbl_Columns t, zip ids rows)"
    using inv Some by (rule mem_table)
  define s' where "s' = updTable name (touchTable env (\<lambda>_. 0)) (resetSequences name (tbl_Columns t)
      (s\<lparr>s_rowData := put_key name [] (s_rowData s), s_rowIDs := put_key name [] (s_rowIDs s)\<rparr>))"
  have s': "s' = (updTable name (touchTable env (\<lambda>_. 0)) s)\<lparr>s_rowData := put_key name [] (s_rowData s),
      s_rowIDs := put_key name [] (s_rowIDs s), s_sequences := s_sequences (resetSequences name (tbl_Columns t) s),
      s_nextID := s_nextID s\<rparr>"
    using Some by (simp add: s'_def updTable_def resetSequences_def)
  note r = replace_rows [OF inv Some s' order_refl]
  have ok: "tbl_ID (touchTable env (\<lambda>_. 0) t) = tbl_ID t" "tbl_Columns (touchTable env (\<lambda>_. 0) t) = tbl_Columns t"
    "table_ok (s_nextID s) name (touchTable env (\<lambda>_. 0) t) [] []"
    using t by (simp_all add: touchTable_def table_ok_def)
  have "st_exec env (OpTruncate name) s = (s', Inr ROk)"
    using inv Some by (simp add: TruncateTable_def bindS_def Let_def mem_inv_def returnS_def persist_def s'_def)
  moreover have "db_exec (env_rt env) (OpTruncate name) (abs_db s) = (abs_db s', Inr ROk)"
    using t r(2) [OF ok] by (simp add: map_of_resetSequences) (simp add: abs_db_def)
  ultimately show ?thesis using r(1) [OF ok] by (blast intro: implementsI)
qed

lemma rename_implements:
  assumes inv: "mem_inv s"
  shows "implements env (OpRename old new) s"
proof (cases "map_of (s_tables s) old")
  case None
  with inv show ?thesis by (intro implementsI [where s' = s]) (simp_all add: RenameTable_def bindS_def mem_no_table)
next
  case (Some t)
  obtain rows ids where t: "map_of (s_rowData s) old = Some rows" "map_of (s_rowIDs s) old = Some ids"
    "table_ok (s_nextID s) old t rows ids" "db_tables (abs_db s) old = Some (tbl_Columns t, zip ids rows)"
    using inv Some by (rule mem_table)
  show ?thesis
  proof (cases "map_of (s_tables s) new")
    case (Some t')
    then show ?thesis
      using inv t \<open>map_of (s_tables s) old = Some t\<close>
      by (intro implementsI [where s' = s]) (simp_all add: RenameTable_def bindS_def has_key_def, simp add: abs_db_def)
  next
    case None
    have no_key: "\<not> has_key new (s_tables s)" using None by (simp add: has_key_def)
    have neq: "new \<noteq> old" using None Some by auto
    define s' where "s' = renameSequences old new (tbl_Columns t)
      (s\<lparr>s_tables := put_key new (t\<lparr>tbl_Name := new\<rparr>) (del_key old (s_tables s)),
         s_rowData := moveKey old new (s_rowData s), s_rowIDs := moveKey old new (s_rowIDs s)\<rparr>)"
    let ?T = "map_of (s_tables s)" and ?D = "map_of (s_rowData s)" and ?I = "map_of (s_rowIDs s)"
    have base: "rows_ok (s_nextID s) ?T ?D ?I" using inv by (simp add: mem_inv_def)
    have "rows_ok (s_nextID s) (?T(old := None, new \<mapsto> t\<lparr>tbl_Name := new\<rparr>)) (?D(old := None, new \<mapsto> rows)) (?I(old := None, new \<mapsto> ids))"
    proof -
      have ok: "table_ok (s_nextID s) new (t\<lparr>tbl_Name := new\<rparr>) rows ids" using t(3) by (simp add: table_ok_def)
      have inj: "inj_on (\<lambda>m. tbl_ID (the (?T m))) (dom ?T)" using base by (simp add: rows_ok_def)
      have "inj_on (\<lambda>m. tbl_ID (the ((?T(old := None, new \<mapsto> t\<lparr>tbl_Name := new\<rparr>)) m))) (dom (?T(old := None, new \<mapsto> t\<lparr>tbl_Name := new\<rparr>)))"
      proof (rule inj_onI, goal_cases)
        case (1 x y)
        have other: "m \<in> dom ?T \<Longrightarrow> tbl_ID (the (?T m)) = tbl_ID t \<Longrightarrow> m = old" for m
          using inj_onD [OF inj, of m old] Some by (force simp: domIff)
        from 1 other inj_onD [OF inj, of x y] show ?case by (auto simp: domIff split: if_splits)
      qed
      with base ok show ?thesis by (auto simp: rows_ok_def split: if_splits)
    qed
    then have "mem_inv s'"
      using inv t neq by (simp add: mem_inv_def s'_def renameSequences_def map_of_moveKey gomap distinct_removeAll)
    moreover have "st_exec env (OpRename old new) s = (s', Inr ROk)"
      using inv Some no_key
      by (simp add: RenameTable_def bindS_def Let_def mem_inv_def returnS_def persist_def s'_def renameSequences_def has_key_def)
    moreover have "db_exec (env_rt env) (OpRename old new) (abs_db s) = (abs_db s', Inr ROk)"
    proof -
      have nn: "db_tables (abs_db s) new = None" using None by (rule mem_no_table)
      have g: "getD [] (moveKey old new (s_rowData s)) m = (if m = new then rows else if m = old then [] else getD [] (s_rowData s) m)"
        "getD [] (moveKey old new (s_rowIDs s)) m = (if m = new then ids else if m = old then [] else getD [] (s_rowIDs s) m)" for m
        using t neq by (simp_all add: getD_def map_of_moveKey)
      have "abs_db s' = (abs_db s)\<lparr>db_tables := (db_tables (abs_db s))(old := None, new \<mapsto> (tbl_Columns t, zip ids rows)),
          db_seqs := moveSeqs old new (tbl_Columns t) (db_seqs (abs_db s))\<rparr>"
        using neq by (auto simp: abs_db_def s'_def renameSequences_def map_of_fold_move g gomap fun_eq_iff)
      then show ?thesis using t nn by simp
    qed
    ultimately show ?thesis by (blast intro: implementsI)
  qed
qed

lemma processColumns_memory: "\<not> s_enabled s \<Longrightarrow> processColumns env cols row s = (s, checkRow (env_rt env) cols row)"
  by (induction "env_rt env" cols row rule: checkRow.induct)
     (auto simp: bindS_def returnS_def processColumn_def bindE_def split: sum.split)

lemma assignSequences_number:
  "\<exists>q. assignSequences table cols row l s =
      (s\<lparr>s_sequences := q\<rparr>, case snd (numberRow table cols row l (map_of (s_sequences s))) of None \<Rightarrow> Inl STPanic | Some x \<Rightarrow> Inr x)
    \<and> map_of q = fst (numberRow table cols row l (map_of (s_sequences s)))"
proof (induction cols arbitrary: row l s)
  case Nil
  show ?case by (rule exI [of _ "s_sequences s"]) simp
next
  case (Cons col cols)
  define n where "n = getD 0 (s_sequences s) (seqKey table col) + 1"
  have n: "n = (case map_of (s_sequences s) (seqKey table col) of Some n \<Rightarrow> n | None \<Rightarrow> 0) + 1" by (simp add: n_def getD_def)
  let ?s = "s\<lparr>s_sequences := put_key (seqKey table col) n (s_sequences s)\<rparr>"
  have upd: "map_of (s_sequences ?s) = (map_of (s_sequences s))(seqKey table col \<mapsto> n)" by (simp add: gomap)
  show ?case
  proof (cases row)
    case Nil
    show ?thesis
    proof (cases "isAuto col")
      case True
      with Nil upd show ?thesis
        by (intro exI [of _ "put_key (seqKey table col) n (s_sequences s)"]) (simp add: Let_def n_def [symmetric] n [symmetric])
    next
      case False
      with Nil Cons.IH [of "[]" l s] show ?thesis by simp
    qed
  next
    case (Cons v vs)
    show ?thesis
    proof (cases "isAuto col")
      case True
      obtain q where q: "assignSequences table cols vs n ?s = (?s\<lparr>s_sequences := q\<rparr>,
          case snd (numberRow table cols vs n (map_of (s_sequences ?s))) of None \<Rightarrow> Inl STPanic | Some x \<Rightarrow> Inr x)"
        "map_of q = fst (numberRow table cols vs n (map_of (s_sequences ?s)))" using Cons.IH [of vs n ?s] by blast
      show ?thesis
        using True Cons q [unfolded upd]
        by (intro exI [of _ q])
           (auto simp: Let_def n_def [symmetric] n [symmetric] upd bindS_def returnS_def split: option.split)
    next
      case False
      obtain q where q: "assignSequences table cols vs l s = (s\<lparr>s_sequences := q\<rparr>,
          case snd (numberRow table cols vs l (map_of (s_sequences s))) of None \<Rightarrow> Inl STPanic | Some x \<Rightarrow> Inr x)"
        "map_of q = fst (numberRow table cols vs l (map_of (s_sequences s)))" using Cons.IH [of vs l s] by blast
      show ?thesis
        using False Cons q by (intro exI [of _ q]) (auto simp: bindS_def returnS_def split: option.split)
    qed
  qed
qed

lemma insert_implements:
  assumes inv: "mem_inv s" and n: "s_nextID s + 1 \<noteq> 0"
  shows "implements env (OpInsert name row) s"
proof (cases "map_of (s_tables s) name")
  case None
  with inv show ?thesis
    by (intro implementsI [where s' = s]) (simp_all add: Storage_InsertRow_def bindS_def mem_no_table db_insert_def)
next
  case (Some t)
  note mem = inv [unfolded mem_inv_def]
  obtain rows ids where t: "map_of (s_rowData s) name = Some rows" "map_of (s_rowIDs s) name = Some ids"
    "table_ok (s_nextID s) name t rows ids" "db_tables (abs_db s) name = Some (tbl_Columns t, zip ids rows)"
    using inv Some by (rule mem_table)
  have seqs: "db_seqs (abs_db s) = map_of (s_sequences s)" "db_next (abs_db s) = s_nextID s" by (simp_all add: abs_db_def)
  show ?thesis
  proof (cases "checkRow (env_rt env) (tbl_Columns t) row")
    case (Inl e)
    with inv mem Some t show ?thesis
      by (intro implementsI [where s' = s])
         (simp_all add: Storage_InsertRow_def bindS_def processColumns_memory db_insert_def)
  next
    case (Inr row1)
    obtain q where q: "assignSequences name (tbl_Columns t) row1 0 s = (s\<lparr>s_sequences := q\<rparr>,
        case snd (numberRow name (tbl_Columns t) row1 0 (map_of (s_sequences s))) of None \<Rightarrow> Inl STPanic | Some x \<Rightarrow> Inr x)"
      "map_of q = fst (numberRow name (tbl_Columns t) row1 0 (map_of (s_sequences s)))"
      using assignSequences_number [of name "tbl_Columns t" row1 0 s] by blast
    show ?thesis
    proof (cases "numberRow name (tbl_Columns t) row1 0 (map_of (s_sequences s))")
      case (Pair m res)
      show ?thesis
      proof (cases res)
        case None
        have "mem_inv (s\<lparr>s_sequences := q\<rparr>)" using inv by (simp add: mem_inv_def)
        then show ?thesis
          using mem Some t q Inr Pair None seqs
          by (intro implementsI [where s' = "s\<lparr>s_sequences := q\<rparr>"])
             (simp_all add: Storage_InsertRow_def bindS_def processColumns_memory db_insert_def, simp add: abs_db_def)
      next
        case (Some x)
        obtain row2 l where x: "x = (row2, l)" by (cases x)
        let ?n = "s_nextID s"
        define s' where "s' = updTable name (touchTable env (\<lambda>n. n + 1)) (s\<lparr>s_sequences := q, s_nextID := ?n + 1,
            s_rowData := put_key name (rows @ [row2]) (s_rowData s), s_rowIDs := put_key name (ids @ [?n]) (s_rowIDs s)\<rparr>)"
        have s': "s' = (updTable name (touchTable env (\<lambda>n. n + 1)) s)\<lparr>s_rowData := put_key name (rows @ [row2]) (s_rowData s),
            s_rowIDs := put_key name (ids @ [?n]) (s_rowIDs s), s_sequences := q, s_nextID := ?n + 1\<rparr>"
          using \<open>map_of (s_tables s) name = Some t\<close> by (simp add: s'_def updTable_def)
        have ok: "tbl_ID (touchTable env (\<lambda>n. n + 1) t) = tbl_ID t" "tbl_Columns (touchTable env (\<lambda>n. n + 1) t) = tbl_Columns t"
          "table_ok (?n + 1) name (touchTable env (\<lambda>n. n + 1) t) (rows @ [row2]) (ids @ [?n])"
          using t(3) nowrap_le [OF n] by (auto simp: touchTable_def table_ok_def list_all_iff)
        note r = replace_rows [OF inv \<open>map_of (s_tables s) name = Some t\<close> s' less_imp_le [OF nowrap_le [OF n]] ok]
        have "map_of (s_tableFiles s) name = None" "\<not> has_key name (d_tables (s_disk s))" using mem by (simp_all add: has_key_def)
        then have "st_exec env (OpInsert name row) s = (s', Inr (RRow ?n l))"
          using mem \<open>map_of (s_tables s) name = Some t\<close> t q Inr Pair Some x
          by (simp add: Storage_InsertRow_def bindS_def processColumns_memory onRows_def insertMemory_def Let_def returnS_def s'_def)
        moreover have "db_exec (env_rt env) (OpInsert name row) (abs_db s) = (abs_db s', Inr (RRow ?n l))"
          using t q Inr Pair Some x r(2) seqs
          by (simp add: db_insert_def table_ok_def)
        ultimately show ?thesis using r(1) by (blast intro: implementsI)
      qed
    qed
  qed
qed

lemma updateLoop_memory:
  assumes "\<not> s_enabled s" "map_of (s_rowData s) name = Some R" "k \<le> length R"
  shows "\<exists>d. updateLoop env name tid False (\<lambda>row. (f row, None)) condition [k..<length R] s =
      (s\<lparr>s_rowData := d\<rparr>, [], Inr (length (filter condition (drop k R)))) \<and>
    map_of d = (map_of (s_rowData s))(name \<mapsto> take k R @ map (\<lambda>row. if condition row then f row else row) (drop k R))"
  using assms
proof (induction "length R - k" arbitrary: k s R)
  case 0
  then have "k = length R" by simp
  with 0 show ?case by (intro exI [of _ "s_rowData s"]) (auto simp: fun_eq_iff)
next
  case (Suc m)
  then have k: "k < length R" "m = length R - Suc k" by simp_all
  have upt: "[k..<length R] = k # [Suc k..<length R]" using k by (simp add: upt_rec)
  have R: "getD [] (s_rowData s) name = R" using Suc.prems by simp
  have dr: "drop k R = R ! k # drop (Suc k) R" using k(1) by (simp add: Cons_nth_drop_Suc)
  show ?case
  proof (cases "condition (R ! k)")
    case False
    obtain d where d: "updateLoop env name tid False (\<lambda>row. (f row, None)) condition [Suc k..<length R] s =
        (s\<lparr>s_rowData := d\<rparr>, [], Inr (length (filter condition (drop (Suc k) R))))"
      "map_of d = (map_of (s_rowData s))(name \<mapsto> take (Suc k) R @ map (\<lambda>row. if condition row then f row else row) (drop (Suc k) R))"
      using Suc.hyps(1) [OF k(2) Suc.prems(1,2)] k by auto
    with False R dr show ?thesis
      by (intro exI [of _ d]) (simp add: upt take_Suc_conv_app_nth k)
  next
    case True
    let ?s = "setRow name k (f (R ! k)) s" and ?R = "R[k := f (R ! k)]"
    have s: "\<not> s_enabled ?s" "map_of (s_rowData ?s) name = Some ?R"
      using Suc.prems R by (simp_all add: setRow_def gomap)
    obtain d where d: "updateLoop env name tid False (\<lambda>row. (f row, None)) condition [Suc k..<length ?R] ?s =
        (?s\<lparr>s_rowData := d\<rparr>, [], Inr (length (filter condition (drop (Suc k) ?R))))"
      "map_of d = (map_of (s_rowData ?s))(name \<mapsto> take (Suc k) ?R @ map (\<lambda>row. if condition row then f row else row) (drop (Suc k) ?R))"
      using Suc.hyps(1) [of ?R "Suc k" ?s] k s by auto
    have "?s\<lparr>s_rowData := d\<rparr> = s\<lparr>s_rowData := d\<rparr>" by (simp add: setRow_def)
    with True R dr d s k Suc.prems show ?thesis
      by (intro exI [of _ d]) (simp add: upt take_Suc_conv_app_nth Let_def setRow_def gomap)
  qed
qed

lemma deleteLoop_memory:
  "\<not> s_enabled s \<Longrightarrow> length ids = length rows \<Longrightarrow>
   deleteLoop env tid False condition rows ids s =
     (s, [], Inr (filter (\<lambda>(_, row). \<not> condition row) (zip ids rows), length (filter condition rows)))"
proof (induction rows arbitrary: ids)
  case (Cons row rows)
  then obtain i ids' where "ids = i # ids'" "length ids' = length rows" by (cases ids) auto
  with Cons show ?case by simp
qed simp

lemma filter_zip_snd: "length ids = length rows \<Longrightarrow> filter (\<lambda>(_, row). P row) (zip ids rows) = [] \<longleftrightarrow> filter P rows = []"
  "length ids = length rows \<Longrightarrow> length (filter (\<lambda>(_, row). P row) (zip ids rows)) = length (filter P rows)"
proof -
  show "length ids = length rows \<Longrightarrow> length (filter (\<lambda>(_, row). P row) (zip ids rows)) = length (filter P rows)"
    by (induction ids rows rule: list_induct2) auto
  then show "length ids = length rows \<Longrightarrow> filter (\<lambda>(_, row). P row) (zip ids rows) = [] \<longleftrightarrow> filter P rows = []"
    by (metis length_0_conv)
qed

lemma abs_rowData:
  assumes "map_of (s_tables s) name = Some t" "map_of (s_rowIDs s) name = Some ids" "map_of d = (map_of (s_rowData s))(name \<mapsto> rows)"
  shows "abs_db (s\<lparr>s_rowData := d\<rparr>) = (abs_db s)\<lparr>db_tables := (db_tables (abs_db s))(name \<mapsto> (tbl_Columns t, zip ids rows))\<rparr>"
  using assms by (auto simp: abs_db_def getD_def fun_eq_iff)

lemma update_implements:
  assumes inv: "mem_inv s"
  shows "implements env (OpUpdate name updates condition) s"
proof (cases "map_of (s_tables s) name")
  case None
  with inv show ?thesis by (intro implementsI [where s' = s]) (simp_all add: UpdateRows_def bindS_def mem_no_table)
next
  case (Some t)
  note mem = inv [unfolded mem_inv_def]
  obtain rows ids where t: "map_of (s_rowData s) name = Some rows" "map_of (s_rowIDs s) name = Some ids"
    "table_ok (s_nextID s) name t rows ids" "db_tables (abs_db s) name = Some (tbl_Columns t, zip ids rows)"
    using inv Some by (rule mem_table)
  let ?g = "\<lambda>row. if condition row then putUpdates updates row else row"
  obtain d where d: "updateLoop env name (tbl_ID t) False (\<lambda>row. (putUpdates updates row, None)) condition [0..<length rows] s =
      (s\<lparr>s_rowData := d\<rparr>, [], Inr (length (filter condition rows)))" "map_of d = (map_of (s_rowData s))(name \<mapsto> map ?g rows)"
    using updateLoop_memory [of s name rows 0 env "tbl_ID t" "putUpdates updates" condition] mem t by auto
  have "map_of (s_tables s) = (map_of (s_tables s))(name \<mapsto> t)" "map_of (s_rowIDs s) = (map_of (s_rowIDs s))(name \<mapsto> ids)"
    using Some t by (auto simp: fun_eq_iff)
  moreover have "rows_ok (s_nextID s) ((map_of (s_tables s))(name \<mapsto> t)) ((map_of (s_rowData s))(name \<mapsto> map ?g rows)) ((map_of (s_rowIDs s))(name \<mapsto> ids))"
    using mem Some t by (intro rows_ok_put [where n = "s_nextID s"]) (auto simp: table_ok_def)
  ultimately have "mem_inv (s\<lparr>s_rowData := d\<rparr>)" using mem d by (simp add: mem_inv_def)
  moreover have "st_exec env (OpUpdate name updates condition) s = (s\<lparr>s_rowData := d\<rparr>, Inr (RCount (length (filter condition rows))))"
    using mem Some t d by (simp add: UpdateRows_def updateMemory_def bindS_def returnS_def)
  moreover have "db_exec (env_rt env) (OpUpdate name updates condition) (abs_db s) =
      (abs_db (s\<lparr>s_rowData := d\<rparr>), Inr (RCount (length (filter condition rows))))"
  proof -
    have len: "length ids = length rows" using t(3) by (simp add: table_ok_def)
    then have "map (\<lambda>(i, row). (i, ?g row)) (zip ids rows) = zip ids (map ?g rows)"
      by (induction ids rows rule: list_induct2) auto
    with t len abs_rowData [OF Some t(2) d(2)] show ?thesis by (simp add: filter_zip_snd)
  qed
  ultimately show ?thesis by (blast intro: implementsI)
qed

lemma delete_implements:
  assumes inv: "mem_inv s"
  shows "implements env (OpDelete name condition) s"
proof (cases "map_of (s_tables s) name")
  case None
  with inv show ?thesis by (intro implementsI [where s' = s]) (simp_all add: DeleteRows_def bindS_def mem_no_table)
next
  case (Some t)
  note mem = inv [unfolded mem_inv_def]
  obtain rows ids where t: "map_of (s_rowData s) name = Some rows" "map_of (s_rowIDs s) name = Some ids"
    "table_ok (s_nextID s) name t rows ids" "db_tables (abs_db s) name = Some (tbl_Columns t, zip ids rows)"
    using inv Some by (rule mem_table)
  have len: "length ids = length rows" using t(3) by (simp add: table_ok_def)
  let ?kept = "filter (\<lambda>(_, row). \<not> condition row) (zip ids rows)" and ?n = "length (filter condition rows)"
  have loop: "deleteLoop env (tbl_ID t) False condition rows ids s = (s, [], Inr (?kept, ?n))"
    using mem len by (simp add: deleteLoop_memory)
  have spec: "db_exec (env_rt env) (OpDelete name condition) (abs_db s) =
      ((abs_db s)\<lparr>db_tables := (db_tables (abs_db s))(name \<mapsto> (tbl_Columns t, ?kept))\<rparr>, Inr (RCount ?n))"
    using t len by (simp add: filter_zip_snd)
  show ?thesis
  proof (cases "?n = 0")
    case True
    then have "?kept = zip ids rows" by (intro filter_True) (auto simp: filter_empty_conv dest: set_zip_rightD)
    then have "(abs_db s)\<lparr>db_tables := (db_tables (abs_db s))(name \<mapsto> (tbl_Columns t, ?kept))\<rparr> = abs_db s"
      using t by (simp add: map_upd_triv)
    with True spec loop inv mem Some t show ?thesis
      by (intro implementsI [where s' = s]) (simp_all add: DeleteRows_def deleteMemory_def bindS_def returnS_def)
  next
    case False
    define s' where "s' = updTable name (touchTable env (\<lambda>c. c - int ?n)) (s\<lparr>s_rowData := put_key name (map snd ?kept) (s_rowData s),
        s_rowIDs := put_key name (map fst ?kept) (s_rowIDs s)\<rparr>)"
    have s': "s' = (updTable name (touchTable env (\<lambda>c. c - int ?n)) s)\<lparr>s_rowData := put_key name (map snd ?kept) (s_rowData s),
        s_rowIDs := put_key name (map fst ?kept) (s_rowIDs s), s_sequences := s_sequences s, s_nextID := s_nextID s\<rparr>"
      using Some by (simp add: s'_def updTable_def)
    have sum: "length ?kept + ?n = length rows"
      using len sum_length_filter_compl [of condition rows] by (simp add: filter_zip_snd [where P = "\<lambda>r. \<not> condition r"])
    have "distinct (map fst ?kept)" "list_all (\<lambda>i. i < s_nextID s) (map fst ?kept)"
      using t(3) len by (auto simp: table_ok_def list_all_iff distinct_map_filter dest: set_zip_leftD)
    then have ok: "tbl_ID (touchTable env (\<lambda>c. c - int ?n) t) = tbl_ID t" "tbl_Columns (touchTable env (\<lambda>c. c - int ?n) t) = tbl_Columns t"
      "table_ok (s_nextID s) name (touchTable env (\<lambda>c. c - int ?n) t) (map snd ?kept) (map fst ?kept)"
      using t(3) sum by (auto simp: touchTable_def table_ok_def)
    note r = replace_rows [OF inv Some s' order_refl ok]
    have "st_exec env (OpDelete name condition) s = (s', Inr (RCount ?n))"
      using False loop mem Some t by (simp add: DeleteRows_def deleteMemory_def bindS_def returnS_def Let_def s'_def)
    moreover have "abs_db s' = (abs_db s)\<lparr>db_tables := (db_tables (abs_db s))(name \<mapsto> (tbl_Columns t, ?kept))\<rparr>"
      using r(2) by (simp add: zip_map_fst_snd abs_db_def)
    ultimately show ?thesis using r(1) spec by (auto intro: implementsI)
  qed
qed

lemma st_exec_implements:
  assumes "mem_inv s" "s_nextID s + 1 \<noteq> 0"
  shows "implements env op s"
  using assms
  by (cases op) (simp_all add: create_implements drop_implements rename_implements truncate_implements insert_implements
      update_implements delete_implements)

section \<open>Reachable storages\<close>

inductive st_reach :: "senv \<Rightarrow> Storage \<Rightarrow> bool" for env where
  st_start: "d_tables d = [] \<Longrightarrow> st_reach env (NewStorage True hasPath d)"
| st_step: "st_reach env s \<Longrightarrow> s_nextID s + 1 \<noteq> 0 \<Longrightarrow> st_exec env op s = (s', r) \<Longrightarrow> st_reach env s'"

inductive_cases st_stepE: "st_reach env s"

lemma NewStorage_inv: "d_tables d = [] \<Longrightarrow> mem_inv (NewStorage True hasPath d)"
  by (simp add: mem_inv_def NewStorage_def rows_ok_def)

lemma st_reach_inv: "st_reach env s \<Longrightarrow> mem_inv s"
proof (induction rule: st_reach.induct)
  case (st_start d hasPath)
  then show ?case by (rule NewStorage_inv)
next
  case (st_step s op s' r)
  then show ?case using st_exec_implements [of s env op] by (auto simp: implements_def split: prod.splits)
qed

section \<open>Properties\<close>

text \<open>
  C1. The storage in memory mode implements the abstract database: every operation (creating, dropping, renaming and
  truncating a table, inserting, updating and deleting rows) has the same result, errors included, and leads to
  the storage whose tables, rows, sequences and counter are those of the abstract operation.
\<close>
theorem storage_refines_database:
  assumes "mem_inv s" "s_nextID s + 1 \<noteq> 0" "st_exec env op s = (s', r)"
  shows "db_exec (env_rt env) op (abs_db s) = (abs_db s', r) \<and> mem_inv s'"
  using st_exec_implements [OF assms(1,2), of env op] assms(3) by (auto simp: implements_def split: prod.splits)

definition sampleEnv :: senv where
  "sampleEnv = \<lparr>env_rt = rt_plain, env_enc = (\<lambda>j. [0]), env_dec = (\<lambda>b. None), env_cols = (\<lambda>c. Some []), env_uncols = (\<lambda>b. Some []),
     env_rnd = (\<lambda>n. replicate n 0), env_now = 0, env_fmt = (\<lambda>_. []), env_scan = (\<lambda>_. None)\<rparr>"

definition sampleDisk :: disk where
  "sampleDisk = \<lparr>d_meta = None, d_tables = [], d_blobs = [], d_writable = True\<rparr>"

definition sampleInfo :: TableInfo where
  "sampleInfo = \<lparr>tbl_ID = 0, tbl_Name = ''t'', tbl_Columns = [WithAutoInc True (NewColumnDef ''id'' TypeInt 0)], tbl_RowCount = 0\<rparr>"

lemma sampleInfo_name: "tbl_Name sampleInfo = ''t''" by (simp add: sampleInfo_def)

theorem storage_refines_database_witness:
  "mem_inv (NewStorage True False sampleDisk) \<and>
   db_tables (abs_db (fst (st_exec sampleEnv (OpCreate sampleInfo) (NewStorage True False sampleDisk)))) ''t'' = Some (tbl_Columns sampleInfo, [])"
proof -
  have inv: "mem_inv (NewStorage True False sampleDisk)" by (rule NewStorage_inv) (simp add: sampleDisk_def)
  obtain s' r where e: "st_exec sampleEnv (OpCreate sampleInfo) (NewStorage True False sampleDisk) = (s', r)" by (rule prod.exhaust)
  have "db_exec rt_plain (OpCreate sampleInfo) (abs_db (NewStorage True False sampleDisk)) = (abs_db s', r) \<and> mem_inv s'"
    using storage_refines_database [OF inv _ e] by (simp add: NewStorage_def sampleEnv_def)
  then have "fst (db_exec rt_plain (OpCreate sampleInfo) (abs_db (NewStorage True False sampleDisk))) = abs_db s'" by simp
  moreover have "db_tables (abs_db (NewStorage True False sampleDisk)) = Map.empty"
    by (simp add: abs_db_def NewStorage_def fun_eq_iff)
  ultimately have "db_tables (abs_db s') (tbl_Name sampleInfo) = Some (tbl_Columns sampleInfo, [])"
    by (auto dest!: sym [of _ "abs_db s'"])
  then show ?thesis using inv e by (simp add: sampleInfo_def)
qed

text \<open>
  C12. Every storage reached from an empty one in memory mode by any sequence of operations, failed ones included, is
  consistent: no table name and no table ID occurs twice, and for every table there are as many row IDs as
  rows, as many as its row count says, all different and below the counter of fresh IDs.
\<close>
theorem storage_reachable_consistent:
  assumes "st_reach env s" "map_of (s_tables s) name = Some t"
  shows "distinct (ListTables s) \<and> inj_on (\<lambda>n. tbl_ID (the (map_of (s_tables s) n))) (set (ListTables s)) \<and>
    (\<exists>rows ids. map_of (s_rowData s) name = Some rows \<and> map_of (s_rowIDs s) name = Some ids \<and> length ids = length rows \<and>
      tbl_RowCount t = int (length rows) \<and> distinct ids \<and> list_all (\<lambda>i. i < s_nextID s) ids)"
proof -
  have inv: "mem_inv s" using assms(1) by (rule st_reach_inv)
  obtain rows ids where "map_of (s_rowData s) name = Some rows" "map_of (s_rowIDs s) name = Some ids"
    "table_ok (s_nextID s) name t rows ids" using inv assms(2) by (rule mem_table)
  moreover have "distinct (ListTables s)" "inj_on (\<lambda>n. tbl_ID (the (map_of (s_tables s) n))) (set (ListTables s))"
    using inv by (simp_all add: mem_inv_def rows_ok_def ListTables_def dom_map_of_conv_image_fst)
  ultimately show ?thesis by (auto simp: table_ok_def)
qed

theorem storage_reachable_consistent_witness:
  "\<exists>s t. st_reach sampleEnv s \<and> map_of (s_tables s) ''t'' = Some t \<and> tbl_RowCount t = 0"
proof -
  obtain s' r where e: "st_exec sampleEnv (OpCreate sampleInfo) (NewStorage True False sampleDisk) = (s', r)" by (rule prod.exhaust)
  have "st_reach sampleEnv (NewStorage True False sampleDisk)" by (rule st_start) (simp add: sampleDisk_def)
  then have reach: "st_reach sampleEnv s'" by (rule st_step [OF _ _ e]) (simp add: NewStorage_def)
  have s': "map_of (s_tables s') ''t'' = Some (storedTable sampleEnv sampleInfo 1)" "s_rowData s' = [(''t'', [])]"
    using e by (auto simp: CreateTable_def NewStorage_def bindS_def returnS_def has_key_def sampleInfo_def Let_def)
  from storage_reachable_consistent [OF reach s'(1)] s' reach show ?thesis by auto
qed

text \<open>
  A table that was dropped cannot be created again in a persistent database: \<^verbatim>\<open>DropTable\<close> removes the file
  \<^verbatim>\<open>table_<ID>.db\<close> and leaves \<^verbatim>\<open><name>.db\<close>, and \<^verbatim>\<open>CreateTable\<close> then fails because that file exists.
\<close>
theorem recreate_dropped_table_fails:
  assumes "s_enabled s" "has_key name (d_tables (s_disk s))" "d_writable (s_disk s)"
    and "map_of (s_tables s) name = Some t" "st_DataFile t \<noteq> name @ ''.db''"
    and "DropTable env name s = (s1, Inr ())" "tbl_Name info = name"
  shows "snd (CreateTable env info s1) = Inl (STTable TFExists)"
proof -
  have keep: "d_tables (s_disk s') = d_tables (s_disk s)" "d_writable (s_disk s') = d_writable (s_disk s)" "s_tables s' = s_tables s"
    "s_enabled s' = s_enabled s" if "persist env r s = (s', u)" for r s s' u
    using that
    by (auto simp: persist_def bindS_def writeWAL_def saveMetadata_def Let_def split: if_splits option.splits sum.splits prod.splits)
  have fs: "s_fs s \<or> st_DataFile t = []" using assms(1,4,6) by (auto simp: DropTable_def split: if_splits)
  obtain s0 r where s0: "persist env r s0 = (s1, Inr ())" "s_tables s0 = del_key name (s_tables s)" "s_enabled s0"
    "d_writable (s_disk s0)" "d_tables (s_disk s0) = (if st_DataFile t = [] then d_tables (s_disk s)
       else filter (\<lambda>(n, _). n @ ''.db'' \<noteq> st_DataFile t) (d_tables (s_disk s)))"
    using assms(1,3,4,6) fs by (auto simp: DropTable_def removeDataFile_def Let_def split: if_splits)
  have "map_of (filter (\<lambda>(n, _). n @ ''.db'' \<noteq> st_DataFile t) m) name = map_of m name" for m :: "(string, os_file) gomap"
    using assms(5) by (induction m) auto
  then have "map_of (d_tables (s_disk s1)) name = map_of (d_tables (s_disk s)) name"
    using keep(1) [OF s0(1)] s0(5) by simp
  then obtain f where "map_of (d_tables (s_disk s1)) name = Some f" using assms(2) by (auto simp: has_key_def)
  moreover have "s_enabled s1" "\<not> has_key name (s_tables s1)" "d_writable (s_disk s1)"
    using keep [OF s0(1)] s0 by (simp_all add: has_key_def gomap)
  ultimately show ?thesis
    using assms(7) by (simp add: CreateTable_def Let_def createTableFile_def CreateTableFile_def)
qed

definition droppable :: Storage where
  "droppable = (NewStorage False True (sampleDisk\<lparr>d_tables := [(''t'', \<lparr>file_bytes = [], file_writable = True\<rparr>)]\<rparr>))
     \<lparr>s_skipSave := True, s_tables := [(''t'', storedTable sampleEnv sampleInfo 1)]\<rparr>"

theorem recreate_dropped_table_fails_witness:
  "snd (DropTable sampleEnv ''t'' droppable) = Inr () \<and>
   snd (CreateTable sampleEnv sampleInfo (fst (DropTable sampleEnv ''t'' droppable))) = Inl (STTable TFExists)"
proof -
  have t: "map_of (s_tables droppable) ''t'' = Some (storedTable sampleEnv sampleInfo 1)"
    and d: "st_DataFile (storedTable sampleEnv sampleInfo 1) \<noteq> ''t'' @ ''.db''"
    and h: "s_enabled droppable" "has_key ''t'' (d_tables (s_disk droppable))" "d_writable (s_disk droppable)"
    by (simp_all add: droppable_def NewStorage_def sampleDisk_def storedTable_def has_key_def)
  have drop: "DropTable sampleEnv ''t'' droppable = (fst (DropTable sampleEnv ''t'' droppable), Inr ())"
    by (simp add: DropTable_def t Let_def)
      (simp add: droppable_def NewStorage_def removeDataFile_def persist_def bindS_def writeWAL_def saveMetadata_def)
  from recreate_dropped_table_fails [OF h t d drop, of sampleInfo] drop show ?thesis
    by (metis sampleInfo_name snd_conv)
qed

end
