(* ===== verification/TableStore.thy ===== *)
theory TableStore
  imports Storage
begin

text \<open>
  Tables in files, as the storage of a persistent database uses them (\<^verbatim>\<open>src/storage/storage.go\<close> over \<^verbatim>\<open>tablefile.go\<close>):
  an inserted row is returned by the next read of the table, blobs included, and the update and delete
  operations that SQL statements use do not reach the rows of a table file.
\<close>

section \<open>Operations on a table file keep the cache of the storage\<close>

definition keepsCache :: "'a tf_method \<Rightarrow> bool" where
  "keepsCache m \<longleftrightarrow> (\<forall>tf. tf_cache (fst (m tf)) = None \<longleftrightarrow> tf_cache tf = None)"

named_theorems cached "methods that keep the page cache"

lemma keepsCacheD: "keepsCache m \<Longrightarrow> m tf = (tf', r) \<Longrightarrow> tf_cache tf' = None \<longleftrightarrow> tf_cache tf = None"
  by (metis fst_conv keepsCache_def)

lemma keeps_bindS [cached]: "keepsCache m \<Longrightarrow> (\<And>v. keepsCache (k v)) \<Longrightarrow> keepsCache (bindS m k)"
proof -
  assume m: "keepsCache m" and k: "\<And>v. keepsCache (k v)"
  have "tf_cache (fst (bindS m k tf)) = None \<longleftrightarrow> tf_cache tf = None" for tf
  proof -
    obtain tf1 r where r: "m tf = (tf1, r)" by fastforce
    show ?thesis using keepsCacheD [OF m r] k by (cases r) (simp_all add: bindS_def r keepsCache_def)
  qed
  then show ?thesis by (simp add: keepsCache_def)
qed

lemma keeps_simple [cached]: "keepsCache (returnS v)" "keepsCache (liftP r)"
  by (simp_all add: keepsCache_def returnS_def liftP_def)

lemma cacheOps_None [simp]:
  "fst (cacheGet k c) = None \<longleftrightarrow> c = None" "cachePut p c = None \<longleftrightarrow> c = None" "cachePutClean p c = None \<longleftrightarrow> c = None"
  by (auto simp: cacheGet_def cachePut_def cachePutClean_def split: option.splits prod.splits)

lemma cacheGet_None: "cacheGet k c = (c', r) \<Longrightarrow> c' = None \<longleftrightarrow> c = None"
  using cacheOps_None(1) [of k c] by simp

lemma aliasPage_None [simp]: "tf_cache (aliasPage p tf) = None \<longleftrightarrow> tf_cache tf = None"
  by (simp add: aliasPage_def split: option.splits)

lemma updHeader_cache [simp]: "tf_cache (updHeader f tf) = tf_cache tf"
  by (simp add: updHeader_def)

lemma keeps_readPageNoLock [cached]: "keepsCache (readPageNoLock k)"
  by (auto simp: keepsCache_def readPageNoLock_def Let_def split: prod.splits option.splits sum.splits dest: cacheGet_None)

lemma keeps_readPage [cached]: "keepsCache (readPage k)"
proof -
  have "tf_cache (fst (readPage k tf)) = None \<longleftrightarrow> tf_cache tf = None" for tf
  proof -
    obtain c r where g: "cacheGet k (tf_cache tf) = (c, r)" by fastforce
    note cacheGet_None [OF g] keeps_readPageNoLock [of k, unfolded keepsCache_def, rule_format, of "tf\<lparr>tf_cache := c\<rparr>"]
    then show ?thesis using g by (cases r) (simp_all add: readPage_def)
  qed
  then show ?thesis by (simp add: keepsCache_def)
qed

lemma keeps_writePageToFileNoLock [cached]: "keepsCache (writePageToFileNoLock p)"
  by (auto simp: keepsCache_def writePageToFileNoLock_def Let_def split: option.splits)

lemma keeps_put [cached]:
  "keepsCache (\<lambda>tf. (tf\<lparr>tf_cache := cachePutClean p (tf_cache tf)\<rparr>, Inr v))"
  "keepsCache (\<lambda>tf. (tf\<lparr>tf_cache := cachePut p (tf_cache tf)\<rparr>, Inr v))"
  by (simp_all add: keepsCache_def)

lemma keeps_writePage [cached]: "keepsCache (writePage p)" "keepsCache (writePageToFileWithCache p)"
  unfolding writePage_def writePageToFileWithCache_def by (intro cached)+

lemma keeps_if: "keepsCache m \<Longrightarrow> keepsCache m' \<Longrightarrow> keepsCache (\<lambda>tf. if P tf then m tf else m' tf)"
  by (simp add: keepsCache_def)

lemma keeps_shift: "keepsCache m \<Longrightarrow> (\<And>tf. tf_cache (f tf) = None \<longleftrightarrow> tf_cache tf = None) \<Longrightarrow> keepsCache (\<lambda>tf. m (f tf))"
  by (simp add: keepsCache_def)

lemma keeps_allocatePageNoLock [cached]: "keepsCache (allocatePageNoLock t)"
proof -
  have a: "tf_cache (fst (allocatePageNoLock t tf)) = None \<longleftrightarrow> tf_cache tf = None" for tf
  proof (cases "0 < tfh_FreePageList (tf_header tf)")
    case True
    then show ?thesis
      using keepsCacheD [OF keeps_readPageNoLock, of "tfh_FreePageList (tf_header tf)" tf]
      by (auto simp: allocatePageNoLock_def bindS_def Let_def split: prod.splits sum.splits)
  next
    case False
    let ?p = "NewPageV2 (ucast (tfh_PageCount (tf_header tf))) t"
    let ?tf = "updHeader (\<lambda>h. h\<lparr>tfh_PageCount := tfh_PageCount h + 1\<rparr>) (tf\<lparr>tf_dirty := True\<rparr>)"
    show ?thesis
      using False keepsCacheD [OF keeps_writePage(2), of ?p ?tf]
      by (auto simp: allocatePageNoLock_def bindS_def Let_def split: prod.splits sum.splits)
  qed
  then show ?thesis by (simp add: keepsCache_def)
qed

lemma linkLastPage_None [simp]: "tf_cache (linkLastPage i j tf) = None \<longleftrightarrow> tf_cache tf = None"
proof -
  obtain tf1 r where r: "readPageNoLock i tf = (tf1, r)" by fastforce
  show ?thesis
    using keepsCacheD [OF keeps_readPageNoLock r] keeps_writePage(1)
    by (cases r) (simp_all add: linkLastPage_def r Let_def keepsCache_def)
qed

lemma keeps_newTargetPage [cached]: "keepsCache newTargetPage"
  unfolding newTargetPage_def by (intro cached) (auto simp: keepsCache_def Let_def split: prod.splits)

lemma keeps_targetPage [cached]: "keepsCache (targetPage n)"
proof -
  have "keepsCache (bindS (readPageNoLock i) (\<lambda>page. if CanInsert page n then returnS page else newTargetPage))" for i
    by (intro cached) (simp add: cached)
  then show ?thesis
    using keeps_newTargetPage unfolding targetPage_def keepsCache_def by (simp split: if_splits)
qed

lemma keeps_InsertRow [cached]: "keepsCache (InsertRow rt row)"
proof -
  have "keepsCache (\<lambda>tf. bindS (writePage target) (\<lambda>_ tf. (updHeader (\<lambda>h. h\<lparr>tfh_RowCount := tfh_RowCount h + 1\<rparr>) (tf\<lparr>tf_dirty := True\<rparr>), Inr rowID))
      (aliasPage target tf))" for target and rowID :: u64
    by (rule keeps_shift, intro cached) (simp_all add: keepsCache_def)
  then have "keepsCache (bindS (targetPage n) (\<lambda>target. bindS (liftP (InsertRowToPage rt target rowID row)) (\<lambda>(target, _) tf.
      bindS (writePage target) (\<lambda>_ tf. (updHeader (\<lambda>h. h\<lparr>tfh_RowCount := tfh_RowCount h + 1\<rparr>) (tf\<lparr>tf_dirty := True\<rparr>), Inr rowID))
        (aliasPage target tf))))" for n and rowID :: u64
    by (intro cached) (auto split: prod.splits)
  then show ?thesis unfolding keepsCache_def InsertRow_def by (auto simp: Let_def)
qed

lemma readPage_None: "readPage k tf = (tf', r) \<Longrightarrow> tf_cache tf' = None \<longleftrightarrow> tf_cache tf = None"
  by (rule keepsCacheD [OF keeps_readPage])

lemma iterLoop_None: "iterLoop fuel it tf = Some (tf', r) \<Longrightarrow> tf_cache tf' = None \<longleftrightarrow> tf_cache tf = None"
proof (induction fuel arbitrary: it tf)
  case (Suc fuel)
  then show ?case
    by (auto simp: Let_def split: option.splits sum.splits if_splits prod.splits dest!: readPage_None Suc.IH)
qed simp

lemma Next_None: "Next fuel it tf = Some (tf', r) \<Longrightarrow> tf_cache tf' = None \<longleftrightarrow> tf_cache tf = None"
  by (auto simp: Next_def split: if_splits prod.splits sum.splits dest!: readPage_None iterLoop_None)

lemma collectRows_None: "collectRows k fuel it tf = Some (tf', r) \<Longrightarrow> tf_cache tf' = None \<longleftrightarrow> tf_cache tf = None"
proof (induction fuel arbitrary: it tf tf' r)
  case (Suc fuel)
  obtain tf1 n where n: "Next k it tf = Some (tf1, n)" using Suc.prems by (auto split: option.splits)
  note c = Next_None [OF n]
  show ?case
  proof (cases n)
    case (Inl e)
    with n c Suc.prems show ?thesis by simp
  next
    case (Inr v)
    obtain it1 b where v: "v = (it1, b)" by (cases v)
    with n Inr c Suc.prems show ?thesis
      by (cases b) (auto split: sum.splits option.splits dest!: Suc.IH)
  qed
qed simp

section \<open>A table of the storage and its rows\<close>

text \<open>The table file \<open>name\<close> of the storage holds the rows \<open>rows\<close>, with their IDs, in order.\<close>

definition store_rep :: "go_rt \<Rightarrow> Storage \<Rightarrow> string \<Rightarrow> (u64 \<times> Value list) list \<Rightarrow> bool" where
  "store_rep rt s name rows \<longleftrightarrow>
     has_key name (s_tables s) \<and> (\<exists>tf. map_of (s_tableFiles s) name = Some tf \<and> table_rep rt (lend s tf) rows)"

lemma table_rep_nextID [simp]: "table_rep rt (tf\<lparr>tf_nextID := n\<rparr>) rows = table_rep rt tf rows"
  by (simp add: table_rep_def tf_rep_def tf_ok_def)

lemma table_rep_lend: "s_pageCache s = s_pageCache s' \<Longrightarrow> table_rep rt (lend s tf) rows = table_rep rt (lend s' tf) rows"
  by (simp add: lend_def table_rep_nextID)

lemma lend_takeBack:
  assumes "tf_cache tf \<noteq> None"
  shows "lend (takeBack name tf s) tf = tf" "map_of (s_tableFiles (takeBack name tf s)) name = Some tf"
  using assms by (auto simp: lend_def takeBack_def update_conv')

text \<open>Fuel: the file has as many pages as the header says, and no page has more cells than bytes.\<close>

lemma chain_cells:
  "chainRep m k chain \<Longrightarrow> length (concat (map snd chain)) \<le> length chain * MaxPageContentV2"
proof (induction chain arbitrary: k)
  case (Cons ic chain)
  obtain i cs where ic: "ic = (i, cs)" by (cases ic)
  then obtain p where p: "page_rep p cs" "chainRep m (hdr_RightPage (Header p)) chain" using Cons.prems by (auto split: option.splits)
  have "length cs \<le> MaxPageContentV2" using page_repD(3) [OF p(1)] by simp
  with Cons.IH [OF p(2)] ic show ?case by simp
qed simp

lemma chain_pages:
  assumes "distinct (map fst chain)" "\<forall>i \<in> fst ` set chain. unat (i :: u64) < n"
  shows "length chain \<le> n"
proof -
  have "inj_on unat (fst ` set chain)" by (rule inj_onI) (simp only: word_unat_eq_iff)
  then have "card (unat ` fst ` set chain) = length chain"
    using distinct_card [OF assms(1)] by (simp add: card_image)
  moreover have "unat ` fst ` set chain \<subseteq> {..<n}" using assms(2) by auto
  ultimately show ?thesis using card_mono [of "{..<n}" "unat ` fst ` set chain"] by simp
qed

lemma fuel_enough:
  assumes "table_rep rt tf rows"
  shows "unat (tfh_PageCount (tf_header tf)) \<le> pageFuel tf" "length rows < rowFuel tf"
proof -
  obtain chain where c: "tf_rep tf chain" "concat (map snd chain) = map (rowCell rt) rows"
    using assms by (auto simp: table_rep_def)
  have ok: "length (file_bytes (tf_file tf)) = unat (tfh_PageCount (tf_header tf)) * PageSize16KB"
    using c(1) by (simp add: tf_rep_def tf_ok_def)
  then show p: "unat (tfh_PageCount (tf_header tf)) \<le> pageFuel tf" by (simp add: pageFuel_def PageSize16KB_def)
  have "length chain \<le> unat (tfh_PageCount (tf_header tf))"
    using c(1) by (intro chain_pages) (simp_all add: tf_rep_def)
  then have "length chain * MaxPageContentV2 \<le> pageFuel tf * MaxPageContentV2" using p by (intro mult_right_mono) linarith+
  moreover have "length rows \<le> length chain * MaxPageContentV2"
    using chain_cells [of _ _ chain] c by (metis length_map tf_rep_def)
  ultimately show "length rows < rowFuel tf" unfolding rowFuel_def by linarith
qed

lemma resolveBlobRef_cong:
  assumes "s_enabled s' = s_enabled s" "d_blobs (s_disk s') = d_blobs (s_disk s)" "s_encrypted s' = s_encrypted s" "s_encryptor s' = s_encryptor s"
  shows "resolveBlobRef s' = resolveBlobRef s"
proof -
  have "ReadBlob s' = ReadBlob s" unfolding ReadBlob_def fun_eq_iff assms by simp
  then show ?thesis by (intro ext) (simp only: resolveBlobRef_def)
qed

lemma scanTable_rep:
  assumes "map_of (s_tableFiles s) name = Some tf" "table_rep rt (lend s tf) rows" "has_key name (s_tables s)"
  obtains s' where "scanTable name tf s = (s', Inr (map (\<lambda>r. (fst r, map (storedColumn rt) (snd r))) rows))"
    "store_rep rt s' name rows" "resolveBlobRef s' = resolveBlobRef s"
proof -
  have fuel: "unat (tfh_PageCount (tf_header (lend s tf))) \<le> pageFuel tf" "length rows < rowFuel tf"
    using fuel_enough [OF assms(2)] by (simp_all add: lend_def pageFuel_def rowFuel_def)
  obtain tf' where tf': "GetAllRowsWithIDs (pageFuel tf) (rowFuel tf) (lend s tf) =
      Some (tf', Inr (map (\<lambda>r. (fst r, map (storedColumn rt) (snd r))) rows))" "table_rep rt tf' rows"
    using GetAllRowsWithIDs_table [OF assms(2) fuel] by blast
  have c: "tf_cache tf' \<noteq> None"
    using collectRows_None [OF tf'(1) [unfolded GetAllRowsWithIDs_def]] by (simp add: lend_def)
  show ?thesis
  proof (rule that)
    show "scanTable name tf s = (takeBack name tf' s, Inr (map (\<lambda>r. (fst r, map (storedColumn rt) (snd r))) rows))"
      by (simp add: scanTable_def tf'(1))
    show "store_rep rt (takeBack name tf' s) name rows"
      using assms(3) tf'(2) lend_takeBack [OF c] by (simp add: store_rep_def takeBack_def)
    show "resolveBlobRef (takeBack name tf' s) = resolveBlobRef s"
      by (intro resolveBlobRef_cong) (simp_all add: takeBack_def)
  qed
qed

lemma GetRowsWithIDs_rep:
  assumes "store_rep rt s name rows"
  shows "\<exists>s'. GetRowsWithIDs env name s =
      (s', Inr (map (\<lambda>r. (fst r, map (resolveBlobRef s) (map (storedColumn rt) (snd r)))) rows)) \<and> store_rep rt s' name rows"
proof -
  obtain tf where tf: "has_key name (s_tables s)" "map_of (s_tableFiles s) name = Some tf" "table_rep rt (lend s tf) rows"
    using assms by (auto simp: store_rep_def)
  obtain s' where s': "scanTable name tf s = (s', Inr (map (\<lambda>r. (fst r, map (storedColumn rt) (snd r))) rows))"
    "store_rep rt s' name rows" "resolveBlobRef s' = resolveBlobRef s"
    using scanTable_rep [OF tf(2,3,1)] by blast
  then show ?thesis using tf by (auto simp: GetRowsWithIDs_def onRows_def bindS_def)
qed

section \<open>Inserting\<close>

text \<open>What checking the columns and numbering them changes: blobs, the ID counter and the sequences\<close>

definition same_store :: "Storage \<Rightarrow> Storage \<Rightarrow> bool" where
  "same_store s s' \<longleftrightarrow> s_tables s' = s_tables s \<and> s_tableFiles s' = s_tableFiles s \<and> s_pageCache s' = s_pageCache s \<and>
     s_rowData s' = s_rowData s \<and> d_tables (s_disk s') = d_tables (s_disk s)"

lemma same_store_refl [simp]: "same_store s s" by (simp add: same_store_def)

lemma same_store_trans: "same_store s s' \<Longrightarrow> same_store s' s'' \<Longrightarrow> same_store s s''"
  by (simp add: same_store_def)

lemma processColumn_same: "processColumn env col v s = (s', r) \<Longrightarrow> same_store s s'"
  by (auto simp: processColumn_def processBlobValue_def writeBlobFile_def Let_def same_store_def
      split: sum.splits if_splits prod.splits godata.splits bool.splits)

lemma processColumns_same: "processColumns env cols row s = (s', r) \<Longrightarrow> same_store s s'"
proof (induction env cols row arbitrary: s s' r rule: processColumns.induct)
  case (1 env col cols v vs)
  obtain s1 r1 where r1: "processColumn env col v s = (s1, r1)" by fastforce
  note s1 = processColumn_same [OF r1]
  show ?case
  proof (cases r1)
    case (Inl e)
    with r1 s1 1(2) show ?thesis by (simp add: bindS_def)
  next
    case (Inr w)
    obtain s2 r2 where r2: "processColumns env cols vs s1 = (s2, r2)" by fastforce
    have "s' = s2" using 1(2) r1 r2 Inr by (cases r2) (simp_all add: bindS_def returnS_def)
    with 1(1) [OF r2] s1 show ?thesis by (simp add: same_store_trans)
  qed
qed (simp_all add: returnS_def)

lemma assignSequences_same: "assignSequences table cols row l s = (s', r) \<Longrightarrow> same_store s s'"
proof (induction cols arbitrary: row l s s' r)
  case (Cons col cols)
  define s1 where "s1 = (if isAuto col then s\<lparr>s_sequences := put_key (seqKey table col) (getD 0 (s_sequences s) (seqKey table col) + 1)
      (s_sequences s)\<rparr> else s)"
  have s1: "same_store s s1" by (simp add: s1_def same_store_def)
  have "s' = s1 \<or> (\<exists>l vs r'. assignSequences table cols vs l s1 = (s', r'))"
    using Cons.prems unfolding s1_def
    by (auto simp: Let_def bindS_def returnS_def split: if_splits list.splits prod.splits sum.splits)
  with s1 show ?case using Cons.IH by (blast intro: same_store_trans)
qed simp

lemma updTable_store [simp]:
  "s_tableFiles (updTable name f s) = s_tableFiles s" "s_pageCache (updTable name f s) = s_pageCache s"
  "s_rowData (updTable name f s) = s_rowData s" "s_nextID (updTable name f s) = s_nextID s" "s_disk (updTable name f s) = s_disk s"
  "s_enabled (updTable name f s) = s_enabled s" "s_encrypted (updTable name f s) = s_encrypted s"
  "s_encryptor (updTable name f s) = s_encryptor s" "has_key n (s_tables (updTable name f s)) = has_key n (s_tables s)"
  by (auto simp: updTable_def has_key_def update_conv' split: option.splits)

lemma insertFile_rep:
  assumes tf: "map_of (s_tableFiles s) name = Some tf" "table_rep (env_rt env) (lend s tf) rows" "has_key name (s_tables s)"
    and row: "rowOk (env_rt env) row" "unat (tfh_PageCount (tf_header tf)) + 1 < 2 ^ 32"
  obtains s' where "insertFile env name row tf s = (s', Inr (s_nextID s))"
    "store_rep (env_rt env) s' name (rows @ [(s_nextID s, row)])" "resolveBlobRef s' = resolveBlobRef s" "s_rowData s' = s_rowData s"
proof -
  have "unat (tfh_PageCount (tf_header (lend s tf))) + 1 < 2 ^ 32" using row(2) by (simp add: lend_def)
  then obtain tf' where tf': "InsertRow (env_rt env) row (lend s tf) = (tf', Inr (s_nextID s))"
    "table_rep (env_rt env) tf' (rows @ [(s_nextID s, row)])"
    using InsertRow_table [OF tf(2) row(1)] by (auto simp: lend_def)
  have c: "tf_cache tf' \<noteq> None" using keepsCacheD [OF keeps_InsertRow tf'(1)] by (simp add: lend_def)
  let ?s = "updTable name (touchTable env (\<lambda>n. n + 1)) (takeBack name tf' s)"
  show ?thesis
  proof (rule that)
    show "insertFile env name row tf s = (?s, Inr (s_nextID s))" by (simp add: insertFile_def bindS_def onTable_def tf'(1))
    have "table_rep (env_rt env) (lend ?s tf') (rows @ [(s_nextID s, row)])"
      using tf'(2) lend_takeBack(1) [OF c, of name s] table_rep_lend [of ?s "takeBack name tf' s"] by simp
    then show "store_rep (env_rt env) ?s name (rows @ [(s_nextID s, row)])"
      using tf(3) lend_takeBack(2) [OF c, of name s] by (auto simp: store_rep_def takeBack_def)
    show "resolveBlobRef ?s = resolveBlobRef s" by (intro resolveBlobRef_cong) (simp_all add: takeBack_def)
    show "s_rowData ?s = s_rowData s" by (simp add: takeBack_def)
  qed
qed

section \<open>Properties\<close>


text \<open>A table of one row in a file, for the witnesses\<close>

definition fileStorage :: Storage where
  "fileStorage = (NewStorage False True \<lparr>d_meta = None, d_tables = [], d_blobs = [], d_writable = True\<rparr>)
     \<lparr>s_tables := [(''t'', \<lparr>tbl_ID = 7, tbl_Name = ''t'', tbl_Columns = [NewColumnDef ''a'' TypeInt 0], tbl_RowCount = 0,
         st_DataFile = [], st_CreatedAt = 0, st_UpdatedAt = 0\<rparr>)],
      s_nextID := 2, s_tableFiles := [(''t'', sampleTable)]\<rparr>"

definition fileEnv :: senv where
  "fileEnv = \<lparr>env_rt = rt_plain, env_enc = (\<lambda>j. [1]), env_dec = (\<lambda>b. None), env_cols = (\<lambda>c. Some [91, 93]), env_uncols = (\<lambda>b. Some []),
     env_rnd = (\<lambda>n. replicate n 0), env_now = 0, env_fmt = (\<lambda>_. []), env_scan = (\<lambda>_. None)\<rparr>"

lemma table_rep_empty_cache:
  "table_rep rt tf rows \<Longrightarrow> table_rep rt (tf\<lparr>tf_cache := Some (NewPageCache cfg), tf_nextID := n\<rparr>) rows"
  using NewPageCache_inv [of cfg] by (simp add: table_rep_def tf_rep_def tf_ok_def cacheOk_def NewPageCache_def)


text \<open>A table whose rows are in a file\<close>

definition fileTable :: "string \<Rightarrow> Storage \<Rightarrow> bool" where
  "fileTable name s \<longleftrightarrow> has_key name (s_tables s) \<and> has_key name (s_tableFiles s) \<and> map_of (s_rowData s) name = None"

fun insertRows :: "senv \<Rightarrow> string \<Rightarrow> Value list list \<Rightarrow> unit st_method" where
  "insertRows env name [] s = (s, Inr ())"
| "insertRows env name (row # rows) s = bindS (Storage_InsertRow env name row) (\<lambda>_. insertRows env name rows) s"

lemma fileTable_same: "same_store s s' \<Longrightarrow> fileTable name s' = fileTable name s"
  by (simp add: same_store_def fileTable_def)

lemma has_key_put: "has_key n (put_key k v m) \<longleftrightarrow> n = k \<or> has_key n m"
  by (simp add: has_key_def update_conv')

lemma insertFile_fileTable: "fileTable name s \<Longrightarrow> insertFile env name row tf s = (s', r) \<Longrightarrow> fileTable name s'"
  by (auto simp: insertFile_def bindS_def onTable_def fileTable_def takeBack_def has_key_put split: prod.splits sum.splits)

lemma Storage_InsertRow_fileTable:
  assumes "fileTable name s" "Storage_InsertRow env name row s = (s', r)"
  shows "fileTable name s'"
proof -
  obtain info where info: "map_of (s_tables s) name = Some info" using assms(1) by (auto simp: fileTable_def has_key_def)
  obtain s1 r1 where r1: "processColumns env (tbl_Columns info) row s = (s1, r1)" by fastforce
  note f1 = fileTable_same [OF processColumns_same [OF r1], of name]
  show ?thesis
  proof (cases r1)
    case (Inl e)
    with assms info r1 f1 show ?thesis by (simp add: Storage_InsertRow_def bindS_def)
  next
    case (Inr row1)
    obtain s2 r2 where r2: "assignSequences name (tbl_Columns info) row1 0 s1 = (s2, r2)" by fastforce
    note f2 = fileTable_same [OF assignSequences_same [OF r2], of name]
    show ?thesis
    proof (cases r2)
      case (Inl e)
      with assms info r1 Inr r2 f1 f2 show ?thesis by (simp add: Storage_InsertRow_def bindS_def)
    next
      case (Inr x)
      obtain row2 l where x: "x = (row2, l)" by (cases x)
      let ?s = "s2\<lparr>s_nextID := s_nextID s2 + 1\<rparr>"
      have f: "fileTable name ?s" using f1 f2 assms(1) by (simp add: fileTable_def)
      then obtain tf where tf: "map_of (s_tableFiles ?s) name = Some tf" by (auto simp: fileTable_def has_key_def)
      obtain s3 r3 where r3: "insertFile env name row2 tf ?s = (s3, r3)" by fastforce
      have "s' = s3" using assms(2) info r1 \<open>r1 = Inr row1\<close> r2 Inr x tf r3
        by (cases r3) (simp_all add: Storage_InsertRow_def bindS_def Let_def onRows_def returnS_def)
      with insertFile_fileTable [OF f r3] show ?thesis by simp
    qed
  qed
qed

lemma insertRows_fileTable: "fileTable name s \<Longrightarrow> insertRows env name rows s = (s', r) \<Longrightarrow> fileTable name s'"
proof (induction rows arbitrary: s)
  case (Cons row rows)
  obtain s1 r1 where r1: "Storage_InsertRow env name row s = (s1, r1)" by fastforce
  with Cons Storage_InsertRow_fileTable [OF Cons.prems(1) r1] show ?case by (cases r1) (auto simp: bindS_def)
qed simp

lemma persist_fileTable: "persist env r s = (s', v) \<Longrightarrow> fileTable name s' = fileTable name s"
  by (auto simp: persist_def bindS_def writeWAL_def saveMetadata_def Let_def fileTable_def
      split: if_splits option.splits sum.splits prod.splits)

text \<open>
  C37. SQL statements do not change persistent tables: the operations behind UPDATE and DELETE look for rows in memory only.
  After a table was created in a persistent database and any rows were inserted, \<^verbatim>\<open>UpdateRowsWithCallback\<close> and
  \<^verbatim>\<open>DeleteRowsWithCallback\<close> report success with 0 rows, call no callback and leave the storage as it is, whatever the
  condition.
\<close>
theorem sql_update_misses_table_files:
  assumes "s_enabled s" "\<not> has_key (tbl_Name info) (s_rowData s)" "CreateTable env info s = (s1, Inr ())"
    and "insertRows env (tbl_Name info) rows s1 = (s2, r)"
  shows "UpdateRowsWithCallback env (tbl_Name info) updates condition cb s2 = (s2, [], Inr 0) \<and>
    DeleteRowsWithCallback env (tbl_Name info) condition cb s2 = (s2, [], Inr 0)"
proof -
  let ?name = "tbl_Name info"
  obtain s0 r0 where s0: "persist env r0 s0 = (s1, Inr ())" "fileTable ?name s0"
    using assms(1-3)
    by (auto simp: CreateTable_def Let_def resetSequences_def fileTable_def takeBack_def has_key_def update_conv' split: if_splits sum.splits)
  have "fileTable ?name s2" using persist_fileTable [OF s0(1)] s0(2) insertRows_fileTable [OF _ assms(4)] by simp
  then show ?thesis
    by (auto simp: fileTable_def has_key_def UpdateRowsWithCallback_def updateMemory_def DeleteRowsWithCallback_def deleteMemory_def)
qed

definition newFileStorage :: Storage where
  "newFileStorage = (NewStorage False True \<lparr>d_meta = None, d_tables = [], d_blobs = [], d_writable = True\<rparr>)\<lparr>s_skipSave := True\<rparr>"

definition fileInfo :: TableInfo where
  "fileInfo = \<lparr>tbl_ID = 0, tbl_Name = ''t'', tbl_Columns = [NewColumnDef ''a'' TypeInt 0], tbl_RowCount = 0\<rparr>"

theorem sql_update_misses_table_files_witness:
  "\<exists>s1 s2 r. CreateTable fileEnv fileInfo newFileStorage = (s1, Inr ()) \<and> insertRows fileEnv ''t'' [[NewIntValue 5]] s1 = (s2, r) \<and>
     DeleteRowsWithCallback fileEnv ''t'' (\<lambda>row. True) True s2 = (s2, [], Inr 0)"
proof -
  let ?s = "newFileStorage\<lparr>s_nextID := 2, s_tables := [(''t'', storedTable fileEnv fileInfo 1)]\<rparr>"
  have fits: "columnsFit (env_cols fileEnv) (Some (tbl_Columns fileInfo))" by (simp add: columnsFit_def PageSize16KB_def fileEnv_def)
  have cache: "cacheOk (Some (s_pageCache newFileStorage))" "cacheLookup (Some (s_pageCache newFileStorage)) = Map.empty"
    using NewPageCache_inv by (simp_all add: newFileStorage_def NewStorage_def cacheOk_def NewPageCache_def)
  obtain tf where tf: "CreateTableFile (env_cols fileEnv) None (Some (s_pageCache newFileStorage)) 2 1 (Some (tbl_Columns fileInfo)) = Inr tf"
    using CreateTableFile_table [OF fits cache, of 2 1] by blast
  have "createTableFile fileEnv ''t'' 1 (tbl_Columns fileInfo) ?s = Inr tf"
    using tf by (simp add: createTableFile_def newFileStorage_def NewStorage_def fileInfo_def)
  then have c: "CreateTable fileEnv fileInfo newFileStorage = (takeBack ''t'' tf ?s, Inr ())"
    by (simp add: CreateTable_def newFileStorage_def NewStorage_def Let_def fileInfo_def has_key_def resetSequences_def isAuto_def NewColumnDef_def
        persist_def bindS_def writeWAL_def saveMetadata_def takeBack_def storedTable_def)
  obtain s2 r where r: "insertRows fileEnv ''t'' [[NewIntValue 5]] (takeBack ''t'' tf ?s) = (s2, r)" by fastforce
  have n: "tbl_Name fileInfo = ''t''" "s_enabled newFileStorage" "\<not> has_key ''t'' (s_rowData newFileStorage)"
    by (simp_all add: fileInfo_def newFileStorage_def NewStorage_def has_key_def)
  from sql_update_misses_table_files [of newFileStorage fileInfo fileEnv "takeBack ''t'' tf ?s" "[[NewIntValue 5]]" s2 r] c r n
  show ?thesis by auto
qed

end
