(* ===== verification/Recovery.thy ===== *)
theory Recovery
  imports Storage
begin

text \<open>
  How a database comes back: \<^verbatim>\<open>loadMetadata\<close> and \<^verbatim>\<open>initFileStorage\<close> of \<^verbatim>\<open>src/storage/storage.go\<close> and the replay of the
  log, \<^verbatim>\<open>recoverFromWAL\<close> of \<^verbatim>\<open>src/storage/wal.go\<close>. The log file is an argument, the result of \<^verbatim>\<open>os.OpenFile\<close> on its path.
  Shown: saving and loading the metadata gives the same catalog, sequences and rows; the replay of an insertion
  appends its row, so that a row that was also saved with the metadata comes back twice after a crash.
\<close>

section \<open>Values of a decoded tree\<close>

text \<open>\<^verbatim>\<open>fmt.Sscanf(s, "%d", &i)\<close>; text outside ASCII is left to the environment (\<open>env_scan\<close>).\<close>

definition Sscanf_d :: "senv \<Rightarrow> string \<Rightarrow> u64 option" where
  "Sscanf_d env s = (if list_all is_ascii s then scanDecimal s else env_scan env s)"

definition imap :: "iface \<Rightarrow> (string, iface) gomap" where
  "imap v = (case v of IMap m \<Rightarrow> m | _ \<Rightarrow> [])"

text \<open>\<^verbatim>\<open>m[k].(float64)\<close> and \<^verbatim>\<open>m[k].(string)\<close>\<close>

definition floatAt :: "string \<Rightarrow> (string, iface) gomap \<Rightarrow> float64 option" where
  "floatAt k m = (case map_of m k of Some (IData (GFloat64 f)) \<Rightarrow> Some f | _ \<Rightarrow> None)"

definition stringAt :: "string \<Rightarrow> (string, iface) gomap \<Rightarrow> string option" where
  "stringAt k m = (case map_of m k of Some (IData (GString s)) \<Rightarrow> Some s | _ \<Rightarrow> None)"

definition boolAt :: "string \<Rightarrow> (string, iface) gomap \<Rightarrow> bool option" where
  "boolAt k m = (case map_of m k of Some (IData (GBool b)) \<Rightarrow> Some b | _ \<Rightarrow> None)"

text \<open>The blob reference of a serialised value, accepted when its ID is positive\<close>

definition blobRefOf :: "go_rt \<Rightarrow> (string, iface) gomap \<Rightarrow> Value option" where
  "blobRefOf rt m =
     (case map_of m ''blob_ref'' of
        Some (IMap r) \<Rightarrow>
          (let i = (case floatAt ''id'' r of Some f \<Rightarrow> f64_to_u64 rt f | None \<Rightarrow> 0);
               n = (case floatAt ''size'' r of Some f \<Rightarrow> f64_to_i64 rt f | None \<Rightarrow> 0)
           in if 0 < i then Some (NewBlobRefValue i n) else None)
      | _ \<Rightarrow> None)"

text \<open>\<^verbatim>\<open>byte(f)\<close> of the elements that are numbers, 0 for the others; the data of a blob\<close>

definition blobDataOf :: "go_rt \<Rightarrow> (string, iface) gomap \<Rightarrow> Value option" where
  "blobDataOf rt m =
     (case map_of m ''data'' of
        Some (IData (GString s)) \<Rightarrow> Some (NewBlobValue (bytes_of s))
      | Some (IArr b) \<Rightarrow>
          Some (NewBlobValue (map (\<lambda>x. case x of IData (GFloat64 f) \<Rightarrow> ucast (f64_to_i64 rt f) | _ \<Rightarrow> 0) b))
      | _ \<Rightarrow> None)"

text \<open>The switch over the type name of a serialised value; \<open>None\<close> when no case returns\<close>

definition typedValue :: "go_rt \<Rightarrow> (string, iface) gomap \<Rightarrow> Value option" where
  "typedValue rt m =
     (case stringAt ''type'' m of
        None \<Rightarrow> None
      | Some t \<Rightarrow>
          if t \<in> {''INT'', ''SEQ''} then map_option (\<lambda>f. NewIntValue (f64_to_i64 rt f)) (floatAt ''data'' m)
          else if t = ''FLOAT'' then map_option NewFloatValue (floatAt ''data'' m)
          else if t \<in> {''VARCHAR'', ''CHAR'', ''TEXT''} then map_option NewStringValue (stringAt ''data'' m)
          else if t = ''BLOB'' then (case blobRefOf rt m of Some v \<Rightarrow> Some v | None \<Rightarrow> blobDataOf rt m)
          else None)"

fun plainValue :: "senv \<Rightarrow> iface \<Rightarrow> Value" where
  "plainValue env (IData (GString s)) = NewStringValue s"
| "plainValue env (IData (GFloat64 f)) =
     (if f64_eq f (i64_to_f64 (f64_to_i64 (env_rt env) f)) then NewIntValue (f64_to_i64 (env_rt env) f) else NewFloatValue f)"
| "plainValue env (IData (GInt64 n)) = NewIntValue n"
| "plainValue env (IData (GInt n)) = NewIntValue n"
| "plainValue env (IData (GBool b)) = NewBoolValue b"
| "plainValue env (IData (GBytes b)) = NewBlobValue b"
| "plainValue env (IArr vs) = NewNullValue"
| "plainValue env (IData d) = NewStringValue (fmt_v (env_rt env) d)"
| "plainValue env (IMap m) = NewStringValue (env_fmt env (IMap m))"

definition interfaceToValue :: "senv \<Rightarrow> iface \<Rightarrow> Value" where
  "interfaceToValue env v =
     (case v of
        IMap m \<Rightarrow>
          if boolAt ''is_null'' m = Some True then NewNullValue
          else (case typedValue (env_rt env) m of
                  Some w \<Rightarrow> w
                | None \<Rightarrow> (case map_of m ''data'' of Some d \<Rightarrow> NewValue (data_of_iface d) | None \<Rightarrow> plainValue env v))
      | _ \<Rightarrow> if v = INil then NewNullValue else plainValue env v)"

text \<open>The compact form of a blob reference, \<^verbatim>\<open>[1, id, size]\<close>\<close>

fun compactRef :: "go_rt \<Rightarrow> iface \<Rightarrow> Value option" where
  "compactRef rt (IArr [IData (GFloat64 marker), IData (GFloat64 i), IData (GFloat64 n)]) =
     (if f64_eq marker (int_to_f64 1) then Some (NewBlobRefValue (f64_to_u64 rt i) (f64_to_i64 rt n)) else None)"
| "compactRef rt v = None"

text \<open>The conversion the type of the column asks for; \<open>None\<close> when no case returns\<close>

definition columnValue :: "senv \<Rightarrow> DataType \<Rightarrow> iface \<Rightarrow> Value option" where
  "columnValue env colType v =
     (case v of
        IData d \<Rightarrow>
          if colType = TypeInt \<or> colType = TypeSeq then
            (case d of
               GFloat64 f \<Rightarrow> Some (NewIntValue (f64_to_i64 (env_rt env) f))
             | GInt64 n \<Rightarrow> Some (NewIntValue n)
             | GInt n \<Rightarrow> Some (NewIntValue n)
             | GString s \<Rightarrow> map_option NewIntValue (Sscanf_d env s)
             | _ \<Rightarrow> None)
          else if colType = TypeFloat then
            (case d of
               GFloat64 f \<Rightarrow> Some (NewFloatValue f)
             | GFloat32 f \<Rightarrow> Some (NewFloatValue (f32_to_f64 f))
             | GInt n \<Rightarrow> Some (NewFloatValue (i64_to_f64 n))
             | _ \<Rightarrow> None)
          else if colType = TypeBlob \<or> colType = TypeImage then
            (case d of
               GBytes b \<Rightarrow> Some (NewBlobValue b)
             | GString s \<Rightarrow> Some (NewBlobValue (bytes_of s))
             | _ \<Rightarrow> None)
          else None
      | _ \<Rightarrow> None)"

definition rawToValue :: "senv \<Rightarrow> iface \<Rightarrow> StoredTable option \<Rightarrow> nat \<Rightarrow> Value" where
  "rawToValue env v tableInfo colIndex =
     (if v = INil then NewNullValue
      else
        let colType = (case tableInfo of
                         Some t \<Rightarrow> if colIndex < length (tbl_Columns t) then col_Type (tbl_Columns t ! colIndex) else TypeUnknown
                       | None \<Rightarrow> TypeUnknown)
        in case compactRef (env_rt env) v of
             Some w \<Rightarrow> w
           | None \<Rightarrow> (case columnValue env colType v of Some w \<Rightarrow> w | None \<Rightarrow> interfaceToValue env v))"

section \<open>Replay of the log\<close>

definition zeroTable :: StoredTable where
  "zeroTable = \<lparr>tbl_ID = 0, tbl_Name = [], tbl_Columns = [], tbl_RowCount = 0, st_DataFile = [], st_CreatedAt = 0, st_UpdatedAt = 0\<rparr>"

definition columnOfMap :: "go_rt \<Rightarrow> (string, iface) gomap \<Rightarrow> ColumnDef" where
  "columnOfMap rt m =
     zeroColumnDef\<lparr>
       col_Name := (case stringAt ''name'' m of Some n \<Rightarrow> n | None \<Rightarrow> []),
       col_Type := (case stringAt ''type'' m of
                      Some t \<Rightarrow> ParseDataType rt t
                    | None \<Rightarrow> (case floatAt ''type'' m of Some f \<Rightarrow> sint (f64_to_i64 rt f) | None \<Rightarrow> TypeUnknown)),
       col_Length := (case floatAt ''length'' m of Some f \<Rightarrow> sint (f64_to_i64 rt f) | None \<Rightarrow> 0),
       col_Nullable := (boolAt ''nullable'' m = Some True),
       col_PrimaryKey := (boolAt ''primary_key'' m = Some True),
       col_AutoInc := (boolAt ''auto_inc'' m = Some True)\<rparr>"

definition columnsOfMap :: "go_rt \<Rightarrow> (string, iface) gomap \<Rightarrow> ColumnDef list" where
  "columnsOfMap rt m =
     (case map_of m ''columns'' of
        Some (IArr cols) \<Rightarrow> concat (map (\<lambda>c. case c of IMap cm \<Rightarrow> [columnOfMap rt cm] | _ \<Rightarrow> []) cols)
      | _ \<Rightarrow> [])"

definition tableOfMap :: "go_rt \<Rightarrow> (string, iface) gomap \<Rightarrow> StoredTable" where
  "tableOfMap rt m =
     zeroTable\<lparr>
       tbl_Name := (case stringAt ''name'' m of Some n \<Rightarrow> n | None \<Rightarrow> []),
       tbl_ID := (case floatAt ''id'' m of Some f \<Rightarrow> f64_to_u64 rt f | None \<Rightarrow> 0),
       tbl_Columns := columnsOfMap rt m\<rparr>"

definition addTable :: "StoredTable \<Rightarrow> Storage \<Rightarrow> Storage" where
  "addTable t s =
     s\<lparr>s_tables := put_key (tbl_Name t) t (s_tables s), s_rowData := put_key (tbl_Name t) [] (s_rowData s),
       s_rowIDs := put_key (tbl_Name t) [] (s_rowIDs s)\<rparr>"

text \<open>The loop over \<^verbatim>\<open>s.tables\<close> that looks for the ID of a record; the empty name counts as not found.\<close>

definition tableByID :: "u64 \<Rightarrow> Storage \<Rightarrow> string option" where
  "tableByID i s =
     (case List.find (\<lambda>(_, t). tbl_ID t = i) (s_tables s) of
        Some (name, _) \<Rightarrow> if name = [] then None else Some name
      | None \<Rightarrow> None)"

definition rowOf :: "senv \<Rightarrow> wal_data \<Rightarrow> Value list option" where
  "rowOf env d = (case d of WIface (IArr vs) \<Rightarrow> Some (map (interfaceToValue env) vs) | _ \<Rightarrow> None)"

definition replayInsert :: "senv \<Rightarrow> WALRecord \<Rightarrow> string \<Rightarrow> Storage \<Rightarrow> Storage" where
  "replayInsert env r name s =
     (case rowOf env (wal_Data r) of
        None \<Rightarrow> s
      | Some row \<Rightarrow> s\<lparr>s_rowData := put_key name (getD [] (s_rowData s) name @ [row]) (s_rowData s),
                       s_rowIDs := put_key name (getD [] (s_rowIDs s) name @ [wal_RowID r]) (s_rowIDs s)\<rparr>)"

definition replayUpdate :: "senv \<Rightarrow> WALRecord \<Rightarrow> string \<Rightarrow> unit st_method" where
  "replayUpdate env r name s =
     (case find_index (\<lambda>i. i = wal_RowID r) (getD [] (s_rowIDs s) name) of
        None \<Rightarrow> (s, Inr ())
      | Some i \<Rightarrow>
          (case rowOf env (wal_Data r) of
             None \<Rightarrow> (s, Inr ())
           | Some row \<Rightarrow> if length (getD [] (s_rowData s) name) \<le> i then (s, Inl STPanic) else (setRow name i row s, Inr ())))"

definition replayDelete :: "WALRecord \<Rightarrow> string \<Rightarrow> unit st_method" where
  "replayDelete r name s =
     (let rows = getD [] (s_rowData s) name; ids = getD [] (s_rowIDs s) name
      in case find_index (\<lambda>i. i = wal_RowID r) ids of
           None \<Rightarrow> (s, Inr ())
         | Some i \<Rightarrow>
             if length rows \<le> i then (s, Inl STPanic)
             else (s\<lparr>s_rowData := put_key name (take i rows @ drop (i + 1) rows) (s_rowData s),
                     s_rowIDs := put_key name (take i ids @ drop (i + 1) ids) (s_rowIDs s)\<rparr>, Inr ()))"

definition applyRecord :: "senv \<Rightarrow> WALRecord \<Rightarrow> unit st_method" where
  "applyRecord env r s =
     (if wal_Type r = WALTypeCreateTable then
        (case wal_Data r of
           WTable t \<Rightarrow> (addTable t s, Inr ())
         | WIface (IMap m) \<Rightarrow> (addTable (tableOfMap (env_rt env) m) s, Inr ())
         | _ \<Rightarrow> (s, Inr ()))
      else if wal_Type r = WALTypeDropTable then
        (case wal_Data r of
           WIface (IData (GString name)) \<Rightarrow>
             (s\<lparr>s_tables := del_key name (s_tables s), s_rowData := del_key name (s_rowData s),
               s_rowIDs := del_key name (s_rowIDs s)\<rparr>, Inr ())
         | _ \<Rightarrow> (s, Inr ()))
      else if wal_Type r \<in> {WALTypeInsert, WALTypeUpdate, WALTypeDelete} then
        (case tableByID (wal_TableID r) s of
           None \<Rightarrow> (s, Inr ())
         | Some name \<Rightarrow>
             if wal_Type r = WALTypeInsert then (replayInsert env r name s, Inr ())
             else if wal_Type r = WALTypeUpdate then replayUpdate env r name s
             else replayDelete r name s)
      else (s, Inr ()))"

fun replay :: "senv \<Rightarrow> WALRecord list \<Rightarrow> unit st_method" where
  "replay env [] s = (s, Inr ())"
| "replay env (r # rs) s =
     bindS (applyRecord env r) (\<lambda>_ s. replay env rs (if s_walSeq s < wal_LSN r then s\<lparr>s_walSeq := wal_LSN r\<rparr> else s)) s"

text \<open>\<open>opened\<close> is the log file; the path of a database with files is never empty.\<close>

definition recoverFromWAL :: "senv \<Rightarrow> os_file option \<Rightarrow> unit st_method" where
  "recoverFromWAL env opened s =
     (if \<not> s_enabled s then (s, Inr ())
      else case NewWAL ''xxldb.wal'' opened of
             Inl _ \<Rightarrow> (s, Inl STRead)
           | Inr w \<Rightarrow>
               let w = (if s_encrypted s \<and> s_encryptor s \<noteq> None then SetEncryptor (s_encryptor s) w else w)
               in (case ReadAll (env_dec env) w of
                     Inl _ \<Rightarrow> (s, Inl STRead)
                   | Inr records \<Rightarrow> replay env records s))"

section \<open>The metadata file\<close>

record meta =
  m_tables :: "(string, StoredTable) gomap"
  m_sequences :: "(string, u64) gomap"
  m_nextID :: u64
  m_auth :: "(string, iface) gomap option"
  m_encrypted :: bool
  m_rows :: "(string, iface) gomap"
  m_fts :: "(string, FTSIndexInfo) gomap option"

text \<open>Decoding into a Go map (nil for null), a slice, a time and an \<^verbatim>\<open>int\<close>\<close>

definition get_map :: "(json \<Rightarrow> 'a option) \<Rightarrow> json \<Rightarrow> (string, 'a) gomap option option" where
  "get_map f j =
     (case j of
        JNull \<Rightarrow> Some None
      | JObj kvs \<Rightarrow> map_option Some (map_all (\<lambda>(k, v). map_option (Pair k) (f v)) kvs)
      | _ \<Rightarrow> None)"

definition get_list :: "(json \<Rightarrow> 'a option) \<Rightarrow> json \<Rightarrow> 'a list option" where
  "get_list f j = (case j of JNull \<Rightarrow> Some [] | JArr js \<Rightarrow> map_all f js | _ \<Rightarrow> None)"

definition get_time :: "go_rt \<Rightarrow> json \<Rightarrow> int option" where
  "get_time rt j = (case j of JNull \<Rightarrow> Some 0 | JStr s \<Rightarrow> rt_parseTime rt RFC3339 s | _ \<Rightarrow> None)"

definition get_int :: "json \<Rightarrow> int option" where
  "get_int j = map_option sint (get_int64 j)"

definition columnOfJSON :: "go_rt \<Rightarrow> json \<Rightarrow> ColumnDef option" where
  "columnOfJSON rt j =
     (case j of
        JObj kvs \<Rightarrow>
          Option.bind (get_string (jsonKey ''name'' kvs)) (\<lambda>name.
          Option.bind (get_int (jsonKey ''type'' kvs)) (\<lambda>typ.
          Option.bind (get_int (jsonKey ''length'' kvs)) (\<lambda>len.
          Option.bind (get_int (jsonKey ''precision'' kvs)) (\<lambda>prec.
          Option.bind (get_bool (jsonKey ''nullable'' kvs)) (\<lambda>nullable.
          Option.bind (case jsonKey ''default'' kvs of JNull \<Rightarrow> Some None | d \<Rightarrow> map_option Some (Value_UnmarshalJSON rt d)) (\<lambda>dflt.
          Option.bind (get_bool (jsonKey ''primary_key'' kvs)) (\<lambda>pk.
          map_option (\<lambda>ai.
            \<lparr>col_Name = name, col_Type = typ, col_Length = len, col_Precision = prec, col_Nullable = nullable,
             col_Default = dflt, col_PrimaryKey = pk, col_AutoInc = ai\<rparr>)
          (get_bool (jsonKey ''auto_inc'' kvs)))))))))
      | _ \<Rightarrow> None)"

text \<open>A null table, which \<^verbatim>\<open>saveMetadata\<close> never writes, counts as a parse error.\<close>

definition tableOfJSON :: "go_rt \<Rightarrow> json \<Rightarrow> StoredTable option" where
  "tableOfJSON rt j =
     (case j of
        JObj kvs \<Rightarrow>
          Option.bind (get_uint (2 ^ 64) (jsonKey ''id'' kvs)) (\<lambda>i.
          Option.bind (get_string (jsonKey ''name'' kvs)) (\<lambda>name.
          Option.bind (get_list (columnOfJSON rt) (jsonKey ''columns'' kvs)) (\<lambda>cols.
          Option.bind (get_time rt (jsonKey ''created_at'' kvs)) (\<lambda>created.
          Option.bind (get_time rt (jsonKey ''updated_at'' kvs)) (\<lambda>updated.
          Option.bind (get_int (jsonKey ''row_count'' kvs)) (\<lambda>count.
          map_option (\<lambda>file.
            \<lparr>tbl_ID = of_int i, tbl_Name = name, tbl_Columns = cols, tbl_RowCount = count, st_DataFile = file,
             st_CreatedAt = created, st_UpdatedAt = updated\<rparr>)
          (get_string (jsonKey ''data_file'' kvs))))))))
      | _ \<Rightarrow> None)"

definition ftsOfJSON :: "json \<Rightarrow> FTSIndexInfo option" where
  "ftsOfJSON j =
     (case j of
        JObj kvs \<Rightarrow>
          Option.bind (get_string (jsonKey ''table_name'' kvs)) (\<lambda>t.
          Option.bind (get_string (jsonKey ''column_name'' kvs)) (\<lambda>c.
          map_option (\<lambda>n. \<lparr>fi_TableName = t, fi_ColumnName = c, fi_IndexName = n\<rparr>) (get_string (jsonKey ''index_name'' kvs))))
      | _ \<Rightarrow> None)"

definition orEmpty :: "'a list option \<Rightarrow> 'a list" where
  "orEmpty m = (case m of Some l \<Rightarrow> l | None \<Rightarrow> [])"

definition metaOfJSON :: "go_rt \<Rightarrow> json \<Rightarrow> meta option" where
  "metaOfJSON rt j =
     (case j of
        JObj kvs \<Rightarrow>
          Option.bind (get_uint (2 ^ 64) (jsonKey ''version'' kvs)) (\<lambda>_.
          Option.bind (get_map (tableOfJSON rt) (jsonKey ''tables'' kvs)) (\<lambda>tables.
          Option.bind (get_map get_int64 (jsonKey ''sequences'' kvs)) (\<lambda>seqs.
          Option.bind (get_uint (2 ^ 64) (jsonKey ''next_id'' kvs)) (\<lambda>nextID.
          Option.bind (get_map (\<lambda>j. Some (iface_of j)) (jsonKey ''auth'' kvs)) (\<lambda>auth.
          Option.bind (get_bool (jsonKey ''encrypted'' kvs)) (\<lambda>encrypted.
          Option.bind (get_map (\<lambda>j. Some (iface_of j)) (jsonKey ''rows'' kvs)) (\<lambda>rows.
          map_option (\<lambda>fts.
            \<lparr>m_tables = orEmpty tables, m_sequences = orEmpty seqs, m_nextID = of_int nextID, m_auth = auth,
             m_encrypted = encrypted, m_rows = orEmpty rows, m_fts = fts\<rparr>)
          (get_map ftsOfJSON (jsonKey ''fts_indexes'' kvs)))))))))
      | _ \<Rightarrow> None)"

text \<open>A row of the metadata, in the compact form \<^verbatim>\<open>[id, [v, ...]]\<close> or the old form with keys \<^verbatim>\<open>_id\<close> and \<^verbatim>\<open>_data\<close>\<close>

definition oldRow :: "senv \<Rightarrow> (string, iface) gomap \<Rightarrow> (u64 \<times> Value list) option" where
  "oldRow env m =
     (case map_of m ''_data'' of
        Some (IArr vs) \<Rightarrow>
          Some (case floatAt ''_id'' m of Some f \<Rightarrow> f64_to_u64 (env_rt env) f | None \<Rightarrow> 0, map (interfaceToValue env) vs)
      | _ \<Rightarrow> None)"

fun metaRow :: "senv \<Rightarrow> StoredTable option \<Rightarrow> iface \<Rightarrow> (u64 \<times> Value list) option" where
  "metaRow env t (IArr [IData (GFloat64 i), IArr vs]) =
     Some (f64_to_u64 (env_rt env) i, map (\<lambda>(j, v). rawToValue env v t j) (enumerate 0 vs))"
| "metaRow env t (IMap m) = oldRow env m"
| "metaRow env t v = None"

definition metaRows :: "senv \<Rightarrow> StoredTable option \<Rightarrow> iface \<Rightarrow> (u64 \<times> Value list) list" where
  "metaRows env t v =
     (case v of IArr rows \<Rightarrow> concat (map (\<lambda>r. case metaRow env t r of Some x \<Rightarrow> [x] | None \<Rightarrow> []) rows) | _ \<Rightarrow> [])"

definition appendRows :: "string \<Rightarrow> (u64 \<times> Value list) list \<Rightarrow> Storage \<Rightarrow> Storage" where
  "appendRows name rows s =
     (if rows = [] then s
      else s\<lparr>s_rowData := put_key name (getD [] (s_rowData s) name @ map snd rows) (s_rowData s),
             s_rowIDs := put_key name (getD [] (s_rowIDs s) name @ map fst rows) (s_rowIDs s)\<rparr>)"

definition initRows :: "string \<Rightarrow> Storage \<Rightarrow> Storage" where
  "initRows name s =
     s\<lparr>s_rowData := (if has_key name (s_rowData s) then s_rowData s else put_key name [] (s_rowData s)),
       s_rowIDs := (if has_key name (s_rowIDs s) then s_rowIDs s else put_key name [] (s_rowIDs s))\<rparr>"

definition installMeta :: "senv \<Rightarrow> meta \<Rightarrow> Storage \<Rightarrow> Storage" where
  "installMeta env m s =
     (let s = s\<lparr>s_pendingPassword := False, s_tables := m_tables m, s_sequences := m_sequences m,
                s_nextID := (if m_nextID m = 0 then 1 else m_nextID m),
                s_authConfig := (case m_auth m of Some a \<Rightarrow> a | None \<Rightarrow> s_authConfig s),
                s_encrypted := (m_encrypted m \<or> s_encrypted s),
                s_ftsIndexes := (case m_fts m of Some f \<Rightarrow> f | None \<Rightarrow> s_ftsIndexes s)\<rparr>;
          s = fold initRows (keys_of (s_tables s)) s
      in fold (\<lambda>(name, v) s. appendRows name (metaRows env (map_of (s_tables s) name) v) s) (m_rows m) s)"

definition loadMetadata :: "senv \<Rightarrow> unit st_method" where
  "loadMetadata env s =
     (if \<not> s_fs s then (s, Inr ())
      else case d_meta (s_disk s) of
             None \<Rightarrow> (s, Inl STRead)
           | Some file \<Rightarrow>
               bindS (\<lambda>s. if \<not> IsEncryptedFile file then (s, Inr file)
                         else let s = s\<lparr>s_encrypted := True\<rparr>
                              in case s_encryptor s of
                                   None \<Rightarrow> (s, Inl STNoKey)
                                 | Some e \<Rightarrow> (case DecryptFile e (Some file) of
                                                 Inl _ \<Rightarrow> (s, Inl STCrypto)
                                               | Inr d \<Rightarrow> (s, Inr (orEmpty d))))
                 (\<lambda>data s. case Option.bind (env_dec env data) (metaOfJSON (env_rt env)) of
                             None \<Rightarrow> (s, Inl STMarshal)
                           | Some m \<Rightarrow> (installMeta env m s, Inr ())) s)"

section \<open>Opening\<close>

definition LoadAndVerifyMetadata :: "senv \<Rightarrow> os_file option \<Rightarrow> unit st_method" where
  "LoadAndVerifyMetadata env opened =
     bindS (loadMetadata env) (\<lambda>_ s. case recoverFromWAL env opened s of
       (s, Inl STPanic) \<Rightarrow> (s, Inl STPanic)
     | (s, _) \<Rightarrow> (s, Inr ()))"

definition initWAL :: "os_file option \<Rightarrow> unit st_method" where
  "initWAL opened s =
     (if \<not> s_enabled s then (s, Inr ())
      else case opened of None \<Rightarrow> (s, Inl STRead) | Some f \<Rightarrow> (s\<lparr>s_walFile := Some f\<rparr>, Inr ()))"

text \<open>Errors of loading and replaying are ignored; a panic is not.\<close>

definition initFileStorage :: "senv \<Rightarrow> os_file option \<Rightarrow> unit st_method" where
  "initFileStorage env opened s =
     (if \<not> d_writable (s_disk s) then (s, Inl STWrite)
      else bindS
        (\<lambda>s. case d_meta (s_disk s) of
               None \<Rightarrow> (s, Inr ())
             | Some d \<Rightarrow>
                 if IsEncryptedFile d then (s\<lparr>s_encrypted := True, s_pendingPassword := True\<rparr>, Inr ())
                 else (case recoverFromWAL env opened (fst (loadMetadata env s)) of
                         (s, Inl STPanic) \<Rightarrow> (s, Inl STPanic)
                       | (s, _) \<Rightarrow> (s, Inr ())))
        (\<lambda>_. initWAL opened) s)"

definition SetEncryption :: "senv \<Rightarrow> os_file option \<Rightarrow> string \<Rightarrow> unit st_method" where
  "SetEncryption env opened password s =
     (if password = [] then (s\<lparr>s_encrypted := False, s_encryptor := None\<rparr>, Inr ())
      else
        let s = s\<lparr>s_encrypted := True, s_encryptor := Some (NewEncryptor password [])\<rparr>
        in if s_fs s \<and> (case d_meta (s_disk s) of Some d \<Rightarrow> IsEncryptedFile d | None \<Rightarrow> False)
           then LoadAndVerifyMetadata env opened s
           else if s_enabled s then saveMetadata env s else (s, Inr ()))"

definition SetEncryptionWithSalt :: "string \<Rightarrow> bytes \<Rightarrow> unit st_method" where
  "SetEncryptionWithSalt password salt s =
     (if password = [] then (s, Inl STNoKey)
      else (s\<lparr>s_encrypted := True, s_encryptor := Some (NewEncryptor password salt)\<rparr>, Inr ()))"

section \<open>Trees back to values\<close>

text \<open>Text that is valid UTF-8 is kept by JSON.\<close>

definition okText :: "string \<Rightarrow> bool" where
  "okText s \<longleftrightarrow> textOf (runesOf s) = s"

lemma json_string_ok [simp]: "okText s \<Longrightarrow> json_string s = JStr s"
  by (simp add: okText_def json_string_def)

lemma okText_ascii: "list_all is_ascii s \<Longrightarrow> okText s"
proof -
  assume a: "list_all is_ascii s"
  then have "textOf (map chr_code s) = s"
    by (induction s) (simp_all add: textOf_def encodeRune_def is_ascii_def chr_code_def Let_def)
  moreover have "list_all valid_rune (map chr_code s)"
    using a by (induction s) (simp_all add: valid_rune_def is_ascii_def chr_code_def)
  ultimately show "okText s" using runesOf_textOf by (metis okText_def)
qed

definition int64_ok :: "int \<Rightarrow> bool" where
  "int64_ok i \<longleftrightarrow> - (2 ^ 63) \<le> i \<and> i < 2 ^ 63"

lemma get_int_JInt [simp]: "int64_ok i \<Longrightarrow> get_int (JInt i) = Some i"
  by (simp add: get_int_def get_int64_def int64_ok_def int_word_sint)

lemma get_simps [simp]:
  "get_int JNull = Some 0" "get_string JNull = Some []" "get_string (JStr s) = Some s" "get_bool (JBool b) = Some b"
  "get_bool JNull = Some False" "get_list f (JArr js) = map_all f js" "get_map f JNull = Some None"
  "get_map f (JObj kvs) = map_option Some (map_all (\<lambda>(k, v). map_option (Pair k) (f v)) kvs)"
  "get_time rt (JStr s) = rt_parseTime rt RFC3339 s"
  by (simp_all add: get_int_def get_int64_def get_string_def get_bool_def get_list_def get_map_def get_time_def)

lemma jsonKey_simps [simp]:
  "jsonKey k ((k', j) # kvs) = (if k = k' then j else jsonKey k kvs)" "jsonKey k [] = JNull"
  by (simp_all add: jsonKey_def)

lemma jsonKey_append: "jsonKey k (xs @ ys) = (if has_key k xs then jsonKey k xs else jsonKey k ys)"
  by (auto simp: jsonKey_def has_key_def map_add_def split: option.split)

definition columnStorable :: "go_rt \<Rightarrow> ColumnDef \<Rightarrow> bool" where
  "columnStorable rt c \<longleftrightarrow>
     okText (col_Name c) \<and> int64_ok (col_Type c) \<and> int64_ok (col_Length c) \<and> int64_ok (col_Precision c) \<and>
     (case col_Default c of None \<Rightarrow> True | Some v \<Rightarrow> Option.bind (Value_MarshalJSON rt v) (Value_UnmarshalJSON rt) = Some v)"

lemma columnOfJSON_columnJSON:
  assumes "columnStorable rt c" "columnJSON rt c = Some j"
  shows "columnOfJSON rt j = Some c"
proof -
  obtain d where d: "j = JObj ([(''name'', JStr (col_Name c)), (''type'', JInt (col_Type c))]
          @ (if col_Length c = 0 then [] else [(''length'', JInt (col_Length c))])
          @ (if col_Precision c = 0 then [] else [(''precision'', JInt (col_Precision c))])
          @ [(''nullable'', JBool (col_Nullable c))] @ d
          @ [(''primary_key'', JBool (col_PrimaryKey c)), (''auto_inc'', JBool (col_AutoInc c))])"
    and dflt: "(case col_Default c of None \<Rightarrow> Some [] | Some v \<Rightarrow> map_option (\<lambda>j. [(''default'', j)]) (Value_MarshalJSON rt v)) = Some d"
    using assms by (auto simp: columnJSON_def columnStorable_def)
  show ?thesis
  proof (cases "col_Default c")
    case None
    with d dflt assms(1) show ?thesis
      by (simp add: columnOfJSON_def columnStorable_def jsonKey_append has_key_def)
  next
    case (Some v)
    then obtain vj where vj: "Value_MarshalJSON rt v = Some vj" "d = [(''default'', vj)]" "Value_UnmarshalJSON rt vj = Some v"
      using dflt assms(1) by (auto simp: columnStorable_def)
    obtain kvs where "vj = JObj kvs" using vj(1) by (auto simp: Value_MarshalJSON_def)
    with Some d vj assms(1) show ?thesis
      by (simp add: columnOfJSON_def columnStorable_def jsonKey_append has_key_def)
  qed
qed

definition tableStorable :: "go_rt \<Rightarrow> StoredTable \<Rightarrow> bool" where
  "tableStorable rt t \<longleftrightarrow>
     okText (tbl_Name t) \<and> okText (st_DataFile t) \<and> int64_ok (tbl_RowCount t) \<and> list_all (columnStorable rt) (tbl_Columns t) \<and>
     rt_parseTime rt RFC3339 (rt_formatTime rt RFC3339Nano (st_CreatedAt t)) = Some (st_CreatedAt t) \<and>
     rt_parseTime rt RFC3339 (rt_formatTime rt RFC3339Nano (st_UpdatedAt t)) = Some (st_UpdatedAt t)"

lemma map_all_back:
  assumes "map_all g xs = Some js" "\<And>x j. x \<in> set xs \<Longrightarrow> g x = Some j \<Longrightarrow> f j = Some x"
  shows "map_all f js = Some xs"
  using assms
proof (induction xs arbitrary: js)
  case (Cons x xs)
  then obtain j js' where j: "g x = Some j" "map_all g xs = Some js'" "js = j # js'" by (auto split: bind_splits)
  have "f j = Some x" using Cons.prems(2) j(1) by simp
  moreover have "map_all f js' = Some xs" using Cons.prems(2) by (intro Cons.IH j(2)) simp
  ultimately show ?case by (simp add: j(3))
qed simp

lemma get_uint64 [simp]: "get_uint 0x10000000000000000 (JInt (uint (w :: u64))) = Some (uint w)"
  using get_uint_uint [of w] by simp

lemma tableOfJSON_tableJSON:
  assumes "tableStorable rt t" "tableJSON rt t = Some j"
  shows "tableOfJSON rt j = Some t"
proof -
  obtain cols where cols: "map_all (columnJSON rt) (tbl_Columns t) = Some cols"
    "j = JObj [(''id'', JInt (uint (tbl_ID t))), (''name'', JStr (tbl_Name t)), (''columns'', JArr cols),
        (''created_at'', JStr (rt_formatTime rt RFC3339Nano (st_CreatedAt t))),
        (''updated_at'', JStr (rt_formatTime rt RFC3339Nano (st_UpdatedAt t))),
        (''row_count'', JInt (tbl_RowCount t)), (''data_file'', JStr (st_DataFile t))]"
    using assms by (auto simp: tableJSON_def tableStorable_def)
  have "map_all (columnOfJSON rt) cols = Some (tbl_Columns t)"
    using cols(1) assms(1) by (intro map_all_back [OF cols(1)] columnOfJSON_columnJSON)
      (auto simp: tableStorable_def list_all_iff)
  with assms(1) show ?thesis by (simp add: cols(2) tableOfJSON_def tableStorable_def)
qed

lemma ftsOfJSON_ftsJSON:
  "okText (fi_TableName i) \<Longrightarrow> okText (fi_ColumnName i) \<Longrightarrow> okText (fi_IndexName i) \<Longrightarrow> ftsOfJSON (ftsJSON i) = Some i"
  by (simp add: ftsOfJSON_def ftsJSON_def)

section \<open>Rows through the metadata\<close>

text \<open>The values a column keeps exactly: null, blob references, integers of 53 bits, finite floats, valid text\<close>

definition cellStorable :: "DataType \<Rightarrow> Value \<Rightarrow> bool" where
  "cellStorable t v \<longleftrightarrow>
     v = NewNullValue \<or>
     (case ValueBlobRef v of
        Some r \<Rightarrow> v = NewBlobRefValue (ref_ID r) (ref_Size r) \<and> 0 < ref_ID r \<and> uint (ref_ID r) < 2 ^ 53 \<and> \<bar>sint (ref_Size r)\<bar> < 2 ^ 53
      | None \<Rightarrow>
          (case Data v of
             GInt64 n \<Rightarrow> v = NewIntValue n \<and> \<bar>sint n\<bar> < 2 ^ 53 \<and> (t = TypeInt \<or> t = TypeSeq)
           | GFloat64 f \<Rightarrow> v = NewFloatValue f \<and> f64_finite f \<and> t = TypeFloat
           | GString s \<Rightarrow> v = NewStringValue s \<and> okText s \<and> t \<notin> {TypeInt, TypeSeq, TypeFloat, TypeBlob, TypeImage}
           | _ \<Rightarrow> False))"

lemma cellStorable_cases:
  assumes "cellStorable t v"
  obtains "v = NewNullValue"
  | i n where "v = NewBlobRefValue i n" "0 < i" "uint i < 2 ^ 53" "\<bar>sint n\<bar> < 2 ^ 53"
  | n where "v = NewIntValue n" "\<bar>sint n\<bar> < 2 ^ 53" "t = TypeInt \<or> t = TypeSeq"
  | f where "v = NewFloatValue f" "f64_finite f" "t = TypeFloat"
  | s where "v = NewStringValue s" "okText s" "t \<notin> {TypeInt, TypeSeq, TypeFloat, TypeBlob, TypeImage}"
  using assms unfolding cellStorable_def by (auto split: option.splits godata.splits)

lemma iface_of_json_float: "json_float f = Some j \<Longrightarrow> iface_of j = IData (GFloat64 f)"
  by (auto simp: json_float_def split: if_splits)

lemma uint_through_f64:
  assumes "uint (i :: u64) < 2 ^ 53"
  shows "f64_to_u64 rt (int_to_f64 (uint i)) = i"
proof -
  have "\<bar>uint i\<bar> < 2 ^ 53" using assms by simp
  note int_through_f64(1,2) [OF this]
  with assms show ?thesis by (simp add: f64_to_u64_def)
qed

lemma sint_through_f64: "\<bar>sint (n :: u64)\<bar> < 2 ^ 53 \<Longrightarrow> f64_to_i64 rt (int_to_f64 (sint n)) = n"
  using int_through_f64(3) [of "sint n" rt] by simp

lemma one_f64_eq: "f64_eq (int_to_f64 1) (int_to_f64 1)"
  using int_through_f64(1) [of 1] by (simp add: f64_eq_def f64_nan_def f64_finite_def)

lemma rawToValue_rawJSON:
  assumes "cellStorable (col_Type (tbl_Columns t ! i)) v" "i < length (tbl_Columns t)" "rawJSON rt v = Some j"
  shows "rawToValue env (iface_of j) (Some t) i = v"
  using assms(1)
proof (cases rule: cellStorable_cases)
  case 1
  with assms show ?thesis by (auto simp: rawJSON_def NewNullValue_def rawToValue_def)
next
  case (2 k n)
  then have "j = JArr [JInt 1, JInt (uint k), JInt (sint n)]" using assms(3) by (simp add: rawJSON_def NewBlobRefValue_def)
  with 2 show ?thesis
    by (simp add: rawToValue_def one_f64_eq uint_through_f64 sint_through_f64 del: One_nat_def)
next
  case (3 n)
  with assms show ?thesis by (auto simp: rawJSON_def NewIntValue_def rawToValue_def columnValue_def sint_through_f64)
next
  case (4 f)
  then have "iface_of j = IData (GFloat64 f)" using assms(3) by (simp add: rawJSON_def NewFloatValue_def iface_of_json_float)
  with 4 assms(2) show ?thesis by (simp add: rawToValue_def columnValue_def)
next
  case (5 s)
  with assms show ?thesis
    by (auto simp: rawJSON_def NewStringValue_def rawToValue_def columnValue_def interfaceToValue_def)
qed

definition rowStorable :: "StoredTable \<Rightarrow> Value list \<Rightarrow> bool" where
  "rowStorable t row \<longleftrightarrow>
     length row \<le> length (tbl_Columns t) \<and> list_all (\<lambda>(c, v). cellStorable (col_Type c) v) (zip (tbl_Columns t) row)"

lemma rowStorable_nth:
  "rowStorable t row \<Longrightarrow> i < length row \<Longrightarrow> i < length (tbl_Columns t) \<and> cellStorable (col_Type (tbl_Columns t ! i)) (row ! i)"
  by (auto simp: rowStorable_def list_all_length)

lemma map_all_nth:
  assumes "map_all f xs = Some ys"
  shows "length ys = length xs" "i < length xs \<Longrightarrow> f (xs ! i) = Some (ys ! i)"
proof -
  have m: "map f xs = map Some ys" using assms by (simp add: map_all_eq_Some)
  then show l: "length ys = length xs" by (metis length_map)
  show "i < length xs \<Longrightarrow> f (xs ! i) = Some (ys ! i)" using arg_cong [OF m, of "\<lambda>l. l ! i"] l by simp
qed

lemma rawRow_back:
  assumes "rowStorable t row" "map_all (rawJSON rt) row = Some js"
  shows "map (\<lambda>(i, v). rawToValue env v (Some t) i) (enumerate 0 (map iface_of js)) = row"
proof (rule nth_equalityI)
  note n = map_all_nth [OF assms(2)]
  show "length (map (\<lambda>(i, v). rawToValue env v (Some t) i) (enumerate 0 (map iface_of js))) = length row" using n(1) by simp
  fix i assume "i < length (map (\<lambda>(i, v). rawToValue env v (Some t) i) (enumerate 0 (map iface_of js)))"
  then have i: "i < length row" using n(1) by simp
  show "map (\<lambda>(i, v). rawToValue env v (Some t) i) (enumerate 0 (map iface_of js)) ! i = row ! i"
    using rawToValue_rawJSON [OF _ _ n(2) [OF i], of t i env] rowStorable_nth [OF assms(1) i] i n(1)
    by (simp add: nth_enumerate_eq)
qed

lemma concat_somes: "map f js = map Some xs \<Longrightarrow> concat (map (\<lambda>r. case f r of Some x \<Rightarrow> [x] | None \<Rightarrow> []) js) = xs"
  by (induction js arbitrary: xs) (auto simp: Cons_eq_map_conv)

lemma metaRows_rowsJSON:
  assumes "rowsJSON rt ids rows = Inr j" "length ids = length rows"
    and "list_all (\<lambda>i. uint i < 2 ^ 53) ids" "list_all (rowStorable t) rows"
  shows "metaRows env (Some t) (iface_of j) = zip ids rows"
proof -
  let ?f = "\<lambda>(i, row). map_option (\<lambda>js. JArr [JInt (uint i), JArr js]) (map_all (rawJSON rt) row)"
  obtain js where js: "map_all ?f (zip ids rows) = Some js" "j = JArr js"
    using assms(1) by (auto simp: rowsJSON_def split: if_splits option.splits)
  have one: "metaRow env (Some t) (iface_of y) = Some x" if "x \<in> set (zip ids rows)" "?f x = Some y" for x y
  proof -
    obtain i row where x: "x = (i, row)" "i \<in> set ids" "row \<in> set rows"
      using \<open>x \<in> set (zip ids rows)\<close> by (metis set_zip_leftD set_zip_rightD surj_pair)
    then obtain rj where rj: "map_all (rawJSON rt) row = Some rj" "y = JArr [JInt (uint i), JArr rj]"
      using \<open>?f x = Some y\<close> by auto
    have "uint i < 2 ^ 53" "rowStorable t row" using assms(3,4) x by (simp_all add: list_all_iff)
    with rj(1) show ?thesis by (simp add: rj(2) x(1) uint_through_f64 rawRow_back)
  qed
  have "map_all (\<lambda>y. metaRow env (Some t) (iface_of y)) js = Some (zip ids rows)"
    by (rule map_all_back [OF js(1)]) (rule one)
  then have "map (\<lambda>y. metaRow env (Some t) (iface_of y)) js = map Some (zip ids rows)" by (simp add: map_all_eq_Some)
  from concat_somes [OF this] show ?thesis by (simp add: js(2) metaRows_def o_def)
qed

lemma getD_put_key: "getD z (put_key k v m) n = (if n = k then v else getD z m n)"
  by (simp add: getD_def update_conv')

lemma getD_initRows: "getD [] (if has_key k m then m else put_key k [] m) n = getD [] m n"
  by (simp add: getD_def has_key_def update_conv')

text \<open>Loading changes the row stores only; \<open>sameRows\<close> says what they hold.\<close>

definition withRows :: "(string, Value list list) gomap \<Rightarrow> (string, u64 list) gomap \<Rightarrow> Storage \<Rightarrow> Storage" where
  "withRows r i s = s\<lparr>s_rowData := r, s_rowIDs := i\<rparr>"

lemma fold_initRows:
  "\<exists>r i. fold initRows names s = withRows r i s \<and> getD [] r = getD [] (s_rowData s) \<and> getD [] i = getD [] (s_rowIDs s)"
proof (induction names arbitrary: s)
  case Nil
  show ?case by (rule exI [of _ "s_rowData s"], rule exI [of _ "s_rowIDs s"]) (simp add: withRows_def)
next
  case (Cons k names)
  obtain r i where "fold initRows names (initRows k s) = withRows r i (initRows k s)"
    "getD [] r = getD [] (s_rowData (initRows k s))" "getD [] i = getD [] (s_rowIDs (initRows k s))"
    using Cons.IH by blast
  moreover have "withRows r i (initRows k s) = withRows r i s" by (simp add: withRows_def initRows_def)
  moreover have "getD [] (s_rowData (initRows k s)) = getD [] (s_rowData s)" "getD [] (s_rowIDs (initRows k s)) = getD [] (s_rowIDs s)"
    by (simp_all add: initRows_def getD_initRows fun_eq_iff)
  ultimately show ?case by auto
qed

abbreviation loadRows :: "senv \<Rightarrow> (string, iface) gomap \<Rightarrow> Storage \<Rightarrow> Storage" where
  "loadRows env kvs \<equiv> fold (\<lambda>(name, v) s. appendRows name (metaRows env (map_of (s_tables s) name) v) s) kvs"

definition rowsAt :: "senv \<Rightarrow> (string, StoredTable) gomap \<Rightarrow> (string, iface) gomap \<Rightarrow> string \<Rightarrow> (u64 \<times> Value list) list" where
  "rowsAt env tables kvs name = (case map_of kvs name of None \<Rightarrow> [] | Some v \<Rightarrow> metaRows env (map_of tables name) v)"

lemma fold_appendRows:
  assumes "distinct (keys_of kvs)"
  shows "\<exists>r i. loadRows env kvs s = withRows r i s \<and>
    (\<forall>n. getD [] r n = getD [] (s_rowData s) n @ map snd (rowsAt env (s_tables s) kvs n)) \<and>
    (\<forall>n. getD [] i n = getD [] (s_rowIDs s) n @ map fst (rowsAt env (s_tables s) kvs n))"
  using assms
proof (induction kvs arbitrary: s)
  case Nil
  show ?case by (rule exI [of _ "s_rowData s"], rule exI [of _ "s_rowIDs s"]) (simp add: withRows_def rowsAt_def)
next
  case (Cons kv kvs)
  obtain k v where kv: "kv = (k, v)" by (cases kv)
  let ?rows = "metaRows env (map_of (s_tables s) k) v"
  let ?s = "appendRows k ?rows s"
  have s: "s_tables ?s = s_tables s" "withRows r i ?s = withRows r i s" for r i by (simp_all add: appendRows_def withRows_def)
  have g: "getD [] (s_rowData ?s) n = getD [] (s_rowData s) n @ (if n = k then map snd ?rows else [])"
    "getD [] (s_rowIDs ?s) n = getD [] (s_rowIDs s) n @ (if n = k then map fst ?rows else [])" for n
    by (auto simp: appendRows_def getD_put_key)
  have k: "rowsAt env T kvs k = []" for T
  proof -
    have "map_of kvs k = None" using Cons.prems kv by (auto simp: map_of_eq_None_iff)
    then show ?thesis by (simp add: rowsAt_def)
  qed
  have r: "rowsAt env (s_tables s) ((k, v) # kvs) n = (if n = k then ?rows else rowsAt env (s_tables s) kvs n)" for n
    by (simp add: rowsAt_def)
  obtain r' i' where "loadRows env kvs ?s = withRows r' i' ?s"
    "\<forall>n. getD [] r' n = getD [] (s_rowData ?s) n @ map snd (rowsAt env (s_tables ?s) kvs n)"
    "\<forall>n. getD [] i' n = getD [] (s_rowIDs ?s) n @ map fst (rowsAt env (s_tables ?s) kvs n)"
    using Cons.IH [of ?s] Cons.prems by auto
  then show ?case
    by (intro exI [of _ r'] exI [of _ i']) (auto simp: r k g s kv)
qed

section \<open>Saving and loading\<close>

lemma jsonKey_omit [simp]:
  "jsonKey k (omitEmpty k' xs @ ys) = (if k = k' \<and> xs \<noteq> [] then JObj xs else jsonKey k ys)"
  "jsonKey k (omitEmpty k' xs) = (if k = k' \<and> xs \<noteq> [] then JObj xs else JNull)"
  "jsonKey k ((if b then [(k', v)] else []) @ ys) = (if k = k' \<and> b then v else jsonKey k ys)"
  by (simp_all add: omitEmpty_def)

lemma map_err_back:
  assumes "map_err (\<lambda>(k, x). bindE (marshal (g x)) (\<lambda>j. Inr (k, j))) xs = Inr js"
    and "\<And>k x j. (k, x) \<in> set xs \<Longrightarrow> g x = Some j \<Longrightarrow> f j = Some x"
  shows "map_all (\<lambda>(k, j). map_option (Pair k) (f j)) js = Some xs"
  using assms
proof (induction xs arbitrary: js)
  case (Cons kx xs)
  obtain k x where kx: "kx = (k, x)" by (cases kx)
  obtain j js' where j: "g x = Some j" "js = (k, j) # js'"
    and js': "map_err (\<lambda>(k, x). bindE (marshal (g x)) (\<lambda>j. Inr (k, j))) xs = Inr js'"
    using Cons.prems(1) by (auto simp: kx marshal_def bindE_eq_Inr_iff split: option.splits)
  have "map_all (\<lambda>(k, j). map_option (Pair k) (f j)) js' = Some xs" 
    by (rule Cons.IH [OF js' Cons.prems(2)], rule list.set_intros(2), assumption+)
  moreover have "f j = Some x" using Cons.prems(2) [of k x j] j(1) kx by simp
  ultimately show ?case by (simp add: kx j(2))
qed simp

lemma map_all_entries: "map_all (\<lambda>(k, j). Some (k, h j)) kvs = Some (map (map_prod id h) kvs)"
  by (induction kvs) auto

definition metaStorable :: "go_rt \<Rightarrow> Storage \<Rightarrow> bool" where
  "metaStorable rt s \<longleftrightarrow>
     list_all (\<lambda>(_, t). tableStorable rt t) (s_tables s) \<and>
     list_all (\<lambda>(_, i). okText (fi_TableName i) \<and> okText (fi_ColumnName i) \<and> okText (fi_IndexName i)) (s_ftsIndexes s) \<and>
     s_nextID s \<noteq> 0 \<and> distinct (keys_of (s_rowData s)) \<and> list_all (\<lambda>(name, _). has_key name (s_rowData s)) (s_rowIDs s) \<and>
     list_all (\<lambda>(name, rows). case map_of (s_tables s) name of
         None \<Rightarrow> False
       | Some t \<Rightarrow> list_all (rowStorable t) rows \<and> length (getD [] (s_rowIDs s) name) = length rows \<and>
           list_all (\<lambda>i. uint i < 2 ^ 53) (getD [] (s_rowIDs s) name)) (s_rowData s)"

abbreviation savedRows :: "go_rt \<Rightarrow> Storage \<Rightarrow> st_error + (string \<times> json) list" where
  "savedRows rt s \<equiv> map_err (\<lambda>(name, rows). bindE (rowsJSON rt (getD [] (s_rowIDs s) name) rows) (\<lambda>j. Inr (name, j))) (s_rowData s)"

lemma metaOfJSON_metaJSON:
  assumes "metaStorable rt s" "metaJSON rt s = Inr j"
  obtains m rows where "metaOfJSON rt j = Some m" "m_tables m = s_tables s" "m_sequences m = s_sequences s" "m_nextID m = s_nextID s"
    "orEmpty (m_fts m) = s_ftsIndexes s" "m_encrypted m = s_encrypted s" "savedRows rt s = Inr rows"
    "m_rows m = map (map_prod id iface_of) rows"
proof -
  obtain rows tables auth where rows: "savedRows rt s = Inr rows"
    and tables: "map_err (\<lambda>(name, t). bindE (marshal (tableJSON rt t)) (\<lambda>j. Inr (name, j))) (s_tables s) = Inr tables"
    and j: "j = JObj ([(''version'', JInt 2), (''tables'', JObj tables),
                 (''sequences'', JObj (map (map_prod id (\<lambda>n. JInt (sint n))) (s_sequences s))),
                 (''next_id'', JInt (uint (s_nextID s)))]
                @ omitEmpty ''auth'' auth
                @ (if s_encrypted s then [(''encrypted'', JBool True)] else [])
                @ omitEmpty ''rows'' rows
                @ omitEmpty ''fts_indexes'' (map (map_prod id ftsJSON) (s_ftsIndexes s)))"
    using assms(2) by (auto simp: metaJSON_def bindE_eq_Inr_iff)
  have t: "map_all (\<lambda>(k, j). map_option (Pair k) (tableOfJSON rt j)) tables = Some (s_tables s)"
    by (rule map_err_back [OF tables]) (use assms(1) in \<open>auto simp: metaStorable_def list_all_iff intro!: tableOfJSON_tableJSON\<close>)
  have q: "map_all (\<lambda>(k, j). map_option (Pair k) (get_int64 j)) (map (map_prod id (\<lambda>n. JInt (sint n))) m) = Some m" for m :: "(string, u64) gomap"
    by (induction m) (auto simp: get_int64_sint)
  have f: "map_all (\<lambda>(k, j). map_option (Pair k) (ftsOfJSON j)) (map (map_prod id ftsJSON) m) = Some m"
    if "list_all (\<lambda>(_, i). okText (fi_TableName i) \<and> okText (fi_ColumnName i) \<and> okText (fi_IndexName i)) m" for m :: "(string, FTSIndexInfo) gomap"
    using that by (induction m) (auto simp: ftsOfJSON_ftsJSON)
  have ver: "get_uint 18446744073709551616 (JInt 2) = Some 2" by (simp add: get_uint_def)
  let ?m = "\<lparr>m_tables = s_tables s, m_sequences = s_sequences s, m_nextID = s_nextID s,
       m_auth = (if auth = [] then None else Some (map (map_prod id iface_of) auth)),
       m_encrypted = s_encrypted s, m_rows = map (map_prod id iface_of) rows,
       m_fts = (if s_ftsIndexes s = [] then None else Some (s_ftsIndexes s))\<rparr>"
  have "metaOfJSON rt j = Some ?m"
    using assms(1) by (simp add: metaOfJSON_def j t q f ver map_all_entries orEmpty_def metaStorable_def)
  from that [OF this _ _ _ _ _ rows] show ?thesis by (simp add: orEmpty_def)
qed

lemma IsEncryptedFile_EncryptData:
  "d \<noteq> [] \<Longrightarrow> EncryptData rnd (Some d) c = Some x \<Longrightarrow> IsEncryptedFile x"
  by (auto simp: EncryptData_def Let_def IsEncryptedFile_def IsEncrypted_def)

text \<open>The rows a saved database loads: those of every table\<close>

lemma savedRows_entry:
  assumes "savedRows rt s = Inr rows" "map_of (s_rowData s) name = Some rs"
  shows "\<exists>j. map_of rows name = Some j \<and> rowsJSON rt (getD [] (s_rowIDs s) name) rs = Inr j"
proof -
  have "\<exists>j. map_of js name = Some j \<and> rowsJSON rt (g name) rs = Inr j"
    if "map_err (\<lambda>(name, rows). bindE (rowsJSON rt (g name) rows) (\<lambda>j. Inr (name, j))) xs = Inr js" "map_of xs name = Some rs"
    for g xs js
    using that by (induction xs arbitrary: js) (auto simp: bindE_eq_Inr_iff split: if_splits)
  from this [OF assms] show ?thesis .
qed

lemma savedRows_keys: "map_err (\<lambda>(name, rows). bindE (f name rows) (\<lambda>j. Inr (name, j))) xs = Inr js \<Longrightarrow> keys_of js = keys_of xs"
  by (induction xs arbitrary: js) (auto simp: bindE_eq_Inr_iff)

lemma rowsAt_saved:
  assumes "metaStorable rt s" "savedRows rt s = Inr rows"
  shows "rowsAt env (s_tables s) (map (map_prod id iface_of) rows) n = zip (getD [] (s_rowIDs s) n) (getD [] (s_rowData s) n)"
proof (cases "map_of (s_rowData s) n")
  case None
  then have "n \<notin> set (keys_of rows)" using savedRows_keys [OF assms(2)] by (simp add: map_of_eq_None_iff)
  then have "map_of (map (map_prod id iface_of) rows) n = None" by (simp add: map_of_eq_None_iff image_image)
  with None show ?thesis by (simp add: rowsAt_def getD_def)
next
  case (Some rs)
  obtain j where j: "map_of rows n = Some j" "rowsJSON rt (getD [] (s_rowIDs s) n) rs = Inr j"
    using savedRows_entry [OF assms(2) Some] by blast
  have "(n, rs) \<in> set (s_rowData s)" using Some by (rule map_of_SomeD)
  with assms(1) obtain t where t: "map_of (s_tables s) n = Some t" "list_all (rowStorable t) rs"
    "length (getD [] (s_rowIDs s) n) = length rs" "list_all (\<lambda>i. uint i < 2 ^ 53) (getD [] (s_rowIDs s) n)"
    unfolding metaStorable_def list_all_iff by (force split: option.splits)
  have "map_of (map (map_prod id iface_of) rows) n = Some (iface_of j)"
    using j(1) by (induction rows) (auto split: if_splits)
  with metaRows_rowsJSON [OF j(2) t(3,4,2), of env] t(1) Some show ?thesis by (simp add: rowsAt_def getD_def)
qed

lemma metaStorable_length:
  assumes "metaStorable rt s"
  shows "length (getD [] (s_rowIDs s) n) = length (getD [] (s_rowData s) n)"
proof (cases "map_of (s_rowData s) n")
  case None
  then have "map_of (s_rowIDs s) n = None"
    using assms by (auto simp: metaStorable_def list_all_iff has_key_def map_of_eq_None_iff)
  with None show ?thesis by (simp add: getD_def)
next
  case (Some rs)
  then have "(n, rs) \<in> set (s_rowData s)" by (rule map_of_SomeD)
  with assms Some show ?thesis unfolding metaStorable_def list_all_iff by (force simp: getD_def split: option.splits)
qed

lemma installMeta_saved:
  assumes ok: "metaStorable rt s" and rows: "savedRows rt s = Inr rows"
    and m: "m_tables m = s_tables s" "m_sequences m = s_sequences s" "m_nextID m = s_nextID s"
      "orEmpty (m_fts m) = s_ftsIndexes s" "m_rows m = map (map_prod id iface_of) rows"
    and s0: "getD [] (s_rowData s0) = (\<lambda>_. [])" "getD [] (s_rowIDs s0) = (\<lambda>_. [])" "s_ftsIndexes s0 = []"
    and s': "s' = installMeta env m s0"
  shows "s_tables s' = s_tables s \<and> s_sequences s' = s_sequences s \<and> s_nextID s' = s_nextID s \<and>
    s_ftsIndexes s' = s_ftsIndexes s \<and> getD [] (s_rowData s') = getD [] (s_rowData s) \<and> getD [] (s_rowIDs s') = getD [] (s_rowIDs s) \<and>
    s_enabled s' = s_enabled s0 \<and> s_encryptor s' = s_encryptor s0"
proof -
  let ?s = "s0\<lparr>s_pendingPassword := False, s_tables := m_tables m, s_sequences := m_sequences m,
                s_nextID := (if m_nextID m = 0 then 1 else m_nextID m),
                s_authConfig := (case m_auth m of Some a \<Rightarrow> a | None \<Rightarrow> s_authConfig s0),
                s_encrypted := (m_encrypted m \<or> s_encrypted s0),
                s_ftsIndexes := (case m_fts m of Some f \<Rightarrow> f | None \<Rightarrow> s_ftsIndexes s0)\<rparr>"
  obtain r1 i1 where f1: "fold initRows (keys_of (s_tables ?s)) ?s = withRows r1 i1 ?s"
    "getD [] r1 = getD [] (s_rowData ?s)" "getD [] i1 = getD [] (s_rowIDs ?s)"
    using fold_initRows [of "keys_of (s_tables ?s)" ?s] by blast
  have d: "distinct (keys_of (m_rows m))"
    using ok savedRows_keys [OF rows] by (simp add: m(5) o_def metaStorable_def)
  obtain r i where f2: "loadRows env (m_rows m) (withRows r1 i1 ?s) = withRows r i (withRows r1 i1 ?s)"
    "\<forall>n. getD [] r n = getD [] (s_rowData (withRows r1 i1 ?s)) n @ map snd (rowsAt env (s_tables (withRows r1 i1 ?s)) (m_rows m) n)"
    "\<forall>n. getD [] i n = getD [] (s_rowIDs (withRows r1 i1 ?s)) n @ map fst (rowsAt env (s_tables (withRows r1 i1 ?s)) (m_rows m) n)"
    using fold_appendRows [OF d, of env "withRows r1 i1 ?s"] by blast
  have "s' = withRows r i ?s" using f2(1) f1(1) by (simp add: s' installMeta_def Let_def withRows_def)
  moreover note metaStorable_length [OF ok]
  ultimately show ?thesis
    using ok m f1(2,3) f2(2,3) s0 by (auto simp: withRows_def rowsAt_saved [OF ok rows] metaStorable_def orEmpty_def fun_eq_iff
        split: option.splits)
qed

lemma loadMetadata_saved:
  assumes ok: "metaStorable (env_rt env) s" and on: "s_enabled s" "s_fs s" "\<not> s_skipSave s" "d_writable (s_disk s)"
    and j: "metaJSON (env_rt env) s = Inr j" "env_dec env (env_enc env j) = Some j" "env_enc env j \<noteq> []"
      "\<not> IsEncryptedFile (env_enc env j)" "\<forall>n. length (env_rnd env n) = n"
    and s0: "s_fs s0" "s_disk s0 = s_disk (fst (saveMetadata env s))" "s_encryptor s0 = s_encryptor s"
      "getD [] (s_rowData s0) = (\<lambda>_. [])" "getD [] (s_rowIDs s0) = (\<lambda>_. [])" "s_ftsIndexes s0 = []"
  shows "\<exists>m s0' rows. loadMetadata env s0 = (installMeta env m s0', Inr ()) \<and> s0' \<in> {s0, s0\<lparr>s_encrypted := True\<rparr>} \<and>
    savedRows (env_rt env) s = Inr rows \<and> m_tables m = s_tables s \<and> m_sequences m = s_sequences s \<and> m_nextID m = s_nextID s \<and>
    orEmpty (m_fts m) = s_ftsIndexes s \<and> m_rows m = map (map_prod id iface_of) rows \<and> m_encrypted m = s_encrypted s"
proof -
  let ?code = "if s_encrypted s then map_option enc_code (s_encryptor s) else None"
  let ?d = "encryptRecord (env_rnd env) ?code (env_enc env j)"
  have disk: "d_meta (s_disk s0) = Some ?d" using on j(1) s0(2) by (simp add: saveMetadata_def Let_def)
  obtain m rows where m: "metaOfJSON (env_rt env) j = Some m" "m_tables m = s_tables s" "m_sequences m = s_sequences s"
    "m_nextID m = s_nextID s" "orEmpty (m_fts m) = s_ftsIndexes s" "m_encrypted m = s_encrypted s"
    "savedRows (env_rt env) s = Inr rows" "m_rows m = map (map_prod id iface_of) rows"
    using ok j(1) by (rule metaOfJSON_metaJSON)
  have "\<exists>s0'. loadMetadata env s0 = (installMeta env m s0', Inr ()) \<and> s0' \<in> {s0, s0\<lparr>s_encrypted := True\<rparr>}"
  proof (cases ?code)
    case None
    then have "?d = env_enc env j" by (simp add: encryptRecord_def)
    then show ?thesis using s0(1) disk j m(1) by (auto simp: loadMetadata_def bindS_def)
  next
    case (Some c)
    then obtain e where e: "s_encryptor s = Some e" "c = enc_code e" by (auto split: if_splits)
    obtain x where x: "EncryptData (env_rnd env) (Some (env_enc env j)) c = Some x"
      using length_EncryptData [of "env_rnd env" c "env_enc env j"] j(3,5) by auto
    have "?d = x" unfolding Some by (simp add: encryptRecord_def x)
    then have x': "d_meta (s_disk s0) = Some x" using disk by simp
    have dec: "DecryptFile e (Some x) = Inr (Some (env_enc env j))"
      unfolding DecryptFile_def x [symmetric] e(2) by (rule DecryptData_EncryptData) (use j(3,5) in simp_all)
    have "s_encryptor (s0\<lparr>s_encrypted := True\<rparr>) = Some e" using s0(3) e(1) by simp
    with s0(1) x' dec j(2) m(1) IsEncryptedFile_EncryptData [OF j(3) x]
    have "loadMetadata env s0 = (installMeta env m (s0\<lparr>s_encrypted := True\<rparr>), Inr ())"
      by (simp add: loadMetadata_def bindS_def orEmpty_def)
    then show ?thesis by blast
  qed
  with m show ?thesis by blast
qed

text \<open>
  C9. What \<^verbatim>\<open>saveMetadata\<close> writes, \<^verbatim>\<open>loadMetadata\<close> reads back into a fresh storage: the same tables with their columns and
  time stamps, sequences, ID counter and full-text indexes, and for every table the same rows and row IDs. It holds
  for plain and for encrypted metadata, when the reader has the encryptor of the writer, and for rows of
  nulls, blob references, integers of 53 bits, finite floats and valid text in columns of their type.
\<close>
theorem metadata_roundtrip:
  assumes "metaStorable (env_rt env) s" "s_enabled s" "s_fs s" "\<not> s_skipSave s" "d_writable (s_disk s)"
    and "metaJSON (env_rt env) s = Inr j" "env_dec env (env_enc env j) = Some j" "env_enc env j \<noteq> []"
    and "\<not> IsEncryptedFile (env_enc env j)" "\<forall>n. length (env_rnd env n) = n"
    and "s0 = (NewStorage False True (s_disk (fst (saveMetadata env s))))\<lparr>s_encryptor := s_encryptor s\<rparr>"
  shows "\<exists>s'. loadMetadata env s0 = (s', Inr ()) \<and> s_tables s' = s_tables s \<and> s_sequences s' = s_sequences s \<and>
    s_nextID s' = s_nextID s \<and> s_ftsIndexes s' = s_ftsIndexes s \<and>
    getD [] (s_rowData s') = getD [] (s_rowData s) \<and> getD [] (s_rowIDs s') = getD [] (s_rowIDs s)"
proof -
  have fresh: "s_fs s0" "s_disk s0 = s_disk (fst (saveMetadata env s))" "s_encryptor s0 = s_encryptor s"
    "getD [] (s_rowData s0) = (\<lambda>_. [])" "getD [] (s_rowIDs s0) = (\<lambda>_. [])" "s_ftsIndexes s0 = []"
    by (simp_all add: assms(11) NewStorage_def getD_def fun_eq_iff)
  obtain m s1 rows where m: "loadMetadata env s0 = (installMeta env m s1, Inr ())" "s1 \<in> {s0, s0\<lparr>s_encrypted := True\<rparr>}"
    "savedRows (env_rt env) s = Inr rows" "m_tables m = s_tables s" "m_sequences m = s_sequences s" "m_nextID m = s_nextID s"
    "orEmpty (m_fts m) = s_ftsIndexes s" "m_rows m = map (map_prod id iface_of) rows"
    using loadMetadata_saved [OF assms(1-10) fresh] by blast
  have "getD [] (s_rowData s1) = (\<lambda>_. [])" "getD [] (s_rowIDs s1) = (\<lambda>_. [])" "s_ftsIndexes s1 = []"
    using m(2) fresh by auto
  from installMeta_saved [OF assms(1) m(3-8) this refl] m(1) show ?thesis by blast
qed

section \<open>Rows through the log\<close>

lemma interfaceToValue_MarshalJSON:
  assumes "cellStorable t v" "Value_MarshalJSON rt v = Some j"
  shows "interfaceToValue env (iface_of j) = v"
  using assms(1)
proof (cases rule: cellStorable_cases)
  case 1
  with assms(2) show ?thesis
    by (auto simp: Value_MarshalJSON_def NewNullValue_def valueJSONData_def interfaceToValue_def boolAt_def)
next
  case (2 i n)
  with assms(2) have "iface_of j = IMap [(''type'', IData (GString ''BLOB'')), (''is_null'', IData (GBool False)),
      (''blob_ref'', IMap [(''id'', IData (GFloat64 (int_to_f64 (uint i)))), (''size'', IData (GFloat64 (int_to_f64 (sint n))))])]"
    by (auto simp: Value_MarshalJSON_def NewBlobRefValue_def valueJSONData_def DataType_String_def blobRefJSON_def)
  with 2 show ?thesis
    by (simp add: interfaceToValue_def boolAt_def typedValue_def stringAt_def blobRefOf_def floatAt_def uint_through_f64 sint_through_f64)
next
  case (3 n)
  with assms(2) have "iface_of j = IMap [(''type'', IData (GString ''INT'')), (''data'', IData (GFloat64 (int_to_f64 (sint n)))),
      (''is_null'', IData (GBool False))]"
    by (auto simp: Value_MarshalJSON_def NewIntValue_def valueJSONData_def DataType_String_def IsDateTime_def)
  with 3 show ?thesis
    by (simp add: interfaceToValue_def boolAt_def typedValue_def stringAt_def floatAt_def sint_through_f64)
next
  case (4 f)
  with assms(2) have "iface_of j = IMap [(''type'', IData (GString ''FLOAT'')), (''data'', IData (GFloat64 f)), (''is_null'', IData (GBool False))]"
    by (auto simp: Value_MarshalJSON_def NewFloatValue_def valueJSONData_def DataType_String_def IsDateTime_def iface_of_json_float)
  with 4 show ?thesis by (simp add: interfaceToValue_def boolAt_def typedValue_def stringAt_def floatAt_def)
next
  case (5 s)
  with assms(2) have "iface_of j = IMap [(''type'', IData (GString ''VARCHAR'')), (''data'', IData (GString s)), (''is_null'', IData (GBool False))]"
    by (auto simp: Value_MarshalJSON_def NewStringValue_def valueJSONData_def DataType_String_def IsDateTime_def)
  with 5 show ?thesis by (simp add: interfaceToValue_def boolAt_def typedValue_def stringAt_def)
qed

lemma rowOf_stored:
  assumes "rowStorable t row" "dataField rt k (WRow row) = Some kv"
  shows "rowOf env (storedData rt (WRow row)) = Some row"
proof -
  obtain js where js: "map_all (Value_MarshalJSON rt) row = Some js" using assms(2) by (auto simp: dataField_def)
  note n = map_all_nth [OF js]
  have "map (interfaceToValue env \<circ> iface_of) js = row"
  proof (rule nth_equalityI)
    fix i assume "i < length (map (interfaceToValue env \<circ> iface_of) js)"
    then have i: "i < length row" using n(1) by simp
    show "map (interfaceToValue env \<circ> iface_of) js ! i = row ! i"
      using interfaceToValue_MarshalJSON [OF conjunct2 [OF rowStorable_nth [OF assms(1) i]] n(2) [OF i]] i n(1) by simp
  qed (simp add: n(1))
  then show ?thesis by (simp add: storedData_def dataField_def js rowOf_def)
qed

lemma applyRecord_insert:
  assumes "wal_Type r = WALTypeInsert" "wal_Data r = WRow row" "rowStorable t row" "recordJSON rt r = Some j"
    and "tableByID (wal_TableID r) s = Some name"
  shows "applyRecord env (storedRecord rt r) s =
    (s\<lparr>s_rowData := put_key name (getD [] (s_rowData s) name @ [row]) (s_rowData s),
       s_rowIDs := put_key name (getD [] (s_rowIDs s) name @ [wal_RowID r]) (s_rowIDs s)\<rparr>, Inr ())"
proof -
  obtain kv where "dataField rt ''data'' (WRow row) = Some kv" using assms(2,4) by (auto simp: recordJSON_def split: bind_splits)
  from rowOf_stored [OF assms(3) this, of env] show ?thesis
    using assms by (simp add: applyRecord_def replayInsert_def storedRecord_def)
qed

section \<open>A crash after an insertion\<close>

text \<open>What the environment does with the text of a tree\<close>

definition textOk :: "senv \<Rightarrow> json \<Rightarrow> bool" where
  "textOk env j \<longleftrightarrow> env_dec env (env_enc env j) = Some j \<and> env_enc env j \<noteq> [] \<and> length (env_enc env j) + 14 < 2 ^ 32 \<and>
     \<not> IsEncryptedFile (env_enc env j)"

definition insertRecord :: "senv \<Rightarrow> Storage \<Rightarrow> u64 \<Rightarrow> u64 \<Rightarrow> Value list \<Rightarrow> WALRecord" where
  "insertRecord env s tableID rowID row =
     blankRecord\<lparr>wal_Type := WALTypeInsert, wal_TableID := tableID, wal_RowID := rowID, wal_Data := WRow row,
       wal_LSN := s_walSeq s + 1, wal_Timestamp := of_int (env_now env)\<rparr>"

text \<open>The storage after the insertion of a row, before its metadata is saved\<close>

definition inserted :: "senv \<Rightarrow> string \<Rightarrow> u64 \<Rightarrow> Value list \<Rightarrow> os_file \<Rightarrow> Storage \<Rightarrow> Storage" where
  "inserted env name rowID row f s =
     updTable name (touchTable env (\<lambda>n. n + 1))
       (s\<lparr>s_walSeq := s_walSeq s + 1, s_walFile := Some f,
          s_rowData := put_key name (getD [] (s_rowData s) name @ [row]) (s_rowData s),
          s_rowIDs := put_key name (getD [] (s_rowIDs s) name @ [rowID]) (s_rowIDs s)\<rparr>)"

lemma inserted_simps:
  "s_walFile (inserted env name i row f s) = Some f" "s_enabled (inserted env name i row f s) = s_enabled s"
  "s_fs (inserted env name i row f s) = s_fs s" "s_skipSave (inserted env name i row f s) = s_skipSave s"
  "s_disk (inserted env name i row f s) = s_disk s" "s_encryptor (inserted env name i row f s) = s_encryptor s"
  "getD [] (s_rowData (inserted env name i row f s)) name = getD [] (s_rowData s) name @ [row]"
  by (simp_all add: inserted_def updTable_def getD_put_key split: option.splits)

lemma insertMemory_logged:
  assumes "s_enabled s" "s_walFile s = Some f" "file_writable f" "\<not> s_encrypted s"
    and "recordJSON (env_rt env) (insertRecord env s tableID rowID row) = Some jr"
  shows "insertMemory env name tableID rowID row s =
    bindS (saveMetadata env) (\<lambda>_. returnS rowID)
      (inserted env name rowID row (f\<lparr>file_bytes := file_bytes f @ frame (s_walSeq s + 1) (env_enc env jr)\<rparr>) s)"
  using assms
  by (simp add: insertMemory_def bindS_def writeWAL_def Let_def insertRecord_def encryptRecord_def appendFile_def inserted_def updTable_def
      split: option.splits)

lemma disk_irrelevant:
  "metaStorable rt (s\<lparr>s_disk := d\<rparr>) = metaStorable rt s" "metaJSON rt (s\<lparr>s_disk := d\<rparr>) = metaJSON rt s"
  by (simp_all add: metaStorable_def metaJSON_def cong: option.case_cong)

text \<open>
  C36. The rows of a table without a table file are both logged and saved with the metadata, and the log is not emptied:
  when a database is opened again after a crash that follows such an insertion, the replay of the log appends
  the row to the rows of the metadata, which hold it already, so it is there twice.
\<close>
theorem crash_after_insert_duplicates_row:
  assumes "s_enabled s" "s_fs s" "\<not> s_skipSave s" "\<not> s_encrypted s" "s_encryptor s = None" "d_writable (s_disk s)"
    and "s_walFile s = Some f" "file_writable f" "file_bytes f = []"
    and "recordJSON (env_rt env) (insertRecord env s tableID rowID row) = Some jr" "textOk env jr"
    and "insertMemory env name tableID rowID row s = (s1, Inr rowID)"
    and "metaStorable (env_rt env) s1" "metaJSON (env_rt env) s1 = Inr j" "textOk env j" "\<forall>n. length (env_rnd env n) = n"
    and "tableByID tableID s1 = Some name" "map_of (s_tables s1) name = Some t" "rowStorable t row"
  shows "\<exists>s2. initFileStorage env (s_walFile s1) (NewStorage False True (s_disk s1)) = (s2, Inr ()) \<and>
    getD [] (s_rowData s2) name = getD [] (s_rowData s) name @ [row, row]"
proof -
  let ?r = "insertRecord env s tableID rowID row"
  let ?f = "f\<lparr>file_bytes := frame (s_walSeq s + 1) (env_enc env jr)\<rparr>"
  let ?s = "inserted env name rowID row ?f s"
  let ?new = "NewStorage False True (s_disk s1)"
  have save: "bindS (saveMetadata env) (\<lambda>_. returnS rowID) ?s = (s1, Inr rowID)"
    using insertMemory_logged [OF assms(1,7,8,4,10)] assms(9,12) by simp
  then have s1: "saveMetadata env ?s = (s1, Inr ())"
    by (auto simp: bindS_eq_Inr_iff returnS_def)
  obtain d where d: "s1 = ?s\<lparr>s_disk := d\<rparr>"
    using s1 assms(1-3) by (auto simp: saveMetadata_def Let_def inserted_simps split: if_splits sum.splits)
  have ok: "metaStorable (env_rt env) ?s" "metaJSON (env_rt env) ?s = Inr j"
    using assms(13,14) unfolding d by (simp_all only: disk_irrelevant)
  have fresh: "s_fs ?new" "s_disk ?new = s_disk (fst (saveMetadata env ?s))" "s_encryptor ?new = s_encryptor ?s"
    "getD [] (s_rowData ?new) = (\<lambda>_. [])" "getD [] (s_rowIDs ?new) = (\<lambda>_. [])" "s_ftsIndexes ?new = []"
    using assms(5) by (simp_all add: s1 NewStorage_def getD_def fun_eq_iff inserted_simps)
  obtain m s0' rows where m: "loadMetadata env ?new = (installMeta env m s0', Inr ())" "s0' \<in> {?new, ?new\<lparr>s_encrypted := True\<rparr>}"
    "savedRows (env_rt env) ?s = Inr rows" "m_tables m = s_tables ?s" "m_sequences m = s_sequences ?s" "m_nextID m = s_nextID ?s"
    "orEmpty (m_fts m) = s_ftsIndexes ?s" "m_rows m = map (map_prod id iface_of) rows"
    using loadMetadata_saved [OF ok(1) _ _ _ _ ok(2) _ _ _ assms(16) fresh] assms(1-3,6,15) by (auto simp: inserted_simps textOk_def)
  let ?l = "installMeta env m s0'"
  have "getD [] (s_rowData s0') = (\<lambda>_. [])" "getD [] (s_rowIDs s0') = (\<lambda>_. [])" "s_ftsIndexes s0' = []" "s_enabled s0'" "s_encryptor s0' = None"
    using m(2) fresh(4-6) by (auto simp: NewStorage_def)
  with installMeta_saved [OF ok(1) m(3-8) _ _ _ refl, of s0' env]
  have l: "s_tables ?l = s_tables ?s" "getD [] (s_rowData ?l) = getD [] (s_rowData ?s)" "s_enabled ?l" "s_encryptor ?l = None" by auto
  have den: "denotes (env_dec env) None (env_enc env jr) (storedRecord (env_rt env) ?r)"
    using denotes_encryptRecord [of None None "env_rnd env" "env_rt env" ?r jr "env_dec env" "env_enc env"] assms(10,11,16)
    by (simp add: same_code_def encryptRecord_def textOk_def)
  have read: "readRecords (env_dec env) None (file_bytes ?f) = Inr [storedRecord (env_rt env) ?r]"
    using readRecords_frame [OF den, of "s_walSeq s + 1" "[]"] by (simp add: readRecords_Nil)
  have wal: "recoverFromWAL env (Some ?f) ?l = replay env [storedRecord (env_rt env) ?r] ?l"
    using l(3,4) read
    by (auto simp: recoverFromWAL_def NewWAL_def readLastLSN_def Let_def ReadAll_def split: sum.splits)
  have id: "tableByID (wal_TableID ?r) ?l = Some name" using assms(17) l(1) by (simp add: d tableByID_def insertRecord_def)
  from applyRecord_insert [OF _ _ assms(19,10) id, of env]
  have ap: "applyRecord env (storedRecord (env_rt env) ?r) ?l =
    (?l\<lparr>s_rowData := put_key name (getD [] (s_rowData ?l) name @ [row]) (s_rowData ?l),
       s_rowIDs := put_key name (getD [] (s_rowIDs ?l) name @ [wal_RowID ?r]) (s_rowIDs ?l)\<rparr>, Inr ())"
    by (simp add: insertRecord_def)
  have meta: "\<exists>x. d_meta (s_disk ?new) = Some x \<and> \<not> IsEncryptedFile x" "d_writable (s_disk ?new)"
    using s1 assms(1-6,15) ok(2)
    by (auto simp: saveMetadata_def Let_def inserted_simps encryptRecord_def NewStorage_def textOk_def split: if_splits)
  have "s_walFile s1 = Some ?f" by (simp add: d inserted_simps)
  with meta wal ap m(1) l show ?thesis
    by (auto simp: initFileStorage_def bindS_def initWAL_def getD_put_key inserted_simps)
qed

text \<open>A database with one table of one row, and its environment, for the witnesses\<close>

definition rt_clock :: go_rt where
  "rt_clock = rt_plain\<lparr>rt_parseTime := (\<lambda>_ _. Some 0)\<rparr>"

definition sampleTable :: StoredTable where
  "sampleTable = zeroTable\<lparr>tbl_ID := 1, tbl_Name := ''t'', tbl_Columns := [NewColumnDef ''a'' TypeInt 0]\<rparr>"

definition sampleStorage :: Storage where
  "sampleStorage = (NewStorage False True \<lparr>d_meta = None, d_tables = [], d_blobs = [], d_writable = True\<rparr>)
     \<lparr>s_tables := [(''t'', sampleTable)], s_nextID := 5, s_rowData := [(''t'', [[NewIntValue 7]])], s_rowIDs := [(''t'', [2])],
      s_walFile := Some \<lparr>file_bytes = [], file_writable = True\<rparr>\<rparr>"

definition sampleSaved :: Storage where
  "sampleSaved = sampleStorage\<lparr>s_tables := [(''t'', sampleTable\<lparr>tbl_RowCount := 1\<rparr>)],
     s_rowData := [(''t'', [[NewIntValue 7], [NewNullValue]])], s_rowIDs := [(''t'', [2, 4])]\<rparr>"

text \<open>The texts of the trees that are written: \<open>[2]\<close> for the log record, \<open>[1]\<close> for the metadata\<close>

definition mkEnv :: "json \<Rightarrow> json \<Rightarrow> senv" where
  "mkEnv jr jm = \<lparr>env_rt = rt_clock, env_enc = (\<lambda>j. if j = jr then [2] else [1]), env_dec = (\<lambda>b. Some (if b = [2] then jr else jm)),
     env_cols = (\<lambda>c. Some []), env_uncols = (\<lambda>b. Some []), env_rnd = (\<lambda>n. replicate n 0), env_now = 0,
     env_fmt = (\<lambda>_. []), env_scan = (\<lambda>_. None)\<rparr>"

lemma textOk_mkEnv: "textOk (mkEnv jr jm) jr" "textOk (mkEnv jr jm) jm"
  by (simp_all add: textOk_def mkEnv_def IsEncryptedFile_def IsEncrypted_def MagicTXDEF_def bytes_of_def)

lemma rowStorable_sample: "rowStorable (sampleTable\<lparr>tbl_RowCount := n\<rparr>) [NewIntValue 7]" "rowStorable (sampleTable\<lparr>tbl_RowCount := n\<rparr>) [NewNullValue]"
  by (simp_all add: rowStorable_def sampleTable_def cellStorable_def NewIntValue_def NewNullValue_def NewColumnDef_def)

lemma tableStorable_sample: "int64_ok n \<Longrightarrow> tableStorable rt_clock (sampleTable\<lparr>tbl_RowCount := n\<rparr>)"
  by (simp add: tableStorable_def sampleTable_def zeroTable_def columnStorable_def NewColumnDef_def rt_clock_def okText_ascii
      is_ascii_def int64_ok_def)

lemma metaStorable_sample: "metaStorable rt_clock sampleSaved"
  using tableStorable_sample [of 1] rowStorable_sample [of 1]
  by (simp add: metaStorable_def sampleSaved_def sampleStorage_def NewStorage_def has_key_def getD_def int64_ok_def)

lemma metaJSON_sample: "\<exists>j. metaJSON rt_clock sampleSaved = Inr j"
  by (simp add: metaJSON_def sampleSaved_def sampleStorage_def NewStorage_def getD_def rowsJSON_def rawJSON_def NewIntValue_def
      NewNullValue_def marshal_def tableJSON_def sampleTable_def columnJSON_def NewColumnDef_def)

theorem metadata_roundtrip_witness:
  "\<exists>env s' j. loadMetadata env (NewStorage False True (s_disk (fst (saveMetadata env sampleSaved)))) = (s', Inr ()) \<and>
     metaJSON (env_rt env) sampleSaved = Inr j \<and> s_tables s' = s_tables sampleSaved \<and>
     getD [] (s_rowData s') ''t'' = [[NewIntValue 7], [NewNullValue]]"
proof -
  obtain j where j: "metaJSON rt_clock sampleSaved = Inr j" using metaJSON_sample by blast
  let ?env = "mkEnv j j"
  have e: "s_enabled sampleSaved" "s_fs sampleSaved" "\<not> s_skipSave sampleSaved" "d_writable (s_disk sampleSaved)"
    "s_encryptor sampleSaved = None" by (simp_all add: sampleSaved_def sampleStorage_def NewStorage_def)
  have env: "env_rt ?env = rt_clock" "\<forall>n. length (env_rnd ?env n) = n" by (simp_all add: mkEnv_def)
  have new: "NewStorage False True d = (NewStorage False True d)\<lparr>s_encryptor := s_encryptor sampleSaved\<rparr>" for d
    using e(5) by (simp add: NewStorage_def)
  have "getD [] (s_rowData sampleSaved) ''t'' = [[NewIntValue 7], [NewNullValue]]" by (simp add: sampleSaved_def getD_def)
  with metadata_roundtrip [of ?env sampleSaved j, OF _ e(1-4) _ _ _ _ env(2) new] metaStorable_sample j textOk_mkEnv [of j j] env
  show ?thesis by (auto simp: textOk_def intro!: exI [of _ ?env])
qed

theorem crash_after_insert_duplicates_row_witness:
  "\<exists>env s1 s2. insertMemory env ''t'' 1 4 [NewNullValue] sampleStorage = (s1, Inr 4) \<and>
     initFileStorage env (s_walFile s1) (NewStorage False True (s_disk s1)) = (s2, Inr ()) \<and>
     getD [] (s_rowData s2) ''t'' = [[NewIntValue 7], [NewNullValue], [NewNullValue]]"
proof -
  let ?r = "insertRecord (mkEnv JNull JNull) sampleStorage 1 4 [NewNullValue]"
  have r: "insertRecord (mkEnv jr jm) sampleStorage 1 4 [NewNullValue] = ?r" for jr jm by (simp add: insertRecord_def mkEnv_def)
  obtain jr where jr: "recordJSON rt_clock ?r = Some jr"
    by (simp add: recordJSON_def insertRecord_def dataField_def blankRecord_def Value_MarshalJSON_def NewNullValue_def valueJSONData_def)
  obtain j where j: "metaJSON rt_clock sampleSaved = Inr j" using metaJSON_sample by blast
  let ?env = "mkEnv jr j"
  let ?f = "\<lparr>file_bytes = [], file_writable = True\<rparr>"
  have e: "s_enabled sampleStorage" "s_fs sampleStorage" "\<not> s_skipSave sampleStorage" "\<not> s_encrypted sampleStorage"
    "s_encryptor sampleStorage = None" "d_writable (s_disk sampleStorage)" "s_walFile sampleStorage = Some ?f"
    by (simp_all add: sampleStorage_def NewStorage_def)
  let ?g = "?f\<lparr>file_bytes := file_bytes ?f @ frame (s_walSeq sampleStorage + 1) (env_enc ?env jr)\<rparr>"
  let ?s = "inserted ?env ''t'' 4 [NewNullValue] ?g sampleStorage"
  have ins: "?s = sampleSaved\<lparr>s_walSeq := 1, s_walFile := Some ?g\<rparr>"
    by (simp add: inserted_def sampleSaved_def sampleStorage_def NewStorage_def updTable_def touchTable_def getD_def sampleTable_def
        zeroTable_def mkEnv_def)
  have same: "metaJSON rt_clock (sampleSaved\<lparr>s_walSeq := n, s_walFile := w, s_disk := d\<rparr>) = metaJSON rt_clock sampleSaved"
    "metaStorable rt_clock (sampleSaved\<lparr>s_walSeq := n, s_walFile := w, s_disk := d\<rparr>) = metaStorable rt_clock sampleSaved" for n w d
    by (simp_all add: metaJSON_def metaStorable_def cong: option.case_cong)
  obtain d where d: "saveMetadata ?env ?s = (sampleSaved\<lparr>s_walSeq := 1, s_walFile := Some ?g, s_disk := d\<rparr>, Inr ())"
    using j same(1) [where n = 1 and w = "Some ?g" and d = "s_disk sampleSaved"] unfolding ins
    by (simp add: saveMetadata_def Let_def mkEnv_def) (simp add: sampleSaved_def sampleStorage_def NewStorage_def)
  let ?s1 = "sampleSaved\<lparr>s_walSeq := 1, s_walFile := Some ?g, s_disk := d\<rparr>"
  have env: "env_rt ?env = rt_clock" "\<forall>n. length (env_rnd ?env n) = n" by (simp_all add: mkEnv_def)
  have m: "insertMemory ?env ''t'' 1 4 [NewNullValue] sampleStorage = (?s1, Inr 4)"
    using insertMemory_logged [of sampleStorage ?f ?env 1 4 "[NewNullValue]" jr "''t''", OF e(1,7) _ e(4)] jr r [of jr j] env d
    by (simp add: bindS_def returnS_def)
  have t: "tableByID 1 ?s1 = Some ''t''" "map_of (s_tables ?s1) ''t'' = Some (sampleTable\<lparr>tbl_RowCount := 1\<rparr>)"
    by (simp_all add: tableByID_def sampleSaved_def sampleTable_def)
  have rows: "getD [] (s_rowData sampleStorage) ''t'' = [[NewIntValue 7]]" by (simp add: sampleStorage_def getD_def)
  from crash_after_insert_duplicates_row [OF e _ _ _ textOk_mkEnv(1) m _ _ textOk_mkEnv(2) env(2) t rowStorable_sample(2)]
    m jr r [of jr j] j same metaStorable_sample env(1) rows
  show ?thesis by (auto intro!: exI [of _ ?env])
qed

end
