(* ===== verification/Hash.thy ===== *)
theory Hash
  imports Prelude
begin

text \<open>
  The digests of the Go library that the authentication code uses: \<^verbatim>\<open>crypto/sha1\<close> and \<^verbatim>\<open>crypto/sha256\<close> (FIPS 180-4) and
  \<^verbatim>\<open>encoding/hex\<close>. What the development needs of the digests is their length.
\<close>

section \<open>Words and blocks\<close>

definition rotl :: "nat \<Rightarrow> u32 \<Rightarrow> u32" where
  "rotl n w = push_bit n w OR drop_bit (32 - n) w"

definition rotr :: "nat \<Rightarrow> u32 \<Rightarrow> u32" where
  "rotr n w = rotl (32 - n) w"

text \<open>Big-endian words\<close>

definition be_bytes :: "nat \<Rightarrow> 'a::len word \<Rightarrow> bytes" where
  "be_bytes n w = rev (le_bytes n w)"

definition be_word :: "bytes \<Rightarrow> u32" where
  "be_word bs = le_word (rev bs)"

lemma length_be_bytes [simp]: "length (be_bytes n w) = n"
  by (simp add: be_bytes_def)

fun chunks :: "nat \<Rightarrow> 'a list \<Rightarrow> 'a list list" where
  "chunks n xs = (if n = 0 \<or> xs = [] then [] else take n xs # chunks n (drop n xs))"

declare chunks.simps [simp del]

definition pad_message :: "bytes \<Rightarrow> bytes" where
  "pad_message m =
     (let n = length m in m @ [0x80] @ replicate ((119 - n mod 64) mod 64) 0 @ be_bytes 8 (of_nat (8 * n) :: u64))"

definition block_words :: "bytes \<Rightarrow> u32 list" where
  "block_words b = map be_word (chunks 4 b)"

section \<open>SHA-1\<close>

definition sha1_schedule :: "u32 list \<Rightarrow> u32 list" where
  "sha1_schedule ws =
     foldl (\<lambda>w t. w @ [rotl 1 (w ! (t - 3) XOR w ! (t - 8) XOR w ! (t - 14) XOR w ! (t - 16))]) ws [16..<80]"

definition sha1_round :: "u32 \<times> u32 \<times> u32 \<times> u32 \<times> u32 \<Rightarrow> nat \<times> u32 \<Rightarrow> u32 \<times> u32 \<times> u32 \<times> u32 \<times> u32" where
  "sha1_round s tw =
     (case s of (a, b, c, d, e) \<Rightarrow> case tw of (t, w) \<Rightarrow>
        let (f, k) = (if t < 20 then ((b AND c) OR (NOT b AND d), 0x5A827999)
                      else if t < 40 then (b XOR c XOR d, 0x6ED9EBA1)
                      else if t < 60 then ((b AND c) OR (b AND d) OR (c AND d), 0x8F1BBCDC)
                      else (b XOR c XOR d, 0xCA62C1D6))
        in (rotl 5 a + f + e + k + w, a, rotl 30 b, c, d))"

definition sha1_block :: "u32 list \<Rightarrow> bytes \<Rightarrow> u32 list" where
  "sha1_block h b =
     (case foldl sha1_round (h ! 0, h ! 1, h ! 2, h ! 3, h ! 4) (enumerate 0 (sha1_schedule (block_words b))) of
        (a', b', c', d', e') \<Rightarrow> [h ! 0 + a', h ! 1 + b', h ! 2 + c', h ! 3 + d', h ! 4 + e'])"

definition sha1 :: "bytes \<Rightarrow> bytes" where
  "sha1 m =
     concat (map (be_bytes 4)
       (foldl sha1_block [0x67452301, 0xEFCDAB89, 0x98BADCFE, 0x10325476, 0xC3D2E1F0] (chunks 64 (pad_message m))))"

section \<open>SHA-256\<close>

text \<open>
  The constants are the first 32 bits of the fractional parts of the cube roots of the first 64 primes, and the initial state
  those of the square roots of the first 8. \<open>iroot k n\<close> is the integer part of the root of order \<open>k\<close>, found bit by bit.
\<close>

definition iroot :: "nat \<Rightarrow> nat \<Rightarrow> nat" where
  "iroot k n = foldr (\<lambda>b r. if (r + 2 ^ b) ^ k \<le> n then r + 2 ^ b else r) [0..<40] 0"

definition primes_below :: "nat \<Rightarrow> nat list" where
  "primes_below m = filter (\<lambda>n. list_all (\<lambda>d. n mod d \<noteq> 0) [2..<n]) [2..<m]"

definition sha256_k :: "u32 list" where
  "sha256_k = map (\<lambda>p. of_nat (iroot 3 (p * 2 ^ 96))) (primes_below 312)"

definition sha256_init :: "u32 list" where
  "sha256_init = map (\<lambda>i. of_nat (iroot 2 (primes_below 312 ! i * 2 ^ 64))) [0..<8]"

definition sha256_schedule :: "u32 list \<Rightarrow> u32 list" where
  "sha256_schedule ws =
     foldl (\<lambda>w t.
         let x = w ! (t - 15); y = w ! (t - 2);
             s0 = rotr 7 x XOR rotr 18 x XOR drop_bit 3 x; s1 = rotr 17 y XOR rotr 19 y XOR drop_bit 10 y
         in w @ [w ! (t - 16) + s0 + w ! (t - 7) + s1]) ws [16..<64]"

definition sha256_round :: "u32 list \<Rightarrow> u32 \<times> u32 \<Rightarrow> u32 list" where
  "sha256_round s kw =
     (let a = s ! 0; b = s ! 1; c = s ! 2; d = s ! 3; e = s ! 4; f = s ! 5; g = s ! 6; h = s ! 7;
          s1 = rotr 6 e XOR rotr 11 e XOR rotr 25 e;
          ch = (e AND f) XOR (NOT e AND g);
          t1 = h + s1 + ch + fst kw + snd kw;
          s0 = rotr 2 a XOR rotr 13 a XOR rotr 22 a;
          maj = (a AND b) XOR (a AND c) XOR (b AND c)
      in [t1 + s0 + maj, a, b, c, d + t1, e, f, g])"

definition sha256_block :: "u32 list \<Rightarrow> bytes \<Rightarrow> u32 list" where
  "sha256_block h b =
     (let s = foldl sha256_round h (zip sha256_k (sha256_schedule (block_words b)))
      in map (\<lambda>i. h ! i + s ! i) [0..<8])"

definition sha256 :: "bytes \<Rightarrow> bytes" where
  "sha256 m =
     concat (map (be_bytes 4)
       (foldl sha256_block sha256_init (chunks 64 (pad_message m))))"

lemma foldl_length: "(\<And>h b. length (f h b) = n) \<Longrightarrow> length h0 = n \<Longrightarrow> length (foldl f h0 bs) = n"
  by (induction bs arbitrary: h0) auto

lemma length_concat_words: "length (concat (map (be_bytes 4) ws)) = 4 * length ws"
  by (induction ws) simp_all

lemma length_sha1 [simp]: "length (sha1 m) = 20"
  unfolding sha1_def length_concat_words
  by (subst foldl_length [where n = 5]) (auto simp: sha1_block_def split: prod.split)

lemma length_sha256 [simp]: "length (sha256 m) = 32"
  unfolding sha256_def sha256_init_def length_concat_words
  by (subst foldl_length [where n = 8]) (simp_all add: sha256_block_def)

section \<open>Hexadecimal text\<close>

definition hex_digit :: "nat \<Rightarrow> char" where
  "hex_digit d = char_of (if d < 10 then 48 + d else 87 + d)"

definition hex_encode :: "bytes \<Rightarrow> string" where
  "hex_encode b = concat (map (\<lambda>x. [hex_digit (unat x div 16), hex_digit (unat x mod 16)]) b)"

definition hex_value :: "char \<Rightarrow> nat option" where
  "hex_value c =
     (let n = of_char c :: nat
      in if 48 \<le> n \<and> n \<le> 57 then Some (n - 48)
         else if 97 \<le> n \<and> n \<le> 102 then Some (n - 87)
         else if 65 \<le> n \<and> n \<le> 70 then Some (n - 55) else None)"

fun hex_decode :: "string \<Rightarrow> bytes option" where
  "hex_decode [] = Some []"
| "hex_decode [c] = None"
| "hex_decode (c # d # s) =
     (case (hex_value c, hex_value d) of
        (Some x, Some y) \<Rightarrow> map_option ((#) (of_nat (16 * x + y))) (hex_decode s)
      | _ \<Rightarrow> None)"

lemma hex_value_digit: "d < 16 \<Longrightarrow> hex_value (hex_digit d) = Some d"
  by (auto simp: hex_value_def hex_digit_def Let_def)

lemma hex_decode_encode [codec]: "hex_decode (hex_encode b) = Some b"
proof (induction b)
  case Nil
  show ?case by (simp add: hex_encode_def)
next
  case (Cons x b)
  have x: "unat x div 16 < 16" using unsigned_less [of x, where 'a = nat] by (simp add: less_mult_imp_div_less)
  have "hex_encode (x # b) = hex_digit (unat x div 16) # hex_digit (unat x mod 16) # hex_encode b" by (simp add: hex_encode_def)
  with Cons x show ?case by (simp add: hex_value_digit)
qed

end
