(* ===== verification/Auth.thy ===== *)
theory Auth
  imports Hash Recovery
begin

text \<open>
  \<^verbatim>\<open>src/auth/auth.go\<close>: the credentials of a database. Two digests of the password are kept, one salted with constants for
  logins of the engine and one for the MySQL protocol; both are stored with the metadata of the database.
\<close>

record Auth =
  a_username :: string
  a_password :: string
  a_mysqlSha1 :: "bytes option"
  a_enabled :: bool

definition NewAuth :: Auth where
  "NewAuth = \<lparr>a_username = [], a_password = [], a_mysqlSha1 = None, a_enabled = False\<rparr>"

definition hashPassword :: "string \<Rightarrow> string" where
  "hashPassword password = hex_encode (sha256 (bytes_of (''xxldb_'' @ password @ ''_2026'')))"

definition hashPasswordMySQL :: "string \<Rightarrow> bytes" where
  "hashPasswordMySQL password = sha1 (bytes_of password)"

definition SetCredentials :: "string \<Rightarrow> string \<Rightarrow> Auth \<Rightarrow> Auth" where
  "SetCredentials username password a =
     (let a = a\<lparr>a_username := username\<rparr>;
          a = (if password \<noteq> [] then a\<lparr>a_password := hashPassword password, a_mysqlSha1 := Some (hashPasswordMySQL password)\<rparr>
               else a\<lparr>a_password := [], a_mysqlSha1 := None\<rparr>)
      in a\<lparr>a_enabled := (username \<noteq> [])\<rparr>)"

definition Enable :: "Auth \<Rightarrow> Auth" where "Enable a = a\<lparr>a_enabled := True\<rparr>"

definition Disable :: "Auth \<Rightarrow> Auth" where "Disable a = a\<lparr>a_enabled := False\<rparr>"

definition IsEnabled :: "Auth \<Rightarrow> bool" where "IsEnabled a = a_enabled a"

definition Authenticate :: "Auth \<Rightarrow> string \<Rightarrow> string \<Rightarrow> bool" where
  "Authenticate a username password =
     (if \<not> a_enabled a then True
      else if username \<noteq> a_username a then False
      else if a_password a = [] then True
      else a_password a = hashPassword password)"

definition GetUsername :: "Auth \<Rightarrow> string" where "GetUsername a = a_username a"

definition SetPassword :: "string \<Rightarrow> Auth \<Rightarrow> Auth" where
  "SetPassword newPassword a = a\<lparr>a_password := hashPassword newPassword, a_mysqlSha1 := Some (hashPasswordMySQL newPassword)\<rparr>"

definition GetMySQLSha1 :: "Auth \<Rightarrow> bytes option" where "GetMySQLSha1 a = a_mysqlSha1 a"

definition ToMap :: "Auth \<Rightarrow> (string, iface) gomap" where
  "ToMap a =
     [(''username'', IData (GString (a_username a))), (''password'', IData (GString (a_password a))), (''enabled'', IData (GBool (a_enabled a)))]
     @ (case a_mysqlSha1 a of Some h \<Rightarrow> [(''mysql_sha1'', IData (GString (hex_encode h)))] | None \<Rightarrow> [])"

definition FromMap :: "(string, iface) gomap \<Rightarrow> Auth \<Rightarrow> Auth" where
  "FromMap m a =
     (let a = (case stringAt ''username'' m of Some u \<Rightarrow> a\<lparr>a_username := u\<rparr> | None \<Rightarrow> a);
          a = (case stringAt ''password'' m of Some p \<Rightarrow> a\<lparr>a_password := p\<rparr> | None \<Rightarrow> a);
          a = (case boolAt ''enabled'' m of Some e \<Rightarrow> a\<lparr>a_enabled := e\<rparr> | None \<Rightarrow> a)
      in case Option.bind (stringAt ''mysql_sha1'' m) hex_decode of Some h \<Rightarrow> a\<lparr>a_mysqlSha1 := Some h\<rparr> | None \<Rightarrow> a)"

definition ClearCredentials :: "Auth \<Rightarrow> Auth" where
  "ClearCredentials a = a\<lparr>a_username := [], a_password := [], a_mysqlSha1 := None, a_enabled := False\<rparr>"

section \<open>Through the metadata\<close>

lemma hex_encode_ascii: "list_all is_ascii (hex_encode b)"
proof -
  have d: "is_ascii (hex_digit n)" if "n < 16" for n using that by (simp add: is_ascii_def hex_digit_def)
  have "unat (x :: byte) div 16 < 16" for x using unsigned_less [of x, where 'a = nat] by (simp add: less_mult_imp_div_less)
  then show ?thesis by (induction b) (simp_all add: hex_encode_def d)
qed

text \<open>The tree of the stored map and what is decoded from it\<close>

definition authStored :: "go_rt \<Rightarrow> Auth \<Rightarrow> (string, iface) gomap option" where
  "authStored rt a = map_all (\<lambda>(k, v). map_option (\<lambda>j. (k, iface_of j)) (ifaceJSON rt v)) (ToMap a)"

definition okAuth :: "Auth \<Rightarrow> bool" where
  "okAuth a \<longleftrightarrow> okText (a_username a) \<and> okText (a_password a)"

lemma authStored_ToMap: "okAuth a \<Longrightarrow> authStored rt a = Some (ToMap a)"
  by (cases "a_mysqlSha1 a") (simp_all add: authStored_def ToMap_def okAuth_def okText_ascii hex_encode_ascii)

lemma FromMap_ToMap: "FromMap (ToMap a) NewAuth = a"
  by (cases "a_mysqlSha1 a") (simp_all add: FromMap_def ToMap_def NewAuth_def stringAt_def boolAt_def Let_def codec)

text \<open>The states the operations reach: the digests are those of one password.\<close>

inductive auth_reach :: "Auth \<Rightarrow> bool" where
  "auth_reach NewAuth"
| "auth_reach a \<Longrightarrow> okText u \<Longrightarrow> auth_reach (SetCredentials u p a)"
| "auth_reach a \<Longrightarrow> auth_reach (SetPassword p a)"
| "auth_reach a \<Longrightarrow> auth_reach (Enable a)"
| "auth_reach a \<Longrightarrow> auth_reach (Disable a)"
| "auth_reach a \<Longrightarrow> auth_reach (ClearCredentials a)"

definition one_password :: "Auth \<Rightarrow> bool" where
  "one_password a \<longleftrightarrow>
     (a_password a = [] \<and> a_mysqlSha1 a = None) \<or>
     (\<exists>p. a_password a = hashPassword p \<and> a_mysqlSha1 a = Some (hashPasswordMySQL p))"

lemma auth_reach_one: "auth_reach a \<Longrightarrow> one_password a \<and> okAuth a"
proof (induction rule: auth_reach.induct)
  case 1
  show ?case by (simp add: NewAuth_def one_password_def okAuth_def okText_ascii)
next
  case (2 a u p)
  then show ?case
    by (auto simp: SetCredentials_def one_password_def okAuth_def Let_def hashPassword_def okText_ascii hex_encode_ascii)
next
  case (3 a p)
  then show ?case by (auto simp: SetPassword_def one_password_def okAuth_def hashPassword_def okText_ascii hex_encode_ascii)
qed (auto simp: Enable_def Disable_def ClearCredentials_def one_password_def okAuth_def okText_ascii)

text \<open>
  The credentials survive in the metadata: whatever sequence of operations set them, the map that \<^verbatim>\<open>ToMap\<close> exports
  goes through JSON unchanged and \<^verbatim>\<open>FromMap\<close> restores from it the same credentials, both digests included.
\<close>
theorem auth_survives_metadata:
  assumes "auth_reach a"
  shows "\<exists>m. authStored rt a = Some m \<and> FromMap m NewAuth = a"
  using auth_reach_one [OF assms] authStored_ToMap FromMap_ToMap by blast

theorem auth_survives_metadata_witness:
  "\<exists>m. authStored rt_plain (SetCredentials ''admin'' ''secret'' NewAuth) = Some m \<and>
     FromMap m NewAuth = SetCredentials ''admin'' ''secret'' NewAuth"
proof -
  have "auth_reach (SetCredentials ''admin'' ''secret'' NewAuth)"
    by (intro auth_reach.intros okText_ascii) (simp add: is_ascii_def)
  then show ?thesis by (rule auth_survives_metadata)
qed

end
