(* ===== verification/Protocol.thy ===== *)
theory Protocol
  imports Values Hash
begin

text \<open>
  \<^verbatim>\<open>src/mysql/protocol.go\<close>: packets of the MySQL protocol, length-encoded integers and strings, the packets the server sends,
  decimal conversion, and the scramble of \<^verbatim>\<open>mysql_native_password\<close>. A connection is the bytes sent so far and whether writes
  still succeed.
\<close>

datatype proto_error = PEOF | PUnexpectedEOF | PWrite | PPanic

section \<open>Length-encoded values\<close>

definition writeLengthEncodedInt :: "u64 \<Rightarrow> bytes" where
  "writeLengthEncodedInt n =
     (if n \<le> 250 then [ucast n]
      else if n \<le> 0xffff then 0xfc # le_bytes 2 n
      else if n \<le> 0xffffff then 0xfd # le_bytes 3 n
      else 0xfe # le_bytes 8 n)"

definition ReadLengthEncodedInt :: "bytes \<Rightarrow> proto_error + (u64 \<times> nat)" where
  "ReadLengthEncodedInt data =
     (case data of
        [] \<Rightarrow> Inl PEOF
      | b # _ \<Rightarrow>
          if b = 0xfb then Inr (0, 1)
          else if b = 0xfc then (if length data < 3 then Inl PEOF else Inr (le_word (slice 1 3 data), 3))
          else if b = 0xfd then (if length data < 4 then Inl PEOF else Inr (le_word (slice 1 4 data), 4))
          else if b = 0xfe then (if length data < 9 then Inl PEOF else Inr (le_word (slice 1 9 data), 9))
          else Inr (ucast b, 1))"

definition writeLengthEncodedString :: "string \<Rightarrow> bytes" where
  "writeLengthEncodedString s = writeLengthEncodedInt (of_nat (length s)) @ bytes_of s"

text \<open>\<^verbatim>\<open>total := n + int(length)\<close> wraps around; a slice whose end is before its start panics.\<close>

definition ReadLengthEncodedString :: "bytes \<Rightarrow> proto_error + (string \<times> nat)" where
  "ReadLengthEncodedString data =
     bindE (ReadLengthEncodedInt data) (\<lambda>(len, n).
       let total = sint (of_nat n + len)
       in if int (length data) < total then Inl PEOF
          else if total < int n then Inl PPanic
          else Inr (string_of (slice n (nat total) data), nat total))"

definition writeUint16 :: "u16 \<Rightarrow> bytes" where "writeUint16 n = le_bytes 2 n"

definition writeUint32 :: "u32 \<Rightarrow> bytes" where "writeUint32 n = le_bytes 4 n"

section \<open>Numbers as text\<close>

fun countDigits :: "nat \<Rightarrow> nat" where
  "countDigits tmp = (if 0 < tmp then Suc (countDigits (tmp div 10)) else 0)"

declare countDigits.simps [simp del]

text \<open>The loop that fills \<^verbatim>\<open>result[i]\<close> from the right while digits are left; the first argument is \<^verbatim>\<open>i + 1\<close>.\<close>

fun fillDigits :: "nat \<Rightarrow> nat \<Rightarrow> string \<Rightarrow> string" where
  "fillDigits 0 n result = result"
| "fillDigits (Suc i) n result = (if 0 < n then fillDigits i (n div 10) (result[i := digit_char (n mod 10)]) else result)"

definition uint64ToString :: "u64 \<Rightarrow> string" where
  "uint64ToString n =
     (if n = 0 then ''0''
      else let digits = countDigits (unat n) in fillDigits digits (unat n) (replicate digits (char_of (0 :: nat))))"

definition int64ToString :: "u64 \<Rightarrow> string" where
  "int64ToString w =
     (if w = 0 then ''0''
      else if sint w = - (2 ^ 63) then ''-9223372036854775808''
      else
        let neg = (sint w < 0); n = nat \<bar>sint w\<bar>; digits = countDigits n;
            result = (if neg then CHR ''-'' # replicate digits (char_of (0 :: nat)) else replicate digits (char_of (0 :: nat)))
        in fillDigits (length result) n result)"

fun anyToString :: "go_rt \<Rightarrow> godata \<Rightarrow> string" where
  "anyToString rt (GString s) = s"
| "anyToString rt (GBytes b) = string_of b"
| "anyToString rt (GInt w) = int64ToString w"
| "anyToString rt (GInt8 w) = int64ToString (scast w)"
| "anyToString rt (GInt16 w) = int64ToString (scast w)"
| "anyToString rt (GInt32 w) = int64ToString (scast w)"
| "anyToString rt (GInt64 w) = int64ToString w"
| "anyToString rt (GUint w) = uint64ToString w"
| "anyToString rt (GUint8 w) = uint64ToString (ucast w)"
| "anyToString rt (GUint16 w) = uint64ToString (ucast w)"
| "anyToString rt (GUint32 w) = uint64ToString (ucast w)"
| "anyToString rt (GUint64 w) = uint64ToString w"
| "anyToString rt (GFloat32 f) = rt_fmt_f rt (f32_to_f64 f)"
| "anyToString rt (GFloat64 f) = rt_fmt_f rt f"
| "anyToString rt (GBool b) = (if b then ''1'' else ''0'')"
| "anyToString rt _ = []"

section \<open>Packets\<close>

record PacketWriter =
  pw_out :: bytes
  pw_alive :: bool
  pw_sequence :: byte

type_synonym 'a pw_method = "(PacketWriter, proto_error, 'a) go_method"

definition writePacketInternal :: "bytes \<Rightarrow> unit pw_method" where
  "writePacketInternal data w =
     (let header = le_bytes 3 (of_nat (length data) :: u64) @ [pw_sequence w];
          w = w\<lparr>pw_sequence := pw_sequence w + 1\<rparr>
      in if pw_alive w then (w\<lparr>pw_out := pw_out w @ header @ data\<rparr>, Inr ()) else (w, Inl PWrite))"

function writeChunks :: "bytes \<Rightarrow> unit pw_method" where
  "writeChunks data w =
     (if data = [] then (w, Inr ())
      else bindS (writePacketInternal (take 0xffffff data)) (\<lambda>_. writeChunks (drop 0xffffff data)) w)"
  by pat_completeness auto
termination by (relation "measure (\<lambda>(data, w). length data)") auto

declare writeChunks.simps [simp del]

definition WritePacket :: "bytes \<Rightarrow> unit pw_method" where
  "WritePacket data = (if 0xffffff < length data then writeChunks data else writePacketInternal data)"

definition ReadPacket :: "bytes \<Rightarrow> proto_error + (bytes \<times> bytes)" where
  "ReadPacket b =
     (if b = [] then Inl PEOF
      else if length b < 4 then Inl PUnexpectedEOF
      else let len = unat (le_word (slice 0 3 b) :: u32); rest = drop 4 b
           in if len = 0 then Inr ([], rest)
              else if rest = [] then Inl PEOF
              else if length rest < len then Inl PUnexpectedEOF
              else Inr (take len rest, drop len rest))"

definition ResetSequence :: "PacketWriter \<Rightarrow> PacketWriter" where
  "ResetSequence w = w\<lparr>pw_sequence := 0\<rparr>"

section \<open>The packets of the server\<close>

definition okPayload :: "u64 \<Rightarrow> u64 \<Rightarrow> u16 \<Rightarrow> u16 \<Rightarrow> string \<Rightarrow> bytes" where
  "okPayload affectedRows insertID status warnings message =
     [0x00] @ writeLengthEncodedInt affectedRows @ writeLengthEncodedInt insertID @ writeUint16 status @ writeUint16 warnings
     @ (if message \<noteq> [] then writeLengthEncodedString message else [])"

definition WriteOK :: "u64 \<Rightarrow> u64 \<Rightarrow> u16 \<Rightarrow> u16 \<Rightarrow> string \<Rightarrow> unit pw_method" where
  "WriteOK affectedRows insertID status warnings message = WritePacket (okPayload affectedRows insertID status warnings message)"

definition WriteAuthMoreData :: "bytes \<Rightarrow> unit pw_method" where
  "WriteAuthMoreData data = WritePacket (0x01 # data)"

definition WriteEOF :: "u16 \<Rightarrow> u16 \<Rightarrow> unit pw_method" where
  "WriteEOF warnings status = WritePacket ([0xfe, 0x00, 0x00] @ le_bytes 2 status)"

definition errorPayload :: "u16 \<Rightarrow> string \<Rightarrow> string \<Rightarrow> bytes" where
  "errorPayload code sqlState message =
     (let sqlState = (if length sqlState < 5 then ''HY000'' else sqlState)
      in [0xff] @ writeUint16 code @ bytes_of ''#'' @ bytes_of (take 5 sqlState) @ bytes_of message)"

definition WriteError :: "u16 \<Rightarrow> string \<Rightarrow> string \<Rightarrow> unit pw_method" where
  "WriteError code sqlState message = WritePacket (errorPayload code sqlState message)"

definition WriteResultHeader :: "u64 \<Rightarrow> unit pw_method" where
  "WriteResultHeader columnCount = WritePacket (writeLengthEncodedInt columnCount)"

definition columnPayload ::
  "string \<Rightarrow> string \<Rightarrow> string \<Rightarrow> string \<Rightarrow> string \<Rightarrow> u32 \<Rightarrow> u16 \<Rightarrow> byte \<Rightarrow> byte \<Rightarrow> u16 \<Rightarrow> bytes"
where
  "columnPayload schema table orgTable name orgName columnLength charset columnType decimals flags =
     concat (map writeLengthEncodedString [''def'', schema, table, orgTable, name, orgName])
     @ [0x0c] @ writeUint16 charset @ writeUint32 columnLength @ [columnType] @ writeUint16 flags @ [decimals] @ [0x00, 0x00]"

definition WriteColumnDefinition ::
  "string \<Rightarrow> string \<Rightarrow> string \<Rightarrow> string \<Rightarrow> string \<Rightarrow> u32 \<Rightarrow> u16 \<Rightarrow> byte \<Rightarrow> byte \<Rightarrow> u16 \<Rightarrow> unit pw_method"
where
  "WriteColumnDefinition schema table orgTable name orgName columnLength charset columnType decimals flags =
     WritePacket (columnPayload schema table orgTable name orgName columnLength charset columnType decimals flags)"

definition rowPayload :: "go_rt \<Rightarrow> godata list \<Rightarrow> bytes" where
  "rowPayload rt values =
     concat (map (\<lambda>v. if v = GNil then [0xfb] else writeLengthEncodedString (anyToString rt v)) values)"

definition WriteRowData :: "go_rt \<Rightarrow> godata list \<Rightarrow> unit pw_method" where
  "WriteRowData rt values = WritePacket (rowPayload rt values)"

text \<open>\<^verbatim>\<open>nullBitmap[bytePos] |= (1 << uint(bitPos))\<close> over the values\<close>

definition nullBitmap :: "godata list \<Rightarrow> bytes" where
  "nullBitmap values =
     foldl (\<lambda>m (i, v). if v = GNil then m[(i + 2) div 8 := m ! ((i + 2) div 8) OR push_bit ((i + 2) mod 8) 1] else m)
       (replicate ((length values + 7 + 2) div 8) 0) (enumerate 0 values)"

definition binaryRowPayload :: "go_rt \<Rightarrow> godata list \<Rightarrow> bytes" where
  "binaryRowPayload rt values =
     [0x00] @ nullBitmap values @ concat (map (\<lambda>v. if v = GNil then [] else writeLengthEncodedString (anyToString rt v)) values)"

definition WriteBinaryRowData :: "go_rt \<Rightarrow> godata list \<Rightarrow> unit pw_method" where
  "WriteBinaryRowData rt values = WritePacket (binaryRowPayload rt values)"

text \<open>\<^verbatim>\<open>mysql_native_password\<close>\<close>

definition xor_bytes :: "bytes \<Rightarrow> bytes \<Rightarrow> bytes" where
  "xor_bytes a b = map (\<lambda>(x, y). x XOR y) (zip a b)"

definition NativePasswordAuth :: "bytes \<Rightarrow> bytes \<Rightarrow> bytes" where
  "NativePasswordAuth password salt =
     (if password = [] then []
      else let hash1 = sha1 password; hash2 = sha1 hash1; hash3 = sha1 (salt @ hash2) in xor_bytes hash1 hash3)"

section \<open>Length-encoded values are prefix codes\<close>

lemma le_word_le_bytes_ucast: "(le_word (le_bytes n w) :: 'a::len word) = ucast (take_bit (8 * n) (w :: 'b::len word))"
proof (rule bit_word_eqI)
  fix k assume k: "k < LENGTH('a)"
  show "bit (le_word (le_bytes n w) :: 'a word) k = bit (ucast (take_bit (8 * n) w) :: 'a word) k"
  proof (cases "k < 8 * n")
    case True
    then have "k div 8 < n" by (simp add: less_mult_imp_div_less mult.commute)
    moreover have "8 * (k div 8) + k mod 8 = k" by simp
    ultimately show ?thesis
      using k True by (simp add: bit_le_word le_bytes_def bit_ucast_iff bit_drop_bit_eq bit_take_bit_iff)
  qed (simp add: bit_le_word bit_ucast_iff bit_take_bit_iff)
qed

lemma take_bit_small: "unat (w :: 'a::len word) < 2 ^ n \<Longrightarrow> take_bit n w = w"
  by (simp add: word_unat_eq_iff unsigned_take_bit_eq take_bit_nat_eq_self)

lemma le_word_small: "unat (w :: u64) < 2 ^ (8 * n) \<Longrightarrow> le_word (le_bytes n w) = w"
  by (simp add: le_word_le_bytes_ucast take_bit_small)

lemma ReadLengthEncodedInt_write:
  "ReadLengthEncodedInt (writeLengthEncodedInt n @ rest) = Inr (n, length (writeLengthEncodedInt n))"
proof (cases "n \<le> 250")
  case True
  then have u: "unat n \<le> 250" by (simp add: word_le_nat_alt)
  then have b: "unat (ucast n :: byte) = unat n" by (simp add: unsigned_ucast_eq take_bit_nat_eq_self)
  then have "ucast n \<noteq> (0xfb :: byte)" "ucast n \<noteq> (0xfc :: byte)" "ucast n \<noteq> (0xfd :: byte)" "ucast n \<noteq> (0xfe :: byte)"
    using u by (auto simp: word_unat_eq_iff)
  moreover have "ucast (ucast n :: byte) = n" 
    using take_bit_small [of n 8] u by (simp add: word_unat_eq_iff unsigned_ucast_eq take_bit_nat_eq_self)
  ultimately show ?thesis using True by (simp add: writeLengthEncodedInt_def ReadLengthEncodedInt_def)
next
  case False
  have s: "n \<le> 0xffff \<Longrightarrow> le_word (le_bytes 2 n) = n" "n \<le> 0xffffff \<Longrightarrow> le_word (le_bytes 3 n) = n" "le_word (le_bytes 8 n) = n"
    using unsigned_less [of n, where 'a = nat] by (auto intro!: le_word_small simp: word_le_nat_alt)
  have l: "slice 1 3 (b # le_bytes 2 n @ rest) = le_bytes 2 n" "slice 1 4 (b # le_bytes 3 n @ rest) = le_bytes 3 n"
    "slice 1 9 (b # le_bytes 8 n @ rest) = le_bytes 8 n" for b
    by (simp_all add: slice_def)
  show ?thesis using False s l [simplified] by (simp add: writeLengthEncodedInt_def ReadLengthEncodedInt_def)
qed

lemma length_writeInt: "length (writeLengthEncodedInt n) \<le> 9"
  by (simp add: writeLengthEncodedInt_def)

interpretation lenenc_int: prefix_codec writeLengthEncodedInt ReadLengthEncodedInt id "\<lambda>_. True"
  by unfold_locales (simp add: ReadLengthEncodedInt_write)

lemma sint_of_nat_small: "m < 2 ^ 63 \<Longrightarrow> sint (of_nat m :: u64) = int m"
  by (simp add: signed_of_nat signed_take_bit_int_eq_self)

lemma ReadLengthEncodedString_write:
  assumes "length s + 9 < 2 ^ 63"
  shows "ReadLengthEncodedString (writeLengthEncodedString s @ rest) = Inr (s, length (writeLengthEncodedString s))"
proof -
  let ?n = "length (writeLengthEncodedInt (of_nat (length s)))"
  have small: "?n + length s < 2 ^ 63" using assms length_writeInt [of "of_nat (length s)"] by simp
  have "sint (of_nat (?n + length s) :: u64) = int (?n + length s)" using small by (rule sint_of_nat_small)
  then have t: "sint (of_nat ?n + of_nat (length s) :: u64) = int (?n + length s)" by simp
  show ?thesis
    using ReadLengthEncodedInt_write [of "of_nat (length s)" "bytes_of s @ rest"] t
    by (simp add: ReadLengthEncodedString_def writeLengthEncodedString_def Let_def slice_def)
qed

interpretation lenenc_string: prefix_codec writeLengthEncodedString ReadLengthEncodedString id "\<lambda>s. length s + 9 < 2 ^ 63"
  by unfold_locales (simp add: ReadLengthEncodedString_write)

section \<open>Decimal text\<close>

lemma countDigits_pos: "0 < n \<Longrightarrow> countDigits n = Suc (countDigits (n div 10))"
  by (simp add: countDigits.simps [of n])

lemma dec_nat_step: "10 \<le> n \<Longrightarrow> dec_nat n = dec_nat (n div 10) @ [digit_char (n mod 10)]" "n < 10 \<Longrightarrow> dec_nat n = [digit_char n]"
  by (simp_all add: dec_nat.simps [of n])

lemma digit_chars:
  "digit_char 0 = CHR ''0''" "digit_char (Suc 0) = CHR ''1''" "digit_char 2 = CHR ''2''" "digit_char 3 = CHR ''3''" "digit_char 4 = CHR ''4''"
  "digit_char 5 = CHR ''5''" "digit_char 6 = CHR ''6''" "digit_char 7 = CHR ''7''" "digit_char 8 = CHR ''8''" "digit_char 9 = CHR ''9''"
  by code_simp+

lemma fillDigits_0: "fillDigits k 0 r = r"
  by (cases k) simp_all

lemma fillDigits_dec:
  "0 < n \<Longrightarrow> fillDigits (length p + countDigits n) n (p @ replicate (countDigits n) z @ suffix) = p @ dec_nat n @ suffix"
proof (induction n arbitrary: suffix rule: less_induct)
  case (less n)
  let ?k = "countDigits (n div 10)"
  have k: "countDigits n = Suc ?k" using less.prems by (rule countDigits_pos)
  have upd: "(p @ replicate (Suc ?k) z @ suffix)[length p + ?k := c] = p @ replicate ?k z @ c # suffix" for c
  proof -
    have "replicate (Suc ?k) z @ suffix = replicate ?k z @ z # suffix" by (simp add: replicate_app_Cons_same)
    then show ?thesis by (simp only: list_update_append) simp
  qed
  show ?case
  proof (cases "n < 10")
    case True
    then have "?k = 0" by (simp add: countDigits.simps)
    with True less.prems upd k show ?thesis by (simp add: dec_nat_step fillDigits_0)
  next
    case False
    then have "0 < n div 10" "n div 10 < n" by auto
    then show ?thesis
      using less.IH [of "n div 10" "digit_char (n mod 10) # suffix"] less.prems upd False k by (simp add: dec_nat_step)
  qed
qed

text \<open>
  The hand-written number formatting of the protocol prints decimal: for every 64-bit value \<^verbatim>\<open>uint64ToString\<close> gives the
  decimal digits of the unsigned value and \<^verbatim>\<open>int64ToString\<close> those of the signed one, \<^verbatim>\<open>math.MinInt64\<close> included. Both loops
  terminate and write inside their buffer.
\<close>
theorem number_formatting_decimal:
  "uint64ToString w = dec_nat (unat w) \<and> int64ToString w = dec_int (sint w)"
proof
  have z: "dec_nat 0 = ''0''" by code_simp
  show "uint64ToString w = dec_nat (unat w)"
  proof (cases "w = 0")
    case False
    then have "0 < unat w" by (simp add: unat_gt_0)
    with fillDigits_dec [of "unat w" "[]" "char_of 0" "[]"] False show ?thesis by (simp add: uint64ToString_def Let_def)
  qed (simp add: uint64ToString_def z)
  show "int64ToString w = dec_int (sint w)"
  proof (cases "w = 0 \<or> sint w = - (2 ^ 63)")
    case True
    have m: "dec_int (- (2 ^ 63)) = ''-9223372036854775808''" 
      by (simp add: dec_int_def dec_nat.simps digit_chars)
    show ?thesis
    proof (cases "w = 0")
      case True
      then show ?thesis by (simp add: int64ToString_def dec_int_def z)
    next
      case nz: False
      with True have "sint w = - (2 ^ 63)" by simp
      with nz m show ?thesis by (simp only: int64ToString_def if_True if_False refl)
    qed
  next
    case False
    then have n: "0 < nat \<bar>sint w\<bar>" by (simp add: signed_eq_0_iff)
    show ?thesis
    proof (cases "sint w < 0")
      case True
      with False n fillDigits_dec [OF n, of "''-''" "char_of 0" "[]"] show ?thesis
        by (simp add: int64ToString_def dec_int_def Let_def)
    next
      case nneg: False
      with False n fillDigits_dec [OF n, of "[]" "char_of 0" "[]"] show ?thesis
        by (simp add: int64ToString_def dec_int_def Let_def)
    qed
  qed
qed

section \<open>Packets\<close>

lemma ReadPacket_frame:
  assumes "length data \<le> 0xffffff"
  shows "ReadPacket (le_bytes 3 (of_nat (length data) :: u64) @ [seq] @ data @ rest) = Inr (data, rest)"
proof -
  have len: "unat (le_word (le_bytes 3 (of_nat (length data) :: u64)) :: u32) = length data"
    using assms by (simp add: le_word_le_bytes_ucast take_bit_small unsigned_ucast_eq take_bit_nat_eq_self unat_of_nat)
  have "slice 0 3 (le_bytes 3 (of_nat (length data) :: u64) @ [seq] @ data @ rest) = le_bytes 3 (of_nat (length data) :: u64)"
    by (simp add: slice_def)
  with len assms show ?thesis by (cases "data = []") (auto simp: ReadPacket_def Let_def)
qed

text \<open>All packets of a stream\<close>

function readStream :: "bytes \<Rightarrow> proto_error + bytes list" where
  "readStream b =
     (if b = [] then Inr []
      else case ReadPacket b of Inl e \<Rightarrow> Inl e | Inr (d, rest) \<Rightarrow> bindE (readStream rest) (\<lambda>ds. Inr (d # ds)))"
  by pat_completeness auto
termination
  by (relation "measure length") (auto simp: ReadPacket_def Let_def split: if_splits)

declare readStream.simps [simp del]

lemma readStream_frame:
  assumes "length data \<le> 0xffffff"
  shows "readStream (le_bytes 3 (of_nat (length data) :: u64) @ [seq] @ data @ rest) = bindE (readStream rest) (\<lambda>ds. Inr (data # ds))"
  using ReadPacket_frame [OF assms, of seq rest] by (subst readStream.simps) auto

text \<open>What a write adds to the connection: packets that carry the data, numbered one after the other\<close>

definition wrote :: "PacketWriter \<Rightarrow> PacketWriter \<Rightarrow> bytes list \<Rightarrow> bool" where
  "wrote w w' parts \<longleftrightarrow>
     (\<exists>x. pw_out w' = pw_out w @ x \<and> (\<forall>rest. readStream (x @ rest) = bindE (readStream rest) (\<lambda>ds. Inr (parts @ ds)))) \<and>
     pw_alive w' = pw_alive w \<and> pw_sequence w' = pw_sequence w + of_nat (length parts)"

lemma wrote_Nil: "wrote w w []"
  by (auto simp: wrote_def bindE_def split: sum.splits)

lemma wrote_trans: "wrote w w' ps \<Longrightarrow> wrote w' w'' qs \<Longrightarrow> wrote w w'' (ps @ qs)"
proof -
  assume a: "wrote w w' ps" "wrote w' w'' qs"
  obtain x where x: "pw_out w' = pw_out w @ x" "\<And>rest. readStream (x @ rest) = bindE (readStream rest) (\<lambda>ds. Inr (ps @ ds))"
    using a(1) by (auto simp: wrote_def)
  obtain y where y: "pw_out w'' = pw_out w' @ y" "\<And>rest. readStream (y @ rest) = bindE (readStream rest) (\<lambda>ds. Inr (qs @ ds))"
    using a(2) by (auto simp: wrote_def)
  have "readStream ((x @ y) @ rest) = bindE (readStream rest) (\<lambda>ds. Inr ((ps @ qs) @ ds))" for rest
    by (simp add: x(2) y(2) bindE_def split: sum.splits)
  then show ?thesis using a x(1) y(1) by (auto simp: wrote_def)
qed

lemma wrote_packet:
  "pw_alive w \<Longrightarrow> length data \<le> 0xffffff \<Longrightarrow> \<exists>w'. writePacketInternal data w = (w', Inr ()) \<and> wrote w w' [data]"
  using readStream_frame [of data "pw_sequence w"] by (auto simp: writePacketInternal_def Let_def wrote_def)

lemma wrote_alive: "wrote w w' ps \<Longrightarrow> pw_alive w' = pw_alive w"
  by (simp add: wrote_def)

lemma writeChunks_wrote:
  "pw_alive w \<Longrightarrow> \<exists>w'. writeChunks data w = (w', Inr ()) \<and> wrote w w' (chunks 0xffffff data)"
proof (induction data w rule: writeChunks.induct)
  case (1 data w)
  show ?case
  proof (cases "data = []")
    case True
    then show ?thesis by (simp add: writeChunks.simps chunks.simps wrote_Nil)
  next
    case False
    obtain w1 where w1: "writePacketInternal (take 0xffffff data) w = (w1, Inr ())" "wrote w w1 [take 0xffffff data]"
      using wrote_packet [OF 1(2), of "take 0xffffff data"] by auto
    obtain w2 where w2: "writeChunks (drop 0xffffff data) w1 = (w2, Inr ())" "wrote w1 w2 (chunks 0xffffff (drop 0xffffff data))"
      using 1(1) [OF False, of w1] wrote_alive [OF w1(2)] 1(2) by auto
    have "writeChunks data w = (w2, Inr ())" using False w1(1) w2(1) by (simp add: writeChunks.simps bindS_def)
    moreover have "chunks 0xffffff data = take 0xffffff data # chunks 0xffffff (drop 0xffffff data)"
      using False by (subst chunks.simps) simp
    ultimately show ?thesis using wrote_trans [OF w1(2) w2(2)] by simp
  qed
qed

lemma concat_chunks: "0 < n \<Longrightarrow> concat (chunks n xs) = xs"
proof (induction n xs rule: chunks.induct)
  case (1 n xs)
  then show ?case by (cases "xs = []") (simp_all add: chunks.simps [of n xs] chunks.simps [of n "[]"])
qed

lemma chunks_length: "list_all (\<lambda>p. length p \<le> n) (chunks n xs)"
proof (induction n xs rule: chunks.induct)
  case (1 n xs)
  then show ?case by (cases "n = 0 \<or> xs = []") (auto simp: chunks.simps [of n xs] chunks.simps [of n "[]"])
qed

lemma WritePacket_wrote:
  assumes "pw_alive w"
  obtains w' parts where "WritePacket data w = (w', Inr ())" "wrote w w' parts" "concat parts = data"
    "list_all (\<lambda>p. length p \<le> 0xffffff) parts" "length data \<le> 0xffffff \<Longrightarrow> parts = [data]"
proof (cases "0xffffff < length data")
  case True
  obtain w' where "writeChunks data w = (w', Inr ())" "wrote w w' (chunks 0xffffff data)"
    using writeChunks_wrote [OF assms] by blast
  then show ?thesis
    using True concat_chunks [of "0xffffff" data] chunks_length [of "0xffffff" data] by (intro that) (simp_all add: WritePacket_def)
next
  case False
  obtain w' where "writePacketInternal data w = (w', Inr ())" "wrote w w' [data]"
    using wrote_packet [OF assms, of data] False by auto
  then show ?thesis using False by (intro that) (simp_all add: WritePacket_def)
qed

text \<open>
  C27. Packets carry data of any length: \<^verbatim>\<open>WritePacket\<close> terminates, appends packets of at most 16777215 bytes to the connection, and
  reading the packets one after the other gives parts whose concatenation is the data; the sequence number
  advances by the number of packets, modulo 256.
\<close>
theorem packets_carry_data:
  assumes "pw_alive w"
  shows "\<exists>w' parts x. WritePacket data w = (w', Inr ()) \<and> pw_out w' = pw_out w @ x \<and> readStream x = Inr parts \<and>
    concat parts = data \<and> list_all (\<lambda>p. length p \<le> 0xffffff) parts \<and> pw_sequence w' = pw_sequence w + of_nat (length parts)"
proof -
  obtain w' parts where w: "WritePacket data w = (w', Inr ())" "wrote w w' parts" "concat parts = data"
    "list_all (\<lambda>p. length p \<le> 0xffffff) parts"
    using WritePacket_wrote [OF assms] by metis
  obtain x where "pw_out w' = pw_out w @ x" "readStream (x @ []) = bindE (readStream []) (\<lambda>ds. Inr (parts @ ds))"
    using w(2) unfolding wrote_def by blast
  with w show ?thesis by (auto simp: wrote_def readStream.simps [of "[]"])
qed

definition newWriter :: PacketWriter where
  "newWriter = \<lparr>pw_out = [], pw_alive = True, pw_sequence = 0\<rparr>"

theorem packets_carry_data_witness:
  "\<exists>w' parts x. WritePacket [1, 2, 3] newWriter = (w', Inr ()) \<and> pw_out w' = x \<and> readStream x = Inr parts \<and> concat parts = [1, 2, 3]"
  using packets_carry_data [of newWriter "[1, 2, 3]"] by (auto simp: newWriter_def)

section \<open>Rows\<close>

lemma nullBitmap_fold:
  fixes m :: bytes
  assumes "\<forall>i < length vs. (k + i + 2) div 8 < length m"
  defines "r \<equiv> foldl (\<lambda>m (i, v). if v = GNil then m[(i + 2) div 8 := m ! ((i + 2) div 8) OR push_bit ((i + 2) mod 8) 1] else m) m (enumerate k vs)"
  shows "length r = length m \<and>
    (\<forall>b < length m. \<forall>j < 8. bit (r ! b) j \<longleftrightarrow> bit (m ! b) j \<or> (\<exists>i < length vs. vs ! i = GNil \<and> k + i + 2 = 8 * b + j))"
  using assms(1) unfolding r_def
proof (induction vs arbitrary: k m)
  case (Cons v vs)
  let ?p = "(k + 2) div 8"
  let ?m = "if v = GNil then m[?p := m ! ?p OR push_bit ((k + 2) mod 8) 1] else m"
  have p: "?p < length m" using Cons.prems by auto
  have prem: "\<forall>i < length vs. (Suc k + i + 2) div 8 < length ?m"
  proof (intro allI impI)
    fix i assume "i < length vs"
    then show "(Suc k + i + 2) div 8 < length ?m" using Cons.prems [rule_format, of "Suc i"] by simp
  qed
  have step: "bit (?m ! b) j \<longleftrightarrow> bit (m ! b) j \<or> v = GNil \<and> k + 2 = 8 * b + j" if "b < length m" "j < 8" for b j
  proof -
    have "bit (push_bit ((k + 2) mod 8) 1 :: byte) j \<longleftrightarrow> (k + 2) mod 8 = j"
      using \<open>j < 8\<close> by (simp only: bit_push_bit_iff bit_1_iff) auto
    moreover have "k + 2 = 8 * b + j \<longleftrightarrow> ?p = b \<and> (k + 2) mod 8 = j" using \<open>j < 8\<close> by auto
    ultimately show ?thesis using p by (auto simp: nth_list_update bit_or_iff)
  qed
  have ex: "(\<exists>i < length (v # vs). (v # vs) ! i = GNil \<and> k + i + 2 = c) \<longleftrightarrow>
      v = GNil \<and> k + 2 = c \<or> (\<exists>i < length vs. vs ! i = GNil \<and> Suc k + i + 2 = c)" for c
    by (simp add: less_Suc_eq_0_disj ex_disj_distrib conj_disj_distribR) (auto simp: less_Suc_eq_0_disj)
  have "foldl (\<lambda>m (i, v). if v = GNil then m[(i + 2) div 8 := m ! ((i + 2) div 8) OR push_bit ((i + 2) mod 8) 1] else m) m (enumerate k (v # vs))
      = foldl (\<lambda>m (i, v). if v = GNil then m[(i + 2) div 8 := m ! ((i + 2) div 8) OR push_bit ((i + 2) mod 8) 1] else m) ?m (enumerate (Suc k) vs)"
    by simp
  with Cons.IH [OF prem] step show ?case unfolding ex by auto
qed simp

text \<open>
  C34. A binary row can be read back: the bitmap has \<open>(n + 9) div 8\<close> bytes, every bit the code sets is inside it, bit \<open>i + 2\<close> says
  whether value \<open>i\<close> is null, and the bytes after it are exactly the texts of the other values, which the
  reader of length-encoded strings returns in order.
\<close>
theorem binary_row_readable:
  assumes "list_all (\<lambda>v. length (anyToString rt v) + 9 < 2 ^ 63) values"
  shows "length (nullBitmap values) = (length values + 9) div 8 \<and>
    map (\<lambda>i. bit (binaryRowPayload rt values ! (1 + (i + 2) div 8)) ((i + 2) mod 8)) [0..<length values] = map (\<lambda>v. v = GNil) values \<and>
    decode_seq ReadLengthEncodedString (length (filter (\<lambda>v. v \<noteq> GNil) values))
      (drop (1 + length (nullBitmap values)) (binaryRowPayload rt values)) =
    Inr (map (anyToString rt) (filter (\<lambda>v. v \<noteq> GNil) values),
         length (drop (1 + length (nullBitmap values)) (binaryRowPayload rt values)))"
proof -
  let ?m = "replicate ((length values + 7 + 2) div 8) (0 :: byte)"
  have bound: "\<forall>i < length values. (0 + i + 2) div 8 < length ?m" by auto
  note f = nullBitmap_fold [OF bound]
  have len: "length (nullBitmap values) = (length values + 9) div 8" using f by (simp add: nullBitmap_def)
  have bits: "bit (nullBitmap values ! ((i + 2) div 8)) ((i + 2) mod 8) \<longleftrightarrow> values ! i = GNil" if "i < length values" for i
  proof -
    have "(i + 2) div 8 < length ?m" using bound \<open>i < length values\<close> by simp
    moreover have "(i' + 2 = 8 * ((i + 2) div 8) + (i + 2) mod 8) \<longleftrightarrow> i' = i" for i' by auto
    ultimately show ?thesis using f that by (auto simp: nullBitmap_def)
  qed
  let ?ss = "map (anyToString rt) (filter (\<lambda>v. v \<noteq> GNil) values)"
  have cat: "concat (map (\<lambda>v. if v = GNil then [] else writeLengthEncodedString (anyToString rt v)) values) = concat (map writeLengthEncodedString ?ss)"
    by (induction "values") simp_all
  have "list_all (\<lambda>s. length s + 9 < 2 ^ 63) ?ss" using assms by (auto simp: list_all_iff)
  from lenenc_string.decode_seq_concat [OF this, of "[]"]
  have "decode_seq ReadLengthEncodedString (length ?ss) (concat (map writeLengthEncodedString ?ss)) =
      Inr (?ss, length (concat (map writeLengthEncodedString ?ss)))" by simp
  moreover have "drop (1 + length (nullBitmap values)) (binaryRowPayload rt values) = concat (map writeLengthEncodedString ?ss)"
    by (simp add: binaryRowPayload_def cat)
  moreover have at: "binaryRowPayload rt values ! (1 + (i + 2) div 8) = nullBitmap values ! ((i + 2) div 8)" if "i < length values" for i
  proof -
    have "(i + 2) div 8 < length (nullBitmap values)" using len bound that by simp
    then show ?thesis by (simp add: binaryRowPayload_def nth_append)
  qed
  moreover have "map (\<lambda>i. bit (binaryRowPayload rt values ! (1 + (i + 2) div 8)) ((i + 2) mod 8)) [0..<length values] = map (\<lambda>v. v = GNil) values"
    using at bits by (intro nth_equalityI) simp_all
  ultimately show ?thesis using len by (simp only: length_map simp_thms)
qed

theorem binary_row_readable_witness:
  "map (\<lambda>i. bit (binaryRowPayload rt_plain [GString ''a'', GNil, GInt64 7] ! (1 + (i + 2) div 8)) ((i + 2) mod 8)) [0..<3] = [False, True, False]"
  using binary_row_readable [of rt_plain "[GString ''a'', GNil, GInt64 7]"] number_formatting_decimal [of 7]
  by (simp add: dec_int_def dec_nat.simps upt_rec)

end
