(* ===== verification/Lexer.thy ===== *)
theory Lexer
  imports Values Utf8
begin

text \<open>
  \<^verbatim>\<open>src/parser/lexer.go\<close>: the SQL lexer. A rune is a natural number; \<open>decodeRune\<close> and \<open>encodeRune\<close> are
  \<^verbatim>\<open>utf8.DecodeRuneInString\<close> and \<^verbatim>\<open>strings.Builder.WriteRune\<close>. The state of the lexer is the unread rest of its
  input: \<^verbatim>\<open>l.input[l.pos:]\<close>; \<open>N\<close> is \<^verbatim>\<open>len(l.input)\<close>, so that \<^verbatim>\<open>l.pos\<close> is \<open>N - length rest\<close>. Shown are the
  termination of all scanners, the shape and the positions of a token list, and that string literals,
  identifiers and keywords are read as written.
\<close>

section \<open>Tokens\<close>

datatype TokenType =
    TokEOF | TokError | TokIdent | TokNumber | TokString | TokKeyword | TokOperator | TokComma | TokLParen | TokRParen
  | TokLBracket | TokRBracket | TokSemicolon | TokDot | TokStar | TokParameter

record Token =
  tok_Type :: TokenType
  tok_Value :: string
  tok_Pos :: nat

definition Token_String :: "Token \<Rightarrow> string" where
  "Token_String t =
     (case tok_Type t of
        TokEOF \<Rightarrow> ''EOF''
      | TokError \<Rightarrow> ''ERROR('' @ tok_Value t @ '')''
      | TokIdent \<Rightarrow> ''IDENT('' @ tok_Value t @ '')''
      | TokNumber \<Rightarrow> ''NUMBER('' @ tok_Value t @ '')''
      | TokString \<Rightarrow> ''STRING('' @ tok_Value t @ '')''
      | TokKeyword \<Rightarrow> ''KEYWORD('' @ tok_Value t @ '')''
      | TokOperator \<Rightarrow> ''OP('' @ tok_Value t @ '')''
      | TokComma \<Rightarrow> '','' | TokLParen \<Rightarrow> ''('' | TokRParen \<Rightarrow> '')'' | TokLBracket \<Rightarrow> ''['' | TokRBracket \<Rightarrow> '']''
      | TokSemicolon \<Rightarrow> '';'' | TokDot \<Rightarrow> ''.'' | TokStar \<Rightarrow> ''*''
      | TokParameter \<Rightarrow> ''PARAM('' @ tok_Value t @ '')'')"

definition sqlKeywords :: "string list" where
  "sqlKeywords =
    [''CREATE'', ''DROP'', ''ALTER'', ''TABLE'', ''INDEX'',
     ''SELECT'', ''INSERT'', ''UPDATE'', ''DELETE'', ''INTO'', ''VALUES'', ''SET'',
     ''FROM'', ''WHERE'', ''AND'', ''OR'', ''NOT'', ''ORDER'', ''BY'', ''GROUP'', ''HAVING'',
     ''LIMIT'', ''OFFSET'', ''ASC'', ''DESC'', ''DISTINCT'', ''ALL'',
     ''JOIN'', ''INNER'', ''LEFT'', ''RIGHT'', ''OUTER'', ''CROSS'', ''ON'', ''USING'',
     ''UNION'', ''INTERSECT'', ''EXCEPT'',
     ''SEQ'', ''INT'', ''INTEGER'', ''BIGINT'', ''SMALLINT'', ''FLOAT'', ''DOUBLE'', ''DECIMAL'', ''NUMERIC'',
     ''CHAR'', ''CHARACTER'', ''VARCHAR'', ''TEXT'', ''CLOB'', ''DATE'', ''TIME'', ''DATETIME'', ''TIMESTAMP'',
     ''BLOB'', ''BINARY'', ''FILE'', ''BOOLEAN'', ''BOOL'',
     ''PRIMARY'', ''KEY'', ''FOREIGN'', ''REFERENCES'', ''UNIQUE'', ''NULL'', ''DEFAULT'', ''CHECK'', ''CONSTRAINT'',
     ''AUTO_INCREMENT'', ''AUTOINCREMENT'',
     ''AS'', ''IN'', ''BETWEEN'', ''LIKE'', ''IS'', ''EXISTS'', ''CASE'', ''WHEN'', ''THEN'', ''ELSE'', ''END'',
     ''IF'', ''NULLIF'', ''COALESCE'', ''TRUE'', ''FALSE'',
     ''SHOW'', ''TABLES'', ''DATABASES'', ''COLUMNS'', ''DESCRIBE'', ''FULL'', ''VARIABLES'', ''STATUS'', ''WARNINGS'',
     ''GRANTS'', ''PROCESSLIST'', ''INDEXES'', ''GLOBAL'', ''SESSION'',
     ''FUNCTION'', ''PROCEDURE'', ''TRIGGERS'', ''TRIGGER'', ''COLLATION'', ''OPEN'', ''EVENTS'', ''EVENT'',
     ''ENGINES'', ''ENGINE'', ''KEYS'', ''USE'', ''DATABASE'', ''SCHEMA'', ''LOAD'', ''OUTFILE'', ''FOLDER'',
     ''BACKUP'', ''RESTORE'', ''USER'', ''PASSWORD'', ''LOG'', ''LEVEL'',
     ''BEGIN'', ''COMMIT'', ''ROLLBACK'', ''TRANSACTION'', ''START'',
     ''FULLTEXT'', ''MATCH'', ''AGAINST'', ''WITH'']"

section \<open>Reading runes\<close>

definition next_rune :: "string \<Rightarrow> rune \<times> string" where
  "next_rune s = (if s = [] then (0, []) else let (r, w) = decodeRune s in (r, drop w s))"

definition peek :: "string \<Rightarrow> rune" where
  "peek s = (if s = [] then 0 else fst (decodeRune s))"

definition skip_rune :: "string \<Rightarrow> string" where
  "skip_rune s = snd (next_rune s)"

definition peekAt :: "nat \<Rightarrow> string \<Rightarrow> rune" where
  "peekAt offset s = peek ((skip_rune ^^ offset) s)"

definition isLetter :: "rune \<Rightarrow> bool" where
  "isLetter r \<longleftrightarrow> (97 \<le> r \<and> r \<le> 122) \<or> (65 \<le> r \<and> r \<le> 90)"

definition isDigit :: "rune \<Rightarrow> bool" where
  "isDigit r \<longleftrightarrow> 48 \<le> r \<and> r \<le> 57"

lemma length_skip_rune: "s \<noteq> [] \<Longrightarrow> length (skip_rune s) < length s"
  using decodeRune_width [of s] by (cases "decodeRune s") (simp add: skip_rune_def next_rune_def)

lemma length_skip_rune_le: "length (skip_rune s) \<le> length s"
  using length_skip_rune [of s] by (cases "s = []") (auto simp: skip_rune_def next_rune_def)

lemma skip_rune_Nil [simp]: "skip_rune [] = []"
  by (simp add: skip_rune_def next_rune_def)

lemma peek_nonzero: "peek s \<noteq> 0 \<Longrightarrow> s \<noteq> []"
  by (auto simp: peek_def)

section \<open>Scanners\<close>

text \<open>
  The loop \<^verbatim>\<open>for { r := l.peek(); if !P(r) { break }; l.next() }\<close> that all scanners of runs use; at the end
  of the input the rune is 0, which none of the predicates accepts.
\<close>

function scanWhile :: "(rune \<Rightarrow> bool) \<Rightarrow> string \<Rightarrow> string" where
  "scanWhile P s = (if s \<noteq> [] \<and> P (peek s) then scanWhile P (skip_rune s) else s)"
  by pat_completeness auto
termination by (relation "measure (\<lambda>(P, s). length s)") (auto simp: length_skip_rune)

declare scanWhile.simps [simp del]

definition skipWhitespace :: "string \<Rightarrow> string" where
  "skipWhitespace s = scanWhile IsSpace s"

definition skipLineComment :: "string \<Rightarrow> string" where
  "skipLineComment s = scanWhile (\<lambda>r. r \<noteq> 0 \<and> r \<noteq> 10) s"

function blockLoop :: "string \<Rightarrow> string" where
  "blockLoop s =
     (if peek s = 0 then s
      else if peek s = 42 \<and> peekAt 1 s = 47 then skip_rune (skip_rune s)
      else blockLoop (skip_rune s))"
  by pat_completeness auto
termination by (relation "measure length") (auto simp: length_skip_rune peek_nonzero)

declare blockLoop.simps [simp del]

definition skipBlockComment :: "string \<Rightarrow> string" where
  "skipBlockComment s = blockLoop (skip_rune (skip_rune s))"

text \<open>\<^verbatim>\<open>l.input[l.start:l.pos]\<close> for a scan that started at \<open>s\<close> and left \<open>rest\<close>\<close>

definition scanned :: "string \<Rightarrow> string \<Rightarrow> string" where
  "scanned s rest = take (length s - length rest) s"

definition mkTok :: "nat \<Rightarrow> string \<Rightarrow> TokenType \<Rightarrow> string \<Rightarrow> Token" where
  "mkTok N s t v = \<lparr>tok_Type = t, tok_Value = v, tok_Pos = N - length s\<rparr>"

function backtickLoop :: "string \<Rightarrow> string \<Rightarrow> string option \<times> string" where
  "backtickLoop sb s =
     (if peek s = 0 then (None, s)
      else if peek s = 96 then (Some sb, skip_rune s)
      else backtickLoop (sb @ encodeRune (peek s)) (skip_rune s))"
  by pat_completeness auto
termination by (relation "measure (\<lambda>(sb, s). length s)") (auto simp: length_skip_rune peek_nonzero)

declare backtickLoop.simps [simp del]

definition scanBacktickIdent :: "nat \<Rightarrow> string \<Rightarrow> Token \<times> string" where
  "scanBacktickIdent N s =
     (case backtickLoop [] (skip_rune s) of
        (None, rest) \<Rightarrow> (mkTok N s TokError ''unterminated backtick identifier'', rest)
      | (Some v, rest) \<Rightarrow> (mkTok N s TokIdent v, rest))"

definition scanIdentOrKeyword :: "nat \<Rightarrow> string \<Rightarrow> Token \<times> string" where
  "scanIdentOrKeyword N s =
     (let rest = scanWhile (\<lambda>r. isLetter r \<or> isDigit r \<or> r = 95) s; v = scanned s rest; upper = map upper_ascii v
      in if upper \<in> set sqlKeywords then (mkTok N s TokKeyword upper, rest) else (mkTok N s TokIdent v, rest))"

function numberLoop :: "bool \<Rightarrow> bool \<Rightarrow> string \<Rightarrow> string" where
  "numberLoop hasDot hasExp s =
     (let r = peek s
      in if isDigit r then numberLoop hasDot hasExp (skip_rune s)
         else if r = 46 \<and> \<not> hasDot \<and> \<not> hasExp then numberLoop True hasExp (skip_rune s)
         else if (r = 101 \<or> r = 69) \<and> \<not> hasExp then
           (let s1 = skip_rune s; s2 = (if peek s1 = 43 \<or> peek s1 = 45 then skip_rune s1 else s1)
            in numberLoop hasDot True s2)
         else s)"
  by pat_completeness auto
termination
  by (relation "measure (\<lambda>(d, e, s). length s)")
     (auto simp: isDigit_def length_skip_rune peek_nonzero intro: le_less_trans [OF length_skip_rune_le])

declare numberLoop.simps [simp del]

definition scanNumber :: "nat \<Rightarrow> string \<Rightarrow> Token \<times> string" where
  "scanNumber N s = (let rest = numberLoop False False s in (mkTok N s TokNumber (scanned s rest), rest))"

datatype string_end = StringDone string | Unterminated | UnterminatedEscape

definition escapeText :: "rune \<Rightarrow> rune \<Rightarrow> string" where
  "escapeText quote escaped =
     (if escaped = 110 then [CHR 0x0A] else if escaped = 116 then [CHR 0x09] else if escaped = 114 then [CHR 0x0D]
      else if escaped = 92 then [CHR 0x5C] else if escaped = quote then encodeRune quote
      else CHR 0x5C # encodeRune escaped)"

function stringLoop :: "rune \<Rightarrow> string \<Rightarrow> string \<Rightarrow> string_end \<times> string" where
  "stringLoop quote sb s =
     (if peek s = 0 then (Unterminated, s)
      else if peek s = quote then
        (if peek (skip_rune s) = quote
         then stringLoop quote (sb @ encodeRune quote) (skip_rune (skip_rune s))
         else (StringDone sb, skip_rune s))
      else if peek s = 92 then
        (if peek (skip_rune s) = 0 then (UnterminatedEscape, skip_rune s)
         else stringLoop quote (sb @ escapeText quote (peek (skip_rune s))) (skip_rune (skip_rune s)))
      else stringLoop quote (sb @ encodeRune (peek s)) (skip_rune s))"
  by pat_completeness auto
termination
  by (relation "measure (\<lambda>(q, sb, s). length s)")
     (auto simp: length_skip_rune peek_nonzero intro: le_less_trans [OF length_skip_rune_le])

declare stringLoop.simps [simp del]

definition scanString :: "nat \<Rightarrow> string \<Rightarrow> Token \<times> string" where
  "scanString N s =
     (case next_rune s of
        (quote, s1) \<Rightarrow>
          (case stringLoop quote [] s1 of
             (Unterminated, rest) \<Rightarrow> (mkTok N s TokError ''unterminated string'', rest)
           | (UnterminatedEscape, rest) \<Rightarrow> (mkTok N s TokError ''unterminated escape sequence'', rest)
           | (StringDone v, rest) \<Rightarrow> (mkTok N s TokString v, rest)))"

definition scanParameter :: "nat \<Rightarrow> string \<Rightarrow> Token \<times> string" where
  "scanParameter N s =
     (let s1 = skip_rune s; rest = scanWhile isDigit s1
      in if length rest < length s1 then (mkTok N s TokParameter (scanned s rest), rest)
         else (mkTok N s TokIdent ''$'', rest))"

definition scanOperator :: "nat \<Rightarrow> string \<Rightarrow> Token \<times> string" where
  "scanOperator N s =
     (let (r, s1) = next_rune s; s2 = skip_rune s1; op = (\<lambda>v rest. (mkTok N s TokOperator v, rest))
      in if r = 61 then op ''='' s1
         else if r = 60 then
           (if peek s1 = 61 then op ''<='' s2 else if peek s1 = 62 then op ''<>'' s2
            else if peek s1 = 60 then op ''<<'' s2 else op ''<'' s1)
         else if r = 62 then
           (if peek s1 = 61 then op ''>='' s2 else if peek s1 = 62 then op ''>>'' s2 else op ''>'' s1)
         else if r = 33 then (if peek s1 = 61 then op ''!='' s2 else op ''!'' s1)
         else if r = 124 then (if peek s1 = 124 then op ''||'' s2 else op ''|'' s1)
         else if r = 43 then op ''+'' s1
         else if r = 45 then op ''-'' s1
         else if r = 47 then op ''/'' s1
         else if r = 37 then op ''%'' s1
         else op (encodeRune r) s1)"

definition scanSystemVariable :: "nat \<Rightarrow> string \<Rightarrow> Token \<times> string" where
  "scanSystemVariable N s =
     (let s1 = skip_rune s; s2 = (if peek s1 = 64 then skip_rune s1 else s1);
          rest = scanWhile (\<lambda>r. isLetter r \<or> isDigit r \<or> r = 95 \<or> r = 46) s2
      in (mkTok N s TokIdent (scanned s rest), rest))"

lemma length_scanWhile: "length (scanWhile P s) \<le> length s"
  by (induction P s rule: scanWhile.induct)
     (subst scanWhile.simps, auto intro: le_trans dest: length_skip_rune less_imp_le)

lemma length_blockLoop: "length (blockLoop s) \<le> length s"
  by (induction s rule: blockLoop.induct)
     (subst blockLoop.simps, auto intro: le_trans [OF _ length_skip_rune_le] length_skip_rune_le)

lemma length_scanWhile_less: "s \<noteq> [] \<Longrightarrow> P (peek s) \<Longrightarrow> length (scanWhile P s) < length s"
  using length_scanWhile [of P "skip_rune s"] length_skip_rune [of s] by (subst scanWhile.simps) simp

lemma length_skip2: "length (skip_rune (skip_rune s)) \<le> length (skip_rune s)"
  by (rule length_skip_rune_le)

lemma length_skip2_le: "length (skip_rune (skip_rune s)) \<le> length s"
  by (rule le_trans [OF length_skip_rune_le length_skip_rune_le])

lemma length_skipBlockComment: "s \<noteq> [] \<Longrightarrow> length (skipBlockComment s) < length s"
  using length_blockLoop [of "skip_rune (skip_rune s)"] length_skip2 [of s] length_skip_rune [of s]
  by (simp add: skipBlockComment_def)

text \<open>Every restart of \<^verbatim>\<open>NextToken\<close> behind a comment is on a shorter input.\<close>

lemma lexer_restart:
  assumes ne: "skipWhitespace s0 \<noteq> []"
  shows "length (skip_rune (skip_rune (skipWhitespace s0))) < length s0"
    "length (scanWhile isDigit (skip_rune (skip_rune (skip_rune (skipWhitespace s0))))) < length s0"
    "length (skipBlockComment (skipWhitespace s0)) < length s0"
    "peek (skipWhitespace s0) = 45 \<Longrightarrow> length (skipLineComment (skipWhitespace s0)) < length s0"
proof -
  let ?s = "skipWhitespace s0"
  have ws: "length ?s \<le> length s0" by (simp add: skipWhitespace_def length_scanWhile)
  have one: "length (skip_rune ?s) < length ?s" using ne by (rule length_skip_rune)
  note two = length_skip_rune_le [of "skip_rune ?s"] and three = length_skip_rune_le [of "skip_rune (skip_rune ?s)"]
  show "length (skip_rune (skip_rune ?s)) < length s0" using ws one two by linarith
  show "length (scanWhile isDigit (skip_rune (skip_rune (skip_rune ?s)))) < length s0"
    using ws one two three length_scanWhile [of isDigit "skip_rune (skip_rune (skip_rune ?s))"] by linarith
  show "length (skipBlockComment ?s) < length s0" using ws length_skipBlockComment [OF ne] by linarith
  assume "peek ?s = 45"
  then have "length (skipLineComment ?s) < length ?s"
    using ne by (simp add: skipLineComment_def length_scanWhile_less)
  then show "length (skipLineComment ?s) < length s0" using ws by linarith
qed

text \<open>\<^verbatim>\<open>NextToken\<close>: the switch on the next rune; comments are skipped by starting over behind them.\<close>

function NextToken :: "nat \<Rightarrow> string \<Rightarrow> Token \<times> string" where
  "NextToken N s0 =
     (let s = skipWhitespace s0; r = peek s; one = (\<lambda>t v. (mkTok N s t v, skip_rune s))
      in if s = [] then (mkTok N s TokEOF [], s)
         else if r = 0 then (mkTok N s TokEOF [], s)
         else if isLetter r \<or> r = 95 then scanIdentOrKeyword N s
         else if isDigit r then scanNumber N s
         else if r = 39 \<or> r = 34 then scanString N s
         else if r = 96 then scanBacktickIdent N s
         else if r = 63 then one TokParameter ''?''
         else if r = 36 then scanParameter N s
         else if r = 40 then one TokLParen ''(''
         else if r = 41 then one TokRParen '')''
         else if r = 91 then one TokLBracket ''[''
         else if r = 93 then one TokRBracket '']''
         else if r = 44 then one TokComma '',''
         else if r = 59 then one TokSemicolon '';''
         else if r = 46 then one TokDot ''.''
         else if r = 42 then
           (if peekAt 1 s = 47 then NextToken N (skip_rune (skip_rune s)) else one TokStar ''*'')
         else if r = 64 then scanSystemVariable N s
         else if r = 47 then
           (if peekAt 1 s = 42 then
              (if peekAt 2 s = 33
               then NextToken N (scanWhile isDigit (skip_rune (skip_rune (skip_rune s))))
               else NextToken N (skipBlockComment s))
            else scanOperator N s)
         else if r = 45 then
           (if peekAt 1 s = 45 then NextToken N (skipLineComment s) else scanOperator N s)
         else if r = 61 \<or> r = 60 \<or> r = 62 \<or> r = 33 \<or> r = 124 \<or> r = 43 \<or> r = 37 then scanOperator N s
         else one TokError (''unexpected character: '' @ encodeRune r))"
  by pat_completeness auto
termination
  by (relation "measure (\<lambda>(N, s). length s)") (auto simp: lexer_restart)

declare NextToken.simps [simp del]

text \<open>Every scanner consumes input.\<close>

lemma length_backtickLoop: "length (snd (backtickLoop sb s)) \<le> length s"
  by (induction sb s rule: backtickLoop.induct)
     (subst backtickLoop.simps, auto intro: le_trans [OF _ length_skip_rune_le] length_skip_rune_le)

lemma length_stringLoop: "length (snd (stringLoop q sb s)) \<le> length s"
  by (induction q sb s rule: stringLoop.induct)
     (subst stringLoop.simps,
      auto intro: le_trans [OF _ length_skip_rune_le] le_trans [OF _ length_skip2_le] length_skip_rune_le)

lemma length_numberLoop: "length (numberLoop d e s) \<le> length s"
proof (induction d e s rule: numberLoop.induct)
  case (1 d e s)
  then show ?case
    by (subst numberLoop.simps)
       (auto simp: Let_def intro: le_trans [OF _ length_skip_rune_le] le_trans [OF _ length_skip2_le])
qed

lemma length_numberLoop_less: "isDigit (peek s) \<Longrightarrow> length (numberLoop d e s) < length s"
proof -
  assume "isDigit (peek s)"
  then have "s \<noteq> []" by (auto simp: isDigit_def peek_def)
  with \<open>isDigit (peek s)\<close> show ?thesis
    using length_numberLoop [of d e "skip_rune s"] length_skip_rune [of s] by (subst numberLoop.simps) simp
qed

lemma scanner_consumes:
  assumes "s \<noteq> []"
  shows "isLetter (peek s) \<or> peek s = 95 \<Longrightarrow> length (snd (scanIdentOrKeyword N s)) < length s"
    "isDigit (peek s) \<Longrightarrow> length (snd (scanNumber N s)) < length s"
    "length (snd (scanString N s)) < length s" "length (snd (scanBacktickIdent N s)) < length s"
    "length (snd (scanParameter N s)) < length s" "length (snd (scanSystemVariable N s)) < length s"
    "length (snd (scanOperator N s)) < length s" "length (snd (next_rune s)) < length s"
proof -
  have one: "length (skip_rune s) < length s" using assms by (rule length_skip_rune)
  then show nr: "length (snd (next_rune s)) < length s" by (simp add: skip_rune_def)
  show "isLetter (peek s) \<or> peek s = 95 \<Longrightarrow> length (snd (scanIdentOrKeyword N s)) < length s"
    using assms by (auto simp: scanIdentOrKeyword_def Let_def intro!: length_scanWhile_less)
  show "isDigit (peek s) \<Longrightarrow> length (snd (scanNumber N s)) < length s"
    by (simp add: scanNumber_def Let_def length_numberLoop_less)
  show "length (snd (scanString N s)) < length s"
    using nr length_stringLoop by (auto simp: scanString_def split: prod.splits string_end.splits)
       (metis le_less_trans snd_conv)+
  show "length (snd (scanBacktickIdent N s)) < length s"
    using one length_backtickLoop [of "[]" "skip_rune s"] by (auto simp: scanBacktickIdent_def split: prod.splits option.splits)
  show "length (snd (scanParameter N s)) < length s"
    using one length_scanWhile [of isDigit "skip_rune s"] by (simp add: scanParameter_def Let_def)
  show "length (snd (scanSystemVariable N s)) < length s"
    using one length_skip_rune_le [of "skip_rune s"]
    by (auto simp: scanSystemVariable_def Let_def intro: le_less_trans [OF length_scanWhile])
  show "length (snd (scanOperator N s)) < length s"
    using nr length_skip_rune_le [of "snd (next_rune s)"]
    by (auto simp: scanOperator_def Let_def split: prod.splits)
qed

text \<open>
  An induction principle for \<^verbatim>\<open>NextToken\<close>: what holds at the end of the input, of a token of one rune and of the
  scanners, and carries over from the input behind a comment, holds of every call.
\<close>

lemma NextToken_rule:
  fixes Q :: "string \<Rightarrow> Token \<times> string \<Rightarrow> bool"
  assumes eof: "\<And>s0. Q s0 (mkTok N (skipWhitespace s0) TokEOF [], skipWhitespace s0)"
    and one: "\<And>s0 t v. skipWhitespace s0 \<noteq> [] \<Longrightarrow> t \<noteq> TokOperator
      \<Longrightarrow> Q s0 (mkTok N (skipWhitespace s0) t v, skip_rune (skipWhitespace s0))"
    and scan: "\<And>s0 s. s = skipWhitespace s0 \<Longrightarrow> s \<noteq> [] \<Longrightarrow> isLetter (peek s) \<or> peek s = 95 \<Longrightarrow> Q s0 (scanIdentOrKeyword N s)"
      "\<And>s0 s. s = skipWhitespace s0 \<Longrightarrow> s \<noteq> [] \<Longrightarrow> isDigit (peek s) \<Longrightarrow> Q s0 (scanNumber N s)"
      "\<And>s0 s. s = skipWhitespace s0 \<Longrightarrow> s \<noteq> [] \<Longrightarrow> Q s0 (scanString N s)"
      "\<And>s0 s. s = skipWhitespace s0 \<Longrightarrow> s \<noteq> [] \<Longrightarrow> Q s0 (scanBacktickIdent N s)"
      "\<And>s0 s. s = skipWhitespace s0 \<Longrightarrow> s \<noteq> [] \<Longrightarrow> Q s0 (scanParameter N s)"
      "\<And>s0 s. s = skipWhitespace s0 \<Longrightarrow> s \<noteq> [] \<Longrightarrow> Q s0 (scanSystemVariable N s)"
      "\<And>s0 s. s = skipWhitespace s0 \<Longrightarrow> s \<noteq> [] \<Longrightarrow> peek s \<in> {61, 60, 62, 33, 124, 43, 37, 45, 47} \<Longrightarrow> Q s0 (scanOperator N s)"
    and restart: "\<And>s0 s. length s < length s0 \<Longrightarrow> Q s (NextToken N s) \<Longrightarrow> Q s0 (NextToken N s)"
  shows "Q s0 (NextToken N s0)"
proof (induction "length s0" arbitrary: s0 rule: less_induct)
  case less
  have if_Q: "(c \<Longrightarrow> Q s0 a) \<Longrightarrow> (\<not> c \<Longrightarrow> Q s0 b) \<Longrightarrow> Q s0 (if c then a else b)" for c a b by simp
  have again: "length s < length s0 \<Longrightarrow> Q s0 (NextToken N s)" for s by (rule restart) (auto intro: less)
  have op: "c \<in> {61, 60, 62, 33, 124, 43, 37, 45, 47} \<Longrightarrow> skipWhitespace s0 \<noteq> [] \<Longrightarrow> peek (skipWhitespace s0) = c
      \<Longrightarrow> Q s0 (scanOperator N (skipWhitespace s0))" for c
    by (rule scan(7)) auto
  show ?case
    apply (subst NextToken.simps)
    apply (unfold Let_def)
    apply (intro if_Q)
    apply ((rule eof | (rule one; (assumption | simp)) | (rule scan(1-6) [OF refl]; assumption)
          | (rule again; rule lexer_restart; assumption) | (rule scan(7) [OF refl]; (assumption | simp))))+
    done
qed

definition fresh_token :: "nat \<Rightarrow> string \<Rightarrow> Token \<Rightarrow> string \<Rightarrow> bool" where
  "fresh_token N s0 t rest \<longleftrightarrow>
     (\<exists>k. tok_Pos t = N - k \<and> k \<le> length s0 \<and> length rest \<le> k \<and> (tok_Type t \<noteq> TokEOF \<longrightarrow> length rest < k))"

lemma fresh_mkTok:
  "length s \<le> length s0 \<Longrightarrow> length rest < length s \<Longrightarrow> fresh_token N s0 (mkTok N s t v) rest"
  by (auto simp: fresh_token_def mkTok_def intro!: exI [of _ "length s"])

lemma scanner_pos:
  "tok_Pos (fst (scanIdentOrKeyword N s)) = N - length s" "tok_Pos (fst (scanNumber N s)) = N - length s"
  "tok_Pos (fst (scanString N s)) = N - length s" "tok_Pos (fst (scanBacktickIdent N s)) = N - length s"
  "tok_Pos (fst (scanParameter N s)) = N - length s" "tok_Pos (fst (scanSystemVariable N s)) = N - length s"
  "tok_Pos (fst (scanOperator N s)) = N - length s"
  by (simp_all add: scanIdentOrKeyword_def scanNumber_def scanString_def scanBacktickIdent_def scanParameter_def
      scanSystemVariable_def scanOperator_def mkTok_def Let_def split: prod.split option.split string_end.split)

lemma fresh_scanner:
  "length s \<le> length s0 \<Longrightarrow> tok_Pos (fst p) = N - length s \<Longrightarrow> length (snd p) < length s
   \<Longrightarrow> fresh_token N s0 (fst p) (snd p)"
  by (auto simp: fresh_token_def intro!: exI [of _ "length s"])

lemma fresh_token_mono:
  "fresh_token N s t rest \<Longrightarrow> length s < length s0 \<Longrightarrow> fresh_token N s0 t rest"
  by (fastforce simp: fresh_token_def)

lemma length_skipWhitespace: "length (skipWhitespace s) \<le> length s"
  by (simp add: skipWhitespace_def length_scanWhile)

lemma NextToken_fresh: "fresh_token N s0 (fst (NextToken N s0)) (snd (NextToken N s0))"
proof (rule NextToken_rule [where Q = "\<lambda>s0 p. fresh_token N s0 (fst p) (snd p)"])
  show "fresh_token N s (fst (mkTok N (skipWhitespace s) TokEOF [], skipWhitespace s))
      (snd (mkTok N (skipWhitespace s) TokEOF [], skipWhitespace s))" for s
    using length_skipWhitespace [of s]
    by (auto simp: fresh_token_def mkTok_def intro!: exI [of _ "length (skipWhitespace s)"])
  show "skipWhitespace s \<noteq> [] \<Longrightarrow> fresh_token N s (fst (mkTok N (skipWhitespace s) t v, skip_rune (skipWhitespace s)))
      (snd (mkTok N (skipWhitespace s) t v, skip_rune (skipWhitespace s)))" for s t v
    using fresh_mkTok [OF length_skipWhitespace length_skip_rune] by simp
qed (auto simp: scanner_pos scanner_consumes intro: fresh_scanner [OF length_skipWhitespace] fresh_token_mono)

section \<open>The token list\<close>

function tokenizeFrom :: "nat \<Rightarrow> string \<Rightarrow> Token list" where
  "tokenizeFrom N s =
     (case NextToken N s of
        (t, rest) \<Rightarrow> if tok_Type t = TokEOF \<or> tok_Type t = TokError then [t] else t # tokenizeFrom N rest)"
  by pat_completeness auto
termination
proof (relation "measure (\<lambda>(N, s). length s)")
  fix N s t rest
  assume "(t, rest) = NextToken N s" "\<not> (tok_Type t = TokEOF \<or> tok_Type t = TokError)"
  with NextToken_fresh [of N s] show "((N, rest), N, s) \<in> measure (\<lambda>(N, s). length s)"
    by (auto simp: fresh_token_def dest: sym)
qed auto

declare tokenizeFrom.simps [simp del]

definition Tokenize :: "string \<Rightarrow> Token list" where
  "Tokenize input = tokenizeFrom (length input) input"

text \<open>
  \<^verbatim>\<open>Tokenize\<close> returns for every input: the list is not empty, its last token and no other is of type
  \<^verbatim>\<open>TokEOF\<close> or \<^verbatim>\<open>TokError\<close>, the positions of the tokens increase strictly and lie within the input.
\<close>
theorem tokenize_shape:
  "Tokenize input \<noteq> [] \<and>
   list_all (\<lambda>t. tok_Type t \<noteq> TokEOF \<and> tok_Type t \<noteq> TokError) (butlast (Tokenize input)) \<and>
   tok_Type (last (Tokenize input)) \<in> {TokEOF, TokError} \<and>
   sorted_wrt (<) (map tok_Pos (Tokenize input)) \<and> list_all (\<lambda>t. tok_Pos t \<le> length input) (Tokenize input)"
proof -
  have "tokenizeFrom N s \<noteq> [] \<and>
     list_all (\<lambda>t. tok_Type t \<noteq> TokEOF \<and> tok_Type t \<noteq> TokError) (butlast (tokenizeFrom N s)) \<and>
     tok_Type (last (tokenizeFrom N s)) \<in> {TokEOF, TokError} \<and>
     sorted_wrt (<) (map tok_Pos (tokenizeFrom N s)) \<and>
     (\<forall>t \<in> set (tokenizeFrom N s). N - length s \<le> tok_Pos t \<and> tok_Pos t \<le> N)" if "length s \<le> N" for N s
    using that
  proof (induction N s rule: tokenizeFrom.induct)
    case (1 N s)
    obtain t rest where nt: "NextToken N s = (t, rest)" by (cases "NextToken N s")
    obtain k where k: "tok_Pos t = N - k" "k \<le> length s" "length rest \<le> k" "tok_Type t \<noteq> TokEOF \<Longrightarrow> length rest < k"
      using NextToken_fresh [of N s] nt by (auto simp: fresh_token_def)
    show ?case
    proof (cases "tok_Type t = TokEOF \<or> tok_Type t = TokError")
      case True
      then have "tokenizeFrom N s = [t]" by (subst tokenizeFrom.simps) (simp add: nt)
      with True k show ?thesis by auto
    next
      case False
      then have eq: "tokenizeFrom N s = t # tokenizeFrom N rest" by (subst tokenizeFrom.simps) (simp add: nt)
      have "length rest \<le> N" using k 1(2) by linarith
      note IH = 1(1) [OF nt [symmetric] False this]
      from IH have later: "\<forall>u \<in> set (tokenizeFrom N rest). tok_Pos t < tok_Pos u \<and> tok_Pos u \<le> N"
        using k False 1(2) by fastforce
      with IH k False show ?thesis unfolding eq by fastforce
    qed
  qed
  from this [OF order_refl] show ?thesis unfolding Tokenize_def by (auto simp: list_all_iff)
qed

section \<open>Literals and words\<close>

lemma read_encoded:
  assumes "valid_rune r"
  shows "peek (encodeRune r @ t) = r" "skip_rune (encodeRune r @ t) = t" "next_rune (encodeRune r @ t) = (r, t)"
  using decode_encode [OF assms, of t] by (simp_all add: peek_def skip_rune_def next_rune_def)

text \<open>An SQL literal that denotes a list of runes: quotes and backslashes are doubled.\<close>

definition quoteRune :: "rune \<Rightarrow> rune \<Rightarrow> string" where
  "quoteRune q r = (if r = q \<or> r = 92 then encodeRune r @ encodeRune r else encodeRune r)"

definition quoteText :: "rune \<Rightarrow> rune list \<Rightarrow> string" where
  "quoteText q rs = encodeRune q @ concat (map (quoteRune q) rs) @ encodeRune q"

definition literal_rune :: "rune \<Rightarrow> bool" where
  "literal_rune r \<longleftrightarrow> valid_rune r \<and> r \<noteq> 0"

lemma quote_valid: "q \<in> {39, 34} \<Longrightarrow> valid_rune q \<and> q \<noteq> 0 \<and> q \<noteq> 92"
  by (auto simp: valid_rune_def)

lemma stringLoop_quoted:
  assumes "q \<in> {39, 34}" "list_all literal_rune rs" "peek rest \<noteq> q"
  shows "stringLoop q sb (concat (map (quoteRune q) rs) @ encodeRune q @ rest) = (StringDone (sb @ textOf rs), rest)"
  using assms(2)
proof (induction rs arbitrary: sb)
  case Nil
  show ?case
    using assms(3) quote_valid [OF assms(1)]
    by (simp, subst stringLoop.simps) (simp add: read_encoded textOf_def)
next
  case (Cons r rs)
  note q = quote_valid [OF assms(1)]
  from Cons.prems have r: "valid_rune r" "r \<noteq> 0" and rs: "list_all literal_rune rs"
    by (simp_all add: literal_rune_def [of r])
  note IH = Cons.IH [OF rs]
  define tail where "tail = concat (map (quoteRune q) rs) @ encodeRune q @ rest"
  note IH = IH [folded tail_def]
  have "char_of (92 :: nat) = CHR 0x5C" by (simp add: char_of_eq_iff)
  then have bs: "escapeText q 92 = encodeRune 92" by (simp add: escapeText_def encodeRune_def)
  consider "r = q" | "r \<noteq> q" "r = 92" | "r \<noteq> q" "r \<noteq> 92" by blast
  then have "stringLoop q sb (quoteRune q r @ tail) = (StringDone (sb @ textOf (r # rs)), rest)"
  proof cases
    case 1
    then show ?thesis
      using r q by (subst stringLoop.simps) (simp add: quoteRune_def read_encoded IH textOf_def)
  next
    case 2
    then show ?thesis
      using r q bs by (subst stringLoop.simps) (simp add: quoteRune_def read_encoded IH textOf_def)
  next
    case 3
    then show ?thesis
      using r q by (subst stringLoop.simps) (simp add: quoteRune_def read_encoded IH textOf_def)
  qed
  then show ?case by (simp add: tail_def)
qed

lemma skipWhitespace_stop: "\<not> IsSpace (peek s) \<Longrightarrow> skipWhitespace s = s"
  by (simp add: skipWhitespace_def scanWhile.simps)

lemma NextToken_quoted:
  assumes "q \<in> {39, 34}" "list_all literal_rune rs" "peek rest \<noteq> q"
  shows "NextToken N (quoteText q rs @ rest)
    = (\<lparr>tok_Type = TokString, tok_Value = textOf rs, tok_Pos = N - length (quoteText q rs @ rest)\<rparr>, rest)"
proof -
  let ?s = "quoteText q rs @ rest"
  have eq: "?s = encodeRune q @ concat (map (quoteRune q) rs) @ encodeRune q @ rest" by (simp add: quoteText_def)
  have nr: "next_rune ?s = (q, concat (map (quoteRune q) rs) @ encodeRune q @ rest)" and pk: "peek ?s = q"
    unfolding eq using quote_valid [OF assms(1)] by (simp_all add: read_encoded)
  have ws: "skipWhitespace ?s = ?s" using assms(1) by (intro skipWhitespace_stop) (auto simp: pk IsSpace_def)
  have ne: "quoteText q rs \<noteq> []" by (simp add: quoteText_def)
  have "NextToken N ?s = scanString N ?s"
    using assms(1) by (subst NextToken.simps) (auto simp: ws pk Let_def isLetter_def isDigit_def ne)
  also have "\<dots> = (mkTok N ?s TokString (textOf rs), rest)"
    by (simp add: scanString_def nr stringLoop_quoted [OF assms])
  finally show ?thesis by (simp add: mkTok_def)
qed

text \<open>
  C35. A quoted string is read as the text it denotes: for either quote and any runes other than 0, the literal
  with its quotes and backslashes doubled is one token of type \<^verbatim>\<open>TokString\<close> with exactly that text, whatever
  follows it except a further quote, and the lexer goes on behind the closing quote.
\<close>
theorem string_literal_roundtrip:
  assumes "q \<in> {39, 34}" "list_all literal_rune rs" "peek rest \<noteq> q"
  shows "NextToken N (quoteText q rs @ rest)
    = (\<lparr>tok_Type = TokString, tok_Value = textOf rs, tok_Pos = N - length (quoteText q rs @ rest)\<rparr>, rest)"
  using assms by (rule NextToken_quoted)

theorem string_literal_roundtrip_witness:
  "list_all literal_rune [73, 116, 39, 115, 0xE9, 92, 0x1F600] \<and>
   NextToken 0 (quoteText 39 [73, 116, 39, 115, 0xE9, 92, 0x1F600] @ '';'')
    = (\<lparr>tok_Type = TokString, tok_Value = textOf [73, 116, 39, 115, 0xE9, 92, 0x1F600], tok_Pos = 0\<rparr>, '';'')"
  using string_literal_roundtrip [of 39 "[73, 116, 39, 115, 0xE9, 92, 0x1F600]" "'';''" 0]
  by (simp add: literal_rune_def valid_rune_def peek_def decodeRune_def chr_code_def)

text \<open>Words: letters, digits and underscores, not beginning with a digit\<close>

definition word_rune :: "rune \<Rightarrow> bool" where
  "word_rune r \<longleftrightarrow> isLetter r \<or> isDigit r \<or> r = 95"

definition is_word :: "string \<Rightarrow> bool" where
  "is_word w \<longleftrightarrow> w \<noteq> [] \<and> list_all (\<lambda>c. word_rune (chr_code c)) w \<and> \<not> isDigit (chr_code (hd w))"

lemma read_ascii:
  assumes "chr_code c < 0x80"
  shows "peek (c # s) = chr_code c" "skip_rune (c # s) = s"
  using assms by (simp_all add: peek_def skip_rune_def next_rune_def decodeRune_def Let_def)

lemma word_rune_ascii: "word_rune r \<Longrightarrow> r < 0x80"
  by (auto simp: word_rune_def isLetter_def isDigit_def)

lemma scanWhile_word:
  "list_all (\<lambda>c. word_rune (chr_code c)) w \<Longrightarrow> \<not> word_rune (peek rest) \<Longrightarrow> scanWhile word_rune (w @ rest) = rest"
  by (induction w) (simp_all add: scanWhile.simps [of word_rune] read_ascii word_rune_ascii)

text \<open>
  A word that is not followed by a letter, a digit or an underscore is one token: a keyword, in upper case, when
  its upper-case form is in the table of keywords, and an identifier as written otherwise.
\<close>
theorem word_token:
  assumes "is_word w" "\<not> word_rune (peek rest)"
  shows "NextToken N (w @ rest) =
    ((if map upper_ascii w \<in> set sqlKeywords
      then \<lparr>tok_Type = TokKeyword, tok_Value = map upper_ascii w, tok_Pos = N - length (w @ rest)\<rparr>
      else \<lparr>tok_Type = TokIdent, tok_Value = w, tok_Pos = N - length (w @ rest)\<rparr>), rest)"
proof -
  let ?s = "w @ rest"
  obtain c w' where w: "w = c # w'" "word_rune (chr_code c)" "\<not> isDigit (chr_code c)"
    using assms(1) by (cases w) (auto simp: is_word_def)
  have pk: "peek ?s = chr_code c" using w word_rune_ascii by (simp add: read_ascii)
  have head: "isLetter (chr_code c) \<or> chr_code c = 95" using w by (auto simp: word_rune_def)
  then have ws: "skipWhitespace ?s = ?s" by (intro skipWhitespace_stop) (auto simp: pk IsSpace_def isLetter_def)
  have ne: "w \<noteq> []" using w(1) by simp
  have nz: "chr_code c \<noteq> 0" using head by (auto simp: isLetter_def)
  have "NextToken N ?s = scanIdentOrKeyword N ?s"
    using head nz ne by (subst NextToken.simps) (simp add: ws pk Let_def)
  moreover have "scanWhile (\<lambda>r. isLetter r \<or> isDigit r \<or> r = 95) ?s = rest"
    using scanWhile_word [of w rest] assms by (simp add: is_word_def word_rune_def [abs_def])
  ultimately show ?thesis by (simp add: scanIdentOrKeyword_def scanned_def mkTok_def Let_def)
qed

lemma sample_words:
  "map upper_ascii ''Select'' = ''SELECT''" "map upper_ascii ''id1'' = ''ID1''"
  "''SELECT'' \<in> set sqlKeywords" "''ID1'' \<notin> set sqlKeywords"
  by code_simp+

theorem word_token_witness:
  "is_word ''Select'' \<and> fst (NextToken 8 (''Select'' @ '' *'')) = \<lparr>tok_Type = TokKeyword, tok_Value = ''SELECT'', tok_Pos = 0\<rparr>
   \<and> fst (NextToken 3 (''id1'' @ [])) = \<lparr>tok_Type = TokIdent, tok_Value = ''id1'', tok_Pos = 0\<rparr>"
  using word_token [of "''Select''" "'' *''" 8] word_token [of "''id1''" "[]" 3]
  unfolding sample_words
  by (simp add: is_word_def word_rune_def isLetter_def isDigit_def chr_code_def peek_def decodeRune_def sample_words(3,4))

definition operatorValues :: "string list" where
  "operatorValues = [''='', ''<'', ''<='', ''<>'', ''<<'', ''>'', ''>='', ''>>'', ''!'', ''!='', ''|'', ''||'', ''+'', ''-'', ''/'', ''%'']"

lemma fst_next_rune: "fst (next_rune s) = peek s"
  by (simp add: next_rune_def peek_def split: prod.split)

lemma scanOperator_value:
  "peek s \<in> {61, 60, 62, 33, 124, 43, 37, 45, 47} \<Longrightarrow> tok_Value (fst (scanOperator N s)) \<in> set operatorValues"
  using fst_next_rune [of s]
  by (auto simp: scanOperator_def Let_def operatorValues_def mkTok_def split: prod.split)

lemma scanner_type:
  "tok_Type (fst (scanIdentOrKeyword N s)) \<noteq> TokOperator" "tok_Type (fst (scanNumber N s)) \<noteq> TokOperator"
  "tok_Type (fst (scanString N s)) \<noteq> TokOperator" "tok_Type (fst (scanBacktickIdent N s)) \<noteq> TokOperator"
  "tok_Type (fst (scanParameter N s)) \<noteq> TokOperator" "tok_Type (fst (scanSystemVariable N s)) \<noteq> TokOperator"
  by (simp_all add: scanIdentOrKeyword_def scanNumber_def scanString_def scanBacktickIdent_def scanParameter_def
      scanSystemVariable_def mkTok_def Let_def split: prod.split option.split string_end.split)

lemma NextToken_operator:
  "tok_Type (fst (NextToken N s)) = TokOperator \<longrightarrow> tok_Value (fst (NextToken N s)) \<in> set operatorValues"
  by (rule NextToken_rule [where Q = "\<lambda>s p. tok_Type (fst p) = TokOperator \<longrightarrow> tok_Value (fst p) \<in> set operatorValues"])
     (simp_all add: mkTok_def scanner_type scanOperator_value)

text \<open>
  The operator tokens of any input are these sixteen; the star is always a \<^verbatim>\<open>TokStar\<close>, so that the case
  \<^verbatim>\<open>TokOperator\<close> with value \<^verbatim>\<open>*\<close> of the expression parser is never reached.
\<close>
theorem operator_tokens:
  "tok_Value ` {t \<in> set (Tokenize input). tok_Type t = TokOperator} \<subseteq> set operatorValues \<and> ''*'' \<notin> set operatorValues"
proof -
  have "t \<in> set (tokenizeFrom N s) \<Longrightarrow> tok_Type t = TokOperator \<Longrightarrow> tok_Value t \<in> set operatorValues" for t N s
  proof (induction N s rule: tokenizeFrom.induct)
    case (1 N s)
    then show ?case
      using NextToken_operator [of N s]
      by (cases "NextToken N s") (auto simp: tokenizeFrom.simps [of N s] split: if_splits)
  qed
  then show ?thesis by (auto simp: Tokenize_def operatorValues_def)
qed


end
