(* ===== verification/Server.thy ===== *)
theory Server
  imports Protocol Auth Lexer
begin

text \<open>
  \<^verbatim>\<open>src/mysql/server.go\<close>: the MySQL server, one client connection at a time. A session is the client's record, the bytes
  the client has sent and that are not yet read, the writer with the bytes sent to the client, and the state of the
  server. The engine behind the server is a parameter: a function that executes a statement text on
  the engine's state, and one that gives the credentials. RSA key generation and the log lines on the console are
  left out.
\<close>

section \<open>Types\<close>

definition ProtocolVersion :: byte where "ProtocolVersion = 10"

definition AUTH_PLUGIN_NAME :: string where "AUTH_PLUGIN_NAME = ''mysql_native_password''"
definition AUTH_PLUGIN_CACHING_SHA2 :: string where "AUTH_PLUGIN_CACHING_SHA2 = ''caching_sha2_password''"

abbreviation CLIENT_CONNECT_WITH_DB :: u32 where "CLIENT_CONNECT_WITH_DB \<equiv> 0x00000008"
abbreviation CLIENT_PLUGIN_AUTH :: u32 where "CLIENT_PLUGIN_AUTH \<equiv> 0x00080000"
abbreviation DEFAULT_CAPABILITIES :: u32 where "DEFAULT_CAPABILITIES \<equiv> 0x003fa285"
abbreviation MYSQL_TYPE_VAR_STRING :: byte where "MYSQL_TYPE_VAR_STRING \<equiv> 0xfd"

record paramDesc =
  pd_typ :: byte
  pd_signed :: bool

record preparedStatement =
  ps_id :: u32
  ps_query :: string
  ps_numParams :: nat
  ps_params :: "paramDesc list"

record clientConn =
  cl_salt :: bytes
  cl_capability :: u32
  cl_charset :: byte
  cl_username :: string
  cl_database :: string
  cl_authSeq :: byte
  cl_statements :: "(u32, preparedStatement) gomap"

text \<open>What the server uses of \<^verbatim>\<open>executor.Engine\<close>\<close>

record 'e engine_api =
  Execute :: "'e \<Rightarrow> string \<Rightarrow> 'e \<times> (string + Result)"
  GetAuth :: "'e \<Rightarrow> Auth"

record 'e Server =
  srv_engine :: 'e
  srv_serverID :: u32
  srv_version :: string
  srv_charset :: byte
  srv_capability :: u32
  srv_requireAuth :: bool
  srv_stmtIDCounter :: u32
  srv_now :: int

record Config =
  cfg_Addr :: string
  cfg_Version :: string
  cfg_ServerID :: u32
  cfg_Charset :: byte
  cfg_RequireAuth :: bool

text \<open>\<^verbatim>\<open>random\<close> is the word read from the random source when the configuration has no server id.\<close>

definition NewServer :: "'e \<Rightarrow> Config \<Rightarrow> u32 \<Rightarrow> int \<Rightarrow> 'e Server" where
  "NewServer engine conf random now =
     \<lparr>srv_engine = engine, srv_serverID = (if cfg_ServerID conf = 0 then random else cfg_ServerID conf),
      srv_version = (if cfg_Version conf = [] then ''5.7.42'' else cfg_Version conf),
      srv_charset = (if cfg_Charset conf = 0 then 33 else cfg_Charset conf), srv_capability = DEFAULT_CAPABILITIES,
      srv_requireAuth = cfg_RequireAuth conf, srv_stmtIDCounter = 0, srv_now = now\<rparr>"

record 'e session =
  s_client :: clientConn
  s_in :: bytes
  s_w :: PacketWriter
  s_server :: "'e Server"

text \<open>Errors of the login: the texts the code formats, and failures of the connection under such a text\<close>

datatype login_error = LError string | LNet string proto_error

fun proto_error_text :: "proto_error \<Rightarrow> string" where
  "proto_error_text PEOF = ''EOF''"
| "proto_error_text PUnexpectedEOF = ''unexpected EOF''"
| "proto_error_text PWrite = ''write failed''"
| "proto_error_text PPanic = ''panic''"

fun Error :: "login_error \<Rightarrow> string" where
  "Error (LError s) = s"
| "Error (LNet s e) = s @ '': '' @ proto_error_text e"

definition accessDenied :: "clientConn \<Rightarrow> string \<Rightarrow> login_error" where
  "accessDenied client suffix = LError (''access denied for user '' @ [CHR 0x27] @ cl_username client @ [CHR 0x27] @ suffix)"

text \<open>Writes whose error the code drops, reads from the connection\<close>

definition tell :: "unit pw_method \<Rightarrow> PacketWriter \<Rightarrow> PacketWriter" where
  "tell m w = fst (m w)"

definition tells :: "unit pw_method list \<Rightarrow> PacketWriter \<Rightarrow> PacketWriter" where
  "tells ms w = fold tell ms w"

definition NewPacketWriter :: "byte \<Rightarrow> PacketWriter \<Rightarrow> PacketWriter" where
  "NewPacketWriter sequence w = w\<lparr>pw_sequence := sequence\<rparr>"

section \<open>The handshake and the login\<close>

definition handshakePayload :: "'e Server \<Rightarrow> bytes \<Rightarrow> bytes" where
  "handshakePayload s salt =
     [ProtocolVersion] @ bytes_of (srv_version s) @ [0] @ le_bytes 4 (srv_serverID s) @ take 8 salt @ [0]
     @ le_bytes 2 (srv_capability s) @ [srv_charset s] @ [0x00, 0x00] @ le_bytes 2 (drop_bit 16 (srv_capability s))
     @ [21] @ replicate 10 0 @ drop 8 salt @ [0] @ bytes_of AUTH_PLUGIN_NAME @ [0]"

definition sendHandshake :: "'e session \<Rightarrow> 'e session \<times> (proto_error + unit)" where
  "sendHandshake s =
     (case WritePacket (handshakePayload (s_server s) (cl_salt (s_client s))) (NewPacketWriter 0 (s_w s)) of
        (w, r) \<Rightarrow> (s\<lparr>s_w := w\<rparr>, r))"

definition verifyMysqlNativePasswordWithSha1 :: "bytes \<Rightarrow> bytes \<Rightarrow> bytes \<Rightarrow> bool" where
  "verifyMysqlNativePasswordWithSha1 authResponse salt sha1Password =
     (if length authResponse \<noteq> 20 \<or> length salt \<noteq> 20 \<or> length sha1Password \<noteq> 20 then False
      else let sha1Sha1Password = sha1 sha1Password; sha1SaltSha1 = sha1 (salt @ sha1Sha1Password);
               expected = map (\<lambda>i. authResponse ! i XOR sha1SaltSha1 ! i) [0..<20]
           in list_all (\<lambda>i. expected ! i = sha1Password ! i) [0..<20])"

definition verifyMysqlNativePassword :: "bytes \<Rightarrow> bytes \<Rightarrow> string \<Rightarrow> bool" where
  "verifyMysqlNativePassword authResponse salt password =
     (if length authResponse \<noteq> 20 \<or> length salt \<noteq> 20 then False
      else if password = [] then authResponse = []
      else let sha1Password = sha1 (bytes_of password); sha1Sha1Password = sha1 sha1Password;
               sha1SaltSha1 = sha1 (salt @ sha1Sha1Password);
               expected = map (\<lambda>i. authResponse ! i XOR sha1SaltSha1 ! i) [0..<20]
           in list_all (\<lambda>i. expected ! i = sha1Password ! i) [0..<20])"

definition verifyCachingSha2Password :: "bytes \<Rightarrow> bytes \<Rightarrow> string \<Rightarrow> bool" where
  "verifyCachingSha2Password authResponse salt password =
     (if length authResponse \<noteq> 32 then False
      else if password = [] then authResponse = []
      else let h1 = sha256 (bytes_of password); h2 = sha256 h1; h3 = sha256 (h2 @ salt);
               recovered = map (\<lambda>i. authResponse ! i XOR h3 ! i) [0..<32]
           in sha256 recovered = h2)"

definition computeCachingSha2Token :: "bytes \<Rightarrow> bytes \<Rightarrow> bytes" where
  "computeCachingSha2Token password salt =
     (let h1 = sha256 password; h2 = sha256 h1; h3 = sha256 (h2 @ salt) in map (\<lambda>i. h1 ! i XOR h3 ! i) [0..<32])"

definition equalBytes :: "bytes \<Rightarrow> bytes \<Rightarrow> bool" where
  "equalBytes a b \<longleftrightarrow> length a = length b \<and> list_all (\<lambda>i. a ! i = b ! i) [0..<length a]"

definition switchPayload :: "bytes \<Rightarrow> bytes" where
  "switchPayload salt = [0xfe] @ bytes_of AUTH_PLUGIN_NAME @ [0] @ salt @ [0]"

definition sendAuthSwitchRequest :: "'e engine_api \<Rightarrow> 'e session \<Rightarrow> 'e session \<times> (login_error + unit)" where
  "sendAuthSwitchRequest api s =
     (case WritePacket (switchPayload (cl_salt (s_client s))) (NewPacketWriter 2 (s_w s)) of
        (w, Inl e) \<Rightarrow> (s\<lparr>s_w := w\<rparr>, Inl (LNet ''failed to send auth switch request'' e))
      | (w, Inr _) \<Rightarrow>
          let s = s\<lparr>s_w := w\<rparr>
          in case ReadPacket (s_in s) of
               Inl e \<Rightarrow> (s, Inl (LNet ''failed to read auth switch response'' e))
             | Inr (newAuthData, rest) \<Rightarrow>
                 let client = (s_client s)\<lparr>cl_authSeq := 4\<rparr>; s = s\<lparr>s_in := rest, s_client := client\<rparr>;
                     auth = GetAuth api (srv_engine (s_server s))
                 in if \<not> IsEnabled auth then (s, Inr ())
                    else if GetUsername auth \<noteq> [] \<and> cl_username client \<noteq> GetUsername auth
                    then (s, Inl (accessDenied client []))
                    else case GetMySQLSha1 auth of
                           Some mysqlSha1 \<Rightarrow>
                             if verifyMysqlNativePasswordWithSha1 newAuthData (cl_salt client) mysqlSha1 then (s, Inr ())
                             else (s, Inl (accessDenied client '' (invalid password)''))
                         | None \<Rightarrow> (s, Inr ()))"

text \<open>\<^verbatim>\<open>data[offset:end]\<close> up to the next zero byte, and the offset after that byte\<close>

definition nulTerminated :: "bytes \<Rightarrow> nat \<Rightarrow> string \<times> nat" where
  "nulTerminated data offset = (let s = takeWhile (\<lambda>b. b \<noteq> 0) (drop offset data) in (string_of s, offset + length s + 1))"

definition le_nat :: "nat \<Rightarrow> nat \<Rightarrow> bytes \<Rightarrow> nat" where
  "le_nat i n data = unat (le_word (slice i (i + n) data) :: u64)"

text \<open>The length of the auth response with its prefixes, then the response; a prefix that is cut off counts as the length.\<close>

definition authResponseAt :: "bytes \<Rightarrow> nat \<Rightarrow> bytes \<times> nat" where
  "authResponseAt data offset =
     (if length data \<le> offset then ([], offset)
      else
        let b = data ! offset; offset = offset + 1;
            (authLen, offset) =
              (if b = 0xfc \<and> offset + 2 \<le> length data then (le_nat offset 2 data, offset + 2)
               else if b = 0xfd \<and> offset + 3 \<le> length data then (le_nat offset 3 data, offset + 3)
               else if b = 0xfe \<and> offset + 8 \<le> length data then (le_nat offset 4 data, offset + 8)
               else (unat b, offset))
        in if 0 < authLen \<and> offset + authLen \<le> length data then (slice offset (offset + authLen) data, offset + authLen)
           else ([], offset))"

text \<open>
  \<^verbatim>\<open>handleAuth\<close> up to the decision: the fields of the packet are stored in the client as they are read; on success the
  auth response and the name of the plugin are left.
\<close>

definition parseAuth :: "bytes \<Rightarrow> clientConn \<Rightarrow> clientConn \<times> (login_error + bytes \<times> string)" where
  "parseAuth data client =
     (if length data < 4 then (client, Inl (LError (''auth packet too short: '' @ dec_nat (length data) @ '' bytes'')))
      else
        let client = client\<lparr>cl_capability := le_word (slice 0 4 data)\<rparr>
        in if length data < 8 then (client, Inl (LError ''invalid auth packet: too short for max_packet_size''))
           else if length data < 9 then (client, Inl (LError ''invalid auth packet: too short for charset''))
           else
             let client = client\<lparr>cl_charset := data ! 8\<rparr>
             in if length data < 32 then (client, Inl (LError ''invalid auth packet: too short for reserved''))
                else
                  let (username, offset) = nulTerminated data 32;
                      client = client\<lparr>cl_username := username\<rparr>;
                      (authResponse, offset) = authResponseAt data offset;
                      (client, offset) =
                        (if cl_capability client AND CLIENT_CONNECT_WITH_DB \<noteq> 0 \<and> offset < length data
                         then let (db, offset) = nulTerminated data offset in (client\<lparr>cl_database := db\<rparr>, offset)
                         else (client, offset));
                      plugin = (if cl_capability client AND CLIENT_PLUGIN_AUTH \<noteq> 0 \<and> offset < length data
                                then fst (nulTerminated data offset) else [])
                  in (client, Inr (authResponse, plugin)))"

definition handleAuth :: "'e engine_api \<Rightarrow> bytes \<Rightarrow> 'e session \<Rightarrow> 'e session \<times> (login_error + unit)" where
  "handleAuth api data s =
     (case parseAuth data (s_client s) of
        (client, Inl e) \<Rightarrow> (s\<lparr>s_client := client\<rparr>, Inl e)
      | (client, Inr (authResponse, clientAuthPlugin)) \<Rightarrow>
          let s = s\<lparr>s_client := client\<rparr>; auth = GetAuth api (srv_engine (s_server s))
          in if srv_requireAuth (s_server s) \<and> \<not> IsEnabled auth
             then (s, Inl (LError ''access denied: authentication required but no credentials configured''))
             else if \<not> IsEnabled auth then (s, Inr ())
             else if GetUsername auth \<noteq> [] \<and> cl_username client \<noteq> GetUsername auth then (s, Inl (accessDenied client []))
             else if clientAuthPlugin = AUTH_PLUGIN_NAME then
               (case GetMySQLSha1 auth of
                  None \<Rightarrow> (s, Inr ())
                | Some mysqlSha1 \<Rightarrow>
                    if verifyMysqlNativePasswordWithSha1 authResponse (cl_salt client) mysqlSha1 then (s, Inr ())
                    else sendAuthSwitchRequest api s)
             else sendAuthSwitchRequest api s)"

section \<open>Queries\<close>

fun Contains :: "string \<Rightarrow> string \<Rightarrow> bool" where
  "Contains s substr \<longleftrightarrow> take (length substr) s = substr \<or> (case s of [] \<Rightarrow> False | _ # t \<Rightarrow> Contains t substr)"

declare Contains.simps [simp del]

definition HasPrefix :: "string \<Rightarrow> string \<Rightarrow> bool" where
  "HasPrefix s p \<longleftrightarrow> take (length p) s = p"

record infoSchemaResult =
  isr_columns :: "string list"
  isr_rows :: "string list list"

abbreviation infoResult :: "string list \<Rightarrow> string list list \<Rightarrow> infoSchemaResult" where
  "infoResult c r \<equiv> \<lparr>isr_columns = c, isr_rows = r\<rparr>"

text \<open>The regular expression \<^verbatim>\<open>FIELD\s*=\s*'([^']+)'\<close>: its match at the start of a text, and the leftmost match\<close>

definition is_re_space :: "char \<Rightarrow> bool" where
  "is_re_space c \<longleftrightarrow> (of_char c :: nat) \<in> {9, 10, 12, 13, 32}"

definition matchWHERE :: "string \<Rightarrow> string \<Rightarrow> string option" where
  "matchWHERE field s =
     (if \<not> HasPrefix s field then None
      else case dropWhile is_re_space (drop (length field) s) of
             [] \<Rightarrow> None
           | c # t \<Rightarrow>
               if c \<noteq> CHR ''='' then None
               else case dropWhile is_re_space t of
                      [] \<Rightarrow> None
                    | q # u \<Rightarrow>
                        let v = takeWhile (\<lambda>x. x \<noteq> CHR 0x27) u
                        in if q = CHR 0x27 \<and> v \<noteq> [] \<and> length v < length u then Some v else None)"

fun findWHERE :: "string \<Rightarrow> string \<Rightarrow> string option" where
  "findWHERE field s =
     (case matchWHERE field s of
        Some v \<Rightarrow> Some v
      | None \<Rightarrow> (case s of [] \<Rightarrow> None | _ # t \<Rightarrow> findWHERE field t))"

declare findWHERE.simps [simp del]

definition extractWHEREValue :: "go_rt \<Rightarrow> string \<Rightarrow> string \<Rightarrow> string" where
  "extractWHEREValue rt upper field = (case findWHERE field upper of Some v \<Rightarrow> ToLower rt v | None \<Rightarrow> [])"

definition columnsColumns :: "string list" where
  "columnsColumns =
     [''TABLE_CATALOG'', ''TABLE_SCHEMA'', ''TABLE_NAME'', ''COLUMN_NAME'', ''ORDINAL_POSITION'',
      ''COLUMN_DEFAULT'', ''IS_NULLABLE'', ''DATA_TYPE'', ''CHARACTER_MAXIMUM_LENGTH'', ''CHARACTER_OCTET_LENGTH'',
      ''NUMERIC_PRECISION'', ''NUMERIC_SCALE'', ''DATETIME_PRECISION'', ''CHARACTER_SET_NAME'', ''COLLATION_NAME'',
      ''COLUMN_TYPE'', ''COLUMN_KEY'', ''EXTRA'', ''PRIVILEGES'', ''COLUMN_COMMENT'', ''GENERATION_EXPRESSION'', ''SRS_ID'']"

definition describeRow :: "go_rt \<Rightarrow> string \<Rightarrow> nat \<Rightarrow> Row \<Rightarrow> string list" where
  "describeRow rt tableName i row =
     (let d = row_Data row; text = (\<lambda>k. fmt_v rt (Data (d ! k)));
          colName = (if 0 < length d then text 0 else []);
          colType = (if 1 < length d then ToLower rt (text 1) else ''varchar'');
          nullable = (if 2 < length d \<and> text 2 = ''NO'' then ''NO'' else ''YES'');
          colKey = (if 3 < length d then text 3 else []);
          extra = (if 5 < length d then text 5 else []);
          charLen = (if Contains colType ''char'' \<or> Contains colType ''text'' then ''65535'' else [])
      in [''def'', ''xxldb'', tableName, colName, dec_nat (i + 1),
          [], nullable, colType, charLen, charLen,
          [], [], [], ''utf8mb4'', ''utf8mb4_general_ci'',
          colType, colKey, extra, ''select,insert,update,references'', [], [], []])"

definition handleInfoSchemaQuery :: "go_rt \<Rightarrow> 'e engine_api \<Rightarrow> string \<Rightarrow> 'e \<Rightarrow> 'e \<times> infoSchemaResult option" where
  "handleInfoSchemaQuery rt api query e =
     (let upper = ToUpper rt (TrimSpace rt query); info = Contains upper ''INFORMATION_SCHEMA''
      in if HasPrefix upper ''SHOW TABLES FROM'' \<and> info
         then (e, Some (infoResult [''Tables_in_information_schema'']
                [[''SCHEMATA''], [''TABLES''], [''COLUMNS''], [''STATISTICS''], [''KEY_COLUMN_USAGE''], [''TABLE_CONSTRAINTS''],
                 [''EVENTS''], [''ROUTINES''], [''TRIGGERS''], [''VIEWS'']]))
         else if info \<and> Contains upper ''SCHEMATA''
         then (e, Some (infoResult [''SCHEMA_NAME'', ''DEFAULT_CHARACTER_SET_NAME'', ''DEFAULT_COLLATION_NAME'', ''SQL_PATH'']
                [[''xxldb'', ''utf8mb4'', ''utf8mb4_general_ci'', []]]))
         else if info \<and> Contains upper ''EVENTS''
         then (e, Some (infoResult [''EVENT_SCHEMA'', ''EVENT_NAME'', ''Db'', ''Name''] []))
         else if info \<and> Contains upper ''COLUMNS''
         then
           let tableName = extractWHEREValue rt upper ''TABLE_NAME''
           in if tableName = [] then (e, Some (infoResult columnsColumns []))
              else (case Execute api e (''DESCRIBE '' @ tableName) of
                      (e, Inl _) \<Rightarrow> (e, Some (infoResult columnsColumns []))
                    | (e, Inr result) \<Rightarrow>
                        (e, Some (infoResult columnsColumns (map (\<lambda>(i, r). describeRow rt tableName i r) (enumerate 0 (res_Rows result))))))
         else if Contains upper ''REFERENTIAL_CONSTRAINTS''
         then (e, Some (infoResult
                [''CONSTRAINT_CATALOG'', ''CONSTRAINT_SCHEMA'', ''CONSTRAINT_NAME'', ''UNIQUE_CONSTRAINT_CATALOG'', ''UNIQUE_CONSTRAINT_SCHEMA'',
                 ''UNIQUE_CONSTRAINT_NAME'', ''MATCH_OPTION'', ''UPDATE_RULE'', ''DELETE_RULE'', ''TABLE_NAME'', ''REFERENCED_TABLE_NAME''] []))
         else if Contains upper ''KEY_COLUMN_USAGE''
         then (e, Some (infoResult
                [''CONSTRAINT_CATALOG'', ''CONSTRAINT_SCHEMA'', ''CONSTRAINT_NAME'', ''TABLE_CATALOG'', ''TABLE_SCHEMA'', ''TABLE_NAME'', ''COLUMN_NAME'',
                 ''ORDINAL_POSITION'', ''POSITION_IN_UNIQUE_CONSTRAINT'', ''REFERENCED_TABLE_SCHEMA'', ''REFERENCED_TABLE_NAME'', ''REFERENCED_COLUMN_NAME''] []))
         else if info then (e, Some (infoResult [''result''] []))
         else (e, None))"

text \<open>The packets of a result set\<close>

definition columnPackets :: "string \<Rightarrow> string list \<Rightarrow> unit pw_method list" where
  "columnPackets schema columns =
     map (\<lambda>col. WriteColumnDefinition schema [] [] col col 255 33 MYSQL_TYPE_VAR_STRING 0 0) columns"

definition resultSet :: "string \<Rightarrow> string list \<Rightarrow> unit pw_method list \<Rightarrow> unit pw_method list" where
  "resultSet schema columns rows =
     [WriteResultHeader (of_nat (length columns))] @ columnPackets schema columns @ [WriteEOF 0 0] @ rows @ [WriteEOF 0 0]"

definition writeResult :: "go_rt \<Rightarrow> infoSchemaResult \<Rightarrow> PacketWriter \<Rightarrow> PacketWriter" where
  "writeResult rt res = tells (resultSet ''information_schema'' (isr_columns res) (map (\<lambda>row. WriteRowData rt (map GString row)) (isr_rows res)))"

definition rowValues :: "Row \<Rightarrow> godata list" where
  "rowValues row = map Data (row_Data row)"

definition handleQuery :: "go_rt \<Rightarrow> 'e engine_api \<Rightarrow> string \<Rightarrow> 'e session \<Rightarrow> 'e session" where
  "handleQuery rt api query s =
     (case handleInfoSchemaQuery rt api query (srv_engine (s_server s)) of
        (e, Some result) \<Rightarrow> s\<lparr>s_server := (s_server s)\<lparr>srv_engine := e\<rparr>, s_w := writeResult rt result (s_w s)\<rparr>
      | (e, None) \<Rightarrow>
          case Execute api e query of
            (e, Inl err) \<Rightarrow> s\<lparr>s_server := (s_server s)\<lparr>srv_engine := e\<rparr>, s_w := tell (WriteError 1064 ''42000'' err) (s_w s)\<rparr>
          | (e, Inr result) \<Rightarrow>
              let s = s\<lparr>s_server := (s_server s)\<lparr>srv_engine := e\<rparr>\<rparr>
              in if res_IsExecutionResult result
                 then s\<lparr>s_w := tell (WriteOK (res_RowsAffected result) (res_LastInsertID result) 0 0 []) (s_w s)\<rparr>
                 else if res_Columns result \<noteq> []
                 then s\<lparr>s_w := tells (resultSet (cl_database (s_client s)) (res_Columns result)
                                       (map (\<lambda>row. WriteRowData rt (rowValues row)) (res_Rows result))) (s_w s)\<rparr>
                 else s)"

definition handleStatistics :: "'e session \<Rightarrow> 'e session" where
  "handleStatistics s =
     s\<lparr>s_w := tell (WritePacket (bytes_of (''Uptime: '' @ dec_int (srv_now (s_server s)) @ [CHR 0x0A]))) (s_w s)\<rparr>"

section \<open>Prepared statements\<close>

definition preparePayload :: "u32 \<Rightarrow> nat \<Rightarrow> bytes" where
  "preparePayload stmtID numParams =
     [0x00] @ le_bytes 4 stmtID @ [0, 0] @ le_bytes 2 (of_nat numParams :: u64) @ [0x00] @ [0x00, 0x00]"

definition handleStmtPrepare :: "string \<Rightarrow> 'e session \<Rightarrow> 'e session" where
  "handleStmtPrepare query s =
     (let numParams = count_list query (CHR ''?''); stmtID = srv_stmtIDCounter (s_server s) + 1;
          stmt = \<lparr>ps_id = stmtID, ps_query = query, ps_numParams = numParams,
                  ps_params = replicate numParams \<lparr>pd_typ = 0, pd_signed = False\<rparr>\<rparr>;
          client = s_client s
      in s\<lparr>s_server := (s_server s)\<lparr>srv_stmtIDCounter := stmtID\<rparr>,
           s_client := client\<lparr>cl_statements := put_key stmtID stmt (cl_statements client)\<rparr>,
           s_w := tells ([WritePacket (preparePayload stmtID numParams)]
                    @ (if 0 < numParams
                       then map (\<lambda>i. WriteColumnDefinition [] [] [] (''param'' @ dec_nat i) [] 255 33 MYSQL_TYPE_VAR_STRING 0 0) [0..<numParams]
                            @ [WriteEOF 0 0]
                       else [])) (s_w s)\<rparr>)"

text \<open>\<^verbatim>\<open>float32(n)\<close>: rounding to the nearest, ties to even\<close>

definition nat_to_f32 :: "nat \<Rightarrow> float32" where
  "nat_to_f32 n =
     (if n = 0 then 0
      else let k = ilog2 n
           in if k \<le> 23 then of_nat ((k + 127) * 2 ^ 23 + (n - 2 ^ k) * 2 ^ (23 - k))
              else let s = k - 23; q = n div 2 ^ s; r = n mod 2 ^ s; h = 2 ^ (s - 1);
                       q' = (if h < r \<or> r = h \<and> odd q then q + 1 else q)
                   in of_nat ((k + 127) * 2 ^ 23 + (q' - 2 ^ 23)))"

text \<open>\<^verbatim>\<open>None\<close> is the panic of a slice whose end is before its start; an error of \<^verbatim>\<open>ReadLengthEncodedInt\<close> is dropped.\<close>

definition readParamValue :: "bytes \<Rightarrow> byte \<Rightarrow> (godata \<times> nat) option" where
  "readParamValue data typ =
     (if data = [] then Some (GNil, 0)
      else if typ = 0x01 then Some (GInt (ucast (data ! 0)), 1)
      else if typ \<in> {0x02, 0x0d} then (if 2 \<le> length data then Some (GInt (le_word (slice 0 2 data)), 2) else Some (GNil, 0))
      else if typ \<in> {0x03, 0x09} then (if 4 \<le> length data then Some (GInt (le_word (slice 0 4 data)), 4) else Some (GNil, 0))
      else if typ = 0x08 then (if 8 \<le> length data then Some (GUint64 (le_word (slice 0 8 data)), 8) else Some (GNil, 0))
      else if typ = 0x04
      then (if 4 \<le> length data then Some (GFloat64 (f32_to_f64 (nat_to_f32 (le_nat 0 4 data))), 4) else Some (GNil, 0))
      else if typ = 0x05 then (if 8 \<le> length data then Some (GFloat64 (u64_to_f64 (le_word (slice 0 8 data))), 8) else Some (GNil, 0))
      else
        let (len, n) = (case ReadLengthEncodedInt data of Inr r \<Rightarrow> r | Inl _ \<Rightarrow> (0, 0)); total = sint (of_nat n + len)
        in if int (length data) < total then Some (GNil, 0)
           else if total < int n then None
           else Some (GString (string_of (slice n (nat total) data)), nat total))"

definition quoteSQL :: "string \<Rightarrow> string" where
  "quoteSQL val = CHR 0x27 # concat (map (\<lambda>c. if c = CHR 0x27 then [CHR 0x27, CHR 0x27] else [c]) val) @ [CHR 0x27]"

definition paramText :: "go_rt \<Rightarrow> godata \<Rightarrow> string" where
  "paramText rt v =
     (case v of
        GNil \<Rightarrow> ''NULL''
      | GString val \<Rightarrow> quoteSQL val
      | GBytes _ \<Rightarrow> CHR 0x27 # fmt_v rt v @ [CHR 0x27]
      | GBool _ \<Rightarrow> CHR 0x27 # fmt_v rt v @ [CHR 0x27]
      | GTime _ \<Rightarrow> CHR 0x27 # fmt_v rt v @ [CHR 0x27]
      | GOther _ \<Rightarrow> CHR 0x27 # fmt_v rt v @ [CHR 0x27]
      | _ \<Rightarrow> fmt_v rt v)"

text \<open>\<^verbatim>\<open>strings.Replace(result, "?", replacement, 1)\<close>\<close>

fun replaceFirst :: "string \<Rightarrow> string \<Rightarrow> string" where
  "replaceFirst [] r = []"
| "replaceFirst (c # s) r = (if c = CHR ''?'' then r @ s else c # replaceFirst s r)"

definition replacePlaceholders :: "go_rt \<Rightarrow> string \<Rightarrow> godata list \<Rightarrow> string" where
  "replacePlaceholders rt query values = foldl (\<lambda>result v. replaceFirst result (paramText rt v)) query values"

fun readParamTypes :: "bytes \<Rightarrow> nat \<Rightarrow> paramDesc list \<Rightarrow> paramDesc list \<times> nat" where
  "readParamTypes data offset [] = ([], offset)"
| "readParamTypes data offset (p # ps) =
     (if length data < offset + 2 then (p # ps, offset)
      else case readParamTypes data (offset + 2) ps of
             (qs, offset') \<Rightarrow> (\<lparr>pd_typ = data ! offset, pd_signed = (data ! (offset + 1) AND 0x80 \<noteq> 0)\<rparr> # qs, offset'))"

fun readParamValues :: "bytes \<Rightarrow> bytes \<Rightarrow> nat \<Rightarrow> nat \<Rightarrow> paramDesc list \<Rightarrow> godata list option" where
  "readParamValues data bitmap i offset [] = Some []"
| "readParamValues data bitmap i offset (p # ps) =
     (if bitmap ! (i div 8) AND push_bit (i mod 8) 1 \<noteq> 0
      then map_option (\<lambda>vs. GNil # vs) (readParamValues data bitmap (i + 1) offset ps)
      else if length data < offset then None
      else case readParamValue (drop offset data) (pd_typ p) of
             None \<Rightarrow> None
           | Some (val, n) \<Rightarrow> map_option (\<lambda>vs. val # vs) (readParamValues data bitmap (i + 1) (offset + n) ps))"

definition boundParams :: "bytes \<Rightarrow> nat \<Rightarrow> paramDesc list \<Rightarrow> paramDesc list \<times> nat" where
  "boundParams data offset params =
     (if offset < length data \<and> data ! offset = 1 then readParamTypes data (offset + 1) params
      else (map (\<lambda>_. \<lparr>pd_typ = MYSQL_TYPE_VAR_STRING, pd_signed = False\<rparr>) params, offset))"

text \<open>\<^verbatim>\<open>None\<close> for a panic.\<close>

definition handleStmtExecute :: "go_rt \<Rightarrow> 'e engine_api \<Rightarrow> bytes \<Rightarrow> 'e session \<Rightarrow> 'e session option" where
  "handleStmtExecute rt api data s =
     (if length data < 9 then Some (s\<lparr>s_w := tell (WriteError 1210 ''HY000'' ''Invalid statement execute packet'') (s_w s)\<rparr>)
      else
        let stmtID = le_word (slice 0 4 data) :: u32; client = s_client s
        in case map_of (cl_statements client) stmtID of
             None \<Rightarrow>
               Some (s\<lparr>s_w := tell (WriteError 1243 ''42000'' (''Unknown prepared statement: '' @ dec_nat (unat stmtID))) (s_w s)\<rparr>)
           | Some stmt \<Rightarrow>
               let nullBitmapSize = (ps_numParams stmt + 7) div 8
               in if length data < 9 + nullBitmapSize
                  then Some (s\<lparr>s_w := tell (WriteError 1210 ''HY000'' ''Invalid parameter data'') (s_w s)\<rparr>)
                  else
                    let bitmap = slice 9 (9 + nullBitmapSize) data;
                        (params, offset) = boundParams data (9 + nullBitmapSize) (ps_params stmt);
                        stmt = stmt\<lparr>ps_params := params\<rparr>;
                        s = s\<lparr>s_client := client\<lparr>cl_statements := put_key stmtID stmt (cl_statements client)\<rparr>\<rparr>
                    in case readParamValues data bitmap 0 offset params of
                         None \<Rightarrow> None
                       | Some values \<Rightarrow>
                           case Execute api (srv_engine (s_server s)) (replacePlaceholders rt (ps_query stmt) values) of
                             (e, Inl err) \<Rightarrow>
                               Some (s\<lparr>s_server := (s_server s)\<lparr>srv_engine := e\<rparr>, s_w := tell (WriteError 1064 ''42000'' err) (s_w s)\<rparr>)
                           | (e, Inr result) \<Rightarrow>
                               let s = s\<lparr>s_server := (s_server s)\<lparr>srv_engine := e\<rparr>\<rparr>
                               in if res_IsExecutionResult result
                                  then Some (s\<lparr>s_w := tell (WriteOK (res_RowsAffected result) (res_LastInsertID result) 0 0 []) (s_w s)\<rparr>)
                                  else if res_Columns result \<noteq> []
                                  then Some (s\<lparr>s_w := tells (resultSet (cl_database client) (res_Columns result)
                                               (map (\<lambda>row. WriteBinaryRowData rt (rowValues row)) (res_Rows result))) (s_w s)\<rparr>)
                                  else Some (s\<lparr>s_w := tells [WriteResultHeader 0, WriteEOF 0 0] (s_w s)\<rparr>))"

definition handleStmtClose :: "bytes \<Rightarrow> 'e session \<Rightarrow> 'e session" where
  "handleStmtClose data s =
     (if length data < 4 then s
      else s\<lparr>s_client := (s_client s)\<lparr>cl_statements := del_key (le_word (slice 0 4 data)) (cl_statements (s_client s))\<rparr>\<rparr>)"

section \<open>The command loop\<close>

text \<open>One command; \<^verbatim>\<open>Quit\<close> ends the loop, \<^verbatim>\<open>Panic\<close> the process.\<close>

datatype 'e cmd_end = Next "'e session" | Quit "'e session" | Panic

definition command :: "go_rt \<Rightarrow> 'e engine_api \<Rightarrow> byte \<Rightarrow> bytes \<Rightarrow> 'e session \<Rightarrow> 'e cmd_end" where
  "command rt api cmd args s =
     (if cmd = 0x01 then Quit s
      else if cmd = 0x0e then Next (s\<lparr>s_w := tell (WriteOK 0 0 0 0 []) (s_w s)\<rparr>)
      else if cmd = 0x03 then Next (handleQuery rt api (string_of args) s)
      else if cmd = 0x02
      then Next (s\<lparr>s_client := (s_client s)\<lparr>cl_database := string_of args\<rparr>, s_w := tell (WriteOK 0 0 0 0 []) (s_w s)\<rparr>)
      else if cmd = 0x04 then Next (s\<lparr>s_w := tell (WriteEOF 0 0) (s_w s)\<rparr>)
      else if cmd = 0x09 then Next (handleStatistics s)
      else if cmd = 0x16 then Next (handleStmtPrepare (string_of args) s)
      else if cmd = 0x17 then (case handleStmtExecute rt api args s of Some s \<Rightarrow> Next s | None \<Rightarrow> Panic)
      else if cmd = 0x19 then Next (handleStmtClose args s)
      else Next (s\<lparr>s_w := tell (WriteError 1047 ''42000'' (''Unknown command: '' @ dec_nat (unat cmd))) (s_w s)\<rparr>))"

lemma tells_Cons: "tells (m # ms) w = tells ms (tell m w)"
  by (simp add: tells_def)

lemma handleQuery_in [simp]: "s_in (handleQuery rt api q s) = s_in s"
  by (simp add: handleQuery_def Let_def split: prod.split option.split sum.split)

lemma handleStmtExecute_in: "handleStmtExecute rt api d s = Some s' \<Longrightarrow> s_in s' = s_in s"
  by (auto simp: handleStmtExecute_def Let_def split: if_splits prod.splits option.splits sum.splits)

lemma command_in: "command rt api cmd args s = Next s' \<Longrightarrow> s_in s' = s_in s"
  by (auto simp: command_def handleStatistics_def handleStmtPrepare_def handleStmtClose_def Let_def
        split: if_splits option.splits dest: handleStmtExecute_in)

lemma ReadPacket_shorter: "ReadPacket b = Inr (d, rest) \<Longrightarrow> length rest < length b"
  by (auto simp: ReadPacket_def Let_def split: if_splits)

function commandLoop :: "go_rt \<Rightarrow> 'e engine_api \<Rightarrow> 'e session \<Rightarrow> 'e session option" where
  "commandLoop rt api s =
     (let s = s\<lparr>s_w := NewPacketWriter 1 (s_w s)\<rparr>
      in case ReadPacket (s_in s) of
           Inl _ \<Rightarrow> Some s
         | Inr ([], rest) \<Rightarrow> commandLoop rt api (s\<lparr>s_in := rest\<rparr>)
         | Inr (cmd # args, rest) \<Rightarrow>
             (case command rt api cmd args (s\<lparr>s_in := rest\<rparr>) of
                Next s \<Rightarrow> commandLoop rt api s
              | Quit s \<Rightarrow> Some s
              | Panic \<Rightarrow> None))"
  by pat_completeness auto
termination
  by (relation "measure (\<lambda>(rt, api, s). length (s_in s))") (auto dest!: ReadPacket_shorter command_in)

declare commandLoop.simps [simp del]

text \<open>A connection with the salt the random source gave\<close>

definition handleConnection :: "go_rt \<Rightarrow> 'e engine_api \<Rightarrow> bytes \<Rightarrow> 'e session \<Rightarrow> 'e session option" where
  "handleConnection rt api salt s =
     (let s = s\<lparr>s_client := (s_client s)\<lparr>cl_salt := salt, cl_authSeq := 2\<rparr>\<rparr>
      in case sendHandshake s of
           (s, Inl _) \<Rightarrow> Some s
         | (s, Inr _) \<Rightarrow>
             case ReadPacket (s_in s) of
               Inl _ \<Rightarrow> Some s
             | Inr (authData, rest) \<Rightarrow>
                 case handleAuth api authData (s\<lparr>s_in := rest\<rparr>) of
                   (s, Inl err) \<Rightarrow>
                     Some (s\<lparr>s_w := tell (WriteError 1045 ''28000'' (Error err)) (NewPacketWriter (cl_authSeq (s_client s)) (s_w s))\<rparr>)
                 | (s, Inr _) \<Rightarrow>
                     case WriteOK 0 0 0 0 [] (NewPacketWriter (cl_authSeq (s_client s)) (s_w s)) of
                       (w, Inl _) \<Rightarrow> Some (s\<lparr>s_w := w\<rparr>)
                     | (w, Inr _) \<Rightarrow> commandLoop rt api (s\<lparr>s_w := w\<rparr>))"

section \<open>The login\<close>

text \<open>The response of a client that knows the digest of the password\<close>

definition nativeToken :: "bytes \<Rightarrow> bytes \<Rightarrow> bytes" where
  "nativeToken h salt = xor_bytes h (sha1 (salt @ sha1 h))"

lemma xor_bytes_cancel: "length a = length b \<Longrightarrow> xor_bytes (xor_bytes a b) b = a"
  by (induction a b rule: list_induct2) (simp_all add: xor_bytes_def ac_simps)

lemma length_xor_bytes [simp]: "length (xor_bytes a b) = min (length a) (length b)"
  by (simp add: xor_bytes_def)

lemma xor_bytes_nth: "n = length a \<Longrightarrow> length b = n \<Longrightarrow> map (\<lambda>i. a ! i XOR b ! i) [0..<n] = xor_bytes a b"
  by (intro nth_equalityI) (simp_all add: xor_bytes_def)

lemma all_nth_eq: "length a = n \<Longrightarrow> length b = n \<Longrightarrow> list_all (\<lambda>i. a ! i = b ! i) [0..<n] \<longleftrightarrow> a = b"
  by (auto simp: list_all_iff intro: nth_equalityI)

lemma verify_iff:
  assumes "length salt = 20" "length h = 20"
  shows "verifyMysqlNativePasswordWithSha1 r salt h \<longleftrightarrow> r = nativeToken h salt"
proof (cases "length r = 20")
  case True
  have "verifyMysqlNativePasswordWithSha1 r salt h \<longleftrightarrow> xor_bytes r (sha1 (salt @ sha1 h)) = h"
    using assms True by (simp add: verifyMysqlNativePasswordWithSha1_def Let_def xor_bytes_nth all_nth_eq)
  also have "\<dots> \<longleftrightarrow> r = nativeToken h salt"
    using assms True xor_bytes_cancel [of r "sha1 (salt @ sha1 h)"] xor_bytes_cancel [of h "sha1 (salt @ sha1 h)"]
    by (auto simp: nativeToken_def)
  finally show ?thesis .
next
  case False
  with assms show ?thesis by (auto simp: verifyMysqlNativePasswordWithSha1_def nativeToken_def)
qed

lemma token_NativePasswordAuth: "p \<noteq> [] \<Longrightarrow> nativeToken (hashPasswordMySQL p) salt = NativePasswordAuth (bytes_of p) salt"
  by (simp add: nativeToken_def hashPasswordMySQL_def NativePasswordAuth_def Let_def bytes_of_def)

lemma SetCredentials_fields:
  assumes "u \<noteq> []" "p \<noteq> []"
  shows "IsEnabled (SetCredentials u p a)" "GetUsername (SetCredentials u p a) = u"
    "GetMySQLSha1 (SetCredentials u p a) = Some (hashPasswordMySQL p)"
  using assms by (simp_all add: SetCredentials_def IsEnabled_def GetUsername_def GetMySQLSha1_def Let_def)

lemma parseAuth_salt: "parseAuth data c = (c', r) \<Longrightarrow> cl_salt c' = cl_salt c"
  by (auto simp: parseAuth_def Let_def split: if_splits prod.splits)

lemma parseAuth_authSeq: "parseAuth data c = (c', r) \<Longrightarrow> cl_authSeq c' = cl_authSeq c"
  by (auto simp: parseAuth_def Let_def split: if_splits prod.splits)

lemma WritePacket_alive: "pw_alive w \<Longrightarrow> \<exists>w'. WritePacket d w = (w', Inr ()) \<and> pw_alive w'"
  by (metis WritePacket_wrote wrote_alive)

lemma NewPacketWriter_alive [simp]: "pw_alive (NewPacketWriter n w) = pw_alive w"
  by (simp add: NewPacketWriter_def)

lemma sendAuthSwitchRequest_iff:
  assumes "pw_alive (s_w s)" "IsEnabled (GetAuth api (srv_engine (s_server s)))"
    and "GetMySQLSha1 (GetAuth api (srv_engine (s_server s))) = Some h"
    and "cl_username (s_client s) = GetUsername (GetAuth api (srv_engine (s_server s)))"
    and "length (cl_salt (s_client s)) = 20" "length h = 20"
  shows "(\<exists>s'. sendAuthSwitchRequest api s = (s', Inr ())) \<longleftrightarrow>
    (\<exists>rest. ReadPacket (s_in s) = Inr (nativeToken h (cl_salt (s_client s)), rest))"
proof -
  obtain w where "WritePacket (switchPayload (cl_salt (s_client s))) (NewPacketWriter 2 (s_w s)) = (w, Inr ())"
    using WritePacket_alive [of "NewPacketWriter 2 (s_w s)"] assms(1) by auto
  then show ?thesis
    using assms by (auto simp: sendAuthSwitchRequest_def Let_def verify_iff split: sum.splits prod.splits)
qed


text \<open>An engine that only keeps credentials and answers every statement with an error, and a session with it\<close>

definition authApi :: "Auth engine_api" where
  "authApi = \<lparr>Execute = (\<lambda>e q. (e, Inl ''syntax error'')), GetAuth = id\<rparr>"

definition newSession :: "'e \<Rightarrow> bytes \<Rightarrow> bytes \<Rightarrow> 'e session" where
  "newSession e salt input =
     \<lparr>s_client = \<lparr>cl_salt = salt, cl_capability = 0, cl_charset = 0, cl_username = [], cl_database = [], cl_authSeq = 2, cl_statements = []\<rparr>,
      s_in = input, s_w = newWriter,
      s_server = NewServer e \<lparr>cfg_Addr = [], cfg_Version = [], cfg_ServerID = 1, cfg_Charset = 0, cfg_RequireAuth = False\<rparr> 0 0\<rparr>"

lemma newSession_simps [simp]:
  "s_in (newSession e salt input) = input" "s_w (newSession e salt input) = newWriter" "cl_salt (s_client (newSession e salt input)) = salt"
  "srv_engine (s_server (newSession e salt input)) = e" "pw_alive newWriter" "cl_statements (s_client (newSession e salt input)) = []"
  by (simp_all add: newSession_def NewServer_def newWriter_def)


text \<open>The login packet of a client with the 4.1 protocol that names the plugin\<close>

definition loginPacket :: "string \<Rightarrow> bytes \<Rightarrow> bytes" where
  "loginPacket u response =
     le_bytes 4 (0x00088200 :: u32) @ le_bytes 4 (0x1000000 :: u32) @ [33] @ replicate 23 0 @ bytes_of u @ [0]
     @ of_nat (length response) # response @ bytes_of AUTH_PLUGIN_NAME @ [0]"

lemma slice_between: "i = length a \<Longrightarrow> j = length a + length b \<Longrightarrow> slice i j (a @ b @ c) = b"
  by (simp add: slice_def)

lemma nulTerminated_at:
  "length pre = offset \<Longrightarrow> list_all (\<lambda>b. b \<noteq> 0) s \<Longrightarrow> nulTerminated (pre @ s @ 0 # rest) offset = (string_of s, offset + length s + 1)"
  by (simp add: nulTerminated_def Let_def list_all_iff)

lemma bytes_of_nonzero: "list_all (\<lambda>c. c \<noteq> CHR 0x00) s \<Longrightarrow> list_all (\<lambda>b. b \<noteq> 0) (bytes_of s)"
proof -
  have "c = CHR 0x00" if "byte_of c = 0" for c
    using char_of_byte_byte_of [of c] that by (simp add: char_of_byte_def char_of_def)
  then show "list_all (\<lambda>c. c \<noteq> CHR 0x00) s \<Longrightarrow> ?thesis" by (auto simp: list_all_iff bytes_of_def)
qed

lemma parseAuth_loginPacket:
  assumes "list_all (\<lambda>c. c \<noteq> CHR 0x00) u" "length response = 20"
  shows "\<exists>c'. parseAuth (loginPacket u response) c = (c', Inr (response, AUTH_PLUGIN_NAME)) \<and> cl_username c' = u"
proof -
  let ?pre = "le_bytes 4 (0x00088200 :: u32) @ le_bytes 4 (0x1000000 :: u32) @ [33] @ replicate 23 0"
  let ?d = "loginPacket u response"
  have d: "?d = ?pre @ bytes_of u @ 0 # (20 # response @ bytes_of AUTH_PLUGIN_NAME @ [0])"
    using assms(2) by (simp add: loginPacket_def)
  have pre: "length ?pre = 32" by simp
  have user: "nulTerminated ?d 32 = (u, 33 + length u)"
    unfolding d using nulTerminated_at [OF pre bytes_of_nonzero [OF assms(1)]] by simp
  have nth: "?d ! (33 + length u) = 20" unfolding d by (simp add: nth_append)
  have resp: "slice (34 + length u) (54 + length u) ?d = response"
    using slice_between [of "34 + length u" "?pre @ bytes_of u @ [0, 20]" "54 + length u" response] assms(2) unfolding d by simp
  have plugin: "fst (nulTerminated ?d (54 + length u)) = AUTH_PLUGIN_NAME"
    using nulTerminated_at [of "?pre @ bytes_of u @ [0, 20] @ response" "54 + length u" "bytes_of AUTH_PLUGIN_NAME" "[]"] assms(2)
    unfolding d by (simp add: bytes_of_nonzero AUTH_PLUGIN_NAME_def)
  have cap: "(le_word (slice 0 4 ?d) :: u32) = 0x00088200" unfolding d by (simp add: slice_def codec)
  have len: "length ?d = 76 + length u" unfolding d using assms(2) by (simp add: AUTH_PLUGIN_NAME_def)
  have ar: "authResponseAt ?d (33 + length u) = (response, 54 + length u)"
    using resp by (simp add: authResponseAt_def len nth Let_def)
  show ?thesis by (simp add: parseAuth_def Let_def user ar cap len plugin)
qed

text \<open>
  A client that knows the password gets in: for every salt of 20 bytes, the packet of a client that names the user and answers
  with \<^verbatim>\<open>NativePasswordAuth\<close> is parsed to exactly these fields, is accepted without an auth switch, and the server sends the OK packet and goes on with
  the command loop.
\<close>
theorem honest_client_logs_in:
  assumes "GetAuth api (srv_engine (s_server s)) = SetCredentials u p a" "u \<noteq> []" "p \<noteq> []" "list_all (\<lambda>c. c \<noteq> CHR 0x00) u"
    and "pw_alive (s_w s)" "length salt = 20"
    and "ReadPacket (s_in s) = Inr (loginPacket u (NativePasswordAuth (bytes_of p) salt), rest)"
  shows "\<exists>s'. handleConnection rt api salt s = commandLoop rt api s' \<and> s_in s' = rest \<and>
    cl_username (s_client s') = u \<and> pw_alive (s_w s') \<and>
    (\<exists>x. pw_out (s_w s') = x @ le_bytes 3 (7 :: u64) @ [2] @ okPayload 0 0 0 0 [])"
proof -
  let ?c = "(s_client s)\<lparr>cl_salt := salt, cl_authSeq := 2\<rparr>"
  let ?s = "s\<lparr>s_client := ?c\<rparr>"
  let ?r = "NativePasswordAuth (bytes_of p) salt"
  obtain w where w: "WritePacket (handshakePayload (s_server s) salt) (NewPacketWriter 0 (s_w s)) = (w, Inr ())" "pw_alive w"
    using WritePacket_alive [of "NewPacketWriter 0 (s_w s)"] assms(5) by auto
  have r: "length ?r = 20" using assms(3) by (simp add: NativePasswordAuth_def Let_def bytes_of_def)
  obtain c where c: "parseAuth (loginPacket u ?r) ?c = (c, Inr (?r, AUTH_PLUGIN_NAME))" "cl_username c = u"
    using parseAuth_loginPacket [OF assms(4) r] by blast
  have salt: "cl_salt c = salt" "cl_authSeq c = 2" using c(1) parseAuth_salt [OF c(1)] parseAuth_authSeq [OF c(1)] by simp_all
  note cred = SetCredentials_fields [OF assms(2,3), of a]
  have "verifyMysqlNativePasswordWithSha1 ?r salt (hashPasswordMySQL p)"
    using verify_iff [OF assms(6), of "hashPasswordMySQL p"] token_NativePasswordAuth [OF assms(3)] by (simp add: hashPasswordMySQL_def)
  then have auth: "handleAuth api (loginPacket u ?r) (?s\<lparr>s_w := w, s_in := rest\<rparr>) = (?s\<lparr>s_w := w, s_in := rest, s_client := c\<rparr>, Inr ())"
    using c cred assms(1) salt by (simp add: handleAuth_def Let_def)
  let ?w = "NewPacketWriter 2 w"
  have ok: "WriteOK 0 0 0 0 [] ?w = (?w\<lparr>pw_sequence := 3, pw_out := pw_out w @ le_bytes 3 (7 :: u64) @ [2] @ okPayload 0 0 0 0 []\<rparr>, Inr ())"
    using w(2) by (simp add: WriteOK_def WritePacket_def writePacketInternal_def okPayload_def writeLengthEncodedInt_def writeUint16_def
        NewPacketWriter_def)
  have "handleConnection rt api salt s = commandLoop rt api (s\<lparr>s_in := rest, s_client := c, s_w := ?w\<lparr>pw_sequence := 3,
      pw_out := pw_out w @ le_bytes 3 (7 :: u64) @ [2] @ okPayload 0 0 0 0 []\<rparr>\<rparr>)"
    using w(1) auth ok salt assms(7) by (simp add: handleConnection_def sendHandshake_def Let_def)
  then show ?thesis using c(2) w(2) by (intro exI conjI) (assumption | simp add: NewPacketWriter_def)+
qed

theorem honest_client_logs_in_witness:
  "\<exists>s'. handleConnection rt_plain authApi (replicate 20 1)
       (newSession (SetCredentials ''admin'' ''secret'' NewAuth) []
         (le_bytes 3 (81 :: u64) @ [1] @ loginPacket ''admin'' (NativePasswordAuth (bytes_of ''secret'') (replicate 20 1)))) =
     commandLoop rt_plain authApi s' \<and> cl_username (s_client s') = ''admin''"
proof -
  let ?p = "loginPacket ''admin'' (NativePasswordAuth (bytes_of ''secret'') (replicate 20 1))"
  have len: "length ?p = 81" by (simp add: loginPacket_def NativePasswordAuth_def Let_def AUTH_PLUGIN_NAME_def bytes_of_def)
  have "ReadPacket (le_bytes 3 (81 :: u64) @ [1] @ ?p) = Inr (?p, [])"
    using ReadPacket_frame [of ?p 1 "[]"] by (simp add: len)
  then show ?thesis
    using honest_client_logs_in [of authApi "newSession (SetCredentials ''admin'' ''secret'' NewAuth) [] (le_bytes 3 (81 :: u64) @ [1] @ ?p)"
      "''admin''" "''secret''" NewAuth "replicate 20 1" "[]" rt_plain] by (auto simp: authApi_def)
qed

text \<open>
  Credentials without the MySQL digest let everybody in: when the stored metadata has a user name and a password but no (or no readable)
  \<^verbatim>\<open>mysql_sha1\<close>, the engine's own check refuses a wrong password, and the MySQL login accepts any response of a client that
  names the user and the plugin \<^verbatim>\<open>mysql_native_password\<close>.
\<close>
theorem login_without_digest_unchecked:
  assumes "GetAuth api (srv_engine (s_server s)) =
      FromMap [(''username'', IData (GString u)), (''password'', IData (GString (hashPassword p))), (''enabled'', IData (GBool True))] NewAuth"
    and "parseAuth data (s_client s) = (c, Inr (response, AUTH_PLUGIN_NAME))" "cl_username c = u"
  shows "handleAuth api data s = (s\<lparr>s_client := c\<rparr>, Inr ()) \<and>
    (\<forall>q. Authenticate (GetAuth api (srv_engine (s_server s))) u q \<longleftrightarrow> hashPassword q = hashPassword p)"
proof -
  have "sha256 m \<noteq> []" for m using length_sha256 [of m] by (metis list.size(3) zero_neq_numeral)
  then have ne: "hashPassword p \<noteq> []" by (simp add: hashPassword_def hex_encode_def neq_Nil_conv)
  have fields: "FromMap [(''username'', IData (GString u)), (''password'', IData (GString (hashPassword p))), (''enabled'', IData (GBool True))] NewAuth
      = \<lparr>a_username = u, a_password = hashPassword p, a_mysqlSha1 = None, a_enabled = True\<rparr>"
    by (simp add: FromMap_def NewAuth_def stringAt_def boolAt_def Let_def)
  show ?thesis
    using assms(2,3) ne unfolding assms(1) fields
    by (auto simp: handleAuth_def Let_def assms(1) fields IsEnabled_def GetUsername_def GetMySQLSha1_def Authenticate_def)
qed

theorem login_without_digest_unchecked_witness:
  "\<exists>s'. handleAuth authApi (loginPacket ''admin'' (replicate 20 7))
     (newSession (FromMap [(''username'', IData (GString ''admin'')), (''password'', IData (GString (hashPassword ''secret''))),
         (''enabled'', IData (GBool True))] NewAuth) (replicate 20 1) []) = (s', Inr ())"
proof -
  let ?s = "newSession (FromMap [(''username'', IData (GString ''admin'')), (''password'', IData (GString (hashPassword ''secret''))),
         (''enabled'', IData (GBool True))] NewAuth) (replicate 20 1) []"
  obtain c where "parseAuth (loginPacket ''admin'' (replicate 20 7)) (s_client ?s) = (c, Inr (replicate 20 7, AUTH_PLUGIN_NAME))" "cl_username c = ''admin''"
    using parseAuth_loginPacket [of "''admin''" "replicate 20 7" "s_client ?s"] by auto
  then show ?thesis using login_without_digest_unchecked [of authApi ?s "''admin''" "''secret''"] by (auto simp: authApi_def)
qed

section \<open>Parameters of prepared statements\<close>

text \<open>All placeholders replaced at once\<close>

fun fillPlaceholders :: "string \<Rightarrow> string list \<Rightarrow> string" where
  "fillPlaceholders [] ts = []"
| "fillPlaceholders (c # s) ts =
     (if c = CHR ''?'' then (case ts of [] \<Rightarrow> c # s | t # ts \<Rightarrow> t @ fillPlaceholders s ts) else c # fillPlaceholders s ts)"

lemma fillPlaceholders_Nil [simp]: "fillPlaceholders s [] = s"
  by (induction s) auto

lemma fillPlaceholders_append: "CHR ''?'' \<notin> set t \<Longrightarrow> fillPlaceholders (t @ s) ts = t @ fillPlaceholders s ts"
  by (induction t) auto

lemma fillPlaceholders_step: "CHR ''?'' \<notin> set t \<Longrightarrow> fillPlaceholders (replaceFirst q t) ts = fillPlaceholders q (t # ts)"
  by (induction q) (auto simp: fillPlaceholders_append)

text \<open>
  C33. Replacing placeholders one after the other is the same as replacing all of them at once, as long as no parameter's text
  contains a question mark: the placeholders are filled in order, surplus values are dropped and surplus placeholders stay.
\<close>
theorem placeholders_replaced_in_order:
  assumes "list_all (\<lambda>v. CHR ''?'' \<notin> set (paramText rt v)) values"
  shows "replacePlaceholders rt query values = fillPlaceholders query (map (paramText rt) values)"
  using assms unfolding replacePlaceholders_def
  by (induction "values" arbitrary: query) (simp_all add: fillPlaceholders_step [symmetric])

theorem placeholders_replaced_in_order_witness:
  "replacePlaceholders rt_plain ''SELECT ?, ?'' [GString ''a'', GNil] = ''SELECT '' @ [CHR 0x27, CHR ''a'', CHR 0x27] @ '', NULL''"
  using placeholders_replaced_in_order [of rt_plain "[GString ''a'', GNil]" "''SELECT ?, ?''"] by (simp add: paramText_def quoteSQL_def)

text \<open>Quoting: only the quote is doubled, while the lexer also reads backslash escapes.\<close>

lemma char_of_neq_quote: "128 \<le> n \<Longrightarrow> n < 256 \<Longrightarrow> char_of (n :: nat) \<noteq> CHR 0x27"
  by (simp add: char_of_eq_iff take_bit_nat_eq_self)

lemma quote_char: "char_of (39 :: nat) = CHR 0x27"
  by (simp add: char_of_eq_iff)

lemma encodeRune_ascii: "r < 128 \<Longrightarrow> encodeRune r = [char_of r]"
  by (simp add: encodeRune_def Let_def)

lemma encodeRune_high: "128 \<le> r \<Longrightarrow> c \<in> set (encodeRune r) \<Longrightarrow> c \<noteq> CHR 0x27"
proof -
  assume r: "128 \<le> r" "c \<in> set (encodeRune r)"
  define r' where "r' = (if 0x10FFFF < r \<or> (0xD800 \<le> r \<and> r \<le> 0xDFFF) then RuneError else r)"
  have r': "128 \<le> r'" "r' \<le> 0x10FFFF" using r(1) by (auto simp: r'_def)
  have "c \<in> char_of ` {128..<256 :: nat}"
    using r(2) r' unfolding encodeRune_def r'_def [symmetric] Let_def
    by (auto split: if_splits intro!: imageI simp: less_mult_imp_div_less)
  then show ?thesis using char_of_neq_quote by auto
qed

lemma double_quote_encodeRune:
  "concat (map (\<lambda>c. if c = CHR 0x27 then [CHR 0x27, CHR 0x27] else [c]) (encodeRune r)) =
     (if r = 39 then encodeRune r @ encodeRune r else encodeRune r)"
proof (cases "r < 128")
  case True
  have "char_of r = CHR 0x27 \<longleftrightarrow> r = 39" using True by (simp add: char_of_eq_iff take_bit_nat_eq_self)
  with True show ?thesis by (simp add: encodeRune_ascii quote_char)
next
  case False
  then have "map (\<lambda>c. if c = CHR 0x27 then [CHR 0x27, CHR 0x27] else [c]) (encodeRune r) = map (\<lambda>c. [c]) (encodeRune r)"
    using encodeRune_high [of r] by (intro map_cong) auto
  then show ?thesis using False by (simp only: concat_map_singleton) auto
qed

lemma quoteSQL_textOf:
  assumes "list_all literal_rune rs" "92 \<notin> set rs"
  shows "quoteSQL (textOf rs) = quoteText 39 rs"
proof -
  have "concat (map (\<lambda>c. if c = CHR 0x27 then [CHR 0x27, CHR 0x27] else [c]) (textOf rs)) = concat (map (quoteRune 39) rs)"
    using assms by (induction rs) (auto simp: textOf_def double_quote_encodeRune literal_rune_def quoteRune_def)
  moreover have "encodeRune 39 = [CHR 0x27]" by (simp add: encodeRune_ascii char_of_eq_iff)
  ultimately show ?thesis by (simp add: quoteSQL_def quoteText_def)
qed

text \<open>
  C32. A text parameter stays one literal when it has no backslash: for every text of valid runes other than 0 and backslash, the
  lexer reads what \<^verbatim>\<open>replacePlaceholders\<close> puts into the statement as one string token with exactly this text.
\<close>
theorem parameter_is_one_literal:
  assumes "list_all literal_rune rs" "92 \<notin> set rs" "peek rest \<noteq> 39"
  shows "NextToken N (paramText rt (GString (textOf rs)) @ rest) =
    (\<lparr>tok_Type = TokString, tok_Value = textOf rs, tok_Pos = N - length (paramText rt (GString (textOf rs)) @ rest)\<rparr>, rest)"
  using NextToken_quoted [of 39 rs rest N] assms by (simp add: paramText_def quoteSQL_textOf)

theorem parameter_is_one_literal_witness:
  "NextToken 0 (paramText rt_plain (GString (textOf [73, 39, 115])) @ '';'') = (\<lparr>tok_Type = TokString, tok_Value = textOf [73, 39, 115], tok_Pos = 0\<rparr>, '';'')"
  using parameter_is_one_literal [of "[73, 39, 115]" "'';''" 0 rt_plain]
  by (simp add: literal_rune_def valid_rune_def peek_def decodeRune_def chr_code_def)

lemma peek_quote: "peek s = 39 \<Longrightarrow> s \<noteq> [] \<and> hd s = CHR 0x27"
proof -
  assume "peek s = 39"
  then have "s \<noteq> []" "chr_code (s ! 0) = 39"
    by (auto simp: peek_def decodeRune_def is_cont_def Let_def split: if_splits)
  moreover from this(2) have "s ! 0 = CHR 0x27" by (metis chr_code_def char_of_char quote_char)
  ultimately show ?thesis by (simp add: hd_conv_nth)
qed

text \<open>
  C39. A text parameter with a backslash can leave its literal: a value that begins with backslash and quote is put into the
  statement with its quote doubled; the lexer reads backslash-quote as an escaped quote and the second quote as the
  end of the literal, and the rest of the value, any text without quotes, is read as part of the statement.
\<close>
theorem parameter_escapes_literal:
  assumes "CHR 0x27 \<notin> set t" "t \<noteq> []"
  shows "NextToken N (paramText rt (GString ([CHR 0x5C, CHR 0x27] @ t)) @ rest) =
    (\<lparr>tok_Type = TokString, tok_Value = [CHR 0x27],
      tok_Pos = N - length (paramText rt (GString ([CHR 0x5C, CHR 0x27] @ t)) @ rest)\<rparr>, t @ CHR 0x27 # rest)"
proof -
  have same: "concat (map (\<lambda>c. if c = CHR 0x27 then [CHR 0x27, CHR 0x27] else [c]) t) = t"
    using assms(1) by (induction t) auto
  let ?q = "encodeRune 39" and ?b = "encodeRune 92" and ?r = "t @ CHR 0x27 # rest"
  let ?s = "paramText rt (GString ([CHR 0x5C, CHR 0x27] @ t)) @ rest"
  have e: "?q = [CHR 0x27]" "?b = [CHR 0x5C]" by (simp_all add: encodeRune_ascii char_of_eq_iff)
  have s: "?s = ?q @ ?b @ ?q @ ?q @ ?r" by (simp add: e paramText_def quoteSQL_def same)
  have v: "valid_rune 39" "valid_rune 92" by (simp_all add: valid_rune_def)
  have pk: "peek ?r \<noteq> 39" using peek_quote [of ?r] assms by (cases t) auto
  have "stringLoop 39 [] (?b @ ?q @ ?q @ ?r) = stringLoop 39 ?q (?q @ ?r)"
    by (subst stringLoop.simps) (simp add: read_encoded v escapeText_def)
  also have "\<dots> = (StringDone ?q, ?r)"
    using pk by (subst stringLoop.simps) (simp add: read_encoded v)
  finally have loop: "stringLoop 39 [] (?b @ ?q @ ?q @ ?r) = (StringDone [CHR 0x27], ?r)" by (simp only: e)
  define x where "x = ?s"
  have peek: "peek x = 39" "next_rune x = (39, ?b @ ?q @ ?q @ ?r)" unfolding x_def s by (simp_all only: read_encoded v)
  have ne: "x \<noteq> []" using peek_quote [OF peek(1)] by simp
  have ws: "skipWhitespace x = x" by (intro skipWhitespace_stop) (simp add: peek IsSpace_def)
  have "NextToken N x = scanString N x"
    by (subst NextToken.simps) (simp add: ws peek ne Let_def isLetter_def isDigit_def)
  also have "\<dots> = (mkTok N x TokString [CHR 0x27], ?r)" by (simp add: scanString_def peek loop)
  finally show ?thesis by (simp only: x_def mkTok_def)
qed

theorem parameter_escapes_literal_witness:
  "\<exists>tok. NextToken 0 (paramText rt_plain (GString ([CHR 0x5C, CHR 0x27] @ '' OR 1=1 -- '')) @ '' AND b = 2'') =
     (tok, '' OR 1=1 -- '' @ CHR 0x27 # '' AND b = 2'') \<and> tok_Type tok = TokString"
  using parameter_escapes_literal [of "'' OR 1=1 -- ''" 0 rt_plain "'' AND b = 2''"] by auto

section \<open>Bounds of the parameter reader\<close>

text \<open>A length field that makes the end of the slice lie before its start\<close>

definition huge_length :: "bytes \<Rightarrow> bool" where
  "huge_length d \<longleftrightarrow> (case ReadLengthEncodedInt d of Inr (len, n) \<Rightarrow> sint (of_nat n + len) < int n | Inl _ \<Rightarrow> False)"

lemma readParamValue_None: "readParamValue d typ = None \<Longrightarrow> huge_length d"
  by (auto simp: readParamValue_def huge_length_def Let_def split: if_splits sum.splits prod.splits)

lemma readParamValue_bound: "readParamValue d typ = Some (v, n) \<Longrightarrow> n \<le> length d"
  by (auto simp: readParamValue_def Let_def Suc_le_eq split: if_splits sum.splits prod.splits)

lemma readParamTypes_bound:
  "readParamTypes data offset ps = (qs, offset') \<Longrightarrow> offset \<le> length data \<Longrightarrow> offset' \<le> length data \<and> length qs = length ps"
  by (induction data offset ps arbitrary: qs offset' rule: readParamTypes.induct) (auto split: if_splits prod.splits)

lemma readParamValues_total:
  "offset \<le> length data \<Longrightarrow> \<forall>k \<le> length data. \<not> huge_length (drop k data) \<Longrightarrow>
     \<exists>vs. readParamValues data bitmap i offset ps = Some vs \<and> length vs = length ps"
proof (induction data bitmap i offset ps rule: readParamValues.induct)
  case (2 data bitmap i offset p ps)
  show ?case
  proof (cases "bitmap ! (i div 8) AND push_bit (i mod 8) 1 \<noteq> 0")
    case True
    with 2 show ?thesis by auto
  next
    case False
    obtain val n where r: "readParamValue (drop offset data) (pd_typ p) = Some (val, n)"
      using readParamValue_None [of "drop offset data" "pd_typ p"] "2.prems" by (cases "readParamValue (drop offset data) (pd_typ p)") auto
    have "offset + n \<le> length data" using readParamValue_bound [OF r] "2.prems"(1) by simp
    then show ?thesis using "2.IH"(2) [OF False _ r refl] "2.prems" False r by auto
  qed
qed simp

text \<open>The statements of a client: their key is their number, and there is one parameter descriptor per placeholder.\<close>

definition statement_ok :: "u32 \<times> preparedStatement \<Rightarrow> bool" where
  "statement_ok kst \<longleftrightarrow>
     (case kst of (k, st) \<Rightarrow> ps_id st = k \<and> ps_numParams st = count_list (ps_query st) (CHR ''?'') \<and> length (ps_params st) = ps_numParams st)"

definition session_ok :: "'e session \<Rightarrow> bool" where
  "session_ok s \<longleftrightarrow> list_all statement_ok (cl_statements (s_client s))"

lemma statement_ok_put: "list_all statement_ok m \<Longrightarrow> statement_ok (k, st) \<Longrightarrow> list_all statement_ok (put_key k st m)"
  using set_put_key_subset [of k st m] by (auto simp: list_all_iff)

lemma statement_ok_del: "list_all statement_ok m \<Longrightarrow> list_all statement_ok (del_key k m)"
  by (simp add: list_all_iff set_del_key)

lemma statement_ok_lookup: "list_all statement_ok m \<Longrightarrow> map_of m k = Some st \<Longrightarrow> statement_ok (k, st)"
  by (auto simp: list_all_iff dest: map_of_SomeD)

lemma boundParams_bound:
  "boundParams data offset ps = (qs, offset') \<Longrightarrow> offset \<le> length data \<Longrightarrow> offset' \<le> length data \<and> length qs = length ps"
  by (auto simp: boundParams_def split: if_splits dest!: readParamTypes_bound)

lemma handleQuery_client [simp]: "s_client (handleQuery rt api q s) = s_client s"
  by (simp add: handleQuery_def Let_def split: prod.split option.split sum.split)

lemma handleStmtExecute_client:
  assumes "handleStmtExecute rt api d s = Some s'" "session_ok s"
  shows "session_ok s'"
proof (cases "length d < 9 \<or> map_of (cl_statements (s_client s)) (le_word (slice 0 4 d)) = None")
  case True
  with assms show ?thesis by (auto simp: handleStmtExecute_def Let_def session_ok_def split: if_splits option.splits)
next
  case False
  then obtain st where st: "map_of (cl_statements (s_client s)) (le_word (slice 0 4 d)) = Some st" by auto
  have ok: "statement_ok (le_word (slice 0 4 d), st)" using statement_ok_lookup [OF _ st] assms(2) by (simp add: session_ok_def)
  obtain qs off where b: "boundParams d (9 + (ps_numParams st + 7) div 8) (ps_params st) = (qs, off)" by fastforce
  show ?thesis
  proof (cases "length d < 9 + (ps_numParams st + 7) div 8")
    case True
    with assms False st show ?thesis by (auto simp: handleStmtExecute_def Let_def session_ok_def)
  next
    case long: False
    have "length qs = length (ps_params st)" using boundParams_bound [OF b] long by simp
    then have "statement_ok (le_word (slice 0 4 d), st\<lparr>ps_params := qs\<rparr>)" using ok by (simp add: statement_ok_def)
    then have "list_all statement_ok (put_key (le_word (slice 0 4 d)) (st\<lparr>ps_params := qs\<rparr>) (cl_statements (s_client s)))"
      using assms(2) by (simp add: session_ok_def statement_ok_put)
    with assms(1) False long st b show ?thesis
      by (auto simp: handleStmtExecute_def Let_def session_ok_def split: if_splits option.splits prod.splits sum.splits)
  qed
qed

lemma command_keeps_session:
  "session_ok s \<Longrightarrow> command rt api cmd args s = Next s' \<Longrightarrow> session_ok s'"
  by (auto simp: command_def handleStatistics_def handleStmtPrepare_def handleStmtClose_def Let_def session_ok_def
        split: if_splits option.splits intro!: statement_ok_put statement_ok_del
        dest: handleStmtExecute_client [unfolded session_ok_def] simp: statement_ok_def)

lemma handleStmtExecute_returns:
  assumes "session_ok s" "\<forall>k \<le> length d. \<not> huge_length (drop k d)"
  shows "\<exists>s'. handleStmtExecute rt api d s = Some s'"
proof (cases "map_of (cl_statements (s_client s)) (le_word (slice 0 4 d))")
  case None
  then show ?thesis by (auto simp: handleStmtExecute_def Let_def)
next
  case (Some st)
  obtain qs off where b: "boundParams d (9 + (ps_numParams st + 7) div 8) (ps_params st) = (qs, off)" by fastforce
  show ?thesis
  proof (cases "length d < 9 + (ps_numParams st + 7) div 8")
    case False
    then have "off \<le> length d" using boundParams_bound [OF b] by simp
    then obtain vs where "readParamValues d (slice 9 (9 + (ps_numParams st + 7) div 8) d) 0 off qs = Some vs"
      using readParamValues_total assms(2) by blast
    with Some b False show ?thesis by (auto simp: handleStmtExecute_def Let_def split: prod.split sum.split)
  qed (use Some in \<open>auto simp: handleStmtExecute_def Let_def\<close>)
qed

lemma ReadLengthEncodedInt_prefix: "ReadLengthEncodedInt d = Inr r \<Longrightarrow> ReadLengthEncodedInt (d @ x) = Inr r"
proof -
  assume r: "ReadLengthEncodedInt d = Inr r"
  then obtain b t where d: "d = b # t" by (cases d) (auto simp: ReadLengthEncodedInt_def)
  have s: "slice 1 j (b # t @ x) = slice 1 j (b # t)" if "j \<le> Suc (length t)" for j
    using slice_append_left [of j "b # t" 1 x] that by simp
  consider "b = 0xfc" | "b = 0xfd" | "b = 0xfe" | "b \<notin> {0xfc, 0xfd, 0xfe}" by blast
  then show "ReadLengthEncodedInt (d @ x) = Inr r"
    by cases (use r s [of 3] s [of 4] s [of 9] in \<open>auto simp: d ReadLengthEncodedInt_def split: if_splits\<close>)
qed

lemma huge_length_prefix: "huge_length d \<Longrightarrow> huge_length (d @ x)"
  using ReadLengthEncodedInt_prefix [of d _ x] by (cases "ReadLengthEncodedInt d") (simp_all add: huge_length_def)

definition no_huge :: "bytes \<Rightarrow> bool" where
  "no_huge d \<longleftrightarrow> (\<forall>k \<le> length d. \<not> huge_length (drop k d))"

lemma no_huge_infix: "no_huge (a @ b @ c) \<Longrightarrow> no_huge b"
proof -
  assume h: "no_huge (a @ b @ c)"
  have "\<not> huge_length (drop k b)" if "k \<le> length b" for k
    using h [unfolded no_huge_def, rule_format, of "length a + k"] huge_length_prefix [of "drop k b" c] that by auto
  then show ?thesis by (simp add: no_huge_def)
qed

lemma no_huge_small: "list_all (\<lambda>b. b < 0xfb) d \<Longrightarrow> no_huge d"
proof -
  assume d: "list_all (\<lambda>b. b < 0xfb) d"
  have "\<not> huge_length (drop k d)" for k
  proof (cases "drop k d")
    case (Cons b t)
    then have "b < 0xfb" using d by (metis in_set_dropD list.set_intros(1) list_all_iff)
    then have "b \<noteq> 0xfb" "b \<noteq> 0xfc" "b \<noteq> 0xfd" "b \<noteq> 0xfe" by (auto simp: word_less_nat_alt)
    moreover have "sint (1 + ucast b :: u64) = int (1 + unat b)"
      using sint_of_nat_small [of "1 + unat b"] unsigned_less [of b, where 'a = nat] by simp
    ultimately show ?thesis using Cons by (simp add: huge_length_def ReadLengthEncodedInt_def)
  qed (simp add: huge_length_def ReadLengthEncodedInt_def)
  then show ?thesis by (simp add: no_huge_def)
qed

lemma ReadPacket_parts: "ReadPacket b = Inr (d, rest) \<Longrightarrow> \<exists>h. b = h @ d @ rest"
proof -
  assume r: "ReadPacket b = Inr (d, rest)"
  have "drop 4 b = take n (drop 4 b) @ drop (n + 4) b" for n by (metis append_take_drop_id drop_drop)
  then have "drop 4 b = d @ rest" using r by (auto simp: ReadPacket_def Let_def split: if_splits)
  then show ?thesis by (metis append_take_drop_id)
qed

lemma command_returns: "session_ok s \<Longrightarrow> no_huge args \<Longrightarrow> command rt api cmd args s \<noteq> Panic"
  using handleStmtExecute_returns [of s args rt api] by (auto simp: command_def no_huge_def)



text \<open>The arguments of an execute command for one text parameter whose length field is \<open>len\<close>\<close>

definition hugeExecute :: "u32 \<Rightarrow> u64 \<Rightarrow> bytes" where
  "hugeExecute k len = le_bytes 4 k @ [0, 1, 0, 0, 0] @ [0] @ [1, 0xfd, 0] @ 0xfe # le_bytes 8 len"

lemma sint_of_int_small: "- (2 ^ 63) \<le> x \<Longrightarrow> x < 2 ^ 63 \<Longrightarrow> sint (of_int x :: u64) = x"
  by (simp add: signed_of_int signed_take_bit_int_eq_self)

lemma readParamValue_huge: "2 ^ 63 \<le> unat len \<Longrightarrow> readParamValue (0xfe # le_bytes 8 (len :: u64)) 0xfd = None"
proof -
  assume l: "2 ^ 63 \<le> unat len"
  define y where "y = uint len"
  have "int (2 ^ 63) \<le> int (unat len)" using l by (simp only: of_nat_le_iff)
  then have y: "2 ^ 63 \<le> y" "y < 2 ^ 64" using unsigned_less [of len, where 'a = int] by (simp_all add: y_def)
  let ?x = "9 + y - 2 ^ 64"
  have "(of_int (2 ^ 64) :: u64) = 0" by simp
  then have "9 + len = of_int ?x" by (simp only: of_int_diff of_int_add y_def) simp
  moreover have "sint (of_int ?x :: u64) = ?x" using y by (intro sint_of_int_small) simp_all
  ultimately have "sint (9 + len) = ?x" by (simp only:)
  then have t: "sint (9 + len) < 9" using y by linarith
  have r: "ReadLengthEncodedInt (0xfe # le_bytes 8 len) = Inr (len, 9)"
    by (simp add: ReadLengthEncodedInt_def slice_def codec)
  show ?thesis using t by (simp add: readParamValue_def r Let_def)
qed

text \<open>
  C40. A parameter whose length field is \<open>2 ^ 63\<close> or more stops the server: a client that has prepared a statement with one placeholder
  and executes it with such a length makes the slice expression panic, and no handler recovers.
\<close>
theorem huge_parameter_length_panics:
  assumes "ReadPacket (s_in s) = Inr (0x17 # hugeExecute k len, rest)"
    and "map_of (cl_statements (s_client s)) k = Some st" "ps_numParams st = 1" "length (ps_params st) = 1"
    and "2 ^ 63 \<le> unat len"
  shows "commandLoop rt api s = None"
proof -
  let ?d = "hugeExecute k len"
  have d: "length ?d = 22" "slice 0 4 ?d = le_bytes 4 k" "slice 9 10 ?d = [0]" "?d ! 10 = 1" "?d ! 11 = 0xfd" "?d ! 12 = 0"
    "drop 13 ?d = 0xfe # le_bytes 8 len"
    by (simp_all add: hugeExecute_def slice_def nth_append)
  obtain p where p: "ps_params st = [p]" using assms(4) by (auto simp: length_Suc_conv)
  have b: "boundParams ?d 10 [p] = ([\<lparr>pd_typ = 0xfd, pd_signed = False\<rparr>], 13)" by (simp add: boundParams_def d)
  have "handleStmtExecute rt api ?d (s\<lparr>s_w := w, s_in := rest\<rparr>) = None" for w
    using assms(2,3) readParamValue_huge [OF assms(5)] by (simp add: handleStmtExecute_def Let_def d p b codec)
  then show ?thesis
    using assms(1) by (simp add: commandLoop.simps [of rt api s] command_def Let_def)
qed

theorem huge_parameter_length_panics_witness:
  "commandLoop rt_plain authApi
     ((newSession NewAuth [] (le_bytes 3 (23 :: u64) @ [0] @ 0x17 # hugeExecute 1 (2 ^ 63)))
        \<lparr>s_client := (s_client (newSession NewAuth [] []))\<lparr>cl_statements :=
           [(1, \<lparr>ps_id = 1, ps_query = ''?'', ps_numParams = 1, ps_params = [\<lparr>pd_typ = 0, pd_signed = False\<rparr>]\<rparr>)]\<rparr>\<rparr>) = None"
proof -
  have "ReadPacket (le_bytes 3 (23 :: u64) @ [0] @ 0x17 # hugeExecute 1 (2 ^ 63)) = Inr (0x17 # hugeExecute 1 (2 ^ 63), [])"
    using ReadPacket_frame [of "0x17 # hugeExecute 1 (2 ^ 63)" 0 "[]"] by (simp add: hugeExecute_def)
  moreover have "(2 ^ 63 :: nat) \<le> unat (2 ^ 63 :: u64)" by (simp add: unsigned_numeral)
  ultimately show ?thesis
    by (intro huge_parameter_length_panics [where k = 1 and len = "2 ^ 63" and rest = "[]" and
        st = "\<lparr>ps_id = 1, ps_query = ''?'', ps_numParams = 1, ps_params = [\<lparr>pd_typ = 0, pd_signed = False\<rparr>]\<rparr>"]) simp_all
qed

section \<open>Answers\<close>

lemma tell_wrote:
  assumes "pw_alive w"
  shows "\<exists>parts. parts \<noteq> [] \<and> wrote w (tell (WritePacket d) w) parts"
proof -
  obtain w' parts where "WritePacket d w = (w', Inr ())" "wrote w w' parts" "concat parts = d" "length d \<le> 0xffffff \<Longrightarrow> parts = [d]"
    using WritePacket_wrote [OF assms, of d] by metis
  then have "parts \<noteq> [] \<and> wrote w (tell (WritePacket d) w) parts" by (cases parts) (auto simp: tell_def)
  then show ?thesis by blast
qed

lemma tell_wrote_small: "pw_alive w \<Longrightarrow> length d \<le> 0xffffff \<Longrightarrow> wrote w (tell (WritePacket d) w) [d]"
  using wrote_packet [of w d] by (auto simp: tell_def WritePacket_def)

lemma tells_wrote:
  assumes "pw_alive w" "ds \<noteq> []"
  shows "\<exists>parts. parts \<noteq> [] \<and> wrote w (tells (map WritePacket ds) w) parts"
  using assms
proof (induction ds arbitrary: w)
  case (Cons d ds)
  obtain ps where ps: "ps \<noteq> []" "wrote w (tell (WritePacket d) w) ps" using tell_wrote [OF Cons.prems(1)] by blast
  show ?case
  proof (cases "ds = []")
    case True
    with ps show ?thesis by (auto simp: tells_def)
  next
    case False
    then obtain qs where "wrote (tell (WritePacket d) w) (tells (map WritePacket ds) (tell (WritePacket d) w)) qs"
      using Cons.IH [of "tell (WritePacket d) w"] wrote_alive [OF ps(2)] Cons.prems(1) by auto
    from wrote_trans [OF ps(2) this] ps(1) show ?thesis unfolding list.map tells_Cons by (intro exI [of _ "ps @ qs"]) simp
  qed
qed simp

lemma tells_wrote_small:
  "pw_alive w \<Longrightarrow> list_all (\<lambda>d. length d \<le> 0xffffff) ds \<Longrightarrow> wrote w (tells (map WritePacket ds) w) ds"
proof (induction ds arbitrary: w)
  case Nil
  then show ?case by (simp add: tells_def wrote_Nil)
next
  case (Cons d ds)
  then have d: "wrote w (tell (WritePacket d) w) [d]" by (simp add: tell_wrote_small)
  with Cons have "wrote (tell (WritePacket d) w) (tells (map WritePacket ds) (tell (WritePacket d) w)) ds" by (simp add: wrote_alive)
  from wrote_trans [OF d this] show ?case by (simp add: tells_Cons)
qed

text \<open>The packets of a result set as data\<close>

definition eofPayload :: bytes where "eofPayload = [0xfe, 0, 0, 0, 0]"

definition resultPayloads :: "string \<Rightarrow> string list \<Rightarrow> bytes list \<Rightarrow> bytes list" where
  "resultPayloads schema columns rows =
     [writeLengthEncodedInt (of_nat (length columns))] @ map (\<lambda>c. columnPayload schema [] [] c c 255 33 MYSQL_TYPE_VAR_STRING 0 0) columns
     @ [eofPayload] @ rows @ [eofPayload]"

lemma WriteEOF_0: "WriteEOF 0 0 = WritePacket eofPayload"
  by (simp add: WriteEOF_def eofPayload_def le_bytes_def numeral_2_eq_2)

lemma resultSet_payloads: "resultSet schema columns (map WritePacket rows) = map WritePacket (resultPayloads schema columns rows)"
  by (simp add: resultSet_def resultPayloads_def columnPackets_def WriteResultHeader_def WriteColumnDefinition_def WriteEOF_0)

text \<open>
  C30. A query result arrives as one result set: for a statement that the engine answers with columns, the server sends exactly the column count, one
  definition per column, an EOF packet, one packet per row with the texts of its values, and a final EOF packet, numbered from the first on.
\<close>
theorem query_result_packets:
  assumes "pw_alive (s_w s)" "handleInfoSchemaQuery rt api query (srv_engine (s_server s)) = (e, None)"
    and "Execute api e query = (e', Inr result)" "\<not> res_IsExecutionResult result" "res_Columns result \<noteq> []"
    and "list_all (\<lambda>d. length d \<le> 0xffffff)
      (resultPayloads (cl_database (s_client s)) (res_Columns result) (map (\<lambda>r. rowPayload rt (rowValues r)) (res_Rows result)))"
  shows "wrote (s_w s) (s_w (handleQuery rt api query s))
    (resultPayloads (cl_database (s_client s)) (res_Columns result) (map (\<lambda>r. rowPayload rt (rowValues r)) (res_Rows result)))"
proof -
  have rows: "map (\<lambda>row. WriteRowData rt (rowValues row)) (res_Rows result) = map WritePacket (map (\<lambda>r. rowPayload rt (rowValues r)) (res_Rows result))"
    by (simp add: WriteRowData_def)
  have "s_w (handleQuery rt api query s) = tells (map WritePacket (resultPayloads (cl_database (s_client s)) (res_Columns result)
      (map (\<lambda>r. rowPayload rt (rowValues r)) (res_Rows result)))) (s_w s)"
    using assms(2-5) by (simp add: handleQuery_def Let_def rows resultSet_payloads del: map_map)
  then show ?thesis using tells_wrote_small [OF assms(1,6)] by simp
qed

definition fixedApi :: "Result \<Rightarrow> unit engine_api" where
  "fixedApi r = \<lparr>Execute = (\<lambda>e q. (e, Inr r)), GetAuth = (\<lambda>_. NewAuth)\<rparr>"

definition oneRow :: Result where
  "oneRow = \<lparr>res_Columns = [''a''], res_Rows = [NewRow [NewStringValue ''x'']], res_RowsAffected = 0, res_LastInsertID = 0,
     res_IsExecutionResult = False, res_Message = []\<rparr>"

lemma info_none: "handleInfoSchemaQuery rt_plain (fixedApi r) ''SELECT 1'' () = ((), None)"
  by (simp add: handleInfoSchemaQuery_def Let_def) code_simp

theorem query_result_packets_witness:
  "wrote newWriter (s_w (handleQuery rt_plain (fixedApi oneRow) ''SELECT 1'' (newSession () [] [])))
     (resultPayloads [] [''a''] [rowPayload rt_plain [GString ''x'']])"
proof -
  have small: "length (writeLengthEncodedString s) = Suc (length s)" if "length s < 100" for s
  proof -
    have "(of_nat (length s) :: u64) \<le> 250" using that by (simp add: word_le_nat_alt unat_of_nat take_bit_nat_eq_self)
    then show ?thesis by (simp add: writeLengthEncodedString_def writeLengthEncodedInt_def)
  qed
  have "list_all (\<lambda>d. length d \<le> 0xffffff) (resultPayloads [] [''a''] [rowPayload rt_plain [GString ''x'']])"
    by (simp add: resultPayloads_def columnPayload_def rowPayload_def small eofPayload_def writeLengthEncodedInt_def
        writeUint16_def writeUint32_def)
  then show ?thesis
    using query_result_packets [of "newSession () [] []" rt_plain "fixedApi oneRow" "''SELECT 1''" "()" "()" oneRow] info_none [of oneRow]
    by (simp add: fixedApi_def oneRow_def rowValues_def NewRow_def NewStringValue_def) (simp add: newSession_def)
qed

definition answered :: "PacketWriter \<Rightarrow> PacketWriter \<Rightarrow> bool" where
  "answered w w' \<longleftrightarrow> (\<exists>parts. parts \<noteq> [] \<and> wrote w w' parts)"

lemma answered_tell: "pw_alive w \<Longrightarrow> answered w (tell (WritePacket d) w)"
  using tell_wrote by (simp add: answered_def)

lemmas packet_methods = WriteOK_def WriteError_def WriteRowData_def WriteBinaryRowData_def WriteColumnDefinition_def WriteResultHeader_def WriteEOF_0

lemma answered_tells: "pw_alive w \<Longrightarrow> ds \<noteq> [] \<Longrightarrow> answered w (tells (map WritePacket ds) w)"
  using tells_wrote by (simp add: answered_def)

lemma answered_resultSet: "pw_alive w \<Longrightarrow> answered w (tells (resultSet schema columns (map (\<lambda>r. WritePacket (f r)) rows)) w)"
  using answered_tells [of w "resultPayloads schema columns (map f rows)"] resultSet_payloads [of schema columns "map f rows"]
  by (simp add: resultPayloads_def comp_def)

lemma handleQuery_answered:
  assumes "pw_alive (s_w s)"
    and "\<And>e e' r. Execute api e query = (e', Inr r) \<Longrightarrow> \<not> res_IsExecutionResult r \<Longrightarrow> res_Columns r \<noteq> []"
  shows "answered (s_w s) (s_w (handleQuery rt api query s))"
  using assms
  by (auto simp: handleQuery_def writeResult_def packet_methods Let_def answered_tell answered_resultSet split: prod.split option.split sum.split)

lemma handleStmtExecute_answered:
  assumes "pw_alive (s_w s)" "handleStmtExecute rt api d s = Some s'"
  shows "answered (s_w s) (s_w s')"
  using assms answered_tells [of "s_w s" "[writeLengthEncodedInt 0, eofPayload]"]
  by (auto simp: handleStmtExecute_def packet_methods Let_def answered_tell answered_resultSet
      split: if_splits prod.splits option.splits sum.splits)

lemma handleStmtPrepare_answered: "pw_alive (s_w s) \<Longrightarrow> answered (s_w s) (s_w (handleStmtPrepare query s))"
proof -
  assume alive: "pw_alive (s_w s)"
  let ?n = "count_list query (CHR ''?'')"
  let ?ds = "preparePayload (srv_stmtIDCounter (s_server s) + 1) ?n
    # (if 0 < ?n then map (\<lambda>i. columnPayload [] [] [] (''param'' @ dec_nat i) [] 255 33 MYSQL_TYPE_VAR_STRING 0 0) [0..<?n] @ [eofPayload] else [])"
  have "s_w (handleStmtPrepare query s) = tells (map WritePacket ?ds) (s_w s)"
    by (simp add: handleStmtPrepare_def Let_def packet_methods comp_def)
  with answered_tells [OF alive, of ?ds] show ?thesis by simp
qed

text \<open>
  C31. Every command is answered: on a connection that takes writes, each command other than quit and closing a statement makes the server send at least
  one complete packet before it reads the next command, provided that the engine gives every result that is not an execution result some columns.
\<close>
theorem command_answered:
  assumes "pw_alive (s_w s)" "cmd \<notin> {0x01, 0x19}" "command rt api cmd args s = Next s'"
    and "\<And>e q e' r. Execute api e q = (e', Inr r) \<Longrightarrow> \<not> res_IsExecutionResult r \<Longrightarrow> res_Columns r \<noteq> []"
  shows "\<exists>parts. parts \<noteq> [] \<and> wrote (s_w s) (s_w s') parts"
proof -
  have "answered (s_w s) (s_w s')"
    using assms handleQuery_answered [OF assms(1), of api "string_of args" rt] handleStmtPrepare_answered [OF assms(1), of "string_of args"]
    by (auto simp: command_def handleStatistics_def packet_methods answered_tell split: if_splits option.splits intro: handleStmtExecute_answered)
  then show ?thesis by (simp add: answered_def)
qed

theorem command_answered_witness:
  "\<exists>parts s'. command rt_plain (fixedApi oneRow) 0x03 (bytes_of ''SELECT 1'') (newSession () [] []) = Next s' \<and> parts \<noteq> [] \<and> wrote newWriter (s_w s') parts"
proof -
  have "\<exists>s'. command rt_plain (fixedApi oneRow) 0x03 (bytes_of ''SELECT 1'') (newSession () [] []) = Next s'" by (simp add: command_def)
  then obtain s' where s': "command rt_plain (fixedApi oneRow) 0x03 (bytes_of ''SELECT 1'') (newSession () [] []) = Next s'" by blast
  have "\<exists>parts. parts \<noteq> [] \<and> wrote (s_w (newSession () [] [])) (s_w s') parts"
    by (rule command_answered [OF _ _ s']) (auto simp: fixedApi_def oneRow_def)
  with s' show ?thesis by auto
qed

end
