(* ===== verification/Ast.thy ===== *)
theory Ast
  imports Lexer
begin

text \<open>
  \<^verbatim>\<open>src/parser/ast.go\<close>: the syntax trees. \<^verbatim>\<open>Expression\<close> and \<^verbatim>\<open>Statement\<close> are structs with a type tag and the fields of all
  variants; here they are datatypes with a constructor per tag that has the fields the parser fills in for it.
  Expressions and queries contain each other. The printed form (\<^verbatim>\<open>String\<close>) is what names the columns of a result.
\<close>

section \<open>Expressions and queries\<close>

datatype Expression =
    ExprLiteral godata
  | ExprColumn string string
  | ExprFunction string "Expression list"
  | ExprUnaryOp string Expression
  | ExprBinaryOp Expression string Expression
  | ExprCase "Expression option" "(Expression \<times> Expression) list" "Expression option"
  | ExprIn Expression "Expression list" "SelectStmt option"
  | ExprBetween Expression Expression Expression
  | ExprExists SelectStmt
  | ExprSubquery SelectStmt
  | ExprStar string
  | ExprMatch string string string int
and SelectStmt =
  SelectStmt (sel_Distinct: bool) (sel_Columns: "SelectColumn list") (sel_From: "FromClause option") (sel_Joins: "JoinClause list")
    (sel_Where: "Expression option") (sel_GroupBy: "string list") (sel_Having: "Expression option")
    (sel_OrderBy: "(Expression \<times> string) list") (sel_Limit: "Expression option") (sel_Offset: "Expression option")
    (sel_Union: "SelectStmt list") (sel_UnionAll: bool)
and SelectColumn = SelectColumn (sc_Expr: "Expression option") (sc_Alias: string) (sc_TableName: string) (sc_All: bool)
and FromClause = FromClause (fr_Table: string) (fr_Database: string) (fr_Alias: string) (fr_Subquery: "SelectStmt option")
and JoinClause = JoinClause (jn_Type: string) (jn_Table: string) (jn_Alias: string) (jn_On: "Expression option") (jn_Using: "string list")

text \<open>\<^verbatim>\<open>WhenClause\<close> and \<^verbatim>\<open>OrderByClause\<close> are pairs.\<close>

type_synonym WhenClause = "Expression \<times> Expression"
type_synonym OrderByClause = "Expression \<times> string"

definition NewLiteralExpr :: "godata \<Rightarrow> Expression" where
  "NewLiteralExpr v = ExprLiteral v"

definition NewColumnExpr :: "string \<Rightarrow> Expression" where
  "NewColumnExpr name = ExprColumn [] name"

definition NewQualifiedColumnExpr :: "string \<Rightarrow> string \<Rightarrow> Expression" where
  "NewQualifiedColumnExpr table column = ExprColumn table column"

definition NewFunctionExpr :: "go_rt \<Rightarrow> string \<Rightarrow> Expression list \<Rightarrow> Expression" where
  "NewFunctionExpr rt name args = ExprFunction (ToUpper rt name) args"

definition NewBinaryExpr :: "Expression \<Rightarrow> string \<Rightarrow> Expression \<Rightarrow> Expression" where
  "NewBinaryExpr left op right = ExprBinaryOp left op right"

definition NewUnaryExpr :: "string \<Rightarrow> Expression \<Rightarrow> Expression" where
  "NewUnaryExpr op right = ExprUnaryOp op right"

definition NewStarExpr :: "string \<Rightarrow> Expression" where
  "NewStarExpr table = ExprStar table"

lemmas new_expr_defs = NewLiteralExpr_def NewColumnExpr_def NewQualifiedColumnExpr_def NewFunctionExpr_def NewBinaryExpr_def
  NewUnaryExpr_def NewStarExpr_def

section \<open>Statements\<close>

text \<open>
  \<^verbatim>\<open>ColumnDef\<close> of the parser (the storage has a type of the same name). Its field \<^verbatim>\<open>Precision\<close> is never set.
\<close>

record ColumnDefAST =
  cd_Name :: string
  cd_Type :: string
  cd_Length :: u64
  cd_Scale :: u64
  cd_Nullable :: bool
  cd_Default :: "Expression option"
  cd_AutoInc :: bool
  cd_PrimaryKey :: bool
  cd_Unique :: bool
  cd_References :: string

record Constraint =
  cn_Name :: string
  cn_Type :: string
  cn_Columns :: "string list"
  cn_RefTable :: string
  cn_RefColumns :: "string list"
  cn_Expr :: "Expression option"

record AlterAction =
  aa_Type :: string
  aa_Column :: string
  aa_ColumnDef :: "ColumnDefAST option"
  aa_NewName :: string

datatype Statement =
    StmtSelect SelectStmt
  | StmtInsert (ins_Table: string) (ins_Columns: "string list") (ins_ValuesList: "Expression list list") (ins_Select: "SelectStmt option")
  | StmtUpdate (upd_Table: string) (upd_Updates: "(string, Expression) gomap") (upd_Where: "Expression option") (upd_Limit: "Expression option")
  | StmtDelete (del_Table: string) (del_Where: "Expression option") (del_Limit: "Expression option")
  | StmtCreateTable string bool "ColumnDefAST list" "Constraint list"
  | StmtDropTable string bool
  | StmtAlterTable string "AlterAction list"
  | StmtCreateIndex string string "string list" bool bool "(string, string) gomap option"
  | StmtDropIndex string string
  | StmtCreateDatabase string bool
  | StmtDropDatabase string bool
  | StmtDescribe string
  | StmtSet string Expression
  | StmtShow string string string
  | StmtUse string
  | StmtBackup string
  | StmtRestore string
  | StmtBegin
  | StmtCommit
  | StmtRollback

text \<open>\<^verbatim>\<open>stmt.Type.String()\<close>\<close>

fun StatementType_String :: "Statement \<Rightarrow> string" where
  "StatementType_String (StmtSelect _) = ''SELECT''"
| "StatementType_String (StmtInsert _ _ _ _) = ''INSERT''"
| "StatementType_String (StmtUpdate _ _ _ _) = ''UPDATE''"
| "StatementType_String (StmtDelete _ _ _) = ''DELETE''"
| "StatementType_String (StmtCreateTable _ _ _ _) = ''CREATE TABLE''"
| "StatementType_String (StmtDropTable _ _) = ''DROP TABLE''"
| "StatementType_String (StmtAlterTable _ _) = ''ALTER TABLE''"
| "StatementType_String (StmtCreateIndex _ _ _ _ _ _) = ''CREATE INDEX''"
| "StatementType_String (StmtDropIndex _ _) = ''DROP INDEX''"
| "StatementType_String (StmtCreateDatabase _ _) = ''CREATE DATABASE''"
| "StatementType_String (StmtDropDatabase _ _) = ''DROP DATABASE''"
| "StatementType_String (StmtDescribe _) = ''DESCRIBE''"
| "StatementType_String (StmtSet _ _) = ''SET''"
| "StatementType_String (StmtShow _ _ _) = ''SHOW''"
| "StatementType_String (StmtUse _) = ''USE''"
| "StatementType_String (StmtBackup _) = ''BACKUP''"
| "StatementType_String (StmtRestore _) = ''RESTORE''"
| "StatementType_String StmtBegin = ''BEGIN''"
| "StatementType_String StmtCommit = ''COMMIT''"
| "StatementType_String StmtRollback = ''ROLLBACK''"

section \<open>Printing\<close>

fun joinText :: "string \<Rightarrow> string list \<Rightarrow> string" where
  "joinText sep [] = []"
| "joinText sep [s] = s"
| "joinText sep (s # t # ss) = s @ sep @ joinText sep (t # ss)"

text \<open>\<^verbatim>\<open>Expression.String\<close>; the types without a case (queries) print as the empty text.\<close>

fun Expression_String :: "go_rt \<Rightarrow> Expression \<Rightarrow> string" where
  "Expression_String rt (ExprLiteral v) = (case v of GString s \<Rightarrow> CHR 0x27 # s @ [CHR 0x27] | _ \<Rightarrow> fmt_v rt v)"
| "Expression_String rt (ExprColumn table column) = (if table \<noteq> [] then table @ ''.'' @ column else column)"
| "Expression_String rt (ExprFunction name args) = name @ ''('' @ joinText '', '' (map (Expression_String rt) args) @ '')''"
| "Expression_String rt (ExprUnaryOp op right) = op @ Expression_String rt right"
| "Expression_String rt (ExprBinaryOp left op right) = Expression_String rt left @ '' '' @ op @ '' '' @ Expression_String rt right"
| "Expression_String rt (ExprCase caseExpr whens elseExpr) =
     ''CASE''
     @ (case caseExpr of None \<Rightarrow> [] | Some e \<Rightarrow> '' '' @ Expression_String rt e)
     @ concat (map (\<lambda>w. '' WHEN '' @ Expression_String rt (fst w) @ '' THEN '' @ Expression_String rt (snd w)) whens)
     @ (case elseExpr of None \<Rightarrow> [] | Some e \<Rightarrow> '' ELSE '' @ Expression_String rt e)
     @ '' END''"
| "Expression_String rt (ExprIn left list subq) = Expression_String rt left @ '' IN ('' @ joinText '', '' (map (Expression_String rt) list) @ '')''"
| "Expression_String rt (ExprBetween left low high) =
     Expression_String rt left @ '' BETWEEN '' @ Expression_String rt low @ '' AND '' @ Expression_String rt high"
| "Expression_String rt (ExprExists subq) = []"
| "Expression_String rt (ExprSubquery subq) = []"
| "Expression_String rt (ExprStar table) = (if table \<noteq> [] then table @ ''.*'' else ''*'')"
| "Expression_String rt (ExprMatch column query mode level) =
     ''MATCH('' @ column @ '') AGAINST('' @ CHR 0x27 # query @ [CHR 0x27] @ (if mode \<noteq> [] then '' WITH '' @ mode else []) @ '')''"

definition SelectColumn_String :: "go_rt \<Rightarrow> SelectColumn \<Rightarrow> string" where
  "SelectColumn_String rt c =
     (let expr = (case sc_Expr c of None \<Rightarrow> [] | Some e \<Rightarrow> Expression_String rt e)
      in if sc_All c then ''*'' else if sc_Alias c \<noteq> [] then expr @ '' AS '' @ sc_Alias c else expr)"

definition ColumnDefAST_String :: "go_rt \<Rightarrow> ColumnDefAST \<Rightarrow> string" where
  "ColumnDefAST_String rt c =
     cd_Name c @ '' '' @ cd_Type c
     @ (if 0 < sint (cd_Length c)
        then ''('' @ dec_int (sint (cd_Length c)) @ (if 0 < sint (cd_Scale c) then '', '' @ dec_int (sint (cd_Scale c)) else []) @ '')''
        else [])
     @ (if cd_PrimaryKey c then '' PRIMARY KEY'' else [])
     @ (if cd_AutoInc c then '' AUTO_INCREMENT'' else [])
     @ (if \<not> cd_Nullable c \<and> \<not> cd_PrimaryKey c then '' NOT NULL'' else [])
     @ (if cd_Unique c \<and> \<not> cd_PrimaryKey c then '' UNIQUE'' else [])
     @ (case cd_Default c of None \<Rightarrow> [] | Some e \<Rightarrow> '' DEFAULT '' @ Expression_String rt e)"

end
