(* ===== verification/Parser.thy ===== *)
theory Parser
  imports Ast "HOL-Library.Sublist"
begin

text \<open>
  \<^verbatim>\<open>src/parser/parser.go\<close>: the recursive-descent parser for expressions and queries. The state of a parser is the list of the
  tokens from \<^verbatim>\<open>p.pos\<close> on. The functions of the grammar call each other through \<open>pe\<close> (\<^verbatim>\<open>parseExpression\<close>) and \<open>ps\<close>
  (\<^verbatim>\<open>parseSelect\<close>); \<open>parseExprN\<close> and \<open>parseSelN\<close> tie the knot with a bound on the depth of these calls, and loops have a bound
  on their rounds. Shown: the bounds that \<open>parseExpression\<close> and \<open>parseSelect\<close> use are never reached, so that both satisfy
  the equations of the source; every parser leaves a suffix of its input, and a successful one has consumed a token.
\<close>

section \<open>The token stream\<close>

datatype parse_error = ParseError string | OutOfFuel

type_synonym 'a parser = "(Token list, parse_error, 'a) go_method"

definition eofToken :: Token where
  "eofToken = \<lparr>tok_Type = TokEOF, tok_Value = [], tok_Pos = 0\<rparr>"

definition current :: "Token list \<Rightarrow> Token" where
  "current ts = (if ts = [] then eofToken else hd ts)"

definition peekToken :: "nat \<Rightarrow> Token list \<Rightarrow> Token" where
  "peekToken offset ts = current (drop offset ts)"

definition advance :: "Token parser" where
  "advance ts = (tl ts, Inr (current ts))"

text \<open>\<^verbatim>\<open>%v\<close> of a \<^verbatim>\<open>TokenType\<close>, which has no \<^verbatim>\<open>String\<close> method\<close>

fun tokCode :: "TokenType \<Rightarrow> nat" where
  "tokCode TokEOF = 0" | "tokCode TokError = 1" | "tokCode TokIdent = 2" | "tokCode TokNumber = 3"
| "tokCode TokString = 4" | "tokCode TokKeyword = 5" | "tokCode TokOperator = 6" | "tokCode TokComma = 7"
| "tokCode TokLParen = 8" | "tokCode TokRParen = 9" | "tokCode TokLBracket = 10" | "tokCode TokRBracket = 11"
| "tokCode TokSemicolon = 12" | "tokCode TokDot = 13" | "tokCode TokStar = 14" | "tokCode TokParameter = 15"

definition expect :: "go_rt \<Rightarrow> TokenType \<Rightarrow> string \<Rightarrow> unit parser" where
  "expect rt typ value ts =
     (let tok = current ts
      in if tok_Type tok \<noteq> typ
         then (ts, Inl (ParseError (''expected '' @ dec_nat (tokCode typ) @ '', got '' @ dec_nat (tokCode (tok_Type tok)))))
         else if value \<noteq> [] \<and> ToUpper rt (tok_Value tok) \<noteq> ToUpper rt value
         then (ts, Inl (ParseError (''expected '' @ value @ '', got '' @ tok_Value tok)))
         else (tl ts, Inr ()))"

definition match :: "go_rt \<Rightarrow> TokenType \<Rightarrow> string list \<Rightarrow> Token list \<Rightarrow> bool" where
  "match rt typ values ts \<longleftrightarrow>
     (let tok = current ts in tok_Type tok = typ \<and> (values = [] \<or> (\<exists>v \<in> set values. ToUpper rt (tok_Value tok) = ToUpper rt v)))"

abbreviation matchKeyword :: "go_rt \<Rightarrow> string list \<Rightarrow> Token list \<Rightarrow> bool" where
  "matchKeyword rt keywords \<equiv> match rt TokKeyword keywords"

text \<open>
  The idioms of the source: \<open>ifMatch\<close> is \<^verbatim>\<open>if p.match(..) { .. } else { .. }\<close>, \<open>whenMatch\<close> the same with \<^verbatim>\<open>p.advance()\<close> as the
  first step of the first branch (which gets the token), \<open>errorGot\<close> is \<^verbatim>\<open>fmt.Errorf("...%s", p.current())\<close>.
\<close>

definition ifMatch :: "go_rt \<Rightarrow> TokenType \<Rightarrow> string list \<Rightarrow> 'a parser \<Rightarrow> 'a parser \<Rightarrow> 'a parser" where
  "ifMatch rt typ values p q ts = (if match rt typ values ts then p ts else q ts)"

definition whenMatch :: "go_rt \<Rightarrow> TokenType \<Rightarrow> string list \<Rightarrow> (Token \<Rightarrow> 'a parser) \<Rightarrow> 'a parser \<Rightarrow> 'a parser" where
  "whenMatch rt typ values p q ts = (if match rt typ values ts then p (current ts) (tl ts) else q ts)"

definition errorGot :: "string \<Rightarrow> 'a parser" where
  "errorGot msg ts = (ts, Inl (ParseError (msg @ Token_String (current ts))))"

text \<open>\<^verbatim>\<open>fmt.Errorf("...%s", p.current().Value)\<close>; \<^verbatim>\<open>p.match(TokOperator) && p.current().Value == v\<close>\<close>

definition errorValue :: "string \<Rightarrow> 'a parser" where
  "errorValue msg ts = (ts, Inl (ParseError (msg @ tok_Value (current ts))))"

definition whenOperator :: "go_rt \<Rightarrow> string \<Rightarrow> 'a parser \<Rightarrow> 'a parser \<Rightarrow> 'a parser" where
  "whenOperator rt v p q ts = (if match rt TokOperator [] ts \<and> tok_Value (current ts) = v then p (tl ts) else q ts)"

definition wantIdent :: "go_rt \<Rightarrow> string \<Rightarrow> string parser" where
  "wantIdent rt msg = whenMatch rt TokIdent [] (\<lambda>tok. returnS (tok_Value tok)) (errorGot msg)"

definition optIdent :: "go_rt \<Rightarrow> string parser" where
  "optIdent rt = whenMatch rt TokIdent [] (\<lambda>tok. returnS (tok_Value tok)) (returnS [])"

definition skipKeyword :: "go_rt \<Rightarrow> string list \<Rightarrow> bool parser" where
  "skipKeyword rt keywords = whenMatch rt TokKeyword keywords (\<lambda>_. returnS True) (returnS False)"

text \<open>
  The two loops of the grammar: \<open>commaListN\<close> is \<^verbatim>\<open>for { x; if !p.match(TokComma) { break }; p.advance() }\<close>, \<open>leftLoopN\<close> reads
  \<^verbatim>\<open>op right\<close> while an operator follows and builds the tree to the left. The bound is the number of rounds.
\<close>

fun commaListN :: "nat \<Rightarrow> go_rt \<Rightarrow> 'a parser \<Rightarrow> 'a list parser" where
  "commaListN 0 rt p = failS OutOfFuel"
| "commaListN (Suc k) rt p =
     bindS p (\<lambda>x. whenMatch rt TokComma [] (\<lambda>_. bindS (commaListN k rt p) (\<lambda>xs. returnS (x # xs))) (returnS [x]))"

definition commaList :: "go_rt \<Rightarrow> 'a parser \<Rightarrow> 'a list parser" where
  "commaList rt p ts = commaListN (Suc (length ts)) rt p ts"

fun leftLoopN :: "nat \<Rightarrow> go_rt \<Rightarrow> TokenType \<Rightarrow> string list \<Rightarrow> (Token \<Rightarrow> string) \<Rightarrow> Expression parser \<Rightarrow> Expression \<Rightarrow> Expression parser" where
  "leftLoopN 0 rt typ ops op p left = failS OutOfFuel"
| "leftLoopN (Suc k) rt typ ops op p left =
     whenMatch rt typ ops (\<lambda>tok. bindS p (\<lambda>right. leftLoopN k rt typ ops op p (NewBinaryExpr left (op tok) right))) (returnS left)"

definition leftLoop :: "go_rt \<Rightarrow> TokenType \<Rightarrow> string list \<Rightarrow> (Token \<Rightarrow> string) \<Rightarrow> Expression parser \<Rightarrow> Expression \<Rightarrow> Expression parser" where
  "leftLoop rt typ ops op p left ts = leftLoopN (Suc (length ts)) rt typ ops op p left ts"

section \<open>Names\<close>

definition isKeyword :: "go_rt \<Rightarrow> string \<Rightarrow> bool" where
  "isKeyword rt s \<longleftrightarrow> ToUpper rt s \<in> set sqlKeywords"

definition matchName :: "go_rt \<Rightarrow> (Token \<Rightarrow> 'a parser) \<Rightarrow> 'a parser \<Rightarrow> 'a parser" where
  "matchName rt p q = whenMatch rt TokIdent [] p (whenMatch rt TokKeyword [] p q)"

definition parseTableNameWithDB :: "go_rt \<Rightarrow> (string \<times> string) parser" where
  "parseTableNameWithDB rt =
     matchName rt
       (\<lambda>tok. whenMatch rt TokDot []
          (\<lambda>_. matchName rt (\<lambda>tok2. returnS (tok_Value tok, tok_Value tok2)) (returnS ([], tok_Value tok)))
          (returnS ([], tok_Value tok)))
       (returnS ([], []))"

definition parseTableName :: "go_rt \<Rightarrow> string parser" where
  "parseTableName rt = bindS (parseTableNameWithDB rt) (\<lambda>(database, table). returnS table)"

text \<open>\<^verbatim>\<open>if !p.match(TokIdent) { return error }; p.parseTableName()\<close>\<close>

definition wantTable :: "go_rt \<Rightarrow> string \<Rightarrow> string parser" where
  "wantTable rt msg = ifMatch rt TokIdent [] (parseTableName rt) (errorGot msg)"

text \<open>\<^verbatim>\<open>if p.match(TokIdent) && !p.isKeyword(p.current().Value)\<close>\<close>

definition optAlias :: "go_rt \<Rightarrow> string parser" where
  "optAlias rt ts =
     (if match rt TokIdent [] ts \<and> \<not> isKeyword rt (tok_Value (current ts)) then (tl ts, Inr (tok_Value (current ts))) else (ts, Inr []))"

text \<open>\<^verbatim>\<open>(a, b, ...)\<close>, a list of identifiers in parentheses\<close>

definition columnList :: "go_rt \<Rightarrow> string list parser" where
  "columnList rt =
     bindS (expect rt TokLParen []) (\<lambda>_.
     bindS (commaList rt (wantIdent rt ''expected column name, got '')) (\<lambda>cols.
     bindS (expect rt TokRParen []) (\<lambda>_. returnS cols)))"

section \<open>Expressions\<close>

definition parseNumberLiteral :: "go_rt \<Rightarrow> Expression parser" where
  "parseNumberLiteral rt =
     bindS advance (\<lambda>tok.
       let value = tok_Value tok;
           asFloat = (case rt_parseFloat rt value of
               None \<Rightarrow> failS (ParseError (''invalid number: '' @ value))
             | Some f \<Rightarrow> returnS (NewLiteralExpr (GFloat64 f)))
       in if CHR ''.'' \<notin> set value \<and> CHR ''E'' \<notin> set (ToUpper rt value)
          then case ParseInt64 value of Inr n \<Rightarrow> returnS (NewLiteralExpr (GInt64 n)) | Inl _ \<Rightarrow> asFloat
          else asFloat)"

definition matchMode :: "go_rt \<Rightarrow> string parser" where
  "matchMode rt =
     whenMatch rt TokKeyword [''WITH'']
       (\<lambda>_. whenMatch rt TokKeyword [''QUERY'']
          (\<lambda>_. bindS (expect rt TokKeyword ''EXPANSION'') (\<lambda>_. returnS ''QUERY EXPANSION''))
          (whenMatch rt TokKeyword [''BOOLEAN'']
             (\<lambda>_. bindS (expect rt TokKeyword ''MODE'') (\<lambda>_. returnS ''BOOLEAN''))
             (returnS [])))
       (returnS [])"

definition matchLevel :: "go_rt \<Rightarrow> int parser" where
  "matchLevel rt =
     whenMatch rt TokKeyword [''LEVEL'']
       (\<lambda>_. whenMatch rt TokNumber []
          (\<lambda>tok. returnS (case ParseInt64 (tok_Value tok) of
               Inr n \<Rightarrow> if 1 \<le> sint n \<and> sint n \<le> 3 then sint n else 0
             | Inl _ \<Rightarrow> 0))
          (errorGot ''expected level number after LEVEL: ''))
       (returnS 0)"

text \<open>\<^verbatim>\<open>fmt.Errorf("expected ( after MATCH: %v", err)\<close>\<close>

definition wrapError :: "string \<Rightarrow> 'a parser \<Rightarrow> 'a parser" where
  "wrapError msg p ts = (case p ts of (ts', Inl (ParseError e)) \<Rightarrow> (ts', Inl (ParseError (msg @ e))) | r \<Rightarrow> r)"

definition parseMatchAgainst :: "go_rt \<Rightarrow> Expression parser" where
  "parseMatchAgainst rt =
     bindS advance (\<lambda>_.
     bindS (wrapError ''expected ( after MATCH: '' (expect rt TokLParen [])) (\<lambda>_.
     bindS (wantIdent rt ''expected column name in MATCH: '') (\<lambda>column.
     bindS (expect rt TokRParen []) (\<lambda>_.
     whenMatch rt TokKeyword [''AGAINST'']
       (\<lambda>_. bindS (expect rt TokLParen []) (\<lambda>_.
          whenMatch rt TokString []
            (\<lambda>query. bindS (matchMode rt) (\<lambda>mode. bindS (matchLevel rt) (\<lambda>level.
               bindS (expect rt TokRParen []) (\<lambda>_. returnS (ExprMatch column (tok_Value query) mode level)))))
            (errorGot ''expected search query string: '')))
       (errorGot ''expected AGAINST after MATCH(column): '')))))"

text \<open>One argument of a function call, with \<^verbatim>\<open>DISTINCT\<close> as in aggregate functions\<close>

definition parseArg :: "go_rt \<Rightarrow> Expression parser \<Rightarrow> Expression parser" where
  "parseArg rt pe =
     whenMatch rt TokKeyword [''DISTINCT''] (\<lambda>_. bindS pe (\<lambda>e. returnS (NewUnaryExpr ''DISTINCT'' e))) pe"

definition parseArgs :: "go_rt \<Rightarrow> Expression parser \<Rightarrow> Expression list parser" where
  "parseArgs rt pe =
     whenMatch rt TokStar [] (\<lambda>_. returnS [NewStarExpr []])
       (ifMatch rt TokRParen [] (returnS []) (commaList rt (parseArg rt pe)))"

definition parseIdentOrFunction :: "go_rt \<Rightarrow> Expression parser \<Rightarrow> Expression parser" where
  "parseIdentOrFunction rt pe =
     bindS advance (\<lambda>tok.
     whenMatch rt TokLParen []
       (\<lambda>_. bindS (parseArgs rt pe) (\<lambda>args. bindS (expect rt TokRParen []) (\<lambda>_. returnS (NewFunctionExpr rt (tok_Value tok) args))))
       (whenMatch rt TokDot []
          (\<lambda>_. matchName rt (\<lambda>col. returnS (NewQualifiedColumnExpr (tok_Value tok) (tok_Value col)))
             (failS (ParseError (''expected column name after '' @ [CHR 0x27] @ ''.'' @ [CHR 0x27]))))
          (returnS (NewColumnExpr (tok_Value tok)))))"

definition parseParenExpr :: "go_rt \<Rightarrow> Expression parser \<Rightarrow> SelectStmt parser \<Rightarrow> Expression parser" where
  "parseParenExpr rt pe ps =
     bindS advance (\<lambda>_.
     ifMatch rt TokKeyword [''SELECT'']
       (bindS ps (\<lambda>subq. bindS (expect rt TokRParen []) (\<lambda>_. returnS (ExprSubquery subq))))
       (bindS pe (\<lambda>e. bindS (expect rt TokRParen []) (\<lambda>_. returnS e))))"

fun whenLoopN :: "nat \<Rightarrow> go_rt \<Rightarrow> Expression parser \<Rightarrow> WhenClause list parser" where
  "whenLoopN 0 rt pe = failS OutOfFuel"
| "whenLoopN (Suc k) rt pe =
     whenMatch rt TokKeyword [''WHEN'']
       (\<lambda>_. bindS pe (\<lambda>cond. bindS (expect rt TokKeyword ''THEN'') (\<lambda>_. bindS pe (\<lambda>thn.
          bindS (whenLoopN k rt pe) (\<lambda>ws. returnS ((cond, thn) # ws))))))
       (returnS [])"

definition whenLoop :: "go_rt \<Rightarrow> Expression parser \<Rightarrow> WhenClause list parser" where
  "whenLoop rt pe ts = whenLoopN (Suc (length ts)) rt pe ts"

definition parseCaseExpr :: "go_rt \<Rightarrow> Expression parser \<Rightarrow> Expression parser" where
  "parseCaseExpr rt pe =
     bindS advance (\<lambda>_.
     bindS (ifMatch rt TokKeyword [''WHEN''] (returnS None) (bindS pe (\<lambda>e. returnS (Some e)))) (\<lambda>caseExpr.
     bindS (whenLoop rt pe) (\<lambda>whens.
     bindS (whenMatch rt TokKeyword [''ELSE''] (\<lambda>_. bindS pe (\<lambda>e. returnS (Some e))) (returnS None)) (\<lambda>elseExpr.
     bindS (expect rt TokKeyword ''END'') (\<lambda>_. returnS (ExprCase caseExpr whens elseExpr))))))"

definition parseExistsExpr :: "go_rt \<Rightarrow> SelectStmt parser \<Rightarrow> Expression parser" where
  "parseExistsExpr rt ps =
     bindS advance (\<lambda>_.
     bindS (expect rt TokLParen []) (\<lambda>_.
     bindS ps (\<lambda>subq.
     bindS (expect rt TokRParen []) (\<lambda>_. returnS (ExprExists subq)))))"

definition keywordExpr :: "go_rt \<Rightarrow> Expression parser \<Rightarrow> SelectStmt parser \<Rightarrow> Expression parser" where
  "keywordExpr rt pe ps =
     whenMatch rt TokKeyword [''NULL''] (\<lambda>_. returnS (NewLiteralExpr GNil))
    (whenMatch rt TokKeyword [''TRUE''] (\<lambda>_. returnS (NewLiteralExpr (GBool True)))
    (whenMatch rt TokKeyword [''FALSE''] (\<lambda>_. returnS (NewLiteralExpr (GBool False)))
    (ifMatch rt TokKeyword [''CASE''] (parseCaseExpr rt pe)
    (ifMatch rt TokKeyword [''EXISTS''] (parseExistsExpr rt ps)
    (ifMatch rt TokKeyword [''MATCH''] (parseMatchAgainst rt)
    (parseIdentOrFunction rt pe))))))"

definition parsePrimaryExpr :: "go_rt \<Rightarrow> Expression parser \<Rightarrow> SelectStmt parser \<Rightarrow> Expression parser" where
  "parsePrimaryExpr rt pe ps ts =
     (case tok_Type (current ts) of
        TokNumber \<Rightarrow> parseNumberLiteral rt ts
      | TokString \<Rightarrow> (tl ts, Inr (NewLiteralExpr (GString (tok_Value (current ts)))))
      | TokKeyword \<Rightarrow> keywordExpr rt pe ps ts
      | TokIdent \<Rightarrow> parseIdentOrFunction rt pe ts
      | TokLParen \<Rightarrow> parseParenExpr rt pe ps ts
      | TokStar \<Rightarrow> (tl ts, Inr (NewStarExpr []))
      | _ \<Rightarrow> errorGot ''unexpected token: '' ts)"

fun parseUnaryExprN :: "nat \<Rightarrow> go_rt \<Rightarrow> Expression parser \<Rightarrow> SelectStmt parser \<Rightarrow> Expression parser" where
  "parseUnaryExprN 0 rt pe ps = failS OutOfFuel"
| "parseUnaryExprN (Suc k) rt pe ps =
     whenMatch rt TokOperator [''+'', ''-'']
       (\<lambda>tok. bindS (parseUnaryExprN k rt pe ps) (\<lambda>right. returnS (NewUnaryExpr (tok_Value tok) right)))
       (parsePrimaryExpr rt pe ps)"

definition parseUnaryExpr :: "go_rt \<Rightarrow> Expression parser \<Rightarrow> SelectStmt parser \<Rightarrow> Expression parser" where
  "parseUnaryExpr rt pe ps ts = parseUnaryExprN (Suc (length ts)) rt pe ps ts"

definition parseMultiplicativeExpr :: "go_rt \<Rightarrow> Expression parser \<Rightarrow> SelectStmt parser \<Rightarrow> Expression parser" where
  "parseMultiplicativeExpr rt pe ps =
     bindS (parseUnaryExpr rt pe ps) (leftLoop rt TokOperator [''*'', ''/'', ''%''] tok_Value (parseUnaryExpr rt pe ps))"

text \<open>The value of the operator is the token's for \<^verbatim>\<open>+\<close> and \<^verbatim>\<open>-\<close> and the literal \<^verbatim>\<open>||\<close> otherwise, which is the same text.\<close>

definition parseAdditiveExpr :: "go_rt \<Rightarrow> Expression parser \<Rightarrow> SelectStmt parser \<Rightarrow> Expression parser" where
  "parseAdditiveExpr rt pe ps =
     bindS (parseMultiplicativeExpr rt pe ps)
       (leftLoop rt TokOperator [''+'', ''-'', ''||'']
          (\<lambda>tok. if ToUpper rt (tok_Value tok) \<in> {''+'', ''-''} then tok_Value tok else ''||'') (parseMultiplicativeExpr rt pe ps))"

definition parseInExpr :: "go_rt \<Rightarrow> Expression parser \<Rightarrow> SelectStmt parser \<Rightarrow> Expression \<Rightarrow> Expression parser" where
  "parseInExpr rt pe ps left =
     bindS (expect rt TokLParen []) (\<lambda>_.
     ifMatch rt TokKeyword [''SELECT'']
       (bindS ps (\<lambda>subq. bindS (expect rt TokRParen []) (\<lambda>_. returnS (ExprIn left [] (Some subq)))))
       (bindS (commaList rt pe) (\<lambda>list. bindS (expect rt TokRParen []) (\<lambda>_. returnS (ExprIn left list None)))))"

definition parseBetweenExpr :: "go_rt \<Rightarrow> Expression parser \<Rightarrow> SelectStmt parser \<Rightarrow> Expression \<Rightarrow> Expression parser" where
  "parseBetweenExpr rt pe ps left =
     bindS (parseAdditiveExpr rt pe ps) (\<lambda>low.
     bindS (expect rt TokKeyword ''AND'') (\<lambda>_.
     bindS (parseAdditiveExpr rt pe ps) (\<lambda>high. returnS (ExprBetween left low high))))"

definition parseIsExpr :: "go_rt \<Rightarrow> Expression \<Rightarrow> Expression parser" where
  "parseIsExpr rt left =
     whenMatch rt TokKeyword [''NOT'']
       (\<lambda>_. whenMatch rt TokKeyword [''NULL'']
          (\<lambda>_. returnS (NewBinaryExpr left ''IS NOT'' (NewLiteralExpr GNil)))
          (failS (ParseError ''expected NULL after IS NOT'')))
       (whenMatch rt TokKeyword [''NULL'']
          (\<lambda>_. returnS (NewBinaryExpr left ''IS'' (NewLiteralExpr GNil)))
          (failS (ParseError ''expected NULL after IS'')))"

definition parseComparisonExpr :: "go_rt \<Rightarrow> Expression parser \<Rightarrow> SelectStmt parser \<Rightarrow> Expression parser" where
  "parseComparisonExpr rt pe ps =
     bindS (parseAdditiveExpr rt pe ps) (\<lambda>left.
       let withOp = (\<lambda>op. bindS (parseAdditiveExpr rt pe ps) (\<lambda>right. returnS (NewBinaryExpr left op right)))
       in whenMatch rt TokOperator [''='', ''<'', ''>'', ''<='', ''>='', ''<>'', ''!=''] (\<lambda>tok. withOp (tok_Value tok))
         (whenMatch rt TokKeyword [''IS''] (\<lambda>_. parseIsExpr rt left)
         (whenMatch rt TokKeyword [''IN''] (\<lambda>_. parseInExpr rt pe ps left)
         (whenMatch rt TokKeyword [''BETWEEN''] (\<lambda>_. parseBetweenExpr rt pe ps left)
         (whenMatch rt TokKeyword [''LIKE''] (\<lambda>_. withOp ''LIKE'')
         (returnS left))))))"

definition parseNotExpr :: "go_rt \<Rightarrow> Expression parser \<Rightarrow> SelectStmt parser \<Rightarrow> Expression parser" where
  "parseNotExpr rt pe ps =
     whenMatch rt TokKeyword [''NOT'']
       (\<lambda>_. bindS (parseComparisonExpr rt pe ps) (\<lambda>right. returnS (NewUnaryExpr ''NOT'' right)))
       (parseComparisonExpr rt pe ps)"

definition parseAndExpr :: "go_rt \<Rightarrow> Expression parser \<Rightarrow> SelectStmt parser \<Rightarrow> Expression parser" where
  "parseAndExpr rt pe ps =
     bindS (parseNotExpr rt pe ps) (leftLoop rt TokKeyword [''AND''] (\<lambda>_. ''AND'') (parseNotExpr rt pe ps))"

definition parseOrExpr :: "go_rt \<Rightarrow> Expression parser \<Rightarrow> SelectStmt parser \<Rightarrow> Expression parser" where
  "parseOrExpr rt pe ps =
     bindS (parseAndExpr rt pe ps) (leftLoop rt TokKeyword [''OR''] (\<lambda>_. ''OR'') (parseAndExpr rt pe ps))"

section \<open>Queries\<close>

definition parseSelectColumn :: "go_rt \<Rightarrow> Expression parser \<Rightarrow> SelectColumn parser" where
  "parseSelectColumn rt pe ts =
     (if match rt TokStar [] ts then (tl ts, Inr (SelectColumn None [] [] True))
      else if match rt TokIdent [] ts \<and> tok_Type (peekToken 1 ts) = TokDot \<and> tok_Type (peekToken 2 ts) = TokStar
      then (drop 3 ts, Inr (SelectColumn None [] (tok_Value (current ts)) True))
      else bindS pe (\<lambda>e.
             bindS (whenMatch rt TokKeyword [''AS''] (\<lambda>_. optIdent rt) (optAlias rt)) (\<lambda>alias.
             returnS (SelectColumn (Some e) alias [] False))) ts)"

definition parseFromClause :: "go_rt \<Rightarrow> SelectStmt parser \<Rightarrow> FromClause parser" where
  "parseFromClause rt ps =
     bindS (whenMatch rt TokLParen []
              (\<lambda>_. bindS ps (\<lambda>subq. bindS (expect rt TokRParen []) (\<lambda>_. returnS ([], [], Some subq))))
              (ifMatch rt TokIdent []
                 (bindS (parseTableNameWithDB rt) (\<lambda>(database, table). returnS (database, table, None)))
                 (errorGot ''expected table name, got ''))) (\<lambda>(database, table, subq).
     bindS (skipKeyword rt [''AS'']) (\<lambda>_.
     bindS (optAlias rt) (\<lambda>alias. returnS (FromClause table database alias subq))))"

text \<open>A call of \<^verbatim>\<open>p.expect\<close> whose error is dropped\<close>

definition ignoreError :: "unit parser \<Rightarrow> unit parser" where
  "ignoreError p ts = (fst (p ts), Inr ())"

definition joinType :: "go_rt \<Rightarrow> string parser" where
  "joinType rt ts =
     (let kind = ToUpper rt (tok_Value (current ts)); join = ignoreError (expect rt TokKeyword ''JOIN'')
      in if kind = ''INNER'' \<or> kind = ''CROSS'' then bindS join (\<lambda>_. returnS kind) (tl ts)
         else if kind = ''LEFT'' \<or> kind = ''RIGHT''
         then bindS (skipKeyword rt [''OUTER'']) (\<lambda>_. bindS join (\<lambda>_. returnS kind)) (tl ts)
         else (tl ts, Inr ''INNER''))"

definition parseJoinClause :: "go_rt \<Rightarrow> Expression parser \<Rightarrow> JoinClause parser" where
  "parseJoinClause rt pe =
     bindS (joinType rt) (\<lambda>kind.
     bindS (wantTable rt ''expected table name, got '') (\<lambda>table.
     bindS (skipKeyword rt [''AS'']) (\<lambda>_.
     bindS (optAlias rt) (\<lambda>alias.
     bindS (whenMatch rt TokKeyword [''ON''] (\<lambda>_. bindS pe (\<lambda>e. returnS (Some e))) (returnS None)) (\<lambda>on.
     bindS (whenMatch rt TokKeyword [''USING''] (\<lambda>_. columnList rt) (returnS [])) (\<lambda>cols.
     returnS (JoinClause kind table alias on cols)))))))"

fun joinLoopN :: "nat \<Rightarrow> go_rt \<Rightarrow> Expression parser \<Rightarrow> JoinClause list parser" where
  "joinLoopN 0 rt pe = failS OutOfFuel"
| "joinLoopN (Suc k) rt pe =
     ifMatch rt TokKeyword [''JOIN'', ''INNER'', ''LEFT'', ''RIGHT'', ''CROSS'']
       (bindS (parseJoinClause rt pe) (\<lambda>j. bindS (joinLoopN k rt pe) (\<lambda>js. returnS (j # js))))
       (returnS [])"

definition joinLoop :: "go_rt \<Rightarrow> Expression parser \<Rightarrow> JoinClause list parser" where
  "joinLoop rt pe ts = joinLoopN (Suc (length ts)) rt pe ts"

definition parseSelectColumns :: "go_rt \<Rightarrow> Expression parser \<Rightarrow> SelectColumn list parser" where
  "parseSelectColumns rt pe = commaList rt (parseSelectColumn rt pe)"

definition parseGroupByList :: "go_rt \<Rightarrow> string list parser" where
  "parseGroupByList rt = commaList rt (wantIdent rt ''expected column name, got '')"

definition parseOrderByList :: "go_rt \<Rightarrow> Expression parser \<Rightarrow> OrderByClause list parser" where
  "parseOrderByList rt pe =
     commaList rt (bindS pe (\<lambda>e.
       whenMatch rt TokKeyword [''ASC''] (\<lambda>_. returnS (e, ''ASC''))
         (whenMatch rt TokKeyword [''DESC''] (\<lambda>_. returnS (e, ''DESC'')) (returnS (e, ''ASC'')))))"

text \<open>An optional clause: a keyword, possibly followed by \<^verbatim>\<open>BY\<close>, and what it introduces\<close>

definition optClause :: "go_rt \<Rightarrow> string \<Rightarrow> 'a parser \<Rightarrow> 'a option parser" where
  "optClause rt keyword p = whenMatch rt TokKeyword [keyword] (\<lambda>_. bindS p (\<lambda>x. returnS (Some x))) (returnS None)"

definition optByClause :: "go_rt \<Rightarrow> string \<Rightarrow> 'a list parser \<Rightarrow> 'a list parser" where
  "optByClause rt keyword p =
     whenMatch rt TokKeyword [keyword] (\<lambda>_. bindS (expect rt TokKeyword ''BY'') (\<lambda>_. p)) (returnS [])"

text \<open>The loop over \<^verbatim>\<open>UNION\<close>: the queries and the \<^verbatim>\<open>ALL\<close> of the last one\<close>

fun unionLoopN :: "nat \<Rightarrow> go_rt \<Rightarrow> SelectStmt parser \<Rightarrow> bool \<Rightarrow> (SelectStmt list \<times> bool) parser" where
  "unionLoopN 0 rt ps all = failS OutOfFuel"
| "unionLoopN (Suc k) rt ps all =
     whenMatch rt TokKeyword [''UNION'']
       (\<lambda>_. bindS (skipKeyword rt [''ALL'']) (\<lambda>all. bindS ps (\<lambda>right.
          bindS (unionLoopN k rt ps all) (\<lambda>(us, all). returnS (right # us, all)))))
       (returnS ([], all))"

definition unionLoop :: "go_rt \<Rightarrow> SelectStmt parser \<Rightarrow> (SelectStmt list \<times> bool) parser" where
  "unionLoop rt ps ts = unionLoopN (Suc (length ts)) rt ps False ts"

definition parseSelectWith :: "go_rt \<Rightarrow> Expression parser \<Rightarrow> SelectStmt parser \<Rightarrow> SelectStmt parser" where
  "parseSelectWith rt pe ps =
     bindS advance (\<lambda>_.
     bindS (skipKeyword rt [''DISTINCT'']) (\<lambda>distinct.
     bindS (parseSelectColumns rt pe) (\<lambda>cols.
     bindS (optClause rt ''FROM'' (parseFromClause rt ps)) (\<lambda>from.
     bindS (joinLoop rt pe) (\<lambda>joins.
     bindS (optClause rt ''WHERE'' pe) (\<lambda>whr.
     bindS (optByClause rt ''GROUP'' (parseGroupByList rt)) (\<lambda>groupBy.
     bindS (optClause rt ''HAVING'' pe) (\<lambda>having.
     bindS (optByClause rt ''ORDER'' (parseOrderByList rt pe)) (\<lambda>orderBy.
     bindS (optClause rt ''LIMIT'' pe) (\<lambda>limit.
     bindS (optClause rt ''OFFSET'' pe) (\<lambda>offset.
     bindS (unionLoop rt ps) (\<lambda>(unions, unionAll).
     returnS (SelectStmt distinct cols from joins whr groupBy having orderBy limit offset unions unionAll)))))))))))))"

section \<open>The knot\<close>

fun parseExprN :: "nat \<Rightarrow> go_rt \<Rightarrow> Expression parser" and parseSelN :: "nat \<Rightarrow> go_rt \<Rightarrow> SelectStmt parser" where
  "parseExprN 0 rt = failS OutOfFuel"
| "parseExprN (Suc n) rt = parseOrExpr rt (parseExprN n rt) (parseSelN n rt)"
| "parseSelN 0 rt = failS OutOfFuel"
| "parseSelN (Suc n) rt = parseSelectWith rt (parseExprN n rt) (parseSelN n rt)"

definition parseExpression :: "go_rt \<Rightarrow> Expression parser" where
  "parseExpression rt ts = parseExprN (2 * length ts + 1) rt ts"

definition parseSelect :: "go_rt \<Rightarrow> SelectStmt parser" where
  "parseSelect rt ts = parseSelN (2 * length ts + 2) rt ts"

section \<open>Bounds and progress\<close>

text \<open>
  \<open>progress s ts r\<close>: the result \<open>r\<close> of a parser on \<open>ts\<close> is not the exhausted bound, the rest is a suffix of \<open>ts\<close>, and, when \<open>s\<close>
  is set, a successful parser has consumed a token. \<open>agree s n p q\<close>: on inputs of at most \<open>n\<close> tokens \<open>p\<close> and \<open>q\<close> do
  the same and make this progress.
\<close>

definition progress :: "bool \<Rightarrow> Token list \<Rightarrow> Token list \<times> (parse_error + 'a) \<Rightarrow> bool" where
  "progress s ts r \<longleftrightarrow>
     snd r \<noteq> Inl OutOfFuel \<and> suffix (fst r) ts \<and> (s \<longrightarrow> (\<forall>x. snd r = Inr x \<longrightarrow> length (fst r) < length ts))"

definition agree :: "bool \<Rightarrow> nat \<Rightarrow> 'a parser \<Rightarrow> 'a parser \<Rightarrow> bool" where
  "agree s n p q \<longleftrightarrow> (\<forall>ts. length ts \<le> n \<longrightarrow> q ts = p ts \<and> progress s ts (p ts))"

named_theorems agree_rules "rules that follow the structure of a parser"

lemma agreeI: "(\<And>ts. length ts \<le> n \<Longrightarrow> q ts = p ts \<and> progress s ts (p ts)) \<Longrightarrow> agree s n p q"
  by (auto simp: agree_def)

lemma agreeD: "agree s n p q \<Longrightarrow> length ts \<le> n \<Longrightarrow> q ts = p ts" "agree s n p q \<Longrightarrow> length ts \<le> n \<Longrightarrow> progress s ts (p ts)"
  by (auto simp: agree_def)

lemma progress_weaken: "progress s ts r \<Longrightarrow> (s' \<longrightarrow> s) \<Longrightarrow> progress s' ts r"
  by (auto simp: progress_def)

lemma agree_mono: "agree s n p q \<Longrightarrow> m \<le> n \<Longrightarrow> (s' \<longrightarrow> s) \<Longrightarrow> agree s' m p q"
  unfolding agree_def by (meson order_trans progress_weaken)

lemma agree_weaken: "agree True n p q \<Longrightarrow> agree s n p q"
  by (rule agree_mono) auto

lemma progress_trans:
  "progress s ts (ts', Inr x) \<Longrightarrow> progress s' ts' r \<Longrightarrow> progress (s \<or> s') ts r"
  by (auto simp: progress_def dest: suffix_length_le intro: suffix_order.trans)

lemma progress_tl: "ts \<noteq> [] \<Longrightarrow> progress False (tl ts) r \<Longrightarrow> progress True ts r"
  using progress_trans [of True ts "tl ts" undefined False r] by (simp add: progress_def suffix_tl)

lemma agree_return [agree_rules]: "agree False n (returnS x) (returnS x)"
  by (simp add: agree_def progress_def returnS_def)

lemma agree_fail [agree_rules]: "e \<noteq> OutOfFuel \<Longrightarrow> agree True n (failS e) (failS e)"
  by (simp add: agree_def progress_def failS_def)

lemma agree_errorGot [agree_rules]: "agree True n (errorGot msg) (errorGot msg)"
  by (simp add: agree_def progress_def errorGot_def)

lemma agree_errorValue [agree_rules]: "agree True n (errorValue msg) (errorValue msg)"
  by (simp add: agree_def progress_def errorValue_def)

lemma agree_advance [agree_rules]: "agree False n advance advance"
  by (simp add: agree_def progress_def advance_def suffix_tl)

text \<open>
  The rules have a flag per premise, so that they can be applied backwards: the flags of the parts are found first, and the
  last premise compares them with the flag of the whole.
\<close>

lemma flag_refl [agree_rules]: "s \<longrightarrow> s"
  by simp

lemma agree_bind [agree_rules]:
  assumes p: "agree s1 n p p'" and k: "\<And>x. (s1 \<longrightarrow> 0 < n) \<Longrightarrow> agree s2 (if s1 then n - 1 else n) (k x) (k' x)"
    and s: "s \<longrightarrow> s1 \<or> s2"
  shows "agree s n (bindS p k) (bindS p' k')"
proof (rule agreeI)
  fix ts :: "Token list"
  assume ts: "length ts \<le> n"
  obtain ts' r where r: "p ts = (ts', r)" by (cases "p ts")
  note p' = agreeD [OF p ts, unfolded r]
  show "bindS p' k' ts = bindS p k ts \<and> progress s ts (bindS p k ts)"
  proof (cases r)
    case (Inl e)
    with r p' show ?thesis by (simp add: bindS_def progress_def)
  next
    case (Inr x)
    have len: "length ts' \<le> (if s1 then n - 1 else n)" "s1 \<longrightarrow> 0 < n"
      using ts p'(2) Inr suffix_length_le [of ts' ts] by (auto simp: progress_def)
    from progress_trans [OF p'(2) [unfolded Inr] agreeD(2) [OF k [OF len(2)] len(1)]]
    have "progress s ts (k x ts')" by (rule progress_weaken) (use s in simp)
    with Inr r p'(1) agreeD(1) [OF k [OF len(2)] len(1)] show ?thesis by (simp add: bindS_def)
  qed
qed

lemma match_nonempty: "match rt typ vs ts \<Longrightarrow> typ \<noteq> TokEOF \<Longrightarrow> ts \<noteq> []"
  by (auto simp: match_def current_def eofToken_def)

lemma agree_guard:
  assumes p: "\<And>tok. 0 < n \<Longrightarrow> agree s1 (n - 1) (p tok) (p' tok)" and q: "agree s2 n q q'" and c: "\<And>ts. c ts \<Longrightarrow> ts \<noteq> []"
    and s: "s \<longrightarrow> s2"
  shows "agree s n (\<lambda>ts. if c ts then p (current ts) (tl ts) else q ts) (\<lambda>ts. if c ts then p' (current ts) (tl ts) else q' ts)"
proof (rule agreeI)
  fix ts :: "Token list"
  assume ts: "length ts \<le> n"
  let ?r = "\<lambda>p q. if c ts then p (current ts) (tl ts) else q ts"
  show "?r p' q' = ?r p q \<and> progress s ts (?r p q)"
  proof (cases "c ts")
    case True
    then have ne: "ts \<noteq> []" by (rule c)
    then have len: "0 < n" "length (tl ts) \<le> n - 1" using ts by (cases ts; simp)+
    note p = agreeD [OF p [OF len(1)] len(2)]
    have "progress True ts (p (current ts) (tl ts))" using p(2) by (intro progress_tl ne) (rule progress_weaken, simp_all)
    with True p(1) show ?thesis using progress_weaken [of True ts "p (current ts) (tl ts)" s] by simp
  next
    case False
    with agreeD [OF q ts] s show ?thesis using progress_weaken [of s2 ts "q ts" s] by simp
  qed
qed

lemma agree_whenMatch [agree_rules]:
  assumes "\<And>tok. 0 < n \<Longrightarrow> agree s1 (n - 1) (p tok) (p' tok)" "agree s2 n q q'" "typ \<noteq> TokEOF" "s \<longrightarrow> s2"
  shows "agree s n (whenMatch rt typ vs p q) (whenMatch rt typ vs p' q')"
  unfolding whenMatch_def by (rule agree_guard [OF assms(1,2) match_nonempty assms(4)]) (use assms(3) in auto)

lemma agree_whenOperator [agree_rules]:
  assumes "0 < n \<Longrightarrow> agree s1 (n - 1) p p'" "agree s2 n q q'" "s \<longrightarrow> s2"
  shows "agree s n (whenOperator rt v p q) (whenOperator rt v p' q')"
  unfolding whenOperator_def
  by (rule agree_guard [where p = "\<lambda>_. p" and p' = "\<lambda>_. p'", OF assms(1,2) _ assms(3)]) (auto dest: match_nonempty)

lemma agree_ifMatch [agree_rules]:
  "agree s1 n p p' \<Longrightarrow> agree s2 n q q' \<Longrightarrow> s \<longrightarrow> s1 \<and> s2 \<Longrightarrow> agree s n (ifMatch rt typ vs p q) (ifMatch rt typ vs p' q')"
proof (rule agreeI)
  fix ts :: "Token list"
  assume "agree s1 n p p'" "agree s2 n q q'" "s \<longrightarrow> s1 \<and> s2" "length ts \<le> n"
  then have "progress s ts (p ts)" "progress s ts (q ts)" "p' ts = p ts" "q' ts = q ts"
    by (blast dest: agreeD intro: progress_weaken)+
  then show "ifMatch rt typ vs p' q' ts = ifMatch rt typ vs p q ts \<and> progress s ts (ifMatch rt typ vs p q ts)"
    by (simp add: ifMatch_def)
qed

lemma agree_expect [agree_rules]: "typ \<noteq> TokEOF \<Longrightarrow> agree True n (expect rt typ v) (expect rt typ v)"
proof -
  assume "typ \<noteq> TokEOF"
  then have "ts \<noteq> []" if "tok_Type (current ts) = typ" for ts using that by (auto simp: current_def eofToken_def)
  then show ?thesis by (auto simp: agree_def progress_def expect_def Let_def suffix_tl)
qed

lemma agree_prod [agree_rules]: "(\<And>a b. agree s n (f a b) (f' a b)) \<Longrightarrow> agree s n (case_prod f x) (case_prod f' x)"
  by (cases x) simp

lemma agree_if [agree_rules]: "agree s1 n p p' \<Longrightarrow> agree s2 n q q' \<Longrightarrow> s \<longrightarrow> s1 \<and> s2 \<Longrightarrow> agree s n (if c then p else q) (if c then p' else q')"
  by (auto intro: agree_mono)

lemma agree_sum [agree_rules]:
  "(\<And>e. agree s1 n (f e) (f' e)) \<Longrightarrow> (\<And>v. agree s2 n (g v) (g' v)) \<Longrightarrow> s \<longrightarrow> s1 \<and> s2 \<Longrightarrow> agree s n (case_sum f g x) (case_sum f' g' x)"
  by (cases x) (auto intro: agree_mono)

lemma agree_option [agree_rules]:
  "agree s1 n f f' \<Longrightarrow> (\<And>v. agree s2 n (g v) (g' v)) \<Longrightarrow> s \<longrightarrow> s1 \<and> s2 \<Longrightarrow> agree s n (case_option f g x) (case_option f' g' x)"
  by (cases x) (auto intro: agree_mono)

lemma agree_wantIdent [agree_rules]: "agree True n (wantIdent rt msg) (wantIdent rt msg)"
  unfolding wantIdent_def by (rule agree_rules | simp)+

lemma agree_optIdent [agree_rules]: "agree False n (optIdent rt) (optIdent rt)"
  unfolding optIdent_def by (rule agree_rules | simp)+

lemma agree_skipKeyword [agree_rules]: "agree False n (skipKeyword rt ks) (skipKeyword rt ks)"
  unfolding skipKeyword_def by (rule agree_rules | simp)+

lemma agree_optAlias [agree_rules]: "agree False n (optAlias rt) (optAlias rt)"
  by (simp add: agree_def progress_def optAlias_def suffix_tl)

subsection \<open>Loops\<close>

lemma agree_commaListN:
  "agree True n p p' \<Longrightarrow> n < k \<Longrightarrow> n < k' \<Longrightarrow> agree True n (commaListN k rt p) (commaListN k' rt p')"
proof (induction k arbitrary: n k')
  case (Suc k)
  then obtain j where j: "k' = Suc j" by (cases k') auto
  have p: "agree True m p p'" if "m \<le> n" for m using Suc.prems(1) that by (rule agree_mono) simp
  have IH: "agree True m (commaListN k rt p) (commaListN j rt p')" if "m < n" for m
    using that Suc.prems(2,3) j by (intro Suc.IH p) auto
  show ?case unfolding j commaListN.simps by (rule agree_rules p IH | simp)+
qed simp

lemma agree_commaList [agree_rules]: "agree True n p p' \<Longrightarrow> agree True n (commaList rt p) (commaList rt p')"
  unfolding commaList_def 
  by (rule agreeI) (blast intro: agreeD [OF agree_commaListN [OF agree_mono]])

lemma agree_leftLoopN:
  "agree True n p p' \<Longrightarrow> n < k \<Longrightarrow> n < k' \<Longrightarrow> typ \<noteq> TokEOF \<Longrightarrow>
   agree False n (leftLoopN k rt typ ops op p left) (leftLoopN k' rt typ ops op p' left)"
proof (induction k arbitrary: n k' left)
  case (Suc k)
  then obtain j where j: "k' = Suc j" by (cases k') auto
  have p: "agree True m p p'" if "m \<le> n" for m using Suc.prems(1) that by (rule agree_mono) simp
  have IH: "agree False m (leftLoopN k rt typ ops op p l) (leftLoopN j rt typ ops op p' l)" if "m < n" for m l
    using that Suc.prems j by (intro Suc.IH p) auto
  show ?case unfolding j leftLoopN.simps by (rule agree_rules p IH | simp add: Suc.prems(4))+
qed simp

lemma agree_leftLoop [agree_rules]:
  "agree True n p p' \<Longrightarrow> typ \<noteq> TokEOF \<Longrightarrow> agree False n (leftLoop rt typ ops op p left) (leftLoop rt typ ops op p' left)"
  unfolding leftLoop_def by (rule agreeI) (blast intro: agreeD [OF agree_leftLoopN [OF agree_mono]])

lemma agree_below: "agree True n p p' \<Longrightarrow> m \<le> n \<Longrightarrow> agree True m p p'"
  by (auto elim: agree_mono)

lemma agree_pred: "(0 < n \<Longrightarrow> agree True (n - 1) p p') \<Longrightarrow> m \<le> n \<Longrightarrow> 0 < m \<Longrightarrow> agree True (m - 1) p p'"
  by (auto elim: agree_below)

lemma agree_whenLoopN:
  "(0 < n \<Longrightarrow> agree True (n - 1) p p') \<Longrightarrow> n < k \<Longrightarrow> n < k' \<Longrightarrow> agree False n (whenLoopN k rt p) (whenLoopN k' rt p')"
proof (induction k arbitrary: n k')
  case (Suc k)
  then obtain j where j: "k' = Suc j" by (cases k') auto
  have p: "agree True m p p'" if "0 < n" "m \<le> n - 1" for m using Suc.prems(1) that by (auto intro: agree_below)
  have IH: "agree False m (whenLoopN k rt p) (whenLoopN j rt p')" if "m < n" for m
    using that Suc.prems(2,3) j by (intro Suc.IH p) auto
  show ?case unfolding j whenLoopN.simps by (rule agree_rules p IH | simp)+
qed simp

lemma agree_whenLoop [agree_rules]:
  "(0 < n \<Longrightarrow> agree True (n - 1) p p') \<Longrightarrow> agree False n (whenLoop rt p) (whenLoop rt p')"
  unfolding whenLoop_def by (rule agreeI) (blast intro: agreeD [OF agree_whenLoopN] agree_pred)

lemma agree_joinLoopN:
  assumes "\<And>m. m \<le> n \<Longrightarrow> agree True m (parseJoinClause rt pe) (parseJoinClause rt pe')" "n < k" "n < k'"
  shows "agree False n (joinLoopN k rt pe) (joinLoopN k' rt pe')"
  using assms
proof (induction k arbitrary: n k')
  case (Suc k)
  then obtain j where j: "k' = Suc j" by (cases k') auto
  have IH: "agree False m (joinLoopN k rt pe) (joinLoopN j rt pe')" if "m < n" for m
    using that Suc.prems j by (intro Suc.IH) auto
  show ?case unfolding j joinLoopN.simps by (rule agree_rules Suc.prems(1) IH | simp)+
qed simp

lemma agree_unionLoopN:
  "(0 < n \<Longrightarrow> agree True (n - 1) ps ps') \<Longrightarrow> n < k \<Longrightarrow> n < k' \<Longrightarrow> agree False n (unionLoopN k rt ps all) (unionLoopN k' rt ps' all)"
proof (induction k arbitrary: n k' all)
  case (Suc k)
  then obtain j where j: "k' = Suc j" by (cases k') auto
  have IH: "agree False m (unionLoopN k rt ps a) (unionLoopN j rt ps' a)" if "m < n" for m a
    using that Suc.prems j by (intro Suc.IH agree_below [OF Suc.prems(1)]) auto
  show ?case unfolding j unionLoopN.simps by (rule agree_rules agree_below [OF Suc.prems(1)] IH | simp)+
qed simp

lemma agree_unionLoop [agree_rules]:
  "(0 < n \<Longrightarrow> agree True (n - 1) ps ps') \<Longrightarrow> agree False n (unionLoop rt ps) (unionLoop rt ps')"
  unfolding unionLoop_def by (rule agreeI) (blast intro: agreeD [OF agree_unionLoopN] agree_pred)

subsection \<open>Expressions\<close>

text \<open>A guard in front of a parser that skips the guarded token, and of one that asks for the same type again\<close>

lemma ifMatch_advance: "ifMatch rt typ vs (bindS advance k) q = whenMatch rt typ vs k q"
  by (rule ext) (simp add: ifMatch_def whenMatch_def bindS_def advance_def)

lemma match_any: "match rt typ vs ts \<Longrightarrow> match rt typ [] ts"
  by (simp add: match_def Let_def)

lemma ifMatch_push:
  "ifMatch rt typ [] (whenMatch rt typ vs a b) q = whenMatch rt typ vs a (ifMatch rt typ [] b q)"
  "ifMatch rt typ [] (ifMatch rt typ vs c b) q = ifMatch rt typ vs c (ifMatch rt typ [] b q)"
  by (auto simp: ifMatch_def whenMatch_def fun_eq_iff dest: match_any)

lemma ifMatch_bind_when: "ifMatch rt typ vs (bindS (whenMatch rt typ vs p q) k) r = whenMatch rt typ vs (\<lambda>t. bindS (p t) k) r"
  by (rule ext) (simp add: ifMatch_def whenMatch_def bindS_def)

lemmas guard_simps = ifMatch_advance ifMatch_push ifMatch_bind_when

lemma agree_wrapError [agree_rules]: "agree s n p p' \<Longrightarrow> agree s n (wrapError msg p) (wrapError msg p')"
  by (auto simp: agree_def progress_def wrapError_def split: prod.splits sum.splits parse_error.splits)

lemma agree_matchName [agree_rules]:
  "(\<And>tok. 0 < n \<Longrightarrow> agree s1 (n - 1) (p tok) (p' tok)) \<Longrightarrow> agree s n q q' \<Longrightarrow> agree s n (matchName rt p q) (matchName rt p' q')"
  unfolding matchName_def by (rule agree_rules | assumption | simp)+

lemma parsePrimaryExpr_alt:
  "parsePrimaryExpr rt pe ps =
     ifMatch rt TokNumber [] (parseNumberLiteral rt)
    (whenMatch rt TokString [] (\<lambda>tok. returnS (NewLiteralExpr (GString (tok_Value tok))))
    (ifMatch rt TokKeyword [] (keywordExpr rt pe ps)
    (ifMatch rt TokIdent [] (parseIdentOrFunction rt pe)
    (ifMatch rt TokLParen [] (parseParenExpr rt pe ps)
    (whenMatch rt TokStar [] (\<lambda>_. returnS (NewStarExpr []))
    (errorGot ''unexpected token: ''))))))"
  by (rule ext) (simp add: parsePrimaryExpr_def ifMatch_def whenMatch_def match_def Let_def returnS_def split: TokenType.split)

lemma agree_parseArgs [agree_rules]: "agree True n pe pe' \<Longrightarrow> agree False n (parseArgs rt pe) (parseArgs rt pe')"
  unfolding parseArgs_def parseArg_def by (rule agree_rules | erule agree_below | simp)+

lemma agree_matchMode [agree_rules]: "agree False n (matchMode rt) (matchMode rt)"
  unfolding matchMode_def by (rule agree_rules | simp)+

lemma agree_matchLevel [agree_rules]: "agree False n (matchLevel rt) (matchLevel rt)"
  unfolding matchLevel_def by (rule agree_rules | simp)+

lemma agree_parsePrimaryExpr [agree_rules]:
  assumes pe: "0 < n \<Longrightarrow> agree True (n - 1) pe pe'" and ps: "0 < n \<Longrightarrow> agree True (n - 1) ps ps'"
  shows "agree True n (parsePrimaryExpr rt pe ps) (parsePrimaryExpr rt pe' ps')"
  unfolding parsePrimaryExpr_alt keywordExpr_def parseNumberLiteral_def parseCaseExpr_def parseExistsExpr_def parseMatchAgainst_def
    parseIdentOrFunction_def parseParenExpr_def guard_simps Let_def
  by (rule agree_rules agree_below [OF pe] agree_below [OF ps] | simp)+

lemma agree_parseUnaryExprN:
  "(0 < n \<Longrightarrow> agree True (n - 1) pe pe') \<Longrightarrow> (0 < n \<Longrightarrow> agree True (n - 1) ps ps') \<Longrightarrow> n < k \<Longrightarrow> n < k' \<Longrightarrow>
   agree True n (parseUnaryExprN k rt pe ps) (parseUnaryExprN k' rt pe' ps')"
proof (induction k arbitrary: n k')
  case (Suc k)
  then obtain j where j: "k' = Suc j" by (cases k') auto
  have IH: "agree True m (parseUnaryExprN k rt pe ps) (parseUnaryExprN j rt pe' ps')" if "m < n" for m
    using that Suc.prems j by (intro Suc.IH agree_below [OF Suc.prems(1)] agree_below [OF Suc.prems(2)]) auto
  show ?case unfolding j parseUnaryExprN.simps by (rule agree_rules IH Suc.prems(1,2) | simp)+
qed simp

lemma agree_parseUnaryExpr:
  assumes "0 < n \<Longrightarrow> agree True (n - 1) pe pe'" "0 < n \<Longrightarrow> agree True (n - 1) ps ps'"
  shows "agree True n (parseUnaryExpr rt pe ps) (parseUnaryExpr rt pe' ps')"
proof (rule agreeI)
  fix ts :: "Token list"
  assume "length ts \<le> n"
  then have "agree True (length ts) (parseUnaryExprN (Suc (length ts)) rt pe ps) (parseUnaryExprN (Suc (length ts)) rt pe' ps')"
    by (intro agree_parseUnaryExprN agree_pred [OF assms(1)] agree_pred [OF assms(2)]) auto
  then show "parseUnaryExpr rt pe' ps' ts = parseUnaryExpr rt pe ps ts \<and> progress True ts (parseUnaryExpr rt pe ps ts)"
    unfolding parseUnaryExpr_def by (intro conjI agreeD [where s = True]) auto
qed

lemma agree_parseMultiplicativeExpr:
  assumes "0 < n \<Longrightarrow> agree True (n - 1) pe pe'" "0 < n \<Longrightarrow> agree True (n - 1) ps ps'"
  shows "agree True n (parseMultiplicativeExpr rt pe ps) (parseMultiplicativeExpr rt pe' ps')"
  unfolding parseMultiplicativeExpr_def
  by (rule agree_rules agree_below [OF agree_parseUnaryExpr [OF assms]] | simp)+

lemma agree_parseAdditiveExpr:
  assumes "0 < n \<Longrightarrow> agree True (n - 1) pe pe'" "0 < n \<Longrightarrow> agree True (n - 1) ps ps'"
  shows "agree True n (parseAdditiveExpr rt pe ps) (parseAdditiveExpr rt pe' ps')"
  unfolding parseAdditiveExpr_def
  by (rule agree_rules agree_below [OF agree_parseMultiplicativeExpr [OF assms]] | simp)+

lemma agree_parseComparisonExpr:
  assumes pe: "0 < n \<Longrightarrow> agree True (n - 1) pe pe'" and ps: "0 < n \<Longrightarrow> agree True (n - 1) ps ps'"
  shows "agree True n (parseComparisonExpr rt pe ps) (parseComparisonExpr rt pe' ps')"
  unfolding parseComparisonExpr_def parseInExpr_def parseBetweenExpr_def parseIsExpr_def Let_def
  by (rule agree_rules agree_below [OF pe] agree_below [OF ps] agree_below [OF agree_parseAdditiveExpr [OF assms]] | simp)+

lemma agree_parseNotExpr:
  assumes pe: "0 < n \<Longrightarrow> agree True (n - 1) pe pe'" and ps: "0 < n \<Longrightarrow> agree True (n - 1) ps ps'"
  shows "agree True n (parseNotExpr rt pe ps) (parseNotExpr rt pe' ps')"
  unfolding parseNotExpr_def
  by (rule agree_rules agree_below [OF agree_parseComparisonExpr [OF assms]] | simp)+

lemma agree_parseAndExpr:
  assumes pe: "0 < n \<Longrightarrow> agree True (n - 1) pe pe'" and ps: "0 < n \<Longrightarrow> agree True (n - 1) ps ps'"
  shows "agree True n (parseAndExpr rt pe ps) (parseAndExpr rt pe' ps')"
  unfolding parseAndExpr_def
  by (rule agree_rules agree_below [OF agree_parseNotExpr [OF assms]] | simp)+

lemma agree_parseOrExpr:
  assumes pe: "0 < n \<Longrightarrow> agree True (n - 1) pe pe'" and ps: "0 < n \<Longrightarrow> agree True (n - 1) ps ps'"
  shows "agree True n (parseOrExpr rt pe ps) (parseOrExpr rt pe' ps')"
  unfolding parseOrExpr_def
  by (rule agree_rules agree_below [OF agree_parseAndExpr [OF assms]] | simp)+

subsection \<open>Queries\<close>

lemma agree_ignoreError [agree_rules]: "agree s n p p' \<Longrightarrow> agree False n (ignoreError p) (ignoreError p')"
  by (auto simp: agree_def progress_def ignoreError_def)

lemma agree_parseTableNameWithDB [agree_rules]: "agree False n (parseTableNameWithDB rt) (parseTableNameWithDB rt)"
  unfolding parseTableNameWithDB_def by (rule agree_rules | simp)+

lemma agree_wantTable [agree_rules]: "agree True n (wantTable rt msg) (wantTable rt msg)"
  unfolding wantTable_def parseTableName_def parseTableNameWithDB_def matchName_def [of _ _ "returnS ([], [])"] guard_simps
  by (rule agree_rules | simp)+

lemma agree_columnList [agree_rules]: "agree True n (columnList rt) (columnList rt)"
  unfolding columnList_def by (rule agree_rules | simp)+

lemma agree_parseSelectColumn:
  assumes "agree True n pe pe'"
  shows "agree True n (parseSelectColumn rt pe) (parseSelectColumn rt pe')"
proof (rule agreeI)
  fix ts :: "Token list"
  assume ts: "length ts \<le> n"
  let ?p = "\<lambda>pe. bindS pe (\<lambda>e. bindS (whenMatch rt TokKeyword [''AS''] (\<lambda>_. optIdent rt) (optAlias rt)) (\<lambda>alias.
             returnS (SelectColumn (Some e) alias [] False)))"
  have "agree True n (?p pe) (?p pe')" by (rule agree_rules assms | simp)+
  note rest = agreeD [OF this ts]
  show "parseSelectColumn rt pe' ts = parseSelectColumn rt pe ts \<and> progress True ts (parseSelectColumn rt pe ts)"
    using rest match_nonempty [of rt TokStar "[]" ts] match_nonempty [of rt TokIdent "[]" ts]
    by (auto simp: parseSelectColumn_def progress_def suffix_tl suffix_drop)
qed

lemma agree_parseFromClause [agree_rules]:
  "(0 < n \<Longrightarrow> agree True (n - 1) ps ps') \<Longrightarrow> agree True n (parseFromClause rt ps) (parseFromClause rt ps')"
  unfolding parseFromClause_def parseTableNameWithDB_def matchName_def [of _ _ "returnS ([], [])"] guard_simps
  by (rule agree_rules | assumption | erule agree_pred | simp)+

lemma agree_joinType [agree_rules]: "agree False n (joinType rt) (joinType rt)"
proof (rule agreeI)
  fix ts :: "Token list"
  let ?join = "ignoreError (expect rt TokKeyword ''JOIN'')"
  have "agree False (length (tl ts)) (bindS ?join (\<lambda>_. returnS k)) (bindS ?join (\<lambda>_. returnS k))"
    "agree False (length (tl ts)) (bindS (skipKeyword rt [''OUTER'']) (\<lambda>_. bindS ?join (\<lambda>_. returnS k)))
       (bindS (skipKeyword rt [''OUTER'']) (\<lambda>_. bindS ?join (\<lambda>_. returnS k)))" for k :: string
    by (rule agree_rules | simp)+
  note p = this [THEN agreeD(2), OF order_refl]
  have "progress False ts r" if "progress False (tl ts) r" for r :: "Token list \<times> (parse_error + string)"
    using that by (auto simp: progress_def intro: suffix_order.trans [OF _ suffix_tl])
  with p show "joinType rt ts = joinType rt ts \<and> progress False ts (joinType rt ts)"
    by (auto simp: joinType_def Let_def progress_def suffix_tl)
qed

lemma agree_parseJoinClause:
  "agree True n pe pe' \<Longrightarrow> agree True n (parseJoinClause rt pe) (parseJoinClause rt pe')"
  unfolding parseJoinClause_def by (rule agree_rules | erule agree_below | simp)+

lemma agree_joinLoop [agree_rules]: "agree True n pe pe' \<Longrightarrow> agree False n (joinLoop rt pe) (joinLoop rt pe')"
  unfolding joinLoop_def
  by (rule agreeI) (blast intro: agreeD [OF agree_joinLoopN] agree_parseJoinClause agree_below order_trans)

lemma agree_optClause [agree_rules]: "(0 < n \<Longrightarrow> agree True (n - 1) p p') \<Longrightarrow> agree False n (optClause rt kw p) (optClause rt kw p')"
  unfolding optClause_def by (rule agree_rules | assumption | simp)+

lemma agree_optByClause [agree_rules]: "agree True (n - 1 - 1) p p' \<Longrightarrow> agree False n (optByClause rt kw p) (optByClause rt kw p')"
  unfolding optByClause_def by (rule agree_rules | erule agree_below | simp)+

lemma agree_parseOrderByList [agree_rules]: "agree True n pe pe' \<Longrightarrow> agree True n (parseOrderByList rt pe) (parseOrderByList rt pe')"
  unfolding parseOrderByList_def by (rule agree_rules | erule agree_below | simp)+

lemma agree_parseGroupByList [agree_rules]: "agree True n (parseGroupByList rt) (parseGroupByList rt)"
  unfolding parseGroupByList_def by (rule agree_rules)+

lemma agree_parseSelectColumns [agree_rules]:
  "agree True n pe pe' \<Longrightarrow> agree True n (parseSelectColumns rt pe) (parseSelectColumns rt pe')"
  unfolding parseSelectColumns_def by (intro agree_commaList agree_parseSelectColumn)

lemma agree_parseSelectWith:
  assumes pe: "agree True n pe pe'" and ps: "0 < n \<Longrightarrow> agree True (n - 1) ps ps'"
  shows "agree True n (parseSelectWith rt pe ps) (parseSelectWith rt pe' ps')"
  unfolding parseSelectWith_def
  by (rule agree_rules agree_below [OF pe] agree_below [OF ps] | simp)+

subsection \<open>The grammar\<close>

lemma agree_grammar:
  "(2 * n + 1 \<le> k \<longrightarrow> 2 * n + 1 \<le> k' \<longrightarrow> agree True n (parseExprN k rt) (parseExprN k' rt)) \<and>
   (2 * n + 2 \<le> k \<longrightarrow> 2 * n + 2 \<le> k' \<longrightarrow> agree True n (parseSelN k rt) (parseSelN k' rt))"
proof (induction k arbitrary: k' n)
  case (Suc k)
  show ?case
  proof (cases k')
    case (Suc j)
    have pe: "2 * m + 1 \<le> k \<Longrightarrow> 2 * m + 1 \<le> j \<Longrightarrow> agree True m (parseExprN k rt) (parseExprN j rt)"
      and ps: "2 * m + 2 \<le> k \<Longrightarrow> 2 * m + 2 \<le> j \<Longrightarrow> agree True m (parseSelN k rt) (parseSelN j rt)" for m
      using Suc.IH by blast+
    show ?thesis unfolding Suc parseExprN.simps parseSelN.simps
      by (intro conjI impI agree_parseOrExpr agree_parseSelectWith pe ps) auto
  qed simp
qed simp

lemma agree_parseExpression: "2 * n + 1 \<le> k \<Longrightarrow> agree True n (parseExprN k rt) (parseExpression rt)"
proof (rule agreeI)
  fix ts :: "Token list"
  assume "2 * n + 1 \<le> k" "length ts \<le> n"
  then have "agree True (length ts) (parseExprN k rt) (parseExprN (2 * length ts + 1) rt)"
    by (intro agree_grammar [THEN conjunct1, rule_format]) auto
  then show "parseExpression rt ts = parseExprN k rt ts \<and> progress True ts (parseExprN k rt ts)"
    unfolding parseExpression_def by (intro conjI agreeD [where s = True and n = "length ts"]) auto
qed

lemma agree_parseSelect: "2 * n + 2 \<le> k \<Longrightarrow> agree True n (parseSelN k rt) (parseSelect rt)"
proof (rule agreeI)
  fix ts :: "Token list"
  assume "2 * n + 2 \<le> k" "length ts \<le> n"
  then have "agree True (length ts) (parseSelN k rt) (parseSelN (2 * length ts + 2) rt)"
    by (intro agree_grammar [THEN conjunct2, rule_format]) auto
  then show "parseSelect rt ts = parseSelN k rt ts \<and> progress True ts (parseSelN k rt ts)"
    unfolding parseSelect_def by (intro conjI agreeD [where s = True and n = "length ts"]) auto
qed

lemma agree_self: "agree s n p q \<Longrightarrow> agree s n q q"
  by (simp add: agree_def)

lemma agree_parsers [agree_rules]:
  "agree True n (parseExpression rt) (parseExpression rt)" "agree True n (parseSelect rt) (parseSelect rt)"
  using agree_self [OF agree_parseExpression [OF order_refl]] agree_self [OF agree_parseSelect [OF order_refl]] by auto

text \<open>The equations of the source, without bounds\<close>

lemma parser_equations:
  "parseExpression rt = parseOrExpr rt (parseExpression rt) (parseSelect rt)"
  "parseSelect rt = parseSelectWith rt (parseExpression rt) (parseSelect rt)"
proof -
  have "parseExpression rt ts = parseOrExpr rt (parseExpression rt) (parseSelect rt) ts" for ts
  proof -
    let ?n = "length ts"
    have "agree True ?n (parseOrExpr rt (parseExprN (2 * ?n) rt) (parseSelN (2 * ?n) rt)) (parseOrExpr rt (parseExpression rt) (parseSelect rt))"
      by (intro agree_parseOrExpr agree_parseExpression agree_parseSelect) linarith+
    from agreeD(1) [OF this order_refl] show ?thesis by (simp add: parseExpression_def [of rt ts])
  qed
  then show "parseExpression rt = parseOrExpr rt (parseExpression rt) (parseSelect rt)" by blast
  have "parseSelect rt ts = parseSelectWith rt (parseExpression rt) (parseSelect rt) ts" for ts
  proof -
    let ?n = "length ts"
    have "agree True ?n (parseSelectWith rt (parseExprN (2 * ?n + 1) rt) (parseSelN (2 * ?n + 1) rt))
        (parseSelectWith rt (parseExpression rt) (parseSelect rt))"
      by (intro agree_parseSelectWith agree_parseExpression agree_parseSelect) linarith+
    from agreeD(1) [OF this order_refl] show ?thesis by (simp add: parseSelect_def [of rt ts])
  qed
  then show "parseSelect rt = parseSelectWith rt (parseExpression rt) (parseSelect rt)" by blast
qed

subsection \<open>The loops without bounds\<close>

lemma agree_loop_bound:
  assumes "\<And>m. agree True m p p" and that: "\<And>m. agree True m pe pe"
  shows "typ \<noteq> TokEOF \<Longrightarrow> n < k \<Longrightarrow> agree False n (leftLoopN k rt typ ops op p left) (leftLoop rt typ ops op p left)"
    "n < k \<Longrightarrow> agree False n (whenLoopN k rt pe) (whenLoop rt pe)"
proof -
  show "typ \<noteq> TokEOF \<Longrightarrow> n < k \<Longrightarrow> agree False n (leftLoopN k rt typ ops op p left) (leftLoop rt typ ops op p left)"
    unfolding leftLoop_def by (rule agreeI, intro conjI agreeD [OF agree_leftLoopN [OF assms(1)] order_refl]) auto
  show "n < k \<Longrightarrow> agree False n (whenLoopN k rt pe) (whenLoop rt pe)"
    unfolding whenLoop_def by (rule agreeI, intro conjI agreeD [OF agree_whenLoopN [OF that] order_refl]) auto
qed

lemma agree_commaList_bound: "(\<And>m. agree True m p p) \<Longrightarrow> n < k \<Longrightarrow> agree True n (commaListN k rt p) (commaList rt p)"
  unfolding commaList_def by (rule agreeI, intro conjI agreeD [OF agree_commaListN order_refl]) auto

lemma leftLoop_unfold:
  assumes "\<And>m. agree True m p p" "typ \<noteq> TokEOF"
  shows "leftLoop rt typ ops op p left =
    whenMatch rt typ ops (\<lambda>tok. bindS p (\<lambda>right. leftLoop rt typ ops op p (NewBinaryExpr left (op tok) right))) (returnS left)"
proof
  fix ts :: "Token list"
  have "agree False (length ts) (leftLoopN (Suc (length ts)) rt typ ops op p left)
    (whenMatch rt typ ops (\<lambda>tok. bindS p (\<lambda>right. leftLoop rt typ ops op p (NewBinaryExpr left (op tok) right))) (returnS left))"
    unfolding leftLoopN.simps by (rule agree_rules assms(1) agree_loop_bound(1) [OF assms(1) assms(1)] | simp add: assms(2))+
  from agreeD(1) [OF this order_refl]
  show "leftLoop rt typ ops op p left ts =
    whenMatch rt typ ops (\<lambda>tok. bindS p (\<lambda>right. leftLoop rt typ ops op p (NewBinaryExpr left (op tok) right))) (returnS left) ts"
    by (simp add: leftLoop_def)
qed

lemma commaList_unfold:
  assumes "\<And>m. agree True m p p"
  shows "commaList rt p =
    bindS p (\<lambda>x. whenMatch rt TokComma [] (\<lambda>_. bindS (commaList rt p) (\<lambda>xs. returnS (x # xs))) (returnS [x]))"
proof
  fix ts :: "Token list"
  have "agree True (length ts) (commaListN (Suc (length ts)) rt p)
    (bindS p (\<lambda>x. whenMatch rt TokComma [] (\<lambda>_. bindS (commaList rt p) (\<lambda>xs. returnS (x # xs))) (returnS [x])))"
    unfolding commaListN.simps by (rule agree_rules assms agree_commaList_bound [OF assms] | simp)+
  from agreeD(1) [OF this order_refl]
  show "commaList rt p ts =
    bindS p (\<lambda>x. whenMatch rt TokComma [] (\<lambda>_. bindS (commaList rt p) (\<lambda>xs. returnS (x # xs))) (returnS [x])) ts"
    by (simp add: commaList_def)
qed

lemma whenLoop_unfold:
  assumes pe: "\<And>m. agree True m pe pe"
  shows "whenLoop rt pe =
    whenMatch rt TokKeyword [''WHEN'']
       (\<lambda>_. bindS pe (\<lambda>cond. bindS (expect rt TokKeyword ''THEN'') (\<lambda>_. bindS pe (\<lambda>thn.
          bindS (whenLoop rt pe) (\<lambda>ws. returnS ((cond, thn) # ws)))))) (returnS [])"
    (is "_ = ?r")
proof
  fix ts :: "Token list"
  have "agree False (length ts) (whenLoopN (Suc (length ts)) rt pe) ?r"
    unfolding whenLoopN.simps by (rule agree_rules assms agree_loop_bound(2) [OF assms assms] | simp)+
  from agreeD(1) [OF this order_refl] show "whenLoop rt pe ts = ?r ts" by (simp add: whenLoop_def)
qed

lemma parseUnaryExpr_unfold:
  assumes pe: "\<And>m. agree True m pe pe" and ps: "\<And>m. agree True m ps ps"
  shows "parseUnaryExpr rt pe ps =
    whenMatch rt TokOperator [''+'', ''-'']
      (\<lambda>tok. bindS (parseUnaryExpr rt pe ps) (\<lambda>right. returnS (NewUnaryExpr (tok_Value tok) right))) (parsePrimaryExpr rt pe ps)"
    (is "_ = ?r")
proof
  fix ts :: "Token list"
  have un: "agree True n (parseUnaryExprN k rt pe ps) (parseUnaryExpr rt pe ps)" if "n < k" for n k
    unfolding parseUnaryExpr_def by (rule agreeI, intro conjI agreeD [OF agree_parseUnaryExprN [OF pe ps] order_refl]) (use that in auto)
  have "agree True (length ts) (parseUnaryExprN (Suc (length ts)) rt pe ps) ?r"
    unfolding parseUnaryExprN.simps by (rule agree_rules pe ps un | simp)+
  from agreeD(1) [OF this order_refl] show "parseUnaryExpr rt pe ps ts = ?r ts" by (simp add: parseUnaryExpr_def)
qed

end
