(* ===== verification/Statements.thy ===== *)
theory Statements
  imports Parser
begin

text \<open>
  \<^verbatim>\<open>src/parser/parser_dml.go\<close> and the entry points of \<^verbatim>\<open>parser.go\<close>: all statements other than queries. Shown: every text is parsed to
  a statement or an error message, what follows a complete statement is ignored, and which statements can never come out
  because the lexer does not know their keywords.
\<close>

section \<open>Changing rows\<close>

abbreviation pExpr :: "go_rt \<Rightarrow> Expression parser" where "pExpr \<equiv> parseExpression"

definition valuesRow :: "go_rt \<Rightarrow> Expression list parser" where
  "valuesRow rt =
     bindS (expect rt TokLParen []) (\<lambda>_.
     bindS (commaList rt (pExpr rt)) (\<lambda>row.
     bindS (expect rt TokRParen []) (\<lambda>_. returnS row)))"

definition insertColumns :: "go_rt \<Rightarrow> string list parser" where
  "insertColumns rt =
     whenMatch rt TokLParen []
       (\<lambda>_. bindS (commaList rt (wantIdent rt ''expected column name, got '')) (\<lambda>cols.
          bindS (expect rt TokRParen []) (\<lambda>_. returnS cols)))
       (returnS [])"

definition parseInsert :: "go_rt \<Rightarrow> Statement parser" where
  "parseInsert rt =
     bindS advance (\<lambda>_.
     bindS (expect rt TokKeyword ''INTO'') (\<lambda>_.
     bindS (wantTable rt ''expected table name, got '') (\<lambda>table.
     bindS (insertColumns rt) (\<lambda>cols.
       whenMatch rt TokKeyword [''VALUES''] (\<lambda>_. bindS (commaList rt (valuesRow rt)) (\<lambda>rows. returnS (StmtInsert table cols rows None)))
      (ifMatch rt TokKeyword [''SELECT''] (bindS (parseSelect rt) (\<lambda>q. returnS (StmtInsert table cols [] (Some q))))
      (whenMatch rt TokKeyword [''DEFAULT'']
         (\<lambda>_. bindS (expect rt TokKeyword ''VALUES'') (\<lambda>_. returnS (StmtInsert table cols [] None)))
      (errorGot ''expected VALUES or SELECT, got '')))))))"

definition updateItem :: "go_rt \<Rightarrow> (string \<times> Expression) parser" where
  "updateItem rt =
     bindS (wantIdent rt ''expected column name, got '') (\<lambda>col.
     bindS (expect rt TokOperator ''='') (\<lambda>_.
     bindS (pExpr rt) (\<lambda>e. returnS (col, e))))"

definition parseUpdate :: "go_rt \<Rightarrow> Statement parser" where
  "parseUpdate rt =
     bindS advance (\<lambda>_.
     bindS (wantTable rt ''expected table name, got '') (\<lambda>table.
     bindS (expect rt TokKeyword ''SET'') (\<lambda>_.
     bindS (commaList rt (updateItem rt)) (\<lambda>items.
     bindS (optClause rt ''WHERE'' (pExpr rt)) (\<lambda>whr.
     bindS (optClause rt ''LIMIT'' (pExpr rt)) (\<lambda>limit.
     returnS (StmtUpdate table (fold (\<lambda>(col, e). put_key col e) items []) whr limit)))))))"

definition parseDelete :: "go_rt \<Rightarrow> Statement parser" where
  "parseDelete rt =
     bindS advance (\<lambda>_.
     bindS (expect rt TokKeyword ''FROM'') (\<lambda>_.
     bindS (wantTable rt ''expected table name, got '') (\<lambda>table.
     bindS (optClause rt ''WHERE'' (pExpr rt)) (\<lambda>whr.
     bindS (optClause rt ''LIMIT'' (pExpr rt)) (\<lambda>limit.
     returnS (StmtDelete table whr limit))))))"

section \<open>Tables\<close>

text \<open>\<^verbatim>\<open>parseInt\<close>: 0 when \<^verbatim>\<open>fmt.Sscanf\<close> fails\<close>

definition parseInt :: "string \<Rightarrow> u64" where
  "parseInt s = (case scanDecimal s of Some n \<Rightarrow> n | None \<Rightarrow> 0)"

definition wantNumber :: "go_rt \<Rightarrow> string \<Rightarrow> u64 parser" where
  "wantNumber rt msg = whenMatch rt TokNumber [] (\<lambda>tok. returnS (parseInt (tok_Value tok))) (errorGot msg)"

definition typeLength :: "go_rt \<Rightarrow> (u64 \<times> u64) parser" where
  "typeLength rt =
     whenMatch rt TokLParen []
       (\<lambda>_. bindS (wantNumber rt ''expected length, got '') (\<lambda>len.
          bindS (whenMatch rt TokComma [] (\<lambda>_. wantNumber rt ''expected scale, got '') (returnS 0)) (\<lambda>scale.
          bindS (expect rt TokRParen []) (\<lambda>_. returnS (len, scale)))))
       (returnS (0, 0))"

fun columnOptionsN :: "nat \<Rightarrow> go_rt \<Rightarrow> ColumnDefAST \<Rightarrow> ColumnDefAST parser" where
  "columnOptionsN 0 rt col = failS OutOfFuel"
| "columnOptionsN (Suc k) rt col =
     whenMatch rt TokKeyword [''PRIMARY'']
       (\<lambda>_. bindS (expect rt TokKeyword ''KEY'') (\<lambda>_. columnOptionsN k rt (col\<lparr>cd_PrimaryKey := True, cd_Nullable := False\<rparr>)))
    (whenMatch rt TokKeyword [''NOT'']
       (\<lambda>_. bindS (expect rt TokKeyword ''NULL'') (\<lambda>_. columnOptionsN k rt (col\<lparr>cd_Nullable := False\<rparr>)))
    (whenMatch rt TokKeyword [''NULL''] (\<lambda>_. columnOptionsN k rt (col\<lparr>cd_Nullable := True\<rparr>))
    (whenMatch rt TokKeyword [''UNIQUE''] (\<lambda>_. columnOptionsN k rt (col\<lparr>cd_Unique := True\<rparr>))
    (whenMatch rt TokKeyword [''DEFAULT''] (\<lambda>_. bindS (pExpr rt) (\<lambda>e. columnOptionsN k rt (col\<lparr>cd_Default := Some e\<rparr>)))
    (whenMatch rt TokKeyword [''AUTO_INCREMENT'', ''AUTOINCREMENT''] (\<lambda>_. columnOptionsN k rt (col\<lparr>cd_AutoInc := True\<rparr>))
    (whenMatch rt TokKeyword [''REFERENCES'']
       (\<lambda>_. bindS (wantIdent rt ''expected table name, got '') (\<lambda>t. columnOptionsN k rt (col\<lparr>cd_References := t\<rparr>)))
    (returnS col)))))))"

definition columnOptions :: "go_rt \<Rightarrow> ColumnDefAST \<Rightarrow> ColumnDefAST parser" where
  "columnOptions rt col ts = columnOptionsN (Suc (length ts)) rt col ts"

definition parseColumnDef :: "go_rt \<Rightarrow> ColumnDefAST parser" where
  "parseColumnDef rt =
     matchName rt
       (\<lambda>name. matchName rt
          (\<lambda>typ. bindS (typeLength rt) (\<lambda>(len, scale).
             columnOptions rt
               \<lparr>cd_Name = tok_Value name, cd_Type = tok_Value typ, cd_Length = len, cd_Scale = scale, cd_Nullable = True,
                cd_Default = None, cd_AutoInc = False, cd_PrimaryKey = False, cd_Unique = False, cd_References = []\<rparr>))
          (errorGot ''expected data type, got ''))
       (errorGot ''expected column name, got '')"

text \<open>An optional list of columns in parentheses\<close>

definition optColumnList :: "go_rt \<Rightarrow> string list parser" where
  "optColumnList rt = ifMatch rt TokLParen [] (columnList rt) (returnS [])"

definition constraintOf :: "string \<Rightarrow> string \<Rightarrow> string list \<Rightarrow> string \<Rightarrow> string list \<Rightarrow> Expression option \<Rightarrow> Constraint" where
  "constraintOf name typ cols refTable refCols expr =
     \<lparr>cn_Name = name, cn_Type = typ, cn_Columns = cols, cn_RefTable = refTable, cn_RefColumns = refCols, cn_Expr = expr\<rparr>"

definition parseConstraint :: "go_rt \<Rightarrow> Constraint parser" where
  "parseConstraint rt =
     bindS (whenMatch rt TokKeyword [''CONSTRAINT''] (\<lambda>_. wantIdent rt ''expected constraint name, got '') (returnS [])) (\<lambda>name.
       whenMatch rt TokKeyword [''PRIMARY'']
         (\<lambda>_. bindS (expect rt TokKeyword ''KEY'') (\<lambda>_. bindS (columnList rt) (\<lambda>cols.
            returnS (constraintOf name ''PRIMARY KEY'' cols [] [] None))))
      (whenMatch rt TokKeyword [''FOREIGN'']
         (\<lambda>_. bindS (expect rt TokKeyword ''KEY'') (\<lambda>_. bindS (columnList rt) (\<lambda>cols.
            bindS (expect rt TokKeyword ''REFERENCES'') (\<lambda>_. bindS (wantTable rt ''expected table name, got '') (\<lambda>table.
            bindS (optColumnList rt) (\<lambda>refCols. returnS (constraintOf name ''FOREIGN KEY'' cols table refCols None)))))))
      (whenMatch rt TokKeyword [''UNIQUE'']
         (\<lambda>_. bindS (optColumnList rt) (\<lambda>cols. returnS (constraintOf name ''UNIQUE'' cols [] [] None)))
      (whenMatch rt TokKeyword [''CHECK'']
         (\<lambda>_. bindS (expect rt TokLParen []) (\<lambda>_. bindS (pExpr rt) (\<lambda>e. bindS (expect rt TokRParen []) (\<lambda>_.
            returnS (constraintOf name ''CHECK'' [] [] [] (Some e))))))
      (returnS (constraintOf name [] [] [] [] None))))))"

abbreviation constraintKeywords :: "string list" where
  "constraintKeywords \<equiv> [''PRIMARY'', ''FOREIGN'', ''UNIQUE'', ''CHECK'', ''CONSTRAINT'']"

fun tableItemsN :: "nat \<Rightarrow> go_rt \<Rightarrow> (ColumnDefAST list \<times> Constraint list) parser" where
  "tableItemsN 0 rt = failS OutOfFuel"
| "tableItemsN (Suc k) rt =
     ifMatch rt TokRParen [] (returnS ([], []))
      (bindS (ifMatch rt TokKeyword constraintKeywords
                (bindS (parseConstraint rt) (\<lambda>c. returnS ([], [c])))
                (bindS (parseColumnDef rt) (\<lambda>c. returnS ([c], [])))) (\<lambda>(cs, ks).
       bindS (whenMatch rt TokComma [] (\<lambda>_. tableItemsN k rt) (returnS ([], []))) (\<lambda>(cs', ks').
       returnS (cs @ cs', ks @ ks'))))"

definition tableItems :: "go_rt \<Rightarrow> (ColumnDefAST list \<times> Constraint list) parser" where
  "tableItems rt ts = tableItemsN (Suc (length ts)) rt ts"

definition ifNotExists :: "go_rt \<Rightarrow> bool parser" where
  "ifNotExists rt =
     whenMatch rt TokKeyword [''IF'']
       (\<lambda>_. bindS (expect rt TokKeyword ''NOT'') (\<lambda>_. bindS (expect rt TokKeyword ''EXISTS'') (\<lambda>_. returnS True)))
       (returnS False)"

definition ifExists :: "go_rt \<Rightarrow> bool parser" where
  "ifExists rt = whenMatch rt TokKeyword [''IF''] (\<lambda>_. bindS (expect rt TokKeyword ''EXISTS'') (\<lambda>_. returnS True)) (returnS False)"

definition parseCreateTable :: "go_rt \<Rightarrow> Statement parser" where
  "parseCreateTable rt =
     bindS advance (\<lambda>_.
     bindS (ifNotExists rt) (\<lambda>ine.
     bindS (wantTable rt ''expected table name, got '') (\<lambda>table.
     bindS (expect rt TokLParen []) (\<lambda>_.
     bindS (tableItems rt) (\<lambda>(cols, constraints).
     bindS (expect rt TokRParen []) (\<lambda>_. returnS (StmtCreateTable table ine cols constraints)))))))"

section \<open>Indexes and databases\<close>

definition parseCreateIndex :: "go_rt \<Rightarrow> Statement parser" where
  "parseCreateIndex rt =
     bindS (skipKeyword rt [''UNIQUE'']) (\<lambda>unique.
     bindS (expect rt TokKeyword ''INDEX'') (\<lambda>_.
     bindS (wantIdent rt ''expected index name, got '') (\<lambda>name.
     bindS (expect rt TokKeyword ''ON'') (\<lambda>_.
     bindS (wantTable rt ''expected table name, got '') (\<lambda>table.
     bindS (columnList rt) (\<lambda>cols.
     bindS (whenMatch rt TokKeyword [''USING'']
              (\<lambda>_. whenMatch rt TokKeyword [''FTS'', ''FULLTEXT''] (\<lambda>_. returnS True)
                (whenMatch rt TokIdent [''FTS'', ''FULLTEXT''] (\<lambda>_. returnS True)
                (errorGot ''expected FTS or FULLTEXT after USING, got '')))
              (returnS False)) (\<lambda>fulltext.
     returnS (StmtCreateIndex name table cols unique fulltext None))))))))"

definition parseCreateDatabase :: "go_rt \<Rightarrow> Statement parser" where
  "parseCreateDatabase rt =
     bindS advance (\<lambda>_.
     bindS (ifNotExists rt) (\<lambda>ine.
     bindS (wantTable rt ''expected database name, got '') (\<lambda>name. returnS (StmtCreateDatabase name ine))))"

text \<open>One \<^verbatim>\<open>key = value\<close>; the comparison of the operator is exact.\<close>

definition ftsOption :: "go_rt \<Rightarrow> (string \<times> string) parser" where
  "ftsOption rt =
     whenMatch rt TokIdent []
       (\<lambda>key. whenOperator rt ''=''
          (whenMatch rt TokString [] (\<lambda>tok. returnS (ToUpper rt (tok_Value key), tok_Value tok))
          (whenMatch rt TokNumber [] (\<lambda>tok. returnS (ToUpper rt (tok_Value key), tok_Value tok))
          (whenMatch rt TokIdent [] (\<lambda>tok. returnS (ToUpper rt (tok_Value key), tok_Value tok))
          (errorGot ''expected option value, got ''))))
          (errorGot ''expected = after option name, got ''))
       (errorGot ''expected option name, got '')"

fun ftsOptionsN :: "nat \<Rightarrow> go_rt \<Rightarrow> (string, string) gomap \<Rightarrow> (string, string) gomap parser" where
  "ftsOptionsN 0 rt m = failS OutOfFuel"
| "ftsOptionsN (Suc k) rt m =
     ifMatch rt TokRParen [] (returnS m)
    (ifMatch rt TokEOF [] (returnS m)
    (bindS (ftsOption rt) (\<lambda>(key, val).
     bindS (whenMatch rt TokComma [] (\<lambda>_. returnS ()) (returnS ())) (\<lambda>_. ftsOptionsN k rt (put_key key val m)))))"

definition ftsOptions :: "go_rt \<Rightarrow> (string, string) gomap parser" where
  "ftsOptions rt ts = ftsOptionsN (Suc (length ts)) rt [] ts"

definition parseFTSOptions :: "go_rt \<Rightarrow> (string, string) gomap parser" where
  "parseFTSOptions rt =
     bindS advance (\<lambda>_.
     whenMatch rt TokLParen []
       (\<lambda>_. bindS (ftsOptions rt) (\<lambda>m. bindS (expect rt TokRParen []) (\<lambda>_. returnS m)))
       (bindS (ftsOption rt) (\<lambda>(key, val). returnS [(key, val)])))"

definition parseCreateFullTextIndex :: "go_rt \<Rightarrow> Statement parser" where
  "parseCreateFullTextIndex rt =
     bindS advance (\<lambda>_.
     bindS (expect rt TokKeyword ''INDEX'') (\<lambda>_.
     bindS (optIdent rt) (\<lambda>name.
     bindS (expect rt TokKeyword ''ON'') (\<lambda>_.
     bindS (wantTable rt ''expected table name, got '') (\<lambda>table.
     bindS (expect rt TokLParen []) (\<lambda>_.
     bindS (wantIdent rt ''expected column name, got '') (\<lambda>col.
     bindS (expect rt TokRParen []) (\<lambda>_.
     bindS (ifMatch rt TokKeyword [''WITH''] (bindS (parseFTSOptions rt) (\<lambda>m. returnS (Some m))) (returnS None)) (\<lambda>options.
     returnS (StmtCreateIndex name table [col] False True options))))))))))"

definition parseCreate :: "go_rt \<Rightarrow> Statement parser" where
  "parseCreate rt =
     bindS advance (\<lambda>_.
     ifMatch rt TokKeyword [''TABLE''] (parseCreateTable rt)
    (ifMatch rt TokKeyword [''FULLTEXT''] (parseCreateFullTextIndex rt)
    (ifMatch rt TokKeyword [''INDEX'', ''UNIQUE''] (parseCreateIndex rt)
    (ifMatch rt TokKeyword [''DATABASE'', ''SCHEMA''] (parseCreateDatabase rt)
    (errorValue ''unsupported CREATE statement: '')))))"

definition parseDropTable :: "go_rt \<Rightarrow> Statement parser" where
  "parseDropTable rt =
     bindS advance (\<lambda>_.
     bindS (ifExists rt) (\<lambda>ie.
     bindS (wantTable rt ''expected table name, got '') (\<lambda>table. returnS (StmtDropTable table ie))))"

definition parseDropIndex :: "go_rt \<Rightarrow> Statement parser" where
  "parseDropIndex rt =
     bindS advance (\<lambda>_.
     bindS (wantIdent rt ''expected index name, got '') (\<lambda>name.
     bindS (whenMatch rt TokKeyword [''ON''] (\<lambda>_. wantTable rt ''expected table name, got '') (returnS [])) (\<lambda>table.
     returnS (StmtDropIndex name table))))"

definition parseDropDatabase :: "go_rt \<Rightarrow> Statement parser" where
  "parseDropDatabase rt =
     bindS advance (\<lambda>_.
     bindS (ifExists rt) (\<lambda>ie.
     bindS (wantTable rt ''expected database name, got '') (\<lambda>name. returnS (StmtDropDatabase name ie))))"

definition parseDrop :: "go_rt \<Rightarrow> Statement parser" where
  "parseDrop rt =
     bindS advance (\<lambda>_.
     ifMatch rt TokKeyword [''TABLE''] (parseDropTable rt)
    (ifMatch rt TokKeyword [''INDEX''] (parseDropIndex rt)
    (ifMatch rt TokKeyword [''DATABASE'', ''SCHEMA''] (parseDropDatabase rt)
    (errorValue ''unsupported DROP statement: ''))))"

section \<open>Alterations\<close>

definition alterAction :: "string \<Rightarrow> string \<Rightarrow> ColumnDefAST option \<Rightarrow> string \<Rightarrow> AlterAction" where
  "alterAction typ col def newName = \<lparr>aa_Type = typ, aa_Column = col, aa_ColumnDef = def, aa_NewName = newName\<rparr>"

definition parseAddAction :: "go_rt \<Rightarrow> AlterAction parser" where
  "parseAddAction rt =
     (let column = bindS (parseColumnDef rt) (\<lambda>c. returnS (alterAction ''ADD'' [] (Some c) []))
      in whenMatch rt TokKeyword [''COLUMN''] (\<lambda>_. column)
        (ifMatch rt TokKeyword constraintKeywords
           (bindS (parseConstraint rt) (\<lambda>_. returnS (alterAction ''ADD'' [] None [])))
           column))"

definition parseRenameAction :: "go_rt \<Rightarrow> AlterAction parser" where
  "parseRenameAction rt =
     whenMatch rt TokKeyword [''COLUMN'']
       (\<lambda>_. bindS (wantIdent rt ''expected column name, got '') (\<lambda>col.
          bindS (expect rt TokKeyword ''TO'') (\<lambda>_.
          bindS (wantIdent rt ''expected new column name, got '') (\<lambda>new. returnS (alterAction ''RENAME'' col None new)))))
      (whenMatch rt TokKeyword [''TO'']
         (\<lambda>_. bindS (wantIdent rt ''expected new table name, got '') (\<lambda>new. returnS (alterAction ''RENAME'' [] None new)))
         (returnS (alterAction ''RENAME'' [] None [])))"

definition parseAction :: "go_rt \<Rightarrow> AlterAction option parser" where
  "parseAction rt =
     (let some = (\<lambda>p. bindS p (\<lambda>a. returnS (Some a)))
      in whenMatch rt TokKeyword [''ADD''] (\<lambda>_. some (parseAddAction rt))
        (whenMatch rt TokKeyword [''DROP'']
           (\<lambda>_. bindS (skipKeyword rt [''COLUMN'']) (\<lambda>_.
              some (bindS (wantIdent rt ''expected column name, got '') (\<lambda>col. returnS (alterAction ''DROP'' col None [])))))
        (whenMatch rt TokKeyword [''MODIFY'', ''ALTER'']
           (\<lambda>_. bindS (skipKeyword rt [''COLUMN'']) (\<lambda>_.
              some (bindS (parseColumnDef rt) (\<lambda>c. returnS (alterAction ''MODIFY'' [] (Some c) [])))))
        (whenMatch rt TokKeyword [''RENAME''] (\<lambda>_. some (parseRenameAction rt))
        (returnS None)))))"

fun alterLoopN :: "nat \<Rightarrow> go_rt \<Rightarrow> AlterAction list parser" where
  "alterLoopN 0 rt = failS OutOfFuel"
| "alterLoopN (Suc k) rt =
     bindS (parseAction rt) (\<lambda>action.
       case action of
         None \<Rightarrow> returnS []
       | Some a \<Rightarrow> whenMatch rt TokComma [] (\<lambda>_. bindS (alterLoopN k rt) (\<lambda>as. returnS (a # as))) (returnS [a]))"

definition alterLoop :: "go_rt \<Rightarrow> AlterAction list parser" where
  "alterLoop rt ts = alterLoopN (Suc (length ts)) rt ts"

definition parseAlter :: "go_rt \<Rightarrow> Statement parser" where
  "parseAlter rt =
     bindS advance (\<lambda>_.
     bindS (expect rt TokKeyword ''TABLE'') (\<lambda>_.
     bindS (wantTable rt ''expected table name, got '') (\<lambda>table.
     bindS (alterLoop rt) (\<lambda>actions. returnS (StmtAlterTable table actions)))))"

section \<open>Administration\<close>

definition parseSet :: "go_rt \<Rightarrow> Statement parser" where
  "parseSet rt =
     bindS advance (\<lambda>_.
     matchName rt
       (\<lambda>tok. bindS (if ToUpper rt (tok_Value tok) = ''LOG''
                     then whenMatch rt TokKeyword [''LEVEL''] (\<lambda>_. returnS ''LOG_LEVEL'') (returnS (tok_Value tok))
                     else returnS (tok_Value tok)) (\<lambda>var.
          bindS (whenMatch rt TokOperator [''=''] (\<lambda>_. returnS ()) (returnS ())) (\<lambda>_.
          bindS (pExpr rt) (\<lambda>e. returnS (StmtSet var e)))))
       (errorGot ''expected variable name, got ''))"

definition skipStatement :: "unit parser" where
  "skipStatement ts = (dropWhile (\<lambda>t. tok_Type t \<noteq> TokEOF \<and> tok_Type t \<noteq> TokSemicolon) ts, Inr ())"

definition showFrom :: "go_rt \<Rightarrow> string parser" where
  "showFrom rt = whenMatch rt TokKeyword [''FROM''] (\<lambda>_. wantIdent rt ''expected table name, got '') (returnS [])"

definition parseShow :: "go_rt \<Rightarrow> Statement parser" where
  "parseShow rt =
     bindS advance (\<lambda>_.
     bindS (skipKeyword rt [''GLOBAL'', ''SESSION'']) (\<lambda>_.
     bindS (skipKeyword rt [''FULL'']) (\<lambda>isFull.
       let show1 = (\<lambda>typ. returnS (StmtShow typ [] []));
           rest = (\<lambda>typ target. bindS skipStatement (\<lambda>_. returnS (StmtShow typ target [])));
           status = (\<lambda>typ. bindS (skipKeyword rt [''STATUS'']) (\<lambda>_. rest typ []))
       in whenMatch rt TokKeyword [''TABLES''] (\<lambda>_. show1 (if isFull then ''FULL TABLES'' else ''TABLES''))
         (whenMatch rt TokKeyword [''DATABASES''] (\<lambda>_. show1 ''DATABASES'')
         (whenMatch rt TokKeyword [''COLUMNS'']
            (\<lambda>_. bindS (showFrom rt) (\<lambda>target. returnS (StmtShow (if isFull then ''FULL COLUMNS'' else ''COLUMNS'') target [])))
         (whenMatch rt TokKeyword [''CREATE'']
            (\<lambda>_. bindS (whenMatch rt TokKeyword [''TABLE''] (\<lambda>_. wantTable rt ''expected table name, got '') (returnS []))
                   (\<lambda>target. returnS (StmtShow ''CREATE'' target [])))
         (whenMatch rt TokKeyword [''VARIABLES''] (\<lambda>_. show1 ''VARIABLES'')
         (whenMatch rt TokKeyword [''STATUS''] (\<lambda>_. show1 ''STATUS'')
         (whenMatch rt TokKeyword [''WARNINGS''] (\<lambda>_. show1 ''WARNINGS'')
         (whenMatch rt TokKeyword [''GRANTS''] (\<lambda>_. show1 ''GRANTS'')
         (whenMatch rt TokKeyword [''INDEX'', ''INDEXES'', ''KEYS'']
            (\<lambda>_. bindS (showFrom rt) (\<lambda>target. returnS (StmtShow ''INDEX'' target [])))
         (whenMatch rt TokKeyword [''PROCESSLIST''] (\<lambda>_. show1 ''PROCESSLIST'')
         (whenMatch rt TokKeyword [''ENGINES'', ''ENGINE''] (\<lambda>_. show1 ''ENGINES'')
         (ifMatch rt TokKeyword [''OPEN''] (rest ''OPEN TABLES'' [])
         (ifMatch rt TokKeyword [''COLLATION''] (rest ''COLLATION'' [])
         (whenMatch rt TokKeyword [''FUNCTION''] (\<lambda>_. status ''FUNCTION STATUS'')
         (whenMatch rt TokKeyword [''PROCEDURE''] (\<lambda>_. status ''PROCEDURE STATUS'')
         (whenMatch rt TokKeyword [''TRIGGERS'']
            (\<lambda>_. bindS (whenMatch rt TokKeyword [''FROM'', ''IN''] (\<lambda>_. optIdent rt) (returnS [])) (rest ''TRIGGERS''))
         (whenMatch rt TokKeyword [''EVENTS''] (\<lambda>_. rest ''EVENTS'' [])
         (whenMatch rt TokKeyword [''TABLE'']
            (\<lambda>_. whenMatch rt TokKeyword [''STATUS'']
               (\<lambda>_. bindS (whenMatch rt TokKeyword [''FROM''] (\<lambda>_. optIdent rt) (returnS [])) (\<lambda>target.
                  bindS (whenMatch rt TokKeyword [''LIKE'']
                           (\<lambda>_. whenMatch rt TokString [] (\<lambda>tok. returnS (tok_Value tok)) (returnS [])) (returnS [])) (\<lambda>pattern.
                  returnS (StmtShow ''TABLE STATUS'' target pattern))))
               (show1 []))
         (errorValue ''unsupported SHOW statement: '')))))))))))))))))))))"

definition parseUse :: "go_rt \<Rightarrow> Statement parser" where
  "parseUse rt = bindS advance (\<lambda>_. bindS (wantTable rt ''expected database name, got '') (\<lambda>name. returnS (StmtUse name)))"

definition parseDescribe :: "go_rt \<Rightarrow> Statement parser" where
  "parseDescribe rt = bindS advance (\<lambda>_. bindS (wantTable rt ''expected table name, got '') (\<lambda>table. returnS (StmtDescribe table)))"

definition filePath :: "go_rt \<Rightarrow> string \<Rightarrow> string parser" where
  "filePath rt keyword =
     bindS (skipKeyword rt [keyword]) (\<lambda>_.
     whenMatch rt TokString [] (\<lambda>tok. returnS (tok_Value tok)) (wantIdent rt ''expected file path, got ''))"

definition parseBackup :: "go_rt \<Rightarrow> Statement parser" where
  "parseBackup rt = bindS advance (\<lambda>_. bindS (filePath rt ''TO'') (\<lambda>path. returnS (StmtBackup path)))"

definition parseRestore :: "go_rt \<Rightarrow> Statement parser" where
  "parseRestore rt = bindS advance (\<lambda>_. bindS (filePath rt ''FROM'') (\<lambda>path. returnS (StmtRestore path)))"

definition parseBegin :: "go_rt \<Rightarrow> Statement parser" where
  "parseBegin rt = bindS advance (\<lambda>_. bindS (skipKeyword rt [''TRANSACTION'']) (\<lambda>_. returnS StmtBegin))"

definition parseStartTransaction :: "go_rt \<Rightarrow> Statement parser" where
  "parseStartTransaction rt = bindS advance (\<lambda>_. bindS (expect rt TokKeyword ''TRANSACTION'') (\<lambda>_. returnS StmtBegin))"

definition parseCommit :: "go_rt \<Rightarrow> Statement parser" where
  "parseCommit rt = bindS advance (\<lambda>_. bindS (skipKeyword rt [''TRANSACTION'']) (\<lambda>_. returnS StmtCommit))"

definition parseRollback :: "go_rt \<Rightarrow> Statement parser" where
  "parseRollback rt = bindS advance (\<lambda>_. bindS (skipKeyword rt [''TRANSACTION'']) (\<lambda>_. returnS StmtRollback))"

section \<open>Statements\<close>

definition Parse :: "go_rt \<Rightarrow> Statement parser" where
  "Parse rt =
     ifMatch rt TokKeyword []
       (ifMatch rt TokKeyword [''SELECT''] (bindS (parseSelect rt) (\<lambda>q. returnS (StmtSelect q)))
       (ifMatch rt TokKeyword [''INSERT''] (parseInsert rt)
       (ifMatch rt TokKeyword [''UPDATE''] (parseUpdate rt)
       (ifMatch rt TokKeyword [''DELETE''] (parseDelete rt)
       (ifMatch rt TokKeyword [''CREATE''] (parseCreate rt)
       (ifMatch rt TokKeyword [''DROP''] (parseDrop rt)
       (ifMatch rt TokKeyword [''ALTER''] (parseAlter rt)
       (ifMatch rt TokKeyword [''SET''] (parseSet rt)
       (ifMatch rt TokKeyword [''SHOW''] (parseShow rt)
       (ifMatch rt TokKeyword [''USE''] (parseUse rt)
       (ifMatch rt TokKeyword [''DESCRIBE'', ''DESC''] (parseDescribe rt)
       (ifMatch rt TokKeyword [''BACKUP''] (parseBackup rt)
       (ifMatch rt TokKeyword [''RESTORE''] (parseRestore rt)
       (ifMatch rt TokKeyword [''BEGIN''] (parseBegin rt)
       (ifMatch rt TokKeyword [''START''] (parseStartTransaction rt)
       (ifMatch rt TokKeyword [''COMMIT''] (parseCommit rt)
       (ifMatch rt TokKeyword [''ROLLBACK''] (parseRollback rt)
       (errorValue ''unsupported statement: ''))))))))))))))))))
       (errorGot ''expected keyword, got '')"

definition ParseString :: "go_rt \<Rightarrow> string \<Rightarrow> parse_error + Statement" where
  "ParseString rt sql = snd (Parse rt (Tokenize sql))"

section \<open>Every text is parsed or rejected\<close>

lemma agree_columnOptionsN:
  "n < k \<Longrightarrow> n < k' \<Longrightarrow> agree False n (columnOptionsN k rt col) (columnOptionsN k' rt col)"
proof (induction k arbitrary: n k' col)
  case (Suc k)
  then obtain j where j: "k' = Suc j" by (cases k') auto
  have IH: "agree False m (columnOptionsN k rt c) (columnOptionsN j rt c)" if "m < n" for m c
    using that Suc.prems j by (intro Suc.IH) auto
  show ?case unfolding j columnOptionsN.simps by (rule agree_rules IH | simp)+
qed simp

lemma agree_columnOptions [agree_rules]: "agree False n (columnOptions rt col) (columnOptions rt col)"
  unfolding columnOptions_def by (rule agreeI) (blast intro: agreeD [OF agree_columnOptionsN])

lemma agree_parseColumnDef [agree_rules]: "agree True n (parseColumnDef rt) (parseColumnDef rt)"
  unfolding parseColumnDef_def typeLength_def wantNumber_def by (rule agree_rules | simp)+

lemma agree_optColumnList [agree_rules]: "agree False n (optColumnList rt) (optColumnList rt)"
  unfolding optColumnList_def by (rule agree_rules | simp)+

lemma agree_parseConstraint [agree_rules]: "agree False n (parseConstraint rt) (parseConstraint rt)"
  unfolding parseConstraint_def by (rule agree_rules | simp)+

lemma agree_tableItemsN: "n < k \<Longrightarrow> n < k' \<Longrightarrow> agree False n (tableItemsN k rt) (tableItemsN k' rt)"
proof (induction k arbitrary: n k')
  case (Suc k)
  then obtain j where j: "k' = Suc j" by (cases k') auto
  have IH: "agree False m (tableItemsN k rt) (tableItemsN j rt)" if "m < n" for m
    using that Suc.prems j by (intro Suc.IH) auto
  show ?case unfolding j tableItemsN.simps by (rule agree_rules IH | simp)+
qed simp

lemma agree_tableItems [agree_rules]: "agree False n (tableItems rt) (tableItems rt)"
  unfolding tableItems_def by (rule agreeI) (blast intro: agreeD [OF agree_tableItemsN])

lemma agree_ftsOption [agree_rules]: "agree True n (ftsOption rt) (ftsOption rt)"
  unfolding ftsOption_def by (rule agree_rules | simp)+

lemma agree_ftsOptionsN: "n < k \<Longrightarrow> n < k' \<Longrightarrow> agree False n (ftsOptionsN k rt m) (ftsOptionsN k' rt m)"
proof (induction k arbitrary: n k' m)
  case (Suc k)
  then obtain j where j: "k' = Suc j" by (cases k') auto
  have IH: "agree False i (ftsOptionsN k rt o') (ftsOptionsN j rt o')" if "i < n" for i o'
    using that Suc.prems j by (intro Suc.IH) auto
  show ?case unfolding j ftsOptionsN.simps by (rule agree_rules IH | simp)+
qed simp

lemma agree_ftsOptions [agree_rules]: "agree False n (ftsOptions rt) (ftsOptions rt)"
  unfolding ftsOptions_def by (rule agreeI) (blast intro: agreeD [OF agree_ftsOptionsN])

lemma agree_parseAction [agree_rules]: "agree False n (parseAction rt) (parseAction rt)"
  unfolding parseAction_def parseAddAction_def parseRenameAction_def Let_def by (rule agree_rules | simp)+

lemma agree_alterLoopN: "n < k \<Longrightarrow> n < k' \<Longrightarrow> agree False n (alterLoopN k rt) (alterLoopN k' rt)"
proof (induction k arbitrary: n k')
  case (Suc k)
  then obtain j where j: "k' = Suc j" by (cases k') auto
  have IH: "agree False m (alterLoopN k rt) (alterLoopN j rt)" if "m < n" for m
    using that Suc.prems j by (intro Suc.IH) auto
  show ?case unfolding j alterLoopN.simps by (rule agree_rules IH | simp)+
qed simp

lemma agree_alterLoop [agree_rules]: "agree False n (alterLoop rt) (alterLoop rt)"
  unfolding alterLoop_def by (rule agreeI) (blast intro: agreeD [OF agree_alterLoopN])

lemma agree_skipStatement [agree_rules]: "agree False n skipStatement skipStatement"
  by (simp add: agree_def progress_def skipStatement_def suffix_dropWhile)

lemma agree_ifClauses [agree_rules]: "agree False n (ifNotExists rt) (ifNotExists rt)" "agree False n (ifExists rt) (ifExists rt)"
  unfolding ifNotExists_def ifExists_def by (rule agree_rules | simp)+

lemma agree_rows [agree_rules]:
  "agree False n (parseInsert rt) (parseInsert rt)" "agree False n (parseUpdate rt) (parseUpdate rt)"
  "agree False n (parseDelete rt) (parseDelete rt)"
  unfolding parseInsert_def parseUpdate_def parseDelete_def insertColumns_def valuesRow_def updateItem_def
  by (rule agree_rules | simp)+

lemma agree_ddl [agree_rules]:
  "agree False n (parseCreate rt) (parseCreate rt)" "agree False n (parseDrop rt) (parseDrop rt)" "agree False n (parseAlter rt) (parseAlter rt)"
  unfolding parseCreate_def parseCreateTable_def parseCreateFullTextIndex_def parseFTSOptions_def parseCreateIndex_def parseCreateDatabase_def
    parseDrop_def parseDropTable_def parseDropIndex_def parseDropDatabase_def parseAlter_def
  by (rule agree_rules | simp)+

lemma agree_admin [agree_rules]:
  "agree False n (parseSet rt) (parseSet rt)" "agree False n (parseShow rt) (parseShow rt)" "agree False n (parseUse rt) (parseUse rt)"
  "agree False n (parseDescribe rt) (parseDescribe rt)" "agree False n (parseBackup rt) (parseBackup rt)"
  "agree False n (parseRestore rt) (parseRestore rt)" "agree False n (parseBegin rt) (parseBegin rt)"
  "agree False n (parseStartTransaction rt) (parseStartTransaction rt)" "agree False n (parseCommit rt) (parseCommit rt)"
  "agree False n (parseRollback rt) (parseRollback rt)"
  unfolding parseSet_def parseShow_def showFrom_def parseUse_def parseDescribe_def parseBackup_def parseRestore_def filePath_def
    parseBegin_def parseStartTransaction_def parseCommit_def parseRollback_def Let_def
  by (rule agree_rules | simp)+

lemma agree_Parse: "agree False n (Parse rt) (Parse rt)"
  unfolding Parse_def by (rule agree_rules | simp)+

text \<open>
  C14. The parser is total: every text is parsed to a statement or rejected with a message, whatever the nesting of its expressions
  and queries. The recursion and all loops end, since every round and every nested call has consumed a token: none of the
  bounds of the model is ever reached, and \<^verbatim>\<open>parseExpression\<close> and \<^verbatim>\<open>parseSelect\<close> satisfy the equations of the source, in which there
  are no bounds.
\<close>
theorem parser_total:
  "((\<exists>stmt. ParseString rt sql = Inr stmt) \<or> (\<exists>msg. ParseString rt sql = Inl (ParseError msg))) \<and>
   parseExpression rt = parseOrExpr rt (parseExpression rt) (parseSelect rt) \<and>
   parseSelect rt = parseSelectWith rt (parseExpression rt) (parseSelect rt) \<and>
   (\<forall>ts. suffix (fst (Parse rt ts)) ts)"
proof -
  have p: "snd (Parse rt ts) \<noteq> Inl OutOfFuel \<and> suffix (fst (Parse rt ts)) ts" for ts
    using agreeD(2) [OF agree_Parse order_refl] by (simp add: progress_def)
  have "(\<exists>stmt. ParseString rt sql = Inr stmt) \<or> (\<exists>msg. ParseString rt sql = Inl (ParseError msg))"
    using p [of "Tokenize sql"] unfolding ParseString_def
    by (cases "snd (Parse rt (Tokenize sql))") (metis parse_error.exhaust, blast)
  with p parser_equations show ?thesis by blast
qed

end
