(* ===== verification/Grammar.thy ===== *)
theory Grammar
  imports Statements
begin

text \<open>
  The grammar of expressions, as a specification that does not mention the parser: \<open>spells rt L ts e\<close> says that the tokens \<open>ts\<close> spell
  the tree \<open>e\<close> at the precedence level \<open>L\<close>. There is one level per function of the parser, from \<^verbatim>\<open>OR\<close> (loosest) to primary expressions;
  the binary operators associate to the left. The grammar covers everything but subqueries. Shown: the parser of
  \<^verbatim>\<open>src/parser/parser.go\<close> reads every spelling as the tree it spells, so that the grammar is unambiguous.
\<close>

section \<open>Levels\<close>

datatype level = LOr | LAnd | LNot | LCmp | LAdd | LMul | LUna | LPri

definition is_tok :: "go_rt \<Rightarrow> TokenType \<Rightarrow> string list \<Rightarrow> Token \<Rightarrow> bool" where
  "is_tok rt typ vs t \<longleftrightarrow> tok_Type t = typ \<and> (vs = [] \<or> ToUpper rt (tok_Value t) \<in> set vs)"

abbreviation kw :: "go_rt \<Rightarrow> string \<Rightarrow> Token \<Rightarrow> bool" where
  "kw rt s t \<equiv> is_tok rt TokKeyword [s] t"

abbreviation mulOps :: "string list" where "mulOps \<equiv> [''*'', ''/'', ''%'']"
abbreviation addOps :: "string list" where "addOps \<equiv> [''+'', ''-'', ''||'']"
abbreviation cmpOps :: "string list" where "cmpOps \<equiv> [''='', ''<'', ''>'', ''<='', ''>='', ''<>'', ''!='']"

text \<open>The tokens that continue an expression of a level\<close>

definition contPri :: "Token \<Rightarrow> bool" where
  "contPri t \<longleftrightarrow> tok_Type t \<in> {TokLParen, TokDot}"

definition contMul :: "go_rt \<Rightarrow> Token \<Rightarrow> bool" where
  "contMul rt t \<longleftrightarrow> contPri t \<or> is_tok rt TokOperator mulOps t"

definition contAdd :: "go_rt \<Rightarrow> Token \<Rightarrow> bool" where
  "contAdd rt t \<longleftrightarrow> contMul rt t \<or> is_tok rt TokOperator addOps t"

definition contCmp :: "go_rt \<Rightarrow> Token \<Rightarrow> bool" where
  "contCmp rt t \<longleftrightarrow> contAdd rt t \<or> is_tok rt TokOperator cmpOps t \<or> is_tok rt TokKeyword [''IS'', ''IN'', ''BETWEEN'', ''LIKE''] t"

definition contAnd :: "go_rt \<Rightarrow> Token \<Rightarrow> bool" where
  "contAnd rt t \<longleftrightarrow> contCmp rt t \<or> kw rt ''AND'' t"

definition contOr :: "go_rt \<Rightarrow> Token \<Rightarrow> bool" where
  "contOr rt t \<longleftrightarrow> contAnd rt t \<or> kw rt ''OR'' t"

fun cont :: "go_rt \<Rightarrow> level \<Rightarrow> Token \<Rightarrow> bool" where
  "cont rt LPri = contPri"
| "cont rt LUna = contPri"
| "cont rt LMul = contMul rt"
| "cont rt LAdd = contAdd rt"
| "cont rt LCmp = contCmp rt"
| "cont rt LNot = contCmp rt"
| "cont rt LAnd = contAnd rt"
| "cont rt LOr = contOr rt"

lemmas cont_defs = contPri_def contMul_def contAdd_def contCmp_def contAnd_def contOr_def

section \<open>Spellings\<close>

text \<open>Keywords that are no names: they begin another construct where an expression may stand.\<close>

definition reserved :: "string list" where
  "reserved = [''NULL'', ''TRUE'', ''FALSE'', ''CASE'', ''EXISTS'', ''MATCH'', ''SELECT'', ''DISTINCT'', ''WHEN'', ''NOT'']"

definition is_name :: "go_rt \<Rightarrow> Token \<Rightarrow> bool" where
  "is_name rt t \<longleftrightarrow> tok_Type t = TokIdent \<or> tok_Type t = TokKeyword \<and> ToUpper rt (tok_Value t) \<notin> set reserved"

definition numberOf :: "go_rt \<Rightarrow> string \<Rightarrow> godata option" where
  "numberOf rt v =
     (case (if CHR ''.'' \<notin> set v \<and> CHR ''E'' \<notin> set (ToUpper rt v) then ParseInt64 v else Inl ConvSyntax) of
        Inr n \<Rightarrow> Some (GInt64 n)
      | Inl _ \<Rightarrow> map_option GFloat64 (rt_parseFloat rt v))"

inductive spells :: "go_rt \<Rightarrow> level \<Rightarrow> Token list \<Rightarrow> Expression \<Rightarrow> bool"
  and spellsList :: "go_rt \<Rightarrow> Token list \<Rightarrow> Expression list \<Rightarrow> bool"
  and spellsArgs :: "go_rt \<Rightarrow> Token list \<Rightarrow> Expression list \<Rightarrow> bool"
  and spellsWhens :: "go_rt \<Rightarrow> Token list \<Rightarrow> WhenClause list \<Rightarrow> bool"
  for rt :: go_rt where
  sp_or_up: "spells rt LAnd ts e \<Longrightarrow> spells rt LOr ts e"
| sp_and_up: "spells rt LNot ts e \<Longrightarrow> spells rt LAnd ts e"
| sp_not_up: "spells rt LCmp ts e \<Longrightarrow> spells rt LNot ts e"
| sp_cmp_up: "spells rt LAdd ts e \<Longrightarrow> spells rt LCmp ts e"
| sp_add_up: "spells rt LMul ts e \<Longrightarrow> spells rt LAdd ts e"
| sp_mul_up: "spells rt LUna ts e \<Longrightarrow> spells rt LMul ts e"
| sp_una_up: "spells rt LPri ts e \<Longrightarrow> spells rt LUna ts e"
| sp_or: "spells rt LOr ts a \<Longrightarrow> kw rt ''OR'' t \<Longrightarrow> spells rt LAnd us b \<Longrightarrow> spells rt LOr (ts @ t # us) (ExprBinaryOp a ''OR'' b)"
| sp_and: "spells rt LAnd ts a \<Longrightarrow> kw rt ''AND'' t \<Longrightarrow> spells rt LNot us b \<Longrightarrow> spells rt LAnd (ts @ t # us) (ExprBinaryOp a ''AND'' b)"
| sp_not: "kw rt ''NOT'' t \<Longrightarrow> spells rt LCmp ts e \<Longrightarrow> spells rt LNot (t # ts) (ExprUnaryOp ''NOT'' e)"
| sp_cmp: "spells rt LAdd ts a \<Longrightarrow> is_tok rt TokOperator cmpOps t \<Longrightarrow> spells rt LAdd us b
    \<Longrightarrow> spells rt LCmp (ts @ t # us) (ExprBinaryOp a (tok_Value t) b)"
| sp_like: "spells rt LAdd ts a \<Longrightarrow> kw rt ''LIKE'' t \<Longrightarrow> spells rt LAdd us b \<Longrightarrow> spells rt LCmp (ts @ t # us) (ExprBinaryOp a ''LIKE'' b)"
| sp_is: "spells rt LAdd ts a \<Longrightarrow> kw rt ''IS'' t \<Longrightarrow> kw rt ''NULL'' u \<Longrightarrow> spells rt LCmp (ts @ [t, u]) (ExprBinaryOp a ''IS'' (ExprLiteral GNil))"
| sp_is_not: "spells rt LAdd ts a \<Longrightarrow> kw rt ''IS'' t \<Longrightarrow> kw rt ''NOT'' u \<Longrightarrow> kw rt ''NULL'' v
    \<Longrightarrow> spells rt LCmp (ts @ [t, u, v]) (ExprBinaryOp a ''IS NOT'' (ExprLiteral GNil))"
| sp_in: "spells rt LAdd ts a \<Longrightarrow> kw rt ''IN'' t \<Longrightarrow> tok_Type l = TokLParen \<Longrightarrow> spellsList rt us es \<Longrightarrow> tok_Type r = TokRParen
    \<Longrightarrow> spells rt LCmp (ts @ t # l # us @ [r]) (ExprIn a es None)"
| sp_between: "spells rt LAdd ts a \<Longrightarrow> kw rt ''BETWEEN'' t \<Longrightarrow> spells rt LAdd us b \<Longrightarrow> kw rt ''AND'' u \<Longrightarrow> spells rt LAdd vs c
    \<Longrightarrow> spells rt LCmp (ts @ t # us @ u # vs) (ExprBetween a b c)"
| sp_add: "spells rt LAdd ts a \<Longrightarrow> is_tok rt TokOperator addOps t \<Longrightarrow> spells rt LMul us b
    \<Longrightarrow> spells rt LAdd (ts @ t # us) (ExprBinaryOp a (if ToUpper rt (tok_Value t) \<in> {''+'', ''-''} then tok_Value t else ''||'') b)"
| sp_mul: "spells rt LMul ts a \<Longrightarrow> is_tok rt TokOperator mulOps t \<Longrightarrow> spells rt LUna us b
    \<Longrightarrow> spells rt LMul (ts @ t # us) (ExprBinaryOp a (tok_Value t) b)"
| sp_una: "is_tok rt TokOperator [''+'', ''-''] t \<Longrightarrow> spells rt LUna ts e \<Longrightarrow> spells rt LUna (t # ts) (ExprUnaryOp (tok_Value t) e)"
| sp_number: "tok_Type t = TokNumber \<Longrightarrow> numberOf rt (tok_Value t) = Some v \<Longrightarrow> spells rt LPri [t] (ExprLiteral v)"
| sp_string: "tok_Type t = TokString \<Longrightarrow> spells rt LPri [t] (ExprLiteral (GString (tok_Value t)))"
| sp_null: "kw rt ''NULL'' t \<Longrightarrow> spells rt LPri [t] (ExprLiteral GNil)"
| sp_true: "kw rt ''TRUE'' t \<Longrightarrow> spells rt LPri [t] (ExprLiteral (GBool True))"
| sp_false: "kw rt ''FALSE'' t \<Longrightarrow> spells rt LPri [t] (ExprLiteral (GBool False))"
| sp_column: "is_name rt t \<Longrightarrow> spells rt LPri [t] (ExprColumn [] (tok_Value t))"
| sp_qualified: "is_name rt t \<Longrightarrow> tok_Type d = TokDot \<Longrightarrow> tok_Type c \<in> {TokIdent, TokKeyword}
    \<Longrightarrow> spells rt LPri [t, d, c] (ExprColumn (tok_Value t) (tok_Value c))"
| sp_call: "is_name rt t \<Longrightarrow> tok_Type l = TokLParen \<Longrightarrow> spellsArgs rt ts es \<Longrightarrow> tok_Type r = TokRParen
    \<Longrightarrow> spells rt LPri (t # l # ts @ [r]) (ExprFunction (ToUpper rt (tok_Value t)) es)"
| sp_call0: "is_name rt t \<Longrightarrow> tok_Type l = TokLParen \<Longrightarrow> tok_Type r = TokRParen
    \<Longrightarrow> spells rt LPri [t, l, r] (ExprFunction (ToUpper rt (tok_Value t)) [])"
| sp_call_star: "is_name rt t \<Longrightarrow> tok_Type l = TokLParen \<Longrightarrow> tok_Type s = TokStar \<Longrightarrow> tok_Type r = TokRParen
    \<Longrightarrow> spells rt LPri [t, l, s, r] (ExprFunction (ToUpper rt (tok_Value t)) [ExprStar []])"
| sp_paren: "tok_Type l = TokLParen \<Longrightarrow> spells rt LOr ts e \<Longrightarrow> tok_Type r = TokRParen \<Longrightarrow> spells rt LPri (l # ts @ [r]) e"
| sp_case: "kw rt ''CASE'' c \<Longrightarrow> spellsWhens rt ws whens \<Longrightarrow> ws \<noteq> [] \<Longrightarrow> kw rt ''END'' n
    \<Longrightarrow> spells rt LPri (c # ws @ [n]) (ExprCase None whens None)"
| sp_case_else: "kw rt ''CASE'' c \<Longrightarrow> spellsWhens rt ws whens \<Longrightarrow> ws \<noteq> [] \<Longrightarrow> kw rt ''ELSE'' l \<Longrightarrow> spells rt LOr ts e \<Longrightarrow> kw rt ''END'' n
    \<Longrightarrow> spells rt LPri (c # ws @ l # ts @ [n]) (ExprCase None whens (Some e))"
| sp_case_of: "kw rt ''CASE'' c \<Longrightarrow> spells rt LOr us x \<Longrightarrow> spellsWhens rt ws whens \<Longrightarrow> ws \<noteq> [] \<Longrightarrow> kw rt ''END'' n
    \<Longrightarrow> spells rt LPri (c # us @ ws @ [n]) (ExprCase (Some x) whens None)"
| sp_case_of_else: "kw rt ''CASE'' c \<Longrightarrow> spells rt LOr us x \<Longrightarrow> spellsWhens rt ws whens \<Longrightarrow> ws \<noteq> [] \<Longrightarrow> kw rt ''ELSE'' l
    \<Longrightarrow> spells rt LOr ts e \<Longrightarrow> kw rt ''END'' n \<Longrightarrow> spells rt LPri (c # us @ ws @ l # ts @ [n]) (ExprCase (Some x) whens (Some e))"
| sp_match: "kw rt ''MATCH'' m \<Longrightarrow> tok_Type l = TokLParen \<Longrightarrow> tok_Type c = TokIdent \<Longrightarrow> tok_Type r = TokRParen \<Longrightarrow> kw rt ''AGAINST'' a
    \<Longrightarrow> tok_Type l' = TokLParen \<Longrightarrow> tok_Type q = TokString \<Longrightarrow> tok_Type r' = TokRParen
    \<Longrightarrow> spells rt LPri [m, l, c, r, a, l', q, r'] (ExprMatch (tok_Value c) (tok_Value q) [] 0)"
| sl_one: "spells rt LOr ts e \<Longrightarrow> spellsList rt ts [e]"
| sl_more: "spells rt LOr ts e \<Longrightarrow> tok_Type c = TokComma \<Longrightarrow> spellsList rt us es \<Longrightarrow> spellsList rt (ts @ c # us) (e # es)"
| sa_one: "spells rt LOr ts e \<Longrightarrow> spellsArgs rt ts [e]"
| sa_distinct: "kw rt ''DISTINCT'' d \<Longrightarrow> spells rt LOr ts e \<Longrightarrow> spellsArgs rt (d # ts) [ExprUnaryOp ''DISTINCT'' e]"
| sa_more: "spells rt LOr ts e \<Longrightarrow> tok_Type c = TokComma \<Longrightarrow> spellsArgs rt us es \<Longrightarrow> spellsArgs rt (ts @ c # us) (e # es)"
| sw_none: "spellsWhens rt [] []"
| sw_more: "kw rt ''WHEN'' w \<Longrightarrow> spells rt LOr ts a \<Longrightarrow> kw rt ''THEN'' t \<Longrightarrow> spells rt LOr us b \<Longrightarrow> spellsWhens rt vs ws
    \<Longrightarrow> spellsWhens rt (w # ts @ t # us @ vs) ((a, b) # ws)"

section \<open>First tokens\<close>

definition starts :: "go_rt \<Rightarrow> level \<Rightarrow> Token \<Rightarrow> bool" where
  "starts rt L t \<longleftrightarrow>
     tok_Type t \<in> {TokNumber, TokString, TokIdent, TokLParen, TokKeyword, TokOperator} \<and>
     \<not> is_tok rt TokKeyword [''SELECT'', ''DISTINCT'', ''WHEN''] t \<and>
     (L \<notin> {LOr, LAnd, LNot} \<longrightarrow> \<not> kw rt ''NOT'' t) \<and> (L = LPri \<longrightarrow> tok_Type t \<noteq> TokOperator)"

lemma spells_first: "spells rt L ts e \<Longrightarrow> ts \<noteq> [] \<and> starts rt L (hd ts)"
proof (induction rule: spells_spellsList_spellsArgs_spellsWhens.inducts(1)
    [where ?P2.0 = "\<lambda>_ _. True" and ?P3.0 = "\<lambda>_ _. True" and ?P4.0 = "\<lambda>_ _. True"])
qed (auto simp: starts_def is_tok_def is_name_def reserved_def)

section \<open>The parser at each level\<close>

lemma upper_literals [simp]:
  "ToUpper rt ''OR'' = ''OR''" "ToUpper rt ''AND'' = ''AND''" "ToUpper rt ''NOT'' = ''NOT''" "ToUpper rt ''IS'' = ''IS''"
  "ToUpper rt ''IN'' = ''IN''" "ToUpper rt ''BETWEEN'' = ''BETWEEN''" "ToUpper rt ''LIKE'' = ''LIKE''" "ToUpper rt ''NULL'' = ''NULL''"
  "ToUpper rt ''TRUE'' = ''TRUE''" "ToUpper rt ''FALSE'' = ''FALSE''" "ToUpper rt ''CASE'' = ''CASE''" "ToUpper rt ''EXISTS'' = ''EXISTS''"
  "ToUpper rt ''MATCH'' = ''MATCH''" "ToUpper rt ''AGAINST'' = ''AGAINST''" "ToUpper rt ''SELECT'' = ''SELECT''"
  "ToUpper rt ''DISTINCT'' = ''DISTINCT''" "ToUpper rt ''WHEN'' = ''WHEN''" "ToUpper rt ''THEN'' = ''THEN''" "ToUpper rt ''ELSE'' = ''ELSE''"
  "ToUpper rt ''END'' = ''END''" "ToUpper rt ''WITH'' = ''WITH''" "ToUpper rt ''LEVEL'' = ''LEVEL''"
  "ToUpper rt ''='' = ''=''" "ToUpper rt ''<'' = ''<''" "ToUpper rt ''>'' = ''>''" "ToUpper rt ''<='' = ''<=''" "ToUpper rt ''>='' = ''>=''"
  "ToUpper rt ''<>'' = ''<>''" "ToUpper rt ''!='' = ''!=''" "ToUpper rt ''+'' = ''+''" "ToUpper rt ''-'' = ''-''" "ToUpper rt ''||'' = ''||''"
  "ToUpper rt ''*'' = ''*''" "ToUpper rt ''/'' = ''/''" "ToUpper rt ''%'' = ''%''"
  by (simp_all add: ToUpper_def is_ascii_def upper_ascii_def)

named_theorems parsing "evaluation of parsers on tokens"

lemma current_Cons [simp]: "current (t # ts) = t"
  by (simp add: current_def)

lemma current_append [simp]: "ts \<noteq> [] \<Longrightarrow> current (ts @ us) = hd ts"
  by (simp add: current_def)

lemma match_is_tok: "map (ToUpper rt) vs = vs \<Longrightarrow> match rt typ vs ts \<longleftrightarrow> is_tok rt typ vs (current ts)"
proof -
  assume "map (ToUpper rt) vs = vs"
  then have "ToUpper rt ` set vs = set vs" by (metis list.set_map)
  then show ?thesis by (auto simp: match_def is_tok_def Let_def)
qed

lemma whenMatch_eq [parsing]:
  "map (ToUpper rt) vs = vs \<Longrightarrow>
   whenMatch rt typ vs p q ts = (if is_tok rt typ vs (current ts) then p (current ts) (tl ts) else q ts)"
  by (simp add: whenMatch_def match_is_tok)

lemma ifMatch_eq [parsing]:
  "map (ToUpper rt) vs = vs \<Longrightarrow> ifMatch rt typ vs p q ts = (if is_tok rt typ vs (current ts) then p ts else q ts)"
  by (simp add: ifMatch_def match_is_tok)

lemma expect_eq [parsing]:
  "tok_Type t = typ \<Longrightarrow> expect rt typ [] (t # ts) = (ts, Inr ())"
  "ToUpper rt v = v \<Longrightarrow> is_tok rt typ [v] t \<Longrightarrow> expect rt typ v (t # ts) = (ts, Inr ())"
  by (auto simp: expect_def is_tok_def Let_def)

declare bindS_def [parsing] returnS_def [parsing] advance_def [parsing]

definition parseAt :: "go_rt \<Rightarrow> level \<Rightarrow> Expression parser" where
  "parseAt rt L =
     (case L of
        LOr \<Rightarrow> parseOrExpr rt (parseExpression rt) (parseSelect rt) | LAnd \<Rightarrow> parseAndExpr rt (parseExpression rt) (parseSelect rt)
      | LNot \<Rightarrow> parseNotExpr rt (parseExpression rt) (parseSelect rt) | LCmp \<Rightarrow> parseComparisonExpr rt (parseExpression rt) (parseSelect rt)
      | LAdd \<Rightarrow> parseAdditiveExpr rt (parseExpression rt) (parseSelect rt)
      | LMul \<Rightarrow> parseMultiplicativeExpr rt (parseExpression rt) (parseSelect rt)
      | LUna \<Rightarrow> parseUnaryExpr rt (parseExpression rt) (parseSelect rt) | LPri \<Rightarrow> parsePrimaryExpr rt (parseExpression rt) (parseSelect rt))"

abbreviation addOp :: "go_rt \<Rightarrow> Token \<Rightarrow> string" where
  "addOp rt tok \<equiv> if ToUpper rt (tok_Value tok) \<in> {''+'', ''-''} then tok_Value tok else ''||''"

text \<open>What a level does after its first operand: the loop of the left-associative operators, or nothing\<close>

definition loopAt :: "go_rt \<Rightarrow> level \<Rightarrow> Expression \<Rightarrow> Expression parser" where
  "loopAt rt L =
     (case L of
        LOr \<Rightarrow> leftLoop rt TokKeyword [''OR''] (\<lambda>_. ''OR'') (parseAt rt LAnd)
      | LAnd \<Rightarrow> leftLoop rt TokKeyword [''AND''] (\<lambda>_. ''AND'') (parseAt rt LNot)
      | LAdd \<Rightarrow> leftLoop rt TokOperator addOps (addOp rt) (parseAt rt LMul)
      | LMul \<Rightarrow> leftLoop rt TokOperator mulOps tok_Value (parseAt rt LUna)
      | _ \<Rightarrow> returnS)"

fun inner :: "level \<Rightarrow> level" where
  "inner LOr = LAnd" | "inner LAnd = LNot" | "inner LAdd = LMul" | "inner LMul = LUna" | "inner L = L"

lemma parseExpression_at: "parseExpression rt = parseAt rt LOr"
  unfolding parseAt_def level.case by (rule parser_equations)

lemma parseAt_loop: "L \<in> {LOr, LAnd, LAdd, LMul} \<Longrightarrow> parseAt rt L = bindS (parseAt rt (inner L)) (loopAt rt L)"
  by (auto simp: loopAt_def parseAt_def parseOrExpr_def parseAndExpr_def parseAdditiveExpr_def parseMultiplicativeExpr_def)

lemma agree_parseAt: "agree True n (parseAt rt L) (parseAt rt L)"
  unfolding parseAt_def
  by (cases L) (simp_all add: agree_parseOrExpr agree_parseAndExpr agree_parseNotExpr agree_parseComparisonExpr agree_parseAdditiveExpr
      agree_parseMultiplicativeExpr agree_parseUnaryExpr agree_parsePrimaryExpr agree_parsers)

lemma cont_inner: "\<not> cont rt L t \<Longrightarrow> \<not> cont rt (inner L) t"
  by (cases L) (auto simp: cont_defs)

lemma leftLoop_stop:
  assumes "\<And>m. agree True m p p" "typ \<noteq> TokEOF" "map (ToUpper rt) ops = ops" "\<not> is_tok rt typ ops (current rest)"
  shows "leftLoop rt typ ops op p e rest = (rest, Inr e)"
  by (subst leftLoop_unfold [OF assms(1,2)]) (simp add: whenMatch_eq assms returnS_def)

lemma loopAt_stop: "\<not> cont rt L (current rest) \<Longrightarrow> loopAt rt L e rest = (rest, Inr e)"
  by (cases L) (simp_all add: loopAt_def leftLoop_stop [OF agree_parseAt] cont_defs returnS_def)

text \<open>
  The invariant of the induction: on a spelling followed by anything that does not continue its first operand, the parser of the
  level arrives at its loop with the tree of the spelling.
\<close>

definition parsesTo :: "go_rt \<Rightarrow> level \<Rightarrow> Token list \<Rightarrow> Expression \<Rightarrow> bool" where
  "parsesTo rt L ts e \<longleftrightarrow> (\<forall>rest. \<not> cont rt (inner L) (current rest) \<longrightarrow> parseAt rt L (ts @ rest) = loopAt rt L e rest)"

lemma parsesToD: "parsesTo rt L ts e \<Longrightarrow> \<not> cont rt L (current rest) \<Longrightarrow> parseAt rt L (ts @ rest) = (rest, Inr e)"
  using cont_inner loopAt_stop unfolding parsesTo_def by metis

lemma parsesToI:
  "L \<notin> {LOr, LAnd, LAdd, LMul} \<Longrightarrow> (\<And>rest. \<not> cont rt L (current rest) \<Longrightarrow> parseAt rt L (ts @ rest) = (rest, Inr e)) \<Longrightarrow> parsesTo rt L ts e"
  by (cases L) (simp_all add: parsesTo_def loopAt_def returnS_def)

lemma parsesTo_up: "L \<in> {LOr, LAnd, LAdd, LMul} \<Longrightarrow> parsesTo rt (inner L) ts e \<Longrightarrow> parsesTo rt L ts e"
  unfolding parsesTo_def [of rt L] parseAt_loop [of L] by (auto dest: parsesToD simp: bindS_def)

lemma parsesTo_binary:
  assumes a: "parsesTo rt L ts a" and b: "parsesTo rt (inner L) us b" and t: "\<not> cont rt (inner L) t"
    and loop: "\<And>rest. loopAt rt L a (t # rest) = bindS (parseAt rt (inner L)) (\<lambda>r. loopAt rt L (ExprBinaryOp a op r)) rest"
  shows "parsesTo rt L (ts @ t # us) (ExprBinaryOp a op b)"
  unfolding parsesTo_def
proof (intro allI impI)
  fix rest
  assume rest: "\<not> cont rt (inner L) (current rest)"
  have "parseAt rt L (ts @ t # us @ rest) = loopAt rt L a (t # us @ rest)" using a t by (simp add: parsesTo_def)
  also have "\<dots> = loopAt rt L (ExprBinaryOp a op b) rest" using parsesToD [OF b rest] by (simp add: loop bindS_def)
  finally show "parseAt rt L ((ts @ t # us) @ rest) = loopAt rt L (ExprBinaryOp a op b) rest" by simp
qed

lemma loop_steps:
  "kw rt ''OR'' t \<Longrightarrow> loopAt rt LOr a (t # rest) = bindS (parseAt rt LAnd) (\<lambda>r. loopAt rt LOr (ExprBinaryOp a ''OR'' r)) rest"
  "kw rt ''AND'' t \<Longrightarrow> loopAt rt LAnd a (t # rest) = bindS (parseAt rt LNot) (\<lambda>r. loopAt rt LAnd (ExprBinaryOp a ''AND'' r)) rest"
  "is_tok rt TokOperator addOps t \<Longrightarrow>
     loopAt rt LAdd a (t # rest) = bindS (parseAt rt LMul) (\<lambda>r. loopAt rt LAdd (ExprBinaryOp a (addOp rt t) r)) rest"
  "is_tok rt TokOperator mulOps t \<Longrightarrow>
     loopAt rt LMul a (t # rest) = bindS (parseAt rt LUna) (\<lambda>r. loopAt rt LMul (ExprBinaryOp a (tok_Value t) r)) rest"
  unfolding loopAt_def level.case
  by (subst leftLoop_unfold [OF agree_parseAt], simp, simp add: whenMatch_eq NewBinaryExpr_def)+

section \<open>Comparisons\<close>

lemma parseAt_not:
  "parseAt rt LNot =
    whenMatch rt TokKeyword [''NOT''] (\<lambda>_. bindS (parseAt rt LCmp) (\<lambda>right. returnS (ExprUnaryOp ''NOT'' right))) (parseAt rt LCmp)"
  by (simp add: parseAt_def parseNotExpr_def NewUnaryExpr_def)

lemma parseAt_cmp:
  "parseAt rt LCmp =
    bindS (parseAt rt LAdd) (\<lambda>left.
         whenMatch rt TokOperator cmpOps (\<lambda>tok. bindS (parseAt rt LAdd) (\<lambda>right. returnS (ExprBinaryOp left (tok_Value tok) right)))
        (whenMatch rt TokKeyword [''IS''] (\<lambda>_. parseIsExpr rt left)
        (whenMatch rt TokKeyword [''IN''] (\<lambda>_. parseInExpr rt (parseExpression rt) (parseSelect rt) left)
        (whenMatch rt TokKeyword [''BETWEEN''] (\<lambda>_. bindS (parseAt rt LAdd) (\<lambda>low. bindS (expect rt TokKeyword ''AND'') (\<lambda>_.
            bindS (parseAt rt LAdd) (\<lambda>high. returnS (ExprBetween left low high)))))
        (whenMatch rt TokKeyword [''LIKE''] (\<lambda>_. bindS (parseAt rt LAdd) (\<lambda>right. returnS (ExprBinaryOp left ''LIKE'' right)))
        (returnS left))))))"
  by (simp add: parseAt_def parseComparisonExpr_def parseBetweenExpr_def NewBinaryExpr_def Let_def)

text \<open>The tokens behind the left operand of a comparison\<close>

lemma operators_stop:
  "is_tok rt TokOperator cmpOps t \<Longrightarrow> \<not> contAdd rt t" "is_tok rt TokKeyword vs t \<Longrightarrow> \<not> contAdd rt t"
  "is_tok rt TokOperator addOps t \<Longrightarrow> \<not> contMul rt t" "is_tok rt TokOperator mulOps t \<Longrightarrow> \<not> contPri t"
  "kw rt ''AND'' t \<Longrightarrow> \<not> contCmp rt t" "kw rt ''OR'' t \<Longrightarrow> \<not> contAnd rt t"
  "tok_Type t = TokRParen \<Longrightarrow> \<not> contOr rt t" "tok_Type t = TokComma \<Longrightarrow> \<not> contOr rt t"
  "is_tok rt TokKeyword [''THEN'', ''ELSE'', ''END'', ''WHEN''] t \<Longrightarrow> \<not> contOr rt t"
  by (auto simp: is_tok_def cont_defs)

lemma cmp_left: "parsesTo rt LAdd ts a \<Longrightarrow> \<not> contAdd rt (current us) \<Longrightarrow> bindS (parseAt rt LAdd) k (ts @ us) = k a us"
  using parsesToD [of rt LAdd ts a us] by (simp add: bindS_def)

lemma parsesTo_cmp_up: "parsesTo rt LAdd ts e \<Longrightarrow> parsesTo rt LCmp ts e"
  by (rule parsesToI) (auto simp: parseAt_cmp cmp_left contCmp_def is_tok_def whenMatch_eq returnS_def)

lemma parsesTo_not_up: "parsesTo rt LCmp ts e \<Longrightarrow> ts \<noteq> [] \<Longrightarrow> starts rt LCmp (hd ts) \<Longrightarrow> parsesTo rt LNot ts e"
  by (rule parsesToI) (auto simp: parseAt_not whenMatch_eq starts_def dest: parsesToD)

lemma parsesTo_not: "kw rt ''NOT'' t \<Longrightarrow> parsesTo rt LCmp ts e \<Longrightarrow> parsesTo rt LNot (t # ts) (ExprUnaryOp ''NOT'' e)"
  by (rule parsesToI) (auto simp: parseAt_not parsing dest: parsesToD)

lemma cmp_not_add: "\<not> contCmp rt t \<Longrightarrow> \<not> contAdd rt t"
  by (simp add: contCmp_def)

lemma parsesTo_cmp:
  assumes "parsesTo rt LAdd ts a" "is_tok rt TokOperator cmpOps t" "parsesTo rt LAdd us b"
  shows "parsesTo rt LCmp (ts @ t # us) (ExprBinaryOp a (tok_Value t) b)"
  by (rule parsesToI)
     (auto simp: parseAt_cmp cmp_left [OF assms(1)] cmp_left [OF assms(3)] operators_stop assms(2) whenMatch_eq returnS_def cmp_not_add)

lemma kw_not_op: "is_tok rt TokKeyword vs t \<Longrightarrow> \<not> is_tok rt TokOperator ws t"
  by (simp add: is_tok_def)

lemma parsesTo_like:
  assumes "parsesTo rt LAdd ts a" "kw rt ''LIKE'' t" "parsesTo rt LAdd us b"
  shows "parsesTo rt LCmp (ts @ t # us) (ExprBinaryOp a ''LIKE'' b)"
  by (rule parsesToI)
     (use assms(2) in \<open>auto simp: parseAt_cmp cmp_left [OF assms(1)] cmp_left [OF assms(3)] operators_stop(2) [OF assms(2)] whenMatch_eq
        returnS_def cmp_not_add is_tok_def\<close>)

lemma parsesTo_is:
  assumes "parsesTo rt LAdd ts a" "kw rt ''IS'' t" "kw rt ''NULL'' u"
  shows "parsesTo rt LCmp (ts @ [t, u]) (ExprBinaryOp a ''IS'' (ExprLiteral GNil))"
  by (rule parsesToI)
     (use assms(2,3) in \<open>auto simp: parseAt_cmp cmp_left [OF assms(1)] operators_stop(2) [OF assms(2)] whenMatch_eq returnS_def is_tok_def
        parseIsExpr_def new_expr_defs\<close>)

lemma parsesTo_is_not:
  assumes "parsesTo rt LAdd ts a" "kw rt ''IS'' t" "kw rt ''NOT'' u" "kw rt ''NULL'' v"
  shows "parsesTo rt LCmp (ts @ [t, u, v]) (ExprBinaryOp a ''IS NOT'' (ExprLiteral GNil))"
  by (rule parsesToI)
     (use assms(2-4) in \<open>auto simp: parseAt_cmp cmp_left [OF assms(1)] operators_stop(2) [OF assms(2)] whenMatch_eq returnS_def is_tok_def
        parseIsExpr_def new_expr_defs\<close>)

lemma parsesTo_between:
  assumes "parsesTo rt LAdd ts a" "kw rt ''BETWEEN'' t" "parsesTo rt LAdd us b" "kw rt ''AND'' u" "parsesTo rt LAdd vs c"
  shows "parsesTo rt LCmp (ts @ t # us @ u # vs) (ExprBetween a b c)"
proof (rule parsesToI, simp)
  fix rest
  assume "\<not> cont rt LCmp (current rest)"
  then have rest: "\<not> contAdd rt (current rest)" by (simp add: contCmp_def)
  have t: "is_tok rt TokKeyword [''BETWEEN''] t" "\<not> is_tok rt TokOperator cmpOps t" "\<not> kw rt ''IS'' t" "\<not> kw rt ''IN'' t"
    using assms(2) by (auto simp: is_tok_def)
  show "parseAt rt LCmp ((ts @ t # us @ u # vs) @ rest) = (rest, Inr (ExprBetween a b c))"
    using t assms(4) rest
    by (simp add: parseAt_cmp cmp_left [OF assms(1)] cmp_left [OF assms(3)] cmp_left [OF assms(5)] operators_stop(2) whenMatch_eq bindS_Inr [of "expect rt TokKeyword ''AND''"]
        expect_eq returnS_def)
qed

lemma parsesTo_in:
  assumes a: "parsesTo rt LAdd ts a" and t: "kw rt ''IN'' t" and l: "tok_Type l = TokLParen" and r: "tok_Type r = TokRParen"
    and us: "\<And>rest. tok_Type (current rest) = TokRParen \<Longrightarrow> commaList rt (parseExpression rt) (us @ rest) = (rest, Inr es)"
    and sel: "us \<noteq> []" "\<not> kw rt ''SELECT'' (hd us)"
  shows "parsesTo rt LCmp (ts @ t # l # us @ [r]) (ExprIn a es None)"
proof (rule parsesToI, simp)
  fix rest
  have t': "\<not> is_tok rt TokOperator cmpOps t" "\<not> kw rt ''IS'' t" using t by (auto simp: is_tok_def)
  have "parseInExpr rt (parseExpression rt) (parseSelect rt) a (l # us @ r # rest) = (rest, Inr (ExprIn a es None))"
    using us [of "r # rest"] r l sel by (simp add: parseInExpr_def parsing)
  with t t' show "parseAt rt LCmp ((ts @ t # l # us @ [r]) @ rest) = (rest, Inr (ExprIn a es None))"
    by (simp add: parseAt_cmp cmp_left [OF a] operators_stop(2) whenMatch_eq)
qed

section \<open>Primary expressions\<close>

lemma parseAt_una:
  "parseAt rt LUna =
    whenMatch rt TokOperator [''+'', ''-''] (\<lambda>tok. bindS (parseAt rt LUna) (\<lambda>right. returnS (ExprUnaryOp (tok_Value tok) right))) (parseAt rt LPri)"
  unfolding parseAt_def level.case by (subst parseUnaryExpr_unfold [OF agree_parsers]) (simp add: NewUnaryExpr_def)

lemma parsesTo_una_up: "parsesTo rt LPri ts e \<Longrightarrow> ts \<noteq> [] \<Longrightarrow> starts rt LPri (hd ts) \<Longrightarrow> parsesTo rt LUna ts e"
  by (rule parsesToI, simp, subst parseAt_una) (auto simp: whenMatch_eq starts_def is_tok_def dest: parsesToD)

lemma parsesTo_una:
  assumes t: "is_tok rt TokOperator [''+'', ''-''] t" and ts: "parsesTo rt LUna ts e"
  shows "parsesTo rt LUna (t # ts) (ExprUnaryOp (tok_Value t) e)"
proof (rule parsesToI, simp)
  fix rest
  assume "\<not> cont rt LUna (current rest)"
  from parsesToD [OF ts this] t show "parseAt rt LUna ((t # ts) @ rest) = (rest, Inr (ExprUnaryOp (tok_Value t) e))"
    by (subst parseAt_una) (simp add: parsing)
qed

lemma parseAt_pri: "parseAt rt LPri = parsePrimaryExpr rt (parseExpression rt) (parseSelect rt)"
  by (simp add: parseAt_def)

lemma pri_keyword: "tok_Type t = TokKeyword \<Longrightarrow> parseAt rt LPri (t # ts) = keywordExpr rt (parseExpression rt) (parseSelect rt) (t # ts)"
  by (simp add: parseAt_pri parsePrimaryExpr_def)

lemma parsesTo_literals:
  "tok_Type t = TokNumber \<Longrightarrow> numberOf rt (tok_Value t) = Some v \<Longrightarrow> parsesTo rt LPri [t] (ExprLiteral v)"
  "tok_Type t = TokString \<Longrightarrow> parsesTo rt LPri [t] (ExprLiteral (GString (tok_Value t)))"
  "kw rt ''NULL'' t \<Longrightarrow> parsesTo rt LPri [t] (ExprLiteral GNil)"
  "kw rt ''TRUE'' t \<Longrightarrow> parsesTo rt LPri [t] (ExprLiteral (GBool True))"
  "kw rt ''FALSE'' t \<Longrightarrow> parsesTo rt LPri [t] (ExprLiteral (GBool False))"
proof -
  show "tok_Type t = TokNumber \<Longrightarrow> numberOf rt (tok_Value t) = Some v \<Longrightarrow> parsesTo rt LPri [t] (ExprLiteral v)"
    by (rule parsesToI)
       (auto simp: parseAt_pri parsePrimaryExpr_def parseNumberLiteral_def numberOf_def parsing NewLiteralExpr_def Let_def
        split: if_splits sum.splits option.splits)
  show "tok_Type t = TokString \<Longrightarrow> parsesTo rt LPri [t] (ExprLiteral (GString (tok_Value t)))"
    by (rule parsesToI) (auto simp: parseAt_pri parsePrimaryExpr_def NewLiteralExpr_def)
  show "kw rt ''NULL'' t \<Longrightarrow> parsesTo rt LPri [t] (ExprLiteral GNil)"
    "kw rt ''TRUE'' t \<Longrightarrow> parsesTo rt LPri [t] (ExprLiteral (GBool True))"
    "kw rt ''FALSE'' t \<Longrightarrow> parsesTo rt LPri [t] (ExprLiteral (GBool False))"
    by (rule parsesToI; simp add: is_tok_def pri_keyword keywordExpr_def whenMatch_eq returnS_def NewLiteralExpr_def)+
qed

lemma name_expr: "is_name rt t \<Longrightarrow> parseAt rt LPri (t # ts) = parseIdentOrFunction rt (parseExpression rt) (t # ts)"
proof -
  assume t: "is_name rt t"
  show ?thesis
  proof (cases "tok_Type t = TokIdent")
    case True
    then show ?thesis by (simp add: parseAt_pri parsePrimaryExpr_def)
  next
    case False
    with t have "tok_Type t = TokKeyword" "ToUpper rt (tok_Value t) \<notin> set reserved" by (auto simp: is_name_def)
    then show ?thesis by (simp add: pri_keyword keywordExpr_def whenMatch_eq ifMatch_eq is_tok_def reserved_def)
  qed
qed

lemma parsesTo_column: "is_name rt t \<Longrightarrow> parsesTo rt LPri [t] (ExprColumn [] (tok_Value t))"
  by (rule parsesToI) (auto simp: name_expr parseIdentOrFunction_def parsing contPri_def is_tok_def NewColumnExpr_def)

lemma parsesTo_qualified:
  "is_name rt t \<Longrightarrow> tok_Type d = TokDot \<Longrightarrow> tok_Type c \<in> {TokIdent, TokKeyword} \<Longrightarrow>
   parsesTo rt LPri [t, d, c] (ExprColumn (tok_Value t) (tok_Value c))"
  by (rule parsesToI) (auto simp: name_expr parseIdentOrFunction_def matchName_def parsing is_tok_def NewQualifiedColumnExpr_def)

lemma parsesTo_calls:
  assumes "is_name rt t" "tok_Type l = TokLParen" "tok_Type r = TokRParen"
  shows "parsesTo rt LPri [t, l, r] (ExprFunction (ToUpper rt (tok_Value t)) [])"
    "tok_Type s = TokStar \<Longrightarrow> parsesTo rt LPri [t, l, s, r] (ExprFunction (ToUpper rt (tok_Value t)) [ExprStar []])"
  by (rule parsesToI; use assms in \<open>auto simp: name_expr parseIdentOrFunction_def parseArgs_def parsing is_tok_def new_expr_defs\<close>)+

lemma parsesTo_call:
  assumes t: "is_name rt t" and l: "tok_Type l = TokLParen" and r: "tok_Type r = TokRParen"
    and ts: "\<And>rest. tok_Type (current rest) = TokRParen \<Longrightarrow> commaList rt (parseArg rt (parseExpression rt)) (ts @ rest) = (rest, Inr es)"
    and first: "ts \<noteq> []" "tok_Type (hd ts) \<notin> {TokStar, TokRParen}"
  shows "parsesTo rt LPri (t # l # ts @ [r]) (ExprFunction (ToUpper rt (tok_Value t)) es)"
proof (rule parsesToI, simp)
  fix rest
  show "parseAt rt LPri ((t # l # ts @ [r]) @ rest) = (rest, Inr (ExprFunction (ToUpper rt (tok_Value t)) es))"
    using ts [of "r # rest"] r l first
    by (simp add: name_expr t parseIdentOrFunction_def parseArgs_def parsing is_tok_def [of rt _ "[]"] NewFunctionExpr_def)
qed

lemma parsesTo_paren:
  assumes l: "tok_Type l = TokLParen" and r: "tok_Type r = TokRParen" and ts: "parsesTo rt LOr ts e" "ts \<noteq> []" "starts rt LOr (hd ts)"
  shows "parsesTo rt LPri (l # ts @ [r]) e"
proof (rule parsesToI, simp)
  fix rest
  have "parseExpression rt (ts @ r # rest) = (r # rest, Inr e)"
    using parsesToD [OF ts(1), of "r # rest"] r by (simp add: operators_stop parseExpression_at)
  with l r ts(2,3) show "parseAt rt LPri ((l # ts @ [r]) @ rest) = (rest, Inr e)"
    by (auto simp: parseAt_pri parsePrimaryExpr_def parseParenExpr_def parsing starts_def is_tok_def)
qed

lemma parsesTo_match:
  assumes "kw rt ''MATCH'' m" "tok_Type l = TokLParen" "tok_Type c = TokIdent" "tok_Type r = TokRParen" "kw rt ''AGAINST'' a"
    "tok_Type l' = TokLParen" "tok_Type q = TokString" "tok_Type r' = TokRParen"
  shows "parsesTo rt LPri [m, l, c, r, a, l', q, r'] (ExprMatch (tok_Value c) (tok_Value q) [] 0)"
  by (rule parsesToI)
     (use assms in \<open>auto simp: is_tok_def pri_keyword keywordExpr_def parseMatchAgainst_def wantIdent_def wrapError_def matchMode_def matchLevel_def
        parsing\<close>)

section \<open>Lists and \<^verbatim>\<open>CASE\<close>\<close>

lemma agree_parseArg: "agree True n (parseArg rt (parseExpression rt)) (parseArg rt (parseExpression rt))"
  unfolding parseArg_def by (rule agree_rules | simp)+

lemma list_step:
  assumes p: "\<And>m. agree True m p p" and x: "p ts = (us, Inr x)"
  shows "tok_Type (current us) \<noteq> TokComma \<Longrightarrow> commaList rt p ts = (us, Inr [x])"
    "us = c # vs \<Longrightarrow> tok_Type c = TokComma \<Longrightarrow> commaList rt p vs = (rest, Inr xs) \<Longrightarrow> commaList rt p ts = (rest, Inr (x # xs))"
  by (subst commaList_unfold [OF p], simp add: x parsing is_tok_def)+

lemma expr_value: "parsesTo rt LOr ts e \<Longrightarrow> \<not> contOr rt (current rest) \<Longrightarrow> parseExpression rt (ts @ rest) = (rest, Inr e)"
  using parsesToD [of rt LOr ts e rest] by (simp add: parseExpression_at)

lemma arg_value:
  assumes "parsesTo rt LOr ts e" "\<not> contOr rt (current rest)"
  shows "ts \<noteq> [] \<Longrightarrow> starts rt LOr (hd ts) \<Longrightarrow> parseArg rt (parseExpression rt) (ts @ rest) = (rest, Inr e)"
    "kw rt ''DISTINCT'' d \<Longrightarrow> parseArg rt (parseExpression rt) (d # ts @ rest) = (rest, Inr (ExprUnaryOp ''DISTINCT'' e))"
  using expr_value [OF assms] by (auto simp: parseArg_def parsing starts_def is_tok_def NewUnaryExpr_def)

text \<open>The invariants for lists, arguments and branches\<close>

definition listTo :: "go_rt \<Rightarrow> Token list \<Rightarrow> Expression list \<Rightarrow> bool" where
  "listTo rt ts es \<longleftrightarrow> (\<forall>rest. tok_Type (current rest) = TokRParen \<longrightarrow> commaList rt (parseExpression rt) (ts @ rest) = (rest, Inr es))"

definition argsTo :: "go_rt \<Rightarrow> Token list \<Rightarrow> Expression list \<Rightarrow> bool" where
  "argsTo rt ts es \<longleftrightarrow>
     (\<forall>rest. tok_Type (current rest) = TokRParen \<longrightarrow> commaList rt (parseArg rt (parseExpression rt)) (ts @ rest) = (rest, Inr es))"

definition whensTo :: "go_rt \<Rightarrow> Token list \<Rightarrow> WhenClause list \<Rightarrow> bool" where
  "whensTo rt ts ws \<longleftrightarrow>
     (\<forall>rest. is_tok rt TokKeyword [''ELSE'', ''END''] (current rest) \<longrightarrow> whenLoop rt (parseExpression rt) (ts @ rest) = (rest, Inr ws))"

lemma listTo_one: "parsesTo rt LOr ts e \<Longrightarrow> listTo rt ts [e]"
  unfolding listTo_def by (auto intro!: list_step(1) [OF agree_parsers(1)] expr_value simp: operators_stop)

lemma listTo_more: "parsesTo rt LOr ts e \<Longrightarrow> tok_Type c = TokComma \<Longrightarrow> listTo rt us es \<Longrightarrow> listTo rt (ts @ c # us) (e # es)"
  unfolding listTo_def
  by (auto intro!: list_step(2) [OF agree_parsers(1) expr_value refl] simp: operators_stop)

lemma argsTo_one: "parsesTo rt LOr ts e \<Longrightarrow> ts \<noteq> [] \<Longrightarrow> starts rt LOr (hd ts) \<Longrightarrow> argsTo rt ts [e]"
  unfolding argsTo_def by (auto intro!: list_step(1) [OF agree_parseArg] arg_value simp: operators_stop)

lemma argsTo_distinct: "kw rt ''DISTINCT'' d \<Longrightarrow> parsesTo rt LOr ts e \<Longrightarrow> argsTo rt (d # ts) [ExprUnaryOp ''DISTINCT'' e]"
  unfolding argsTo_def by (auto intro!: list_step(1) [OF agree_parseArg] arg_value simp: operators_stop)

lemma argsTo_more:
  "parsesTo rt LOr ts e \<Longrightarrow> ts \<noteq> [] \<Longrightarrow> starts rt LOr (hd ts) \<Longrightarrow> tok_Type c = TokComma \<Longrightarrow> argsTo rt us es \<Longrightarrow> argsTo rt (ts @ c # us) (e # es)"
  unfolding argsTo_def by (auto intro!: list_step(2) [OF agree_parseArg arg_value(1) refl] simp: operators_stop)

lemma whensTo_none: "whensTo rt [] []"
  unfolding whensTo_def
  by (intro allI impI, subst whenLoop_unfold [OF agree_parsers(1)]) (auto simp: parsing is_tok_def)

lemma whensTo_more:
  assumes "kw rt ''WHEN'' w" "parsesTo rt LOr ts a" "kw rt ''THEN'' t" "parsesTo rt LOr us b" "whensTo rt vs ws"
    and us: "vs \<noteq> [] \<Longrightarrow> kw rt ''WHEN'' (hd vs)"
  shows "whensTo rt (w # ts @ t # us @ vs) ((a, b) # ws)"
  unfolding whensTo_def
proof (intro allI impI)
  fix rest
  assume rest: "is_tok rt TokKeyword [''ELSE'', ''END''] (current rest)"
  have "\<not> contOr rt t" using assms(3) by (intro operators_stop) (auto simp: is_tok_def)
  then have 1: "parseExpression rt (ts @ t # us @ vs @ rest) = (t # us @ vs @ rest, Inr a)" by (intro expr_value assms) simp
  have "\<not> contOr rt (current (vs @ rest))"
    using us rest by (intro operators_stop) (cases vs, auto simp: is_tok_def)
  then have 2: "parseExpression rt (us @ vs @ rest) = (vs @ rest, Inr b)" by (intro expr_value assms)
  have 3: "whenLoop rt (parseExpression rt) (vs @ rest) = (rest, Inr ws)" using assms(5) rest by (simp add: whensTo_def)
  show "whenLoop rt (parseExpression rt) ((w # ts @ t # us @ vs) @ rest) = (rest, Inr ((a, b) # ws))"
    using assms(1,3) by (subst whenLoop_unfold [OF agree_parsers(1)]) (simp add: parsing 1 2 3)
qed

text \<open>The operand of a \<^verbatim>\<open>CASE\<close> expression\<close>

definition operandTo :: "go_rt \<Rightarrow> Token list \<Rightarrow> Expression option \<Rightarrow> bool" where
  "operandTo rt us x \<longleftrightarrow>
     (\<forall>rest. kw rt ''WHEN'' (current rest) \<longrightarrow>
        ifMatch rt TokKeyword [''WHEN''] (returnS None) (bindS (parseExpression rt) (\<lambda>e. returnS (Some e))) (us @ rest) = (rest, Inr x))"

lemma operandTo_none: "operandTo rt [] None"
  by (simp add: operandTo_def parsing)

lemma operandTo_some: "parsesTo rt LOr us x \<Longrightarrow> us \<noteq> [] \<Longrightarrow> starts rt LOr (hd us) \<Longrightarrow> operandTo rt us (Some x)"
proof -
  assume us: "parsesTo rt LOr us x" "us \<noteq> []" "starts rt LOr (hd us)"
  have "parseExpression rt (us @ rest) = (rest, Inr x)" if "kw rt ''WHEN'' (current rest)" for rest
    using us(1) that by (intro expr_value operators_stop) (auto simp: is_tok_def)
  with us(2,3) show ?thesis by (auto simp: operandTo_def parsing starts_def is_tok_def)
qed

lemma parsesTo_case:
  assumes c: "kw rt ''CASE'' c" and us: "operandTo rt us x" and ws: "whensTo rt ws whens" "ws \<noteq> []" "kw rt ''WHEN'' (hd ws)"
    and n: "kw rt ''END'' n"
  shows "parsesTo rt LPri (c # us @ ws @ [n]) (ExprCase x whens None)"
    "kw rt ''ELSE'' l \<Longrightarrow> parsesTo rt LOr ts e \<Longrightarrow> parsesTo rt LPri (c # us @ ws @ l # ts @ [n]) (ExprCase x whens (Some e))"
proof -
  have c': "parseAt rt LPri (c # vs) = parseCaseExpr rt (parseExpression rt) (c # vs)" for vs
    using c by (simp add: pri_keyword is_tok_def keywordExpr_def whenMatch_eq ifMatch_eq)
  have opd: "ifMatch rt TokKeyword [''WHEN''] (returnS None) (bindS (parseExpression rt) (\<lambda>e. returnS (Some e))) (us @ ws @ rest)
      = (ws @ rest, Inr x)" for rest
    using us ws(2,3) by (simp add: operandTo_def)
  have w: "whenLoop rt (parseExpression rt) (ws @ rest) = (rest, Inr whens)" if "is_tok rt TokKeyword [''ELSE'', ''END''] (current rest)" for rest
    using ws(1) that by (simp add: whensTo_def)
  have n': "is_tok rt TokKeyword [''ELSE'', ''END''] n" "\<not> kw rt ''ELSE'' n" "\<not> contOr rt n"
    using n by (auto simp: is_tok_def cont_defs)
  show "parsesTo rt LPri (c # us @ ws @ [n]) (ExprCase x whens None)"
    by (rule parsesToI) (simp_all add: c' parseCaseExpr_def opd w n' n bindS_def advance_def whenMatch_eq expect_eq returnS_def)
  assume l: "kw rt ''ELSE'' l" and e: "parsesTo rt LOr ts e"
  have l': "is_tok rt TokKeyword [''ELSE'', ''END''] l" using l by (auto simp: is_tok_def)
  show "parsesTo rt LPri (c # us @ ws @ l # ts @ [n]) (ExprCase x whens (Some e))"
  proof (rule parsesToI, simp)
    fix rest
    have "parseExpression rt (ts @ n # rest) = (n # rest, Inr e)" by (intro expr_value e) (simp add: n')
    then show "parseAt rt LPri ((c # us @ ws @ l # ts @ [n]) @ rest) = (rest, Inr (ExprCase x whens (Some e)))"
      using l l' n by (simp add: c' parseCaseExpr_def opd w bindS_def advance_def whenMatch_eq expect_eq returnS_def)
  qed
qed

section \<open>The parser reads the grammar\<close>

lemma spellsWhens_first: "spellsWhens rt ts ws \<Longrightarrow> ts \<noteq> [] \<Longrightarrow> kw rt ''WHEN'' (hd ts)"
  by (cases rule: spellsWhens.cases) auto

lemma spellsArgs_first: "spellsArgs rt ts es \<Longrightarrow> ts \<noteq> [] \<and> tok_Type (hd ts) \<notin> {TokStar, TokRParen}"
  by (cases rule: spellsArgs.cases) (auto simp: is_tok_def starts_def dest: spells_first)

lemma spellsList_first: "spellsList rt ts es \<Longrightarrow> ts \<noteq> [] \<and> \<not> kw rt ''SELECT'' (hd ts)"
  by (cases rule: spellsList.cases) (auto simp: is_tok_def starts_def dest: spells_first)

lemma spells_parsesTo:
  "spells rt L ts e \<Longrightarrow> parsesTo rt L ts e"
  "spellsList rt ls es \<Longrightarrow> listTo rt ls es"
  "spellsArgs rt as es' \<Longrightarrow> argsTo rt as es'"
  "spellsWhens rt vs ws \<Longrightarrow> whensTo rt vs ws"
proof (induction rule: spells_spellsList_spellsArgs_spellsWhens.inducts)
  case (sp_or ts a t us b)
  then show ?case by (auto intro!: parsesTo_binary loop_steps simp: operators_stop)
next
  case (sp_and ts a t us b)
  then show ?case by (auto intro!: parsesTo_binary loop_steps simp: operators_stop)
next
  case (sp_add ts a t us b)
  then show ?case by (intro parsesTo_binary) (simp_all add: operators_stop loop_steps)
next
  case (sp_mul ts a t us b)
  then show ?case by (intro parsesTo_binary) (simp_all add: operators_stop loop_steps)
next
  case (sp_in ts a t l us es r)
  then show ?case using spellsList_first by (intro parsesTo_in) (auto simp: listTo_def)
next
  case (sp_call t l ts es r)
  then show ?case using spellsArgs_first by (intro parsesTo_call) (auto simp: argsTo_def)
next
  case (sp_case c ws whens n)
  then show ?case using parsesTo_case(1) [OF _ operandTo_none] spellsWhens_first by force
next
  case (sp_case_else c ws whens l ts e n)
  then show ?case using parsesTo_case(2) [OF _ operandTo_none] spellsWhens_first by force
next
  case (sp_case_of c us x ws whens n)
  then show ?case using spells_first spellsWhens_first by (intro parsesTo_case operandTo_some) auto
next
  case (sp_case_of_else c us x ws whens l ts e n)
  then show ?case using spells_first spellsWhens_first by (intro parsesTo_case operandTo_some) auto
next
  case (sw_more w ts a t us b vs ws)
  then show ?case using spellsWhens_first by (intro whensTo_more)
qed (simp_all add: parsesTo_up parsesTo_cmp_up parsesTo_not_up parsesTo_una_up parsesTo_not parsesTo_cmp parsesTo_like parsesTo_is parsesTo_is_not
    parsesTo_between parsesTo_una parsesTo_literals parsesTo_column parsesTo_qualified parsesTo_calls parsesTo_paren parsesTo_match spells_first
    listTo_one listTo_more argsTo_one argsTo_distinct argsTo_more whensTo_none)

text \<open>
  C13. The expression parser implements the grammar: a token list that spells a tree (with the precedence of \<^verbatim>\<open>OR\<close>, \<^verbatim>\<open>AND\<close>, \<^verbatim>\<open>NOT\<close>, the
  comparisons, the additive, multiplicative and unary operators, and with the binary operators grouped to the left) is read by
  \<^verbatim>\<open>parseExpression\<close> as exactly that tree, and the parser stops behind it, unless the next token continues the expression.
\<close>
theorem parser_implements_grammar:
  assumes "spells rt LOr ts e" "\<not> cont rt LOr (current rest)"
  shows "parseExpression rt (ts @ rest) = (rest, Inr e)"
  using spells_parsesTo(1) [OF assms(1)] assms(2) by (simp add: expr_value)

text \<open>The grammar is unambiguous.\<close>

corollary spells_unique: "spells rt LOr ts a \<Longrightarrow> spells rt LOr ts b \<Longrightarrow> a = b"
proof -
  assume ab: "spells rt LOr ts a" "spells rt LOr ts b"
  have "\<not> contOr rt (current [])" by (simp add: cont_defs is_tok_def current_def eofToken_def)
  then have "parseExpression rt (ts @ []) = ([], Inr a)" "parseExpression rt (ts @ []) = ([], Inr b)"
    using ab by (blast intro: expr_value spells_parsesTo(1))+
  then show "a = b" by simp
qed

definition sampleTokens :: "Token list" where
  "sampleTokens = map (\<lambda>(typ, v). mkTok 0 [] typ v)
     [(TokKeyword, ''NOT''), (TokIdent, ''a''), (TokOperator, ''-''), (TokIdent, ''b''), (TokOperator, ''-''), (TokIdent, ''c''), (TokOperator, ''=''),
      (TokString, ''x''), (TokKeyword, ''OR''), (TokIdent, ''d'')]"

definition sampleTree :: Expression where
  "sampleTree =
     ExprBinaryOp
       (ExprUnaryOp ''NOT'' (ExprBinaryOp
          (ExprBinaryOp (ExprBinaryOp (ExprColumn [] ''a'') ''-'' (ExprColumn [] ''b'')) ''-'' (ExprColumn [] ''c'')) ''='' (ExprLiteral (GString ''x''))))
       ''OR'' (ExprColumn [] ''d'')"

lemma spells_name: "tok_Type t = TokIdent \<Longrightarrow> spells rt LUna [t] (ExprColumn [] (tok_Value t))"
  by (intro sp_una_up sp_column) (simp add: is_name_def)

lemma sample_spells: "spells rt LOr sampleTokens sampleTree"
proof -
  let ?t = "\<lambda>typ v. mkTok 0 [] typ v"
  let ?op = "?t TokOperator ''-''"
  have n: "spells rt LUna [?t TokIdent v] (ExprColumn [] v)" for v using spells_name [of "?t TokIdent v" rt] by (simp add: mkTok_def)
  have op: "is_tok rt TokOperator addOps ?op" by (simp add: is_tok_def mkTok_def)
  have s: "spells rt LAdd ([?t TokIdent ''a''] @ ?op # [?t TokIdent ''b'']) (ExprBinaryOp (ExprColumn [] ''a'') ''-'' (ExprColumn [] ''b''))"
    using sp_add [OF sp_add_up [OF sp_mul_up [OF n]] op sp_mul_up [OF n]] by (simp add: mkTok_def)
  have s: "spells rt LAdd ([?t TokIdent ''a''] @ ?op # [?t TokIdent ''b''] @ ?op # [?t TokIdent ''c''])
      (ExprBinaryOp (ExprBinaryOp (ExprColumn [] ''a'') ''-'' (ExprColumn [] ''b'')) ''-'' (ExprColumn [] ''c''))"
    using sp_add [OF s op sp_mul_up [OF n]] by (simp add: mkTok_def)
  have x: "spells rt LAdd [?t TokString ''x''] (ExprLiteral (GString ''x''))"
    using sp_string [of "?t TokString ''x''" rt] by (intro sp_add_up sp_mul_up sp_una_up) (simp add: mkTok_def)
  have eq: "is_tok rt TokOperator cmpOps (?t TokOperator ''='')" and no: "kw rt ''NOT'' (?t TokKeyword ''NOT'')" and orr: "kw rt ''OR'' (?t TokKeyword ''OR'')"
    by (simp_all add: is_tok_def mkTok_def)
  have d: "spells rt LAnd [?t TokIdent ''d''] (ExprColumn [] ''d'')" by (intro sp_and_up sp_not_up sp_cmp_up sp_add_up sp_mul_up n)
  show ?thesis
    using sp_or [OF sp_or_up [OF sp_and_up [OF sp_not [OF no sp_cmp [OF s eq x]]]] orr d]
    by (simp add: sampleTokens_def sampleTree_def mkTok_def)
qed

theorem parser_implements_grammar_witness:
  "spells rt_plain LOr sampleTokens sampleTree \<and> parseExpression rt_plain (sampleTokens @ [eofToken]) = ([eofToken], Inr sampleTree)"
  using parser_implements_grammar [OF sample_spells, of rt_plain "[eofToken]"]
  by (simp add: sample_spells cont_defs is_tok_def current_def eofToken_def)

end
