(* ===== verification/Misread.thy ===== *)
theory Misread
  imports Grammar
begin

text \<open>
  What the parser makes of statements whose keywords the lexer does not know, and of text behind a statement: \<^verbatim>\<open>src/parser\<close> accepts
  both silently. Stated on texts of words separated by blanks.
\<close>

section \<open>Texts of words\<close>

definition wordToken :: "string \<Rightarrow> TokenType \<times> string" where
  "wordToken w = (if map upper_ascii w \<in> set sqlKeywords then (TokKeyword, map upper_ascii w) else (TokIdent, w))"

abbreviation plainToken :: "Token \<Rightarrow> TokenType \<times> string" where
  "plainToken t \<equiv> (tok_Type t, tok_Value t)"

lemma NextToken_blank: "NextToken N (CHR '' '' # s) = NextToken N s"
proof -
  have "skipWhitespace (CHR '' '' # s) = skipWhitespace s"
    unfolding skipWhitespace_def by (subst scanWhile.simps) (simp add: read_ascii chr_code_def IsSpace_def)
  then show ?thesis by (simp add: NextToken.simps [of N "CHR '' '' # s"] NextToken.simps [of N s])
qed

lemma tokenizeFrom_blank: "tokenizeFrom N (CHR '' '' # s) = tokenizeFrom N s"
  by (simp add: tokenizeFrom.simps [of N "CHR '' '' # s"] tokenizeFrom.simps [of N s] NextToken_blank)

lemma tokenizeFrom_end: "map plainToken (tokenizeFrom N []) = [(TokEOF, [])]"
  by (simp add: tokenizeFrom.simps [of N "[]"] NextToken.simps [of N "[]"] skipWhitespace_def scanWhile.simps [of _ "[]"] mkTok_def)

lemma tokenizeFrom_word:
  assumes "is_word w" "\<not> word_rune (peek rest)"
  shows "map plainToken (tokenizeFrom N (w @ rest)) = wordToken w # map plainToken (tokenizeFrom N rest)"
  using word_token [OF assms, of N] by (simp add: tokenizeFrom.simps [of N "w @ rest"] wordToken_def)

lemma tokenize_words:
  "list_all is_word ws \<Longrightarrow> map plainToken (tokenizeFrom N (joinText '' '' ws)) = map wordToken ws @ [(TokEOF, [])]"
proof (induction "'' ''" ws rule: joinText.induct)
  case 1
  then show ?case by (simp add: tokenizeFrom_end)
next
  case (2 w)
  then show ?case using tokenizeFrom_word [of w "[]" N] by (simp add: tokenizeFrom_end word_rune_def isLetter_def isDigit_def peek_def)
next
  case (3 w v ws)
  have "\<not> word_rune (peek (CHR '' '' # joinText '' '' (v # ws)))"
    by (simp add: read_ascii chr_code_def word_rune_def isLetter_def isDigit_def)
  with 3 tokenizeFrom_word [of w "CHR '' '' # joinText '' '' (v # ws)" N] show ?case by (simp add: tokenizeFrom_blank)
qed

section \<open>Statements that are read as something else\<close>

lemma upper_keywords [simp]:
  "ToUpper rt ''INSERT'' = ''INSERT''" "ToUpper rt ''UPDATE'' = ''UPDATE''" "ToUpper rt ''DELETE'' = ''DELETE''"
  "ToUpper rt ''CREATE'' = ''CREATE''" "ToUpper rt ''DROP'' = ''DROP''" "ToUpper rt ''ALTER'' = ''ALTER''"
  "ToUpper rt ''SET'' = ''SET''" "ToUpper rt ''SHOW'' = ''SHOW''" "ToUpper rt ''USE'' = ''USE''"
  "ToUpper rt ''DESCRIBE'' = ''DESCRIBE''" "ToUpper rt ''DESC'' = ''DESC''" "ToUpper rt ''BACKUP'' = ''BACKUP''"
  "ToUpper rt ''RESTORE'' = ''RESTORE''" "ToUpper rt ''BEGIN'' = ''BEGIN''" "ToUpper rt ''START'' = ''START''"
  "ToUpper rt ''COMMIT'' = ''COMMIT''" "ToUpper rt ''ROLLBACK'' = ''ROLLBACK''" "ToUpper rt ''TABLE'' = ''TABLE''"
  "ToUpper rt ''FROM'' = ''FROM''" "ToUpper rt ''WHERE'' = ''WHERE''" "ToUpper rt ''LIMIT'' = ''LIMIT''"
  "ToUpper rt ''ADD'' = ''ADD''" "ToUpper rt ''COLUMN'' = ''COLUMN''" "ToUpper rt ''MODIFY'' = ''MODIFY''"
  "ToUpper rt ''RENAME'' = ''RENAME''" "ToUpper rt ''TO'' = ''TO''"
  by (simp_all add: ToUpper_def is_ascii_def upper_ascii_def)

lemma known_words [simp]:
  "wordToken ''DELETE'' = (TokKeyword, ''DELETE'')" "wordToken ''FROM'' = (TokKeyword, ''FROM'')" "wordToken ''ALTER'' = (TokKeyword, ''ALTER'')"
  "wordToken ''TABLE'' = (TokKeyword, ''TABLE'')" "wordToken ''DROP'' = (TokKeyword, ''DROP'')" "wordToken ''BACKUP'' = (TokKeyword, ''BACKUP'')"
  "wordToken ''ADD'' = (TokIdent, ''ADD'')" "wordToken ''RENAME'' = (TokIdent, ''RENAME'')" "wordToken ''COLUMN'' = (TokIdent, ''COLUMN'')"
  "wordToken ''TO'' = (TokIdent, ''TO'')"
  by code_simp+

lemma known_is_word [simp]:
  "is_word ''DELETE''" "is_word ''FROM''" "is_word ''ALTER''" "is_word ''TABLE''" "is_word ''DROP''" "is_word ''BACKUP''" "is_word ''ADD''"
  "is_word ''RENAME''" "is_word ''COLUMN''" "is_word ''TO''"
  by (simp_all add: is_word_def word_rune_def isLetter_def isDigit_def chr_code_def)

text \<open>A word that the lexer takes for an identifier\<close>

definition is_ident :: "string \<Rightarrow> bool" where
  "is_ident w \<longleftrightarrow> is_word w \<and> map upper_ascii w \<notin> set sqlKeywords"

lemma is_identD: "is_ident w \<Longrightarrow> is_word w" "is_ident w \<Longrightarrow> wordToken w = (TokIdent, w)"
  by (simp_all add: is_ident_def wordToken_def)

lemma Parse_words:
  assumes "list_all is_word ws" "\<And>ts. map plainToken ts = map wordToken ws @ [(TokEOF, [])] \<Longrightarrow> snd (Parse rt ts) = r"
  shows "ParseString rt (joinText '' '' ws) = r"
  using assms tokenize_words [OF assms(1)] by (simp add: ParseString_def Tokenize_def)

lemma Parse_dispatch:
  assumes "plainToken t = (TokKeyword, k)"
  shows "k = ''DELETE'' \<Longrightarrow> Parse rt (t # ts) = parseDelete rt (t # ts)" "k = ''ALTER'' \<Longrightarrow> Parse rt (t # ts) = parseAlter rt (t # ts)"
    "k = ''BACKUP'' \<Longrightarrow> Parse rt (t # ts) = parseBackup rt (t # ts)"
  using assms by (simp_all add: Parse_def ifMatch_eq is_tok_def)

lemma bind_advance: "bindS advance k (t # ts) = k t ts"
  by (simp add: bindS_def advance_def)

lemma bind_expect: "ToUpper rt v = v \<Longrightarrow> plainToken t = (typ, v) \<Longrightarrow> bindS (expect rt typ v) k (t # ts) = k () ts"
  by (cases "v = []") (auto simp: bindS_def expect_def)

lemma bind_table:
  "plainToken t = (TokIdent, v) \<Longrightarrow> tok_Type (current ts) \<noteq> TokDot \<Longrightarrow> bindS (wantTable rt msg) k (t # ts) = k v ts"
  by (simp add: bindS_def wantTable_def parseTableName_def parseTableNameWithDB_def matchName_def ifMatch_eq whenMatch_eq is_tok_def returnS_def)

lemma bind_no_clause: "ToUpper rt v = v \<Longrightarrow> tok_Type (current ts) \<noteq> TokKeyword \<Longrightarrow> bindS (optClause rt v p) k ts = k None ts"
  by (simp add: bindS_def optClause_def whenMatch_eq is_tok_def returnS_def)

lemmas statement_eval = bind_advance bind_expect bind_table bind_no_clause Parse_dispatch

lemma delete_typo:
  assumes "is_ident t" "is_ident w" "list_all is_word ws"
  shows "ParseString rt (joinText '' '' (''DELETE'' # ''FROM'' # t # w # ws)) = Inr (StmtDelete t None None)"
proof (rule Parse_words)
  fix ts :: "Token list"
  assume "map plainToken ts = map wordToken (''DELETE'' # ''FROM'' # t # w # ws) @ [(TokEOF, [])]"
  then obtain a b c d us where "ts = a # b # c # d # us" "plainToken a = (TokKeyword, ''DELETE'')" "plainToken b = (TokKeyword, ''FROM'')"
    "plainToken c = (TokIdent, t)" "plainToken d = (TokIdent, w)"
    using assms by (auto simp: map_eq_Cons_conv is_identD)
  then show "snd (Parse rt ts) = Inr (StmtDelete t None None)"
    by (simp add: statement_eval parseDelete_def returnS_def)
qed (use assms in \<open>simp add: is_identD\<close>)

lemma alter_add:
  assumes "is_ident t" "list_all is_word ws"
  shows "ParseString rt (joinText '' '' (''ALTER'' # ''TABLE'' # t # ''ADD'' # ws)) = Inr (StmtAlterTable t [])"
proof (rule Parse_words)
  fix ts :: "Token list"
  assume "map plainToken ts = map wordToken (''ALTER'' # ''TABLE'' # t # ''ADD'' # ws) @ [(TokEOF, [])]"
  then obtain a b c d us where ts: "ts = a # b # c # d # us" "plainToken a = (TokKeyword, ''ALTER'')" "plainToken b = (TokKeyword, ''TABLE'')"
    "plainToken c = (TokIdent, t)" "plainToken d = (TokIdent, ''ADD'')"
    using assms by (auto simp: map_eq_Cons_conv is_identD)
  then have "alterLoop rt (d # us) = (d # us, Inr [])"
    by (simp add: alterLoop_def parseAction_def whenMatch_eq is_tok_def bindS_def returnS_def)
  with ts show "snd (Parse rt ts) = Inr (StmtAlterTable t [])"
    by (simp add: statement_eval parseAlter_def bindS_Inr [of "alterLoop rt"] returnS_def)
qed (use assms in \<open>simp add: is_identD\<close>)

lemma alter_drop:
  assumes "is_ident t" "list_all is_word ws"
  shows "ParseString rt (joinText '' '' (''ALTER'' # ''TABLE'' # t # ''DROP'' # ''COLUMN'' # ws)) =
    Inr (StmtAlterTable t [alterAction ''DROP'' ''COLUMN'' None []])"
proof (rule Parse_words)
  fix ts :: "Token list"
  assume "map plainToken ts = map wordToken (''ALTER'' # ''TABLE'' # t # ''DROP'' # ''COLUMN'' # ws) @ [(TokEOF, [])]"
  then obtain a b c d e us where ts: "ts = a # b # c # d # e # us" "plainToken a = (TokKeyword, ''ALTER'')" "plainToken b = (TokKeyword, ''TABLE'')"
    "plainToken c = (TokIdent, t)" "plainToken d = (TokKeyword, ''DROP'')" "plainToken e = (TokIdent, ''COLUMN'')"
    and us: "map plainToken us = map wordToken ws @ [(TokEOF, [])]"
    using assms by (auto simp: map_eq_Cons_conv is_identD)
  have "fst (wordToken w) \<noteq> TokComma" for w by (simp add: wordToken_def)
  then have "fst (hd (map wordToken ws @ [(TokEOF, [])])) \<noteq> TokComma" by (cases ws) auto
  moreover from us have "us \<noteq> []" by auto
  ultimately have "tok_Type (current us) \<noteq> TokComma" unfolding us [symmetric] by (simp add: current_def hd_map)
  with ts(5,6) have "alterLoop rt (d # e # us) = (us, Inr [alterAction ''DROP'' ''COLUMN'' None []])"
    by (simp add: alterLoop_def parseAction_def whenMatch_eq is_tok_def bindS_def returnS_def skipKeyword_def wantIdent_def)
  with ts show "snd (Parse rt ts) = Inr (StmtAlterTable t [alterAction ''DROP'' ''COLUMN'' None []])"
    by (simp add: statement_eval parseAlter_def bindS_Inr [of "alterLoop rt"] returnS_def)
qed (use assms in \<open>simp add: is_identD\<close>)

lemma backup_to:
  assumes "list_all is_word ws"
  shows "ParseString rt (joinText '' '' (''BACKUP'' # ''TO'' # ws)) = Inr (StmtBackup ''TO'')"
proof (rule Parse_words)
  fix ts :: "Token list"
  assume "map plainToken ts = map wordToken (''BACKUP'' # ''TO'' # ws) @ [(TokEOF, [])]"
  then obtain a b us where ts: "ts = a # b # us" "plainToken a = (TokKeyword, ''BACKUP'')" "plainToken b = (TokIdent, ''TO'')"
    by (auto simp: map_eq_Cons_conv)
  then show "snd (Parse rt ts) = Inr (StmtBackup ''TO'')"
    by (simp add: statement_eval parseBackup_def filePath_def skipKeyword_def wantIdent_def whenMatch_eq is_tok_def bindS_def returnS_def
        advance_def)
qed (use assms in simp)

text \<open>
  C38. The parser does not check that a statement ends where its parse ends, and asks for keywords that are missing from the lexer's table
  (\<^verbatim>\<open>ADD\<close>, \<^verbatim>\<open>COLUMN\<close>, \<^verbatim>\<open>TO\<close>, ...), which are read as identifiers. So, for any words \<open>ws\<close> behind it, a \<^verbatim>\<open>DELETE\<close> whose \<^verbatim>\<open>WHERE\<close> is misspelt
  deletes all rows; \<^verbatim>\<open>ALTER TABLE t ADD ...\<close> has no action; \<^verbatim>\<open>ALTER TABLE t DROP COLUMN c\<close> drops a column named \<^verbatim>\<open>COLUMN\<close>; and
  \<^verbatim>\<open>BACKUP TO f\<close> writes the backup to a file named \<^verbatim>\<open>TO\<close>.
\<close>
theorem unknown_keywords_misread:
  assumes "is_ident t" "is_ident w" "list_all is_word ws"
  shows "ParseString rt (joinText '' '' (''DELETE'' # ''FROM'' # t # w # ws)) = Inr (StmtDelete t None None) \<and>
    ParseString rt (joinText '' '' (''ALTER'' # ''TABLE'' # t # ''ADD'' # ws)) = Inr (StmtAlterTable t []) \<and>
    ParseString rt (joinText '' '' (''ALTER'' # ''TABLE'' # t # ''DROP'' # ''COLUMN'' # ws)) =
      Inr (StmtAlterTable t [alterAction ''DROP'' ''COLUMN'' None []]) \<and>
    ParseString rt (joinText '' '' (''BACKUP'' # ''TO'' # ws)) = Inr (StmtBackup ''TO'')"
  by (intro conjI delete_typo alter_add alter_drop backup_to assms)

lemma sample_idents: "is_ident ''users''" "is_ident ''wher''" "is_word ''id''"
  by code_simp+

theorem unknown_keywords_misread_witness:
  "is_ident ''users'' \<and> is_ident ''wher'' \<and> ParseString rt_plain ''DELETE FROM users wher id'' = Inr (StmtDelete ''users'' None None)"
  using unknown_keywords_misread [of "''users''" "''wher''" "[''id'']" rt_plain] sample_idents by simp

end
