(* ===== verification/FullText.thy ===== *)
theory FullText
  imports Values Utf8 "HOL-Library.Multiset"
begin

text \<open>
  \<^verbatim>\<open>src/fts/fts.go\<close>: tokenizers, the inverted index with its searches, and the manager of the indexes of a database. The segmenter
  of the Chinese tokenizer (third-party code), the multiplication and addition of floats, \<^verbatim>\<open>sort.Slice\<close>, and the JSON and gzip encoding of a saved
  index are the fields of \<open>fts_env\<close>. A \<^verbatim>\<open>map[string]bool\<close> that is used as a set is a list without repetitions.
\<close>

section \<open>Configuration and tokens\<close>

record FTSConfig =
  fc_Levels :: "int list"
  fc_MinTermLen :: int
  fc_MaxTermLen :: int
  fc_WeightL1 :: float64
  fc_WeightL2 :: float64
  fc_WeightL3 :: float64
  fc_StorePos :: bool
  fc_CustomDict :: "string list"
  fc_Synonyms :: "(string, string list) gomap"

abbreviation f64_1 :: float64 where "f64_1 \<equiv> 0x3FF0000000000000"
abbreviation f64_09 :: float64 where "f64_09 \<equiv> 0x3FECCCCCCCCCCCCD"
abbreviation f64_07 :: float64 where "f64_07 \<equiv> 0x3FE6666666666666"
abbreviation f64_03 :: float64 where "f64_03 \<equiv> 0x3FD3333333333333"

definition DefaultFTSConfig :: FTSConfig where
  "DefaultFTSConfig =
     \<lparr>fc_Levels = [1], fc_MinTermLen = 1, fc_MaxTermLen = 50, fc_WeightL1 = f64_1, fc_WeightL2 = f64_07, fc_WeightL3 = f64_03,
      fc_StorePos = False, fc_CustomDict = [], fc_Synonyms = []\<rparr>"

record TokenWithLevel =
  tw_Term :: string
  tw_Level :: int
  tw_Position :: int
  tw_Weight :: float64
  tw_SourceTerm :: string

record SearchResult =
  sr_RowID :: u64
  sr_Score :: float64

record TermPosition =
  tp_RowID :: u64
  tp_Position :: int
  tp_Level :: int
  tp_SourceTerm :: string

type_synonym highlightRange = "nat \<times> nat"

record InvertedIndexData =
  fd_index :: "(string, u64 list) gomap"
  fd_documents :: "(u64, string list) gomap"
  fd_contents :: "(u64, string) gomap"
  fd_docCount :: int
  fd_termCount :: int
  fd_termWeights :: "(string, float64) gomap"
  fd_termPositions :: "(string, TermPosition list) gomap"
  fd_config :: "FTSConfig option"

record fts_env =
  fe_cut :: "string \<Rightarrow> string list"
  fe_segErr :: bool
  fe_mul :: "float64 \<Rightarrow> float64 \<Rightarrow> float64"
  fe_add :: "float64 \<Rightarrow> float64 \<Rightarrow> float64"
  fe_sortResults :: "(SearchResult \<Rightarrow> SearchResult \<Rightarrow> bool) \<Rightarrow> SearchResult list \<Rightarrow> SearchResult list"
  fe_sortRanges :: "(highlightRange \<Rightarrow> highlightRange \<Rightarrow> bool) \<Rightarrow> highlightRange list \<Rightarrow> highlightRange list"
  fe_encode :: "InvertedIndexData \<Rightarrow> bytes option"
  fe_decode :: "bytes \<Rightarrow> InvertedIndexData option"

section \<open>Tokenizers\<close>

datatype Tokenizer = SimpleTokenizer | ChineseTokenizer

definition isLetterOrDigit :: "rune \<Rightarrow> bool" where
  "isLetterOrDigit r \<longleftrightarrow> (97 \<le> r \<and> r \<le> 122) \<or> (65 \<le> r \<and> r \<le> 90) \<or> (48 \<le> r \<and> r \<le> 57) \<or> 128 \<le> r"

text \<open>The loop over the runes; \<open>current\<close> is the token being built.\<close>

fun simpleLoop :: "string \<Rightarrow> rune list \<Rightarrow> string list" where
  "simpleLoop current [] = (if current \<noteq> [] then [current] else [])"
| "simpleLoop current (r # rs) =
     (if isLetterOrDigit r then simpleLoop (current @ encodeRune r) rs
      else if current \<noteq> [] then current # simpleLoop [] rs
      else simpleLoop [] rs)"

definition Simple_Tokenize :: "go_rt \<Rightarrow> string \<Rightarrow> string list" where
  "Simple_Tokenize rt text = simpleLoop [] (runesOf (ToLower rt text))"

definition cleanTokens :: "go_rt \<Rightarrow> string list \<Rightarrow> string list" where
  "cleanTokens rt tokens = filter (\<lambda>t. t \<noteq> []) (map (\<lambda>t. TrimSpace rt (ToLower rt t)) tokens)"

definition Chinese_Tokenize :: "go_rt \<Rightarrow> fts_env \<Rightarrow> string \<Rightarrow> string list" where
  "Chinese_Tokenize rt fe text = (if fe_segErr fe then Simple_Tokenize rt text else cleanTokens rt (fe_cut fe text))"

definition FTS_Tokenize :: "go_rt \<Rightarrow> fts_env \<Rightarrow> Tokenizer \<Rightarrow> string \<Rightarrow> string list" where
  "FTS_Tokenize rt fe tok text =
     (case tok of SimpleTokenizer \<Rightarrow> Simple_Tokenize rt text | ChineseTokenizer \<Rightarrow> Chinese_Tokenize rt fe text)"

definition hasLevel :: "FTSConfig option \<Rightarrow> int \<Rightarrow> bool" where
  "hasLevel config level =
     (case config of
        None \<Rightarrow> level = 1
      | Some c \<Rightarrow> if fc_Levels c = [] then level = 1 else level \<in> set (fc_Levels c))"

text \<open>\<^verbatim>\<open>splitTerm\<close> on the runes of the term\<close>

fun pairRunes :: "rune list \<Rightarrow> rune list list" where
  "pairRunes [] = []"
| "pairRunes [a] = [[a]]"
| "pairRunes (a # b # rs) = [a, b] # pairRunes rs"

fun splitRunes :: "rune list \<Rightarrow> rune list list" where
  "splitRunes rs =
     (if length rs < 2 then []
      else if length rs = 4 then [take 2 rs, drop 2 rs]
      else if 4 < length rs then take 2 rs # splitRunes (drop 2 rs)
      else if length rs = 3 then [take 2 rs, drop 2 rs]
      else pairRunes rs)"

declare splitRunes.simps [simp del]

definition splitTerm :: "string \<Rightarrow> string list" where
  "splitTerm term = map textOf (splitRunes (runesOf term))"

fun containsText :: "string \<Rightarrow> string \<Rightarrow> bool" where
  "containsText s sub \<longleftrightarrow> take (length sub) s = sub \<or> (case s of [] \<Rightarrow> False | _ # t \<Rightarrow> containsText t sub)"

declare containsText.simps [simp del]

definition addCustomTerms :: "go_rt \<Rightarrow> FTSConfig \<Rightarrow> string \<Rightarrow> string list \<Rightarrow> string list" where
  "addCustomTerms rt config text cleaned =
     foldl (\<lambda>ts customTerm.
         let c = ToLower rt customTerm
         in if containsText (ToLower rt text) c \<and> c \<notin> set ts then ts @ [c] else ts) cleaned (fc_CustomDict config)"

definition orDefault :: "float64 \<Rightarrow> float64 \<Rightarrow> float64" where
  "orDefault w d = (if f64_eq w 0 then d else w)"

definition tokenLevels :: "go_rt \<Rightarrow> fts_env \<Rightarrow> FTSConfig \<Rightarrow> bool \<Rightarrow> int \<Rightarrow> string \<Rightarrow> TokenWithLevel list" where
  "tokenLevels rt fe config forIndex pos token =
     (let runes = runesOf token;
          w1 = orDefault (fc_WeightL1 config) f64_1;
          w2 = orDefault (fc_WeightL2 config) f64_07;
          w3 = orDefault (fc_WeightL3 config) f64_03;
          syns = (case map_of (fc_Synonyms config) token of Some ss \<Rightarrow> ss | None \<Rightarrow> []);
          mk = (\<lambda>term level p w. \<lparr>tw_Term = term, tw_Level = level, tw_Position = p, tw_Weight = w, tw_SourceTerm = token\<rparr>)
      in (if hasLevel (Some config) 1
          then mk token 1 pos w1 # (if forIndex then map (\<lambda>syn. mk (ToLower rt syn) 1 pos (fe_mul fe w1 f64_09)) syns else [])
          else [])
         @ (if hasLevel (Some config) 2 \<and> 2 \<le> length runes
            then map (\<lambda>sub. mk sub 2 pos w2) (filter (\<lambda>sub. fc_MinTermLen config \<le> int (RuneCountInString sub)) (splitTerm token))
            else [])
         @ (if hasLevel (Some config) 3 \<and> 2 \<le> length runes
            then map (\<lambda>(i, r). mk (encodeRune r) 3 (pos + int i) w3) (enumerate 0 runes)
            else []))"

definition TokenizeWithLevelsForIndex :: "go_rt \<Rightarrow> fts_env \<Rightarrow> string \<Rightarrow> FTSConfig \<Rightarrow> bool \<Rightarrow> TokenWithLevel list" where
  "TokenizeWithLevelsForIndex rt fe text config forIndex =
     (if fe_segErr fe then []
      else let cleaned = addCustomTerms rt config text (cleanTokens rt (fe_cut fe text))
           in concat (map (\<lambda>(pos, token). tokenLevels rt fe config forIndex (int pos) token) (enumerate 0 cleaned)))"

definition TokenizeWithLevels :: "go_rt \<Rightarrow> fts_env \<Rightarrow> string \<Rightarrow> FTSConfig \<Rightarrow> TokenWithLevel list" where
  "TokenizeWithLevels rt fe text config = TokenizeWithLevelsForIndex rt fe text config False"

section \<open>The inverted index\<close>

record InvertedIndex =
  ix_tokenizer :: Tokenizer
  ix_config :: FTSConfig
  ix_index :: "(string, u64 list) gomap"
  ix_termWeights :: "(string, float64) gomap"
  ix_termPositions :: "(string, TermPosition list) gomap"
  ix_documents :: "(u64, string list) gomap"
  ix_contents :: "(u64, string) gomap"
  ix_docCount :: int
  ix_termCount :: int

definition NewInvertedIndexWithConfig :: "Tokenizer option \<Rightarrow> FTSConfig option \<Rightarrow> InvertedIndex" where
  "NewInvertedIndexWithConfig tokenizer config =
     \<lparr>ix_tokenizer = (case tokenizer of Some t \<Rightarrow> t | None \<Rightarrow> ChineseTokenizer),
      ix_config = (case config of Some c \<Rightarrow> c | None \<Rightarrow> DefaultFTSConfig),
      ix_index = [], ix_termWeights = [], ix_termPositions = [], ix_documents = [], ix_contents = [], ix_docCount = 0, ix_termCount = 0\<rparr>"

definition NewInvertedIndex :: "Tokenizer option \<Rightarrow> InvertedIndex" where
  "NewInvertedIndex tokenizer = NewInvertedIndexWithConfig tokenizer None"

definition SetConfig :: "FTSConfig \<Rightarrow> InvertedIndex \<Rightarrow> InvertedIndex" where
  "SetConfig config x = x\<lparr>ix_config := config\<rparr>"

definition GetConfig :: "InvertedIndex \<Rightarrow> FTSConfig" where
  "GetConfig x = ix_config x"

definition containsRowID :: "u64 list \<Rightarrow> u64 \<Rightarrow> bool" where
  "containsRowID postings rowID \<longleftrightarrow> rowID \<in> set postings"

definition removeRowID :: "u64 list \<Rightarrow> u64 \<Rightarrow> u64 list" where
  "removeRowID postings rowID = remove1 rowID postings"

definition getList :: "'k \<Rightarrow> ('k, 'v list) gomap \<Rightarrow> 'v list" where
  "getList k m = (case map_of m k of Some vs \<Rightarrow> vs | None \<Rightarrow> [])"

definition removeTerm :: "u64 \<Rightarrow> string \<Rightarrow> InvertedIndex \<Rightarrow> InvertedIndex" where
  "removeTerm rowID term x =
     (let postings = removeRowID (getList term (ix_index x)) rowID;
          x = x\<lparr>ix_index := (if postings = [] then del_key term (ix_index x) else put_key term postings (ix_index x))\<rparr>
      in case map_of (ix_termPositions x) term of
           None \<Rightarrow> x
         | Some positions \<Rightarrow>
             let newPositions = filter (\<lambda>pos. tp_RowID pos \<noteq> rowID) positions
             in x\<lparr>ix_termPositions :=
                   (if newPositions = [] then del_key term (ix_termPositions x) else put_key term newPositions (ix_termPositions x))\<rparr>)"

definition removeDocumentLocked :: "u64 \<Rightarrow> InvertedIndex \<Rightarrow> InvertedIndex" where
  "removeDocumentLocked rowID x =
     (case map_of (ix_documents x) rowID of
        None \<Rightarrow> x
      | Some termSet \<Rightarrow>
          let x = fold (removeTerm rowID) termSet x
          in x\<lparr>ix_documents := del_key rowID (ix_documents x), ix_contents := del_key rowID (ix_contents x),
               ix_docCount := ix_docCount x - 1, ix_termCount := int (length (ix_index x))\<rparr>)"

definition DeleteDocument :: "u64 \<Rightarrow> InvertedIndex \<Rightarrow> InvertedIndex" where
  "DeleteDocument rowID x = removeDocumentLocked rowID x"

text \<open>The tokens of a text as the index uses them: with levels when the tokenizer has them and more than one is configured\<close>

definition multiLevel :: "InvertedIndex \<Rightarrow> bool" where
  "multiLevel x \<longleftrightarrow> ix_tokenizer x = ChineseTokenizer \<and> 1 < length (fc_Levels (ix_config x))"

definition indexTokens :: "go_rt \<Rightarrow> fts_env \<Rightarrow> InvertedIndex \<Rightarrow> string \<Rightarrow> TokenWithLevel list" where
  "indexTokens rt fe x content =
     (if multiLevel x then TokenizeWithLevelsForIndex rt fe content (ix_config x) True
      else map (\<lambda>(pos, token). \<lparr>tw_Term = token, tw_Level = 1, tw_Position = int pos, tw_Weight = orDefault (fc_WeightL1 (ix_config x)) f64_1,
                                 tw_SourceTerm = token\<rparr>)
             (enumerate 0 (FTS_Tokenize rt fe (ix_tokenizer x) content)))"

text \<open>One token of the loops: its weight (the maximum with levels, overwritten without) and its position\<close>

definition noteToken :: "u64 \<Rightarrow> TokenWithLevel \<Rightarrow> InvertedIndex \<Rightarrow> InvertedIndex" where
  "noteToken rowID tw x =
     (let t = tw_Term tw;
          x = (if multiLevel x \<and> (case map_of (ix_termWeights x) t of Some existing \<Rightarrow> \<not> f64_less existing (tw_Weight tw) | None \<Rightarrow> False)
               then x else x\<lparr>ix_termWeights := put_key t (tw_Weight tw) (ix_termWeights x)\<rparr>)
      in if fc_StorePos (ix_config x)
         then x\<lparr>ix_termPositions := put_key t (getList t (ix_termPositions x)
                  @ [\<lparr>tp_RowID = rowID, tp_Position = tw_Position tw, tp_Level = tw_Level tw, tp_SourceTerm = tw_SourceTerm tw\<rparr>])
                  (ix_termPositions x)\<rparr>
         else x)"

definition addPosting :: "u64 \<Rightarrow> string \<Rightarrow> InvertedIndex \<Rightarrow> InvertedIndex" where
  "addPosting rowID term x =
     (let postings = getList term (ix_index x)
      in if containsRowID postings rowID then x else x\<lparr>ix_index := put_key term (postings @ [rowID]) (ix_index x)\<rparr>)"

definition IndexDocument :: "go_rt \<Rightarrow> fts_env \<Rightarrow> u64 \<Rightarrow> string \<Rightarrow> InvertedIndex \<Rightarrow> InvertedIndex" where
  "IndexDocument rt fe rowID content x =
     (let x = (if has_key rowID (ix_documents x) then removeDocumentLocked rowID x else x);
          tokens = indexTokens rt fe x content
      in if tokens = [] then x
         else
           let x = fold (noteToken rowID) tokens x;
               termSet = remdups (map tw_Term tokens);
               x = fold (addPosting rowID) termSet x
           in x\<lparr>ix_documents := put_key rowID termSet (ix_documents x), ix_contents := put_key rowID content (ix_contents x),
                ix_docCount := ix_docCount x + 1, ix_termCount := int (length (ix_index x))\<rparr>)"

definition UpdateDocument :: "go_rt \<Rightarrow> fts_env \<Rightarrow> u64 \<Rightarrow> string \<Rightarrow> InvertedIndex \<Rightarrow> InvertedIndex" where
  "UpdateDocument rt fe rowID content x = IndexDocument rt fe rowID content x"

section \<open>Searching\<close>

text \<open>The terms of a query and the weights of the terms; without levels there are no weights.\<close>

definition maxWeights :: "TokenWithLevel list \<Rightarrow> (string, float64) gomap" where
  "maxWeights tokens =
     fold (\<lambda>tw m. case map_of m (tw_Term tw) of
                     Some existing \<Rightarrow> if f64_less existing (tw_Weight tw) then put_key (tw_Term tw) (tw_Weight tw) m else m
                   | None \<Rightarrow> put_key (tw_Term tw) (tw_Weight tw) m) tokens []"

definition queryTokens :: "go_rt \<Rightarrow> fts_env \<Rightarrow> InvertedIndex \<Rightarrow> string \<Rightarrow> string list \<times> (string, float64) gomap option" where
  "queryTokens rt fe x query =
     (if multiLevel x
      then let tokens = TokenizeWithLevelsForIndex rt fe query (ix_config x) False in (map tw_Term tokens, Some (maxWeights tokens))
      else (FTS_Tokenize rt fe (ix_tokenizer x) query, None))"

text \<open>
  The loop that intersects the rows of the terms, for a function that gives the rows of a term (\<^verbatim>\<open>None\<close> when the search ends without a
  result); the result has the order in which the rows are visited.
\<close>

fun candidateLoop :: "(string \<Rightarrow> u64 list option) \<Rightarrow> string list \<Rightarrow> u64 list option \<Rightarrow> u64 list option" where
  "candidateLoop rowsOf [] cand = cand"
| "candidateLoop rowsOf (t # ts) cand =
     (case rowsOf t of
        None \<Rightarrow> None
      | Some termRows \<Rightarrow>
          let cand' = (case cand of None \<Rightarrow> remdups termRows | Some c \<Rightarrow> filter (\<lambda>r. r \<in> set termRows) c)
          in if cand' = [] then None else candidateLoop rowsOf ts (Some cand'))"

definition calculateScoreWithLevels :: "go_rt \<Rightarrow> fts_env \<Rightarrow> InvertedIndex \<Rightarrow> u64 \<Rightarrow> string list \<Rightarrow> (string, float64) gomap option \<Rightarrow> float64" where
  "calculateScoreWithLevels rt fe x rowID queryTerms queryWeights =
     (case map_of (ix_documents x) rowID of
        None \<Rightarrow> 0
      | Some termSet \<Rightarrow>
          let docLen = length termSet; totalDocs = (if ix_docCount x = 0 then 1 else ix_docCount x)
          in foldl (\<lambda>score term.
               if term \<notin> set termSet then score
               else
                 let termWeight = (case map_of (ix_termWeights x) term of Some w \<Rightarrow> orDefault w f64_1 | None \<Rightarrow> f64_1);
                     queryWeight = (case queryWeights of
                                      None \<Rightarrow> f64_1
                                    | Some qw \<Rightarrow> (case map_of qw term of Some w \<Rightarrow> w | None \<Rightarrow> f64_1));
                     tf = (if 0 < docLen then rt_fdiv rt f64_1 (nat_to_f64 docLen) else f64_1);
                     df = length (getList term (ix_index x));
                     idf = (if 0 < df then rt_fdiv rt (i64_to_f64 (of_int totalDocs)) (nat_to_f64 df) else f64_1)
                 in fe_add fe score (fe_mul fe (fe_mul fe (fe_mul fe tf idf) termWeight) queryWeight)) 0 queryTerms)"

text \<open>\<^verbatim>\<open>None\<close> is the panic of \<^verbatim>\<open>results[offset:end]\<close> with a negative offset, or with an end that is before the offset.\<close>

definition pageOf :: "int \<Rightarrow> int \<Rightarrow> 'a list \<Rightarrow> 'a list option" where
  "pageOf limit offset results =
     (if int (length results) \<le> offset then Some []
      else let e = sint (of_int (offset + limit) :: u64); end' = (if int (length results) < e then int (length results) else e)
           in if offset < 0 \<or> end' < offset then None else Some (slice (nat offset) (nat end') results))"

definition rankedPage ::
  "go_rt \<Rightarrow> fts_env \<Rightarrow> InvertedIndex \<Rightarrow> int \<Rightarrow> int \<Rightarrow> string list \<Rightarrow> (string, float64) gomap option \<Rightarrow> u64 list \<Rightarrow> SearchResult list option"
where
  "rankedPage rt fe x limit offset queryTerms queryWeights rows =
     (let results = map (\<lambda>r. \<lparr>sr_RowID = r, sr_Score = calculateScoreWithLevels rt fe x r queryTerms queryWeights\<rparr>) rows
      in pageOf limit offset (fe_sortResults fe (\<lambda>a b. f64_less (sr_Score b) (sr_Score a)) results))"

definition orTen :: "int \<Rightarrow> int" where
  "orTen limit = (if limit \<le> 0 then 10 else limit)"

definition FTS_Search :: "go_rt \<Rightarrow> fts_env \<Rightarrow> InvertedIndex \<Rightarrow> string \<Rightarrow> int \<Rightarrow> int \<Rightarrow> SearchResult list option" where
  "FTS_Search rt fe x query limit offset =
     (let limit = orTen limit; (queryTerms, queryWeights) = queryTokens rt fe x query
      in if queryTerms = [] then Some []
         else case candidateLoop (map_of (ix_index x)) queryTerms None of
                None \<Rightarrow> Some []
              | Some rows \<Rightarrow> rankedPage rt fe x limit offset queryTerms queryWeights rows)"

text \<open>The terms of a query at one level, and the rows that have a term at that level\<close>

definition levelTerms :: "go_rt \<Rightarrow> fts_env \<Rightarrow> InvertedIndex \<Rightarrow> int \<Rightarrow> string \<Rightarrow> string list" where
  "levelTerms rt fe x level query =
     (if ix_tokenizer x = ChineseTokenizer
      then map tw_Term (filter (\<lambda>tw. tw_Level tw = level) (TokenizeWithLevelsForIndex rt fe query (ix_config x) False))
      else if level = 1 then FTS_Tokenize rt fe (ix_tokenizer x) query else [])"

definition levelRows :: "InvertedIndex \<Rightarrow> int \<Rightarrow> string \<Rightarrow> u64 list option" where
  "levelRows x level term =
     (case map_of (ix_termPositions x) term of
        None \<Rightarrow> map_of (ix_index x) term
      | Some positions \<Rightarrow>
          let rows = map tp_RowID (filter (\<lambda>pos. tp_Level pos = level) positions) in if rows = [] then None else Some rows)"

definition SearchWithLevel :: "go_rt \<Rightarrow> fts_env \<Rightarrow> InvertedIndex \<Rightarrow> string \<Rightarrow> int \<Rightarrow> int \<Rightarrow> int \<Rightarrow> SearchResult list option" where
  "SearchWithLevel rt fe x query level limit offset =
     (if level = 0 then FTS_Search rt fe x query limit offset
      else
        let limit = orTen limit; queryTerms = levelTerms rt fe x level query
        in if queryTerms = [] then Some []
           else case candidateLoop (levelRows x level) queryTerms None of
                  None \<Rightarrow> Some []
                | Some rows \<Rightarrow>
                    let queryWeights = fold (\<lambda>t m. put_key t (case map_of (ix_termWeights x) t of Some w \<Rightarrow> w | None \<Rightarrow> 0) m) queryTerms []
                    in rankedPage rt fe x limit offset queryTerms (Some queryWeights) rows)"

record IndexStats =
  is_DocumentCount :: int
  is_TermCount :: int

definition FTS_Stats :: "InvertedIndex \<Rightarrow> IndexStats" where
  "FTS_Stats x = \<lparr>is_DocumentCount = ix_docCount x, is_TermCount = ix_termCount x\<rparr>"

definition GetTermPositions :: "string \<Rightarrow> u64 \<Rightarrow> InvertedIndex \<Rightarrow> TermPosition list" where
  "GetTermPositions term rowID x = filter (\<lambda>pos. tp_RowID pos = rowID) (getList term (ix_termPositions x))"

section \<open>Highlighting\<close>

text \<open>\<^verbatim>\<open>strings.Index\<close>, and the loop over the occurrences of a non-empty term\<close>

fun indexText :: "string \<Rightarrow> string \<Rightarrow> nat option" where
  "indexText s sub =
     (if take (length sub) s = sub then Some 0 else case s of [] \<Rightarrow> None | _ # t \<Rightarrow> map_option Suc (indexText t sub))"

declare indexText.simps [simp del]

lemma indexText_bound: "indexText s sub = Some i \<Longrightarrow> i + length sub \<le> length s \<and> take (length sub) (drop i s) = sub"
proof (induction s arbitrary: i)
  case Nil
  then show ?case by (auto simp: indexText.simps [of "[]"] split: if_splits)
next
  case (Cons c s)
  show ?case
  proof (cases "take (length sub) (c # s) = sub")
    case True
    then have "length sub \<le> length (c # s)" by (metis length_take min.cobounded1)
    then show ?thesis using True Cons.prems by (simp add: indexText.simps [of "c # s"])
  next
    case False
    with Cons show ?thesis by (auto simp: indexText.simps [of "c # s"])
  qed
qed

text \<open>
  The loop over the occurrences advances by the length of the term, which need not be that of its lower-case form: a start beyond the end is
  the panic of \<^verbatim>\<open>lowerContent[searchStart:]\<close>, and for an empty term the loop never ends; both are the value \<^verbatim>\<open>None\<close>.
\<close>

function occurrences :: "string \<Rightarrow> string \<Rightarrow> nat \<Rightarrow> nat \<Rightarrow> highlightRange list option" where
  "occurrences content lowerTerm len searchStart =
     (if length content < searchStart then None
      else case indexText (drop searchStart content) lowerTerm of
             None \<Rightarrow> Some []
           | Some i \<Rightarrow>
               if len = 0 then None
               else map_option (\<lambda>rs. (searchStart + i, searchStart + i + len) # rs) (occurrences content lowerTerm len (searchStart + i + len)))"
  by pat_completeness auto
termination
  by (relation "measure (\<lambda>(c, t, l, s). Suc (length c) - s)") auto

declare occurrences.simps [simp del]

fun concatAll :: "'a list option list \<Rightarrow> 'a list option" where
  "concatAll [] = Some []"
| "concatAll (None # xs) = None"
| "concatAll (Some ys # xs) = map_option (\<lambda>zs. ys @ zs) (concatAll xs)"

definition rangesOf :: "go_rt \<Rightarrow> InvertedIndex \<Rightarrow> u64 \<Rightarrow> string \<Rightarrow> string list \<Rightarrow> highlightRange list option" where
  "rangesOf rt x rowID content terms =
     concatAll (concat (map (\<lambda>t. map (\<lambda>_. occurrences (ToLower rt content) (ToLower rt t) (length t) 0) (GetTermPositions t rowID x)) terms))"

text \<open>Merging of ranges that overlap or touch; the first argument is the range that was merged last.\<close>

fun mergeInto :: "highlightRange \<Rightarrow> highlightRange list \<Rightarrow> highlightRange list" where
  "mergeInto l [] = [l]"
| "mergeInto l (r # rs) =
     (if fst r \<le> snd l then mergeInto (fst l, max (snd l) (snd r)) rs else l # mergeInto r rs)"

fun mergeRanges :: "highlightRange list \<Rightarrow> highlightRange list" where
  "mergeRanges [] = []"
| "mergeRanges (r # rs) = mergeInto r rs"

text \<open>\<^verbatim>\<open>None\<close> when a slice of the content is out of range.\<close>

fun buildHighlight :: "string \<Rightarrow> string \<Rightarrow> string \<Rightarrow> nat \<Rightarrow> highlightRange list \<Rightarrow> string option" where
  "buildHighlight content pre suf lastEnd [] = (if lastEnd \<le> length content then Some (drop lastEnd content) else None)"
| "buildHighlight content pre suf lastEnd ((a, b) # rs) =
     (if lastEnd \<le> a \<and> a \<le> b \<and> b \<le> length content
      then map_option (\<lambda>t. slice lastEnd a content @ pre @ slice a b content @ suf @ t) (buildHighlight content pre suf b rs)
      else None)"

definition highlightText :: "fts_env \<Rightarrow> string \<Rightarrow> string \<Rightarrow> string \<Rightarrow> highlightRange list \<Rightarrow> string option" where
  "highlightText fe content pre suf ranges =
     (if ranges = [] then Some content
      else buildHighlight content pre suf 0 (mergeRanges (fe_sortRanges fe (\<lambda>a b. fst a < fst b) ranges)))"

definition Highlight :: "go_rt \<Rightarrow> fts_env \<Rightarrow> InvertedIndex \<Rightarrow> u64 \<Rightarrow> string \<Rightarrow> string \<Rightarrow> string \<Rightarrow> string option" where
  "Highlight rt fe x rowID query pre suf =
     (case map_of (ix_contents x) rowID of
        None \<Rightarrow> Some []
      | Some content \<Rightarrow>
          let queryTerms = fst (queryTokens rt fe x query)
          in if queryTerms = [] then Some content
             else case rangesOf rt x rowID content queryTerms of
                    None \<Rightarrow> None
                  | Some ranges \<Rightarrow> highlightText fe content pre suf ranges)"

section \<open>Saving and loading\<close>

definition SaveToFile :: "fts_env \<Rightarrow> InvertedIndex \<Rightarrow> bytes option" where
  "SaveToFile fe x =
     fe_encode fe \<lparr>fd_index = ix_index x, fd_documents = ix_documents x, fd_contents = ix_contents x, fd_docCount = ix_docCount x,
                   fd_termCount = ix_termCount x, fd_termWeights = ix_termWeights x, fd_termPositions = ix_termPositions x,
                   fd_config = Some (ix_config x)\<rparr>"

definition LoadFromFile :: "fts_env \<Rightarrow> bytes \<Rightarrow> InvertedIndex \<Rightarrow> InvertedIndex option" where
  "LoadFromFile fe file x =
     map_option (\<lambda>d. x\<lparr>ix_index := fd_index d, ix_contents := fd_contents d, ix_docCount := fd_docCount d, ix_termCount := fd_termCount d,
                       ix_termWeights := fd_termWeights d, ix_termPositions := fd_termPositions d, ix_config := (case fd_config d of Some c \<Rightarrow> c | None \<Rightarrow> ix_config x),
                       ix_documents := map (\<lambda>(r, ts). (r, remdups ts)) (fd_documents d)\<rparr>) (fe_decode fe file)"

section \<open>The manager\<close>

record Manager =
  mg_indexes :: "(string, InvertedIndex) gomap"
  mg_configs :: "(string, FTSConfig option) gomap"

datatype fts_error = DuplicateIndex string | IndexNotFound string | FTSPanic

definition NewManager :: Manager where
  "NewManager = \<lparr>mg_indexes = [], mg_configs = []\<rparr>"

definition ftsKey :: "string \<Rightarrow> string \<Rightarrow> string" where
  "ftsKey tableName columnName = tableName @ CHR ''.'' # columnName"

definition CreateIndexWithConfig ::
  "string \<Rightarrow> string \<Rightarrow> InvertedIndex option \<Rightarrow> FTSConfig option \<Rightarrow> Manager \<Rightarrow> fts_error + Manager" where
  "CreateIndexWithConfig tableName columnName indexer config m =
     (let key = ftsKey tableName columnName
      in if has_key key (mg_indexes m) then Inl (DuplicateIndex key)
         else
           let x = (case indexer of
                      None \<Rightarrow> NewInvertedIndexWithConfig None config
                    | Some x \<Rightarrow> (case config of Some c \<Rightarrow> SetConfig c x | None \<Rightarrow> x))
           in Inr (m\<lparr>mg_indexes := put_key key x (mg_indexes m), mg_configs := put_key key config (mg_configs m)\<rparr>))"

definition CreateIndex :: "string \<Rightarrow> string \<Rightarrow> InvertedIndex option \<Rightarrow> Manager \<Rightarrow> fts_error + Manager" where
  "CreateIndex tableName columnName indexer m = CreateIndexWithConfig tableName columnName indexer None m"

definition GetIndexConfig :: "string \<Rightarrow> string \<Rightarrow> Manager \<Rightarrow> FTSConfig option" where
  "GetIndexConfig tableName columnName m = (case map_of (mg_configs m) (ftsKey tableName columnName) of Some c \<Rightarrow> c | None \<Rightarrow> None)"

definition DropIndex :: "string \<Rightarrow> string \<Rightarrow> Manager \<Rightarrow> fts_error + Manager" where
  "DropIndex tableName columnName m =
     (let key = ftsKey tableName columnName
      in if has_key key (mg_indexes m) then Inr (m\<lparr>mg_indexes := del_key key (mg_indexes m)\<rparr>) else Inl (IndexNotFound key))"

text \<open>The key under which an index is found: the exact key, or else the first one that is equal up to case\<close>

definition findKey :: "go_rt \<Rightarrow> string \<Rightarrow> string \<Rightarrow> Manager \<Rightarrow> string option" where
  "findKey rt tableName columnName m =
     (let key = ftsKey tableName columnName
      in if has_key key (mg_indexes m) then Some key
         else find (\<lambda>k. ToLower rt k = ToLower rt key) (keys_of (mg_indexes m)))"

definition GetIndex :: "go_rt \<Rightarrow> string \<Rightarrow> string \<Rightarrow> Manager \<Rightarrow> InvertedIndex option" where
  "GetIndex rt tableName columnName m = Option.bind (findKey rt tableName columnName m) (map_of (mg_indexes m))"

definition HasIndex :: "go_rt \<Rightarrow> string \<Rightarrow> string \<Rightarrow> Manager \<Rightarrow> bool" where
  "HasIndex rt tableName columnName m \<longleftrightarrow> findKey rt tableName columnName m \<noteq> None"

definition onIndex :: "string \<Rightarrow> (InvertedIndex \<Rightarrow> InvertedIndex) \<Rightarrow> Manager \<Rightarrow> Manager" where
  "onIndex key f m = (case map_of (mg_indexes m) key of Some x \<Rightarrow> m\<lparr>mg_indexes := put_key key (f x) (mg_indexes m)\<rparr> | None \<Rightarrow> m)"

definition Manager_IndexDocument :: "go_rt \<Rightarrow> fts_env \<Rightarrow> string \<Rightarrow> string \<Rightarrow> u64 \<Rightarrow> string \<Rightarrow> Manager \<Rightarrow> Manager" where
  "Manager_IndexDocument rt fe tableName columnName rowID content m =
     (case findKey rt tableName columnName m of None \<Rightarrow> m | Some key \<Rightarrow> onIndex key (IndexDocument rt fe rowID content) m)"

definition Manager_DeleteDocument :: "string \<Rightarrow> string \<Rightarrow> u64 \<Rightarrow> Manager \<Rightarrow> Manager" where
  "Manager_DeleteDocument tableName columnName rowID m = onIndex (ftsKey tableName columnName) (DeleteDocument rowID) m"

definition panicOr :: "'a option \<Rightarrow> fts_error + 'a" where
  "panicOr r = (case r of Some v \<Rightarrow> Inr v | None \<Rightarrow> Inl FTSPanic)"

definition Manager_Search :: "go_rt \<Rightarrow> fts_env \<Rightarrow> string \<Rightarrow> string \<Rightarrow> string \<Rightarrow> int \<Rightarrow> int \<Rightarrow> Manager \<Rightarrow> fts_error + SearchResult list" where
  "Manager_Search rt fe tableName columnName query limit offset m =
     (case GetIndex rt tableName columnName m of
        None \<Rightarrow> Inl (IndexNotFound (ftsKey tableName columnName))
      | Some x \<Rightarrow> panicOr (FTS_Search rt fe x query limit offset))"

definition Manager_SearchWithLevel ::
  "go_rt \<Rightarrow> fts_env \<Rightarrow> string \<Rightarrow> string \<Rightarrow> string \<Rightarrow> int \<Rightarrow> int \<Rightarrow> int \<Rightarrow> Manager \<Rightarrow> fts_error + SearchResult list"
where
  "Manager_SearchWithLevel rt fe tableName columnName query level limit offset m =
     (case GetIndex rt tableName columnName m of
        None \<Rightarrow> Inl (IndexNotFound (ftsKey tableName columnName))
      | Some x \<Rightarrow> panicOr (SearchWithLevel rt fe x query level limit offset))"

definition Manager_Highlight ::
  "go_rt \<Rightarrow> fts_env \<Rightarrow> string \<Rightarrow> string \<Rightarrow> u64 \<Rightarrow> string \<Rightarrow> string \<Rightarrow> string \<Rightarrow> Manager \<Rightarrow> fts_error + string"
where
  "Manager_Highlight rt fe tableName columnName rowID query pre suf m =
     (case GetIndex rt tableName columnName m of None \<Rightarrow> Inr [] | Some x \<Rightarrow> panicOr (Highlight rt fe x rowID query pre suf))"

definition Manager_Close :: "Manager \<Rightarrow> Manager" where
  "Manager_Close m = m\<lparr>mg_indexes := []\<rparr>"

definition ListIndexes :: "Manager \<Rightarrow> string list" where
  "ListIndexes m = keys_of (mg_indexes m)"

section \<open>The invariant of the index\<close>

definition rowsWith :: "(u64, string list) gomap \<Rightarrow> string \<Rightarrow> u64 set" where
  "rowsWith docs t = {r. \<exists>ts. map_of docs r = Some ts \<and> t \<in> set ts}"

definition termsOf :: "go_rt \<Rightarrow> fts_env \<Rightarrow> InvertedIndex \<Rightarrow> string \<Rightarrow> string list" where
  "termsOf rt fe x content = remdups (map tw_Term (indexTokens rt fe x content))"

definition index_ok :: "(string, u64 list) gomap \<Rightarrow> bool" where
  "index_ok m \<longleftrightarrow> distinct (keys_of m) \<and> (\<forall>t. map_of m t \<noteq> Some [] \<and> distinct (getList t m))"

definition fts_inv :: "go_rt \<Rightarrow> fts_env \<Rightarrow> InvertedIndex \<Rightarrow> bool" where
  "fts_inv rt fe x \<longleftrightarrow>
     index_ok (ix_index x) \<and> distinct (keys_of (ix_documents x)) \<and> distinct (keys_of (ix_contents x)) \<and>
     (\<forall>t. set (getList t (ix_index x)) = rowsWith (ix_documents x) t) \<and>
     (\<forall>r. map_of (ix_documents x) r = map_option (termsOf rt fe x) (map_of (ix_contents x) r)) \<and>
     ix_docCount x = int (length (ix_documents x)) \<and> ix_termCount x = int (length (ix_index x))"

text \<open>What the operations on the postings leave alone\<close>

definition same_frame :: "InvertedIndex \<Rightarrow> InvertedIndex \<Rightarrow> bool" where
  "same_frame x y \<longleftrightarrow>
     ix_tokenizer y = ix_tokenizer x \<and> ix_config y = ix_config x \<and> ix_documents y = ix_documents x \<and> ix_contents y = ix_contents x \<and>
     ix_docCount y = ix_docCount x"

lemma same_frame_refl [simp]: "same_frame x x"
  by (simp add: same_frame_def)

lemma same_frame_trans: "same_frame x y \<Longrightarrow> same_frame y z \<Longrightarrow> same_frame x z"
  by (simp add: same_frame_def)

lemma same_frame_fold: "(\<And>a x. same_frame x (f a x)) \<Longrightarrow> same_frame x (fold f as x)"
  by (induction "as" arbitrary: x) (auto intro: same_frame_trans)

lemma getList_simps [simp]:
  "getList t (put_key k v m) = (if t = k then v else getList t m)"
  "getList t (del_key k m) = (if t = k then [] else getList t m)"
  by (auto simp: getList_def gomap)

lemma index_ok_put: "index_ok m \<Longrightarrow> v \<noteq> [] \<Longrightarrow> distinct v \<Longrightarrow> index_ok (put_key t v m)"
  by (simp add: index_ok_def gomap)

lemma index_ok_del: "index_ok m \<Longrightarrow> index_ok (del_key t m)"
  by (auto simp: index_ok_def gomap distinct_removeAll)

lemma removeTerm_index:
  "index_ok (ix_index x) \<Longrightarrow> index_ok (ix_index (removeTerm r t x)) \<and>
     getList t' (ix_index (removeTerm r t x)) = (if t' = t then remove1 r (getList t (ix_index x)) else getList t' (ix_index x))"
  by (auto simp: removeTerm_def Let_def removeRowID_def index_ok_put index_ok_del index_ok_def [of "ix_index x"] split: option.split)

lemma removeTerm_frame: "same_frame x (removeTerm r t x)"
  by (simp add: removeTerm_def Let_def same_frame_def split: option.split)

lemma fold_removeTerm:
  "index_ok (ix_index x) \<Longrightarrow> distinct ts \<Longrightarrow> index_ok (ix_index (fold (removeTerm r) ts x)) \<and>
     (\<forall>t. getList t (ix_index (fold (removeTerm r) ts x)) =
        (if t \<in> set ts then remove1 r (getList t (ix_index x)) else getList t (ix_index x)))"
proof (induction ts arbitrary: x)
  case (Cons a ts)
  then show ?case using removeTerm_index [of x r a] Cons.IH [of "removeTerm r a x"] by auto
qed simp

lemma addPosting_index:
  "index_ok (ix_index x) \<Longrightarrow> index_ok (ix_index (addPosting r t x)) \<and>
     getList t' (ix_index (addPosting r t x)) =
       (if t' = t \<and> r \<notin> set (getList t (ix_index x)) then getList t (ix_index x) @ [r] else getList t' (ix_index x))"
  by (auto simp: addPosting_def Let_def containsRowID_def index_ok_put index_ok_def [of "ix_index x"])

lemma addPosting_frame: "same_frame x (addPosting r t x)"
  by (simp add: addPosting_def Let_def same_frame_def)

lemma fold_addPosting:
  "index_ok (ix_index x) \<Longrightarrow> distinct ts \<Longrightarrow> index_ok (ix_index (fold (addPosting r) ts x)) \<and>
     (\<forall>t. set (getList t (ix_index (fold (addPosting r) ts x))) =
        (if t \<in> set ts then insert r (set (getList t (ix_index x))) else set (getList t (ix_index x))))"
proof (induction ts arbitrary: x)
  case (Cons a ts)
  then show ?case using addPosting_index [of x r a] Cons.IH [of "addPosting r a x"] by auto
qed simp

lemma noteToken_frame: "same_frame x (noteToken r tw x) \<and> ix_index (noteToken r tw x) = ix_index x"
  by (simp add: noteToken_def Let_def same_frame_def)

lemma fold_noteToken: "same_frame x (fold (noteToken r) tws x) \<and> ix_index (fold (noteToken r) tws x) = ix_index x"
proof
  show "same_frame x (fold (noteToken r) tws x)" by (rule same_frame_fold) (simp add: noteToken_frame)
  show "ix_index (fold (noteToken r) tws x) = ix_index x" by (induction tws arbitrary: x) (simp_all add: noteToken_frame)
qed

lemma termsOf_frame: "same_frame x y \<Longrightarrow> termsOf rt fe y = termsOf rt fe x \<and> indexTokens rt fe y = indexTokens rt fe x"
  by (auto simp: fun_eq_iff termsOf_def indexTokens_def multiLevel_def same_frame_def)

lemma termsOf_config:
  "ix_tokenizer y = ix_tokenizer x \<Longrightarrow> ix_config y = ix_config x \<Longrightarrow> termsOf rt fe y = termsOf rt fe x"
  by (auto simp: fun_eq_iff termsOf_def indexTokens_def multiLevel_def)

lemma removeDocument_inv:
  assumes "fts_inv rt fe x"
  shows "fts_inv rt fe (removeDocumentLocked r x) \<and> map_of (ix_contents (removeDocumentLocked r x)) = (map_of (ix_contents x))(r := None) \<and>
    ix_tokenizer (removeDocumentLocked r x) = ix_tokenizer x \<and> ix_config (removeDocumentLocked r x) = ix_config x"
proof (cases "map_of (ix_documents x) r")
  case None
  then have "map_of (ix_contents x) r = None" using assms by (simp add: fts_inv_def)
  with None assms show ?thesis by (auto simp: removeDocumentLocked_def)
next
  case (Some ts)
  define y where "y = fold (removeTerm r) ts x"
  have frame: "same_frame x y" unfolding y_def by (rule same_frame_fold) (rule removeTerm_frame)
  have ts: "distinct ts" using Some assms by (auto simp: fts_inv_def termsOf_def)
  have ok: "index_ok (ix_index x)" and rows: "\<And>t. set (getList t (ix_index x)) = rowsWith (ix_documents x) t"
    using assms by (auto simp: fts_inv_def)
  note y = fold_removeTerm [OF ok ts, of r, folded y_def]
  let ?x = "removeDocumentLocked r x"
  have x': "?x = y\<lparr>ix_documents := del_key r (ix_documents y), ix_contents := del_key r (ix_contents y),
      ix_docCount := ix_docCount y - 1, ix_termCount := int (length (ix_index y))\<rparr>"
    using Some by (simp add: removeDocumentLocked_def Let_def y_def)
  have docs: "rowsWith (del_key r (ix_documents x)) t = rowsWith (ix_documents x) t - {r}" for t
    by (auto simp: rowsWith_def gomap)
  have "set (getList t (ix_index y)) = rowsWith (ix_documents x) t - {r}" for t
  proof (cases "t \<in> set ts")
    case True
    then show ?thesis using y rows [of t] ok by (auto simp: index_ok_def set_remove1_eq)
  next
    case False
    then have "r \<notin> rowsWith (ix_documents x) t" using Some by (auto simp: rowsWith_def)
    with False y rows [of t] show ?thesis by auto
  qed
  note rows_y = this
  have len: "length (ix_documents x) = Suc (length (del_key r (ix_documents x)))"
    using assms map_of_key [OF Some] length_pos_if_in_set [of r "keys_of (ix_documents x)"] by (simp add: fts_inv_def length_del_key)
  have terms: "termsOf rt fe ?x = termsOf rt fe x" using frame by (intro termsOf_config) (simp_all add: x' same_frame_def)
  have x: "distinct (keys_of (ix_documents x))" "distinct (keys_of (ix_contents x))" "ix_docCount x = int (length (ix_documents x))"
    and co: "\<And>r. map_of (ix_documents x) r = map_option (termsOf rt fe x) (map_of (ix_contents x) r)"
    using assms by (simp_all add: fts_inv_def)
  have f: "ix_documents y = ix_documents x" "ix_contents y = ix_contents x" "ix_docCount y = ix_docCount x"
    "ix_tokenizer y = ix_tokenizer x" "ix_config y = ix_config x"
    using frame by (simp_all add: same_frame_def)
  have "fts_inv rt fe ?x"
    unfolding fts_inv_def terms
    using y rows_y len x co by (simp add: x' f docs) (simp add: gomap distinct_removeAll)
  then show ?thesis by (simp add: x' f gomap)
qed

lemma IndexDocument_inv:
  assumes "fts_inv rt fe x"
  shows "fts_inv rt fe (IndexDocument rt fe r c x) \<and>
    map_of (ix_contents (IndexDocument rt fe r c x)) = (map_of (ix_contents x))(r := (if termsOf rt fe x c = [] then None else Some c)) \<and>
    ix_tokenizer (IndexDocument rt fe r c x) = ix_tokenizer x \<and> ix_config (IndexDocument rt fe r c x) = ix_config x"
proof -
  define x1 where "x1 = (if has_key r (ix_documents x) then removeDocumentLocked r x else x)"
  have fresh: "map_of (ix_contents x) r = None" if "\<not> has_key r (ix_documents x)" using that assms by (simp add: fts_inv_def has_key_def)
  have x1: "fts_inv rt fe x1" "map_of (ix_contents x1) = (map_of (ix_contents x))(r := None)"
    "ix_tokenizer x1 = ix_tokenizer x" "ix_config x1 = ix_config x"
    using removeDocument_inv [OF assms, of r] assms fresh by (auto simp: x1_def fun_eq_iff)
  have terms: "termsOf rt fe x1 = termsOf rt fe x" using x1(3,4) by (intro termsOf_config)
  show ?thesis
  proof (cases "indexTokens rt fe x1 c = []")
    case True
    then have "termsOf rt fe x1 c = []" by (simp add: termsOf_def)
    then have "termsOf rt fe x c = []" by (simp only: terms)
    with True x1 show ?thesis by (simp add: IndexDocument_def Let_def x1_def [symmetric])
  next
    case False
    define ts where "ts = termsOf rt fe x1 c"
    define y where "y = fold (addPosting r) ts (fold (noteToken r) (indexTokens rt fe x1 c) x1)"
    have ts: "distinct ts" "ts \<noteq> []" using False by (simp_all add: ts_def termsOf_def)
    have ok: "index_ok (ix_index (fold (noteToken r) (indexTokens rt fe x1 c) x1))"
      using x1(1) by (simp add: fold_noteToken fts_inv_def)
    note y = fold_addPosting [OF ok ts(1), of r, folded y_def, unfolded fold_noteToken [THEN conjunct2]]
    have frame: "same_frame x1 y"
      unfolding y_def by (rule same_frame_trans [OF fold_noteToken [THEN conjunct1]]) (rule same_frame_fold, rule addPosting_frame)
    let ?x = "IndexDocument rt fe r c x"
    have x': "?x = y\<lparr>ix_documents := put_key r ts (ix_documents y), ix_contents := put_key r c (ix_contents y),
        ix_docCount := ix_docCount y + 1, ix_termCount := int (length (ix_index y))\<rparr>"
      using False by (simp add: IndexDocument_def Let_def x1_def [symmetric] y_def ts_def termsOf_def)
    have none: "map_of (ix_documents x1) r = None" using x1 by (simp add: fts_inv_def)
    then have "r \<notin> set (keys_of (ix_documents x1))" by (metis has_key_iff has_key_def)
    then have len: "length (put_key r ts (ix_documents x1)) = Suc (length (ix_documents x1))" by (simp add: length_put_key)
    have docs: "rowsWith (put_key r ts (ix_documents x1)) t = (if t \<in> set ts then insert r (rowsWith (ix_documents x1) t) else rowsWith (ix_documents x1) t)" for t
      using none by (auto simp: rowsWith_def gomap)
    have terms': "termsOf rt fe ?x = termsOf rt fe x1" using frame by (intro termsOf_config) (simp_all add: x' same_frame_def)
    have f: "ix_documents y = ix_documents x1" "ix_contents y = ix_contents x1" "ix_docCount y = ix_docCount x1"
      "ix_tokenizer y = ix_tokenizer x1" "ix_config y = ix_config x1"
      using frame by (simp_all add: same_frame_def)
    have x: "distinct (keys_of (ix_documents x1))" "distinct (keys_of (ix_contents x1))" "ix_docCount x1 = int (length (ix_documents x1))"
      and co: "\<And>r. map_of (ix_documents x1) r = map_option (termsOf rt fe x1) (map_of (ix_contents x1) r)"
      and rows: "\<And>t. set (getList t (ix_index x1)) = rowsWith (ix_documents x1) t"
      using x1(1) by (simp_all add: fts_inv_def)
    have "fts_inv rt fe ?x"
      unfolding fts_inv_def terms' using y rows len x co by (simp add: x' f docs) (simp add: gomap ts_def)
    then show ?thesis using x1 ts(2) by (simp add: x' f gomap ts_def terms)
  qed
qed

lemma New_inv: "fts_inv rt fe (NewInvertedIndexWithConfig tok cfg)"
  by (simp add: NewInvertedIndexWithConfig_def fts_inv_def index_ok_def getList_def rowsWith_def)

section \<open>Documents by number\<close>

text \<open>
  The contract of an index of documents: adding a document under a number replaces what was there, and documents that have nothing to index are
  not kept.
\<close>

datatype fts_op = OpIndex u64 string | OpUpdate u64 string | OpDelete u64

fun fts_spec :: "(string \<Rightarrow> bool) \<Rightarrow> fts_op \<Rightarrow> (u64 \<rightharpoonup> string) \<Rightarrow> (u64 \<rightharpoonup> string)" where
  "fts_spec indexed (OpIndex r c) m = m(r := (if indexed c then Some c else None))"
| "fts_spec indexed (OpUpdate r c) m = m(r := (if indexed c then Some c else None))"
| "fts_spec indexed (OpDelete r) m = m(r := None)"

fun fts_exec :: "go_rt \<Rightarrow> fts_env \<Rightarrow> fts_op \<Rightarrow> InvertedIndex \<Rightarrow> InvertedIndex" where
  "fts_exec rt fe (OpIndex r c) x = IndexDocument rt fe r c x"
| "fts_exec rt fe (OpUpdate r c) x = UpdateDocument rt fe r c x"
| "fts_exec rt fe (OpDelete r) x = DeleteDocument r x"

locale document_index =
  fixes empty :: 's and exec :: "fts_op \<Rightarrow> 's \<Rightarrow> 's" and docs :: "'s \<Rightarrow> u64 \<rightharpoonup> string" and invar :: "'s \<Rightarrow> bool"
    and indexed :: "string \<Rightarrow> bool"
  assumes empty: "invar empty" "docs empty = Map.empty"
    and exec: "invar s \<Longrightarrow> invar (exec op s)" "invar s \<Longrightarrow> docs (exec op s) = fts_spec indexed op (docs s)"
begin

lemma run_invar: "invar s \<Longrightarrow> invar (fold exec ops s)"
  by (induction ops arbitrary: s) (simp_all add: exec)

lemma run_docs: "invar s \<Longrightarrow> docs (fold exec ops s) = fold (fts_spec indexed) ops (docs s)"
  by (induction ops arbitrary: s) (simp_all add: exec)

lemma run: "invar (fold exec ops empty)" "docs (fold exec ops empty) = fold (fts_spec indexed) ops Map.empty"
  using run_invar run_docs empty by simp_all

end

text \<open>The terms of a text under a tokenizer and a configuration\<close>

definition textTerms :: "go_rt \<Rightarrow> fts_env \<Rightarrow> Tokenizer \<Rightarrow> FTSConfig \<Rightarrow> string \<Rightarrow> string list" where
  "textTerms rt fe tok cfg = termsOf rt fe (NewInvertedIndexWithConfig (Some tok) (Some cfg))"

definition ix_invar :: "go_rt \<Rightarrow> fts_env \<Rightarrow> Tokenizer \<Rightarrow> FTSConfig \<Rightarrow> InvertedIndex \<Rightarrow> bool" where
  "ix_invar rt fe tok cfg x \<longleftrightarrow> fts_inv rt fe x \<and> ix_tokenizer x = tok \<and> ix_config x = cfg"

lemma ix_invar_terms: "ix_invar rt fe tok cfg x \<Longrightarrow> termsOf rt fe x = textTerms rt fe tok cfg"
  unfolding textTerms_def ix_invar_def by (intro termsOf_config) (simp_all add: NewInvertedIndexWithConfig_def)

interpretation inverted_index: document_index "NewInvertedIndexWithConfig (Some tok) (Some cfg)" "fts_exec rt fe" "\<lambda>x. map_of (ix_contents x)"
  "ix_invar rt fe tok cfg" "\<lambda>c. textTerms rt fe tok cfg c \<noteq> []" for rt fe tok cfg
proof
  show "ix_invar rt fe tok cfg (NewInvertedIndexWithConfig (Some tok) (Some cfg))"
    by (simp add: ix_invar_def New_inv) (simp add: NewInvertedIndexWithConfig_def)
  show "map_of (ix_contents (NewInvertedIndexWithConfig (Some tok) (Some cfg))) = Map.empty"
    by (simp add: NewInvertedIndexWithConfig_def)
next
  fix x op assume x: "ix_invar rt fe tok cfg x"
  then have inv: "fts_inv rt fe x" by (simp add: ix_invar_def)
  show "ix_invar rt fe tok cfg (fts_exec rt fe op x)"
    using x IndexDocument_inv [OF inv] removeDocument_inv [OF inv] by (cases op) (simp_all add: ix_invar_def UpdateDocument_def DeleteDocument_def)
  show "map_of (ix_contents (fts_exec rt fe op x)) = fts_spec (\<lambda>c. textTerms rt fe tok cfg c \<noteq> []) op (map_of (ix_contents x))"
    using IndexDocument_inv [OF inv] removeDocument_inv [OF inv] ix_invar_terms [OF x]
    by (cases op) (simp_all add: UpdateDocument_def DeleteDocument_def)
qed

section \<open>What a search finds\<close>

definition rowSet :: "(string \<Rightarrow> u64 list option) \<Rightarrow> string \<Rightarrow> u64 set" where
  "rowSet rowsOf t = (case rowsOf t of None \<Rightarrow> {} | Some ps \<Rightarrow> set ps)"

lemma candidate_Some:
  "distinct c \<Longrightarrow> (case candidateLoop rowsOf ts (Some c) of
     None \<Rightarrow> set c \<inter> (\<Inter>t\<in>set ts. rowSet rowsOf t) = {}
   | Some rs \<Rightarrow> distinct rs \<and> set rs = set c \<inter> (\<Inter>t\<in>set ts. rowSet rowsOf t))"
proof (induction ts arbitrary: c)
  case (Cons t ts)
  show ?case
  proof (cases "rowsOf t")
    case (Some ps)
    let ?c = "filter (\<lambda>r. r \<in> set ps) c"
    have c: "set ?c = set c \<inter> rowSet rowsOf t" using Some by (auto simp: rowSet_def)
    show ?thesis
    proof (cases "?c = []")
      case True
      then show ?thesis using Some c by auto
    next
      case False
      with Cons.IH [of ?c] Cons.prems Some c show ?thesis by (auto simp: Let_def split: option.splits)
    qed
  qed (simp add: rowSet_def)
qed simp

lemma candidate_rows:
  assumes "ts \<noteq> []"
  shows "case candidateLoop rowsOf ts None of
     None \<Rightarrow> (\<Inter>t\<in>set ts. rowSet rowsOf t) = {}
   | Some rs \<Rightarrow> distinct rs \<and> set rs = (\<Inter>t\<in>set ts. rowSet rowsOf t)"
proof -
  obtain t ts' where ts: "ts = t # ts'" using assms by (cases ts) auto
  show ?thesis
  proof (cases "rowsOf t")
    case (Some ps)
    then show ?thesis using candidate_Some [of "remdups ps" rowsOf ts'] by (auto simp: ts rowSet_def Let_def split: option.splits)
  qed (simp add: ts rowSet_def)
qed

text \<open>The contract of \<^verbatim>\<open>sort.Slice\<close>: a permutation, sorted when the comparison is a strict weak order on the elements\<close>

definition strict_weak_order :: "('a \<Rightarrow> 'a \<Rightarrow> bool) \<Rightarrow> 'a set \<Rightarrow> bool" where
  "strict_weak_order lt A \<longleftrightarrow>
     (\<forall>a\<in>A. \<forall>b\<in>A. lt a b \<longrightarrow> \<not> lt b a) \<and> (\<forall>a\<in>A. \<forall>b\<in>A. \<forall>c\<in>A. lt a c \<longrightarrow> lt a b \<or> lt b c)"

definition sort_spec :: "(('a \<Rightarrow> 'a \<Rightarrow> bool) \<Rightarrow> 'a list \<Rightarrow> 'a list) \<Rightarrow> bool" where
  "sort_spec srt \<longleftrightarrow>
     (\<forall>lt xs. mset (srt lt xs) = mset xs \<and> (strict_weak_order lt (set xs) \<longrightarrow> sorted_wrt (\<lambda>a b. \<not> lt b a) (srt lt xs)))"

lemma f64_order: "strict_weak_order (\<lambda>a b. f64_less (f b) (f a)) {a. \<not> f64_nan (f a)}"
  by (auto simp: strict_weak_order_def f64_less_def)

lemma swo_subset: "strict_weak_order lt B \<Longrightarrow> A \<subseteq> B \<Longrightarrow> strict_weak_order lt A"
  unfolding strict_weak_order_def by blast

lemma pageOf_slice:
  assumes "0 \<le> offset" "0 < limit" "offset + limit < 2 ^ 63"
  shows "pageOf limit offset xs = Some (take (nat limit) (drop (nat offset) xs))"
proof -
  have "sint (of_int (offset + limit) :: u64) = offset + limit"
    using assms by (simp add: signed_of_int signed_take_bit_int_eq_self del: of_int_add)
  then show ?thesis
    using assms by (auto simp: pageOf_def Let_def slice_def nat_add_distrib simp del: of_int_add)
qed

lemma search_rows:
  assumes x: "ix_invar rt fe tok cfg x" and ts: "ts \<noteq> []"
  shows "(\<Inter>t\<in>set ts. rowSet (map_of (ix_index x)) t) = {r. \<exists>c. map_of (ix_contents x) r = Some c \<and> set ts \<subseteq> set (textTerms rt fe tok cfg c)}"
proof -
  have "rowSet (map_of (ix_index x)) t = {r. \<exists>c. map_of (ix_contents x) r = Some c \<and> t \<in> set (textTerms rt fe tok cfg c)}" for t
  proof -
    have "rowSet (map_of (ix_index x)) t = set (getList t (ix_index x))" by (simp add: rowSet_def getList_def split: option.split)
    also have "\<dots> = rowsWith (ix_documents x) t" using x by (simp add: ix_invar_def fts_inv_def)
    also have "\<dots> = {r. \<exists>c. map_of (ix_contents x) r = Some c \<and> t \<in> set (textTerms rt fe tok cfg c)}"
      using x ix_invar_terms [OF x] by (auto simp: rowsWith_def ix_invar_def fts_inv_def)
    finally show ?thesis .
  qed
  then show ?thesis using ts by (auto simp: subset_iff neq_Nil_conv) 
qed

definition queryTerms :: "go_rt \<Rightarrow> fts_env \<Rightarrow> Tokenizer \<Rightarrow> FTSConfig \<Rightarrow> string \<Rightarrow> string list" where
  "queryTerms rt fe tok cfg query = fst (queryTokens rt fe (NewInvertedIndexWithConfig (Some tok) (Some cfg)) query)"

lemma queryTokens_config:
  "ix_tokenizer y = ix_tokenizer x \<Longrightarrow> ix_config y = ix_config x \<Longrightarrow> queryTokens rt fe y = queryTokens rt fe x"
  by (auto simp: fun_eq_iff queryTokens_def multiLevel_def)

text \<open>The ranking of a search\<close>

definition ranking :: "(u64 \<Rightarrow> float64) \<Rightarrow> u64 set \<Rightarrow> SearchResult list \<Rightarrow> bool" where
  "ranking score rows rs \<longleftrightarrow>
     distinct (map sr_RowID rs) \<and> set (map sr_RowID rs) = rows \<and> list_all (\<lambda>r. sr_Score r = score (sr_RowID r)) rs \<and>
     ((\<forall>r\<in>rows. \<not> f64_nan (score r)) \<longrightarrow> sorted_wrt (\<lambda>a b. \<not> f64_less (sr_Score a) (sr_Score b)) rs)"

lemma rankedPage_ranking:
  assumes "sort_spec (fe_sortResults fe)" "distinct rows" "0 \<le> offset" "0 < limit" "offset + limit < 2 ^ 63"
  shows "\<exists>rs. ranking (\<lambda>r. calculateScoreWithLevels rt fe x r ts qw) (set rows) rs \<and>
    rankedPage rt fe x limit offset ts qw rows = Some (take (nat limit) (drop (nat offset) rs))"
proof -
  let ?score = "\<lambda>r. calculateScoreWithLevels rt fe x r ts qw"
  let ?res = "map (\<lambda>r. \<lparr>sr_RowID = r, sr_Score = ?score r\<rparr>) rows"
  let ?lt = "\<lambda>a b. f64_less (sr_Score b) (sr_Score a)"
  define rs where "rs = fe_sortResults fe ?lt ?res"
  have m: "mset rs = mset ?res" and sorted: "strict_weak_order ?lt (set ?res) \<Longrightarrow> sorted_wrt (\<lambda>a b. \<not> ?lt b a) rs"
    using assms(1) unfolding rs_def sort_spec_def by blast+
  have set: "set rs = set ?res" using m by (metis mset_eq_setD)
  have ids: "mset (map sr_RowID rs) = mset rows" using arg_cong [OF m, of "image_mset sr_RowID"] by (simp add: image_mset.compositionality comp_def)
  have "distinct (map sr_RowID rs)" using ids assms(2) by (metis mset_eq_imp_distinct_iff)
  moreover have "set (map sr_RowID rs) = set rows" using ids by (metis mset_eq_setD)
  moreover have "list_all (\<lambda>r. sr_Score r = ?score (sr_RowID r)) rs" using set by (auto simp: list_all_iff)
  moreover have "sorted_wrt (\<lambda>a b. \<not> f64_less (sr_Score a) (sr_Score b)) rs" if "\<forall>r\<in>set rows. \<not> f64_nan (?score r)"
  proof -
    have "set ?res \<subseteq> {a. \<not> f64_nan (sr_Score a)}" using that by auto
    then show ?thesis using sorted swo_subset [OF f64_order [of sr_Score]] by blast
  qed
  ultimately have "ranking ?score (set rows) rs" by (simp add: ranking_def)
  moreover have "rankedPage rt fe x limit offset ts qw rows = Some (take (nat limit) (drop (nat offset) rs))"
    using pageOf_slice [OF assms(3-5)] by (simp add: rankedPage_def rs_def)
  ultimately show ?thesis by blast
qed

text \<open>
  C28. A search finds exactly the documents with all terms of the query: after any sequence of indexing, updating and deleting documents, the result is
  a page of one ranking of the rows whose current content (the last one indexed under that number) contains every term of the query,
  each row once, with the scores the code computes, in decreasing order. The search does not panic for a page within the range of \<^verbatim>\<open>int\<close>.
\<close>
theorem search_finds_exactly:
  assumes "sort_spec (fe_sortResults fe)" "0 \<le> offset" "offset + orTen limit < 2 ^ 63"
    and "queryTerms rt fe tok cfg query \<noteq> []"
    and x_def: "x = fold (fts_exec rt fe) ops (NewInvertedIndexWithConfig (Some tok) (Some cfg))"
    and docs_def: "docs = fold (fts_spec (\<lambda>c. textTerms rt fe tok cfg c \<noteq> [])) ops Map.empty"
  shows "\<exists>rs qw. ranking (\<lambda>r. calculateScoreWithLevels rt fe x r (queryTerms rt fe tok cfg query) qw)
      {r. \<exists>c. docs r = Some c \<and> set (queryTerms rt fe tok cfg query) \<subseteq> set (textTerms rt fe tok cfg c)} rs \<and>
    FTS_Search rt fe x query limit offset = Some (take (nat (orTen limit)) (drop (nat offset) rs))"
proof -
  let ?q = "queryTerms rt fe tok cfg query"
  have inv: "ix_invar rt fe tok cfg x" and d: "map_of (ix_contents x) = docs"
    unfolding x_def docs_def by (rule inverted_index.run)+
  have "queryTokens rt fe x = queryTokens rt fe (NewInvertedIndexWithConfig (Some tok) (Some cfg))"
    using inv by (intro queryTokens_config) (simp_all add: ix_invar_def NewInvertedIndexWithConfig_def)
  then obtain qw where q: "queryTokens rt fe x query = (?q, qw)" by (metis prod.collapse queryTerms_def)
  have lim: "0 < orTen limit" by (simp add: orTen_def)
  note rows = candidate_rows [OF assms(4), of "map_of (ix_index x)", unfolded search_rows [OF inv assms(4)] d]
  show ?thesis
  proof (cases "candidateLoop (map_of (ix_index x)) ?q None")
    case None
    then have "ranking (\<lambda>r. calculateScoreWithLevels rt fe x r ?q qw) {r. \<exists>c. docs r = Some c \<and> set ?q \<subseteq> set (textTerms rt fe tok cfg c)} []"
      using rows by (simp add: ranking_def)
    moreover have "FTS_Search rt fe x query limit offset = Some (take (nat (orTen limit)) (drop (nat offset) []))"
      using None q assms(4) by (simp add: FTS_Search_def)
    ultimately show ?thesis by blast
  next
    case (Some cand)
    then have c: "distinct cand" "set cand = {r. \<exists>c. docs r = Some c \<and> set ?q \<subseteq> set (textTerms rt fe tok cfg c)}" using rows by simp_all
    have "FTS_Search rt fe x query limit offset = rankedPage rt fe x (orTen limit) offset ?q qw cand"
      using Some q assms(4) by (simp add: FTS_Search_def)
    with rankedPage_ranking [OF assms(1) c(1) assms(2) lim assms(3), of rt x ?q qw] c(2) show ?thesis by auto
  qed
qed

text \<open>The insertion sort that \<^verbatim>\<open>sort.Slice\<close> uses for short slices keeps its contract.\<close>

fun insertBy :: "('a \<Rightarrow> 'a \<Rightarrow> bool) \<Rightarrow> 'a \<Rightarrow> 'a list \<Rightarrow> 'a list" where
  "insertBy lt x [] = [x]"
| "insertBy lt x (y # ys) = (if lt y x then y # insertBy lt x ys else x # y # ys)"

definition insertionSort :: "('a \<Rightarrow> 'a \<Rightarrow> bool) \<Rightarrow> 'a list \<Rightarrow> 'a list" where
  "insertionSort lt xs = foldr (insertBy lt) xs []"

lemma mset_insertBy: "mset (insertBy lt x ys) = add_mset x (mset ys)"
  by (induction ys) auto

lemma sorted_insertBy:
  "strict_weak_order lt A \<Longrightarrow> insert x (set ys) \<subseteq> A \<Longrightarrow> sorted_wrt (\<lambda>a b. \<not> lt b a) ys \<Longrightarrow> sorted_wrt (\<lambda>a b. \<not> lt b a) (insertBy lt x ys)"
proof (induction ys)
  case (Cons y ys)
  have "set (insertBy lt x ys) = insert x (set ys)" using mset_insertBy [of lt x ys] by (metis set_mset_add_mset_insert set_mset_mset)
  moreover have "\<not> lt z x" if "\<not> lt y x" "z \<in> set ys" for z
  proof
    assume "lt z x"
    moreover have "x \<in> A" "y \<in> A" "z \<in> A" using Cons.prems(2) that(2) by auto
    ultimately have "lt z y \<or> lt y x" using Cons.prems(1) unfolding strict_weak_order_def by blast
    then show False using Cons.prems(3) that by auto
  qed
  moreover have "lt y x \<Longrightarrow> \<not> lt x y" using Cons.prems(1,2) unfolding strict_weak_order_def by auto
  ultimately show ?case using Cons.IH [OF Cons.prems(1)] Cons.prems(2,3) by auto
qed simp

lemma insertionSort_spec: "sort_spec insertionSort"
proof -
  have m: "mset (foldr (insertBy lt) xs []) = mset xs" for lt and xs :: "'a list" by (induction xs) (simp_all add: mset_insertBy)
  have "sorted_wrt (\<lambda>a b. \<not> lt b a) (foldr (insertBy lt) ys [])" if "strict_weak_order lt (set xs)" "set ys \<subseteq> set xs" for lt and xs ys :: "'a list"
    using that
  proof (induction ys)
    case (Cons y ys)
    moreover have "set (foldr (insertBy lt) ys []) = set ys" using m [of lt ys] by (metis set_mset_mset)
    ultimately show ?case using sorted_insertBy [of lt "set xs" y "foldr (insertBy lt) ys []"] by simp
  qed simp
  with m show ?thesis by (simp add: sort_spec_def insertionSort_def)
qed

definition fe_plain :: fts_env where
  "fe_plain = \<lparr>fe_cut = (\<lambda>s. [s]), fe_segErr = True, fe_mul = (\<lambda>a b. a), fe_add = (\<lambda>a b. b), fe_sortResults = insertionSort, fe_sortRanges = insertionSort,
     fe_encode = (\<lambda>_. None), fe_decode = (\<lambda>_. None)\<rparr>"

theorem search_finds_exactly_witness:
  "\<exists>rs. set (map sr_RowID rs) = {r. \<exists>c. fold (fts_spec (\<lambda>c. textTerms rt_plain fe_plain SimpleTokenizer DefaultFTSConfig c \<noteq> []))
       [OpIndex 1 ''red car'', OpIndex 2 ''blue car'', OpDelete 2] Map.empty r = Some c \<and>
       set (queryTerms rt_plain fe_plain SimpleTokenizer DefaultFTSConfig ''car'') \<subseteq> set (textTerms rt_plain fe_plain SimpleTokenizer DefaultFTSConfig c)} \<and>
     FTS_Search rt_plain fe_plain (fold (fts_exec rt_plain fe_plain) [OpIndex 1 ''red car'', OpIndex 2 ''blue car'', OpDelete 2]
         (NewInvertedIndexWithConfig (Some SimpleTokenizer) (Some DefaultFTSConfig))) ''car'' 5 0 = Some (take 5 (drop 0 rs))"
proof -
  let ?x = "fold (fts_exec rt_plain fe_plain) [OpIndex 1 ''red car'', OpIndex 2 ''blue car'', OpDelete 2]
    (NewInvertedIndexWithConfig (Some SimpleTokenizer) (Some DefaultFTSConfig))"
  let ?d = "fold (fts_spec (\<lambda>c. textTerms rt_plain fe_plain SimpleTokenizer DefaultFTSConfig c \<noteq> []))
    [OpIndex 1 ''red car'', OpIndex 2 ''blue car'', OpDelete 2] Map.empty"
  have q: "queryTerms rt_plain fe_plain SimpleTokenizer DefaultFTSConfig ''car'' \<noteq> []"
    by (simp add: queryTerms_def queryTokens_def multiLevel_def NewInvertedIndexWithConfig_def DefaultFTSConfig_def FTS_Tokenize_def Simple_Tokenize_def
        ToLower_def is_ascii_def lower_ascii_def runesOf.simps decodeRune_def chr_code_def Let_def isLetterOrDigit_def)
  from search_finds_exactly [of fe_plain 0 5 rt_plain SimpleTokenizer DefaultFTSConfig "''car''" ?x
      "[OpIndex 1 ''red car'', OpIndex 2 ''blue car'', OpDelete 2]" ?d] q
  obtain rs qw where "ranking (\<lambda>r. calculateScoreWithLevels rt_plain fe_plain ?x r (queryTerms rt_plain fe_plain SimpleTokenizer DefaultFTSConfig ''car'') qw)
      {r. \<exists>c. ?d r = Some c \<and> set (queryTerms rt_plain fe_plain SimpleTokenizer DefaultFTSConfig ''car'')
        \<subseteq> set (textTerms rt_plain fe_plain SimpleTokenizer DefaultFTSConfig c)} rs"
    "FTS_Search rt_plain fe_plain ?x ''car'' 5 0 = Some (take 5 (drop 0 rs))"
    by (auto simp: insertionSort_spec fe_plain_def orTen_def simp del: fold_simps)
  then show ?thesis unfolding ranking_def by blast
qed

section \<open>What highlighting does\<close>

text \<open>Ranges inside a text of \<open>n\<close> bytes, from \<open>k\<close> on, one behind the other\<close>

fun chain :: "nat \<Rightarrow> nat \<Rightarrow> highlightRange list \<Rightarrow> bool" where
  "chain n k [] \<longleftrightarrow> k \<le> n"
| "chain n k ((a, b) # rs) \<longleftrightarrow> k \<le> a \<and> a < b \<and> chain n b rs"

lemma chain_bound: "chain n k rs \<Longrightarrow> k \<le> n"
  by (induction n k rs rule: chain.induct) auto

definition range_in :: "nat \<Rightarrow> highlightRange \<Rightarrow> bool" where
  "range_in n r \<longleftrightarrow> fst r < snd r \<and> snd r \<le> n"

lemma mergeInto_chain:
  "list_all (range_in n) (l # rs) \<Longrightarrow> list_all (\<lambda>r. fst l \<le> fst r) rs \<Longrightarrow> sorted_wrt (\<lambda>a b. fst a \<le> fst b) rs \<Longrightarrow> k \<le> fst l \<Longrightarrow>
     chain n k (mergeInto l rs)"
proof (induction rs arbitrary: l k)
  case Nil
  then show ?case by (cases l) (simp add: range_in_def)
next
  case (Cons r rs)
  show ?case
  proof (cases "fst r \<le> snd l")
    case True
    have "chain n k (mergeInto (fst l, max (snd l) (snd r)) rs)"
      by (rule Cons.IH) (use Cons.prems in \<open>auto simp: range_in_def list_all_iff\<close>)
    with True show ?thesis by simp
  next
    case False
    have "chain n (snd l) (mergeInto r rs)"
      by (rule Cons.IH) (use Cons.prems False in \<open>auto simp: list_all_iff\<close>)
    with False Cons.prems show ?thesis by (cases l) (simp add: range_in_def)
  qed
qed

lemma mergeRanges_chain:
  "list_all (range_in n) rs \<Longrightarrow> sorted_wrt (\<lambda>a b. fst a \<le> fst b) rs \<Longrightarrow> chain n 0 (mergeRanges rs)"
  by (cases rs) (auto intro!: mergeInto_chain simp: list_all_iff)

text \<open>The text between the marks and the marked text\<close>

definition marked :: "string \<Rightarrow> string \<Rightarrow> (string \<times> string) list \<Rightarrow> string" where
  "marked pre suf segs = concat (map (\<lambda>(a, b). a @ pre @ b @ suf) segs)"

lemma buildHighlight_segments:
  "chain (length content) k rs \<Longrightarrow>
     \<exists>segs tail. drop k content = marked [] [] segs @ tail \<and> list_all (\<lambda>(a, b). b \<noteq> []) segs \<and>
       (\<forall>pre suf. buildHighlight content pre suf k rs = Some (marked pre suf segs @ tail))"
proof (induction rs arbitrary: k)
  case Nil
  then show ?case by (intro exI [of _ "[]"] exI [of _ "drop k content"]) (simp add: marked_def)
next
  case (Cons r rs)
  obtain a b where r: "r = (a, b)" by (cases r)
  have c: "k \<le> a" "a < b" "chain (length content) b rs" using Cons.prems r by simp_all
  have b: "b \<le> length content" using c(3) by (rule chain_bound)
  obtain segs tail where seg: "drop b content = marked [] [] segs @ tail" "list_all (\<lambda>(a, b). b \<noteq> []) segs"
    "\<And>pre suf. buildHighlight content pre suf b rs = Some (marked pre suf segs @ tail)"
    using Cons.IH [OF c(3)] by blast
  have "drop k content = slice k a content @ slice a b content @ drop b content"
  proof -
    have "drop k content = take (a - k) (drop k content) @ drop a content" using c(1) by (metis append_take_drop_id drop_drop le_add_diff_inverse2)
    moreover have "drop a content = take (b - a) (drop a content) @ drop b content" using c(2) by (metis append_take_drop_id drop_drop le_add_diff_inverse2 less_imp_le)
    ultimately show ?thesis by (simp add: slice_def)
  qed
  moreover have "slice a b content \<noteq> []" using c(2) b by (simp add: slice_def)
  ultimately show ?case
    using seg c b by (intro exI [of _ "(slice k a content, slice a b content) # segs"] exI [of _ tail]) (simp add: r marked_def)
qed

lemma highlightText_segments:
  assumes "sort_spec (fe_sortRanges fe)" "list_all (range_in (length content)) ranges"
  shows "\<exists>segs tail. content = marked [] [] segs @ tail \<and> list_all (\<lambda>(a, b). b \<noteq> []) segs \<and>
    (\<forall>pre suf. highlightText fe content pre suf ranges = Some (marked pre suf segs @ tail))"
proof (cases "ranges = []")
  case True
  then show ?thesis by (intro exI [of _ "[]"] exI [of _ content]) (simp add: highlightText_def marked_def)
next
  case False
  let ?lt = "\<lambda>a b :: highlightRange. fst a < fst b"
  let ?rs = "fe_sortRanges fe ?lt ranges"
  have "strict_weak_order ?lt (set ranges)" by (auto simp: strict_weak_order_def)
  then have s: "mset ?rs = mset ranges" "sorted_wrt (\<lambda>a b. \<not> ?lt b a) ?rs" using assms(1) unfolding sort_spec_def by blast+
  have "list_all (range_in (length content)) ?rs" using assms(2) mset_eq_setD [OF s(1)] by (simp add: list_all_iff)
  then have "chain (length content) 0 (mergeRanges ?rs)" using s(2) by (intro mergeRanges_chain) (simp_all add: not_less)
  from buildHighlight_segments [OF this] False show ?thesis by (simp add: highlightText_def)
qed

lemma occurrences_in:
  "0 < length t \<Longrightarrow> k \<le> length content \<Longrightarrow> \<exists>rs. occurrences content t (length t) k = Some rs \<and> list_all (range_in (length content)) rs"
proof (induction content t "length t" k rule: occurrences.induct)
  case (1 content t k)
  show ?case
  proof (cases "indexText (drop k content) t")
    case None
    then show ?thesis using 1 by (simp add: occurrences.simps)
  next
    case (Some i)
    have i: "k + i + length t \<le> length content" using indexText_bound [OF Some] 1(3) by (simp add: le_diff_conv2 ac_simps)
    have "\<exists>rs. occurrences content t (length t) (k + i + length t) = Some rs \<and> list_all (range_in (length content)) rs"
      using 1 Some i by auto
    then show ?thesis using 1 Some i by (auto simp: occurrences.simps [of content t "length t" k] range_in_def)
  qed
qed

lemma concatAll_list_all: "list_all (\<lambda>p. \<exists>rs. p = Some rs \<and> list_all P rs) ps \<Longrightarrow> \<exists>rs. concatAll ps = Some rs \<and> list_all P rs"
  by (induction ps) auto

lemma ToLower_ascii: "list_all is_ascii s \<Longrightarrow> length (ToLower rt s) = length s"
  by (simp add: ToLower_def)

text \<open>
  C29. Highlighting only adds marks: for ASCII text and query terms there is one way to cut the content into plain and marked pieces, none of the marked pieces
  empty, such that for all marks the result is the pieces in order with the marks around the marked ones. No slice is out of range, and the
  loop over the occurrences ends.
\<close>
theorem highlight_adds_marks:
  assumes "sort_spec (fe_sortRanges fe)" "map_of (ix_contents x) rowID = Some content" "list_all is_ascii content"
    and "list_all (\<lambda>t. t \<noteq> [] \<and> list_all is_ascii t) (fst (queryTokens rt fe x query))"
  shows "\<exists>segs tail. content = marked [] [] segs @ tail \<and> list_all (\<lambda>(a, b). b \<noteq> []) segs \<and>
    (\<forall>pre suf. Highlight rt fe x rowID query pre suf = Some (marked pre suf segs @ tail))"
proof (cases "fst (queryTokens rt fe x query) = []")
  case True
  then show ?thesis using assms(2) by (intro exI [of _ "[]"] exI [of _ content]) (simp add: Highlight_def marked_def)
next
  case False
  have "list_all (\<lambda>p. \<exists>rs. p = Some rs \<and> list_all (range_in (length content)) rs)
     (concat (map (\<lambda>t. map (\<lambda>_. occurrences (ToLower rt content) (ToLower rt t) (length t) 0) (GetTermPositions t rowID x)) (fst (queryTokens rt fe x query))))"
  proof -
    have "\<exists>rs. occurrences (ToLower rt content) (ToLower rt t) (length t) 0 = Some rs \<and> list_all (range_in (length content)) rs"
      if "t \<in> set (fst (queryTokens rt fe x query))" for t
    proof -
      have "0 < length (ToLower rt t)" "length (ToLower rt t) = length t" "length (ToLower rt content) = length content"
        using assms(3,4) that by (simp_all add: ToLower_ascii list_all_iff)
      with occurrences_in [of "ToLower rt t" 0 "ToLower rt content"] show ?thesis by simp
    qed
    then show ?thesis by (auto simp: list_all_iff)
  qed
  from concatAll_list_all [OF this] obtain ranges where
    r: "rangesOf rt x rowID content (fst (queryTokens rt fe x query)) = Some ranges" "list_all (range_in (length content)) ranges"
    unfolding rangesOf_def by blast
  from highlightText_segments [OF assms(1) r(2)] False r(1) assms(2) show ?thesis by (simp add: Highlight_def Let_def)
qed

definition sampleIndex :: InvertedIndex where
  "sampleIndex = (NewInvertedIndexWithConfig (Some SimpleTokenizer) (Some DefaultFTSConfig))
     \<lparr>ix_contents := [(1, ''red car'')], ix_termPositions := [(''car'', [\<lparr>tp_RowID = 1, tp_Position = 1, tp_Level = 1, tp_SourceTerm = ''car''\<rparr>])]\<rparr>"

theorem highlight_adds_marks_witness:
  "\<exists>segs tail. ''red car'' = marked [] [] segs @ tail \<and> Highlight rt_plain fe_plain sampleIndex 1 ''car'' ''<b>'' ''</b>'' = Some (marked ''<b>'' ''</b>'' segs @ tail)"
proof -
  have "list_all (\<lambda>t. t \<noteq> [] \<and> list_all is_ascii t) (fst (queryTokens rt_plain fe_plain sampleIndex ''car''))"
    by (simp add: sampleIndex_def queryTokens_def multiLevel_def NewInvertedIndexWithConfig_def DefaultFTSConfig_def FTS_Tokenize_def Simple_Tokenize_def
        ToLower_def is_ascii_def lower_ascii_def runesOf.simps decodeRune_def chr_code_def Let_def isLetterOrDigit_def encodeRune_def)
  then show ?thesis
    using highlight_adds_marks [of fe_plain sampleIndex 1 "''red car''" rt_plain "''car''"]
    by (auto simp: sampleIndex_def fe_plain_def insertionSort_spec is_ascii_def)
qed

section \<open>Splitting terms\<close>

lemma concat_pairRunes: "concat (pairRunes rs) = rs"
  by (induction rs rule: pairRunes.induct) simp_all

lemma concat_splitRunes: "2 \<le> length rs \<Longrightarrow> concat (splitRunes rs) = rs"
proof (induction rs rule: splitRunes.induct)
  case (1 rs)
  then show ?case by (subst splitRunes.simps) (auto simp: concat_pairRunes)
qed

lemma splitTerm_covers: "2 \<le> RuneCountInString (textOf rs) \<Longrightarrow> list_all valid_rune rs \<Longrightarrow> concat (splitTerm (textOf rs)) = textOf rs"
proof -
  assume "2 \<le> RuneCountInString (textOf rs)" "list_all valid_rune rs"
  then have r: "runesOf (textOf rs) = rs" "2 \<le> length rs" by (simp_all add: RuneCountInString_def runesOf_textOf)
  have "concat (map textOf rss) = textOf (concat rss)" for rss by (induction rss) (simp_all add: textOf_def)
  then show ?thesis by (simp add: splitTerm_def r(1) concat_splitRunes [OF r(2)])
qed

section \<open>Saving and loading\<close>

lemma load_saved:
  assumes "fts_inv rt fe x" "SaveToFile fe x = Some file"
    and "\<And>d. fe_encode fe d = Some file \<Longrightarrow> fe_decode fe file = Some d"
    and "ix_tokenizer y = ix_tokenizer x"
  shows "LoadFromFile fe file y = Some x"
proof -
  have "map (\<lambda>(r, ts). (r, remdups ts)) (ix_documents x) = ix_documents x"
  proof (rule map_idI)
    fix e assume e: "e \<in> set (ix_documents x)"
    obtain r ts where rt: "e = (r, ts)" by (cases e)
    have "distinct (keys_of (ix_documents x))" using assms(1) by (simp add: fts_inv_def)
    then have "map_of (ix_documents x) r = Some ts" using e rt by simp
    then have "distinct ts" using assms(1) by (auto simp: fts_inv_def termsOf_def)
    with rt show "(case e of (r, ts) \<Rightarrow> (r, remdups ts)) = e" by (simp add: distinct_remdups_id)
  qed
  with assms(2) assms(3) [OF assms(2) [unfolded SaveToFile_def]] assms(4) show ?thesis by (simp add: LoadFromFile_def)
qed

end
