(* ===== verification/GoLib.thy ===== *)
theory GoLib
  imports Values Utf8
begin

text \<open>
  What the SQL functions and the expression evaluator take from the language and its library: the ways a call can fail to return (a
  panic, a loop that never ends), the functions of \<^verbatim>\<open>strings\<close> they use, and the parts of the library without an algorithm in the
  sources as parameters: float arithmetic and \<^verbatim>\<open>math\<close>, the calendar of \<^verbatim>\<open>time\<close>, and the operating system (\<^verbatim>\<open>os\<close>, \<^verbatim>\<open>math/rand\<close>,
  \<^verbatim>\<open>time.Now\<close>) as operations on a state \<open>'w\<close>.
\<close>

datatype fault = GoPanic | NoReturn

section \<open>Strings\<close>

text \<open>\<open>chunks s\<close> are the runes of a text with the bytes of each.\<close>

function chunks :: "string \<Rightarrow> (rune \<times> string) list" where
  "chunks s = (if s = [] then [] else (fst (decodeRune s), take (snd (decodeRune s)) s) # chunks (drop (snd (decodeRune s)) s))"
  by pat_completeness auto
termination
proof (relation "measure length")
  fix s :: string
  assume "s \<noteq> []"
  with decodeRune_width [of s] show "(drop (snd (decodeRune s)) s, s) \<in> measure length" by simp
qed simp

declare chunks.simps [simp del]

definition unchunk :: "(rune \<times> string) list \<Rightarrow> string" where
  "unchunk cs = concat (map snd cs)"

definition hasPrefix :: "string \<Rightarrow> string \<Rightarrow> bool" where
  "hasPrefix s p \<longleftrightarrow> take (length p) s = p"

definition hasSuffix :: "string \<Rightarrow> string \<Rightarrow> bool" where
  "hasSuffix s p \<longleftrightarrow> length p \<le> length s \<and> drop (length s - length p) s = p"

definition TrimPrefix :: "string \<Rightarrow> string \<Rightarrow> string" where
  "TrimPrefix s p = (if hasPrefix s p then drop (length p) s else s)"

fun IndexOf :: "string \<Rightarrow> string \<Rightarrow> nat option" where
  "IndexOf s sub = (if hasPrefix s sub then Some 0 else case s of [] \<Rightarrow> None | _ # t \<Rightarrow> map_option Suc (IndexOf t sub))"

declare IndexOf.simps [simp del]

text \<open>\<^verbatim>\<open>strings.ReplaceAll\<close>; replacing the empty text puts the new one before every rune and at the end.\<close>

function replaceFrom :: "string \<Rightarrow> string \<Rightarrow> string \<Rightarrow> string" where
  "replaceFrom old new s =
     (if s = [] \<or> old = [] then s
      else if hasPrefix s old then new @ replaceFrom old new (drop (length old) s)
      else hd s # replaceFrom old new (tl s))"
  by auto
termination
  by (relation "measure (\<lambda>(old, new, s). length s)") (auto simp: neq_Nil_conv)

declare replaceFrom.simps [simp del]

definition ReplaceAll :: "string \<Rightarrow> string \<Rightarrow> string \<Rightarrow> string" where
  "ReplaceAll s old new =
     (if old = [] then concat (map (\<lambda>c. new @ snd c) (chunks s)) @ new else replaceFrom old new s)"

definition TrimLeft :: "string \<Rightarrow> string \<Rightarrow> string" where
  "TrimLeft s cutset = unchunk (dropWhile (\<lambda>c. fst c \<in> set (runesOf cutset)) (chunks s))"

definition TrimRight :: "string \<Rightarrow> string \<Rightarrow> string" where
  "TrimRight s cutset = unchunk (rev (dropWhile (\<lambda>c. fst c \<in> set (runesOf cutset)) (rev (chunks s))))"

definition Trim :: "string \<Rightarrow> string \<Rightarrow> string" where
  "Trim s cutset = TrimRight (TrimLeft s cutset) cutset"

text \<open>\<^verbatim>\<open>strings.Repeat\<close> panics on a negative count and when the length of the result is not an \<^verbatim>\<open>int\<close>.\<close>

definition Repeat :: "string \<Rightarrow> int \<Rightarrow> fault + string" where
  "Repeat s n = (if n < 0 \<or> 2 ^ 63 \<le> int (length s) * n then Inl GoPanic else Inr (concat (replicate (nat n) s)))"

section \<open>Numbers\<close>

record go_math =
  fm_add :: "float64 \<Rightarrow> float64 \<Rightarrow> float64"
  fm_sub :: "float64 \<Rightarrow> float64 \<Rightarrow> float64"
  fm_mul :: "float64 \<Rightarrow> float64 \<Rightarrow> float64"
  fm_Pow :: "float64 \<Rightarrow> float64 \<Rightarrow> float64"
  fm_Pow10 :: "int \<Rightarrow> float64"
  fm_Round :: "float64 \<Rightarrow> float64"
  fm_Floor :: "float64 \<Rightarrow> float64"
  fm_Ceil :: "float64 \<Rightarrow> float64"
  fm_Sqrt :: "float64 \<Rightarrow> float64"
  fm_Log :: "float64 \<Rightarrow> float64"
  fm_Log10 :: "float64 \<Rightarrow> float64"
  fm_Log2 :: "float64 \<Rightarrow> float64"
  fm_Exp :: "float64 \<Rightarrow> float64"
  fm_Sin :: "float64 \<Rightarrow> float64"
  fm_Cos :: "float64 \<Rightarrow> float64"
  fm_Tan :: "float64 \<Rightarrow> float64"
  fm_fmt1 :: "float64 \<Rightarrow> string"
  fm_parseErr :: "string \<Rightarrow> float64"

definition fneg :: "float64 \<Rightarrow> float64" where
  "fneg f = f XOR push_bit 63 1"

definition fabs :: "float64 \<Rightarrow> float64" where
  "fabs f = f AND mask 63"

text \<open>
  \<^verbatim>\<open>n, _ := v.ToInt64()\<close> and \<^verbatim>\<open>f, _ := v.ToFloat64()\<close>: what the conversions return beside an error. \<^verbatim>\<open>strconv.ParseInt\<close> returns the
  nearest value for a number out of range; what \<^verbatim>\<open>strconv.ParseFloat\<close> returns is \<open>fm_parseErr\<close>.
\<close>

definition ParseIntSat :: "string \<Rightarrow> u64" where
  "ParseIntSat s =
     (case ParseInt64 s of
        Inr n \<Rightarrow> n
      | Inl ConvRange \<Rightarrow> if s \<noteq> [] \<and> hd s = CHR ''-'' then push_bit 63 1 else mask 63
      | Inl _ \<Rightarrow> 0)"

definition int64Of :: "go_rt \<Rightarrow> Value \<Rightarrow> u64" where
  "int64Of rt v =
     (case ToInt64 rt v of
        Inr n \<Rightarrow> n
      | Inl _ \<Rightarrow> if IsNull v then 0 else case Data v of GString s \<Rightarrow> ParseIntSat s | _ \<Rightarrow> 0)"

definition float64Of :: "go_rt \<Rightarrow> go_math \<Rightarrow> Value \<Rightarrow> float64" where
  "float64Of rt fm v =
     (case ToFloat64 rt v of
        Inr f \<Rightarrow> f
      | Inl _ \<Rightarrow> if IsNull v then 0 else case Data v of GString s \<Rightarrow> fm_parseErr fm s | _ \<Rightarrow> 0)"

text \<open>Go's \<^verbatim>\<open>/\<close> and \<^verbatim>\<open>%\<close> on \<^verbatim>\<open>int64\<close> round towards zero; the quotient of the least number by \<^verbatim>\<open>-1\<close> wraps.\<close>

definition div64 :: "u64 \<Rightarrow> u64 \<Rightarrow> u64" where
  "div64 a b = of_int (sgn (sint a) * sgn (sint b) * (\<bar>sint a\<bar> div \<bar>sint b\<bar>))"

definition rem64 :: "u64 \<Rightarrow> u64 \<Rightarrow> u64" where
  "rem64 a b = of_int (sgn (sint a) * (\<bar>sint a\<bar> mod \<bar>sint b\<bar>))"

section \<open>Time and the operating system\<close>

record go_time =
  tm_Year :: "int \<Rightarrow> int"
  tm_Month :: "int \<Rightarrow> int"
  tm_Day :: "int \<Rightarrow> int"
  tm_Hour :: "int \<Rightarrow> int"
  tm_Minute :: "int \<Rightarrow> int"
  tm_Second :: "int \<Rightarrow> int"
  tm_Weekday :: "int \<Rightarrow> int"
  tm_YearDay :: "int \<Rightarrow> int"
  tm_ISOWeek :: "int \<Rightarrow> int"
  tm_AddDate :: "int \<Rightarrow> int \<Rightarrow> int \<Rightarrow> int \<Rightarrow> int"
  tm_Date :: "int \<Rightarrow> int \<Rightarrow> int \<Rightarrow> int \<Rightarrow> int \<Rightarrow> int \<Rightarrow> int \<Rightarrow> int"
  tm_SubHours :: "int \<Rightarrow> int \<Rightarrow> float64"

text \<open>An entry of a directory: its name, whether it is a directory, and its size and time when \<^verbatim>\<open>Info\<close> succeeds.\<close>

type_synonym dirEntry = "string \<times> bool \<times> (u64 \<times> int) option"

record 'w go_os =
  os_Now :: "'w \<Rightarrow> 'w \<times> int"
  os_Float64 :: "'w \<Rightarrow> 'w \<times> float64"
  os_RandRead :: "nat \<Rightarrow> 'w \<Rightarrow> 'w \<times> bytes"
  os_ReadFile :: "string \<Rightarrow> 'w \<Rightarrow> bytes option"
  os_Stat :: "string \<Rightarrow> 'w \<Rightarrow> u64 option"
  os_ReadDir :: "string \<Rightarrow> 'w \<Rightarrow> dirEntry list option"
  os_WriteFile :: "string \<Rightarrow> bytes \<Rightarrow> 'w \<Rightarrow> 'w \<times> bool"
  os_MkdirAll :: "string \<Rightarrow> 'w \<Rightarrow> 'w \<times> bool"
  os_RemoveAll :: "string \<Rightarrow> 'w \<Rightarrow> 'w \<times> bool"
  os_Join :: "string \<Rightarrow> string \<Rightarrow> string"
  os_Base :: "string \<Rightarrow> string"
  os_IsNotExist :: "string \<Rightarrow> 'w \<Rightarrow> bool"
  os_Match :: "string \<Rightarrow> string \<Rightarrow> bool"

section \<open>Facts\<close>

lemma chunks_runes: "map fst (chunks s) = runesOf s"
proof (induction s rule: chunks.induct)
  case (1 s)
  then show ?case by (subst chunks.simps, subst runesOf.simps) auto
qed

lemma unchunk_chunks [simp]: "unchunk (chunks s) = s"
proof (induction s rule: chunks.induct)
  case (1 s)
  then show ?case by (subst chunks.simps) (auto simp: unchunk_def)
qed

lemma sint64_bounds: "- (2 ^ 63) \<le> sint (w :: u64)" "sint (w :: u64) < 2 ^ 63"
  using sint_ge [of w] sint_lt [of w] by simp_all

lemma sint64_of_int: "- (2 ^ 63) \<le> x \<Longrightarrow> x < 2 ^ 63 \<Longrightarrow> sint (of_int x :: u64) = x"
  by (simp add: signed_of_int signed_take_bit_int_eq_self)

lemma rem64_sint: "sint b \<noteq> 0 \<Longrightarrow> sint (rem64 a b) = sgn (sint a) * (\<bar>sint a\<bar> mod \<bar>sint b\<bar>)"
proof -
  assume b: "sint b \<noteq> 0"
  let ?m = "\<bar>sint a\<bar> mod \<bar>sint b\<bar>"
  have m: "0 \<le> ?m" "?m < \<bar>sint b\<bar>" using b by simp_all
  moreover have "\<bar>sint b\<bar> \<le> 2 ^ 63" using sint64_bounds [of b] by (simp add: abs_le_iff)
  ultimately have "?m < 2 ^ 63" by linarith
  with m(1) have "- (2 ^ 63) \<le> sgn (sint a) * ?m" "sgn (sint a) * ?m < 2 ^ 63" by (auto simp: sgn_if)
  then show ?thesis unfolding rem64_def by (rule sint64_of_int)
qed

end
