(* ===== verification/Functions.thy ===== *)
theory Functions
  imports GoLib Json Hash Ast
begin

text \<open>
  \<^verbatim>\<open>src/function/functions.go\<close>: the built-in SQL functions. A function takes the argument values and returns a value or an error; a panic and a
  loop that never ends are values of the error type. Functions that read the clock, random numbers or files are methods on the state \<open>'w\<close> of the
  operating system. The library functions without an algorithm in the sources are the fields of \<open>fn_env\<close>: \<^verbatim>\<open>math\<close>, \<^verbatim>\<open>time\<close>, \<^verbatim>\<open>os\<close>,
  \<^verbatim>\<open>image.DecodeConfig\<close> and the text of a JSON tree; \<open>fn_depth\<close> bounds the nesting of the directories \<^verbatim>\<open>LOAD_FOLDER\<close> reads.
\<close>

record 'w fn_env =
  fn_rt :: go_rt
  fn_math :: go_math
  fn_time :: go_time
  fn_os :: "'w go_os"
  fn_image :: "bytes \<Rightarrow> (int \<times> int \<times> string) option"
  fn_enc :: "json \<Rightarrow> bytes"
  fn_dec :: "bytes \<Rightarrow> json option"
  fn_depth :: nat

datatype fn_error = FnArgs string | FnConv conv_error | FnText string | FnUnknown string | FnFault fault

type_synonym fn_result = "fn_error + Value"

section \<open>Checks the functions share\<close>

definition exactly :: "nat \<Rightarrow> string \<Rightarrow> Value list \<Rightarrow> fn_result \<Rightarrow> fn_result" where
  "exactly n name args r = (if length args \<noteq> n then Inl (FnArgs name) else r)"

definition atLeast :: "nat \<Rightarrow> string \<Rightarrow> Value list \<Rightarrow> fn_result \<Rightarrow> fn_result" where
  "atLeast n name args r = (if length args < n then Inl (FnArgs name) else r)"

definition nullSafe :: "Value list \<Rightarrow> fn_result \<Rightarrow> fn_result" where
  "nullSafe vs r = (if list_ex IsNull vs then Inr NewNullValue else r)"

definition needs :: "conv_error + 'a \<Rightarrow> ('a \<Rightarrow> fn_result) \<Rightarrow> fn_result" where
  "needs c k = (case c of Inl e \<Rightarrow> Inl (FnConv e) | Inr x \<Rightarrow> k x)"

definition orFault :: "fault + 'a \<Rightarrow> ('a \<Rightarrow> fn_result) \<Rightarrow> fn_result" where
  "orFault c k = (case c of Inl e \<Rightarrow> Inl (FnFault e) | Inr x \<Rightarrow> k x)"

abbreviation str :: "'w fn_env \<Rightarrow> Value \<Rightarrow> string" where "str env v \<equiv> ToString (fn_rt env) v"
abbreviation i64 :: "'w fn_env \<Rightarrow> Value \<Rightarrow> u64" where "i64 env v \<equiv> int64Of (fn_rt env) v"
abbreviation f64 :: "'w fn_env \<Rightarrow> Value \<Rightarrow> float64" where "f64 env v \<equiv> float64Of (fn_rt env) (fn_math env) v"
abbreviation textual :: "string \<Rightarrow> fn_result" where "textual s \<equiv> Inr (NewStringValue s)"
abbreviation integer :: "int \<Rightarrow> fn_result" where "integer i \<equiv> Inr (NewIntValue (of_int i))"
abbreviation floating :: "float64 \<Rightarrow> fn_result" where "floating f \<equiv> Inr (NewFloatValue f)"

section \<open>String functions\<close>

definition fnConcat :: "'w fn_env \<Rightarrow> Value list \<Rightarrow> fn_result" where
  "fnConcat env args = atLeast 1 ''CONCAT'' args (textual (concat (map (\<lambda>v. if IsNull v then [] else str env v) args)))"

definition blobLength :: "Value \<Rightarrow> nat option" where
  "blobLength v = (if Type v = TypeBlob then case Data v of GBytes b \<Rightarrow> Some (length b) | GString s \<Rightarrow> Some (length s) | _ \<Rightarrow> None else None)"

definition fnLength :: "'w fn_env \<Rightarrow> Value list \<Rightarrow> fn_result" where
  "fnLength env args = exactly 1 ''LENGTH'' args (nullSafe [args ! 0]
     (case blobLength (args ! 0) of
        Some n \<Rightarrow> integer (int n)
      | None \<Rightarrow> integer (int (RuneCountInString (str env (args ! 0))))))"

definition fnByteLength :: "'w fn_env \<Rightarrow> Value list \<Rightarrow> fn_result" where
  "fnByteLength env args = exactly 1 ''BYTE_LENGTH'' args (nullSafe [args ! 0]
     (case blobLength (args ! 0) of
        Some n \<Rightarrow> integer (int n)
      | None \<Rightarrow> integer (int (length (str env (args ! 0))))))"

definition fnUpper :: "'w fn_env \<Rightarrow> Value list \<Rightarrow> fn_result" where
  "fnUpper env args = exactly 1 ''UPPER'' args (nullSafe [args ! 0] (textual (ToUpper (fn_rt env) (str env (args ! 0)))))"

definition fnLower :: "'w fn_env \<Rightarrow> Value list \<Rightarrow> fn_result" where
  "fnLower env args = exactly 1 ''LOWER'' args (nullSafe [args ! 0] (textual (ToLower (fn_rt env) (str env (args ! 0)))))"

definition fnTrim :: "'w fn_env \<Rightarrow> Value list \<Rightarrow> fn_result" where
  "fnTrim env args = atLeast 1 ''TRIM'' args (nullSafe [args ! 0]
     (let s = str env (args ! 0)
      in if 1 < length args then textual (Trim s (str env (args ! 1))) else textual (TrimSpace (fn_rt env) s)))"

definition fnLTrim :: "'w fn_env \<Rightarrow> Value list \<Rightarrow> fn_result" where
  "fnLTrim env args = atLeast 1 ''LTRIM'' args (nullSafe [args ! 0]
     (let s = str env (args ! 0)
      in if 1 < length args then textual (TrimLeft s (str env (args ! 1))) else textual (TrimLeft s '' '')))"

definition fnRTrim :: "'w fn_env \<Rightarrow> Value list \<Rightarrow> fn_result" where
  "fnRTrim env args = atLeast 1 ''RTRIM'' args (nullSafe [args ! 0]
     (let s = str env (args ! 0)
      in if 1 < length args then textual (TrimRight s (str env (args ! 1))) else textual (TrimRight s '' '')))"

text \<open>\<open>runes[i:j]\<close> of a slice of runes panics unless \<open>0 \<le> i \<le> j \<le> len\<close>.\<close>

definition sliceRunes :: "rune list \<Rightarrow> int \<Rightarrow> int \<Rightarrow> fault + string" where
  "sliceRunes rs i j =
     (if 0 \<le> i \<and> i \<le> j \<and> j \<le> int (length rs) then Inr (textOf (slice (nat i) (nat j) rs)) else Inl GoPanic)"

definition fnSubstring :: "'w fn_env \<Rightarrow> Value list \<Rightarrow> fn_result" where
  "fnSubstring env args = atLeast 2 ''SUBSTRING'' args (nullSafe [args ! 0]
     (let runes = runesOf (str env (args ! 0));
          start0 = i64 env (args ! 1) - 1;
          runeLen = (if 2 < length args then i64 env (args ! 2) else of_nat (length runes));
          start = (if sint start0 < 0 then 0 else start0);
          end0 = sint (start + runeLen);
          end' = (if int (length runes) < end0 then int (length runes) else end0)
      in if int (length runes) < sint start then textual [] else orFault (sliceRunes runes (sint start) end') textual))"

definition fnLeft :: "'w fn_env \<Rightarrow> Value list \<Rightarrow> fn_result" where
  "fnLeft env args = exactly 2 ''LEFT'' args (nullSafe [args ! 0]
     (let runes = runesOf (str env (args ! 0)); n0 = sint (i64 env (args ! 1));
          n = (if int (length runes) < n0 then int (length runes) else n0)
      in orFault (sliceRunes runes 0 n) textual))"

definition fnRight :: "'w fn_env \<Rightarrow> Value list \<Rightarrow> fn_result" where
  "fnRight env args = exactly 2 ''RIGHT'' args (nullSafe [args ! 0]
     (let runes = runesOf (str env (args ! 0)); n0 = sint (i64 env (args ! 1));
          n = (if int (length runes) < n0 then int (length runes) else n0)
      in orFault (sliceRunes runes (sint (of_nat (length runes) - of_int n :: u64)) (int (length runes))) textual))"

definition fnReplace :: "'w fn_env \<Rightarrow> Value list \<Rightarrow> fn_result" where
  "fnReplace env args = exactly 3 ''REPLACE'' args (nullSafe [args ! 0]
     (textual (ReplaceAll (str env (args ! 0)) (str env (args ! 1)) (str env (args ! 2)))))"

definition fnInstr :: "'w fn_env \<Rightarrow> Value list \<Rightarrow> fn_result" where
  "fnInstr env args = atLeast 2 ''INSTR'' args (nullSafe [args ! 0, args ! 1]
     (let s = str env (args ! 0)
      in case IndexOf s (str env (args ! 1)) of
           None \<Rightarrow> integer 0
         | Some bytePos \<Rightarrow> integer (int (RuneCountInString (take bytePos s)) + 1)))"

text \<open>The padding loops: with an empty pad they never end.\<close>

function lpadLoop :: "rune list \<Rightarrow> int \<Rightarrow> rune list \<Rightarrow> fault + rune list" where
  "lpadLoop pad len runes =
     (if int (length runes) < len then if pad = [] then Inl NoReturn else lpadLoop pad len (pad @ runes) else Inr runes)"
  by pat_completeness auto
termination
  by (relation "measure (\<lambda>(pad, len, runes). nat (len - int (length runes)))") (auto simp: neq_Nil_conv)

function rpadLoop :: "rune list \<Rightarrow> int \<Rightarrow> rune list \<Rightarrow> fault + rune list" where
  "rpadLoop pad len runes =
     (if int (length runes) < len then if pad = [] then Inl NoReturn else rpadLoop pad len (runes @ pad) else Inr runes)"
  by pat_completeness auto
termination
  by (relation "measure (\<lambda>(pad, len, runes). nat (len - int (length runes)))") (auto simp: neq_Nil_conv)

declare lpadLoop.simps [simp del] rpadLoop.simps [simp del]

definition fnLpad :: "'w fn_env \<Rightarrow> Value list \<Rightarrow> fn_result" where
  "fnLpad env args = atLeast 3 ''LPAD'' args (nullSafe [args ! 0]
     (let len = i64 env (args ! 1)
      in orFault (lpadLoop (runesOf (str env (args ! 2))) (sint len) (runesOf (str env (args ! 0)))) (\<lambda>runes.
           if sint len < int (length runes)
           then orFault (sliceRunes runes (sint (of_nat (length runes) - len)) (int (length runes))) textual
           else textual (textOf runes))))"

definition fnRpad :: "'w fn_env \<Rightarrow> Value list \<Rightarrow> fn_result" where
  "fnRpad env args = atLeast 3 ''RPAD'' args (nullSafe [args ! 0]
     (let len = i64 env (args ! 1)
      in orFault (rpadLoop (runesOf (str env (args ! 2))) (sint len) (runesOf (str env (args ! 0)))) (\<lambda>runes.
           if sint len < int (length runes) then orFault (sliceRunes runes 0 (sint len)) textual
           else textual (textOf runes))))"

definition fnReverse :: "'w fn_env \<Rightarrow> Value list \<Rightarrow> fn_result" where
  "fnReverse env args = exactly 1 ''REVERSE'' args (nullSafe [args ! 0] (textual (textOf (rev (runesOf (str env (args ! 0)))))))"

definition fnRepeat :: "'w fn_env \<Rightarrow> Value list \<Rightarrow> fn_result" where
  "fnRepeat env args = exactly 2 ''REPEAT'' args (nullSafe [args ! 0]
     (orFault (Repeat (str env (args ! 0)) (sint (i64 env (args ! 1)))) textual))"

section \<open>Numeric functions\<close>

definition fnAbs :: "'w fn_env \<Rightarrow> Value list \<Rightarrow> fn_result" where
  "fnAbs env args = exactly 1 ''ABS'' args (nullSafe [args ! 0] (needs (ToFloat64 (fn_rt env) (args ! 0)) (\<lambda>f. floating (fabs f))))"

definition fnRound :: "'w fn_env \<Rightarrow> Value list \<Rightarrow> fn_result" where
  "fnRound env args = atLeast 1 ''ROUND'' args (nullSafe [args ! 0] (needs (ToFloat64 (fn_rt env) (args ! 0)) (\<lambda>f.
     let precision = (if 1 < length args then sint (i64 env (args ! 1)) else 0);
         mult = fm_Pow10 (fn_math env) precision
     in floating (rt_fdiv (fn_rt env) (fm_Round (fn_math env) (fm_mul (fn_math env) f mult)) mult))))"

definition fnFloor :: "'w fn_env \<Rightarrow> Value list \<Rightarrow> fn_result" where
  "fnFloor env args = exactly 1 ''FLOOR'' args (nullSafe [args ! 0] (needs (ToFloat64 (fn_rt env) (args ! 0)) (\<lambda>f.
     Inr (NewIntValue (f64_to_i64 (fn_rt env) (fm_Floor (fn_math env) f))))))"

definition fnCeil :: "'w fn_env \<Rightarrow> Value list \<Rightarrow> fn_result" where
  "fnCeil env args = exactly 1 ''CEIL'' args (nullSafe [args ! 0] (needs (ToFloat64 (fn_rt env) (args ! 0)) (\<lambda>f.
     Inr (NewIntValue (f64_to_i64 (fn_rt env) (fm_Ceil (fn_math env) f))))))"

definition fnPower :: "'w fn_env \<Rightarrow> Value list \<Rightarrow> fn_result" where
  "fnPower env args = exactly 2 ''POWER'' args (nullSafe [args ! 0, args ! 1]
     (floating (fm_Pow (fn_math env) (f64 env (args ! 0)) (f64 env (args ! 1)))))"

definition fnSqrt :: "'w fn_env \<Rightarrow> Value list \<Rightarrow> fn_result" where
  "fnSqrt env args = exactly 1 ''SQRT'' args (nullSafe [args ! 0] (needs (ToFloat64 (fn_rt env) (args ! 0)) (\<lambda>f.
     if f64_less f 0 then Inl (FnText ''cannot take square root of negative number'') else floating (fm_Sqrt (fn_math env) f))))"

definition fnMod :: "'w fn_env \<Rightarrow> Value list \<Rightarrow> fn_result" where
  "fnMod env args = exactly 2 ''MOD'' args (nullSafe [args ! 0, args ! 1]
     (if i64 env (args ! 1) = 0 then Inl (FnText ''division by zero'')
      else Inr (NewIntValue (rem64 (i64 env (args ! 0)) (i64 env (args ! 1))))))"

definition fnSign :: "'w fn_env \<Rightarrow> Value list \<Rightarrow> fn_result" where
  "fnSign env args = exactly 1 ''SIGN'' args (nullSafe [args ! 0] (needs (ToFloat64 (fn_rt env) (args ! 0)) (\<lambda>f.
     if f64_less 0 f then integer 1 else if f64_less f 0 then integer (- 1) else integer 0)))"

section \<open>Aggregate functions\<close>

definition fnCount :: "Value list \<Rightarrow> fn_result" where
  "fnCount args = integer (int (length (filter (\<lambda>v. \<not> IsNull v) args)))"

fun sumFrom :: "'w fn_env \<Rightarrow> float64 \<Rightarrow> nat \<Rightarrow> Value list \<Rightarrow> conv_error + (float64 \<times> nat)" where
  "sumFrom env acc count [] = Inr (acc, count)"
| "sumFrom env acc count (v # vs) =
     (if IsNull v then sumFrom env acc count vs
      else bindE (ToFloat64 (fn_rt env) v) (\<lambda>f. sumFrom env (fm_add (fn_math env) acc f) (Suc count) vs))"

definition fnSum :: "'w fn_env \<Rightarrow> Value list \<Rightarrow> fn_result" where
  "fnSum env args = needs (sumFrom env 0 0 args) (\<lambda>(acc, _). floating acc)"

definition fnAvg :: "'w fn_env \<Rightarrow> Value list \<Rightarrow> fn_result" where
  "fnAvg env args = needs (sumFrom env 0 0 args) (\<lambda>(acc, count).
     if count = 0 then Inr NewNullValue else floating (rt_fdiv (fn_rt env) acc (i64_to_f64 (of_nat count))))"

definition fnMin :: "'w fn_env \<Rightarrow> Value list \<Rightarrow> fn_result" where
  "fnMin env args =
     (case args of
        [] \<Rightarrow> Inr NewNullValue
      | v # vs \<Rightarrow> Inr (foldl (\<lambda>m a. if \<not> IsNull a \<and> Compare (fn_rt env) a m < 0 then a else m) v vs))"

definition fnMax :: "'w fn_env \<Rightarrow> Value list \<Rightarrow> fn_result" where
  "fnMax env args =
     (case args of
        [] \<Rightarrow> Inr NewNullValue
      | v # vs \<Rightarrow> Inr (foldl (\<lambda>m a. if \<not> IsNull a \<and> 0 < Compare (fn_rt env) a m then a else m) v vs))"

section \<open>Date and time functions\<close>

definition fnDate :: "'w fn_env \<Rightarrow> Value list \<Rightarrow> fn_result" where
  "fnDate env args = exactly 1 ''DATE'' args (nullSafe [args ! 0]
     (case rt_parseTime (fn_rt env) ''2006-01-02'' (str env (args ! 0)) of
        None \<Rightarrow> Inl (FnText ''invalid date format'')
      | Some t \<Rightarrow> Inr (NewDateValue t)))"

text \<open>The functions that read one field of a time\<close>

definition timeField :: "string \<Rightarrow> (go_time \<Rightarrow> int \<Rightarrow> int) \<Rightarrow> 'w fn_env \<Rightarrow> Value list \<Rightarrow> fn_result" where
  "timeField name field env args =
     exactly 1 name args (nullSafe [args ! 0] (needs (ToTime (fn_rt env) (args ! 0)) (\<lambda>t. integer (field (fn_time env) t))))"

definition fnYear :: "'w fn_env \<Rightarrow> Value list \<Rightarrow> fn_result" where "fnYear = timeField ''YEAR'' tm_Year"
definition fnMonth :: "'w fn_env \<Rightarrow> Value list \<Rightarrow> fn_result" where "fnMonth = timeField ''MONTH'' tm_Month"
definition fnDay :: "'w fn_env \<Rightarrow> Value list \<Rightarrow> fn_result" where "fnDay = timeField ''DAY'' tm_Day"
definition fnHour :: "'w fn_env \<Rightarrow> Value list \<Rightarrow> fn_result" where "fnHour = timeField ''HOUR'' tm_Hour"
definition fnMinute :: "'w fn_env \<Rightarrow> Value list \<Rightarrow> fn_result" where "fnMinute = timeField ''MINUTE'' tm_Minute"
definition fnSecond :: "'w fn_env \<Rightarrow> Value list \<Rightarrow> fn_result" where "fnSecond = timeField ''SECOND'' tm_Second"

definition fnDateDiff :: "'w fn_env \<Rightarrow> Value list \<Rightarrow> fn_result" where
  "fnDateDiff env args = exactly 2 ''DATEDIFF'' args (nullSafe [args ! 0, args ! 1]
     (needs (ToTime (fn_rt env) (args ! 0)) (\<lambda>t1. needs (ToTime (fn_rt env) (args ! 1)) (\<lambda>t2.
        Inr (NewIntValue (f64_to_i64 (fn_rt env) (rt_fdiv (fn_rt env) (tm_SubHours (fn_time env) t1 t2) 0x4038000000000000)))))))"

definition fnDateAdd :: "'w fn_env \<Rightarrow> Value list \<Rightarrow> fn_result" where
  "fnDateAdd env args = exactly 2 ''DATE_ADD'' args (nullSafe [args ! 0] (needs (ToTime (fn_rt env) (args ! 0)) (\<lambda>t.
     Inr (NewDateValue (tm_AddDate (fn_time env) t 0 0 (sint (i64 env (args ! 1))))))))"

definition fnDateSub :: "'w fn_env \<Rightarrow> Value list \<Rightarrow> fn_result" where
  "fnDateSub env args = exactly 2 ''DATE_SUB'' args (nullSafe [args ! 0] (needs (ToTime (fn_rt env) (args ! 0)) (\<lambda>t.
     Inr (NewDateValue (tm_AddDate (fn_time env) t 0 0 (sint (- i64 env (args ! 1))))))))"

definition dateLayout :: "string \<Rightarrow> string" where
  "dateLayout layout =
     foldl (\<lambda>l (old, new). ReplaceAll l old new) layout
       [(''%Y'', ''2006''), (''%m'', ''01''), (''%d'', ''02''), (''%H'', ''15''), (''%i'', ''04''), (''%s'', ''05'')]"

definition fnDateFormat :: "'w fn_env \<Rightarrow> Value list \<Rightarrow> fn_result" where
  "fnDateFormat env args = exactly 2 ''DATE_FORMAT'' args (nullSafe [args ! 0] (needs (ToTime (fn_rt env) (args ! 0)) (\<lambda>t.
     textual (rt_formatTime (fn_rt env) (dateLayout (str env (args ! 1))) t))))"

definition fnMakeDate :: "'w fn_env \<Rightarrow> Value list \<Rightarrow> fn_result" where
  "fnMakeDate env args = exactly 2 ''MAKEDATE'' args (nullSafe [args ! 0, args ! 1]
     (Inr (NewDateValue (tm_AddDate (fn_time env) (tm_Date (fn_time env) (sint (i64 env (args ! 0))) 1 1 0 0 0 0) 0 0
                           (sint (i64 env (args ! 1) - 1))))))"

definition fnMakeTime :: "'w fn_env \<Rightarrow> Value list \<Rightarrow> fn_result" where
  "fnMakeTime env args = exactly 3 ''MAKETIME'' args (nullSafe [args ! 0, args ! 1, args ! 2]
     (let second = f64 env (args ! 2);
          sec = f64_to_i64 (fn_rt env) second;
          nsec = f64_to_i64 (fn_rt env) (fm_mul (fn_math env) (fm_sub (fn_math env) second (i64_to_f64 sec)) 0x41CDCD6500000000)
      in Inr (NewDatetimeValue (tm_Date (fn_time env) 0 1 1 (sint (i64 env (args ! 0))) (sint (i64 env (args ! 1))) (sint sec) (sint nsec)))))"

definition fnLastDay :: "'w fn_env \<Rightarrow> Value list \<Rightarrow> fn_result" where
  "fnLastDay env args = exactly 1 ''LAST_DAY'' args (nullSafe [args ! 0] (needs (ToTime (fn_rt env) (args ! 0)) (\<lambda>t.
     let nextMonth = tm_AddDate (fn_time env) t 0 1 (- tm_Day (fn_time env) t + 1)
     in Inr (NewDateValue (tm_AddDate (fn_time env) nextMonth 0 0 (- 1))))))"

definition fnQuarter :: "'w fn_env \<Rightarrow> Value list \<Rightarrow> fn_result" where
  "fnQuarter = timeField ''QUARTER'' (\<lambda>tm t. (tm_Month tm t - 1) div 3 + 1)"

definition fnWeek :: "'w fn_env \<Rightarrow> Value list \<Rightarrow> fn_result" where "fnWeek = timeField ''WEEK'' tm_ISOWeek"

definition fnDayOfWeek :: "'w fn_env \<Rightarrow> Value list \<Rightarrow> fn_result" where
  "fnDayOfWeek = timeField ''DAYOFWEEK'' (\<lambda>tm t. tm_Weekday tm t + 1)"

definition fnDayOfYear :: "'w fn_env \<Rightarrow> Value list \<Rightarrow> fn_result" where "fnDayOfYear = timeField ''DAYOFYEAR'' tm_YearDay"

section \<open>Conversion and conditional functions\<close>

definition fnCast :: "'w fn_env \<Rightarrow> Value list \<Rightarrow> fn_result" where
  "fnCast env args = atLeast 2 ''CAST'' args (nullSafe [args ! 0]
     (let targetType = ToUpper (fn_rt env) (str env (args ! 1))
      in if targetType \<in> {''INT'', ''INTEGER''} then needs (ToInt64 (fn_rt env) (args ! 0)) (\<lambda>n. Inr (NewIntValue n))
         else if targetType \<in> {''FLOAT'', ''DOUBLE''} then needs (ToFloat64 (fn_rt env) (args ! 0)) floating
         else if targetType \<in> {''VARCHAR'', ''CHAR'', ''STRING'', ''TEXT''} then textual (str env (args ! 0))
         else Inl (FnText (''unsupported cast type: '' @ targetType))))"

definition fnToString :: "'w fn_env \<Rightarrow> Value list \<Rightarrow> fn_result" where
  "fnToString env args = exactly 1 ''TO_STRING'' args (nullSafe [args ! 0] (textual (str env (args ! 0))))"

definition fnToInt :: "'w fn_env \<Rightarrow> Value list \<Rightarrow> fn_result" where
  "fnToInt env args = exactly 1 ''TO_INT'' args (nullSafe [args ! 0] (needs (ToInt64 (fn_rt env) (args ! 0)) (\<lambda>n. Inr (NewIntValue n))))"

definition fnToFloat :: "'w fn_env \<Rightarrow> Value list \<Rightarrow> fn_result" where
  "fnToFloat env args = exactly 1 ''TO_FLOAT'' args (nullSafe [args ! 0] (needs (ToFloat64 (fn_rt env) (args ! 0)) floating))"

definition fnCoalesce :: "Value list \<Rightarrow> fn_result" where
  "fnCoalesce args = atLeast 1 ''COALESCE'' args (case find (\<lambda>v. \<not> IsNull v) args of Some v \<Rightarrow> Inr v | None \<Rightarrow> Inr NewNullValue)"

definition fnNullif :: "'w fn_env \<Rightarrow> Value list \<Rightarrow> fn_result" where
  "fnNullif env args = exactly 2 ''NULLIF'' args (if Compare (fn_rt env) (args ! 0) (args ! 1) = 0 then Inr NewNullValue else Inr (args ! 0))"

definition fnIf :: "'w fn_env \<Rightarrow> Value list \<Rightarrow> fn_result" where
  "fnIf env args = exactly 3 ''IF'' args (needs (ToInt64 (fn_rt env) (args ! 0)) (\<lambda>cond. if cond \<noteq> 0 then Inr (args ! 1) else Inr (args ! 2)))"

definition fnIsNull :: "Value list \<Rightarrow> fn_result" where
  "fnIsNull args = exactly 1 ''ISNULL'' args (if IsNull (args ! 0) then integer 1 else integer 0)"

definition fnIsNotNull :: "Value list \<Rightarrow> fn_result" where
  "fnIsNotNull args = exactly 1 ''IS_NOT_NULL'' args (if IsNull (args ! 0) then integer 0 else integer 1)"

definition fnTypeof :: "Value list \<Rightarrow> fn_result" where
  "fnTypeof args = exactly 1 ''TYPEOF'' args (if IsNull (args ! 0) then textual ''NULL'' else textual (DataType_String (Type (args ! 0))))"

section \<open>More numeric and string functions\<close>

function gcd64 :: "u64 \<Rightarrow> u64 \<Rightarrow> u64" where
  "gcd64 a b = (if b = 0 then a else gcd64 b (rem64 a b))"
  by pat_completeness auto
termination
proof (relation "measure (\<lambda>(a, b). nat \<bar>sint b\<bar>)")
  fix a b :: u64
  assume "b \<noteq> 0"
  then have "sint b \<noteq> 0" by (simp add: signed_eq_0_iff)
  then have "\<bar>sint (rem64 a b)\<bar> < \<bar>sint b\<bar>" by (simp add: rem64_sint abs_mult sgn_if)
  then show "((b, rem64 a b), (a, b)) \<in> measure (\<lambda>(a, b). nat \<bar>sint b\<bar>)" by simp
qed simp

declare gcd64.simps [simp del]

definition fnGcd :: "'w fn_env \<Rightarrow> Value list \<Rightarrow> fn_result" where
  "fnGcd env args = exactly 2 ''GCD'' args (nullSafe [args ! 0, args ! 1] (Inr (NewIntValue (gcd64 (i64 env (args ! 0)) (i64 env (args ! 1))))))"

text \<open>\<^verbatim>\<open>a * b / gcd(a, b)\<close> divides by zero when both are zero.\<close>

definition lcm64 :: "u64 \<Rightarrow> u64 \<Rightarrow> fault + u64" where
  "lcm64 a b = (if gcd64 a b = 0 then Inl GoPanic else Inr (div64 (a * b) (gcd64 a b)))"

definition fnLcm :: "'w fn_env \<Rightarrow> Value list \<Rightarrow> fn_result" where
  "fnLcm env args = exactly 2 ''LCM'' args (nullSafe [args ! 0, args ! 1]
     (orFault (lcm64 (i64 env (args ! 0)) (i64 env (args ! 1))) (\<lambda>n. Inr (NewIntValue n))))"

definition fnLog :: "'w fn_env \<Rightarrow> Value list \<Rightarrow> fn_result" where
  "fnLog env args = atLeast 1 ''LOG'' args (nullSafe [args ! 0]
     (let x = f64 env (args ! 0)
      in if length args = 1 then floating (fm_Log (fn_math env) x)
         else floating (rt_fdiv (fn_rt env) (fm_Log (fn_math env) x) (fm_Log (fn_math env) (f64 env (args ! 1))))))"

text \<open>The functions of one float\<close>

definition floatFn :: "string \<Rightarrow> ('w fn_env \<Rightarrow> float64 \<Rightarrow> float64) \<Rightarrow> 'w fn_env \<Rightarrow> Value list \<Rightarrow> fn_result" where
  "floatFn name f env args = exactly 1 name args (nullSafe [args ! 0] (floating (f env (f64 env (args ! 0)))))"

abbreviation f64_pi :: float64 where "f64_pi \<equiv> 0x400921FB54442D18"
abbreviation f64_180 :: float64 where "f64_180 \<equiv> 0x4066800000000000"

definition fnLog10 :: "'w fn_env \<Rightarrow> Value list \<Rightarrow> fn_result" where "fnLog10 = floatFn ''LOG10'' (\<lambda>env. fm_Log10 (fn_math env))"
definition fnLog2 :: "'w fn_env \<Rightarrow> Value list \<Rightarrow> fn_result" where "fnLog2 = floatFn ''LOG2'' (\<lambda>env. fm_Log2 (fn_math env))"
definition fnExp :: "'w fn_env \<Rightarrow> Value list \<Rightarrow> fn_result" where "fnExp = floatFn ''EXP'' (\<lambda>env. fm_Exp (fn_math env))"
definition fnSin :: "'w fn_env \<Rightarrow> Value list \<Rightarrow> fn_result" where "fnSin = floatFn ''SIN'' (\<lambda>env. fm_Sin (fn_math env))"
definition fnCos :: "'w fn_env \<Rightarrow> Value list \<Rightarrow> fn_result" where "fnCos = floatFn ''COS'' (\<lambda>env. fm_Cos (fn_math env))"
definition fnTan :: "'w fn_env \<Rightarrow> Value list \<Rightarrow> fn_result" where "fnTan = floatFn ''TAN'' (\<lambda>env. fm_Tan (fn_math env))"

definition fnRadians :: "'w fn_env \<Rightarrow> Value list \<Rightarrow> fn_result" where
  "fnRadians = floatFn ''RADIANS'' (\<lambda>env x. rt_fdiv (fn_rt env) (fm_mul (fn_math env) x f64_pi) f64_180)"

definition fnDegrees :: "'w fn_env \<Rightarrow> Value list \<Rightarrow> fn_result" where
  "fnDegrees = floatFn ''DEGREES'' (\<lambda>env x. rt_fdiv (fn_rt env) (fm_mul (fn_math env) x f64_180) f64_pi)"

definition fnConcatWs :: "'w fn_env \<Rightarrow> Value list \<Rightarrow> fn_result" where
  "fnConcatWs env args = atLeast 2 ''CONCAT_WS'' args (nullSafe [args ! 0]
     (textual (joinText (str env (args ! 0)) (map (str env) (filter (\<lambda>v. \<not> IsNull v) (tl args))))))"

definition fnSpace :: "'w fn_env \<Rightarrow> Value list \<Rightarrow> fn_result" where
  "fnSpace env args = exactly 1 ''SPACE'' args (nullSafe [args ! 0]
     (let n = sint (i64 env (args ! 0)) in orFault (Repeat '' '' (if n < 0 then 0 else n)) textual))"

definition fnStrcmp :: "'w fn_env \<Rightarrow> Value list \<Rightarrow> fn_result" where
  "fnStrcmp env args = exactly 2 ''STRCMP'' args (nullSafe [args ! 0, args ! 1]
     (let s1 = str env (args ! 0); s2 = str env (args ! 1)
      in if str_less s1 s2 then integer (- 1) else if str_less s2 s1 then integer 1 else integer 0))"

section \<open>Images and binary data\<close>

text \<open>\<^verbatim>\<open>base64\<close> decoding: line breaks are skipped, the last group may be padded; the bits left over are ignored.\<close>

definition std64 :: "char \<Rightarrow> nat option" where
  "std64 c = find (\<lambda>n. base64_char n = c) [0..<64]"

definition url64 :: "char \<Rightarrow> nat option" where
  "url64 c =
     (if c = CHR ''-'' then Some 62 else if c = CHR ''_'' then Some 63
      else case std64 c of Some n \<Rightarrow> if n < 62 then Some n else None | None \<Rightarrow> None)"

fun decode64 :: "(char \<Rightarrow> nat option) \<Rightarrow> string \<Rightarrow> bytes option" where
  "decode64 v [] = Some []"
| "decode64 v (a # b # c # d # s) =
     (case (v a, v b) of
        (Some x, Some y) \<Rightarrow>
          if s = [] \<and> d = CHR ''='' then
            if c = CHR ''='' then Some [of_nat (x * 4 + y div 16)]
            else map_option (\<lambda>z. [of_nat (x * 4 + y div 16), of_nat (y mod 16 * 16 + z div 4)]) (v c)
          else
            (case (v c, v d) of
               (Some z, Some u) \<Rightarrow>
                 map_option (\<lambda>r. of_nat (x * 4 + y div 16) # of_nat (y mod 16 * 16 + z div 4) # of_nat (z mod 4 * 64 + u) # r) (decode64 v s)
             | _ \<Rightarrow> None)
      | _ \<Rightarrow> None)"
| "decode64 v _ = None"

definition base64_decode :: "string \<Rightarrow> bytes option" where
  "base64_decode s =
     (let t = filter (\<lambda>c. c \<noteq> char_of (10 :: nat) \<and> c \<noteq> char_of (13 :: nat)) s
      in case decode64 std64 t of Some b \<Rightarrow> Some b | None \<Rightarrow> decode64 url64 t)"

record ImageInfo =
  im_Width :: int
  im_Height :: int
  im_Format :: string
  im_Size :: int
  im_Mime :: string

definition formatToMime :: "(string, string) gomap" where
  "formatToMime = [(''png'', ''image/png''), (''jpeg'', ''image/jpeg''), (''jpg'', ''image/jpeg''), (''gif'', ''image/gif''),
     (''bmp'', ''image/bmp''), (''tiff'', ''image/tiff'')]"

definition detectImageFormat :: "bytes \<Rightarrow> string" where
  "detectImageFormat d =
     (if length d < 8 then []
      else if take 4 d = [0x89, 0x50, 0x4E, 0x47] then ''png''
      else if take 3 d = [0xFF, 0xD8, 0xFF] then ''jpeg''
      else if take 4 d = [0x47, 0x49, 0x46, 0x38] then ''gif''
      else if take 2 d = [0x42, 0x4D] then ''bmp''
      else if take 2 d = [0x49, 0x49] \<or> take 2 d = [0x4D, 0x4D] then ''tiff''
      else if take 4 d = [0x52, 0x49, 0x46, 0x46] \<and> 11 < length d \<and> slice 8 12 d = [0x57, 0x45, 0x42, 0x50] then ''webp''
      else [])"

definition parseImageInfo :: "'w fn_env \<Rightarrow> bytes \<Rightarrow> ImageInfo option" where
  "parseImageInfo env d =
     (if d = [] then None
      else let (w, h, fmt) = (case fn_image env d of
                 None \<Rightarrow> (0, 0, if detectImageFormat d = [] then ''unknown'' else detectImageFormat d)
               | Some i \<Rightarrow> i);
               mime = (case map_of formatToMime fmt of Some m \<Rightarrow> m | None \<Rightarrow> ''application/octet-stream'')
           in Some \<lparr>im_Width = w, im_Height = h, im_Format = fmt, im_Size = int (length d), im_Mime = mime\<rparr>)"

definition getImageData :: "Value \<Rightarrow> bytes option" where
  "getImageData v =
     (if IsNull v then None
      else if Type v = TypeImage \<or> Type v = TypeBlob then (case Data v of GBytes b \<Rightarrow> Some b | _ \<Rightarrow> None)
      else None)"

definition imageOr :: "Value \<Rightarrow> (bytes \<Rightarrow> fn_result) \<Rightarrow> fn_result" where
  "imageOr v k = (case getImageData v of None \<Rightarrow> Inr NewNullValue | Some d \<Rightarrow> k d)"

definition infoOr :: "'w fn_env \<Rightarrow> Value \<Rightarrow> (ImageInfo \<Rightarrow> fn_result) \<Rightarrow> fn_result" where
  "infoOr env v k = imageOr v (\<lambda>d. case parseImageInfo env d of None \<Rightarrow> Inr NewNullValue | Some i \<Rightarrow> k i)"

definition fnImageFromBase64 :: "'w fn_env \<Rightarrow> Value list \<Rightarrow> fn_result" where
  "fnImageFromBase64 env args = atLeast 1 ''IMAGE_FROM_BASE64'' args (nullSafe [args ! 0]
     (let s = str env (args ! 0);
          input = (if hasPrefix s ''data:image/'' then case IndexOf s '','' of Some i \<Rightarrow> drop (i + 1) s | None \<Rightarrow> s else s)
      in case base64_decode input of None \<Rightarrow> Inl (FnText ''invalid base64 data'') | Some d \<Rightarrow> Inr (NewImageValue d)))"

definition fnImageToBase64 :: "'w fn_env \<Rightarrow> Value list \<Rightarrow> fn_result" where
  "fnImageToBase64 env args = atLeast 1 ''IMAGE_TO_BASE64'' args (imageOr (args ! 0) (\<lambda>d.
     if 1 < length args \<and> ToLower (fn_rt env) (str env (args ! 1)) = ''datauri'' then
       (case parseImageInfo env d of
          Some info \<Rightarrow> textual (''data:'' @ im_Mime info @ '';base64,'' @ base64 d)
        | None \<Rightarrow> textual (base64 d))
     else textual (base64 d)))"

definition fnImageWidth :: "'w fn_env \<Rightarrow> Value list \<Rightarrow> fn_result" where
  "fnImageWidth env args = exactly 1 ''IMAGE_WIDTH'' args (infoOr env (args ! 0) (\<lambda>i. integer (im_Width i)))"

definition fnImageHeight :: "'w fn_env \<Rightarrow> Value list \<Rightarrow> fn_result" where
  "fnImageHeight env args = exactly 1 ''IMAGE_HEIGHT'' args (infoOr env (args ! 0) (\<lambda>i. integer (im_Height i)))"

definition fnImageFormat :: "'w fn_env \<Rightarrow> Value list \<Rightarrow> fn_result" where
  "fnImageFormat env args = exactly 1 ''IMAGE_FORMAT'' args (infoOr env (args ! 0) (\<lambda>i. textual (im_Format i)))"

definition fnImageSize :: "Value list \<Rightarrow> fn_result" where
  "fnImageSize args = exactly 1 ''IMAGE_SIZE'' args (imageOr (args ! 0) (\<lambda>d. integer (int (length d))))"

definition fnImageMime :: "'w fn_env \<Rightarrow> Value list \<Rightarrow> fn_result" where
  "fnImageMime env args = exactly 1 ''IMAGE_MIME'' args (infoOr env (args ! 0) (\<lambda>i. textual (im_Mime i)))"

text \<open>The hexadecimal input of both conversions, without the prefix and blanks\<close>

definition hexInput :: "string \<Rightarrow> string" where
  "hexInput s =
     ReplaceAll (ReplaceAll (ReplaceAll (ReplaceAll (TrimPrefix (TrimPrefix s ''0x'') ''0X'') '' '' []) [char_of (10 :: nat)] [])
       [char_of (13 :: nat)] []) [char_of (9 :: nat)] []"

definition fromHex :: "string \<Rightarrow> (bytes \<Rightarrow> Value) \<Rightarrow> fn_result" where
  "fromHex s mk =
     (let input = hexInput s
      in if odd (length input) then Inl (FnText ''invalid hex string: length must be even'')
         else case hex_decode input of None \<Rightarrow> Inl (FnText ''invalid hex data'') | Some d \<Rightarrow> Inr (mk d))"

definition fnImageFromHex :: "'w fn_env \<Rightarrow> Value list \<Rightarrow> fn_result" where
  "fnImageFromHex env args = atLeast 1 ''IMAGE_FROM_HEX'' args (nullSafe [args ! 0] (fromHex (str env (args ! 0)) NewImageValue))"

definition fnImageToHex :: "Value list \<Rightarrow> fn_result" where
  "fnImageToHex args = atLeast 1 ''IMAGE_TO_HEX'' args (imageOr (args ! 0) (\<lambda>d. textual (hex_encode d)))"

definition fnBlobFromBase64 :: "'w fn_env \<Rightarrow> Value list \<Rightarrow> fn_result" where
  "fnBlobFromBase64 env args = atLeast 1 ''BLOB_FROM_BASE64'' args (nullSafe [args ! 0]
     (case base64_decode (str env (args ! 0)) of None \<Rightarrow> Inl (FnText ''invalid base64 data'') | Some d \<Rightarrow> Inr (NewBlobValue d)))"

definition blobBytes :: "string \<Rightarrow> Value \<Rightarrow> (bytes \<Rightarrow> fn_result) \<Rightarrow> fn_result" where
  "blobBytes name v k = (case Data v of GBytes b \<Rightarrow> k b | GString s \<Rightarrow> k (bytes_of s) | _ \<Rightarrow> Inl (FnText (name @ '' requires a BLOB argument'')))"

definition fnBlobToBase64 :: "Value list \<Rightarrow> fn_result" where
  "fnBlobToBase64 args = atLeast 1 ''BLOB_TO_BASE64'' args (nullSafe [args ! 0]
     (blobBytes ''BLOB_TO_BASE64'' (args ! 0) (\<lambda>d. textual (base64 d))))"

definition fnBlobFromHex :: "'w fn_env \<Rightarrow> Value list \<Rightarrow> fn_result" where
  "fnBlobFromHex env args = atLeast 1 ''BLOB_FROM_HEX'' args (nullSafe [args ! 0] (fromHex (str env (args ! 0)) NewBlobValue))"

definition fnBlobToHex :: "Value list \<Rightarrow> fn_result" where
  "fnBlobToHex args = atLeast 1 ''BLOB_TO_HEX'' args (nullSafe [args ! 0]
     (blobBytes ''BLOB_TO_HEX'' (args ! 0) (\<lambda>d. textual (hex_encode d))))"

end
