(* ===== verification/Builtins.thy ===== *)
theory Builtins
  imports Functions
begin

text \<open>
  The rest of \<^verbatim>\<open>src/function/functions.go\<close>: the functions that reach the operating system (clock, random numbers, files and folders), the
  registry of all functions and \<^verbatim>\<open>Call\<close>.
\<close>

type_synonym 'w fn_method = "('w, fn_error, Value) go_method"

definition pureFn :: "(Value list \<Rightarrow> fn_result) \<Rightarrow> Value list \<Rightarrow> 'w fn_method" where
  "pureFn f args w = (w, f args)"

section \<open>Clock and random numbers\<close>

definition fnNow :: "'w fn_env \<Rightarrow> Value list \<Rightarrow> 'w fn_method" where
  "fnNow env args w = (case os_Now (fn_os env) w of (w, t) \<Rightarrow> (w, Inr (NewDatetimeValue t)))"

definition fnCurrentDate :: "'w fn_env \<Rightarrow> Value list \<Rightarrow> 'w fn_method" where
  "fnCurrentDate env args w = (case os_Now (fn_os env) w of (w, t) \<Rightarrow> (w, Inr (NewDateValue t)))"

definition fnCurrentTime :: "'w fn_env \<Rightarrow> Value list \<Rightarrow> 'w fn_method" where
  "fnCurrentTime env args w = (case os_Now (fn_os env) w of (w, t) \<Rightarrow> (w, Inr (NewDatetimeValue t)))"

definition fnRand :: "'w fn_env \<Rightarrow> Value list \<Rightarrow> 'w fn_method" where
  "fnRand env args w = (case os_Float64 (fn_os env) w of (w, f) \<Rightarrow> (w, floating f))"

definition fnUuid :: "'w fn_env \<Rightarrow> Value list \<Rightarrow> 'w fn_method" where
  "fnUuid env args w =
     (case os_RandRead (fn_os env) 16 w of (w, b) \<Rightarrow>
        let b = b[6 := (b ! 6 AND 0x0f) OR 0x40]; u = b[8 := (b ! 8 AND 0x3f) OR 0x80]
        in (w, textual (joinText ''-'' (map hex_encode [slice 0 4 u, slice 4 6 u, slice 6 8 u, slice 8 10 u, slice 10 16 u]))))"

section \<open>Files\<close>

definition fnLoadFile :: "'w fn_env \<Rightarrow> Value list \<Rightarrow> 'w fn_method" where
  "fnLoadFile env args w = (w, exactly 1 ''LOAD_FILE'' args (nullSafe [args ! 0]
     (case os_ReadFile (fn_os env) (str env (args ! 0)) w of None \<Rightarrow> Inr NewNullValue | Some d \<Rightarrow> Inr (NewBlobValue d))))"

definition fnLoadImage :: "'w fn_env \<Rightarrow> Value list \<Rightarrow> 'w fn_method" where
  "fnLoadImage env args w = (w, exactly 1 ''LOAD_IMAGE'' args (nullSafe [args ! 0]
     (case os_ReadFile (fn_os env) (str env (args ! 0)) w of None \<Rightarrow> Inr NewNullValue | Some d \<Rightarrow> Inr (NewImageValue d))))"

definition fnFileExists :: "'w fn_env \<Rightarrow> Value list \<Rightarrow> 'w fn_method" where
  "fnFileExists env args w = (w, exactly 1 ''FILE_EXISTS'' args
     (if IsNull (args ! 0) then integer 0
      else case os_Stat (fn_os env) (str env (args ! 0)) w of Some _ \<Rightarrow> integer 1 | None \<Rightarrow> integer 0))"

definition fnFileSize :: "'w fn_env \<Rightarrow> Value list \<Rightarrow> 'w fn_method" where
  "fnFileSize env args w = (w, exactly 1 ''FILE_SIZE'' args (nullSafe [args ! 0]
     (case os_Stat (fn_os env) (str env (args ! 0)) w of None \<Rightarrow> Inr NewNullValue | Some n \<Rightarrow> Inr (NewIntValue n))))"

definition fnSaveFile :: "'w fn_env \<Rightarrow> Value list \<Rightarrow> 'w fn_method" where
  "fnSaveFile env args w =
     (if length args \<noteq> 2 then (w, Inl (FnArgs ''SAVE_FILE''))
      else if IsNull (args ! 0) \<or> IsNull (args ! 1) then (w, integer 0)
      else let data = (case (Type (args ! 1) = TypeBlob, Data (args ! 1)) of (True, GBytes b) \<Rightarrow> b | _ \<Rightarrow> bytes_of (str env (args ! 1)))
           in case os_WriteFile (fn_os env) (str env (args ! 0)) data w of (w, ok) \<Rightarrow> (w, integer (if ok then 1 else 0)))"

section \<open>Folders\<close>

datatype FolderEntry =
  FolderEntry (fo_Name: string) (fo_IsDir: bool) (fo_Size: u64) (fo_ModTime: string) (fo_Content: bytes) (fo_Children: "FolderEntry list")

text \<open>A \<^verbatim>\<open>nil\<close> file info panics at the first use; an unreadable directory has no children.\<close>

primrec readFolder :: "'w fn_env \<Rightarrow> 'w \<Rightarrow> nat \<Rightarrow> string \<Rightarrow> fault + FolderEntry list option" where
  "readFolder env w 0 path = Inl NoReturn"
| "readFolder env w (Suc n) path =
     (case os_ReadDir (fn_os env) path w of
        None \<Rightarrow> Inr None
      | Some entries \<Rightarrow>
          foldr (\<lambda>(name, isDir, info) rest.
             case info of
               None \<Rightarrow> Inl GoPanic
             | Some (sz, mtime) \<Rightarrow>
                 let full = os_Join (fn_os env) path name
                 in bindE (if isDir then readFolder env w n full else Inr None) (\<lambda>children.
                    bindE rest (\<lambda>es.
                      Inr (Some (FolderEntry name isDir sz (rt_formatTime (fn_rt env) ''2006-01-02 15:04:05'' mtime)
                             (if \<not> isDir \<and> sint sz < 10 * 1024 * 1024
                              then (case os_ReadFile (fn_os env) full w of Some d \<Rightarrow> d | None \<Rightarrow> []) else [])
                             (case children of Some c \<Rightarrow> c | None \<Rightarrow> [])
                           # (case es of Some es \<Rightarrow> es | None \<Rightarrow> []))))))
            entries (Inr (Some [])))"

fun folderJSON :: "FolderEntry \<Rightarrow> json" where
  "folderJSON (FolderEntry name isDir sz mtime content children) =
     JObj ([(''name'', json_string name), (''is_dir'', JBool isDir)]
           @ (if sz = 0 then [] else [(''size'', JInt (sint sz))])
           @ (if mtime = [] then [] else [(''mod_time'', json_string mtime)])
           @ (if content = [] then [] else [(''content'', JStr (base64 content))])
           @ (if children = [] then [] else [(''children'', JArr (map folderJSON children))]))"

definition fnLoadFolder :: "'w fn_env \<Rightarrow> Value list \<Rightarrow> 'w fn_method" where
  "fnLoadFolder env args w = (w, exactly 1 ''LOAD_FOLDER'' args (nullSafe [args ! 0]
     (let path = str env (args ! 0)
      in orFault (readFolder env w (fn_depth env) path) (\<lambda>entries.
           case entries of
             None \<Rightarrow> Inr NewNullValue
           | Some es \<Rightarrow> Inr (NewBlobValue (fn_enc env (folderJSON (FolderEntry (os_Base (fn_os env) path) True 0 [] [] es))))))))"

lemma jsonKey_size: "jsonKey k kvs = JArr js \<Longrightarrow> j \<in> set js \<Longrightarrow> size j < size (JObj kvs)"
proof -
  assume a: "jsonKey k kvs = JArr js" and j: "j \<in> set js"
  then have "(k, JArr js) \<in> set kvs" by (auto simp: jsonKey_def map_of_SomeD split: option.splits)
  then have "size (JArr js) \<le> size_list (size_prod (\<lambda>_. 0) size) kvs" by (auto dest: size_list_estimation' [where f = "size_prod (\<lambda>_. 0) size"])
  moreover have "size j < size (JArr js)" using j by (auto dest: size_list_estimation' [where f = size, OF _ order_refl])
  ultimately show ?thesis by simp
qed

text \<open>\<^verbatim>\<open>json.Unmarshal\<close> into a \<^verbatim>\<open>FolderEntry\<close>; \<^verbatim>\<open>[]byte\<close> is standard base64.\<close>

definition get_content :: "json \<Rightarrow> bytes option" where
  "get_content j =
     (case j of JNull \<Rightarrow> Some [] | JStr s \<Rightarrow> decode64 std64 (filter (\<lambda>c. c \<noteq> char_of (10 :: nat) \<and> c \<noteq> char_of (13 :: nat)) s) | _ \<Rightarrow> None)"

function folderOfJSON :: "json \<Rightarrow> FolderEntry option" where
  "folderOfJSON j =
     (case j of
        JNull \<Rightarrow> Some (FolderEntry [] False 0 [] [] [])
      | JObj kvs \<Rightarrow>
          Option.bind (get_string (jsonKey ''name'' kvs)) (\<lambda>name.
          Option.bind (get_bool (jsonKey ''is_dir'' kvs)) (\<lambda>isDir.
          Option.bind (get_int64 (jsonKey ''size'' kvs)) (\<lambda>sz.
          Option.bind (get_string (jsonKey ''mod_time'' kvs)) (\<lambda>mtime.
          Option.bind (get_content (jsonKey ''content'' kvs)) (\<lambda>content.
          map_option (\<lambda>children. FolderEntry name isDir sz mtime content children)
            (case jsonKey ''children'' kvs of JNull \<Rightarrow> Some [] | JArr js \<Rightarrow> map_all folderOfJSON js | _ \<Rightarrow> None))))))
      | _ \<Rightarrow> None)"
  by pat_completeness auto
termination
  by (relation "measure size") (use jsonKey_size in auto)

declare folderOfJSON.simps [simp del]

text \<open>The argument of the functions that read folder data: a \<^verbatim>\<open>BLOB\<close> without bytes panics.\<close>

definition folderData :: "'w fn_env \<Rightarrow> Value \<Rightarrow> fault + bytes" where
  "folderData env v =
     (if Type v = TypeBlob then (case Data v of GBytes b \<Rightarrow> Inr b | _ \<Rightarrow> Inl GoPanic) else Inr (bytes_of (str env v)))"

definition folderRoot :: "'w fn_env \<Rightarrow> bytes \<Rightarrow> FolderEntry option" where
  "folderRoot env d = Option.bind (fn_dec env d) folderOfJSON"

fun writeFolder :: "'w fn_env \<Rightarrow> string \<Rightarrow> FolderEntry list \<Rightarrow> 'w \<Rightarrow> 'w \<times> bool" where
  "writeFolder env base [] w = (w, True)"
| "writeFolder env base (FolderEntry name isDir sz mtime content children # es) w =
     (let full = os_Join (fn_os env) base name;
          (w, ok) = (if isDir then
                       (case os_MkdirAll (fn_os env) full w of
                          (w, False) \<Rightarrow> (w, False)
                        | (w, True) \<Rightarrow> if children \<noteq> [] then writeFolder env full children w else (w, True))
                     else if content \<noteq> [] then os_WriteFile (fn_os env) full content w else (w, True))
      in if ok then writeFolder env base es w else (w, False))"

definition fnExportFolder :: "'w fn_env \<Rightarrow> Value list \<Rightarrow> 'w fn_method" where
  "fnExportFolder env args w =
     (if length args \<noteq> 2 then (w, Inl (FnArgs ''EXPORT_FOLDER''))
      else if IsNull (args ! 0) \<or> IsNull (args ! 1) then (w, integer 0)
      else case folderData env (args ! 0) of
             Inl f \<Rightarrow> (w, Inl (FnFault f))
           | Inr d \<Rightarrow>
               (case folderRoot env d of
                  None \<Rightarrow> (w, integer 0)
                | Some root \<Rightarrow>
                    let target = str env (args ! 1)
                    in (case os_MkdirAll (fn_os env) target w of
                          (w, False) \<Rightarrow> (w, integer 0)
                        | (w, True) \<Rightarrow> (case writeFolder env target (fo_Children root) w of (w, ok) \<Rightarrow> (w, integer (if ok then 1 else 0))))))"

text \<open>\<^verbatim>\<open>formatSize\<close>\<close>

definition formatSize :: "'w fn_env \<Rightarrow> u64 \<Rightarrow> string" where
  "formatSize env sz =
     (let scaled = (\<lambda>unit suffix. fm_fmt1 (fn_math env) (rt_fdiv (fn_rt env) (i64_to_f64 sz) unit) @ suffix)
      in if sint sz < 1024 then dec_int (sint sz) @ ''B''
         else if sint sz < 1024 * 1024 then scaled 0x4090000000000000 ''KB''
         else if sint sz < 1024 * 1024 * 1024 then scaled 0x4130000000000000 ''MB''
         else scaled 0x41D0000000000000 ''GB'')"

fun listFolder :: "'w fn_env \<Rightarrow> nat \<Rightarrow> FolderEntry list \<Rightarrow> string" where
  "listFolder env indent [] = []"
| "listFolder env indent (FolderEntry name isDir sz mtime content children # es) =
     (let pre = concat (replicate indent ''  '')
      in if isDir then pre @ ''[d] '' @ name @ ''/'' @ [char_of (10 :: nat)]
                       @ (if children \<noteq> [] then listFolder env (Suc indent) children else [])
         else pre @ ''[f] '' @ name @ '' ('' @ formatSize env sz @ '')'' @ [char_of (10 :: nat)])
     @ listFolder env indent es"

fun countFiles :: "FolderEntry list \<Rightarrow> nat" where
  "countFiles [] = 0"
| "countFiles (FolderEntry name isDir sz mtime content children # es) = (if isDir then countFiles children else 1) + countFiles es"

definition folderOr :: "'w fn_env \<Rightarrow> Value \<Rightarrow> (FolderEntry \<Rightarrow> fn_result) \<Rightarrow> fn_result" where
  "folderOr env v k = orFault (folderData env v) (\<lambda>d. case folderRoot env d of None \<Rightarrow> Inr NewNullValue | Some root \<Rightarrow> k root)"

definition fnListFolder :: "'w fn_env \<Rightarrow> Value list \<Rightarrow> fn_result" where
  "fnListFolder env args = exactly 1 ''LIST_FOLDER'' args (nullSafe [args ! 0]
     (folderOr env (args ! 0) (\<lambda>root. textual (listFolder env 0 (fo_Children root)))))"

definition fnFolderFiles :: "'w fn_env \<Rightarrow> Value list \<Rightarrow> fn_result" where
  "fnFolderFiles env args = exactly 1 ''FOLDER_FILES'' args (nullSafe [args ! 0]
     (folderOr env (args ! 0) (\<lambda>root. integer (int (countFiles (fo_Children root))))))"

section \<open>The registry\<close>

text \<open>The functions that only look at their arguments, and those that reach the operating system\<close>

definition pureFunctions :: "(string \<times> ('w fn_env \<Rightarrow> Value list \<Rightarrow> fn_result)) list" where
  "pureFunctions =
    [(''CONCAT'', fnConcat), (''LENGTH'', fnLength), (''LEN'', fnLength), (''BYTE_LENGTH'', fnByteLength), (''OCTET_LENGTH'', fnByteLength),
     (''CHAR_LENGTH'', fnLength), (''CHARACTER_LENGTH'', fnLength), (''UPPER'', fnUpper), (''LOWER'', fnLower), (''TRIM'', fnTrim),
     (''LTRIM'', fnLTrim), (''RTRIM'', fnRTrim), (''SUBSTRING'', fnSubstring), (''SUBSTR'', fnSubstring), (''LEFT'', fnLeft), (''RIGHT'', fnRight),
     (''REPLACE'', fnReplace), (''INSTR'', fnInstr), (''LPAD'', fnLpad), (''RPAD'', fnRpad), (''REVERSE'', fnReverse), (''REPEAT'', fnRepeat),
     (''ABS'', fnAbs), (''ROUND'', fnRound), (''FLOOR'', fnFloor), (''CEIL'', fnCeil), (''CEILING'', fnCeil), (''POWER'', fnPower), (''POW'', fnPower),
     (''SQRT'', fnSqrt), (''MOD'', fnMod), (''SIGN'', fnSign),
     (''COUNT'', \<lambda>env. fnCount), (''SUM'', fnSum), (''AVG'', fnAvg), (''MIN'', fnMin), (''MAX'', fnMax),
     (''DATE'', fnDate), (''YEAR'', fnYear), (''MONTH'', fnMonth), (''DAY'', fnDay), (''HOUR'', fnHour), (''MINUTE'', fnMinute), (''SECOND'', fnSecond),
     (''DATEDIFF'', fnDateDiff), (''DATE_ADD'', fnDateAdd), (''DATE_SUB'', fnDateSub), (''DATE_FORMAT'', fnDateFormat),
     (''CAST'', fnCast), (''CONVERT'', fnCast), (''TO_STRING'', fnToString), (''TO_INT'', fnToInt), (''TO_FLOAT'', fnToFloat),
     (''COALESCE'', \<lambda>env. fnCoalesce), (''IFNULL'', \<lambda>env. fnCoalesce), (''NULLIF'', fnNullif), (''IF'', fnIf), (''IIF'', fnIf),
     (''ISNULL'', \<lambda>env. fnIsNull), (''IS_NOT_NULL'', \<lambda>env. fnIsNotNull), (''TYPEOF'', \<lambda>env. fnTypeof),
     (''LIST_FOLDER'', fnListFolder), (''FOLDER_FILES'', fnFolderFiles),
     (''GCD'', fnGcd), (''LCM'', fnLcm), (''LOG'', fnLog), (''LOG10'', fnLog10), (''LOG2'', fnLog2), (''EXP'', fnExp), (''RADIANS'', fnRadians),
     (''DEGREES'', fnDegrees), (''SIN'', fnSin), (''COS'', fnCos), (''TAN'', fnTan),
     (''CONCAT_WS'', fnConcatWs), (''SPACE'', fnSpace), (''STRCMP'', fnStrcmp),
     (''MAKEDATE'', fnMakeDate), (''MAKETIME'', fnMakeTime), (''LAST_DAY'', fnLastDay), (''QUARTER'', fnQuarter), (''WEEK'', fnWeek),
     (''DAYOFWEEK'', fnDayOfWeek), (''DAYOFYEAR'', fnDayOfYear),
     (''IMAGE_FROM_BASE64'', fnImageFromBase64), (''IMAGE_TO_BASE64'', fnImageToBase64), (''IMAGE_WIDTH'', fnImageWidth),
     (''IMAGE_HEIGHT'', fnImageHeight), (''IMAGE_FORMAT'', fnImageFormat), (''IMAGE_SIZE'', \<lambda>env. fnImageSize), (''IMAGE_MIME'', fnImageMime),
     (''IMAGE_FROM_HEX'', fnImageFromHex), (''IMAGE_TO_HEX'', \<lambda>env. fnImageToHex),
     (''BLOB_FROM_BASE64'', fnBlobFromBase64), (''BLOB_TO_BASE64'', \<lambda>env. fnBlobToBase64), (''BLOB_FROM_HEX'', fnBlobFromHex),
     (''BLOB_TO_HEX'', \<lambda>env. fnBlobToHex)]"

definition osFunctions :: "(string \<times> ('w fn_env \<Rightarrow> Value list \<Rightarrow> 'w fn_method)) list" where
  "osFunctions =
    [(''NOW'', fnNow), (''CURRENT_DATE'', fnCurrentDate), (''CURRENT_TIME'', fnCurrentTime), (''RAND'', fnRand), (''RANDOM'', fnRand), (''UUID'', fnUuid),
     (''LOAD_FILE'', fnLoadFile), (''FILE_EXISTS'', fnFileExists), (''FILE_SIZE'', fnFileSize), (''SAVE_FILE'', fnSaveFile),
     (''LOAD_FOLDER'', fnLoadFolder), (''EXPORT_FOLDER'', fnExportFolder), (''LOAD_IMAGE'', fnLoadImage)]"

definition Registry :: "'w fn_env \<Rightarrow> (string, Value list \<Rightarrow> 'w fn_method) gomap" where
  "Registry env = map (map_prod id (\<lambda>f. pureFn (f env))) pureFunctions @ map (map_prod id (\<lambda>f. f env)) osFunctions"

definition Fn_Get :: "'w fn_env \<Rightarrow> string \<Rightarrow> (Value list \<Rightarrow> 'w fn_method) option" where
  "Fn_Get env name = map_of (Registry env) (ToUpper (fn_rt env) name)"

definition Fn_Call :: "'w fn_env \<Rightarrow> string \<Rightarrow> Value list \<Rightarrow> 'w fn_method" where
  "Fn_Call env name args w = (case Fn_Get env name of None \<Rightarrow> (w, Inl (FnUnknown name)) | Some fn \<Rightarrow> fn args w)"

definition IsAggregate :: "go_rt \<Rightarrow> string \<Rightarrow> bool" where
  "IsAggregate rt name \<longleftrightarrow> ToUpper rt name \<in> {''COUNT'', ''SUM'', ''AVG'', ''MIN'', ''MAX''}"

end
