(* ===== verification/Script.thy ===== *)
theory Script
  imports GoLib
begin

text \<open>
  \<^verbatim>\<open>src/script/script.go\<close>: functions whose name starts with \<^verbatim>\<open>xx_\<close> are texts stored in the table \<^verbatim>\<open>xxscript\<close>. A call replaces \<^verbatim>\<open>$1\<close>, \<^verbatim>\<open>$2\<close>, ...
  by the texts of the arguments and reads the result as a literal or as an arithmetic expression. The recursive descent over
  the tokens has fuel; \<open>script_parseExpression_returns\<close> shows that the fuel given is never used up.
\<close>

section \<open>Arithmetic expressions\<close>

datatype script_error = ScriptNotFound string | ScriptInvalid | ScriptFuel

fun tokenizeLoop :: "string \<Rightarrow> string \<Rightarrow> string list" where
  "tokenizeLoop current [] = (if current \<noteq> [] then [current] else [])"
| "tokenizeLoop current (c # s) =
     (if c = CHR '' '' \<or> c = char_of (9 :: nat) then (if current \<noteq> [] then [current] else []) @ tokenizeLoop [] s
      else if c \<in> set ''+-*/()'' then (if current \<noteq> [] then [current] else []) @ [c] # tokenizeLoop [] s
      else tokenizeLoop (current @ [c]) s)"

definition script_tokenize :: "string \<Rightarrow> string list" where
  "script_tokenize expr = tokenizeLoop [] expr"

text \<open>The three closures share the position in the tokens; here each returns the tokens it leaves.\<close>

type_synonym calc = "script_error + (float64 \<times> string list)"

primrec termLoop :: "go_rt \<Rightarrow> go_math \<Rightarrow> (string list \<Rightarrow> calc) \<Rightarrow> nat \<Rightarrow> float64 \<Rightarrow> string list \<Rightarrow> calc" where
  "termLoop rt fm factor 0 left ts = Inl ScriptFuel"
| "termLoop rt fm factor (Suc n) left ts =
     (case ts of
        [] \<Rightarrow> Inr (left, ts)
      | op # us \<Rightarrow>
          if op = ''*'' \<or> op = ''/'' then
            bindE (factor us) (\<lambda>(right, ts).
              if op = ''*'' then termLoop rt fm factor n (fm_mul fm left right) ts
              else if f64_eq right 0 then Inl ScriptInvalid
              else termLoop rt fm factor n (rt_fdiv rt left right) ts)
          else Inr (left, ts))"

definition parseTerm :: "go_rt \<Rightarrow> go_math \<Rightarrow> (string list \<Rightarrow> calc) \<Rightarrow> string list \<Rightarrow> calc" where
  "parseTerm rt fm factor ts = bindE (factor ts) (\<lambda>(left, ts). termLoop rt fm factor (Suc (length ts)) left ts)"

primrec exprLoop :: "go_rt \<Rightarrow> go_math \<Rightarrow> (string list \<Rightarrow> calc) \<Rightarrow> nat \<Rightarrow> float64 \<Rightarrow> string list \<Rightarrow> calc" where
  "exprLoop rt fm factor 0 left ts = Inl ScriptFuel"
| "exprLoop rt fm factor (Suc n) left ts =
     (case ts of
        [] \<Rightarrow> Inr (left, ts)
      | op # us \<Rightarrow>
          if op = ''+'' \<or> op = ''-'' then
            bindE (parseTerm rt fm factor us) (\<lambda>(right, ts).
              exprLoop rt fm factor n (if op = ''+'' then fm_add fm left right else fm_sub fm left right) ts)
          else Inr (left, ts))"

definition parseExpr :: "go_rt \<Rightarrow> go_math \<Rightarrow> (string list \<Rightarrow> calc) \<Rightarrow> string list \<Rightarrow> calc" where
  "parseExpr rt fm factor ts =
     bindE (parseTerm rt fm factor ts) (\<lambda>(left, ts). exprLoop rt fm factor (Suc (length ts)) left ts)"

primrec parseFactor :: "go_rt \<Rightarrow> go_math \<Rightarrow> nat \<Rightarrow> string list \<Rightarrow> calc" where
  "parseFactor rt fm 0 ts = Inl ScriptFuel"
| "parseFactor rt fm (Suc n) ts =
     (case ts of
        [] \<Rightarrow> Inl ScriptInvalid
      | token # us \<Rightarrow>
          if token = ''('' then
            bindE (parseExpr rt fm (parseFactor rt fm n) us) (\<lambda>(result, ts).
              case ts of
                [] \<Rightarrow> Inl ScriptInvalid
              | close # ts \<Rightarrow> if close \<noteq> '')'' then Inl ScriptInvalid else Inr (result, ts))
          else if token = ''-'' then bindE (parseFactor rt fm n us) (\<lambda>(val, ts). Inr (fneg val, ts))
          else case rt_parseFloat rt token of None \<Rightarrow> Inl ScriptInvalid | Some val \<Rightarrow> Inr (val, us))"

definition script_parseExpression :: "go_rt \<Rightarrow> go_math \<Rightarrow> string list \<Rightarrow> script_error + float64" where
  "script_parseExpression rt fm tokens =
     bindE (parseExpr rt fm (parseFactor rt fm (Suc (length tokens))) tokens) (\<lambda>(v, _). Inr v)"

definition evaluateArithmetic :: "go_rt \<Rightarrow> go_math \<Rightarrow> string \<Rightarrow> script_error + Value" where
  "evaluateArithmetic rt fm expr =
     (let tokens = script_tokenize expr
      in if tokens = [] then Inl ScriptInvalid else bindE (script_parseExpression rt fm tokens) (\<lambda>f. Inr (NewFloatValue f)))"

section \<open>The manager\<close>

type_synonym ScriptManager = "(string, string) gomap"

definition Script_Register :: "go_rt \<Rightarrow> string \<Rightarrow> string \<Rightarrow> ScriptManager \<Rightarrow> ScriptManager" where
  "Script_Register rt name script m = put_key (ToLower rt name) script m"

definition Script_Get :: "go_rt \<Rightarrow> string \<Rightarrow> ScriptManager \<Rightarrow> string option" where
  "Script_Get rt name m = map_of m (ToLower rt name)"

definition Script_Remove :: "go_rt \<Rightarrow> string \<Rightarrow> ScriptManager \<Rightarrow> ScriptManager" where
  "Script_Remove rt name m = del_key (ToLower rt name) m"

definition Script_List :: "ScriptManager \<Rightarrow> string list" where
  "Script_List m = keys_of m"

text \<open>\<^verbatim>\<open>^-?\d+$\<close> and \<^verbatim>\<open>^-?\d+\.\d+$\<close>\<close>

definition unsign :: "string \<Rightarrow> string" where
  "unsign s = (if s \<noteq> [] \<and> hd s = CHR ''-'' then tl s else s)"

definition isInteger :: "string \<Rightarrow> bool" where
  "isInteger s \<longleftrightarrow> unsign s \<noteq> [] \<and> list_all is_digit_char (unsign s)"

definition isDecimal :: "string \<Rightarrow> bool" where
  "isDecimal s \<longleftrightarrow>
     (let whole = takeWhile is_digit_char (unsign s); rest = dropWhile is_digit_char (unsign s)
      in whole \<noteq> [] \<and> rest \<noteq> [] \<and> hd rest = CHR ''.'' \<and> tl rest \<noteq> [] \<and> list_all is_digit_char (tl rest))"

definition quotedBy :: "char \<Rightarrow> string \<Rightarrow> bool" where
  "quotedBy q s \<longleftrightarrow> hasPrefix s [q] \<and> hasSuffix s [q]"

text \<open>The slice \<^verbatim>\<open>expr[1 : len(expr)-1]\<close> of a text that is a single quote panics.\<close>

definition script_evaluate :: "go_rt \<Rightarrow> go_math \<Rightarrow> string \<Rightarrow> fault + Value" where
  "script_evaluate rt fm expr0 =
     (let expr = TrimSpace rt expr0; low = ToLower rt expr
      in if expr = [] then Inr NewNullValue
         else if quotedBy (CHR 0x27) expr \<or> quotedBy (CHR 0x22) expr
         then (if length expr < 2 then Inl GoPanic else Inr (NewStringValue (butlast (tl expr))))
         else if isInteger expr then Inr (NewIntValue (ParseIntSat expr))
         else if isDecimal expr then Inr (NewFloatValue (case rt_parseFloat rt expr of Some f \<Rightarrow> f | None \<Rightarrow> fm_parseErr fm expr))
         else if low \<in> {''true'', ''yes'', ''1''} then Inr (NewBoolValue True)
         else if low \<in> {''false'', ''no'', ''0''} then Inr (NewBoolValue False)
         else if low \<in> {''null'', ''nil''} then Inr NewNullValue
         else if list_ex (\<lambda>c. c \<in> set ''+-*/'') expr
         then (case evaluateArithmetic rt fm expr of Inr v \<Rightarrow> Inr v | Inl _ \<Rightarrow> Inr (NewStringValue expr))
         else Inr (NewStringValue expr))"

definition bindArgs :: "go_rt \<Rightarrow> string \<Rightarrow> Value list \<Rightarrow> string" where
  "bindArgs rt script args =
     foldl (\<lambda>result (i, arg).
              ReplaceAll (ReplaceAll result (''${'' @ dec_nat (i + 1) @ ''}'') (ToString rt arg)) (CHR ''$'' # dec_nat (i + 1)) (ToString rt arg))
           script (enumerate 0 args)"

definition Script_Execute :: "go_rt \<Rightarrow> go_math \<Rightarrow> string \<Rightarrow> Value list \<Rightarrow> ScriptManager \<Rightarrow> fault + (script_error + Value)" where
  "Script_Execute rt fm name args m =
     (case Script_Get rt name m of
        None \<Rightarrow> Inr (Inl (ScriptNotFound name))
      | Some script \<Rightarrow> bindE (script_evaluate rt fm (bindArgs rt script args)) (\<lambda>v. Inr (Inr v)))"

definition IsScriptFunc :: "go_rt \<Rightarrow> string \<Rightarrow> bool" where
  "IsScriptFunc rt name \<longleftrightarrow> hasPrefix (ToLower rt name) ''xx_''"

section \<open>Every expression is read to an end\<close>

text \<open>
  A run with fuel \<open>n\<close> on the tokens \<open>ts\<close> returns and leaves fewer tokens (\<open>strict\<close>) or at most as many.
\<close>

definition settles :: "bool \<Rightarrow> string list \<Rightarrow> calc \<Rightarrow> bool" where
  "settles strict ts r \<longleftrightarrow>
     (case r of Inl e \<Rightarrow> e \<noteq> ScriptFuel
      | Inr (v, us) \<Rightarrow> if strict then length us < length ts else length us \<le> length ts)"

lemma settles_bind:
  assumes "settles strict ts r"
    and "\<And>v us. (if strict then length us < length ts else length us \<le> length ts) \<Longrightarrow> settles b ts' (k v us)"
  shows "settles b ts' (bindE r (\<lambda>(v, us). k v us))"
proof (cases r)
  case (Inl e)
  with assms(1) show ?thesis by (simp add: settles_def)
next
  case (Inr p)
  then obtain v us where r: "r = Inr (v, us)" by (cases p) simp
  with assms(1) have "if strict then length us < length ts else length us \<le> length ts" by (simp add: settles_def)
  then show ?thesis using assms(2) [of us v] by (simp add: r)
qed

lemma settles_weaken: "settles b us r \<Longrightarrow> length us < length ts \<or> length us \<le> length ts \<and> (c \<longrightarrow> b) \<Longrightarrow> settles c ts r"
  by (auto simp: settles_def split: sum.splits if_splits)

lemma settles_Inr [simp]: "settles b ts (Inr (v, us)) \<longleftrightarrow> (if b then length us < length ts else length us \<le> length ts)"
  and settles_Invalid [simp]: "settles b ts (Inl ScriptInvalid)"
  by (simp_all add: settles_def)

lemma termLoop_settles:
  assumes "\<And>us. length us \<le> k \<Longrightarrow> settles True us (factor us)" "length ts \<le> k" "length ts < n"
  shows "settles False ts (termLoop rt fm factor n left ts)"
  using assms(2,3)
proof (induction n arbitrary: left ts)
  case (Suc n)
  show ?case
  proof (cases ts)
    case (Cons op us)
    have "settles False ts (bindE (factor us) (\<lambda>(right, ts).
              if op = ''*'' then termLoop rt fm factor n (fm_mul fm left right) ts
              else if f64_eq right 0 then Inl ScriptInvalid
              else termLoop rt fm factor n (rt_fdiv rt left right) ts))"
      by (rule settles_bind [OF assms(1)]) (use Suc Cons in \<open>auto intro!: settles_weaken [OF Suc.IH]\<close>)
    then show ?thesis by (simp add: Cons del: bindE_simps)
  qed simp
qed simp

lemma parseTerm_settles:
  assumes "\<And>us. length us \<le> k \<Longrightarrow> settles True us (factor us)" "length ts \<le> k"
  shows "settles True ts (parseTerm rt fm factor ts)"
  unfolding parseTerm_def
  by (rule settles_bind [OF assms(1)]) (use assms in \<open>auto intro!: settles_weaken [OF termLoop_settles [of k]] simp del: termLoop.simps\<close>)

lemma exprLoop_settles:
  assumes "\<And>us. length us \<le> k \<Longrightarrow> settles True us (factor us)" "length ts \<le> k" "length ts < n"
  shows "settles False ts (exprLoop rt fm factor n left ts)"
  using assms(2,3)
proof (induction n arbitrary: left ts)
  case (Suc n)
  show ?case
  proof (cases ts)
    case (Cons op us)
    have "settles False ts (bindE (parseTerm rt fm factor us) (\<lambda>(right, ts).
              exprLoop rt fm factor n (if op = ''+'' then fm_add fm left right else fm_sub fm left right) ts))"
      by (rule settles_bind [OF parseTerm_settles [OF assms(1)]]) (use Suc Cons in \<open>auto intro!: settles_weaken [OF Suc.IH]\<close>)
    then show ?thesis by (simp add: Cons del: bindE_simps)
  qed simp
qed simp

lemma parseExpr_settles:
  assumes "\<And>us. length us \<le> k \<Longrightarrow> settles True us (factor us)" "length ts \<le> k"
  shows "settles True ts (parseExpr rt fm factor ts)"
  unfolding parseExpr_def
  by (rule settles_bind [OF parseTerm_settles [OF assms]]) (use assms in \<open>auto intro!: settles_weaken [OF exprLoop_settles [of k]] simp del: exprLoop.simps\<close>)

lemma parseFactor_settles: "length ts < n \<Longrightarrow> settles True ts (parseFactor rt fm n ts)"
proof (induction n arbitrary: ts)
  case (Suc n)
  show ?case
  proof (cases ts)
    case (Cons token us)
    have "settles True ts (bindE (parseExpr rt fm (parseFactor rt fm n) us) (\<lambda>(result, ts).
            case ts of [] \<Rightarrow> Inl ScriptInvalid
            | close # ts \<Rightarrow> if close \<noteq> '')'' then Inl ScriptInvalid else Inr (result, ts)))"
      by (rule settles_bind [OF parseExpr_settles [of "length us"]]) (use Suc Cons in \<open>auto split: list.split\<close>)
    moreover have "settles True ts (bindE (parseFactor rt fm n us) (\<lambda>(val, ts). Inr (fneg val, ts)))"
      by (rule settles_bind [OF Suc.IH]) (use Suc.prems Cons in auto)
    ultimately show ?thesis by (auto simp: Cons simp del: bindE_simps split: option.split)
  qed simp
qed simp

lemma script_parseExpression_returns: "script_parseExpression rt fm tokens \<noteq> Inl ScriptFuel"
  using parseExpr_settles [of "length tokens" "parseFactor rt fm (Suc (length tokens))" tokens rt fm] parseFactor_settles [of _ "Suc (length tokens)"]
  by (auto simp: script_parseExpression_def settles_def split: sum.splits)

end
