(* ===== verification/Eval.thy ===== *)
theory Eval
  imports Statements FullText Auth Builtins Script
begin

text \<open>
  \<^verbatim>\<open>src/executor/executor.go\<close>, first part: the engine and the evaluation of expressions on a row. An evaluation is a method on the engine: functions
  read and change the operating system, script functions are loaded from the table \<^verbatim>\<open>xxscript\<close> into a cache; it ends with a value or a fault
  (a panic or a loop without end). An expression denotes an evaluator, a function of the row, of the positions of the columns and of the row's id.
\<close>

section \<open>The engine\<close>

record 'w Engine =
  en_storage :: Storage
  en_auth :: Auth
  en_scripts :: ScriptManager
  en_fts :: Manager
  en_currentDB :: string
  en_world :: 'w

record 'w eng_env =
  ee_senv :: senv
  ee_fn :: "'w fn_env"
  ee_fts :: fts_env
  ee_path :: string

abbreviation ert :: "'w eng_env \<Rightarrow> go_rt" where "ert env \<equiv> fn_rt (ee_fn env)"

type_synonym ('w, 'a) eval = "('w Engine, fault, 'a) go_method"
type_synonym colIndex = "(string, nat) gomap"
type_synonym 'w evaluator = "Value list \<Rightarrow> colIndex \<Rightarrow> u64 \<Rightarrow> ('w, Value) eval"

definition zeroValue :: Value where
  "zeroValue = \<lparr>Type = TypeUnknown, Data = GNil, IsNull = False, ValueBlobRef = None\<rparr>"

definition nthOr :: "'a \<Rightarrow> 'a list \<Rightarrow> nat \<Rightarrow> 'a" where
  "nthOr z xs i = (if i < length xs then xs ! i else z)"

text \<open>\<^verbatim>\<open>colIndex[strings.ToLower(name)]\<close>: a name that is no column has index 0\<close>

definition colAt :: "go_rt \<Rightarrow> colIndex \<Rightarrow> string \<Rightarrow> nat" where
  "colAt rt colIndex name = getD 0 colIndex (ToLower rt name)"

text \<open>Running methods over a list, in order\<close>

primrec mapS :: "('a \<Rightarrow> ('s, 'e, 'b) go_method) \<Rightarrow> 'a list \<Rightarrow> ('s, 'e, 'b list) go_method" where
  "mapS f [] = returnS []"
| "mapS f (x # xs) = bindS (f x) (\<lambda>y. bindS (mapS f xs) (\<lambda>ys. returnS (y # ys)))"

primrec filterS :: "('a \<Rightarrow> ('s, 'e, bool) go_method) \<Rightarrow> 'a list \<Rightarrow> ('s, 'e, 'a list) go_method" where
  "filterS p [] = returnS []"
| "filterS p (x # xs) = bindS (p x) (\<lambda>b. bindS (filterS p xs) (\<lambda>ys. returnS (if b then x # ys else ys)))"

section \<open>Functions\<close>

definition callFunction :: "'w eng_env \<Rightarrow> string \<Rightarrow> Value list \<Rightarrow> 'w Engine \<Rightarrow> 'w Engine \<times> (fault + (fn_error + Value))" where
  "callFunction env name values e =
     (case Fn_Call (ee_fn env) name values (en_world e) of
        (w, Inl (FnFault f)) \<Rightarrow> (e\<lparr>en_world := w\<rparr>, Inl f)
      | (w, r) \<Rightarrow> (e\<lparr>en_world := w\<rparr>, Inr r))"

definition orNull :: "fn_error + Value \<Rightarrow> Value" where
  "orNull r = (case r of Inr v \<Rightarrow> v | Inl _ \<Rightarrow> NewNullValue)"

definition scriptRow :: "go_rt \<Rightarrow> string \<Rightarrow> Value list \<Rightarrow> bool" where
  "scriptRow rt name row \<longleftrightarrow> 2 \<le> length row \<and> ToLower rt (ToString rt (row ! 0)) = ToLower rt name"

definition loadScript :: "'w eng_env \<Rightarrow> string \<Rightarrow> ('w, unit) eval" where
  "loadScript env name e =
     (case Script_Get (ert env) name (en_scripts e) of
        Some _ \<Rightarrow> (e, Inr ())
      | None \<Rightarrow>
          (case GetRows (ee_senv env) ''xxscript'' (en_storage e) of
             (s, Inl STPanic) \<Rightarrow> (e\<lparr>en_storage := s\<rparr>, Inl GoPanic)
           | (s, Inl _) \<Rightarrow> (e\<lparr>en_storage := s\<rparr>, Inr ())
           | (s, Inr rows) \<Rightarrow>
               (case List.find (scriptRow (ert env) name) rows of
                  None \<Rightarrow> (e\<lparr>en_storage := s\<rparr>, Inr ())
                | Some row \<Rightarrow>
                    (e\<lparr>en_storage := s, en_scripts := Script_Register (ert env) name (ToString (ert env) (row ! 1)) (en_scripts e)\<rparr>, Inr ()))))"

definition evalScriptFunc :: "'w eng_env \<Rightarrow> string \<Rightarrow> Value list \<Rightarrow> ('w, Value) eval" where
  "evalScriptFunc env name args = bindS (loadScript env name) (\<lambda>_ e.
     (e, case Script_Execute (ert env) (fn_math (ee_fn env)) name args (en_scripts e) of
           Inl f \<Rightarrow> Inl f
         | Inr (Inl _) \<Rightarrow> Inr NewNullValue
         | Inr (Inr v) \<Rightarrow> Inr v))"

definition evalFunction :: "'w eng_env \<Rightarrow> string \<Rightarrow> 'w evaluator list \<Rightarrow> 'w evaluator" where
  "evalFunction env name args row colIndex rowID =
     bindS (mapS (\<lambda>arg. arg row colIndex rowID) args) (\<lambda>values.
       if IsScriptFunc (ert env) name then evalScriptFunc env name values
       else bindS (callFunction env name values) (\<lambda>r. returnS (orNull r)))"

section \<open>System variables\<close>

definition sysVars :: "(string, Value) gomap" where
  "sysVars =
     [(''auto_increment_increment'', NewIntValue 1),
      (''character_set_client'', NewStringValue ''utf8mb4''), (''character_set_connection'', NewStringValue ''utf8mb4''),
      (''character_set_results'', NewStringValue ''utf8mb4''), (''character_set_server'', NewStringValue ''utf8mb4''),
      (''collation_server'', NewStringValue ''utf8mb4_general_ci''), (''init_connect'', NewStringValue []),
      (''interactive_timeout'', NewIntValue 28800), (''license'', NewStringValue ''GPL''), (''lower_case_table_names'', NewIntValue 0),
      (''max_allowed_packet'', NewIntValue 4194304), (''net_buffer_length'', NewIntValue 16384), (''net_write_timeout'', NewIntValue 60),
      (''query_cache_size'', NewIntValue 0), (''query_cache_type'', NewStringValue ''OFF''), (''sql_mode'', NewStringValue []),
      (''system_time_zone'', NewStringValue ''UTC''), (''time_zone'', NewStringValue ''SYSTEM''),
      (''tx_isolation'', NewStringValue ''REPEATABLE-READ''), (''transaction_isolation'', NewStringValue ''REPEATABLE-READ''),
      (''wait_timeout'', NewIntValue 28800), (''version'', NewStringValue ''5.7.42''), (''version_comment'', NewStringValue ''XxLdb'')]"

definition evalSystemVariable :: "go_rt \<Rightarrow> string \<Rightarrow> Value" where
  "evalSystemVariable rt name =
     (let n = TrimPrefix (TrimPrefix (TrimPrefix (ToLower rt name) ''@@'') ''session.'') ''global.''
      in getD (NewStringValue []) sysVars n)"

section \<open>Operators\<close>

text \<open>\<^verbatim>\<open>matchLikeRunes\<close> on the suffixes \<^verbatim>\<open>str[si:]\<close> and \<^verbatim>\<open>pattern[pi:]\<close>\<close>

abbreviation percent :: rune where "percent \<equiv> 37"
abbreviation underscore :: rune where "underscore \<equiv> 95"

function matchLikeRunes :: "rune list \<Rightarrow> rune list \<Rightarrow> bool" where
  "matchLikeRunes [] pat \<longleftrightarrow> dropWhile (\<lambda>q. q = percent) pat = []"
| "matchLikeRunes (c # s) [] \<longleftrightarrow> False"
| "matchLikeRunes (c # s) (q # pat) \<longleftrightarrow>
     (if q = underscore \<or> q = c then matchLikeRunes s pat
      else if q = percent then list_ex (\<lambda>i. matchLikeRunes (drop i (c # s)) pat) [0..<Suc (length (c # s))]
      else False)"
  by pat_completeness auto
termination
  by (relation "measure (\<lambda>(s, pat). length pat)") auto

definition matchLike :: "string \<Rightarrow> string \<Rightarrow> bool" where
  "matchLike s pat = matchLikeRunes (runesOf s) (runesOf pat)"

definition evalLike :: "go_rt \<Rightarrow> Value \<Rightarrow> Value \<Rightarrow> Value" where
  "evalLike rt left right = NewBoolValue (matchLike (ToString rt left) (ToString rt right))"

definition evalArithmetic :: "'w fn_env \<Rightarrow> Value \<Rightarrow> Value \<Rightarrow> string \<Rightarrow> Value" where
  "evalArithmetic env left right op =
     (case (ToFloat64 (fn_rt env) left, ToFloat64 (fn_rt env) right) of
        (Inr lf, Inr rf) \<Rightarrow>
          (let result =
             (if op = ''+'' then Some (fm_add (fn_math env) lf rf)
              else if op = ''-'' then Some (fm_sub (fn_math env) lf rf)
              else if op = ''*'' then Some (fm_mul (fn_math env) lf rf)
              else if op = ''/'' \<and> \<not> f64_eq rf 0 then Some (rt_fdiv (fn_rt env) lf rf)
              else None)
           in case result of
                None \<Rightarrow> NewNullValue
              | Some f \<Rightarrow> if Type left = TypeInt \<and> Type right = TypeInt then NewIntValue (f64_to_i64 (fn_rt env) f) else NewFloatValue f)
      | _ \<Rightarrow> NewNullValue)"

definition binaryOp :: "'w fn_env \<Rightarrow> string \<Rightarrow> Value \<Rightarrow> Value \<Rightarrow> Value" where
  "binaryOp env op left right =
     (let rt = fn_rt env; cmp = Compare rt left right
      in if op = ''='' then NewBoolValue (Equals rt left right)
         else if op = ''<>'' \<or> op = ''!='' then NewBoolValue (\<not> Equals rt left right)
         else if op = ''<'' then NewBoolValue (cmp < 0)
         else if op = ''>'' then NewBoolValue (0 < cmp)
         else if op = ''<='' then NewBoolValue (cmp \<le> 0)
         else if op = ''>='' then NewBoolValue (0 \<le> cmp)
         else if op = ''AND'' then NewBoolValue (ToBool rt left \<and> ToBool rt right)
         else if op = ''OR'' then NewBoolValue (ToBool rt left \<or> ToBool rt right)
         else if op = ''LIKE'' then evalLike rt left right
         else if op \<in> {''+'', ''-'', ''*'', ''/''} then evalArithmetic env left right op
         else if op = ''||'' then NewStringValue (ToString rt left @ ToString rt right)
         else NewNullValue)"

definition evalBinaryOp :: "'w eng_env \<Rightarrow> 'w evaluator \<Rightarrow> string \<Rightarrow> 'w evaluator \<Rightarrow> 'w evaluator" where
  "evalBinaryOp env left op right row colIndex rowID =
     bindS (left row colIndex rowID) (\<lambda>l. bindS (right row colIndex rowID) (\<lambda>r. returnS (binaryOp (ee_fn env) op l r)))"

definition unaryOp :: "go_rt \<Rightarrow> string \<Rightarrow> Value \<Rightarrow> Value" where
  "unaryOp rt op right =
     (if op = ''NOT'' then NewBoolValue (\<not> ToBool rt right)
      else if op = ''-'' then
        (case ToInt64 rt right of
           Inr n \<Rightarrow> NewIntValue (- n)
         | Inl _ \<Rightarrow> (case ToFloat64 rt right of Inr f \<Rightarrow> NewFloatValue (fneg f) | Inl _ \<Rightarrow> NewNullValue))
      else if op = ''+'' then right
      else NewNullValue)"

definition evalUnaryOp :: "'w eng_env \<Rightarrow> string \<Rightarrow> 'w evaluator \<Rightarrow> 'w evaluator" where
  "evalUnaryOp env op right row colIndex rowID =
     bindS (right row colIndex rowID) (\<lambda>v. returnS (unaryOp (ert env) op v))"

definition boolOf :: "'w eng_env \<Rightarrow> ('w, Value) eval \<Rightarrow> ('w, bool) eval" where
  "boolOf env m = bindS m (\<lambda>v. returnS (ToBool (ert env) v))"

primrec evalCase :: "'w eng_env \<Rightarrow> ('w evaluator \<times> 'w evaluator) list \<Rightarrow> 'w evaluator option \<Rightarrow> 'w evaluator" where
  "evalCase env [] elseExpr row colIndex rowID =
     (case elseExpr of Some e \<Rightarrow> e row colIndex rowID | None \<Rightarrow> returnS NewNullValue)"
| "evalCase env (w # ws) elseExpr row colIndex rowID =
     bindS (boolOf env (fst w row colIndex rowID)) (\<lambda>b.
       if b then snd w row colIndex rowID else evalCase env ws elseExpr row colIndex rowID)"

primrec inLoop :: "'w eng_env \<Rightarrow> Value \<Rightarrow> 'w evaluator list \<Rightarrow> 'w evaluator" where
  "inLoop env left [] row colIndex rowID = returnS (NewBoolValue False)"
| "inLoop env left (item # items) row colIndex rowID =
     bindS (item row colIndex rowID) (\<lambda>right.
       if Compare (ert env) left right = 0 then returnS (NewBoolValue True) else inLoop env left items row colIndex rowID)"

definition evalIn :: "'w eng_env \<Rightarrow> 'w evaluator \<Rightarrow> 'w evaluator list \<Rightarrow> 'w evaluator" where
  "evalIn env left items row colIndex rowID = bindS (left row colIndex rowID) (\<lambda>l. inLoop env l items row colIndex rowID)"

definition evalBetween :: "'w eng_env \<Rightarrow> 'w evaluator \<Rightarrow> 'w evaluator \<Rightarrow> 'w evaluator \<Rightarrow> 'w evaluator" where
  "evalBetween env val lower upper row colIndex rowID =
     bindS (val row colIndex rowID) (\<lambda>v. bindS (lower row colIndex rowID) (\<lambda>l. bindS (upper row colIndex rowID) (\<lambda>u.
       returnS (NewBoolValue (0 \<le> Compare (ert env) v l \<and> Compare (ert env) v u \<le> 0)))))"

section \<open>Full-text conditions\<close>

definition splitKey :: "string \<Rightarrow> (string \<times> string) option" where
  "splitKey key = (case IndexOf key ''.'' of Some i \<Rightarrow> Some (take i key, drop (i + 1) key) | None \<Rightarrow> None)"

text \<open>The first index whose column has the name; the parser never sets the table of the expression.\<close>

definition tableOfColumn :: "go_rt \<Rightarrow> string \<Rightarrow> string list \<Rightarrow> string" where
  "tableOfColumn rt colName keys =
     (case List.find (\<lambda>key. case splitKey key of Some (_, c) \<Rightarrow> EqualFold rt c colName | None \<Rightarrow> False) keys of
        Some key \<Rightarrow> (case splitKey key of Some (t, _) \<Rightarrow> t | None \<Rightarrow> [])
      | None \<Rightarrow> [])"

definition evalMatchAgainst :: "'w eng_env \<Rightarrow> string \<Rightarrow> string \<Rightarrow> int \<Rightarrow> 'w evaluator" where
  "evalMatchAgainst env column query level row colIndex rowID e =
     (let rt = ert env; colName = ToLower rt column
      in case map_of colIndex colName of
           None \<Rightarrow> (e, Inr (NewBoolValue False))
         | Some idx \<Rightarrow>
             if length row \<le> idx then (e, Inr (NewBoolValue False))
             else let content = ToString rt (row ! idx);
                      fallback = NewBoolValue (containsText (ToLower rt content) (ToLower rt query));
                      tableName = tableOfColumn rt colName (ListIndexes (en_fts e))
                  in if HasIndex rt tableName colName (en_fts e) then
                       (case (if 0 < level then Manager_SearchWithLevel rt (ee_fts env) tableName colName query level 1000 0 (en_fts e)
                              else Manager_Search rt (ee_fts env) tableName colName query 1000 0 (en_fts e)) of
                          Inl FTSPanic \<Rightarrow> (e, Inl GoPanic)
                        | Inl _ \<Rightarrow> (e, Inr fallback)
                        | Inr results \<Rightarrow>
                            (e, Inr (NewBoolValue (list_ex (\<lambda>r. f64_less 0 (sr_Score r) \<and> sr_RowID r = rowID) results))))
                     else (e, Inr fallback))"

section \<open>Expressions\<close>

definition evalColumn :: "'w eng_env \<Rightarrow> string \<Rightarrow> 'w evaluator" where
  "evalColumn env column row colIndex rowID =
     returnS (if hasPrefix column ''@@'' then evalSystemVariable (ert env) column
              else nthOr NewNullValue row (colAt (ert env) colIndex column))"

fun evalExpr :: "'w eng_env \<Rightarrow> Expression \<Rightarrow> 'w evaluator" where
  "evalExpr env (ExprLiteral v) = (\<lambda>row colIndex rowID. returnS (NewValue v))"
| "evalExpr env (ExprColumn table column) = evalColumn env column"
| "evalExpr env (ExprFunction name args) = evalFunction env name (map (evalExpr env) args)"
| "evalExpr env (ExprUnaryOp op right) = evalUnaryOp env op (evalExpr env right)"
| "evalExpr env (ExprBinaryOp left op right) = evalBinaryOp env (evalExpr env left) op (evalExpr env right)"
| "evalExpr env (ExprCase caseExpr whens elseExpr) =
     evalCase env (map (\<lambda>w. (evalExpr env (fst w), evalExpr env (snd w))) whens) (map_option (evalExpr env) elseExpr)"
| "evalExpr env (ExprIn left items subq) = evalIn env (evalExpr env left) (map (evalExpr env) items)"
| "evalExpr env (ExprBetween val lower upper) = evalBetween env (evalExpr env val) (evalExpr env lower) (evalExpr env upper)"
| "evalExpr env (ExprMatch column query mode level) = evalMatchAgainst env column query level"
| "evalExpr env (ExprExists subq) = (\<lambda>row colIndex rowID. returnS NewNullValue)"
| "evalExpr env (ExprSubquery subq) = (\<lambda>row colIndex rowID. returnS NewNullValue)"
| "evalExpr env (ExprStar table) = (\<lambda>row colIndex rowID. returnS NewNullValue)"

definition evalBool :: "'w eng_env \<Rightarrow> Expression \<Rightarrow> Value list \<Rightarrow> colIndex \<Rightarrow> u64 \<Rightarrow> ('w, bool) eval" where
  "evalBool env expr row colIndex rowID = boolOf env (evalExpr env expr row colIndex rowID)"

definition evalInt :: "'w eng_env \<Rightarrow> Expression \<Rightarrow> ('w, u64) eval" where
  "evalInt env expr = bindS (evalExpr env expr [] [] 0) (\<lambda>v. returnS (int64Of (ert env) v))"

end
