(* ===== verification/Select.thy ===== *)
theory Select
  imports Eval
begin

text \<open>
  \<^verbatim>\<open>src/executor/executor.go\<close>, second part: SELECT. The rows of the table run through the condition, grouping and aggregates, ordering, LIMIT and OFFSET,
  the projection, DISTINCT and UNION, in the order of the code. A Go map that is iterated (the groups, the list of tables) is visited in the order of
  the association list. The joins and the HAVING condition of the syntax tree are never looked at.
\<close>

section \<open>Errors\<close>

datatype exec_error = ExecFault fault | ExecStorage st_error | ExecParse parse_error | ExecText string

type_synonym ('w, 'a) exec = "('w Engine, exec_error, 'a) go_method"

definition onEval :: "('w, 'a) eval \<Rightarrow> ('w, 'a) exec" where
  "onEval m e = (case m e of (e, Inl f) \<Rightarrow> (e, Inl (ExecFault f)) | (e, Inr v) \<Rightarrow> (e, Inr v))"

definition onStore :: "'a st_method \<Rightarrow> ('w, 'a) exec" where
  "onStore m e =
     (case m (en_storage e) of
        (s, Inl STPanic) \<Rightarrow> (e\<lparr>en_storage := s\<rparr>, Inl (ExecFault GoPanic))
      | (s, Inl err) \<Rightarrow> (e\<lparr>en_storage := s\<rparr>, Inl (ExecStorage err))
      | (s, Inr v) \<Rightarrow> (e\<lparr>en_storage := s\<rparr>, Inr v))"

definition tableInfoOf :: "string \<Rightarrow> ('w, StoredTable) exec" where
  "tableInfoOf name = onStore (\<lambda>s. (s, GetTableInfo s name))"

definition panicIf :: "bool \<Rightarrow> ('w, unit) eval" where
  "panicIf b e = (e, if b then Inl GoPanic else Inr ())"

definition selectResult :: "string list \<Rightarrow> Row list \<Rightarrow> Result" where
  "selectResult columns rows =
     \<lparr>res_Columns = columns, res_Rows = rows, res_RowsAffected = 0, res_LastInsertID = 0, res_IsExecutionResult = False, res_Message = []\<rparr>"

definition buildColIndex :: "go_rt \<Rightarrow> ColumnDef list \<Rightarrow> colIndex" where
  "buildColIndex rt cols = foldl (\<lambda>m (i, c). put_key (ToLower rt (col_Name c)) i m) [] (enumerate 0 cols)"

section \<open>Condition, grouping and order\<close>

definition filterRows :: "'w eng_env \<Rightarrow> Row list \<Rightarrow> Expression \<Rightarrow> colIndex \<Rightarrow> ('w, Row list) eval" where
  "filterRows env rows cond colIndex = filterS (\<lambda>row. evalBool env cond (row_Data row) colIndex (row_ID row)) rows"

definition buildGroupKey :: "go_rt \<Rightarrow> string list \<Rightarrow> colIndex \<Rightarrow> Row \<Rightarrow> string" where
  "buildGroupKey rt groupBy colIndex row =
     concat (map (\<lambda>col. let idx = colAt rt colIndex col
                        in if idx < length (row_Data row) then ToString rt (row_Data row ! idx) @ ''|'' else []) groupBy)"

definition groupMap :: "(Row \<Rightarrow> string) \<Rightarrow> Row list \<Rightarrow> (string, Row list) gomap" where
  "groupMap key rows = foldl (\<lambda>m row. put_key (key row) (getD [] m (key row) @ [row]) m) [] rows"

definition groupRows :: "go_rt \<Rightarrow> Row list \<Rightarrow> string list \<Rightarrow> colIndex \<Rightarrow> Row list" where
  "groupRows rt rows groupBy colIndex =
     (if groupBy = [] then rows
      else map (hd \<circ> snd) (filter (\<lambda>g. snd g \<noteq> []) (groupMap (buildGroupKey rt groupBy colIndex) rows)))"

text \<open>The values of an aggregate's argument over some rows; \<^verbatim>\<open>COUNT(*)\<close> and a call without arguments count each row as 1.\<close>

definition aggValues :: "'w eng_env \<Rightarrow> Expression list \<Rightarrow> colIndex \<Rightarrow> Row list \<Rightarrow> ('w, Value list) eval" where
  "aggValues env args colIndex rows =
     (case args of
        [] \<Rightarrow> returnS (map (\<lambda>_. NewIntValue 1) rows)
      | ExprStar _ # _ \<Rightarrow> returnS (map (\<lambda>_. NewIntValue 1) rows)
      | a # _ \<Rightarrow> mapS (\<lambda>row. evalExpr env a (row_Data row) colIndex (row_ID row)) rows)"

definition aggregate :: "'w eng_env \<Rightarrow> string \<Rightarrow> Expression list \<Rightarrow> colIndex \<Rightarrow> Row list \<Rightarrow> ('w, Value) eval" where
  "aggregate env name args colIndex rows =
     bindS (aggValues env args colIndex rows) (\<lambda>values.
       bindS (callFunction env (ToUpper (ert env) name) values) (\<lambda>r. returnS (orNull r)))"

definition groupColumn :: "'w eng_env \<Rightarrow> colIndex \<Rightarrow> Row list \<Rightarrow> SelectColumn \<Rightarrow> ('w, Value) eval" where
  "groupColumn env colIndex rows col =
     (case sc_Expr col of
        None \<Rightarrow> returnS zeroValue
      | Some (ExprFunction name args) \<Rightarrow>
          if IsAggregate (ert env) name then aggregate env name args colIndex rows
          else evalExpr env (ExprFunction name args) (row_Data (hd rows)) colIndex (row_ID (hd rows))
      | Some (ExprColumn table column) \<Rightarrow> returnS (nthOr zeroValue (row_Data (hd rows)) (colAt (ert env) colIndex column))
      | Some expr \<Rightarrow> evalExpr env expr (row_Data (hd rows)) colIndex (row_ID (hd rows)))"

definition groupWithAggregates :: "'w eng_env \<Rightarrow> Row list \<Rightarrow> string list \<Rightarrow> SelectColumn list \<Rightarrow> colIndex \<Rightarrow> ('w, Row list) eval" where
  "groupWithAggregates env rows groupBy columns colIndex =
     (if groupBy = [] then returnS rows
      else mapS (\<lambda>g. bindS (mapS (groupColumn env colIndex (snd g)) columns) (\<lambda>data. returnS (NewRow data)))
             (filter (\<lambda>g. snd g \<noteq> []) (groupMap (buildGroupKey (ert env) groupBy colIndex) rows)))"

definition hasAggregateFunctions :: "go_rt \<Rightarrow> SelectColumn list \<Rightarrow> bool" where
  "hasAggregateFunctions rt columns \<longleftrightarrow>
     list_ex (\<lambda>col. case sc_Expr col of Some (ExprFunction name _) \<Rightarrow> IsAggregate rt name | _ \<Rightarrow> False) columns"

definition emptyAggregate :: "go_rt \<Rightarrow> SelectColumn \<Rightarrow> Value" where
  "emptyAggregate rt col =
     (case sc_Expr col of
        Some (ExprFunction name _) \<Rightarrow>
          if IsAggregate rt name then if ToUpper rt name = ''COUNT'' then NewIntValue 0 else NewNullValue else zeroValue
      | _ \<Rightarrow> zeroValue)"

definition aggregateColumn :: "'w eng_env \<Rightarrow> colIndex \<Rightarrow> Row list \<Rightarrow> SelectColumn \<Rightarrow> ('w, Value) eval" where
  "aggregateColumn env colIndex rows col =
     (case sc_Expr col of
        None \<Rightarrow> returnS zeroValue
      | Some (ExprFunction name args) \<Rightarrow>
          if IsAggregate (ert env) (ToUpper (ert env) name) then aggregate env name args colIndex rows
          else evalExpr env (ExprFunction name args) (row_Data (hd rows)) colIndex (row_ID (hd rows))
      | Some expr \<Rightarrow> evalExpr env expr (row_Data (hd rows)) colIndex (row_ID (hd rows)))"

definition computeAggregates :: "'w eng_env \<Rightarrow> Row list \<Rightarrow> SelectColumn list \<Rightarrow> colIndex \<Rightarrow> ('w, Row list) eval" where
  "computeAggregates env rows columns colIndex =
     (if rows = [] then returnS [NewRow (map (emptyAggregate (ert env)) columns)]
      else bindS (mapS (aggregateColumn env colIndex rows) columns) (\<lambda>data. returnS [NewRow data]))"

text \<open>The value of a row for an ORDER BY item\<close>

definition orderValue :: "'w eng_env \<Rightarrow> Expression \<Rightarrow> colIndex \<Rightarrow> Row \<Rightarrow> ('w, Value) eval" where
  "orderValue env expr colIndex row =
     (case expr of
        ExprColumn table column \<Rightarrow> returnS (nthOr zeroValue (row_Data row) (colAt (ert env) colIndex column))
      | _ \<Rightarrow> evalExpr env expr (row_Data row) colIndex (row_ID row))"

fun shouldSwap :: "'w eng_env \<Rightarrow> Row \<Rightarrow> Row \<Rightarrow> OrderByClause list \<Rightarrow> colIndex \<Rightarrow> ('w, bool) eval" where
  "shouldSwap env row1 row2 [] colIndex = returnS False"
| "shouldSwap env row1 row2 ((expr, direction) # orderBy) colIndex =
     bindS (orderValue env expr colIndex row1) (\<lambda>val1. bindS (orderValue env expr colIndex row2) (\<lambda>val2.
       let cmp = Compare (ert env) val1 val2
       in if cmp \<noteq> 0 then returnS (if direction = ''DESC'' then cmp < 0 else 0 < cmp)
          else shouldSwap env row1 row2 orderBy colIndex))"

text \<open>
  The insertion sort moves the element at \<open>i\<close> to the left while it has to swap with its left neighbour; the part already sorted is kept
  reversed here, so that the neighbour is the head.
\<close>

primrec insertBack :: "('a \<Rightarrow> 'a \<Rightarrow> ('s, 'e, bool) go_method) \<Rightarrow> 'a \<Rightarrow> 'a list \<Rightarrow> ('s, 'e, 'a list) go_method" where
  "insertBack swap x [] = returnS [x]"
| "insertBack swap x (y # ys) =
     bindS (swap y x) (\<lambda>b. if b then bindS (insertBack swap x ys) (\<lambda>zs. returnS (y # zs)) else returnS (x # y # ys))"

primrec sortBack :: "('a \<Rightarrow> 'a \<Rightarrow> ('s, 'e, bool) go_method) \<Rightarrow> 'a list \<Rightarrow> 'a list \<Rightarrow> ('s, 'e, 'a list) go_method" where
  "sortBack swap done [] = returnS done"
| "sortBack swap done (x # xs) = bindS (insertBack swap x done) (\<lambda>zs. sortBack swap zs xs)"

definition sortRows :: "'w eng_env \<Rightarrow> Row list \<Rightarrow> OrderByClause list \<Rightarrow> colIndex \<Rightarrow> ('w, Row list) eval" where
  "sortRows env rows orderBy colIndex =
     (if orderBy = [] \<or> rows = [] then returnS rows
      else bindS (sortBack (\<lambda>row1 row2. shouldSwap env row1 row2 orderBy colIndex) [] rows) (\<lambda>zs. returnS (rev zs)))"

section \<open>Duplicates, limits and columns\<close>

definition rowKey :: "go_rt \<Rightarrow> Row \<Rightarrow> string" where
  "rowKey rt row = concat (map (\<lambda>v. ToString rt v @ ''|'') (row_Data row))"

fun distinctLoop :: "go_rt \<Rightarrow> string list \<Rightarrow> Row list \<Rightarrow> Row list" where
  "distinctLoop rt seen [] = []"
| "distinctLoop rt seen (row # rows) =
     (if rowKey rt row \<in> set seen then distinctLoop rt seen rows else row # distinctLoop rt (rowKey rt row # seen) rows)"

definition distinctRows :: "go_rt \<Rightarrow> Row list \<Rightarrow> Row list" where
  "distinctRows rt rows = distinctLoop rt [] rows"

text \<open>\<^verbatim>\<open>rows[:limit]\<close> and \<^verbatim>\<open>rows[offset:]\<close> panic on a negative number.\<close>

definition limitRows :: "'w eng_env \<Rightarrow> Expression option \<Rightarrow> Row list \<Rightarrow> ('w, Row list) eval" where
  "limitRows env limit rows =
     (case limit of
        None \<Rightarrow> returnS rows
      | Some expr \<Rightarrow> bindS (evalInt env expr) (\<lambda>n.
          if sint n < int (length rows) then bindS (panicIf (sint n < 0)) (\<lambda>_. returnS (take (nat (sint n)) rows)) else returnS rows))"

definition offsetRows :: "'w eng_env \<Rightarrow> Expression option \<Rightarrow> Row list \<Rightarrow> ('w, Row list) eval" where
  "offsetRows env offset rows =
     (case offset of
        None \<Rightarrow> returnS rows
      | Some expr \<Rightarrow> bindS (evalInt env expr) (\<lambda>n.
          if sint n < int (length rows) then bindS (panicIf (sint n < 0)) (\<lambda>_. returnS (drop (nat (sint n)) rows)) else returnS []))"

text \<open>
  The names of the result columns: a star replaces the whole slice by the table's columns, so a later column may be written past its end.
\<close>

definition nameOfColumn :: "go_rt \<Rightarrow> SelectColumn \<Rightarrow> string option" where
  "nameOfColumn rt col =
     (if sc_Alias col \<noteq> [] then Some (sc_Alias col) else map_option (Expression_String rt) (sc_Expr col))"

fun columnsLoop :: "go_rt \<Rightarrow> string list \<Rightarrow> string list \<Rightarrow> nat \<Rightarrow> SelectColumn list \<Rightarrow> fault + string list" where
  "columnsLoop rt names columns i [] = Inr columns"
| "columnsLoop rt names columns i (col # cols) =
     (if sc_All col then columnsLoop rt names names (Suc i) cols
      else case nameOfColumn rt col of
             None \<Rightarrow> columnsLoop rt names columns (Suc i) cols
           | Some name \<Rightarrow> if i < length columns then columnsLoop rt names (columns[i := name]) (Suc i) cols else Inl GoPanic)"

definition resultColumns :: "go_rt \<Rightarrow> StoredTable \<Rightarrow> SelectColumn list \<Rightarrow> ('w, string list) eval" where
  "resultColumns rt info cols e =
     (let names = map col_Name (tbl_Columns info)
      in (e, if cols = [] then Inr names else columnsLoop rt names (replicate (length cols) []) 0 cols))"

definition projectColumn :: "'w eng_env \<Rightarrow> colIndex \<Rightarrow> Row \<Rightarrow> SelectColumn \<Rightarrow> ('w, Value) eval" where
  "projectColumn env colIndex row col =
     (case sc_Expr col of None \<Rightarrow> returnS zeroValue | Some expr \<Rightarrow> evalExpr env expr (row_Data row) colIndex (row_ID row))"

definition projectRows :: "'w eng_env \<Rightarrow> Row list \<Rightarrow> SelectColumn list \<Rightarrow> colIndex \<Rightarrow> ('w, Row list) eval" where
  "projectRows env rows cols colIndex =
     (if \<not> hasAggregateFunctions (ert env) cols \<and> cols \<noteq> [] \<and> \<not> sc_All (hd cols)
      then mapS (\<lambda>row. bindS (mapS (projectColumn env colIndex row) cols) (\<lambda>data. returnS \<lparr>row_ID = row_ID row, row_Data = data\<rparr>)) rows
      else returnS rows)"

definition groupStage :: "'w eng_env \<Rightarrow> Row list \<Rightarrow> string list \<Rightarrow> SelectColumn list \<Rightarrow> colIndex \<Rightarrow> ('w, Row list) eval" where
  "groupStage env rows groupBy cols colIndex =
     (if groupBy \<noteq> [] \<and> hasAggregateFunctions (ert env) cols then groupWithAggregates env rows groupBy cols colIndex
      else if groupBy \<noteq> [] then returnS (groupRows (ert env) rows groupBy colIndex)
      else if hasAggregateFunctions (ert env) cols then computeAggregates env rows cols colIndex
      else returnS rows)"

section \<open>SELECT without a table\<close>

definition executeSelectWithoutTable :: "'w eng_env \<Rightarrow> SelectColumn list \<Rightarrow> ('w, Result) exec" where
  "executeSelectWithoutTable env cols =
     bindS (onEval (mapS (projectColumn env [] (NewRow [])) cols)) (\<lambda>data.
       returnS (selectResult (map (\<lambda>col. case nameOfColumn (ert env) col of Some n \<Rightarrow> n | None \<Rightarrow> []) cols) [NewRow data]))"

section \<open>The virtual tables of information\_schema\<close>

abbreviation textRow :: "string list \<Rightarrow> Row" where "textRow ss \<equiv> NewRow (map NewStringValue ss)"

definition indexOfNames :: "string list \<Rightarrow> colIndex" where
  "indexOfNames names = zip names [0..<length names]"

definition schemaTables :: "string list \<times> (Storage \<Rightarrow> Row list) \<times> string list" where
  "schemaTables =
     ([''TABLE_CATALOG'', ''TABLE_SCHEMA'', ''TABLE_NAME'', ''TABLE_TYPE'', ''ENGINE'', ''VERSION'', ''ROW_FORMAT'', ''TABLE_ROWS'', ''AVG_ROW_LENGTH'',
       ''DATA_LENGTH'', ''MAX_DATA_LENGTH'', ''INDEX_LENGTH'', ''DATA_FREE'', ''AUTO_INCREMENT'', ''CREATE_TIME'', ''UPDATE_TIME'', ''CHECK_TIME'',
       ''TABLE_COLLATION'', ''CHECKSUM'', ''CREATE_OPTIONS'', ''TABLE_COMMENT''],
      \<lambda>s. map (\<lambda>t. textRow [''def'', ''xxldb'', t, ''BASE TABLE'', ''InnoDB'', ''10'', ''Compact'', ''0'', ''0'', ''0'', ''0'', ''0'', ''0'', ''0'',
                 [], [], [], ''utf8mb4_general_ci'', [], [], []]) (ListTables s),
      [''table_catalog'', ''table_schema'', ''table_name'', ''table_type'', ''engine'', ''version'', ''row_format'', ''table_rows'', ''avg_row_length'',
       ''data_length'', ''max_data_length'', ''index_length'', ''data_free'', ''auto_increment'', ''create_time'', ''update_time'', ''check_time'',
       ''table_collation'', ''checksum'', ''create_options'', ''table_comment''])"

text \<open>The tables in order with their columns\<close>

definition schemaColumns :: "Storage \<Rightarrow> (string \<times> ColumnDef list) list" where
  "schemaColumns s =
     concat (map (\<lambda>t. case GetTableInfo s t of Inl _ \<Rightarrow> [] | Inr info \<Rightarrow> [(t, tbl_Columns info)]) (ListTables s))"

definition schemaType :: "ColumnDef \<Rightarrow> string" where
  "schemaType col =
     (if col_Type col = TypeUnknown \<or> col_Type col = TypeNull then
        if col_PrimaryKey col then ''INT''
        else if 0 < col_Length col then if 255 < col_Length col then ''TEXT'' else ''VARCHAR''
        else ''TEXT''
      else DataType_String (col_Type col))"

definition schemaColumnTable :: "string list \<times> (Storage \<Rightarrow> Row list) \<times> string list" where
  "schemaColumnTable =
     ([''TABLE_CATALOG'', ''TABLE_SCHEMA'', ''TABLE_NAME'', ''COLUMN_NAME'', ''ORDINAL_POSITION'', ''COLUMN_DEFAULT'', ''IS_NULLABLE'', ''DATA_TYPE'',
       ''CHARACTER_MAXIMUM_LENGTH'', ''NUMERIC_PRECISION'', ''NUMERIC_SCALE'', ''DATETIME_PRECISION'', ''CHARACTER_SET_NAME'', ''COLLATION_NAME'',
       ''COLUMN_TYPE'', ''COLUMN_KEY'', ''EXTRA'', ''PRIVILEGES'', ''COLUMN_COMMENT''],
      \<lambda>s. map (\<lambda>(i, t, col). textRow [''def'', ''xxldb'', t, col_Name col, dec_nat i, [], ''YES'', schemaType col, dec_int (col_Length col), ''0'', ''0'', [],
                 ''utf8mb4'', ''utf8mb4_general_ci'', schemaType col @ ''('' @ dec_int (col_Length col) @ '')'',
                 if col_PrimaryKey col then ''PRI'' else [], [], ''select,insert,update,references'', []])
            (enumerate 1 (concat (map (\<lambda>(t, cols). map (Pair t) cols) (schemaColumns s)))),
      [''table_catalog'', ''table_schema'', ''table_name'', ''column_name'', ''ordinal_position'', ''column_default'', ''is_nullable'', ''data_type'',
       ''character_maximum_length'', ''numeric_precision'', ''numeric_scale'', ''datetime_precision'', ''character_set_name'', ''collation_name'',
       ''column_type'', ''column_key'', ''extra'', ''privileges'', ''column_comment''])"

definition primaryKeys :: "Storage \<Rightarrow> (string \<times> ColumnDef list) list" where
  "primaryKeys s = map (map_prod id (filter col_PrimaryKey)) (schemaColumns s)"

definition schemaKeyUsage :: "string list \<times> (Storage \<Rightarrow> Row list) \<times> string list" where
  "schemaKeyUsage =
     ([''CONSTRAINT_CATALOG'', ''CONSTRAINT_SCHEMA'', ''CONSTRAINT_NAME'', ''TABLE_CATALOG'', ''TABLE_SCHEMA'', ''TABLE_NAME'', ''COLUMN_NAME'',
       ''ORDINAL_POSITION'', ''POSITION_IN_UNIQUE_CONSTRAINT'', ''REFERENCED_TABLE_SCHEMA'', ''REFERENCED_TABLE_NAME'', ''REFERENCED_COLUMN_NAME''],
      \<lambda>s. concat (map (\<lambda>(t, cols). map (\<lambda>col. textRow [''def'', ''xxldb'', ''PRIMARY'', ''def'', ''xxldb'', t, col_Name col, ''1'', ''1'', [], [], []]) cols)
            (primaryKeys s)),
      [''constraint_catalog'', ''constraint_schema'', ''constraint_name'', ''table_catalog'', ''table_schema'', ''table_name'', ''column_name'',
       ''ordinal_position'', ''position_in_unique_constraint'', ''referenced_table_schema'', ''referenced_table_name'', ''referenced_column_name''])"

definition schemaConstraints :: "string list \<times> (Storage \<Rightarrow> Row list) \<times> string list" where
  "schemaConstraints =
     ([''CONSTRAINT_CATALOG'', ''CONSTRAINT_SCHEMA'', ''CONSTRAINT_NAME'', ''TABLE_CATALOG'', ''TABLE_SCHEMA'', ''TABLE_NAME'', ''CONSTRAINT_TYPE'',
       ''IS_DEFERRABLE'', ''INITIALLY_DEFERRED'', ''ENFORCED''],
      \<lambda>s. map (\<lambda>(t, cols). textRow [''def'', ''xxldb'', ''PRIMARY'', ''def'', ''xxldb'', t, ''PRIMARY KEY'', ''YES'', ''NO'', ''YES''])
            (filter (\<lambda>(t, cols). cols \<noteq> []) (primaryKeys s)),
      [''constraint_catalog'', ''constraint_schema'', ''constraint_name'', ''table_catalog'', ''table_schema'', ''table_name'', ''constraint_type'',
       ''is_deferrable'', ''initially_deferred'', ''enforced''])"

definition schemaStatistics :: "string list \<times> (Storage \<Rightarrow> Row list) \<times> string list" where
  "schemaStatistics =
     ([''TABLE_CATALOG'', ''TABLE_SCHEMA'', ''TABLE_NAME'', ''NON_UNIQUE'', ''INDEX_SCHEMA'', ''INDEX_NAME'', ''SEQ_IN_INDEX'', ''COLUMN_NAME'', ''COLLATION'',
       ''CARDINALITY'', ''SUB_PART'', ''PACKED'', ''NULLABLE'', ''INDEX_TYPE'', ''COMMENT'', ''INDEX_COMMENT''],
      \<lambda>s. concat (map (\<lambda>(t, cols). map (\<lambda>(i, col). textRow [''xxldb'', ''xxldb'', t, ''0'', ''xxldb'', ''PRIMARY'', dec_nat i, col_Name col, ''A'', ''0'',
                 [], [], [], ''BTREE'', [], []]) (enumerate 1 cols)) (primaryKeys s)),
      [''table_catalog'', ''table_schema'', ''table_name'', ''non_unique'', ''index_schema'', ''index_name'', ''seq_in_index'', ''column_name'', ''collation'',
       ''cardinality'', ''sub_part'', ''packed'', ''nullable'', ''index_type'', ''comment'', ''index_comment''])"

definition schemaQuery :: "'w eng_env \<Rightarrow> string list \<times> (Storage \<Rightarrow> Row list) \<times> string list \<Rightarrow> Expression option \<Rightarrow> ('w, Result) exec" where
  "schemaQuery env table cond e =
     (case table of (columns, rowsOf, names) \<Rightarrow>
        bindS (onEval (case cond of
                         None \<Rightarrow> returnS (rowsOf (en_storage e))
                       | Some c \<Rightarrow> filterRows env (rowsOf (en_storage e)) c (indexOfNames names)))
          (\<lambda>rows. returnS (selectResult columns rows)) e)"

definition schemaTableName :: "go_rt \<Rightarrow> string \<Rightarrow> string" where
  "schemaTableName rt table = TrimPrefix (ToLower rt table) ''information_schema.''"

definition executeInformationSchemaQuery :: "'w eng_env \<Rightarrow> string \<Rightarrow> Expression option \<Rightarrow> ('w, Result) exec" where
  "executeInformationSchemaQuery env table cond =
     (let name = schemaTableName (ert env) table
      in if name = ''tables'' \<or> name = ''information_schema'' then schemaQuery env schemaTables cond
         else if name = ''columns'' then schemaQuery env schemaColumnTable cond
         else if name = ''schemata'' then
           returnS (selectResult [''CATALOG_NAME'', ''SCHEMA_NAME'', ''DEFAULT_CHARACTER_SET_NAME'', ''DEFAULT_COLLATION_NAME'']
             [textRow [''def'', ''xxldb'', ''utf8mb4'', ''utf8mb4_general_ci'']])
         else if name = ''processlist'' then
           returnS (selectResult [''ID'', ''USER'', ''HOST'', ''DB'', ''COMMAND'', ''TIME'', ''STATE'', ''INFO'']
             [textRow [''1'', ''admin'', ''localhost'', ''xxldb'', ''Query'', ''0'', [], ''SELECT'']])
         else if name = ''key_column_usage'' then schemaQuery env schemaKeyUsage cond
         else if name = ''table_constraints'' then schemaQuery env schemaConstraints cond
         else if name = ''statistics'' then schemaQuery env schemaStatistics cond
         else returnS (selectResult [] []))"

section \<open>SELECT\<close>

definition isSchemaQuery :: "go_rt \<Rightarrow> FromClause \<Rightarrow> bool" where
  "isSchemaQuery rt from \<longleftrightarrow>
     EqualFold rt (fr_Database from) ''information_schema'' \<or> EqualFold rt (fr_Table from) ''information_schema''
     \<or> hasPrefix (ToLower rt (fr_Table from)) ''information_schema.''"

text \<open>Everything between reading the table and UNION\<close>

definition selectTable :: "'w eng_env \<Rightarrow> string \<Rightarrow> SelectStmt \<Rightarrow> ('w, string list \<times> Row list) exec" where
  "selectTable env table st =
     bindS (tableInfoOf table) (\<lambda>info.
     bindS (onStore (GetRowsWithIDs (ee_senv env) table)) (\<lambda>rowsWithIDs.
       let colIndex = buildColIndex (ert env) (tbl_Columns info);
           rows = map (\<lambda>(i, row). \<lparr>row_ID = i, row_Data = row\<rparr>) rowsWithIDs
       in onEval
            (bindS (case sel_Where st of None \<Rightarrow> returnS rows | Some cond \<Rightarrow> filterRows env rows cond colIndex) (\<lambda>rows.
             bindS (groupStage env rows (sel_GroupBy st) (sel_Columns st) colIndex) (\<lambda>rows.
             bindS (sortRows env rows (sel_OrderBy st) colIndex) (\<lambda>rows.
             bindS (limitRows env (sel_Limit st) rows) (\<lambda>rows.
             bindS (offsetRows env (sel_Offset st) rows) (\<lambda>rows.
             bindS (resultColumns (ert env) info (sel_Columns st)) (\<lambda>columns.
             bindS (projectRows env rows (sel_Columns st) colIndex) (\<lambda>rows.
               returnS (columns, if sel_Distinct st then distinctRows (ert env) rows else rows)))))))))))"

fun executeSelect :: "'w eng_env \<Rightarrow> SelectStmt \<Rightarrow> ('w, Result) exec" where
  "executeSelect env (SelectStmt distinctFlag cols fromClause joins cond groupBy having orderBy limit offset unions unionAll) =
     (case fromClause of
        None \<Rightarrow> executeSelectWithoutTable env cols
      | Some from \<Rightarrow>
          if fr_Table from = [] then executeSelectWithoutTable env cols
          else if isSchemaQuery (ert env) from then executeInformationSchemaQuery env (fr_Table from) cond
          else bindS (selectTable env (fr_Table from)
                        (SelectStmt distinctFlag cols fromClause joins cond groupBy having orderBy limit offset unions unionAll)) (\<lambda>(columns, rows).
               bindS (mapS (\<lambda>m. m) (map (executeSelect env) unions)) (\<lambda>results.
                 returnS (selectResult columns (rows @ concat (map res_Rows results))))))"

end
