(* ===== verification/Execute.thy ===== *)
theory Execute
  imports Select
begin

text \<open>
  \<^verbatim>\<open>src/executor/executor_dml.go\<close>, first part: INSERT, UPDATE, DELETE, and the statements on tables and indexes. UPDATE and DELETE hand closures to the
  storage that evaluate expressions while the storage is locked; they are modelled for expressions whose evaluation on the rows of the table
  returns and leaves the engine as it is (\<open>settled\<close>); the other ones end with \<open>Outside\<close>.
\<close>

datatype sql_error = Sql exec_error | Outside

type_synonym ('w, 'a) sql = "('w Engine, sql_error, 'a) go_method"

definition onExec :: "('w, 'a) exec \<Rightarrow> ('w, 'a) sql" where
  "onExec m e = (case m e of (e, Inl x) \<Rightarrow> (e, Inl (Sql x)) | (e, Inr v) \<Rightarrow> (e, Inr v))"

abbreviation noResult :: Result where
  "noResult \<equiv> \<lparr>res_Columns = [], res_Rows = [], res_RowsAffected = 0, res_LastInsertID = 0, res_IsExecutionResult = True, res_Message = []\<rparr>"

definition message :: "string \<Rightarrow> Result" where
  "message s = noResult\<lparr>res_Message := s\<rparr>"

definition affected :: "u64 \<Rightarrow> u64 \<Rightarrow> Result" where
  "affected n lastID = noResult\<lparr>res_RowsAffected := n, res_LastInsertID := lastID\<rparr>"

section \<open>INSERT\<close>

text \<open>
  The storage writes the padded texts, the blob references and the sequence numbers into the slice it is given, so the row that is indexed
  afterwards is the row as stored.
\<close>

definition storedRow :: "senv \<Rightarrow> string \<Rightarrow> ColumnDef list \<Rightarrow> Value list \<Rightarrow> Storage \<Rightarrow> Value list" where
  "storedRow env name cols row s =
     (case bindS (processColumns env cols row) (\<lambda>row. assignSequences name cols row 0) s of (_, Inr (row', _)) \<Rightarrow> row' | _ \<Rightarrow> row)"

definition indexRowForFTS :: "'w eng_env \<Rightarrow> string \<Rightarrow> ColumnDef list \<Rightarrow> u64 \<Rightarrow> Value list \<Rightarrow> Manager \<Rightarrow> Manager" where
  "indexRowForFTS env table cols rowID row m =
     fold (\<lambda>(i, col) m.
             if HasIndex (ert env) table (col_Name col) m \<and> i < length row \<and> ToString (ert env) (row ! i) \<noteq> []
             then Manager_IndexDocument (ert env) (ee_fts env) table (col_Name col) rowID (ToString (ert env) (row ! i)) m else m)
          (enumerate 0 cols) m"

definition insertOne :: "'w eng_env \<Rightarrow> string \<Rightarrow> ColumnDef list \<Rightarrow> Value list \<Rightarrow> ('w, u64) exec" where
  "insertOne env table cols row e =
     (let row' = storedRow (ee_senv env) table cols row (en_storage e)
      in bindS (onStore (Storage_InsertRow (ee_senv env) table row)) (\<lambda>(rowID, lid) e.
           (e\<lparr>en_fts := indexRowForFTS env table cols rowID row' (en_fts e)\<rparr>, Inr lid)) e)"

primrec insertLoop :: "'w eng_env \<Rightarrow> string \<Rightarrow> ColumnDef list \<Rightarrow> ('w, Value list) exec list \<Rightarrow> u64 \<Rightarrow> u64 \<Rightarrow> ('w, Result) exec" where
  "insertLoop env table cols [] n lastID = returnS (affected n lastID)"
| "insertLoop env table cols (mk # mks) n lastID =
     bindS mk (\<lambda>row. bindS (insertOne env table cols row) (\<lambda>lid.
       insertLoop env table cols mks (n + 1) (if sint lastID < sint lid then lid else lastID)))"

definition defaultRow :: "ColumnDef list \<Rightarrow> Value list" where
  "defaultRow cols = map (\<lambda>col. case col_Default col of Some v \<Rightarrow> v | None \<Rightarrow> NewNullValue) cols"

text \<open>\<^verbatim>\<open>row[idx] = ...\<close> with the index of a named column; a name that is no column writes column 0, and panics in a table without columns.\<close>

primrec fillNamed :: "'w eng_env \<Rightarrow> colIndex \<Rightarrow> (string \<times> Expression) list \<Rightarrow> Value list \<Rightarrow> ('w, Value list) eval" where
  "fillNamed env colIndex [] row = returnS row"
| "fillNamed env colIndex (nv # nvs) row =
     bindS (evalExpr env (snd nv) [] [] 0) (\<lambda>v.
     bindS (panicIf (length row \<le> colAt (ert env) colIndex (fst nv))) (\<lambda>_.
       fillNamed env colIndex nvs (row[colAt (ert env) colIndex (fst nv) := v])))"

definition buildRow :: "'w eng_env \<Rightarrow> ColumnDef list \<Rightarrow> string list \<Rightarrow> Expression list \<Rightarrow> colIndex \<Rightarrow> ('w, Value list) eval" where
  "buildRow env cols columns values colIndex =
     (let row = defaultRow cols
      in if columns \<noteq> [] then fillNamed env colIndex (zip columns values) row
         else bindS (mapS (\<lambda>x. evalExpr env x [] [] 0) (take (length row) values)) (\<lambda>vs. returnS (vs @ drop (length vs) row)))"

definition executeInsert :: "'w eng_env \<Rightarrow> string \<Rightarrow> string list \<Rightarrow> Expression list list \<Rightarrow> SelectStmt option \<Rightarrow> ('w, Result) exec" where
  "executeInsert env table columns valuesList sel =
     bindS (tableInfoOf table) (\<lambda>info.
       let cols = tbl_Columns info; colIndex = buildColIndex (ert env) cols
       in case sel of
            Some st \<Rightarrow> bindS (executeSelect env st) (\<lambda>r. insertLoop env table cols (map (\<lambda>row. returnS (row_Data row)) (res_Rows r)) 0 0)
          | None \<Rightarrow> insertLoop env table cols (map (\<lambda>values. onEval (buildRow env cols columns values colIndex)) valuesList) 0 0)"

section \<open>UPDATE and DELETE\<close>

fun functionNames :: "Expression \<Rightarrow> string list" where
  "functionNames (ExprFunction name args) = name # concat (map functionNames args)"
| "functionNames (ExprUnaryOp op right) = functionNames right"
| "functionNames (ExprBinaryOp left op right) = functionNames left @ functionNames right"
| "functionNames (ExprCase c whens els) =
     concat (map (\<lambda>w. functionNames (fst w) @ functionNames (snd w)) whens) @ (case els of Some x \<Rightarrow> functionNames x | None \<Rightarrow> [])"
| "functionNames (ExprIn left items subq) = functionNames left @ concat (map functionNames items)"
| "functionNames (ExprBetween v l u) = functionNames v @ functionNames l @ functionNames u"
| "functionNames _ = []"

definition quiet :: "('w, 'a) eval \<Rightarrow> 'w Engine \<Rightarrow> bool" where
  "quiet m e \<longleftrightarrow> (case m e of (e', Inr _) \<Rightarrow> e' = e | _ \<Rightarrow> False)"

definition resultOf :: "'a \<Rightarrow> ('w, 'a) eval \<Rightarrow> 'w Engine \<Rightarrow> 'a" where
  "resultOf z m e = (case m e of (_, Inr v) \<Rightarrow> v | _ \<Rightarrow> z)"

text \<open>A script function that is not cached would read the table \<^verbatim>\<open>xxscript\<close> from the locked storage.\<close>

definition scriptsCached :: "'w eng_env \<Rightarrow> Expression \<Rightarrow> 'w Engine \<Rightarrow> bool" where
  "scriptsCached env x e \<longleftrightarrow>
     list_all (\<lambda>name. IsScriptFunc (ert env) name \<longrightarrow> Script_Get (ert env) name (en_scripts e) \<noteq> None) (functionNames x)"

definition condHolds :: "'w eng_env \<Rightarrow> colIndex \<Rightarrow> Expression option \<Rightarrow> 'w Engine \<Rightarrow> Value list \<Rightarrow> bool" where
  "condHolds env colIndex cond e row =
     (case cond of None \<Rightarrow> True | Some c \<Rightarrow> resultOf False (evalBool env c row colIndex 0) e)"

definition condSettled :: "'w eng_env \<Rightarrow> colIndex \<Rightarrow> Expression option \<Rightarrow> 'w Engine \<Rightarrow> Value list list \<Rightarrow> bool" where
  "condSettled env colIndex cond e rows \<longleftrightarrow>
     (case cond of None \<Rightarrow> True
      | Some c \<Rightarrow> scriptsCached env c e \<and> list_all (\<lambda>row. quiet (evalBool env c row colIndex 0) e) rows)"

definition updatesSettled :: "'w eng_env \<Rightarrow> colIndex \<Rightarrow> (nat, Expression) gomap \<Rightarrow> 'w Engine \<Rightarrow> Value list list \<Rightarrow> bool" where
  "updatesSettled env colIndex updates e rows \<longleftrightarrow>
     list_all (\<lambda>(i, x). scriptsCached env x e \<and> list_all (\<lambda>row. quiet (evalExpr env x row colIndex 0) e) rows) updates"

definition memoryRows :: "string \<Rightarrow> 'w Engine \<Rightarrow> Value list list" where
  "memoryRows table e = getD [] (s_rowData (en_storage e)) table"

definition updateExprs :: "go_rt \<Rightarrow> colIndex \<Rightarrow> (string, Expression) gomap \<Rightarrow> (nat, Expression) gomap" where
  "updateExprs rt colIndex updates = foldl (\<lambda>m (name, x). put_key (colAt rt colIndex name) x m) [] updates"

text \<open>The storage reports each changed row to a callback, which reindexes it or removes it from the index.\<close>

definition replayCalls :: "(u64 \<Rightarrow> Value list \<Rightarrow> Manager \<Rightarrow> Manager) \<Rightarrow> calls \<Rightarrow> Manager \<Rightarrow> Manager" where
  "replayCalls f cs m = fold (\<lambda>(rowID, row). f rowID row) cs m"

definition finishRows ::
  "(u64 \<Rightarrow> Value list \<Rightarrow> Manager \<Rightarrow> Manager) \<Rightarrow> (Storage \<Rightarrow> Storage \<times> calls \<times> (st_error + nat)) \<Rightarrow> ('w, Result) exec" where
  "finishRows callback m e =
     (case m (en_storage e) of (s, cs, r) \<Rightarrow>
        (e\<lparr>en_storage := s, en_fts := replayCalls callback cs (en_fts e)\<rparr>,
         case r of Inl STPanic \<Rightarrow> Inl (ExecFault GoPanic) | Inl err \<Rightarrow> Inl (ExecStorage err) | Inr n \<Rightarrow> Inr (affected (of_nat n) 0)))"

definition executeUpdate :: "'w eng_env \<Rightarrow> string \<Rightarrow> (string, Expression) gomap \<Rightarrow> Expression option \<Rightarrow> ('w, Result) sql" where
  "executeUpdate env table updates cond =
     bindS (onExec (tableInfoOf table)) (\<lambda>info e.
       let cols = tbl_Columns info; colIndex = buildColIndex (ert env) cols; ups = updateExprs (ert env) colIndex updates;
           updateFunc = (\<lambda>row. map (\<lambda>(i, x). (i, resultOf NewNullValue (evalExpr env x row colIndex 0) e)) ups)
       in if condSettled env colIndex cond e (memoryRows table e)
             \<and> updatesSettled env colIndex ups e (filter (condHolds env colIndex cond e) (memoryRows table e))
          then onExec (finishRows (indexRowForFTS env table cols)
                         (UpdateRowsWithCallback (ee_senv env) table updateFunc (condHolds env colIndex cond e) True)) e
          else (e, Inl Outside))"

definition unindexRow :: "'w eng_env \<Rightarrow> string \<Rightarrow> ColumnDef list \<Rightarrow> u64 \<Rightarrow> Value list \<Rightarrow> Manager \<Rightarrow> Manager" where
  "unindexRow env table cols rowID row m =
     fold (\<lambda>(i, col) m. if HasIndex (ert env) table (col_Name col) m \<and> i < length row
                        then Manager_DeleteDocument table (col_Name col) rowID m else m) (enumerate 0 cols) m"

definition executeDelete :: "'w eng_env \<Rightarrow> string \<Rightarrow> Expression option \<Rightarrow> ('w, Result) sql" where
  "executeDelete env table cond =
     bindS (onExec (tableInfoOf table)) (\<lambda>info e.
       let cols = tbl_Columns info; colIndex = buildColIndex (ert env) cols
       in if condSettled env colIndex cond e (memoryRows table e)
          then onExec (finishRows (unindexRow env table cols)
                         (DeleteRowsWithCallback (ee_senv env) table (condHolds env colIndex cond e) True)) e
          else (e, Inl Outside))"

section \<open>Tables and databases\<close>

definition buildColumn :: "'w eng_env \<Rightarrow> ColumnDefAST \<Rightarrow> ('w, ColumnDef) eval" where
  "buildColumn env c =
     bindS (case cd_Default c of
              None \<Rightarrow> returnS None
            | Some x \<Rightarrow> bindS (evalExpr env x [] [] 0) (\<lambda>v. returnS (Some v))) (\<lambda>dflt.
       let col = \<lparr>col_Name = cd_Name c, col_Type = ParseDataType (ert env) (cd_Type c), col_Length = sint (cd_Length c), col_Precision = 0,
                  col_Nullable = cd_Nullable c, col_Default = dflt, col_PrimaryKey = cd_PrimaryKey c, col_AutoInc = cd_AutoInc c\<rparr>
       in returnS (if ToUpper (ert env) (cd_Type c) = ''SEQ''
                   then col\<lparr>col_AutoInc := True, col_PrimaryKey := True, col_Nullable := False\<rparr> else col))"

definition tableExists :: "string \<Rightarrow> 'w Engine \<Rightarrow> bool" where
  "tableExists table e \<longleftrightarrow> (case GetTableInfo (en_storage e) table of Inr _ \<Rightarrow> True | Inl _ \<Rightarrow> False)"

definition executeCreateTable :: "'w eng_env \<Rightarrow> string \<Rightarrow> bool \<Rightarrow> ColumnDefAST list \<Rightarrow> ('w, Result) exec" where
  "executeCreateTable env table unlessExists colDefs e =
     (if unlessExists \<and> tableExists table e then (e, Inr (message (''Table '' @ table @ '' already exists'')))
      else bindS (onEval (mapS (buildColumn env) colDefs)) (\<lambda>columns.
           bindS (onStore (CreateTable (ee_senv env) \<lparr>tbl_ID = 0, tbl_Name = table, tbl_Columns = columns, tbl_RowCount = 0\<rparr>)) (\<lambda>_.
             returnS (message (''Table '' @ table @ '' created'')))) e)"

definition executeDropTable :: "'w eng_env \<Rightarrow> string \<Rightarrow> bool \<Rightarrow> ('w, Result) exec" where
  "executeDropTable env table onlyIfExists e =
     (if onlyIfExists \<and> \<not> tableExists table e then (e, Inr (message (''Table '' @ table @ '' does not exist'')))
      else bindS (onStore (DropTable (ee_senv env) table)) (\<lambda>_. returnS (message (''Table '' @ table @ '' dropped''))) e)"

definition executeCreateDatabase :: "'w eng_env \<Rightarrow> string \<Rightarrow> bool \<Rightarrow> ('w, Result) exec" where
  "executeCreateDatabase env dbName unlessExists e =
     (let os = fn_os (ee_fn env); dbPath = os_Join os (ee_path env) dbName
      in if os_Stat os dbPath (en_world e) \<noteq> None then
           (e, if unlessExists then Inr (message (''Database '' @ dbName @ '' already exists''))
               else Inl (ExecText (''database '' @ dbName @ '' already exists'')))
         else case os_MkdirAll os dbPath (en_world e) of
                (w, ok) \<Rightarrow> (e\<lparr>en_world := w\<rparr>,
                  if ok then Inr (message (''Database '' @ dbName @ '' created'')) else Inl (ExecText ''failed to create database'')))"

definition executeDropDatabase :: "'w eng_env \<Rightarrow> string \<Rightarrow> bool \<Rightarrow> ('w, Result) exec" where
  "executeDropDatabase env dbName onlyIfExists e =
     (let os = fn_os (ee_fn env); dbPath = os_Join os (ee_path env) dbName
      in if os_IsNotExist os dbPath (en_world e) then
           (e, if onlyIfExists then Inr (message (''Database '' @ dbName @ '' does not exist''))
               else Inl (ExecText (''database '' @ dbName @ '' does not exist'')))
         else case os_RemoveAll os dbPath (en_world e) of
                (w, ok) \<Rightarrow> (e\<lparr>en_world := w\<rparr>,
                  if ok then Inr (message (''Database '' @ dbName @ '' dropped'')) else Inl (ExecText ''failed to drop database'')))"

definition executeUse :: "string \<Rightarrow> ('w, Result) exec" where
  "executeUse name e = (if name \<noteq> [] then e\<lparr>en_currentDB := name\<rparr> else e, Inr (message ''Database changed''))"

text \<open>The result of DESCRIBE has values without a type.\<close>

definition untyped :: "string \<Rightarrow> Value" where
  "untyped s = zeroValue\<lparr>Data := GString s\<rparr>"

definition describeColumn :: "go_rt \<Rightarrow> ColumnDef \<Rightarrow> Row" where
  "describeColumn rt col =
     NewRow (map untyped
       [col_Name col,
        DataType_String (col_Type col) @ (if 0 < col_Length col then ''('' @ dec_int (col_Length col) @ '')'' else []),
        if col_Nullable col then ''YES'' else ''NO'',
        if col_PrimaryKey col then ''PRI'' else [],
        case col_Default col of Some v \<Rightarrow> fmt_v rt (Data v) | None \<Rightarrow> []])"

definition executeDescribe :: "'w eng_env \<Rightarrow> string \<Rightarrow> ('w, Result) exec" where
  "executeDescribe env table = bindS (tableInfoOf table) (\<lambda>info.
     returnS (selectResult [''Field'', ''Type'', ''Null'', ''Key'', ''Default''] (map (describeColumn (ert env)) (tbl_Columns info))))"

text \<open>ALTER TABLE changes the column list of the table in place; the stored rows and the metadata on disk are left alone.\<close>

definition alterColumns :: "go_rt \<Rightarrow> AlterAction \<Rightarrow> ColumnDef list \<Rightarrow> ColumnDef list" where
  "alterColumns rt action cols =
     (if aa_Type action = ''ADD'' then
        (case aa_ColumnDef action of
           None \<Rightarrow> cols
         | Some c \<Rightarrow> cols @ [\<lparr>col_Name = cd_Name c, col_Type = ParseDataType rt (cd_Type c), col_Length = sint (cd_Length c), col_Precision = 0,
                            col_Nullable = cd_Nullable c, col_Default = None, col_PrimaryKey = False, col_AutoInc = False\<rparr>])
      else if aa_Type action = ''DROP'' then
        (let keep = takeWhile (\<lambda>col. \<not> EqualFold rt (col_Name col) (aa_Column action)) cols
         in keep @ drop (Suc (length keep)) cols)
      else cols)"

definition executeAlterTable :: "'w eng_env \<Rightarrow> string \<Rightarrow> AlterAction list \<Rightarrow> ('w, Result) exec" where
  "executeAlterTable env table actions =
     bindS (tableInfoOf table) (\<lambda>info e.
       (e\<lparr>en_storage := updTable table (\<lambda>t. t\<lparr>tbl_Columns := fold (alterColumns (ert env)) actions (tbl_Columns t)\<rparr>) (en_storage e)\<rparr>,
        Inr (message (''Table '' @ table @ '' altered''))))"

end
