(* ===== verification/Engine.thy ===== *)
theory Engine
  imports Execute
begin

text \<open>
  \<^verbatim>\<open>src/executor/executor_dml.go\<close>, second part, and the top of \<^verbatim>\<open>src/executor/executor.go\<close>: full-text indexes, SET, SHOW, the dispatch on the kind of
  statement and \<^verbatim>\<open>Execute\<close>, the rows written directly, and what the engine does when it starts. BACKUP, which copies files, ends with \<open>Outside\<close>.
\<close>

section \<open>Full-text indexes\<close>

definition GetFTSIndexPath :: "'w eng_env \<Rightarrow> Storage \<Rightarrow> string \<Rightarrow> string \<Rightarrow> string" where
  "GetFTSIndexPath env s tableName columnName =
     (let key = tableName @ ''.'' @ columnName; join = os_Join (fn_os (ee_fn env))
      in case map_of (s_ftsIndexes s) key of
           None \<Rightarrow> []
         | Some info \<Rightarrow> join (join (ee_path env) ''data'') (''fts_'' @ (if fi_IndexName info = [] then key else fi_IndexName info) @ ''.idx''))"

definition saveFTSIndex :: "'w eng_env \<Rightarrow> string \<Rightarrow> string \<Rightarrow> 'w Engine \<Rightarrow> 'w Engine" where
  "saveFTSIndex env tableName columnName e =
     (let path = GetFTSIndexPath env (en_storage e) tableName columnName
      in if path = [] then e
         else case GetIndex (ert env) tableName columnName (en_fts e) of
                None \<Rightarrow> e
              | Some x \<Rightarrow>
                  (case SaveToFile (ee_fts env) x of
                     None \<Rightarrow> e
                   | Some d \<Rightarrow> e\<lparr>en_world := fst (os_WriteFile (fn_os (ee_fn env)) path d (en_world e))\<rparr>))"

text \<open>An error of \<^verbatim>\<open>indexExistingRows\<close> is only logged; a panic of the storage is not.\<close>

definition indexExistingRows :: "'w eng_env \<Rightarrow> string \<Rightarrow> string \<Rightarrow> ('w, unit) exec" where
  "indexExistingRows env tableName columnName e =
     (case GetTableInfo (en_storage e) tableName of
        Inl _ \<Rightarrow> (e, Inr ())
      | Inr info \<Rightarrow>
          (case List.find (\<lambda>(i, col). EqualFold (ert env) (col_Name col) columnName) (enumerate 0 (tbl_Columns info)) of
             None \<Rightarrow> (e, Inr ())
           | Some (colIdx, _) \<Rightarrow>
               (case onStore (GetRowsWithIDs (ee_senv env) tableName) e of
                  (e, Inl (ExecFault f)) \<Rightarrow> (e, Inl (ExecFault f))
                | (e, Inl _) \<Rightarrow> (e, Inr ())
                | (e, Inr rows) \<Rightarrow>
                    (e\<lparr>en_fts := fold (\<lambda>(rowID, row) m.
                         if colIdx < length row \<and> ToString (ert env) (row ! colIdx) \<noteq> []
                         then Manager_IndexDocument (ert env) (ee_fts env) tableName columnName rowID (ToString (ert env) (row ! colIdx)) m else m)
                         rows (en_fts e)\<rparr>, Inr ()))))"

text \<open>\<^verbatim>\<open>e.storage.CreateFTSIndex\<close> with its error dropped or logged\<close>

definition persistFTSIndex :: "'w eng_env \<Rightarrow> string \<Rightarrow> string \<Rightarrow> string \<Rightarrow> ('w, unit) exec" where
  "persistFTSIndex env table col indexName e =
     (case onStore (CreateFTSIndex (ee_senv env) table col indexName) e of
        (e, Inl (ExecFault f)) \<Rightarrow> (e, Inl (ExecFault f))
      | (e, _) \<Rightarrow> (e, Inr ()))"

primrec createFTSIndexes :: "'w eng_env \<Rightarrow> string \<Rightarrow> string \<Rightarrow> FTSConfig option \<Rightarrow> string list \<Rightarrow> ('w, unit) exec" where
  "createFTSIndexes env table indexName conf [] = returnS ()"
| "createFTSIndexes env table indexName conf (col # cols) =
     (\<lambda>e. if HasIndex (ert env) table col (en_fts e)
          then bindS (persistFTSIndex env table col indexName) (\<lambda>_. createFTSIndexes env table indexName conf cols) e
          else case CreateIndexWithConfig table col None conf (en_fts e) of
                 Inl _ \<Rightarrow> (e, Inl (ExecText ''failed to create fulltext index''))
               | Inr m \<Rightarrow>
                   bindS (persistFTSIndex env table col indexName) (\<lambda>_.
                   bindS (indexExistingRows env table col) (\<lambda>_ e.
                     createFTSIndexes env table indexName conf cols (saveFTSIndex env table col e))) (e\<lparr>en_fts := m\<rparr>))"

fun splitText :: "char \<Rightarrow> string \<Rightarrow> string \<Rightarrow> string list" where
  "splitText sep cur [] = [cur]"
| "splitText sep cur (c # s) = (if c = sep then cur # splitText sep [] s else splitText sep (cur @ [c]) s)"

definition parsedLevels :: "go_rt \<Rightarrow> string \<Rightarrow> int list" where
  "parsedLevels rt s =
     concat (map (\<lambda>p. case ParseInt64 (TrimSpace rt p) of Inr n \<Rightarrow> if 1 \<le> sint n \<and> sint n \<le> 3 then [sint n] else [] | Inl _ \<Rightarrow> [])
               (splitText (CHR '','') [] (Trim s [CHR 0x27, CHR 0x22])))"

definition withWeight :: "go_rt \<Rightarrow> (string, string) gomap \<Rightarrow> string \<Rightarrow> (float64 \<Rightarrow> FTSConfig \<Rightarrow> FTSConfig) \<Rightarrow> FTSConfig \<Rightarrow> FTSConfig" where
  "withWeight rt options key put c =
     (case map_of options key of
        None \<Rightarrow> c
      | Some s \<Rightarrow> (case rt_parseFloat rt s of Some w \<Rightarrow> if f64_less 0 w then put w c else c | None \<Rightarrow> c))"

definition engine_parseFTSOptions :: "'w fn_env \<Rightarrow> (string, string) gomap \<Rightarrow> FTSConfig" where
  "engine_parseFTSOptions env options =
     (let rt = fn_rt env; opt = map_of options; quotes = [CHR 0x27, CHR 0x22];
          c = DefaultFTSConfig;
          c = (case opt ''LEVELS'' of Some s \<Rightarrow> if parsedLevels rt s \<noteq> [] then c\<lparr>fc_Levels := parsedLevels rt s\<rparr> else c | None \<Rightarrow> c);
          c = (case opt ''MIN_TERM_LEN'' of
                 Some s \<Rightarrow> (case ParseInt64 s of Inr n \<Rightarrow> if 1 \<le> sint n then c\<lparr>fc_MinTermLen := sint n\<rparr> else c | Inl _ \<Rightarrow> c)
               | None \<Rightarrow> c);
          c = (case opt ''STORE_POSITION'' of
                 Some s \<Rightarrow> c\<lparr>fc_StorePos := Trim (ToLower rt s) quotes \<in> {''true'', ''1''}\<rparr>
               | None \<Rightarrow> c);
          c = withWeight rt options ''WEIGHT_L1'' (\<lambda>w c. c\<lparr>fc_WeightL1 := w\<rparr>) c;
          c = withWeight rt options ''WEIGHT_L2'' (\<lambda>w c. c\<lparr>fc_WeightL2 := w\<rparr>) c;
          c = withWeight rt options ''WEIGHT_L3'' (\<lambda>w c. c\<lparr>fc_WeightL3 := w\<rparr>) c;
          c = (case Option.bind (opt ''CUSTOM_DICT'') (\<lambda>s. Option.bind (fn_dec env (bytes_of (Trim s quotes))) (get_list get_string)) of
                 Some words \<Rightarrow> c\<lparr>fc_CustomDict := remdups (map (ToLower rt) words)\<rparr>
               | None \<Rightarrow> c)
      in case Option.bind (opt ''SYNONYMS'') (\<lambda>s. Option.bind (fn_dec env (bytes_of (Trim s quotes))) (get_map (get_list get_string))) of
           Some m \<Rightarrow> c\<lparr>fc_Synonyms := foldl (\<lambda>m (w, syns). put_key (ToLower rt w) syns m) [] (orEmpty m)\<rparr>
         | None \<Rightarrow> c)"

definition executeCreateIndex ::
  "'w eng_env \<Rightarrow> string \<Rightarrow> string \<Rightarrow> string list \<Rightarrow> bool \<Rightarrow> (string, string) gomap option \<Rightarrow> ('w, Result) exec" where
  "executeCreateIndex env indexName table cols fullText options =
     (if fullText then
        if cols = [] then failS (ExecText ''FULLTEXT index requires at least one column'')
        else let conf = map_option (engine_parseFTSOptions (ee_fn env)) options;
                 levelStr = (case conf of
                     Some c \<Rightarrow> if fc_Levels c \<noteq> [] then '' (levels: ['' @ joinText '' '' (map dec_int (fc_Levels c)) @ ''])'' else []
                   | None \<Rightarrow> [])
             in bindS (createFTSIndexes env table indexName conf cols) (\<lambda>_.
                  returnS (message (''Fulltext index '' @ indexName @ '' created on table '' @ table @ '' ('' @ joinText '', '' cols @ '')'' @ levelStr)))
      else returnS (message (''Index '' @ indexName @ '' created on table '' @ table)))"

text \<open>A failed \<^verbatim>\<open>DropIndex\<close> is only logged.\<close>

definition dropFTSIndex :: "string \<Rightarrow> string \<Rightarrow> Manager \<Rightarrow> Manager" where
  "dropFTSIndex table col m = (case DropIndex table col m of Inr m' \<Rightarrow> m' | Inl _ \<Rightarrow> m)"

definition executeDropIndex :: "string \<Rightarrow> string \<Rightarrow> string list \<Rightarrow> bool \<Rightarrow> ('w, Result) exec" where
  "executeDropIndex indexName table cols fullText e =
     (if fullText then
        let names = (if cols = []
                     then concat (map (\<lambda>key. if hasPrefix key (table @ ''.'') then case splitKey key of Some (_, c) \<Rightarrow> [c] | None \<Rightarrow> [] else []) (ListIndexes (en_fts e)))
                     else cols)
        in (e\<lparr>en_fts := fold (dropFTSIndex table) names (en_fts e)\<rparr>, Inr (message (''Fulltext index '' @ indexName @ '' dropped'')))
      else (e, Inr (message (''Index '' @ indexName @ '' dropped''))))"

section \<open>SET and SHOW\<close>

definition mysqlSessionVars :: "string list" where
  "mysqlSessionVars = [''NAMES'', ''CHARACTER'', ''CHARSET'', ''COLLATION'', ''COLLATE'', ''AUTOCOMMIT'', ''SQL_MODE'', ''TIME_ZONE'', ''TIMEZONE'',
     ''CHARACTER_SET_CLIENT'', ''CHARACTER_SET_CONNECTION'', ''CHARACTER_SET_RESULTS'', ''CHARACTER_SET_SERVER'', ''COLLATION_CONNECTION'',
     ''COLLATION_SERVER'', ''INIT_CONNECT'', ''INTERACTIVE_TIMEOUT'', ''WAIT_TIMEOUT'', ''NET_WRITE_TIMEOUT'', ''NET_READ_TIMEOUT'',
     ''MAX_ALLOWED_PACKET'', ''NET_BUFFER_LENGTH'', ''TX_ISOLATION'', ''TRANSACTION_ISOLATION'', ''SESSION'', ''GLOBAL'']"

definition changeAuth :: "'w eng_env \<Rightarrow> (Auth \<Rightarrow> Auth) \<Rightarrow> string \<Rightarrow> ('w, Result) exec" where
  "changeAuth env f msg e =
     (let a = f (en_auth e)
      in case onStore (SetAuthConfig (ee_senv env) (ToMap a)) (e\<lparr>en_auth := a\<rparr>) of
           (e, Inl (ExecFault x)) \<Rightarrow> (e, Inl (ExecFault x))
         | (e, _) \<Rightarrow> (e, Inr (message msg)))"

definition executeSet :: "'w eng_env \<Rightarrow> string \<Rightarrow> Expression \<Rightarrow> ('w, Result) exec" where
  "executeSet env var expr =
     bindS (onEval (evalExpr env expr [] [] 0)) (\<lambda>v.
       let value = ToString (ert env) v; setVar = ToUpper (ert env) var
       in if setVar = ''USER'' then changeAuth env (SetCredentials value []) ''Username set''
          else if setVar = ''PASSWORD'' then changeAuth env (\<lambda>a. SetCredentials (GetUsername a) value a) ''Password updated''
          else if setVar = ''LOG_LEVEL'' then returnS (message (''Log level set to '' @ value))
          else if setVar \<in> set mysqlSessionVars \<or> hasPrefix setVar ''SESSION.'' then returnS (message (var @ '' set to '' @ value))
          else if hasPrefix var ''@'' then returnS (message (''Variable set to '' @ value))
          else failS (ExecText (''unknown SET option: '' @ var)))"

definition showTables :: "bool \<Rightarrow> Storage \<Rightarrow> Result" where
  "showTables isFull s =
     (if isFull then selectResult [''Tables_in_xxldb'', ''Table_type''] (map (\<lambda>t. textRow [t, ''BASE TABLE'']) (ListTables s))
      else selectResult [''table_name''] (map (\<lambda>t. textRow [t]) (ListTables s)))"

definition boolText :: "bool \<Rightarrow> string" where
  "boolText b = (if b then ''true'' else ''false'')"

definition showColumns :: "bool \<Rightarrow> ColumnDef list \<Rightarrow> Result" where
  "showColumns isFull cols =
     (if isFull then
        selectResult [''Field'', ''Type'', ''Collation'', ''Null'', ''Key'', ''Default'', ''Extra'', ''Privileges'', ''Comment'']
          (map (\<lambda>col. let typ = DataType_String (col_Type col)
                      in textRow [col_Name col, typ, typ @ ''('' @ dec_int (col_Length col) @ '')'', [], ''YES'', [], [], [], ''select,insert,update,references'', []]) cols)
      else
        selectResult [''column_name'', ''type'', ''length'', ''nullable'', ''primary_key'']
          (map (\<lambda>col. textRow [col_Name col, DataType_String (col_Type col), dec_int (col_Length col), boolText (col_Nullable col), boolText (col_PrimaryKey col)]) cols))"

definition showCreate :: "string \<Rightarrow> ColumnDef list \<Rightarrow> Result" where
  "showCreate table cols =
     (let nl = [char_of (10 :: nat)]
      in selectResult [''Table'', ''Create Table'']
           [textRow [table, ''CREATE TABLE `'' @ table @ ''` ('' @ nl @ ''  '' @ joinText ('','' @ nl @ ''  '') (map ColumnDef_String cols) @ nl
                            @ '') ENGINE=XxLdb DEFAULT CHARSET=utf8mb4'']])"

definition showTableStatus :: "'w eng_env \<Rightarrow> string \<Rightarrow> Storage \<Rightarrow> Result" where
  "showTableStatus env pat s =
     selectResult [''Name'', ''Engine'', ''Version'', ''Row_format'', ''Rows'', ''Avg_row_length'', ''Data_length'', ''Max_data_length'', ''Index_length'',
                   ''Data_free'', ''Auto_increment'', ''Create_time'', ''Update_time'', ''Check_time'', ''Collation'', ''Checksum'', ''Create_options'', ''Comment'']
       (map (\<lambda>t. textRow [t, ''InnoDB'', ''10'', ''Compact'', dec_int (case GetTableInfo s t of Inr info \<Rightarrow> tbl_RowCount info | Inl _ \<Rightarrow> 0),
                         ''0'', ''0'', ''0'', ''0'', ''0'', ''0'', [], [], [], ''utf8mb4_general_ci'', [], [], []])
          (filter (\<lambda>t. pat = [] \<or> os_Match (fn_os (ee_fn env)) pat t) (ListTables s)))"

definition showIndex :: "ColumnDef list \<Rightarrow> Result" where
  "showIndex cols =
     selectResult [''Table'', ''Non_unique'', ''Key_name'', ''Seq_in_index'', ''Column_name'', ''Collation'', ''Cardinality'', ''Sub_part'', ''Packed'', ''Null'',
                   ''Index_type'', ''Comment'', ''Index_comment'', ''Visible'', ''Expression'']
       (map (\<lambda>(i, col). textRow [''xxldb'', ''0'', ''PRIMARY'', dec_nat i, col_Name col, ''A'', ''0'', [], [], [], ''BTREE'', [], [], [], ''YES''])
          (enumerate 1 (filter col_PrimaryKey cols)))"

definition routineColumns :: "string list" where
  "routineColumns = [''Db'', ''Name'', ''Type'', ''Definer'', ''Modified'', ''Created'', ''Security_type'', ''Comment'', ''character_set_client'',
     ''collation_connection'', ''Database Collation'']"

text \<open>The answers of SHOW that do not depend on the database\<close>

definition fixedShow :: "(string, Result) gomap" where
  "fixedShow =
     [(''DATABASES'', selectResult [''Database''] [textRow [''xxldb'']]),
      (''SCHEMAS'', selectResult [''Database''] [textRow [''xxldb'']]),
      (''VARIABLES'', selectResult [''Variable_name'', ''Value'']
         [textRow [''character_set_server'', ''utf8mb4''], textRow [''collation_server'', ''utf8mb4_general_ci''], textRow [''version'', ''5.7.42''],
          textRow [''autocommit'', ''1'']]),
      (''STATUS'', selectResult [''Variable_name'', ''Value''] []),
      (''WARNINGS'', selectResult [''Level'', ''Code'', ''Message''] []),
      (''GRANTS'', selectResult [''Grants for admin@%'']
         [textRow [''GRANT ALL PRIVILEGES ON *.* TO '' @ [CHR 0x27] @ ''admin'' @ [CHR 0x27] @ ''@'' @ [CHR 0x27] @ ''%'' @ [CHR 0x27]]]),
      (''ENGINES'', selectResult [''Engine'', ''Support'', ''Comment'', ''Transactions'', ''XA'', ''Savepoints'']
         [textRow [''XxLdb'', ''DEFAULT'', ''XxLdb storage engine'', ''NO'', ''NO'', ''NO'']]),
      (''OPEN TABLES'', selectResult [''Database'', ''Table'', ''In_use'', ''Name_locked''] []),
      (''COLLATION'', selectResult [''Collation'', ''Charset'', ''Id'', ''Default'', ''Compiled'', ''Sortlen'']
         [textRow [''utf8mb4_general_ci'', ''utf8mb4'', ''45'', ''Yes'', ''Yes'', ''1'']]),
      (''FUNCTION STATUS'', selectResult routineColumns []),
      (''PROCEDURE STATUS'', selectResult routineColumns []),
      (''TRIGGERS'', selectResult [''Trigger'', ''Event'', ''Table'', ''Statement'', ''Timing'', ''Created'', ''sql_mode'', ''Definer'', ''character_set_client'',
         ''collation_connection'', ''Database Collation''] []),
      (''EVENTS'', selectResult [''Db'', ''Name'', ''Definer'', ''Time zone'', ''Type'', ''Execute at'', ''Interval value'', ''Interval field'', ''Starts'', ''Ends'',
         ''Status'', ''Originator'', ''character_set_client'', ''collation_connection'', ''Database Collation''] [])]"

definition executeShow :: "'w eng_env \<Rightarrow> string \<Rightarrow> string \<Rightarrow> string \<Rightarrow> ('w, Result) exec" where
  "executeShow env typ target pat =
     (let kind = ToUpper (ert env) typ
      in if kind \<in> {''TABLES'', ''FULL TABLES''} then (\<lambda>e. (e, Inr (showTables (kind = ''FULL TABLES'') (en_storage e))))
         else if kind \<in> {''COLUMNS'', ''FULL COLUMNS''} then
           bindS (tableInfoOf target) (\<lambda>info. returnS (showColumns (kind = ''FULL COLUMNS'') (tbl_Columns info)))
         else if kind = ''CREATE'' then bindS (tableInfoOf target) (\<lambda>info. returnS (showCreate target (tbl_Columns info)))
         else if kind = ''TABLE STATUS'' then (\<lambda>e. (e, Inr (showTableStatus env pat (en_storage e))))
         else if kind \<in> {''INDEX'', ''INDEXES'', ''KEYS''} then
           (if target = [] then failS (ExecText ''SHOW INDEX requires table name'')
            else bindS (tableInfoOf target) (\<lambda>info. returnS (showIndex (tbl_Columns info))))
         else case map_of fixedShow kind of
                Some r \<Rightarrow> returnS r
              | None \<Rightarrow> failS (ExecText (''unknown SHOW option: '' @ typ)))"

section \<open>Statements\<close>

text \<open>The parser sets neither the columns nor the full-text flag of a DROP INDEX, so no index is ever dropped.\<close>

fun ExecuteStatement :: "'w eng_env \<Rightarrow> Statement \<Rightarrow> ('w, Result) sql" where
  "ExecuteStatement env (StmtSelect st) = onExec (executeSelect env st)"
| "ExecuteStatement env (StmtInsert table columns valuesList sel) = onExec (executeInsert env table columns valuesList sel)"
| "ExecuteStatement env (StmtUpdate table updates cond limit) = executeUpdate env table updates cond"
| "ExecuteStatement env (StmtDelete table cond limit) = executeDelete env table cond"
| "ExecuteStatement env (StmtCreateTable table flag colDefs constraints) = onExec (executeCreateTable env table flag colDefs)"
| "ExecuteStatement env (StmtDropTable table flag) = onExec (executeDropTable env table flag)"
| "ExecuteStatement env (StmtCreateDatabase name flag) = onExec (executeCreateDatabase env name flag)"
| "ExecuteStatement env (StmtDropDatabase name flag) = onExec (executeDropDatabase env name flag)"
| "ExecuteStatement env (StmtUse name) = onExec (executeUse name)"
| "ExecuteStatement env (StmtDescribe table) = onExec (executeDescribe env table)"
| "ExecuteStatement env (StmtCreateIndex name table cols unique fullText options) = onExec (executeCreateIndex env name table cols fullText options)"
| "ExecuteStatement env (StmtDropIndex name table) = onExec (executeDropIndex name table [] False)"
| "ExecuteStatement env (StmtAlterTable table actions) = onExec (executeAlterTable env table actions)"
| "ExecuteStatement env (StmtSet var expr) = onExec (executeSet env var expr)"
| "ExecuteStatement env (StmtShow typ target pat) = onExec (executeShow env typ target pat)"
| "ExecuteStatement env (StmtBackup path) = failS Outside"
| "ExecuteStatement env (StmtRestore path) = returnS (message (''Database would be restored from '' @ path))"
| "ExecuteStatement env StmtBegin = returnS (message ''Transaction started'')"
| "ExecuteStatement env StmtCommit = returnS (message ''Transaction committed'')"
| "ExecuteStatement env StmtRollback = returnS (message ''Transaction rolled back'')"

definition Engine_Execute :: "'w eng_env \<Rightarrow> string \<Rightarrow> ('w, Result) sql" where
  "Engine_Execute env sql =
     (case ParseString (ert env) sql of
        Inl err \<Rightarrow> failS (Sql (ExecParse err))
      | Inr stmt \<Rightarrow> ExecuteStatement env stmt)"

section \<open>Rows written directly\<close>

text \<open>\<^verbatim>\<open>fmt.Sprintf("X'%x'", v)\<close> for bytes; \<open>%d\<close> and \<open>%v\<close> for numbers\<close>

definition argText :: "go_rt \<Rightarrow> godata \<Rightarrow> string" where
  "argText rt v =
     (let quoted = (\<lambda>s. CHR 0x27 # s @ [CHR 0x27])
      in case v of
           GNil \<Rightarrow> ''NULL''
         | GString s \<Rightarrow> quoted (ReplaceAll s [CHR 0x27] [CHR 0x27, CHR 0x27])
         | GBytes b \<Rightarrow> CHR ''X'' # quoted (hex_encode b)
         | GInt w \<Rightarrow> dec_int (sint w)
         | GInt32 w \<Rightarrow> dec_int (sint w)
         | GInt64 w \<Rightarrow> dec_int (sint w)
         | GFloat32 f \<Rightarrow> fmt_v rt v
         | GFloat64 f \<Rightarrow> fmt_v rt v
         | GBool b \<Rightarrow> if b then ''1'' else ''0''
         | d \<Rightarrow> quoted (fmt_v rt d))"

primrec bindPlaceholders :: "go_rt \<Rightarrow> godata list \<Rightarrow> string \<Rightarrow> string" where
  "bindPlaceholders rt [] sql = sql"
| "bindPlaceholders rt (arg # args) sql =
     (case IndexOf sql ''?'' of
        None \<Rightarrow> sql
      | Some idx \<Rightarrow> bindPlaceholders rt args (take idx sql @ argText rt arg @ drop (idx + 1) sql))"

definition ExecuteWithArgs :: "'w eng_env \<Rightarrow> string \<Rightarrow> godata list \<Rightarrow> ('w, Result) sql" where
  "ExecuteWithArgs env sql args = Engine_Execute env (bindPlaceholders (ert env) args sql)"

definition InsertRowDirect :: "'w eng_env \<Rightarrow> string \<Rightarrow> godata list \<Rightarrow> ('w, u64) exec" where
  "InsertRowDirect env table values =
     bindS (tableInfoOf table) (\<lambda>info.
       let dflt = defaultRow (tbl_Columns info);
           row = map NewValue (take (length dflt) values) @ drop (length values) dflt
       in bindS (onStore (Storage_InsertRow (ee_senv env) table row)) (\<lambda>(rowID, _). returnS rowID))"

section \<open>Starting the engine\<close>

definition scriptTable :: TableInfo where
  "scriptTable =
     \<lparr>tbl_ID = 0, tbl_Name = ''xxscript'',
      tbl_Columns = [(NewColumnDef ''name'' TypeVarchar 100)\<lparr>col_Nullable := False, col_PrimaryKey := True\<rparr>,
                     (NewColumnDef ''script'' TypeText 0)\<lparr>col_Nullable := False\<rparr>,
                     NewColumnDef ''description'' TypeVarchar 500],
      tbl_RowCount = 0\<rparr>"

text \<open>An error is only logged.\<close>

definition initSystemTables :: "'w eng_env \<Rightarrow> 'w Engine \<Rightarrow> 'w Engine" where
  "initSystemTables env e =
     (if list_ex (\<lambda>t. ToLower (ert env) t = ''xxscript'') (ListTables (en_storage e)) then e
      else e\<lparr>en_storage := fst (CreateTable (ee_senv env) scriptTable (en_storage e))\<rparr>)"

text \<open>
  An index of the metadata is created again; when its file can be read it is used as it is, otherwise the rows of the table are indexed.
\<close>

definition restoreIndex :: "'w eng_env \<Rightarrow> FTSIndexInfo \<Rightarrow> 'w Engine \<Rightarrow> 'w Engine" where
  "restoreIndex env info e =
     (let table = fi_TableName info; col = fi_ColumnName info
      in if HasIndex (ert env) table col (en_fts e) then e
         else case CreateIndex table col None (en_fts e) of
                Inl _ \<Rightarrow> e
              | Inr m \<Rightarrow>
                  let e = e\<lparr>en_fts := m\<rparr>; path = GetFTSIndexPath env (en_storage e) table col;
                      loaded = (if path = [] then None
                                else Option.bind (GetIndex (ert env) table col m) (\<lambda>x.
                                     Option.bind (os_ReadFile (fn_os (ee_fn env)) path (en_world e)) (\<lambda>file. LoadFromFile (ee_fts env) file x)))
                  in case loaded of
                       Some x \<Rightarrow> e\<lparr>en_fts := onIndex (ftsKey table col) (\<lambda>_. x) m\<rparr>
                     | None \<Rightarrow> fst (indexExistingRows env table col e))"

definition restoreFTSIndexes :: "'w eng_env \<Rightarrow> 'w Engine \<Rightarrow> 'w Engine" where
  "restoreFTSIndexes env e = fold (\<lambda>(key, info). restoreIndex env info) (s_ftsIndexes (en_storage e)) e"

text \<open>
  \<^verbatim>\<open>NewEngineWithConfig\<close> from the point where the storage is open: the system table, the stored and the configured credentials, the indexes
\<close>

definition startEngine :: "'w eng_env \<Rightarrow> string \<Rightarrow> string \<Rightarrow> Storage \<Rightarrow> 'w \<Rightarrow> 'w Engine" where
  "startEngine env username password s w =
     (let e = \<lparr>en_storage = s, en_auth = NewAuth, en_scripts = [], en_fts = NewManager, en_currentDB = [], en_world = w\<rparr>;
          e = initSystemTables env e;
          e = (if s_authConfig s \<noteq> [] then e\<lparr>en_auth := FromMap (s_authConfig s) (en_auth e)\<rparr> else e);
          e = (if username \<noteq> [] \<and> password \<noteq> [] then e\<lparr>en_auth := SetCredentials username password (en_auth e)\<rparr> else e)
      in restoreFTSIndexes env e)"

end
