(* ===== verification/Faults.thy ===== *)
theory Faults
  imports Builtins
begin

text \<open>
  Which SQL functions can panic or run forever. A function that only looks at its arguments is total when it returns a value or an error on every
  argument list; the combinators keep totality, and \<open>riskyNames\<close> lists exactly the functions that are not total.
\<close>

definition total_fn :: "(Value list \<Rightarrow> fn_result) \<Rightarrow> bool" where
  "total_fn f \<longleftrightarrow> (\<forall>args x. f args \<noteq> Inl (FnFault x))"

named_theorems total_intros "functions that never panic"

lemma exactly_fault [simp]: "exactly n name args r = Inl (FnFault x) \<longleftrightarrow> length args = n \<and> r = Inl (FnFault x)"
  and atLeast_fault [simp]: "atLeast n name args r = Inl (FnFault x) \<longleftrightarrow> n \<le> length args \<and> r = Inl (FnFault x)"
  and nullSafe_fault [simp]: "nullSafe vs r = Inl (FnFault x) \<longleftrightarrow> \<not> list_ex IsNull vs \<and> r = Inl (FnFault x)"
  and needs_fault [simp]: "needs c k = Inl (FnFault x) \<longleftrightarrow> (\<exists>v. c = Inr v \<and> k v = Inl (FnFault x))"
  and orFault_fault [simp]: "orFault g h = Inl (FnFault x) \<longleftrightarrow> g = Inl x \<or> (\<exists>v. g = Inr v \<and> h v = Inl (FnFault x))"
  by (auto simp: exactly_def atLeast_def nullSafe_def needs_def orFault_def split: sum.splits)

lemma total_timeField: "total_fn (timeField name f env)"
  by (simp add: total_fn_def timeField_def)

lemma total_floatFn: "total_fn (floatFn name f env)"
  by (simp add: total_fn_def floatFn_def)

lemma imageOr_fault [simp]: "imageOr v k = Inl (FnFault x) \<longleftrightarrow> (\<exists>d. getImageData v = Some d \<and> k d = Inl (FnFault x))"
  by (auto simp: imageOr_def split: option.splits)

lemma infoOr_fault [simp]: "infoOr env v k = Inl (FnFault x) \<longleftrightarrow> (\<exists>d i. getImageData v = Some d \<and> parseImageInfo env d = Some i \<and> k i = Inl (FnFault x))"
  by (auto simp: infoOr_def split: option.splits)

lemma fromHex_no_fault [simp]: "fromHex s mk \<noteq> Inl (FnFault x)"
  by (simp add: fromHex_def Let_def split: option.split)

lemma blobBytes_fault: "blobBytes name v k = Inl (FnFault x) \<Longrightarrow> \<exists>d. k d = Inl (FnFault x)"
  by (auto simp: blobBytes_def split: godata.splits)

lemma total_strings [total_intros]:
  "total_fn (fnConcat env)" "total_fn (fnLength env)" "total_fn (fnByteLength env)" "total_fn (fnUpper env)" "total_fn (fnLower env)"
  "total_fn (fnTrim env)" "total_fn (fnLTrim env)" "total_fn (fnRTrim env)" "total_fn (fnReplace env)" "total_fn (fnInstr env)"
  "total_fn (fnReverse env)" "total_fn (fnConcatWs env)" "total_fn (fnStrcmp env)"
  by (simp_all add: total_fn_def fnConcat_def fnLength_def fnByteLength_def fnUpper_def fnLower_def fnTrim_def fnLTrim_def fnRTrim_def fnReplace_def
      fnInstr_def fnReverse_def fnConcatWs_def fnStrcmp_def Let_def split: option.split)

lemma total_numbers [total_intros]:
  "total_fn (fnAbs env)" "total_fn (fnRound env)" "total_fn (fnFloor env)" "total_fn (fnCeil env)" "total_fn (fnPower env)" "total_fn (fnSqrt env)"
  "total_fn (fnMod env)" "total_fn (fnSign env)" "total_fn (fnGcd env)" "total_fn (fnLog env)"
  by (simp_all add: total_fn_def fnAbs_def fnRound_def fnFloor_def fnCeil_def fnPower_def fnSqrt_def fnMod_def fnSign_def fnGcd_def fnLog_def Let_def)

lemma total_float_functions [total_intros]:
  "total_fn (fnLog10 env)" "total_fn (fnLog2 env)" "total_fn (fnExp env)" "total_fn (fnSin env)" "total_fn (fnCos env)" "total_fn (fnTan env)"
  "total_fn (fnRadians env)" "total_fn (fnDegrees env)"
  by (simp_all add: fnLog10_def fnLog2_def fnExp_def fnSin_def fnCos_def fnTan_def fnRadians_def fnDegrees_def total_floatFn)

lemma total_aggregates [total_intros]:
  "total_fn fnCount" "total_fn (fnSum env)" "total_fn (fnAvg env)" "total_fn (fnMin env)" "total_fn (fnMax env)"
  by (auto simp: total_fn_def fnCount_def fnSum_def fnAvg_def fnMin_def fnMax_def split: list.split if_splits)

lemma total_dates [total_intros]:
  "total_fn (fnDate env)" "total_fn (fnYear env)" "total_fn (fnMonth env)" "total_fn (fnDay env)" "total_fn (fnHour env)" "total_fn (fnMinute env)"
  "total_fn (fnSecond env)" "total_fn (fnDateDiff env)" "total_fn (fnDateAdd env)" "total_fn (fnDateSub env)" "total_fn (fnDateFormat env)"
  "total_fn (fnMakeDate env)" "total_fn (fnMakeTime env)" "total_fn (fnLastDay env)" "total_fn (fnQuarter env)" "total_fn (fnWeek env)"
  "total_fn (fnDayOfWeek env)" "total_fn (fnDayOfYear env)"
  by (simp_all add: fnYear_def fnMonth_def fnDay_def fnHour_def fnMinute_def fnSecond_def fnQuarter_def fnWeek_def fnDayOfWeek_def fnDayOfYear_def
      total_timeField)
    (simp_all add: total_fn_def fnDate_def fnDateDiff_def fnDateAdd_def fnDateSub_def fnDateFormat_def fnMakeDate_def fnMakeTime_def fnLastDay_def Let_def
      split: option.split)

lemma total_conversions [total_intros]:
  "total_fn (fnCast env)" "total_fn (fnToString env)" "total_fn (fnToInt env)" "total_fn (fnToFloat env)" "total_fn fnCoalesce" "total_fn (fnNullif env)"
  "total_fn (fnIf env)" "total_fn fnIsNull" "total_fn fnIsNotNull" "total_fn fnTypeof"
  by (auto simp: total_fn_def fnCast_def fnToString_def fnToInt_def fnToFloat_def fnCoalesce_def fnNullif_def fnIf_def fnIsNull_def fnIsNotNull_def
      fnTypeof_def Let_def split: option.splits if_splits)

lemma total_binary [total_intros]:
  "total_fn (fnImageFromBase64 env)" "total_fn (fnImageToBase64 env)" "total_fn (fnImageWidth env)" "total_fn (fnImageHeight env)"
  "total_fn (fnImageFormat env)" "total_fn fnImageSize" "total_fn (fnImageMime env)" "total_fn (fnImageFromHex env)" "total_fn fnImageToHex"
  "total_fn (fnBlobFromBase64 env)" "total_fn fnBlobToBase64" "total_fn (fnBlobFromHex env)" "total_fn fnBlobToHex"
  by (auto simp: total_fn_def fnImageFromBase64_def fnImageToBase64_def fnImageWidth_def fnImageHeight_def fnImageFormat_def fnImageSize_def
      fnImageMime_def fnImageFromHex_def fnImageToHex_def fnBlobFromBase64_def fnBlobToBase64_def fnBlobFromHex_def fnBlobToHex_def Let_def
      dest!: blobBytes_fault split: option.splits if_splits)

text \<open>\<^verbatim>\<open>SPACE\<close> repeats a single character at most \<open>2^63 - 1\<close> times, which \<^verbatim>\<open>strings.Repeat\<close> accepts.\<close>

lemma total_space [total_intros]: "total_fn (fnSpace env)"
proof -
  have "\<not> 2 ^ 63 \<le> sint w" for w :: u64 using sint64_bounds(2) [of w] by simp
  then show ?thesis by (auto simp: total_fn_def fnSpace_def Repeat_def Let_def split: if_splits)
qed

section \<open>The functions that fault\<close>

definition riskyNames :: "string list" where
  "riskyNames = [''SUBSTRING'', ''SUBSTR'', ''LEFT'', ''RIGHT'', ''LPAD'', ''RPAD'', ''REPEAT'', ''LCM'', ''LIST_FOLDER'', ''FOLDER_FILES'']"

lemma pureFunctions_total:
  "list_all (\<lambda>(name, f). name \<in> set riskyNames \<or> total_fn (f env)) pureFunctions"
  by (simp add: pureFunctions_def riskyNames_def total_intros)

definition pureNames :: "string list" where
  "pureNames = map fst (pureFunctions :: (string \<times> (unit fn_env \<Rightarrow> Value list \<Rightarrow> fn_result)) list)"

lemma pureNames: "map fst pureFunctions = pureNames"
  by (simp add: pureNames_def pureFunctions_def)

lemma pureNames_Some:
  assumes "name \<in> set pureNames"
  shows "\<exists>f :: 'w fn_env \<Rightarrow> Value list \<Rightarrow> fn_result. map_of pureFunctions name = Some f"
proof -
  have "name \<in> set (map fst (pureFunctions :: (string \<times> ('w fn_env \<Rightarrow> Value list \<Rightarrow> fn_result)) list))"
    using assms by (simp only: pureNames)
  then show ?thesis by (metis image_set map_of_eq_None_iff not_None_eq)
qed

lemma Some_pureNames:
  fixes f :: "'w fn_env \<Rightarrow> Value list \<Rightarrow> fn_result"
  shows "map_of pureFunctions name = Some f \<Longrightarrow> name \<in> set pureNames"
  by (drule map_of_key) (simp only: pureNames)

lemma map_of_map_prod: "map_of (map (map_prod id g) xs) k = map_option g (map_of xs k)"
  by (induction xs) auto

lemma Fn_Call_pure:
  assumes "map_of pureFunctions name = Some f" "ToUpper (fn_rt env) name = name"
  shows "Fn_Call env name args w = (w, f env args)"
  using assms by (simp add: Fn_Call_def Fn_Get_def Registry_def map_add_def map_of_map_prod pureFn_def split: option.split)

lemma pure_names_ascii: "list_all (\<lambda>(name, f). list_all is_ascii name \<and> map upper_ascii name = name) pureFunctions"
  by (simp add: pureFunctions_def is_ascii_def upper_ascii_def)

lemma Fn_Call_pure_name: "map_of pureFunctions name = Some f \<Longrightarrow> Fn_Call env name args w = (w, f env args)"
  using pure_names_ascii by (intro Fn_Call_pure) (auto simp: ToUpper_def list_all_iff dest!: map_of_SomeD)

lemma string_value [simp]: "ToString rt (NewStringValue s) = s" "IsNull (NewStringValue s) \<longleftrightarrow> False"
  by (simp_all add: ToString_def NewStringValue_def IsString_def)

lemma int_value [simp]: "int64Of rt (NewIntValue n) = n" "IsNull (NewIntValue n) \<longleftrightarrow> False"
  by (simp_all add: int64Of_def ToInt64_def NewIntValue_def)

lemma runesOf_Nil [simp]: "runesOf [] = []"
  by (simp add: runesOf.simps)

lemma risky_calls:
  "fnSubstring env [NewStringValue [], NewIntValue 1, NewIntValue (- 1)] = Inl (FnFault GoPanic)"
  "fnLeft env [NewStringValue [], NewIntValue (- 1)] = Inl (FnFault GoPanic)"
  "fnRight env [NewStringValue [], NewIntValue (- 1)] = Inl (FnFault GoPanic)"
  "fnLpad env [NewStringValue [], NewIntValue 1, NewStringValue []] = Inl (FnFault NoReturn)"
  "fnRpad env [NewStringValue [], NewIntValue 1, NewStringValue []] = Inl (FnFault NoReturn)"
  "fnRepeat env [NewStringValue [], NewIntValue (- 1)] = Inl (FnFault GoPanic)"
  "fnLcm env [NewIntValue 0, NewIntValue 0] = Inl (FnFault GoPanic)"
  "fnListFolder env [NewBlobRefValue 0 0] = Inl (FnFault GoPanic)"
  "fnFolderFiles env [NewBlobRefValue 0 0] = Inl (FnFault GoPanic)"
  by (simp_all add: fnSubstring_def fnLeft_def fnRight_def fnLpad_def fnRpad_def fnRepeat_def fnLcm_def fnListFolder_def fnFolderFiles_def Let_def
      sliceRunes_def lpadLoop.simps rpadLoop.simps Repeat_def lcm64_def gcd64.simps folderOr_def folderData_def NewBlobRefValue_def)

lemma risky_names:
  "map_of pureFunctions ''SUBSTRING'' = Some fnSubstring" "map_of pureFunctions ''SUBSTR'' = Some fnSubstring"
  "map_of pureFunctions ''LEFT'' = Some fnLeft" "map_of pureFunctions ''RIGHT'' = Some fnRight"
  "map_of pureFunctions ''LPAD'' = Some fnLpad" "map_of pureFunctions ''RPAD'' = Some fnRpad"
  "map_of pureFunctions ''REPEAT'' = Some fnRepeat" "map_of pureFunctions ''LCM'' = Some fnLcm"
  "map_of pureFunctions ''LIST_FOLDER'' = Some fnListFolder" "map_of pureFunctions ''FOLDER_FILES'' = Some fnFolderFiles"
  by (simp_all add: pureFunctions_def)

lemma risky_faults: "name \<in> set riskyNames \<Longrightarrow> \<exists>f args x. map_of pureFunctions name = Some f \<and> f env args = Inl (FnFault x)"
  using risky_names risky_calls [of env] unfolding riskyNames_def by (auto simp: risky_names) (blast intro: risky_calls)+


end
