(* ===== verification/Sample.thy ===== *)
theory Sample
  imports Eval Database
begin

text \<open>
  An environment on which the witnesses about the engine run: a clock that stands still, no files, no images, and no floating-point arithmetic beyond what the
  model computes itself.
\<close>

definition sampleMath :: go_math where
  "sampleMath = \<lparr>fm_add = (\<lambda>_ _. 0), fm_sub = (\<lambda>_ _. 0), fm_mul = (\<lambda>_ _. 0), fm_Pow = (\<lambda>_ _. 0), fm_Pow10 = (\<lambda>_. 0), fm_Round = id, fm_Floor = id, fm_Ceil = id,
     fm_Sqrt = id, fm_Log = id, fm_Log10 = id, fm_Log2 = id, fm_Exp = id, fm_Sin = id, fm_Cos = id, fm_Tan = id, fm_fmt1 = (\<lambda>_. []), fm_parseErr = (\<lambda>_. 0)\<rparr>"

definition sampleTime :: go_time where
  "sampleTime = \<lparr>tm_Year = (\<lambda>_. 1970), tm_Month = (\<lambda>_. 1), tm_Day = (\<lambda>_. 1), tm_Hour = (\<lambda>_. 0), tm_Minute = (\<lambda>_. 0), tm_Second = (\<lambda>_. 0), tm_Weekday = (\<lambda>_. 4),
     tm_YearDay = (\<lambda>_. 1), tm_ISOWeek = (\<lambda>_. 1), tm_AddDate = (\<lambda>t _ _ _. t), tm_Date = (\<lambda>_ _ _ _ _ _ _. 0), tm_SubHours = (\<lambda>_ _. 0)\<rparr>"

definition sampleOs :: "unit go_os" where
  "sampleOs = \<lparr>os_Now = (\<lambda>w. (w, 0)), os_Float64 = (\<lambda>w. (w, 0)), os_RandRead = (\<lambda>n w. (w, replicate n 0)), os_ReadFile = (\<lambda>_ _. None), os_Stat = (\<lambda>_ _. None),
     os_ReadDir = (\<lambda>_ _. None), os_WriteFile = (\<lambda>_ _ w. (w, False)), os_MkdirAll = (\<lambda>_ w. (w, False)), os_RemoveAll = (\<lambda>_ w. (w, True)),
     os_Join = (\<lambda>a b. a @ ''/'' @ b), os_Base = id, os_IsNotExist = (\<lambda>_ _. True), os_Match = (\<lambda>_ _. False)\<rparr>"

definition sampleFts :: fts_env where
  "sampleFts = \<lparr>fe_cut = (\<lambda>_. []), fe_segErr = True, fe_mul = (\<lambda>_ _. 0), fe_add = (\<lambda>_ _. 0), fe_sortResults = (\<lambda>_. id), fe_sortRanges = (\<lambda>_. id),
     fe_encode = (\<lambda>_. None), fe_decode = (\<lambda>_. None)\<rparr>"

definition sampleEngEnv :: "unit eng_env" where
  "sampleEngEnv = \<lparr>ee_senv = sampleEnv,
     ee_fn = \<lparr>fn_rt = rt_plain, fn_math = sampleMath, fn_time = sampleTime, fn_os = sampleOs, fn_image = (\<lambda>_. None), fn_enc = (\<lambda>_. []), fn_dec = (\<lambda>_. None), fn_depth = 0\<rparr>,
     ee_fts = sampleFts, ee_path = []\<rparr>"

definition sampleEngine :: "Storage \<Rightarrow> unit Engine" where
  "sampleEngine s = \<lparr>en_storage = s, en_auth = NewAuth, en_scripts = [], en_fts = NewManager, en_currentDB = ''xxldb'', en_world = ()\<rparr>"

end
