(* ===== verification/Typing.thy ===== *)
theory Typing
  imports Sample Faults
begin

text \<open>
  Static types of SQL expressions. \<open>exprTypes\<close> computes from the types of the columns which types the value of an expression can have, \<open>fnTypes\<close> does so
  for the built-in functions; shown is that every value the evaluator returns is NULL or has one of these types, with data of that type behind it.
\<close>

section \<open>Typed values\<close>

definition dataOk :: "DataType \<Rightarrow> godata \<Rightarrow> bool" where
  "dataOk t d \<longleftrightarrow>
     (let k = detectType d
      in t = k \<or> t = TypeSeq \<and> k = TypeInt \<or> (t = TypeChar \<or> t = TypeText) \<and> k = TypeVarchar \<or> (t = TypeDate \<or> t = TypeTime) \<and> k = TypeDatetime
         \<or> (t = TypeImage \<or> t = TypeFile) \<and> k = TypeBlob)"

definition typed :: "DataType set \<Rightarrow> Value \<Rightarrow> bool" where
  "typed T v \<longleftrightarrow> IsNull v \<or> Type v \<in> T \<and> dataOk (Type v) (Data v)"

lemma typed_New [simp]:
  "typed T NewNullValue" "typed T (NewIntValue n) \<longleftrightarrow> TypeInt \<in> T" "typed T (NewFloatValue f) \<longleftrightarrow> TypeFloat \<in> T"
  "typed T (NewStringValue s) \<longleftrightarrow> TypeVarchar \<in> T" "typed T (NewBoolValue b) \<longleftrightarrow> TypeInt \<in> T" "typed T (NewDateValue t) \<longleftrightarrow> TypeDate \<in> T"
  "typed T (NewDatetimeValue t) \<longleftrightarrow> TypeDatetime \<in> T" "typed T (NewBlobValue d) \<longleftrightarrow> TypeBlob \<in> T" "typed T (NewImageValue d) \<longleftrightarrow> TypeImage \<in> T"
  by (simp_all add: typed_def dataOk_def NewNullValue_def NewIntValue_def NewFloatValue_def NewStringValue_def NewBoolValue_def NewDateValue_def
      NewDatetimeValue_def NewBlobValue_def NewImageValue_def)

lemma typed_NewValue: "typed {detectType d} (NewValue d)"
  by (simp add: NewValue_def typed_def dataOk_def NewNullValue_def)

lemma typed_mono: "typed S v \<Longrightarrow> S \<subseteq> T \<Longrightarrow> typed T v"
  by (auto simp: typed_def)

section \<open>Result types of the functions\<close>

definition intFns :: "string list" where
  "intFns = [''LENGTH'', ''LEN'', ''BYTE_LENGTH'', ''OCTET_LENGTH'', ''CHAR_LENGTH'', ''CHARACTER_LENGTH'', ''INSTR'', ''FLOOR'', ''CEIL'', ''CEILING'', ''MOD'', ''SIGN'',
     ''COUNT'', ''YEAR'', ''MONTH'', ''DAY'', ''HOUR'', ''MINUTE'', ''SECOND'', ''DATEDIFF'', ''TO_INT'', ''ISNULL'', ''IS_NOT_NULL'', ''FILE_EXISTS'', ''FILE_SIZE'',
     ''SAVE_FILE'', ''EXPORT_FOLDER'', ''FOLDER_FILES'', ''GCD'', ''LCM'', ''STRCMP'', ''QUARTER'', ''WEEK'', ''DAYOFWEEK'', ''DAYOFYEAR'', ''IMAGE_WIDTH'', ''IMAGE_HEIGHT'',
     ''IMAGE_SIZE'']"

definition textFns :: "string list" where
  "textFns = [''CONCAT'', ''UPPER'', ''LOWER'', ''TRIM'', ''LTRIM'', ''RTRIM'', ''SUBSTRING'', ''SUBSTR'', ''LEFT'', ''RIGHT'', ''REPLACE'', ''LPAD'', ''RPAD'', ''REVERSE'',
     ''REPEAT'', ''DATE_FORMAT'', ''TO_STRING'', ''TYPEOF'', ''LIST_FOLDER'', ''CONCAT_WS'', ''SPACE'', ''UUID'', ''IMAGE_TO_BASE64'', ''IMAGE_FORMAT'', ''IMAGE_MIME'',
     ''IMAGE_TO_HEX'', ''BLOB_TO_BASE64'', ''BLOB_TO_HEX'']"

definition floatFns :: "string list" where
  "floatFns = [''ABS'', ''ROUND'', ''POWER'', ''POW'', ''SQRT'', ''SUM'', ''AVG'', ''TO_FLOAT'', ''LOG'', ''LOG10'', ''LOG2'', ''EXP'', ''RADIANS'', ''DEGREES'', ''SIN'',
     ''COS'', ''TAN'', ''RAND'', ''RANDOM'']"

definition argFns :: "string list" where
  "argFns = [''MIN'', ''MAX'', ''COALESCE'', ''IFNULL'', ''NULLIF'', ''IF'', ''IIF'']"

text \<open>The types a function can return, given the types of its arguments; a name that is no function gives NULL.\<close>

definition fnTypes :: "string \<Rightarrow> DataType set \<Rightarrow> DataType set" where
  "fnTypes name T =
     (if name \<in> set intFns then {TypeInt}
      else if name \<in> set textFns then {TypeVarchar}
      else if name \<in> set floatFns then {TypeFloat}
      else if name \<in> set argFns then T
      else if name \<in> {''CURRENT_DATE'', ''DATE'', ''DATE_ADD'', ''DATE_SUB'', ''MAKEDATE'', ''LAST_DAY''} then {TypeDate}
      else if name \<in> {''NOW'', ''CURRENT_TIME'', ''MAKETIME''} then {TypeDatetime}
      else if name \<in> {''LOAD_FILE'', ''LOAD_FOLDER'', ''BLOB_FROM_BASE64'', ''BLOB_FROM_HEX''} then {TypeBlob}
      else if name \<in> {''LOAD_IMAGE'', ''IMAGE_FROM_BASE64'', ''IMAGE_FROM_HEX''} then {TypeImage}
      else if name \<in> {''CAST'', ''CONVERT''} then {TypeInt, TypeFloat, TypeVarchar}
      else {})"

definition returns :: "(DataType set \<Rightarrow> DataType set) \<Rightarrow> (Value list \<Rightarrow> fn_result) \<Rightarrow> bool" where
  "returns g f \<longleftrightarrow> (\<forall>T args v. list_all (typed T) args \<longrightarrow> f args = Inr v \<longrightarrow> typed (g T) v)"

lemma exactly_value [simp]: "exactly n name args r = Inr v \<longleftrightarrow> length args = n \<and> r = Inr v"
  and atLeast_value [simp]: "atLeast n name args r = Inr v \<longleftrightarrow> n \<le> length args \<and> r = Inr v"
  and nullSafe_value: "nullSafe vs r = Inr v \<longleftrightarrow> (if list_ex IsNull vs then v = NewNullValue else r = Inr v)"
  and needs_value [simp]: "needs c k = Inr v \<longleftrightarrow> (\<exists>x. c = Inr x \<and> k x = Inr v)"
  and orFault_value [simp]: "orFault g h = Inr v \<longleftrightarrow> (\<exists>x. g = Inr x \<and> h x = Inr v)"
  by (auto simp: exactly_def atLeast_def nullSafe_def needs_def orFault_def split: sum.splits)

lemma imageOr_value: "imageOr x k = Inr v \<longleftrightarrow> (case getImageData x of None \<Rightarrow> v = NewNullValue | Some d \<Rightarrow> k d = Inr v)"
  and fromHex_value: "fromHex s mk = Inr v \<Longrightarrow> \<exists>d. v = mk d"
  and blobBytes_value: "blobBytes name x k = Inr v \<Longrightarrow> \<exists>d. k d = Inr v"
  by (auto simp: imageOr_def fromHex_def blobBytes_def Let_def split: option.splits if_splits godata.splits)

lemmas value_rules = nullSafe_value imageOr_value infoOr_def

named_theorems return_rules "result types of functions"

lemma returns_int [return_rules]:
  assumes "TypeInt \<in> S"
  shows "returns (\<lambda>_. S) (fnLength env)" "returns (\<lambda>_. S) (fnByteLength env)" "returns (\<lambda>_. S) (fnInstr env)" "returns (\<lambda>_. S) (fnFloor env)"
    "returns (\<lambda>_. S) (fnCeil env)" "returns (\<lambda>_. S) (fnMod env)" "returns (\<lambda>_. S) (fnSign env)" "returns (\<lambda>_. S) fnCount"
    "returns (\<lambda>_. S) (fnDateDiff env)" "returns (\<lambda>_. S) (fnToInt env)" "returns (\<lambda>_. S) fnIsNull" "returns (\<lambda>_. S) fnIsNotNull"
    "returns (\<lambda>_. S) (fnGcd env)" "returns (\<lambda>_. S) (fnLcm env)" "returns (\<lambda>_. S) (fnStrcmp env)" "returns (\<lambda>_. S) (fnImageWidth env)"
    "returns (\<lambda>_. S) (fnImageHeight env)" "returns (\<lambda>_. S) fnImageSize" "returns (\<lambda>_. S) (fnFolderFiles env)"
  by (use assms in \<open>auto simp: returns_def value_rules fnLength_def fnByteLength_def fnInstr_def fnFloor_def fnCeil_def fnMod_def fnSign_def fnCount_def fnDateDiff_def fnToInt_def
        fnIsNull_def fnIsNotNull_def fnGcd_def fnLcm_def fnStrcmp_def fnImageWidth_def fnImageHeight_def fnImageSize_def fnFolderFiles_def folderOr_def
        Let_def split: if_splits option.splits\<close>)

lemma returns_timeField: "TypeInt \<in> S \<Longrightarrow> returns (\<lambda>_. S) (timeField name f env)"
  by (auto simp: returns_def value_rules timeField_def split: if_splits)

lemma returns_time [return_rules]:
  assumes "TypeInt \<in> S"
  shows "returns (\<lambda>_. S) (fnYear env)" "returns (\<lambda>_. S) (fnMonth env)" "returns (\<lambda>_. S) (fnDay env)" "returns (\<lambda>_. S) (fnHour env)"
    "returns (\<lambda>_. S) (fnMinute env)" "returns (\<lambda>_. S) (fnSecond env)" "returns (\<lambda>_. S) (fnQuarter env)" "returns (\<lambda>_. S) (fnWeek env)"
    "returns (\<lambda>_. S) (fnDayOfWeek env)" "returns (\<lambda>_. S) (fnDayOfYear env)"
  using assms by (simp_all add: fnYear_def fnMonth_def fnDay_def fnHour_def fnMinute_def fnSecond_def fnQuarter_def fnWeek_def fnDayOfWeek_def
      fnDayOfYear_def returns_timeField)

lemma returns_text [return_rules]:
  assumes "TypeVarchar \<in> S"
  shows "returns (\<lambda>_. S) (fnConcat env)" "returns (\<lambda>_. S) (fnUpper env)" "returns (\<lambda>_. S) (fnLower env)" "returns (\<lambda>_. S) (fnTrim env)"
    "returns (\<lambda>_. S) (fnLTrim env)" "returns (\<lambda>_. S) (fnRTrim env)" "returns (\<lambda>_. S) (fnSubstring env)" "returns (\<lambda>_. S) (fnLeft env)"
    "returns (\<lambda>_. S) (fnRight env)" "returns (\<lambda>_. S) (fnReplace env)" "returns (\<lambda>_. S) (fnLpad env)" "returns (\<lambda>_. S) (fnRpad env)"
    "returns (\<lambda>_. S) (fnReverse env)" "returns (\<lambda>_. S) (fnRepeat env)" "returns (\<lambda>_. S) (fnDateFormat env)" "returns (\<lambda>_. S) (fnToString env)"
    "returns (\<lambda>_. S) fnTypeof" "returns (\<lambda>_. S) (fnListFolder env)" "returns (\<lambda>_. S) (fnConcatWs env)" "returns (\<lambda>_. S) (fnSpace env)"
    "returns (\<lambda>_. S) (fnImageToBase64 env)" "returns (\<lambda>_. S) (fnImageFormat env)" "returns (\<lambda>_. S) (fnImageMime env)"
    "returns (\<lambda>_. S) fnImageToHex" "returns (\<lambda>_. S) fnBlobToBase64" "returns (\<lambda>_. S) fnBlobToHex"
  by (use assms in \<open>auto simp: returns_def value_rules fnConcat_def fnUpper_def fnLower_def fnTrim_def fnLTrim_def fnRTrim_def fnSubstring_def fnLeft_def fnRight_def fnReplace_def
        fnLpad_def fnRpad_def fnReverse_def fnRepeat_def fnDateFormat_def fnToString_def fnTypeof_def fnListFolder_def folderOr_def fnConcatWs_def fnSpace_def
        fnImageToBase64_def fnImageFormat_def fnImageMime_def fnImageToHex_def fnBlobToBase64_def fnBlobToHex_def Let_def
        dest!: blobBytes_value split: if_splits option.splits\<close>)

lemma returns_floatFn: "TypeFloat \<in> S \<Longrightarrow> returns (\<lambda>_. S) (floatFn name f env)"
  by (auto simp: returns_def value_rules floatFn_def split: if_splits)

lemma returns_float [return_rules]:
  assumes "TypeFloat \<in> S"
  shows "returns (\<lambda>_. S) (fnAbs env)" "returns (\<lambda>_. S) (fnRound env)" "returns (\<lambda>_. S) (fnPower env)" "returns (\<lambda>_. S) (fnSqrt env)"
    "returns (\<lambda>_. S) (fnSum env)" "returns (\<lambda>_. S) (fnAvg env)" "returns (\<lambda>_. S) (fnToFloat env)" "returns (\<lambda>_. S) (fnLog env)"
    "returns (\<lambda>_. S) (fnLog10 env)" "returns (\<lambda>_. S) (fnLog2 env)" "returns (\<lambda>_. S) (fnExp env)" "returns (\<lambda>_. S) (fnRadians env)"
    "returns (\<lambda>_. S) (fnDegrees env)" "returns (\<lambda>_. S) (fnSin env)" "returns (\<lambda>_. S) (fnCos env)" "returns (\<lambda>_. S) (fnTan env)"
  using assms by (simp_all add: fnLog10_def fnLog2_def fnExp_def fnRadians_def fnDegrees_def fnSin_def fnCos_def fnTan_def returns_floatFn)
    (auto simp: returns_def value_rules fnAbs_def fnRound_def fnPower_def fnSqrt_def fnSum_def fnAvg_def fnToFloat_def fnLog_def Let_def split: if_splits)

lemma returns_other [return_rules]:
  "TypeDate \<in> S \<Longrightarrow> returns (\<lambda>_. S) (fnDate env)" "TypeDate \<in> S \<Longrightarrow> returns (\<lambda>_. S) (fnDateAdd env)" "TypeDate \<in> S \<Longrightarrow> returns (\<lambda>_. S) (fnDateSub env)"
  "TypeDate \<in> S \<Longrightarrow> returns (\<lambda>_. S) (fnMakeDate env)" "TypeDate \<in> S \<Longrightarrow> returns (\<lambda>_. S) (fnLastDay env)"
  "TypeDatetime \<in> S \<Longrightarrow> returns (\<lambda>_. S) (fnMakeTime env)"
  "TypeBlob \<in> S \<Longrightarrow> returns (\<lambda>_. S) (fnBlobFromBase64 env)" "TypeBlob \<in> S \<Longrightarrow> returns (\<lambda>_. S) (fnBlobFromHex env)"
  "TypeImage \<in> S \<Longrightarrow> returns (\<lambda>_. S) (fnImageFromBase64 env)" "TypeImage \<in> S \<Longrightarrow> returns (\<lambda>_. S) (fnImageFromHex env)"
  "{TypeInt, TypeFloat, TypeVarchar} \<subseteq> S \<Longrightarrow> returns (\<lambda>_. S) (fnCast env)"
  by (auto simp: returns_def value_rules fnDate_def fnDateAdd_def fnDateSub_def fnMakeDate_def fnLastDay_def fnMakeTime_def fnBlobFromBase64_def fnBlobFromHex_def
      fnImageFromBase64_def fnImageFromHex_def fnCast_def Let_def dest!: fromHex_value split: if_splits option.splits)

text \<open>The functions that return one of their arguments\<close>

lemma foldl_choose: "foldl (\<lambda>m a. if P a m then a else m) v vs \<in> set (v # vs)"
  by (induction vs arbitrary: v) auto

lemma returns_arg [return_rules]:
  "returns (\<lambda>T. T) (fnMin env)" "returns (\<lambda>T. T) (fnMax env)" "returns (\<lambda>T. T) fnCoalesce" "returns (\<lambda>T. T) (fnNullif env)" "returns (\<lambda>T. T) (fnIf env)"
proof -
  have choose: "list_all (typed T) (v # vs) \<Longrightarrow> typed T (foldl (\<lambda>m a. if P a m then a else m) v vs)" for T v vs P
    using foldl_choose [of P v vs] unfolding list_all_iff by blast
  show "returns (\<lambda>T. T) (fnMin env)" "returns (\<lambda>T. T) (fnMax env)"
    by (auto simp: returns_def fnMin_def fnMax_def split: list.splits intro!: choose)
  show "returns (\<lambda>T. T) fnCoalesce"
    by (auto simp: returns_def fnCoalesce_def list_all_length find_Some_iff split: option.splits)
  show "returns (\<lambda>T. T) (fnNullif env)" "returns (\<lambda>T. T) (fnIf env)"
    by (auto simp: returns_def fnNullif_def fnIf_def list_all_iff split: if_splits)
qed

lemma pureFunctions_typed: "list_all (\<lambda>(name, f). returns (fnTypes name) (f env)) pureFunctions"
  unfolding pureFunctions_def
  by (simp add: fnTypes_def [abs_def] intFns_def textFns_def floatFns_def argFns_def return_rules)

text \<open>The functions that reach the operating system; none of them returns an argument.\<close>

definition os_returns :: "DataType set \<Rightarrow> (Value list \<Rightarrow> 'w fn_method) \<Rightarrow> bool" where
  "os_returns S f \<longleftrightarrow> (\<forall>args w w' v. f args w = (w', Inr v) \<longrightarrow> typed S v)"

lemma osFunctions_typed: "list_all (\<lambda>(name, f). os_returns (fnTypes name {}) (f env)) osFunctions"
  unfolding osFunctions_def
  by (simp add: fnTypes_def intFns_def textFns_def floatFns_def argFns_def)
    (auto simp: os_returns_def value_rules fnNow_def fnCurrentDate_def fnCurrentTime_def fnRand_def fnUuid_def fnLoadFile_def fnFileExists_def fnFileSize_def
      fnSaveFile_def fnLoadFolder_def fnExportFolder_def fnLoadImage_def Let_def split: prod.splits if_splits option.splits sum.splits bool.splits)

lemma fnTypes_mono: "S \<subseteq> T \<Longrightarrow> fnTypes name S \<subseteq> fnTypes name T"
  by (simp add: fnTypes_def)

lemma Fn_Call_typed:
  assumes "list_all (typed T) args" "Fn_Call env name args w = (w', Inr v)"
  shows "typed (fnTypes (ToUpper (fn_rt env) name) T) v"
proof -
  let ?n = "ToUpper (fn_rt env) name"
  from assms(2) obtain fn where fn: "Fn_Get env name = Some fn" "fn args w = (w', Inr v)"
    by (auto simp: Fn_Call_def split: option.splits)
  then have "(?n, fn) \<in> set (Registry env)" by (auto simp: Fn_Get_def dest: map_of_SomeD)
  then consider f where "(?n, f) \<in> set pureFunctions" "fn = pureFn (f env)" | f where "(?n, f) \<in> set osFunctions" "fn = f env"
    by (auto simp: Registry_def)
  then show ?thesis
  proof cases
    case 1
    then have "returns (fnTypes ?n) (f env)" using pureFunctions_typed [of env] by (auto simp: list_all_iff)
    then show ?thesis using assms(1) fn(2) 1(2) by (auto simp: returns_def pureFn_def)
  next
    case 2
    then have "os_returns (fnTypes ?n {}) (f env)" using osFunctions_typed [of env] by (auto simp: list_all_iff)
    then have "typed (fnTypes ?n {}) v" using fn(2) 2(2) by (auto simp: os_returns_def)
    then show ?thesis using typed_mono fnTypes_mono [of "{}" T ?n] by blast
  qed
qed

section \<open>Types of expressions\<close>

definition arithTypes :: "DataType set \<Rightarrow> DataType set \<Rightarrow> DataType set" where
  "arithTypes S T = (if TypeInt \<in> S \<and> TypeInt \<in> T then {TypeInt} else {}) \<union> (if S \<union> T \<subseteq> {TypeInt} then {} else {TypeFloat})"

definition binaryTypes :: "string \<Rightarrow> DataType set \<Rightarrow> DataType set \<Rightarrow> DataType set" where
  "binaryTypes op S T =
     (if op \<in> {''='', ''<>'', ''!='', ''<'', ''>'', ''<='', ''>='', ''AND'', ''OR'', ''LIKE''} then {TypeInt}
      else if op \<in> {''+'', ''-'', ''*'', ''/''} then arithTypes S T
      else if op = ''||'' then {TypeVarchar} else {})"

definition unaryTypes :: "string \<Rightarrow> DataType set \<Rightarrow> DataType set" where
  "unaryTypes op T = (if op = ''NOT'' then {TypeInt} else if op = ''-'' then {TypeInt, TypeFloat} else if op = ''+'' then T else {})"

abbreviation scriptTypes :: "DataType set" where "scriptTypes \<equiv> {TypeInt, TypeFloat, TypeVarchar}"

fun exprTypes :: "go_rt \<Rightarrow> (string \<Rightarrow> DataType set) \<Rightarrow> Expression \<Rightarrow> DataType set" where
  "exprTypes rt G (ExprLiteral v) = {detectType v}"
| "exprTypes rt G (ExprColumn table column) = (if hasPrefix column ''@@'' then {TypeInt, TypeVarchar} else G column)"
| "exprTypes rt G (ExprFunction name args) =
     (if IsScriptFunc rt name then scriptTypes else fnTypes (ToUpper rt name) (\<Union> (set (map (exprTypes rt G) args))))"
| "exprTypes rt G (ExprUnaryOp op right) = unaryTypes op (exprTypes rt G right)"
| "exprTypes rt G (ExprBinaryOp left op right) = binaryTypes op (exprTypes rt G left) (exprTypes rt G right)"
| "exprTypes rt G (ExprCase caseExpr whens elseExpr) =
     \<Union> (set (map (\<lambda>w. exprTypes rt G (snd w)) whens)) \<union> (case elseExpr of Some x \<Rightarrow> exprTypes rt G x | None \<Rightarrow> {})"
| "exprTypes rt G (ExprIn left items subq) = {TypeInt}"
| "exprTypes rt G (ExprBetween val lower upper) = {TypeInt}"
| "exprTypes rt G (ExprMatch column query mode level) = {TypeInt}"
| "exprTypes rt G (ExprExists subq) = {}"
| "exprTypes rt G (ExprSubquery subq) = {}"
| "exprTypes rt G (ExprStar table) = {}"

text \<open>An evaluator is sound for a type when every value it returns has the type.\<close>

definition sound :: "Value list \<Rightarrow> colIndex \<Rightarrow> DataType set \<Rightarrow> 'w evaluator \<Rightarrow> bool" where
  "sound row colIndex T ev \<longleftrightarrow> (\<forall>rowID e e' v. ev row colIndex rowID e = (e', Inr v) \<longrightarrow> typed T v)"

lemma sound_return: "typed T v \<Longrightarrow> sound row colIndex T (\<lambda>_ _ _. returnS v)"
  by (simp add: sound_def returnS_def)

lemma typed_unaryOp: "typed T v \<Longrightarrow> typed (unaryTypes op T) (unaryOp rt op v)"
  by (simp add: unaryOp_def unaryTypes_def split: sum.split)

lemma typed_arithmetic:
  assumes "typed S l" "typed T r"
  shows "typed (arithTypes S T) (evalArithmetic env l r op)"
proof (cases "ToFloat64 (fn_rt env) l"; cases "ToFloat64 (fn_rt env) r")
  fix f g
  assume "ToFloat64 (fn_rt env) l = Inr f" "ToFloat64 (fn_rt env) r = Inr g"
  moreover from this have "Type l \<in> S" "Type r \<in> T" using assms by (auto simp: typed_def ToFloat64_def split: if_splits)
  ultimately show ?thesis by (auto simp: evalArithmetic_def arithTypes_def Let_def)
qed (simp_all add: evalArithmetic_def)

lemma typed_binaryOp:
  assumes "typed S l" "typed T r"
  shows "typed (binaryTypes op S T) (binaryOp env op l r)"
  using typed_arithmetic [OF assms, of env op] by (simp add: binaryOp_def binaryTypes_def Let_def evalLike_def)

lemma evaluateArithmetic_float: "evaluateArithmetic rt fm s = Inr v \<Longrightarrow> \<exists>f. v = NewFloatValue f"
  by (auto simp: evaluateArithmetic_def Let_def bindE_eq_Inr_iff split: if_splits)

lemma typed_script: "script_evaluate rt fm s = Inr v \<Longrightarrow> typed scriptTypes v"
  by (auto simp: script_evaluate_def Let_def split: if_splits sum.splits dest!: evaluateArithmetic_float)

lemma sysVars_typed: "typed {TypeInt, TypeVarchar} (evalSystemVariable rt name)"
proof -
  have "list_all (\<lambda>(n, v). typed {TypeInt, TypeVarchar} v) sysVars" by (simp add: sysVars_def)
  then show ?thesis by (auto simp: evalSystemVariable_def getD_def Let_def list_all_iff dest!: map_of_SomeD split: option.split)
qed

lemma sound_mono: "sound row colIndex S ev \<Longrightarrow> S \<subseteq> T \<Longrightarrow> sound row colIndex T ev"
  unfolding sound_def using typed_mono by blast

lemma sound_bind:
  assumes "sound row colIndex S m" "\<And>v. typed S v \<Longrightarrow> sound row colIndex T (\<lambda>row colIndex rowID. k v row colIndex rowID)"
  shows "sound row colIndex T (\<lambda>row colIndex rowID. bindS (m row colIndex rowID) (\<lambda>v. k v row colIndex rowID))"
  unfolding sound_def bindS_eq_Inr_iff using assms unfolding sound_def by blast

lemma sound_bind_any:
  assumes "\<And>v. sound row colIndex T (\<lambda>row colIndex rowID. k v row colIndex rowID)"
  shows "sound row colIndex T (\<lambda>row colIndex rowID. bindS (m row colIndex rowID) (\<lambda>v. k v row colIndex rowID))"
  unfolding sound_def bindS_eq_Inr_iff using assms unfolding sound_def by blast

lemma mapS_eq_Inr:
  "mapS f xs e = (e', Inr ys) \<Longrightarrow> length ys = length xs \<and> (\<forall>i < length xs. \<exists>d d'. f (xs ! i) d = (d', Inr (ys ! i)))"
proof (induction xs arbitrary: e ys)
  case (Cons x xs)
  then obtain d y zs where "f x e = (d, Inr y)" "mapS f xs d = (e', Inr zs)" "ys = y # zs"
    by (auto simp: bindS_eq_Inr_iff returnS_def)
  with Cons.IH [of d zs] show ?case by (auto simp: nth_Cons split: nat.split)
qed (simp add: returnS_def)

lemma sound_args:
  assumes "list_all (sound row colIndex T) evs" "mapS (\<lambda>ev. ev row colIndex rowID) evs e = (e', Inr vs)"
  shows "list_all (typed T) vs"
  using assms mapS_eq_Inr [OF assms(2)] by (fastforce simp: list_all_length sound_def)

lemma callFunction_value: "callFunction env name vs e = (e', Inr r) \<Longrightarrow> \<exists>w w'. Fn_Call (ee_fn env) name vs w = (w', r)"
  by (cases "Fn_Call (ee_fn env) name vs (en_world e)") (auto simp: callFunction_def split: sum.splits fn_error.splits)

lemma Script_Execute_typed: "Script_Execute rt fm name args m = Inr (Inr v) \<Longrightarrow> typed scriptTypes v"
  by (auto simp: Script_Execute_def bindE_eq_Inr_iff intro: typed_script split: option.splits)

lemma evalScriptFunc_typed: "evalScriptFunc env name vs e = (e', Inr v) \<Longrightarrow> typed scriptTypes v"
proof -
  have "(case r of Inl f \<Rightarrow> Inl f | Inr (Inl _) \<Rightarrow> Inr NewNullValue | Inr (Inr x) \<Rightarrow> Inr x) = (Inr v :: fault + Value) \<longleftrightarrow>
      (\<exists>x. r = Inr (Inl x)) \<and> v = NewNullValue \<or> r = Inr (Inr v)" for r :: "fault + (script_error + Value)"
    by (cases r) (auto split: sum.split)
  then show "evalScriptFunc env name vs e = (e', Inr v) \<Longrightarrow> ?thesis"
    by (auto simp: evalScriptFunc_def bindS_eq_Inr_iff dest: Script_Execute_typed)
qed

lemma evalFunction_script:
  "IsScriptFunc (ert env) name \<Longrightarrow> sound row colIndex scriptTypes (evalFunction env name args)"
  by (auto simp: sound_def evalFunction_def bindS_eq_Inr_iff dest: evalScriptFunc_typed)

lemma evalFunction_builtin:
  assumes "list_all (sound row colIndex T) args" "\<not> IsScriptFunc (ert env) name"
  shows "sound row colIndex (fnTypes (ToUpper (ert env) name) T) (evalFunction env name args)"
  unfolding sound_def
proof (intro allI impI)
  fix rowID e e' v
  assume "evalFunction env name args row colIndex rowID e = (e', Inr v)"
  then obtain d vs r where vs: "mapS (\<lambda>arg. arg row colIndex rowID) args e = (d, Inr vs)" and r: "callFunction env name vs d = (e', Inr r)" "v = orNull r"
    using assms(2) by (auto simp: evalFunction_def bindS_eq_Inr_iff returnS_def)
  obtain w w' where "Fn_Call (ee_fn env) name vs w = (w', r)" using callFunction_value [OF r(1)] by blast
  then show "typed (fnTypes (ToUpper (ert env) name) T) v"
    using Fn_Call_typed [OF sound_args [OF assms(1) vs], of "ee_fn env" name w w'] by (cases r) (auto simp: r(2) orNull_def)
qed

lemma evalCase_sound:
  assumes "list_all (\<lambda>w. sound row colIndex T (snd w)) ws" "case els of Some ev \<Rightarrow> sound row colIndex T ev | None \<Rightarrow> True"
  shows "sound row colIndex T (evalCase env ws els)"
  using assms
proof (induction ws)
  case Nil
  then show ?case by (auto simp: sound_def returnS_def split: option.splits)
next
  case (Cons w ws)
  then have "sound row colIndex T (evalCase env ws els)" "sound row colIndex T (snd w)" by simp_all
  then show ?case by (auto simp: sound_def bindS_eq_Inr_iff split: if_splits)
qed

lemma inLoop_sound: "sound row colIndex {TypeInt} (\<lambda>row colIndex rowID. inLoop env l items row colIndex rowID)"
  by (induction items) (auto simp: sound_def returnS_def bindS_eq_Inr_iff split: if_splits)

lemma evalExpr_sound:
  assumes "\<And>name. typed (G name) (nthOr NewNullValue row (colAt (ert env) colIndex name))"
  shows "sound row colIndex (exprTypes (ert env) G x) (evalExpr env x)"
  using assms
proof (induction "ert env" G x rule: exprTypes.induct)
  case (1 G v)
  then show ?case using sound_return [OF typed_NewValue] by simp
next
  case (2 G table column)
  then show ?case using sysVars_typed by (auto simp: sound_def evalColumn_def returnS_def)
next
  case (3 G name args)
  show ?case
  proof (cases "IsScriptFunc (ert env) name")
    case False
    let ?T = "\<Union> (set (map (exprTypes (ert env) G) args))"
    have "list_all (sound row colIndex ?T) (map (evalExpr env) args)"
      unfolding list_all_iff by (auto intro!: sound_mono [OF 3(1) [OF False _ 3(2)]])
    then show ?thesis using False evalFunction_builtin by (simp only: exprTypes.simps evalExpr.simps if_False)
  qed (simp add: evalFunction_script)
next
  case (4 G op right)
  then have "sound row colIndex (exprTypes (ert env) G right) (evalExpr env right)" by simp
  then show ?case
    unfolding exprTypes.simps evalExpr.simps evalUnaryOp_def sound_def bindS_eq_Inr_iff returnS_def
    using typed_unaryOp by blast
next
  case (5 G left op right)
  then have "sound row colIndex (exprTypes (ert env) G left) (evalExpr env left)" "sound row colIndex (exprTypes (ert env) G right) (evalExpr env right)"
    by simp_all
  then show ?case
    unfolding exprTypes.simps evalExpr.simps evalBinaryOp_def sound_def bindS_eq_Inr_iff returnS_def
    using typed_binaryOp by blast
next
  case (6 G caseExpr whens elseExpr)
  let ?T = "exprTypes (ert env) G (ExprCase caseExpr whens elseExpr)"
  have "list_all (\<lambda>w. sound row colIndex ?T (snd w)) (map (\<lambda>w. (evalExpr env (fst w), evalExpr env (snd w))) whens)"
    unfolding list_all_iff by (auto intro!: sound_mono [OF 6(1) [OF _ 6(3)]])
  moreover have "case map_option (evalExpr env) elseExpr of Some ev \<Rightarrow> sound row colIndex ?T ev | None \<Rightarrow> True"
    using 6(2) [OF _ 6(3)] by (cases elseExpr) (auto elim!: sound_mono)
  ultimately show ?case unfolding evalExpr.simps by (rule evalCase_sound)
next
  case (7 G left items subq)
  then show ?case using sound_bind_any [OF inLoop_sound] by (simp add: evalIn_def [abs_def])
next
  case (8 G val lower upper)
  then show ?case by (auto simp: sound_def evalBetween_def bindS_eq_Inr_iff returnS_def)
next
  case (9 G column query mode level)
  then show ?case
    by (auto simp: sound_def evalMatchAgainst_def Let_def split: option.splits if_splits sum.splits fts_error.splits)
qed (simp_all add: sound_return)

section \<open>Well-typed evaluation\<close>

text \<open>The type of a column name in a table with columns of the types \<^verbatim>\<open>tys\<close>: the code reads an unknown name as the first column.\<close>

definition colTypes :: "go_rt \<Rightarrow> colIndex \<Rightarrow> DataType list \<Rightarrow> string \<Rightarrow> DataType set" where
  "colTypes rt colIndex tys name = nthOr {} (map (\<lambda>t. {t}) tys) (colAt rt colIndex name)"

lemma colTypes_sound:
  assumes "list_all2 (\<lambda>t. typed {t}) tys row"
  shows "typed (colTypes rt colIndex tys name) (nthOr NewNullValue row (colAt rt colIndex name))"
  using assms by (auto simp: colTypes_def nthOr_def list_all2_conv_all_nth)

text \<open>
  C15. Evaluation respects the static types: in a row that holds in each column NULL or a value of the column's type, whatever expression is evaluated - literals, columns,
  system variables, built-in and script functions, operators, CASE, IN, BETWEEN and full-text matches, nested to any depth - every value the evaluator returns is
  NULL or carries one of the types that \<open>exprTypes\<close> computes from the column types, and data of that type.
\<close>
theorem evaluation_well_typed:
  assumes "list_all2 (\<lambda>t. typed {t}) tys row" "evalExpr env x row colIndex rowID e = (e', Inr v)"
  shows "typed (exprTypes (ert env) (colTypes (ert env) colIndex tys) x) v"
  using evalExpr_sound [OF colTypes_sound [OF assms(1)]] assms(2) unfolding sound_def by blast

theorem evaluation_well_typed_witness:
  "list_all2 (\<lambda>t. typed {t}) [TypeInt, TypeVarchar] [NewIntValue 7, NewStringValue ''y''] \<and>
   (\<exists>v. evalExpr sampleEngEnv (ExprBinaryOp (ExprColumn [] ''b'') ''||'' (ExprLiteral (GString ''x''))) [NewIntValue 7, NewStringValue ''y''] [(''a'', 0), (''b'', 1)] 1
      (sampleEngine (NewStorage True False sampleDisk)) = (sampleEngine (NewStorage True False sampleDisk), Inr v) \<and>
      v = NewStringValue ''yx'' \<and> typed {TypeVarchar} v)"
proof -
  let ?x = "ExprBinaryOp (ExprColumn [] ''b'') ''||'' (ExprLiteral (GString ''x''))"
  let ?row = "[NewIntValue 7, NewStringValue ''y'']"
  let ?e = "sampleEngine (NewStorage True False sampleDisk)"
  have lower: "ToLower rt ''b'' = ''b''" for rt by (simp add: ToLower_def is_ascii_def lower_ascii_def)
  have e: "evalExpr sampleEngEnv ?x ?row [(''a'', 0), (''b'', 1)] 1 ?e = (?e, Inr (NewStringValue ''yx''))"
    by (simp add: lower evalBinaryOp_def evalColumn_def binaryOp_def bindS_def returnS_def colAt_def nthOr_def getD_def hasPrefix_def
        NewStringValue_def NewValue_def ToString_def Let_def)
  moreover have row: "list_all2 (\<lambda>t. typed {t}) [TypeInt, TypeVarchar] ?row" by simp
  ultimately show ?thesis using evaluation_well_typed [OF row e] by (auto simp: binaryTypes_def)
qed

end
