(* ===== verification/Queries.thy ===== *)
theory Queries
  imports Sample Select Faults "HOL-Library.Option_ord" "HOL-Library.Multiset"
begin

text \<open>
  What a SELECT returns. \<open>plain\<close> expressions use literals, columns, operators, CASE, IN, BETWEEN and the functions that only look at their arguments and never
  panic; \<open>valueOf\<close> gives them a meaning without an engine, and the evaluator computes it. Over it stands the meaning of a whole query: the rows that
  satisfy the condition, ordered, cut to the window of LIMIT and OFFSET, projected to the columns.
\<close>

section \<open>Plain expressions\<close>

definition plainFn :: "go_rt \<Rightarrow> string \<Rightarrow> bool" where
  "plainFn rt name \<longleftrightarrow> \<not> IsScriptFunc rt name \<and> ToUpper rt name \<in> set pureNames \<and> ToUpper rt name \<notin> set riskyNames"

fun plain :: "go_rt \<Rightarrow> Expression \<Rightarrow> bool" where
  "plain rt (ExprFunction name args) \<longleftrightarrow> plainFn rt name \<and> list_all (plain rt) args"
| "plain rt (ExprUnaryOp op right) \<longleftrightarrow> plain rt right"
| "plain rt (ExprBinaryOp left op right) \<longleftrightarrow> plain rt left \<and> plain rt right"
| "plain rt (ExprCase caseExpr whens elseExpr) \<longleftrightarrow>
     list_all (\<lambda>w. plain rt (fst w) \<and> plain rt (snd w)) whens \<and> (case elseExpr of Some x \<Rightarrow> plain rt x | None \<Rightarrow> True)"
| "plain rt (ExprIn left items subq) \<longleftrightarrow> plain rt left \<and> list_all (plain rt) items"
| "plain rt (ExprBetween val lower upper) \<longleftrightarrow> plain rt val \<and> plain rt lower \<and> plain rt upper"
| "plain rt (ExprMatch column query mode level) \<longleftrightarrow> False"
| "plain rt _ \<longleftrightarrow> True"

definition callPlain :: "'w fn_env \<Rightarrow> string \<Rightarrow> Value list \<Rightarrow> Value" where
  "callPlain fe name vs = (case map_of pureFunctions (ToUpper (fn_rt fe) name) of Some f \<Rightarrow> orNull (f fe vs) | None \<Rightarrow> NewNullValue)"

definition caseValue :: "go_rt \<Rightarrow> (Value \<times> Value) list \<Rightarrow> Value option \<Rightarrow> Value" where
  "caseValue rt ws els = (case List.find (\<lambda>w. ToBool rt (fst w)) ws of Some w \<Rightarrow> snd w | None \<Rightarrow> (case els of Some v \<Rightarrow> v | None \<Rightarrow> NewNullValue))"

fun valueOf :: "'w fn_env \<Rightarrow> colIndex \<Rightarrow> Value list \<Rightarrow> Expression \<Rightarrow> Value" where
  "valueOf fe colIndex row (ExprLiteral v) = NewValue v"
| "valueOf fe colIndex row (ExprColumn table column) =
     (if hasPrefix column ''@@'' then evalSystemVariable (fn_rt fe) column else nthOr NewNullValue row (colAt (fn_rt fe) colIndex column))"
| "valueOf fe colIndex row (ExprFunction name args) = callPlain fe name (map (valueOf fe colIndex row) args)"
| "valueOf fe colIndex row (ExprUnaryOp op right) = unaryOp (fn_rt fe) op (valueOf fe colIndex row right)"
| "valueOf fe colIndex row (ExprBinaryOp left op right) = binaryOp fe op (valueOf fe colIndex row left) (valueOf fe colIndex row right)"
| "valueOf fe colIndex row (ExprCase caseExpr whens elseExpr) =
     caseValue (fn_rt fe) (map (\<lambda>w. (valueOf fe colIndex row (fst w), valueOf fe colIndex row (snd w))) whens) (map_option (valueOf fe colIndex row) elseExpr)"
| "valueOf fe colIndex row (ExprIn left items subq) =
     NewBoolValue (list_ex (\<lambda>v. Compare (fn_rt fe) (valueOf fe colIndex row left) v = 0) (map (valueOf fe colIndex row) items))"
| "valueOf fe colIndex row (ExprBetween val lower upper) =
     NewBoolValue (0 \<le> Compare (fn_rt fe) (valueOf fe colIndex row val) (valueOf fe colIndex row lower)
       \<and> Compare (fn_rt fe) (valueOf fe colIndex row val) (valueOf fe colIndex row upper) \<le> 0)"
| "valueOf fe colIndex row _ = NewNullValue"

lemma bindS_returnS [simp]: "bindS (returnS v) k = k v"
  by (simp add: bindS_def returnS_def fun_eq_iff)

lemma mapS_return: "(\<And>x. x \<in> set xs \<Longrightarrow> f x = returnS (g x)) \<Longrightarrow> mapS f xs = returnS (map g xs)"
  by (induction xs) simp_all

lemma mapS_map: "mapS f (map g xs) = mapS (\<lambda>x. f (g x)) xs"
  by (induction xs) simp_all

lemma filterS_return: "(\<And>x. x \<in> set xs \<Longrightarrow> p x = returnS (q x)) \<Longrightarrow> filterS p xs = returnS (filter q xs)"
  by (induction xs) simp_all

lemma callFunction_plain:
  fixes env :: "'w eng_env"
  assumes "plainFn (ert env) name"
  shows "bindS (callFunction env name vs) (\<lambda>r. returnS (orNull r)) = returnS (callPlain (ee_fn env) name vs)"
proof -
  let ?n = "ToUpper (ert env) name"
  from assms obtain f :: "'w fn_env \<Rightarrow> Value list \<Rightarrow> fn_result" where f: "map_of pureFunctions ?n = Some f" unfolding plainFn_def using pureNames_Some by blast
  then have "total_fn (f (ee_fn env))"
    using assms pureFunctions_total [of "ee_fn env"] unfolding plainFn_def by (auto simp: list_all_iff dest!: map_of_SomeD)
  moreover have "Fn_Call (ee_fn env) name vs w = (w, f (ee_fn env) vs)" for w
    using f by (simp add: Fn_Call_def Fn_Get_def Registry_def map_add_def map_of_map_prod pureFn_def split: option.split)
  ultimately show ?thesis
    using f by (auto simp: callFunction_def callPlain_def total_fn_def bindS_def returnS_def fun_eq_iff split: sum.split fn_error.split)
qed

lemma evalCase_return:
  assumes "\<And>w. w \<in> set whens \<Longrightarrow> ev (fst w) row colIndex rowID = returnS (f (fst w)) \<and> ev (snd w) row colIndex rowID = returnS (f (snd w))"
    "\<And>x. els = Some x \<Longrightarrow> ev x row colIndex rowID = returnS (f x)"
  shows "evalCase env (map (\<lambda>w. (ev (fst w), ev (snd w))) whens) (map_option ev els) row colIndex rowID =
    returnS (caseValue (ert env) (map (\<lambda>w. (f (fst w), f (snd w))) whens) (map_option f els))"
  using assms by (induction whens) (auto simp: caseValue_def boolOf_def split: option.splits)

lemma inLoop_return:
  assumes "\<And>x. x \<in> set items \<Longrightarrow> ev x row colIndex rowID = returnS (f x)"
  shows "inLoop env l (map ev items) row colIndex rowID = returnS (NewBoolValue (list_ex (\<lambda>v. Compare (ert env) l v = 0) (map f items)))"
  using assms by (induction items) auto

lemma evalExpr_plain:
  "plain (ert env) x \<Longrightarrow> evalExpr env x row colIndex rowID = returnS (valueOf (ee_fn env) colIndex row x)"
proof (induction x rule: evalExpr.induct)
  case (3 env name args)
  then have "mapS (\<lambda>arg. arg row colIndex rowID) (map (evalExpr env) args) = returnS (map (valueOf (ee_fn env) colIndex row) args)"
    using mapS_return [of args "\<lambda>x. evalExpr env x row colIndex rowID"] by (auto simp: list_all_iff mapS_map)
  moreover from 3(2) have "plainFn (ert env) name" "\<not> IsScriptFunc (ert env) name" by (simp_all add: plainFn_def)
  ultimately show ?case by (simp add: evalFunction_def callFunction_plain)
next
  case (6 env caseExpr whens elseExpr)
  show ?case
    unfolding evalExpr.simps valueOf.simps
  proof (rule evalCase_return)
    show "evalExpr env (fst w) row colIndex rowID = returnS (valueOf (ee_fn env) colIndex row (fst w)) \<and>
        evalExpr env (snd w) row colIndex rowID = returnS (valueOf (ee_fn env) colIndex row (snd w))" if "w \<in> set whens" for w
      using 6(1,2) [OF that] 6(4) that by (auto simp: list_all_iff)
    show "evalExpr env x row colIndex rowID = returnS (valueOf (ee_fn env) colIndex row x)" if "elseExpr = Some x" for x
      using 6(3) that 6(4) by auto
  qed
next
  case (7 env left items subq)
  then have "inLoop env l (map (evalExpr env) items) row colIndex rowID =
      returnS (NewBoolValue (list_ex (\<lambda>v. Compare (ert env) l v = 0) (map (valueOf (ee_fn env) colIndex row) items)))" for l
    by (intro inLoop_return) (auto simp: list_all_iff)
  then show ?case using 7 by (simp add: evalIn_def)
qed (simp_all add: evalColumn_def evalUnaryOp_def evalBinaryOp_def evalBetween_def)

section \<open>Sorting\<close>

text \<open>The insertion sort of \<^verbatim>\<open>sortRows\<close> for a comparison without effects\<close>

primrec insOrd :: "('a \<Rightarrow> 'a \<Rightarrow> bool) \<Rightarrow> 'a \<Rightarrow> 'a list \<Rightarrow> 'a list" where
  "insOrd swap x [] = [x]"
| "insOrd swap x (y # ys) = (if swap y x then y # insOrd swap x ys else x # y # ys)"

definition sortOrd :: "('a \<Rightarrow> 'a \<Rightarrow> bool) \<Rightarrow> 'a list \<Rightarrow> 'a list" where
  "sortOrd swap xs = rev (foldl (\<lambda>done x. insOrd swap x done) [] xs)"

lemma insertBack_pure: "insertBack (\<lambda>x y. returnS (swap x y)) x ys = returnS (insOrd swap x ys)"
  by (induction ys) simp_all

lemma sortBack_pure: "sortBack (\<lambda>x y. returnS (swap x y)) ds xs = returnS (foldl (\<lambda>done x. insOrd swap x done) ds xs)"
  by (induction xs arbitrary: ds) (simp_all add: insertBack_pure)

lemma mset_insOrd: "mset (insOrd swap x ys) = add_mset x (mset ys)"
  by (induction ys) simp_all

lemma set_insOrd: "set (insOrd swap x ys) = insert x (set ys)"
  using mset_insOrd by (metis set_mset_add_mset_insert set_mset_mset)

lemma mset_sortOrd: "mset (sortOrd swap xs) = mset xs"
proof -
  have "mset (foldl (\<lambda>done x. insOrd swap x done) ds xs) = mset ds + mset xs" for ds
    by (induction xs arbitrary: ds) (simp_all add: mset_insOrd)
  then show ?thesis by (simp add: sortOrd_def)
qed

text \<open>
  The contract of a comparison that the sort needs: on the rows of \<open>A\<close>, \<open>swap x y\<close> (\<open>x\<close> has to come after \<open>y\<close>) is a strict weak order.
\<close>

locale row_order =
  fixes swap :: "'a \<Rightarrow> 'a \<Rightarrow> bool" and A :: "'a set"
  assumes swap_asym: "x \<in> A \<Longrightarrow> y \<in> A \<Longrightarrow> swap x y \<Longrightarrow> \<not> swap y x"
    and swap_trans: "x \<in> A \<Longrightarrow> y \<in> A \<Longrightarrow> z \<in> A \<Longrightarrow> \<not> swap x y \<Longrightarrow> \<not> swap y z \<Longrightarrow> \<not> swap x z"
begin

lemma insOrd_sorted:
  "insert x (set ys) \<subseteq> A \<Longrightarrow> sorted_wrt (\<lambda>x y. \<not> swap y x) ys \<Longrightarrow> sorted_wrt (\<lambda>x y. \<not> swap y x) (insOrd swap x ys)"
proof (induction ys)
  case (Cons y ys)
  have "\<not> swap z x" if "\<not> swap y x" "z \<in> set ys" for z
    using that swap_trans [of z y x] Cons.prems by auto
  then show ?case using Cons swap_asym [of y x] by (auto simp: set_insOrd)
qed simp

lemma insOrd_stable:
  "insert x (set ys) \<subseteq> A \<Longrightarrow> z \<in> A \<Longrightarrow>
   filter (\<lambda>u. \<not> swap u z \<and> \<not> swap z u) (insOrd swap x ys) = filter (\<lambda>u. \<not> swap u z \<and> \<not> swap z u) (x # ys)"
proof (induction ys)
  case (Cons y ys)
  have "\<not> (\<not> swap y z \<and> \<not> swap z x)" if "swap y x"
    using that swap_trans [of y z x] Cons.prems by auto
  then show ?case using Cons by auto
qed simp

lemma sortOrd_sorted:
  assumes "set xs \<subseteq> A"
  shows "sorted_wrt (\<lambda>x y. \<not> swap x y) (sortOrd swap xs)"
proof -
  have "set ds \<subseteq> A \<Longrightarrow> sorted_wrt (\<lambda>x y. \<not> swap y x) ds \<Longrightarrow> sorted_wrt (\<lambda>x y. \<not> swap y x) (foldl (\<lambda>done x. insOrd swap x done) ds xs)" for ds
    using assms by (induction xs arbitrary: ds) (simp_all add: insOrd_sorted set_insOrd)
  from this [of "[]"] show ?thesis by (simp add: sortOrd_def sorted_wrt_rev)
qed

lemma sortOrd_stable:
  assumes "set xs \<subseteq> A" "z \<in> A"
  shows "filter (\<lambda>u. \<not> swap u z \<and> \<not> swap z u) (sortOrd swap xs) = filter (\<lambda>u. \<not> swap u z \<and> \<not> swap z u) xs"
proof -
  let ?p = "\<lambda>u. \<not> swap u z \<and> \<not> swap z u"
  have "set ds \<subseteq> A \<Longrightarrow> filter ?p (foldl (\<lambda>done x. insOrd swap x done) ds xs) = rev (filter ?p xs) @ filter ?p ds" for ds
    using assms by (induction xs arbitrary: ds) (simp_all add: insOrd_stable set_insOrd)
  from this [of "[]"] show ?thesis by (simp add: sortOrd_def rev_filter [symmetric])
qed

end

text \<open>
  The comparison of two rows by the keys of ORDER BY. It is a strict weak order on rows whose keys are NULL or numbers: \<^verbatim>\<open>Compare\<close> then compares the ranks of
  the keys, NULL lowest.
\<close>

fun swaps :: "go_rt \<Rightarrow> ((Row \<Rightarrow> Value) \<times> bool) list \<Rightarrow> Row \<Rightarrow> Row \<Rightarrow> bool" where
  "swaps rt [] row1 row2 \<longleftrightarrow> False"
| "swaps rt ((key, desc) # keys) row1 row2 \<longleftrightarrow>
     (let c = Compare rt (key row1) (key row2) in if c \<noteq> 0 then (if desc then c < 0 else 0 < c) else swaps rt keys row1 row2)"

definition numeric :: "go_rt \<Rightarrow> Value \<Rightarrow> bool" where
  "numeric rt v \<longleftrightarrow> IsNull v \<or> (case ToFloat64 rt v of Inr f \<Rightarrow> \<not> f64_nan f | Inl _ \<Rightarrow> False)"

definition rank :: "go_rt \<Rightarrow> Value \<Rightarrow> int option" where
  "rank rt v = (if IsNull v then None else case ToFloat64 rt v of Inr f \<Rightarrow> Some (f64_key f) | Inl _ \<Rightarrow> None)"

lemma Compare_rank:
  assumes "numeric rt v" "numeric rt w"
  shows "Compare rt v w = cmp_by (<) (rank rt v) (rank rt w)"
  using assms by (auto simp: numeric_def rank_def Compare_def cmp_by_def f64_less_def less_option_def split: sum.splits)

lemma Compare_numeric:
  assumes "numeric rt v" "numeric rt w"
  shows "Compare rt v w < 0 \<longleftrightarrow> rank rt v < rank rt w" "0 < Compare rt v w \<longleftrightarrow> rank rt w < rank rt v" "Compare rt v w = 0 \<longleftrightarrow> rank rt v = rank rt w"
  by (auto simp: Compare_rank [OF assms] cmp_by_def)

lemma swaps_numeric:
  assumes "numeric rt (key x)" "numeric rt (key y)"
  shows "swaps rt ((key, desc) # keys) x y \<longleftrightarrow>
    (if desc then rank rt (key x) < rank rt (key y) else rank rt (key y) < rank rt (key x)) \<or> rank rt (key x) = rank rt (key y) \<and> swaps rt keys x y"
  using Compare_numeric [OF assms] by (auto simp: Let_def)

abbreviation numericRows :: "go_rt \<Rightarrow> ((Row \<Rightarrow> Value) \<times> bool) list \<Rightarrow> Row set" where
  "numericRows rt keys \<equiv> {row. list_all (\<lambda>k. numeric rt (fst k row)) keys}"

interpretation by_keys: row_order "swaps rt keys" "numericRows rt keys" for rt keys
proof
  show "x \<in> numericRows rt keys \<Longrightarrow> y \<in> numericRows rt keys \<Longrightarrow> swaps rt keys x y \<Longrightarrow> \<not> swaps rt keys y x" for x y
    by (induction keys) (auto simp: swaps_numeric simp del: swaps.simps(2) split: if_splits)
  show "x \<in> numericRows rt keys \<Longrightarrow> y \<in> numericRows rt keys \<Longrightarrow> z \<in> numericRows rt keys \<Longrightarrow> \<not> swaps rt keys x y \<Longrightarrow> \<not> swaps rt keys y z \<Longrightarrow>
      \<not> swaps rt keys x z" for x y z
    by (induction keys) (auto simp: swaps_numeric simp del: swaps.simps(2) split: if_splits)
qed

section \<open>The answer to a query\<close>

text \<open>ORDER BY reads a column past the end of a row as a zero value that is no NULL; all other expressions have their usual value.\<close>

definition keyOf :: "'w fn_env \<Rightarrow> colIndex \<Rightarrow> Expression \<Rightarrow> Row \<Rightarrow> Value" where
  "keyOf fe colIndex expr row =
     (case expr of
        ExprColumn table column \<Rightarrow> nthOr zeroValue (row_Data row) (colAt (fn_rt fe) colIndex column)
      | _ \<Rightarrow> valueOf fe colIndex (row_Data row) expr)"

definition keysOf :: "'w fn_env \<Rightarrow> colIndex \<Rightarrow> OrderByClause list \<Rightarrow> ((Row \<Rightarrow> Value) \<times> bool) list" where
  "keysOf fe colIndex orderBy = map (\<lambda>(expr, direction). (keyOf fe colIndex expr, direction = ''DESC'')) orderBy"

definition satisfies :: "'w fn_env \<Rightarrow> colIndex \<Rightarrow> Expression option \<Rightarrow> Row \<Rightarrow> bool" where
  "satisfies fe colIndex cond row = (case cond of None \<Rightarrow> True | Some c \<Rightarrow> ToBool (fn_rt fe) (valueOf fe colIndex (row_Data row) c))"

text \<open>The number LIMIT or OFFSET stands for\<close>

definition limitNumber :: "'w fn_env \<Rightarrow> Expression \<Rightarrow> int" where
  "limitNumber fe x = sint (int64Of (fn_rt fe) (valueOf fe [] [] x))"

definition window :: "'w fn_env \<Rightarrow> Expression option \<Rightarrow> Expression option \<Rightarrow> 'a list \<Rightarrow> 'a list" where
  "window fe limit offset rows =
     (let rows = (case limit of None \<Rightarrow> rows | Some n \<Rightarrow> take (nat (limitNumber fe n)) rows)
      in case offset of None \<Rightarrow> rows | Some m \<Rightarrow> drop (nat (limitNumber fe m)) rows)"

definition allColumns :: "SelectColumn list \<Rightarrow> bool" where
  "allColumns cols \<longleftrightarrow> (case cols of [c] \<Rightarrow> sc_All c | _ \<Rightarrow> False)"

definition projection :: "'w fn_env \<Rightarrow> colIndex \<Rightarrow> SelectColumn list \<Rightarrow> Row \<Rightarrow> Row" where
  "projection fe colIndex cols row =
     (if allColumns cols then row else row\<lparr>row_Data := map (\<lambda>c. valueOf fe colIndex (row_Data row) (the (sc_Expr c))) cols\<rparr>)"

definition columnNames :: "go_rt \<Rightarrow> ColumnDef list \<Rightarrow> SelectColumn list \<Rightarrow> string list" where
  "columnNames rt defs cols = (if allColumns cols then map col_Name defs else map (\<lambda>c. the (nameOfColumn rt c)) cols)"

definition plainColumns :: "go_rt \<Rightarrow> SelectColumn list \<Rightarrow> bool" where
  "plainColumns rt cols \<longleftrightarrow>
     cols \<noteq> [] \<and> \<not> hasAggregateFunctions rt cols
     \<and> (allColumns cols \<or> list_all (\<lambda>c. \<not> sc_All c \<and> (case sc_Expr c of Some x \<Rightarrow> plain rt x | None \<Rightarrow> False)) cols)"

definition plainNumber :: "'w fn_env \<Rightarrow> Expression option \<Rightarrow> bool" where
  "plainNumber fe x \<longleftrightarrow> (case x of None \<Rightarrow> True | Some n \<Rightarrow> plain (fn_rt fe) n \<and> 0 \<le> limitNumber fe n)"

definition plainOption :: "go_rt \<Rightarrow> Expression option \<Rightarrow> bool" where
  "plainOption rt x \<longleftrightarrow> (case x of None \<Rightarrow> True | Some c \<Rightarrow> plain rt c)"

lemma evalBool_plain: "plain (ert env) c \<Longrightarrow> evalBool env c row colIndex rowID = returnS (ToBool (ert env) (valueOf (ee_fn env) colIndex row c))"
  by (simp add: evalBool_def boolOf_def evalExpr_plain)

lemma filterRows_plain:
  assumes "plainOption (ert env) cond"
  shows "(case cond of None \<Rightarrow> returnS rows | Some c \<Rightarrow> filterRows env rows c colIndex) = returnS (filter (satisfies (ee_fn env) colIndex cond) rows)"
proof (cases cond)
  case (Some c)
  then have "filterRows env rows c colIndex = returnS (filter (satisfies (ee_fn env) colIndex cond) rows)"
    unfolding filterRows_def using assms by (intro filterS_return) (simp add: plainOption_def evalBool_plain satisfies_def)
  with Some show ?thesis by simp
qed (simp add: satisfies_def [abs_def])

lemma orderValue_plain: "plain (ert env) x \<Longrightarrow> orderValue env x colIndex row = returnS (keyOf (ee_fn env) colIndex x row)"
  by (cases x) (simp_all add: orderValue_def keyOf_def evalExpr_plain del: evalExpr.simps)

lemma shouldSwap_plain:
  assumes "list_all (\<lambda>k. plain (ert env) (fst k)) orderBy"
  shows "shouldSwap env row1 row2 orderBy colIndex = returnS (swaps (ert env) (keysOf (ee_fn env) colIndex orderBy) row1 row2)"
  using assms by (induction orderBy) (auto simp: keysOf_def orderValue_plain Let_def)

lemma sortRows_plain:
  assumes "list_all (\<lambda>k. plain (ert env) (fst k)) orderBy"
  shows "sortRows env rows orderBy colIndex = returnS (sortOrd (swaps (ert env) (keysOf (ee_fn env) colIndex orderBy)) rows)"
proof (cases "orderBy = []")
  case True
  have "foldl (\<lambda>done x. insOrd (\<lambda>_ _. False) x done) ds rows = rev rows @ ds" for ds :: "Row list"
  proof (induction rows arbitrary: ds)
    case (Cons r rs)
    have "insOrd (\<lambda>_ _. False) r ds = r # ds" by (cases ds) simp_all
    then show ?case using Cons by simp
  qed simp
  moreover have "swaps (ert env) [] = (\<lambda>_ _. False)" by (simp add: fun_eq_iff)
  ultimately show ?thesis using True by (simp add: sortRows_def sortOrd_def keysOf_def)
next
  case False
  then show ?thesis by (simp add: sortRows_def shouldSwap_plain [OF assms] sortBack_pure) (simp add: sortOrd_def)
qed

lemma evalInt_plain: "plain (ert env) x \<Longrightarrow> evalInt env x = returnS (int64Of (ert env) (valueOf (ee_fn env) [] [] x))"
  by (simp add: evalInt_def evalExpr_plain)

lemma panicIf_False [simp]: "panicIf False = returnS ()"
  by (simp add: panicIf_def returnS_def fun_eq_iff)

lemma window_plain:
  assumes "plainNumber (ee_fn env) limit" "plainNumber (ee_fn env) offset"
  shows "bindS (limitRows env limit rows) (\<lambda>rows. bindS (offsetRows env offset rows) k) = k (window (ee_fn env) limit offset rows)"
proof -
  have "limitRows env limit rows = returnS (window (ee_fn env) limit None rows)"
    using assms(1) by (auto simp: limitRows_def window_def plainNumber_def limitNumber_def evalInt_plain Let_def split: option.splits)
  moreover have "offsetRows env offset rows = returnS (window (ee_fn env) None offset rows)" for rows
    using assms(2) by (auto simp: offsetRows_def window_def plainNumber_def limitNumber_def evalInt_plain Let_def split: option.splits)
  ultimately show ?thesis by (simp add: window_def Let_def)
qed

lemma columnsLoop_plain:
  "list_all (\<lambda>c. \<not> sc_All c \<and> sc_Expr c \<noteq> None) cols \<Longrightarrow>
   columnsLoop rt names (ds @ replicate (length cols) []) (length ds) cols = Inr (ds @ map (\<lambda>c. the (nameOfColumn rt c)) cols)"
proof (induction cols arbitrary: ds)
  case (Cons c cols)
  then obtain n where n: "nameOfColumn rt c = Some n" by (cases "sc_Alias c = []") (auto simp: nameOfColumn_def)
  have "(ds @ [] # replicate (length cols) [])[length ds := n] = (ds @ [n]) @ replicate (length cols) []" by simp
  then show ?case using Cons.prems Cons.IH [of "ds @ [n]"] n by simp
qed simp

lemma resultColumns_plain:
  assumes "plainColumns rt cols"
  shows "resultColumns rt info cols = returnS (columnNames rt (tbl_Columns info) cols)"
proof (cases "allColumns cols")
  case True
  then obtain c where "cols = [c]" "sc_All c" by (auto simp: allColumns_def split: list.splits)
  then show ?thesis by (simp add: resultColumns_def columnNames_def allColumns_def returnS_def fun_eq_iff Let_def)
next
  case False
  then have "list_all (\<lambda>c. \<not> sc_All c \<and> sc_Expr c \<noteq> None) cols" using assms by (auto simp: plainColumns_def list_all_iff split: option.splits)
  from columnsLoop_plain [OF this, of rt _ "[]"] show ?thesis
    using assms False by (simp add: resultColumns_def columnNames_def plainColumns_def returnS_def fun_eq_iff Let_def)
qed

lemma row_Data_update: "row\<lparr>row_Data := d\<rparr> = \<lparr>row_ID = row_ID row, row_Data = d\<rparr>" for row :: Row
  by (cases row) simp

lemma projectRows_plain:
  assumes "plainColumns (ert env) cols"
  shows "projectRows env rows cols colIndex = returnS (map (projection (ee_fn env) colIndex cols) rows)"
proof (cases "allColumns cols")
  case True
  then have "sc_All (hd cols)" "projection (ee_fn env) colIndex cols = id" by (auto simp: allColumns_def projection_def fun_eq_iff split: list.splits)
  then show ?thesis by (simp add: projectRows_def)
next
  case False
  then have all: "list_all (\<lambda>c. \<not> sc_All c \<and> (case sc_Expr c of Some x \<Rightarrow> plain (ert env) x | None \<Rightarrow> False)) cols"
    using assms by (simp add: plainColumns_def)
  then have "mapS (projectColumn env colIndex row) cols = returnS (map (\<lambda>c. valueOf (ee_fn env) colIndex (row_Data row) (the (sc_Expr c))) cols)" for row
    by (intro mapS_return) (auto simp: projectColumn_def evalExpr_plain list_all_iff split: option.splits)
  moreover have "\<not> sc_All (hd cols)" "cols \<noteq> []" using all assms by (auto simp: list_all_iff plainColumns_def)
  ultimately show ?thesis
    using assms False by (auto simp: projectRows_def plainColumns_def projection_def row_Data_update intro!: mapS_return)
qed

section \<open>SELECT on a table\<close>

text \<open>The rows of a table as a query sees them: with the BLOB references resolved\<close>

definition seenRows :: "Storage \<Rightarrow> (u64 \<times> Value list) list \<Rightarrow> Row list" where
  "seenRows s rows = map (\<lambda>(i, row). \<lparr>row_ID = i, row_Data = map (resolveBlobRef s) row\<rparr>) rows"

lemma read_table:
  assumes "mem_inv (en_storage e)" "db_tables (abs_db (en_storage e)) table = Some (defs, rows)"
  obtains t where "tableInfoOf table e = (e, Inr t)" "tbl_Columns t = defs"
    "onStore (GetRowsWithIDs env table) e = (e, Inr (map (\<lambda>(i, row). (i, map (resolveBlobRef (en_storage e)) row)) rows))"
proof -
  from assms(2) obtain t where t: "map_of (s_tables (en_storage e)) table = Some t" "tbl_Columns t = defs" by (auto simp: abs_db_def)
  with mem_table [OF assms(1) t(1)] assms(2) obtain ds ids where d: "map_of (s_rowData (en_storage e)) table = Some ds"
    "map_of (s_rowIDs (en_storage e)) table = Some ids" "table_ok (s_nextID (en_storage e)) table t ds ids" "rows = zip ids ds" by auto
  have "tableInfoOf table e = (e, Inr t)" using t(1) by (simp add: tableInfoOf_def onStore_def GetTableInfo_def)
  moreover have "onStore (GetRowsWithIDs env table) e = (e, Inr (map (\<lambda>(i, row). (i, map (resolveBlobRef (en_storage e)) row)) rows))"
    using assms(1) t d by (simp add: onStore_def GetRowsWithIDs_def onRows_def has_key_def bindS_def getD_def table_ok_def mem_inv_def)
  ultimately show ?thesis using that t(2) by blast
qed

text \<open>
  C2. The answer to a SELECT on a table. For every query without GROUP BY, DISTINCT, UNION and aggregates whose expressions are plain, on a storage in memory
  mode: the engine is not changed; the columns have the given names; and the rows are the rows of the table that satisfy the condition, each one exactly as
  often as it is in the table, in an order that follows ORDER BY and keeps rows with equal keys in the order of the table (whenever the keys are NULL or numbers), cut
  first to the first LIMIT rows and then without the first OFFSET of these, projected to the columns. JOIN and HAVING have no influence.
\<close>
theorem select_answers_query:
  assumes "mem_inv (en_storage e)" "db_tables (abs_db (en_storage e)) (fr_Table from) = Some (defs, rows)"
    and "fr_Table from \<noteq> []" "\<not> isSchemaQuery (ert env) from"
    and "plainColumns (ert env) cols" "plainOption (ert env) cond" "list_all (\<lambda>k. plain (ert env) (fst k)) orderBy"
    and "plainNumber (ee_fn env) limit" "plainNumber (ee_fn env) offset"
  defines "colIndex \<equiv> buildColIndex (ert env) defs"
  defines "matching \<equiv> filter (satisfies (ee_fn env) colIndex cond) (seenRows (en_storage e) rows)"
  defines "after \<equiv> swaps (ert env) (keysOf (ee_fn env) colIndex orderBy)"
  shows "\<exists>ordered. mset ordered = mset matching
    \<and> (set matching \<subseteq> numericRows (ert env) (keysOf (ee_fn env) colIndex orderBy) \<longrightarrow>
         sorted_wrt (\<lambda>r1 r2. \<not> after r1 r2) ordered
         \<and> (\<forall>r \<in> set matching. filter (\<lambda>r'. \<not> after r' r \<and> \<not> after r r') ordered = filter (\<lambda>r'. \<not> after r' r \<and> \<not> after r r') matching))
    \<and> executeSelect env (SelectStmt False cols (Some from) joins cond [] having orderBy limit offset [] unionAll) e =
        (e, Inr (selectResult (columnNames (ert env) defs cols) (map (projection (ee_fn env) colIndex cols) (window (ee_fn env) limit offset ordered))))"
proof (intro exI conjI impI ballI)
  let ?keys = "keysOf (ee_fn env) colIndex orderBy"
  show "mset (sortOrd after matching) = mset matching" by (rule mset_sortOrd)
  show "sorted_wrt (\<lambda>r1 r2. \<not> after r1 r2) (sortOrd after matching)" if "set matching \<subseteq> numericRows (ert env) ?keys"
    using by_keys.sortOrd_sorted [OF that] unfolding after_def .
  show "filter (\<lambda>r'. \<not> after r' r \<and> \<not> after r r') (sortOrd after matching) = filter (\<lambda>r'. \<not> after r' r \<and> \<not> after r r') matching"
    if "set matching \<subseteq> numericRows (ert env) ?keys" "r \<in> set matching" for r
    using by_keys.sortOrd_stable [OF that(1), of r] that unfolding after_def by blast
  obtain t where t: "tableInfoOf (fr_Table from) e = (e, Inr t)" "tbl_Columns t = defs"
    "onStore (GetRowsWithIDs (ee_senv env) (fr_Table from)) e = (e, Inr (map (\<lambda>(i, row). (i, map (resolveBlobRef (en_storage e)) row)) rows))"
    using assms(1,2) by (rule read_table)
  have "selectTable env (fr_Table from) (SelectStmt False cols (Some from) joins cond [] having orderBy limit offset [] unionAll) e =
      (e, Inr (columnNames (ert env) defs cols, map (projection (ee_fn env) colIndex cols) (window (ee_fn env) limit offset (sortOrd after matching))))"
    using assms(5) unfolding selectTable_def bindS_def [of "tableInfoOf _"] bindS_def [of "onStore _"] t
    by (simp add: t(2) Let_def colIndex_def [symmetric] filterRows_plain assms(6) groupStage_def plainColumns_def sortRows_plain assms(7)
        after_def [symmetric] window_plain assms(8,9) resultColumns_plain projectRows_plain onEval_def)
      (simp add: t(3) returnS_def matching_def seenRows_def split_def comp_def)
  then show "executeSelect env (SelectStmt False cols (Some from) joins cond [] having orderBy limit offset [] unionAll) e =
        (e, Inr (selectResult (columnNames (ert env) defs cols) (map (projection (ee_fn env) colIndex cols) (window (ee_fn env) limit offset (sortOrd after matching)))))"
    using assms(3,4) by (simp add: bindS_def returnS_def)
qed

text \<open>A storage with a table of one column and three rows\<close>

definition threeRows :: Storage where
  "threeRows = (NewStorage True False sampleDisk)
     \<lparr>s_tables := [(''t'', (storedTable sampleEnv sampleInfo 1)\<lparr>tbl_RowCount := 3\<rparr>)], s_nextID := 5,
      s_rowData := [(''t'', [[NewIntValue 7], [NewNullValue], [NewIntValue 4]])], s_rowIDs := [(''t'', [2, 3, 4])]\<rparr>"

lemma threeRows_inv: "mem_inv threeRows"
  by (auto simp: mem_inv_def threeRows_def NewStorage_def sampleDisk_def rows_ok_def table_ok_def storedTable_def sampleInfo_def split: if_splits)

lemma threeRows_table:
  "db_tables (abs_db threeRows) ''t'' = Some (tbl_Columns sampleInfo, [(2, [NewIntValue 7]), (3, [NewNullValue]), (4, [NewIntValue 4])])"
  by (simp add: abs_db_def threeRows_def storedTable_def getD_def)

lemma resolve_plain [simp]: "resolveBlobRef s NewNullValue = NewNullValue" "resolveBlobRef s (NewIntValue n) = NewIntValue n"
  by (simp_all add: resolveBlobRef_def NewNullValue_def NewIntValue_def)

abbreviation idColumn :: SelectColumn where "idColumn \<equiv> SelectColumn (Some (ExprColumn [] ''id'')) [] [] False"
abbreviation fromT :: FromClause where "fromT \<equiv> FromClause ''t'' [] [] None"

lemma sample_lower: "ToLower rt_plain ''id'' = ''id''" "ToLower rt_plain ''t'' = ''t''" "ToLower rt_plain [] = []"
  "ToLower rt_plain ''information_schema'' = ''information_schema''"
  by (simp_all add: ToLower_def is_ascii_def lower_ascii_def)

lemma sample_env: "ert sampleEngEnv = rt_plain" "en_storage (sampleEngine s) = s"
  by (simp_all add: sampleEngEnv_def sampleEngine_def)

lemma sample_index: "buildColIndex rt_plain (tbl_Columns sampleInfo) = [(''id'', 0)]"
  by (simp add: buildColIndex_def sampleInfo_def WithAutoInc_def NewColumnDef_def sample_lower enumerate_eq_zip)

lemma sample_schema: "\<not> isSchemaQuery rt_plain fromT"
  by (simp add: isSchemaQuery_def EqualFold_def sample_lower hasPrefix_def)

text \<open>\<^verbatim>\<open>SELECT id FROM t LIMIT 2 OFFSET 1\<close>\<close>

theorem select_answers_query_witness:
  "mem_inv threeRows \<and> executeSelect sampleEngEnv
     (SelectStmt False [idColumn] (Some fromT) [] None [] None [] (Some (ExprLiteral (GInt64 2))) (Some (ExprLiteral (GInt64 1))) [] False) (sampleEngine threeRows) =
   (sampleEngine threeRows, Inr (selectResult [''id''] [\<lparr>row_ID = 3, row_Data = [NewNullValue]\<rparr>]))"
proof -
  let ?l = "Some (ExprLiteral (GInt64 2))" and ?o = "Some (ExprLiteral (GInt64 1))"
  have num: "limitNumber (ee_fn sampleEngEnv) (ExprLiteral (GInt64 2)) = 2" "limitNumber (ee_fn sampleEngEnv) (ExprLiteral (GInt64 1)) = 1"
    by (simp_all add: limitNumber_def NewValue_def int64Of_def ToInt64_def)
  let ?rows = "[(2, [NewIntValue 7]), (3, [NewNullValue]), (4, [NewIntValue 4])]" and ?defs = "tbl_Columns sampleInfo"
  let ?ci = "buildColIndex rt_plain ?defs"
  have seen: "filter (satisfies fe ?ci None) (seenRows threeRows ?rows) =
      [\<lparr>row_ID = 2, row_Data = [NewIntValue 7]\<rparr>, \<lparr>row_ID = 3, row_Data = [NewNullValue]\<rparr>, \<lparr>row_ID = 4, row_Data = [NewIntValue 4]\<rparr>]" for fe :: "unit fn_env"
    by (simp add: seenRows_def satisfies_def)
  have "plainColumns rt_plain [idColumn]" by (simp add: plainColumns_def hasAggregateFunctions_def allColumns_def)
  moreover have "plainNumber (ee_fn sampleEngEnv) ?l" "plainNumber (ee_fn sampleEngEnv) ?o" by (simp_all add: plainNumber_def num)
  ultimately obtain ordered where o: "filter (\<lambda>r. True) ordered = filter (\<lambda>r. True) (filter (satisfies (ee_fn sampleEngEnv) ?ci None) (seenRows threeRows ?rows))"
    "executeSelect sampleEngEnv (SelectStmt False [idColumn] (Some fromT) [] None [] None [] ?l ?o [] False) (sampleEngine threeRows) =
       (sampleEngine threeRows, Inr (selectResult (columnNames rt_plain ?defs [idColumn])
          (map (projection (ee_fn sampleEngEnv) ?ci [idColumn]) (window (ee_fn sampleEngEnv) ?l ?o ordered))))"
    using select_answers_query [of "sampleEngine threeRows" fromT ?defs ?rows sampleEngEnv "[idColumn]" None "[]" ?l ?o "[]" None False] threeRows_inv threeRows_table sample_schema
    by (fastforce simp: sample_env keysOf_def plainOption_def seen)
  have "window (ee_fn sampleEngEnv) ?l ?o ordered = [\<lparr>row_ID = 3, row_Data = [NewNullValue]\<rparr>]"
    using o(1) by (simp add: seen window_def num numeral_2_eq_2)
  then show ?thesis
    using o(2) threeRows_inv by (simp add: columnNames_def allColumns_def nameOfColumn_def projection_def sample_index colAt_def getD_def sample_env sample_lower
        nthOr_def hasPrefix_def)
qed

section \<open>Counting\<close>

text \<open>The rows \<^verbatim>\<open>COUNT(*)\<close>, \<^verbatim>\<open>COUNT()\<close> and \<^verbatim>\<open>COUNT(x)\<close> count\<close>

definition counted :: "'w fn_env \<Rightarrow> colIndex \<Rightarrow> Expression list \<Rightarrow> Row \<Rightarrow> bool" where
  "counted fe colIndex args row =
     (case args of [] \<Rightarrow> True | ExprStar _ # _ \<Rightarrow> True | x # _ \<Rightarrow> \<not> IsNull (valueOf fe colIndex (row_Data row) x))"

lemma aggValues_plain:
  assumes "list_all (plain (ert env)) args"
  obtains vs where "aggValues env args colIndex rows = returnS vs" "map (\<lambda>v. \<not> IsNull v) vs = map (counted (ee_fn env) colIndex args) rows"
proof (cases "args = [] \<or> (\<exists>t as. args = ExprStar t # as)")
  case True
  then show ?thesis
    using that [of "map (\<lambda>_. NewIntValue 1) rows"] by (auto simp: aggValues_def counted_def comp_def)
next
  case False
  then obtain x xs where x: "args = x # xs" "\<And>t. x \<noteq> ExprStar t" by (cases args) auto
  then have "aggValues env args colIndex rows = returnS (map (\<lambda>row. valueOf (ee_fn env) colIndex (row_Data row) x) rows)"
    using assms by (cases x) (auto simp: aggValues_def evalExpr_plain simp del: evalExpr.simps intro!: mapS_return)
  moreover have "counted (ee_fn env) colIndex args = (\<lambda>row. \<not> IsNull (valueOf (ee_fn env) colIndex (row_Data row) x))"
    using x by (auto simp: counted_def fun_eq_iff split: Expression.split)
  ultimately show ?thesis using that by (simp add: comp_def)
qed

lemma count_call:
  assumes "ToUpper (ert env) name = ''COUNT''" "list_all (plain (ert env)) args"
  shows "aggregate env name args colIndex rows = returnS (NewIntValue (of_nat (length (filter (counted (ee_fn env) colIndex args) rows))))"
proof -
  obtain vs where vs: "aggValues env args colIndex rows = returnS vs" "map (\<lambda>v. \<not> IsNull v) vs = map (counted (ee_fn env) colIndex args) rows"
    using assms(2) by (rule aggValues_plain)
  have fn: "map_of pureFunctions ''COUNT'' = Some (\<lambda>env. fnCount)" by (simp add: pureFunctions_def)
  have "length (filter (\<lambda>v. \<not> IsNull v) vs) = length (filter (counted (ee_fn env) colIndex args) rows)"
    using arg_cong [OF vs(2), of "\<lambda>bs. length (filter id bs)"] by (simp add: filter_map comp_def)
  then show ?thesis
    by (simp add: aggregate_def vs(1) assms(1) callFunction_def Fn_Call_pure_name [OF fn] fnCount_def bindS_def returnS_def orNull_def fun_eq_iff)
qed



end
