(* ===== verification/Like.thy ===== *)
theory Like
  imports Queries
begin

text \<open>
  \<^verbatim>\<open>LIKE\<close>: the matcher of \<^verbatim>\<open>matchLikeRunes\<close> against the meaning of patterns, in which \<^verbatim>\<open>%\<close> stands for any text, \<^verbatim>\<open>_\<close> for any character and every
  other character for itself.
\<close>

inductive like :: "rune list \<Rightarrow> rune list \<Rightarrow> bool" where
  like_end: "like [] []"
| like_any: "like s pat \<Longrightarrow> like (c # s) (underscore # pat)"
| like_same: "c \<noteq> percent \<Longrightarrow> c \<noteq> underscore \<Longrightarrow> like s pat \<Longrightarrow> like (c # s) (c # pat)"
| like_text: "like s pat \<Longrightarrow> like (t @ s) (percent # pat)"

inductive_simps like_Nil_iff: "like s []"
inductive_simps like_underscore_iff: "like s (underscore # pat)"
inductive_simps like_percent_iff: "like s (percent # pat)"

lemma like_other_iff: "q \<noteq> percent \<Longrightarrow> q \<noteq> underscore \<Longrightarrow> like s (q # pat) \<longleftrightarrow> (\<exists>t. s = q # t \<and> like t pat)"
  by (auto elim: like.cases intro: like_same)

lemma like_empty: "like [] pat \<longleftrightarrow> dropWhile (\<lambda>q. q = percent) pat = []"
proof (induction pat)
  case (Cons q pat)
  then show ?case by (cases "q = percent"; cases "q = underscore") (auto simp: like_percent_iff like_underscore_iff like_other_iff)
qed (simp add: like_Nil_iff)

lemma list_ex_drops: "list_ex (\<lambda>i. P (drop i s)) [0..<Suc (length s)] \<longleftrightarrow> (\<exists>t u. s = t @ u \<and> P u)"
proof
  assume "list_ex (\<lambda>i. P (drop i s)) [0..<Suc (length s)]"
  then obtain i where "P (drop i s)" by (auto simp: list_ex_iff simp del: upt_Suc)
  then show "\<exists>t u. s = t @ u \<and> P u" by (intro exI [of _ "take i s"] exI [of _ "drop i s"]) simp
next
  assume "\<exists>t u. s = t @ u \<and> P u"
  then obtain t u where "s = t @ u" "P u" by blast
  then have "length t < Suc (length s)" "P (drop (length t) s)" by simp_all
  then show "list_ex (\<lambda>i. P (drop i s)) [0..<Suc (length s)]" unfolding list_ex_iff by (intro bexI [of _ "length t"]) auto
qed

lemma matchLikeRunes_like: "percent \<notin> set s \<Longrightarrow> matchLikeRunes s pat \<longleftrightarrow> like s pat"
proof (induction pat arbitrary: s)
  case Nil
  then show ?case by (cases s) (simp_all add: like_Nil_iff)
next
  case (Cons q pat)
  show ?case
  proof (cases s)
    case Nil
    then show ?thesis by (simp add: like_empty)
  next
    case (Cons c t)
    then have "percent \<notin> set t" "c \<noteq> percent" using Cons.prems by auto
    have any_text: "matchLikeRunes s (percent # pat) \<longleftrightarrow> like s (percent # pat)"
    proof -
      have "matchLikeRunes s (percent # pat) \<longleftrightarrow> list_ex (\<lambda>i. matchLikeRunes (drop i s) pat) [0..<Suc (length s)]"
        using Cons \<open>c \<noteq> percent\<close> by (auto simp del: upt_Suc)
      also have "\<dots> \<longleftrightarrow> (\<exists>t u. s = t @ u \<and> matchLikeRunes u pat)" by (rule list_ex_drops)
      also have "\<dots> \<longleftrightarrow> (\<exists>t u. s = t @ u \<and> like u pat)" using Cons.IH Cons.prems by (metis Un_iff set_append)
      finally show ?thesis by (auto simp: like_percent_iff)
    qed
    have "matchLikeRunes t pat \<longleftrightarrow> like t pat" by (rule Cons.IH) fact
    with any_text Cons show ?thesis
      by (cases "q = percent"; cases "q = underscore") (auto simp: like_underscore_iff like_other_iff simp del: upt_Suc)
  qed
qed

text \<open>
  C17. \<^verbatim>\<open>LIKE\<close> means what the pattern says: for every text that has no percent sign in it and every pattern, the comparison is 1 exactly when the text is matched by the
  pattern, character by character of the decoded UTF-8, and 0 otherwise.
\<close>
theorem like_means_pattern:
  assumes "percent \<notin> set (runesOf (ToString rt left))"
  shows "evalLike rt left right = NewBoolValue (like (runesOf (ToString rt left)) (runesOf (ToString rt right)))"
  using matchLikeRunes_like [OF assms] by (simp add: evalLike_def matchLike_def)

lemmas rune_eval = runesOf.simps decodeRune_def chr_code_def Let_def

theorem like_means_pattern_witness:
  "percent \<notin> set (runesOf (ToString rt_plain (NewStringValue ''ab''))) \<and>
   evalLike rt_plain (NewStringValue ''ab'') (NewStringValue ''a%'') = NewBoolValue True"
proof -
  have r: "runesOf ''ab'' = [97, 98]" "runesOf ''a%'' = [97, percent]" by (simp_all add: rune_eval)
  have "like ([98] @ []) [percent]" by (intro like.intros)
  then have "like [97, 98] [97, percent]" by (intro like_same) simp_all
  then show ?thesis using like_means_pattern [of rt_plain "NewStringValue ''ab''" "NewStringValue ''a%''"] by (simp add: r)
qed

text \<open>A percent sign in the text is taken for the percent sign of the pattern: the text \<^verbatim>\<open>%x\<close> is not matched by the pattern \<^verbatim>\<open>%\<close>, which matches every text.\<close>

lemma percent_in_text_misread: "\<not> matchLike ''%x'' ''%'' \<and> like (runesOf ''%x'') (runesOf ''%'')"
proof -
  have r: "runesOf ''%x'' = [percent, 120]" "runesOf ''%'' = [percent]" by (simp_all add: rune_eval)
  have "like ([percent, 120] @ []) [percent]" by (intro like.intros)
  then show ?thesis by (simp add: r matchLike_def)
qed

end
