(* ===== verification/Changes.thy ===== *)
theory Changes
  imports Queries Execute
begin

text \<open>
  What INSERT and DELETE do to the tables: for plain expressions and a storage in memory mode the statements carry out the operations of the abstract database
  (theory \<open>Database\<close>), and DELETE takes exactly the deleted rows out of the full-text indexes.
\<close>

definition storeError :: "st_error \<Rightarrow> exec_error" where
  "storeError err = (if err = STPanic then ExecFault GoPanic else ExecStorage err)"

section \<open>DELETE\<close>

lemma plain_no_scripts: "plain rt x \<Longrightarrow> list_all (\<lambda>name. \<not> IsScriptFunc rt name) (functionNames x)"
  by (induction x rule: functionNames.induct) (auto simp: list_all_iff plainFn_def split: option.splits)

lemma plain_scriptsCached: "plain (ert env) x \<Longrightarrow> scriptsCached env x e"
  using plain_no_scripts [of "ert env" x] by (auto simp: scriptsCached_def list_all_iff)

lemma deleteLoop_callbacks:
  "\<not> s_enabled s \<Longrightarrow> length ids = length rows \<Longrightarrow>
   deleteLoop env tid True condition rows ids s =
     (s, filter (\<lambda>(_, row). condition row) (zip ids rows),
      Inr (filter (\<lambda>(_, row). \<not> condition row) (zip ids rows), length (filter condition rows)))"
proof (induction rows arbitrary: ids)
  case (Cons row rows)
  then obtain i ids' where "ids = i # ids'" "length ids' = length rows" by (cases ids) auto
  with Cons show ?case by simp
qed simp

lemma DeleteRowsWithCallback_memory:
  assumes "mem_inv s" "db_tables (abs_db s) name = Some (defs, rows)"
  obtains s' where "DeleteRowsWithCallback env name condition True s =
      (s', filter (\<lambda>(_, row). condition row) rows, Inr (length (filter (\<lambda>(_, row). condition row) rows)))"
    "mem_inv s'" "abs_db s' = (abs_db s)\<lparr>db_tables := (db_tables (abs_db s))(name \<mapsto> (defs, filter (\<lambda>(_, row). \<not> condition row) rows))\<rparr>"
proof -
  from assms(2) obtain t where t: "map_of (s_tables s) name = Some t" "tbl_Columns t = defs" by (auto simp: abs_db_def)
  with mem_table [OF assms(1) t(1)] assms(2) obtain ds ids where d: "map_of (s_rowData s) name = Some ds" "map_of (s_rowIDs s) name = Some ids"
    "table_ok (s_nextID s) name t ds ids" "rows = zip ids ds" by auto
  have len: "length ids = length ds" and mem: "\<not> s_enabled s" "s_tableFiles s = []" using d(3) assms(1) by (simp_all add: table_ok_def mem_inv_def)
  obtain s' where del: "st_exec env (OpDelete name condition) s = (s', Inr (RCount (length (filter (\<lambda>(_, row). condition row) rows))))" and s': "mem_inv s'"
    "abs_db s' = (abs_db s)\<lparr>db_tables := (db_tables (abs_db s))(name \<mapsto> (defs, filter (\<lambda>(_, row). \<not> condition row) rows))\<rparr>"
    using delete_implements [OF assms(1), of env name condition] assms(2) by (auto simp: implements_def split: prod.splits)
  have "DeleteRowsWithCallback env name condition True s = (s', filter (\<lambda>(_, row). condition row) rows, Inr (length (filter (\<lambda>(_, row). condition row) rows)))"
    using del t d len mem deleteLoop_memory [OF mem(1) len, of env "tbl_ID t" condition] deleteLoop_callbacks [OF mem(1) len, of env "tbl_ID t" condition]
    by (auto simp: DeleteRowsWithCallback_def DeleteRows_def deleteMemory_def bindS_def returnS_def Let_def filter_zip_snd split: if_splits)
  then show ?thesis using that s' by blast
qed


lemma sample_bool: "ToBool rt NewNullValue = False" "ToBool rt (NewIntValue 7)" "ToBool rt (NewIntValue 4)"
  by (simp_all add: ToBool_def ToInt64_def NewNullValue_def NewIntValue_def)


section \<open>UPDATE\<close>

text \<open>
  The rows after an UPDATE: the new row \<open>f row\<close> is computed for every row that satisfies the condition, from the first row on; at the first value that is rejected the statement
  ends with the error, and what was assigned before stays. The second component lists the changed rows, the third counts them.
\<close>

fun updatedRows ::
  "(Value list \<Rightarrow> Value list \<times> st_error option) \<Rightarrow> (Value list \<Rightarrow> bool) \<Rightarrow> (u64 \<times> Value list) list
     \<Rightarrow> (u64 \<times> Value list) list \<times> (u64 \<times> Value list) list \<times> (st_error + nat)" where
  "updatedRows f condition [] = ([], [], Inr 0)"
| "updatedRows f condition ((i, row) # rows) =
     (if condition row then
        (case f row of
           (row', Some err) \<Rightarrow> ((i, row') # rows, [], Inl err)
         | (row', None) \<Rightarrow>
             (case updatedRows f condition rows of (rows', cs, r) \<Rightarrow> ((i, row') # rows', (i, row') # cs, case r of Inl err \<Rightarrow> Inl err | Inr n \<Rightarrow> Inr (Suc n))))
      else (case updatedRows f condition rows of (rows', cs, r) \<Rightarrow> ((i, row) # rows', cs, r)))"

lemma plain_updateExprs:
  "list_all (\<lambda>(name, x). plain rt x) updates \<Longrightarrow> list_all (\<lambda>(i, x). plain rt x) (updateExprs rt' ci updates)"
proof -
  have put: "list_all (\<lambda>(i, x). P x) m \<Longrightarrow> P y \<Longrightarrow> list_all (\<lambda>(i, x). P x) (put_key i y m)" for P :: "Expression \<Rightarrow> bool" and m :: "(nat, Expression) gomap" and i y
    by (induction m) (auto split: if_splits)
  have "list_all (\<lambda>(i, x). plain rt x) m \<Longrightarrow> list_all (\<lambda>(name, x). plain rt x) updates \<Longrightarrow>
      list_all (\<lambda>(i, x). plain rt x) (foldl (\<lambda>m (name, x). put_key (colAt rt' ci name) x m) m updates)" for m
    by (induction updates arbitrary: m) (auto simp: put)
  then show "list_all (\<lambda>(name, x). plain rt x) updates \<Longrightarrow> ?thesis" by (simp add: updateExprs_def)
qed

lemma updatedRows_ids: "updatedRows f condition rows = (rows', cs, r) \<Longrightarrow> map fst rows' = map fst rows"
  by (induction rows arbitrary: rows' cs r) (auto split: if_splits prod.splits option.splits)

lemma updateLoop_callbacks:
  assumes "\<not> s_enabled s" "map_of (s_rowData s) name = Some R" "map_of (s_rowIDs s) name = Some ids" "length ids = length R" "k \<le> length R"
    "updatedRows f condition (drop k (zip ids R)) = (rows', cs, r)"
  shows "\<exists>d. updateLoop env name tid True f condition [k..<length R] s = (s\<lparr>s_rowData := d\<rparr>, cs, r) \<and>
    map_of d = (map_of (s_rowData s))(name \<mapsto> take k R @ map snd rows')"
  using assms
proof (induction "length R - k" arbitrary: k s R rows' cs r)
  case 0
  then have "k = length R" by simp
  with 0 show ?case by (intro exI [of _ "s_rowData s"]) (auto simp: fun_eq_iff)
next
  case (Suc m)
  then have k: "k < length R" "m = length R - Suc k" by simp_all
  have upt: "[k..<length R] = k # [Suc k..<length R]" using k by (simp add: upt_rec)
  have R: "getD [] (s_rowData s) name = R" "getD [] (s_rowIDs s) name = ids" using Suc.prems by simp_all
  have dr: "drop k (zip ids R) = (ids ! k, R ! k) # drop (Suc k) (zip ids R)" using k(1) Suc.prems(4) by (simp flip: Cons_nth_drop_Suc)
  let ?rest = "drop (Suc k) (zip ids R)"
  have set: "\<not> s_enabled (setRow name k row s)" "map_of (s_rowData (setRow name k row s)) name = Some (R[k := row])"
    "map_of (s_rowIDs (setRow name k row s)) name = Some ids" "length ids = length (R[k := row])"
    "(setRow name k row s)\<lparr>s_rowData := d\<rparr> = s\<lparr>s_rowData := d\<rparr>" "drop (Suc k) (zip ids (R[k := row])) = ?rest"
    "map_of (s_rowData (setRow name k row s)) = (map_of (s_rowData s))(name \<mapsto> R[k := row])" for row d
    using Suc.prems R by (simp_all add: setRow_def gomap drop_zip)
  show ?case
  proof (cases "condition (R ! k)")
    case False
    obtain rs where rs: "updatedRows f condition ?rest = (rs, cs, r)" "rows' = (ids ! k, R ! k) # rs"
      using Suc.prems(6) False by (auto simp: dr split: prod.splits)
    obtain d where "updateLoop env name tid True f condition [Suc k..<length R] s = (s\<lparr>s_rowData := d\<rparr>, cs, r)"
      "map_of d = (map_of (s_rowData s))(name \<mapsto> take (Suc k) R @ map snd rs)"
      using Suc.hyps(1) [OF k(2) Suc.prems(1-4) _ rs(1)] k by auto
    with False R rs show ?thesis by (intro exI [of _ d]) (simp add: upt take_Suc_conv_app_nth k)
  next
    case True
    obtain row' err where f: "f (R ! k) = (row', err)" by (rule prod.exhaust)
    show ?thesis
    proof (cases err)
      case (Some x)
      then have "rows' = (ids ! k, row') # ?rest" "cs = []" "r = Inl x" using Suc.prems(6) True f by (simp_all add: dr)
      moreover have "map snd ?rest = drop (Suc k) R" using Suc.prems(4) by (simp flip: drop_map)
      ultimately show ?thesis
        using True f Some R k set(7) [where row = row'] by (intro exI [of _ "s_rowData (setRow name k row' s)"]) (simp add: upt upd_conv_take_nth_drop, simp add: setRow_def)
    next
      case None
      obtain rs ds q where rs: "updatedRows f condition ?rest = (rs, ds, q)" by (metis prod.exhaust)
      then have out: "rows' = (ids ! k, row') # rs" "cs = (ids ! k, row') # ds" "r = (case q of Inl err \<Rightarrow> Inl err | Inr n \<Rightarrow> Inr (Suc n))"
        using Suc.prems(6) True f None by (simp_all add: dr)
      obtain d where d: "updateLoop env name tid True f condition [Suc k..<length (R[k := row'])] (setRow name k row' s) = (s\<lparr>s_rowData := d\<rparr>, ds, q)"
        "map_of d = (map_of (s_rowData s))(name \<mapsto> take (Suc k) (R[k := row']) @ map snd rs)"
        using Suc.hyps(1) [of "R[k := row']" "Suc k" "setRow name k row' s" rs ds q] k set [where row = row'] rs by auto
      have "\<not> length ids \<le> k" "getD [] (s_rowIDs (setRow name k row' s)) name = ids" using k Suc.prems(4) set(3) [where row = row'] by simp_all
      with True f None R k d out set(1) [where row = row'] show ?thesis
        by (intro exI [of _ d]) (simp add: upt take_Suc_conv_app_nth Let_def)
    qed
  qed
qed

lemma UpdateRowsWithCallback_memory:
  assumes "mem_inv s" "db_tables (abs_db s) name = Some (defs, rows)"
    "updatedRows (\<lambda>row. applyUpdates (env_rt env) defs (updateFunc row) row) condition rows = (rows', cs, r)"
  obtains s' where "UpdateRowsWithCallback env name updateFunc condition True s = (s', cs, r)" "mem_inv s'"
    "abs_db s' = (abs_db s)\<lparr>db_tables := (db_tables (abs_db s))(name \<mapsto> (defs, rows'))\<rparr>"
proof -
  from assms(2) obtain t where t: "map_of (s_tables s) name = Some t" "tbl_Columns t = defs" by (auto simp: abs_db_def)
  with mem_table [OF assms(1) t(1)] assms(2) obtain ds ids where d: "map_of (s_rowData s) name = Some ds" "map_of (s_rowIDs s) name = Some ids"
    "table_ok (s_nextID s) name t ds ids" "rows = zip ids ds" by auto
  note mem = assms(1) [unfolded mem_inv_def]
  have len: "length ids = length ds" using d(3) by (simp add: table_ok_def)
  have ids: "map fst rows' = ids" using updatedRows_ids [OF assms(3)] d(4) len by simp
  let ?f = "\<lambda>row. applyUpdates (env_rt env) (tbl_Columns t) (updateFunc row) row"
  obtain m where m: "updateLoop env name (tbl_ID t) True ?f condition [0..<length ds] s = (s\<lparr>s_rowData := m\<rparr>, cs, r)"
    "map_of m = (map_of (s_rowData s))(name \<mapsto> map snd rows')"
    using updateLoop_callbacks [of s name ds ids 0 ?f condition rows' cs r env "tbl_ID t"] mem d len assms(3) t(2) by auto
  have "map_of (s_tables s) = (map_of (s_tables s))(name \<mapsto> t)" "map_of (s_rowIDs s) = (map_of (s_rowIDs s))(name \<mapsto> ids)"
    using t d by (auto simp: fun_eq_iff)
  moreover have "length rows' = length ids" using ids by (metis length_map)
  then have "rows_ok (s_nextID s) ((map_of (s_tables s))(name \<mapsto> t)) ((map_of (s_rowData s))(name \<mapsto> map snd rows')) ((map_of (s_rowIDs s))(name \<mapsto> ids))"
    using mem t d len by (intro rows_ok_put [where n = "s_nextID s"]) (auto simp: table_ok_def)
  ultimately have "mem_inv (s\<lparr>s_rowData := m\<rparr>)" using mem m by (simp add: mem_inv_def)
  moreover have "abs_db (s\<lparr>s_rowData := m\<rparr>) = (abs_db s)\<lparr>db_tables := (db_tables (abs_db s))(name \<mapsto> (defs, rows'))\<rparr>"
    using abs_rowData [OF t(1) d(2) m(2)] t(2) zip_map_fst_snd [of rows'] unfolding ids by simp
  moreover have "UpdateRowsWithCallback env name updateFunc condition True s = (s\<lparr>s_rowData := m\<rparr>, cs, r)"
    using m(1) mem t d by (simp add: UpdateRowsWithCallback_def updateMemory_def split: sum.split)
  ultimately show ?thesis using that by blast
qed



section \<open>INSERT\<close>

text \<open>The row an INSERT builds from a list of expressions, with or without a list of columns\<close>

definition rowFor :: "'w fn_env \<Rightarrow> ColumnDef list \<Rightarrow> string list \<Rightarrow> Expression list \<Rightarrow> Value list" where
  "rowFor fe defs columns values =
     (if columns = [] then map (valueOf fe [] []) (take (length defs) values) @ drop (length values) (defaultRow defs)
      else fold (\<lambda>(name, x) row. row[colAt (fn_rt fe) (buildColIndex (fn_rt fe) defs) name := valueOf fe [] [] x]) (zip columns values) (defaultRow defs))"

text \<open>The abstract database after inserting rows one after the other, up to the first that is rejected\<close>

fun insertedRows :: "go_rt \<Rightarrow> string \<Rightarrow> Value list list \<Rightarrow> u64 \<Rightarrow> u64 \<Rightarrow> db \<Rightarrow> db \<times> (st_error + Result)" where
  "insertedRows rt name [] n lastID db = (db, Inr (affected n lastID))"
| "insertedRows rt name (row # rows) n lastID db =
     (case db_insert rt name row db of
        (db, Inr (RRow i l)) \<Rightarrow> insertedRows rt name rows (n + 1) (if sint lastID < sint l then l else lastID) db
      | (db, Inr _) \<Rightarrow> (db, Inr (affected n lastID))
      | (db, Inl err) \<Rightarrow> (db, Inl err))"

lemma colAt_bound:
  assumes "defs \<noteq> []"
  shows "colAt rt (buildColIndex rt defs) name < length defs"
proof -
  have "list_all (\<lambda>(k, i). i < length defs) m \<Longrightarrow> list_all (\<lambda>(i, c). i < length defs) cs \<Longrightarrow>
      list_all (\<lambda>(k, i). i < length defs) (foldl (\<lambda>m (i, c). put_key (ToLower rt (col_Name c)) i m) m cs)" for m :: colIndex and cs
  proof (induction cs arbitrary: m)
    case (Cons c cs)
    then show ?case using set_put_key_subset [of "ToLower rt (col_Name (snd c))" "fst c" m] by (cases c) (auto simp: list_all_iff)
  qed simp
  from this [of "[]" "enumerate 0 defs"] have "list_all (\<lambda>(k, i). i < length defs) (buildColIndex rt defs)"
    by (simp add: buildColIndex_def list_all_iff in_set_enumerate_eq case_prod_beta)
  then show ?thesis using assms by (auto simp: colAt_def getD_def list_all_iff dest!: map_of_SomeD split: option.splits)
qed

lemma fillNamed_plain:
  assumes "list_all (\<lambda>nv. plain (ert env) (snd nv)) nvs" "\<And>name. colAt (ert env) ci name < length row"
  shows "fillNamed env ci nvs row = returnS (fold (\<lambda>(name, x) row. row[colAt (ert env) ci name := valueOf (ee_fn env) [] [] x]) nvs row)"
  using assms
proof (induction nvs arbitrary: row)
  case (Cons nv nvs)
  have "\<not> length row \<le> colAt (ert env) ci (fst nv)" using Cons.prems(2) [of "fst nv"] by simp
  then show ?case using Cons by (simp add: evalExpr_plain case_prod_beta)
qed simp

lemma buildRow_plain:
  assumes "defs \<noteq> []" "list_all (plain (ert env)) values"
  shows "buildRow env defs columns values (buildColIndex (ert env) defs) = returnS (rowFor (ee_fn env) defs columns values)"
proof (cases "columns = []")
  case True
  have "mapS (\<lambda>x. evalExpr env x [] [] 0) (take n values) = returnS (map (valueOf (ee_fn env) [] []) (take n values))" for n
    using assms(2) by (intro mapS_return) (auto simp: list_all_iff evalExpr_plain dest: in_set_takeD)
  then show ?thesis using True by (simp add: buildRow_def rowFor_def defaultRow_def min_def Let_def)
next
  case False
  have "list_all (\<lambda>nv. plain (ert env) (snd nv)) (zip columns values)" using assms(2) by (auto simp: list_all_iff dest: set_zip_rightD)
  then show ?thesis using False fillNamed_plain [of env "zip columns values" "buildColIndex (ert env) defs" "defaultRow defs"] colAt_bound [OF assms(1)]
    by (simp add: buildRow_def rowFor_def defaultRow_def Let_def)
qed

lemma Storage_InsertRow_memory:
  assumes "mem_inv s" "s_nextID s + 1 \<noteq> 0" "Storage_InsertRow env name row s = (s', r)"
  shows "mem_inv s' \<and> db_insert (env_rt env) name row (abs_db s) = (abs_db s', case r of Inl err \<Rightarrow> Inl err | Inr (i, l) \<Rightarrow> Inr (RRow i l))"
  using insert_implements [OF assms(1,2), of env name row] assms(3) by (auto simp: implements_def bindS_def returnS_def split: sum.splits prod.splits)

lemma db_insert_RRow: "db_insert rt name row db = (db', Inr x) \<Longrightarrow> (\<exists>i l. x = RRow i l) \<and> db_next db' = db_next db + 1"
  by (auto simp: db_insert_def split: option.splits sum.splits prod.splits)

lemma insertLoop_memory:
  assumes "mem_inv (en_storage e)" "unat (s_nextID (en_storage e)) + length rows < 2 ^ 64" "mks = map returnS rows"
  shows "\<exists>s' m' r. insertLoop env table defs mks n lastID e = (e\<lparr>en_storage := s', en_fts := m'\<rparr>,
      map_sum storeError (\<lambda>res. res) r)
    \<and> mem_inv s' \<and> insertedRows (env_rt (ee_senv env)) table rows n lastID (abs_db (en_storage e)) = (abs_db s', r)"
  using assms
proof (induction rows arbitrary: e n lastID mks)
  case Nil
  then show ?case by (intro exI [of _ "en_storage e"] exI [of _ "en_fts e"]) (simp add: returnS_def)
next
  case (Cons row rows)
  let ?s = "en_storage e"
  have next_id: "s_nextID ?s + 1 \<noteq> 0" "unat (s_nextID ?s + 1) = Suc (unat (s_nextID ?s))"
    using Cons.prems(2) by (auto simp: unat_word_ariths unat_eq_0 dest: arg_cong [of _ _ unat])
  obtain s1 r1 where ins: "Storage_InsertRow (ee_senv env) table row ?s = (s1, r1)" by (rule prod.exhaust)
  note spec = Storage_InsertRow_memory [OF Cons.prems(1) next_id(1) ins]
  show ?case
  proof (cases r1)
    case (Inl err)
    then have "insertLoop env table defs mks n lastID e = (e\<lparr>en_storage := s1\<rparr>, Inl (storeError err))"
      using ins Cons.prems(3) by (auto simp: storeError_def insertOne_def onStore_def bindS_def Let_def split: st_error.splits)
    moreover have "insertedRows (env_rt (ee_senv env)) table (row # rows) n lastID (abs_db ?s) = (abs_db s1, Inl err)"
      using spec Inl by simp
    ultimately show ?thesis using spec
      by (intro exI [of _ s1] exI [of _ "en_fts e"] exI [of _ "Inl err"]) simp
  next
    case (Inr il)
    obtain i l where il: "il = (i, l)" by (rule prod.exhaust)
    let ?m = "indexRowForFTS env table defs i (storedRow (ee_senv env) table defs row ?s) (en_fts e)"
    let ?e = "e\<lparr>en_storage := s1, en_fts := ?m\<rparr>"
    have db: "db_insert (env_rt (ee_senv env)) table row (abs_db ?s) = (abs_db s1, Inr (RRow i l))" "mem_inv s1" using spec Inr il by simp_all
    have "s_nextID s1 = s_nextID ?s + 1" using db_insert_RRow [OF db(1)] by (simp add: abs_db_def)
    then obtain s' m' r where IH: "insertLoop env table defs (map returnS rows) (n + 1) (if sint lastID < sint l then l else lastID) ?e = (?e\<lparr>en_storage := s', en_fts := m'\<rparr>,
        map_sum storeError (\<lambda>res. res) r)" "mem_inv s'"
      "insertedRows (env_rt (ee_senv env)) table rows (n + 1) (if sint lastID < sint l then l else lastID) (abs_db s1) = (abs_db s', r)"
      using Cons.IH [of ?e "map returnS rows" "n + 1" "if sint lastID < sint l then l else lastID"] db(2) Cons.prems(2) next_id(2) by auto
    have "insertLoop env table defs mks n lastID e = insertLoop env table defs (map returnS rows) (n + 1) (if sint lastID < sint l then l else lastID) ?e"
      using ins Inr il Cons.prems(3) by (simp add: insertOne_def onStore_def bindS_def Let_def)
    then show ?thesis using IH db(1) by (intro exI [of _ s'] exI [of _ m'] exI [of _ r]) simp
  qed
qed



end
