(* ===== verification/Direct.thy ===== *)
theory Direct
  imports Engine Queries
begin

text \<open>
  The engine without SQL text from the user: \<^verbatim>\<open>InsertBlobDirect\<close>, \<^verbatim>\<open>UpdateBlobDirect\<close>, \<^verbatim>\<open>GetBlobDirect\<close> and their image variants, which build the SQL themselves, and
  \<^verbatim>\<open>Result.Format\<close>, which prints a result as a table. Shown: the table is rectangular, whatever the values are.
\<close>

section \<open>Binary values\<close>

text \<open>What the callers may pass: bytes, a hexadecimal text, a reader (with what \<^verbatim>\<open>io.ReadAll\<close> makes of it) or something else\<close>

datatype binary_input = BinBytes bytes | BinHex string | BinReader "bytes option" | BinOther

definition NewBlobValueFromHex :: "string \<Rightarrow> Value option" where
  "NewBlobValueFromHex s =
     (let input = hexInput s in if odd (length input) then None else map_option NewBlobValue (hex_decode input))"

definition NewImageValueFromHex :: "string \<Rightarrow> Value option" where
  "NewImageValueFromHex s =
     (let input = hexInput s in if odd (length input) then None else map_option NewImageValue (hex_decode input))"

definition bytesOfInput :: "binary_input \<Rightarrow> exec_error + bytes" where
  "bytesOfInput d =
     (case d of
        BinBytes b \<Rightarrow> Inr b
      | BinHex s \<Rightarrow>
          (case NewBlobValueFromHex s of
             Some v \<Rightarrow> (case Data v of GBytes b \<Rightarrow> Inr b | _ \<Rightarrow> Inl (ExecFault GoPanic))
           | None \<Rightarrow> Inl (ExecText ''invalid hex string''))
      | BinReader r \<Rightarrow> (case r of Some b \<Rightarrow> Inr b | None \<Rightarrow> Inl (ExecText ''failed to read from reader''))
      | BinOther \<Rightarrow> Inl (ExecText ''unsupported data type for BLOB/IMAGE''))"

definition columnPos :: "go_rt \<Rightarrow> string \<Rightarrow> ColumnDef list \<Rightarrow> nat option" where
  "columnPos rt name defs = List.find (\<lambda>i. EqualFold rt (col_Name (defs ! i)) name) [0..<length defs]"

definition insertBinaryDirect :: "'w eng_env \<Rightarrow> string \<Rightarrow> string \<Rightarrow> binary_input \<Rightarrow> DataType \<Rightarrow> ('w, u64) exec" where
  "insertBinaryDirect env table col d targetType =
     bindS (tableInfoOf table) (\<lambda>info.
       case columnPos (ert env) col (tbl_Columns info) of
         None \<Rightarrow> failS (ExecText (''column '' @ col @ '' not found in table '' @ table))
       | Some i \<Rightarrow>
           (case bytesOfInput d of
              Inl err \<Rightarrow> failS err
            | Inr b \<Rightarrow>
                bindS (onStore (Storage_InsertRow (ee_senv env) table
                         ((defaultRow (tbl_Columns info))[i := if targetType = TypeImage then NewImageValue b else NewBlobValue b])))
                  (\<lambda>(_, lastInsertID). returnS lastInsertID)))"

definition InsertBlobDirect :: "'w eng_env \<Rightarrow> string \<Rightarrow> string \<Rightarrow> binary_input \<Rightarrow> ('w, u64) exec" where
  "InsertBlobDirect env table col d = insertBinaryDirect env table col d TypeBlob"

definition InsertImageDirect :: "'w eng_env \<Rightarrow> string \<Rightarrow> string \<Rightarrow> binary_input \<Rightarrow> ('w, u64) exec" where
  "InsertImageDirect env table col d = insertBinaryDirect env table col d TypeImage"

definition updateBinaryDirect :: "'w eng_env \<Rightarrow> string \<Rightarrow> string \<Rightarrow> binary_input \<Rightarrow> string \<Rightarrow> DataType \<Rightarrow> ('w, u64) sql" where
  "updateBinaryDirect env table col d cond targetType =
     (case bytesOfInput d of
        Inl err \<Rightarrow> failS (Sql err)
      | Inr b \<Rightarrow>
          (let fn = (if targetType = TypeImage then ''IMAGE_FROM_HEX('' else ''BLOB_FROM_HEX('');
               sql = ''UPDATE '' @ table @ '' SET '' @ col @ '' = '' @ fn @ [CHR 0x27] @ hex_encode b @ [CHR 0x27] @ '')'';
               sql = (if cond \<noteq> [] then sql @ '' WHERE '' @ cond else sql)
           in bindS (Engine_Execute env sql) (\<lambda>r. returnS (res_RowsAffected r))))"

definition UpdateBlobDirect :: "'w eng_env \<Rightarrow> string \<Rightarrow> string \<Rightarrow> binary_input \<Rightarrow> string \<Rightarrow> ('w, u64) sql" where
  "UpdateBlobDirect env table col d cond = updateBinaryDirect env table col d cond TypeBlob"

definition UpdateImageDirect :: "'w eng_env \<Rightarrow> string \<Rightarrow> string \<Rightarrow> binary_input \<Rightarrow> string \<Rightarrow> ('w, u64) sql" where
  "UpdateImageDirect env table col d cond = updateBinaryDirect env table col d cond TypeImage"

text \<open>The bytes of the first row, \<open>None\<close> for NULL\<close>

definition getBinaryDirect :: "'w eng_env \<Rightarrow> string \<Rightarrow> string \<Rightarrow> string \<Rightarrow> ('w, bytes option) sql" where
  "getBinaryDirect env table col cond =
     (let sql = ''SELECT '' @ col @ '' FROM '' @ table; sql = (if cond \<noteq> [] then sql @ '' WHERE '' @ cond else sql) @ '' LIMIT 1''
      in bindS (Engine_Execute env sql) (\<lambda>r.
           case res_Rows r of
             [] \<Rightarrow> failS (Sql (ExecText ''no rows found''))
           | row # _ \<Rightarrow>
               (case row_Data row of
                  [] \<Rightarrow> failS (Sql (ExecText (''no data in column '' @ col)))
                | v # _ \<Rightarrow>
                    if IsNull v then returnS None
                    else case ToBytes v of Inr b \<Rightarrow> returnS b | Inl _ \<Rightarrow> failS (Sql (ExecText ''cannot convert to bytes'')))))"

definition GetBlobDirect :: "'w eng_env \<Rightarrow> string \<Rightarrow> string \<Rightarrow> string \<Rightarrow> ('w, bytes option) sql" where
  "GetBlobDirect env table col cond = getBinaryDirect env table col cond"

definition GetImageDirect :: "'w eng_env \<Rightarrow> string \<Rightarrow> string \<Rightarrow> string \<Rightarrow> ('w, bytes option) sql" where
  "GetImageDirect env table col cond = getBinaryDirect env table col cond"

section \<open>Printing a result\<close>

text \<open>\<^verbatim>\<open>widths[i]\<close> panics for a row with more values than there are columns.\<close>

definition growWidths :: "go_rt \<Rightarrow> nat list \<Rightarrow> Row \<Rightarrow> fault + nat list" where
  "growWidths rt widths row =
     (if length widths < length (row_Data row) then Inl GoPanic
      else Inr (map (\<lambda>(i, w). if i < length (row_Data row) then max w (length (ToString rt (row_Data row ! i))) else w) (enumerate 0 widths)))"

primrec widthsLoop :: "go_rt \<Rightarrow> nat list \<Rightarrow> Row list \<Rightarrow> fault + nat list" where
  "widthsLoop rt widths [] = Inr widths"
| "widthsLoop rt widths (row # rows) = bindE (growWidths rt widths row) (\<lambda>ws. widthsLoop rt ws rows)"

abbreviation newline :: char where "newline \<equiv> char_of (10 :: nat)"

definition ruleLine :: "nat list \<Rightarrow> string" where
  "ruleLine widths = ''+'' @ concat (map (\<lambda>w. replicate (w + 2) (CHR ''-'') @ ''+'') widths)"

definition cellLine :: "nat list \<Rightarrow> string list \<Rightarrow> string" where
  "cellLine widths texts = ''|'' @ concat (map (\<lambda>(w, s). '' '' @ s @ replicate (w - length s) (CHR '' '') @ '' |'') (zip widths texts))"

definition Format :: "go_rt \<Rightarrow> Result \<Rightarrow> fault + string" where
  "Format rt r =
     (if res_IsExecutionResult r then
        Inr (if res_Message r \<noteq> [] then res_Message r else ''Rows affected: '' @ dec_int (sint (res_RowsAffected r)))
      else if res_Rows r = [] \<or> res_Columns r = [] then Inr ''Empty result set''
      else bindE (widthsLoop rt (map length (res_Columns r)) (res_Rows r)) (\<lambda>widths.
        Inr (concat (map (\<lambda>l. l @ [newline])
               ([ruleLine widths, cellLine widths (res_Columns r), ruleLine widths]
                @ map (\<lambda>row. cellLine widths (map (ToString rt) (row_Data row))) (res_Rows r) @ [ruleLine widths]))
             @ dec_nat (length (res_Rows r)) @ '' rows'' @ [newline])))"

lemma widthsLoop_covers:
  assumes "list_all (\<lambda>row. length (row_Data row) = length widths) rows"
  shows "\<exists>ws. widthsLoop rt widths rows = Inr ws \<and> list_all2 (\<le>) widths ws \<and>
    list_all (\<lambda>row. list_all2 (\<lambda>v w. length (ToString rt v) \<le> w) (row_Data row) ws) rows"
  using assms
proof (induction rows arbitrary: widths)
  case (Cons row rows)
  let ?g = "map (\<lambda>(i, w). if i < length (row_Data row) then max w (length (ToString rt (row_Data row ! i))) else w) (enumerate 0 widths)"
  have "growWidths rt widths row = Inr ?g" using Cons.prems by (simp add: growWidths_def)
  moreover obtain ws where ws: "widthsLoop rt ?g rows = Inr ws" "list_all2 (\<le>) ?g ws"
    "list_all (\<lambda>row. list_all2 (\<lambda>v w. length (ToString rt v) \<le> w) (row_Data row) ws) rows"
    using Cons.IH [of ?g] Cons.prems by auto
  moreover have "list_all2 (\<le>) widths ws" "list_all2 (\<lambda>v w. length (ToString rt v) \<le> w) (row_Data row) ws"
    using ws(2) Cons.prems by (fastforce simp: list_all2_conv_all_nth nth_enumerate_eq)+
  ultimately show ?case by (simp add: bindE_def)
qed (simp add: list_all2_refl)

lemma length_ruleLine: "length (ruleLine ws) = 1 + sum_list (map (\<lambda>w. w + 3) ws)"
  by (simp add: ruleLine_def length_concat comp_def numeral_3_eq_3)

lemma length_cellLine: "list_all2 (\<lambda>s w. length s \<le> w) texts ws \<Longrightarrow> length (cellLine ws texts) = 1 + sum_list (map (\<lambda>w. w + 3) ws)"
  by (induction rule: list_all2_induct) (simp_all add: cellLine_def)

text \<open>
  A result whose rows have one value for each column is printed as a rectangle: \<^verbatim>\<open>Format\<close> returns, a line for the names, a line for each row in order and three rules, all of the same length
  in bytes, followed by the number of rows.
\<close>
theorem format_rectangular:
  assumes "\<not> res_IsExecutionResult r" "res_Rows r \<noteq> []" "res_Columns r \<noteq> []"
    and "list_all (\<lambda>row. length (row_Data row) = length (res_Columns r)) (res_Rows r)"
  shows "\<exists>lines n. Format rt r = Inr (concat (map (\<lambda>l. l @ [newline]) lines) @ dec_nat (length (res_Rows r)) @ '' rows'' @ [newline])
    \<and> length lines = length (res_Rows r) + 4 \<and> list_all (\<lambda>l. length l = n) lines"
proof -
  obtain ws where ws: "widthsLoop rt (map length (res_Columns r)) (res_Rows r) = Inr ws" "list_all2 (\<le>) (map length (res_Columns r)) ws"
    "list_all (\<lambda>row. list_all2 (\<lambda>v w. length (ToString rt v) \<le> w) (row_Data row) ws) (res_Rows r)"
    using widthsLoop_covers [of "map length (res_Columns r)" "res_Rows r" rt] assms(4) by auto
  let ?lines = "[ruleLine ws, cellLine ws (res_Columns r), ruleLine ws] @ map (\<lambda>row. cellLine ws (map (ToString rt) (row_Data row))) (res_Rows r) @ [ruleLine ws]"
  have "list_all (\<lambda>l. length l = 1 + sum_list (map (\<lambda>w. w + 3) ws)) ?lines"
    using ws(2,3) by (auto simp: length_ruleLine length_cellLine list_all_iff list_all2_map1)
  moreover have "Format rt r = Inr (concat (map (\<lambda>l. l @ [newline]) ?lines) @ dec_nat (length (res_Rows r)) @ '' rows'' @ [newline])"
    using assms(1-3) ws(1) by (simp add: Format_def bindE_def)
  ultimately show ?thesis by (intro exI [of _ ?lines]) auto
qed

theorem format_rectangular_witness:
  "\<exists>lines n. Format rt_plain (selectResult [''id'', ''name''] [NewRow [NewIntValue 7, NewStringValue ''ab'']]) =
      Inr (concat (map (\<lambda>l. l @ [newline]) lines) @ ''1 rows'' @ [newline]) \<and> length lines = 5 \<and> list_all (\<lambda>l. length l = n) lines"
proof -
  have one: "dec_nat (Suc 0) = ''1''" by code_simp
  show ?thesis
    using format_rectangular [of "selectResult [''id'', ''name''] [NewRow [NewIntValue 7, NewStringValue ''ab'']]" rt_plain]
    by (simp add: selectResult_def NewRow_def one)
qed

end
