(* ===== verification/Driver.thy ===== *)
theory Driver
  imports Direct Server
begin

text \<open>
  \<^verbatim>\<open>src/driver\<close>: the driver for \<^verbatim>\<open>database/sql\<close> (connections, statements with placeholders, rows) and data source names. \<^verbatim>\<open>net/url\<close>, \<^verbatim>\<open>time.ParseDuration\<close> and the
  home directory are parameters. The connections to remote file systems are left out. Shown: a text parameter that is a question mark
  puts the next parameter outside of its quotes.
\<close>

section \<open>Statements\<close>

datatype driver_value = DVal godata | DBlob bytes | DImage bytes

definition driverText :: "go_rt \<Rightarrow> driver_value \<Rightarrow> string" where
  "driverText rt v =
     (let quoted = (\<lambda>s. CHR 0x27 # s @ [CHR 0x27])
      in case v of
           DBlob b \<Rightarrow> ''BLOB_FROM_HEX('' @ quoted (hex_encode b) @ '')''
         | DImage b \<Rightarrow> ''IMAGE_FROM_HEX('' @ quoted (hex_encode b) @ '')''
         | DVal d \<Rightarrow>
             (case d of
                GString s \<Rightarrow> quoted (ReplaceAll s [CHR 0x27] [CHR 0x27, CHR 0x27])
              | GBool b \<Rightarrow> if b then ''1'' else ''0''
              | GNil \<Rightarrow> ''NULL''
              | GBytes b \<Rightarrow> ''BLOB_FROM_HEX('' @ quoted (hex_encode b) @ '')''
              | GTime t \<Rightarrow> quoted (fmt_v rt d)
              | GOther n \<Rightarrow> quoted (fmt_v rt d)
              | _ \<Rightarrow> fmt_v rt d))"

definition driver_replacePlaceholders :: "go_rt \<Rightarrow> string \<Rightarrow> driver_value list \<Rightarrow> string" where
  "driver_replacePlaceholders rt query args = foldl (\<lambda>result v. replaceFirst result (driverText rt v)) query args"

section \<open>Connections and rows\<close>

datatype driver_error = ErrBadConn | ErrNoTx | ErrSql sql_error | ErrEOF

record 'w xxldbConn =
  cn_engine :: "'w Engine"
  cn_closed :: bool

definition Conn_Prepare :: "'w xxldbConn \<Rightarrow> string \<Rightarrow> driver_error + string" where
  "Conn_Prepare c query = (if cn_closed c then Inl ErrBadConn else Inr query)"

text \<open>\<open>closeEngine\<close> is \<^verbatim>\<open>Engine.Close\<close>.\<close>

definition closeEngine :: "'w eng_env \<Rightarrow> ('w, unit) exec" where
  "closeEngine env = onStore (Storage_Close (ee_senv env))"

definition Conn_Close :: "'w eng_env \<Rightarrow> 'w xxldbConn \<Rightarrow> 'w xxldbConn \<times> (exec_error + unit)" where
  "Conn_Close env c =
     (if cn_closed c then (c, Inr ())
      else case closeEngine env (cn_engine c) of (e, r) \<Rightarrow> (c\<lparr>cn_closed := True, cn_engine := e\<rparr>, r))"

definition Conn_Begin :: "'w xxldbConn \<Rightarrow> driver_error + unit" where
  "Conn_Begin c = Inl ErrNoTx"

definition Conn_Ping :: "'w xxldbConn \<Rightarrow> driver_error + unit" where
  "Conn_Ping c = (if cn_closed c then Inl ErrBadConn else Inr ())"

definition Conn_ResetSession :: "'w xxldbConn \<Rightarrow> driver_error + unit" where
  "Conn_ResetSession c = (if cn_closed c then Inl ErrBadConn else Inr ())"

definition Conn_IsValid :: "'w xxldbConn \<Rightarrow> bool" where
  "Conn_IsValid c = (\<not> cn_closed c)"

definition runStmt :: "'w eng_env \<Rightarrow> string \<Rightarrow> driver_value list \<Rightarrow> 'w xxldbConn \<Rightarrow> 'w xxldbConn \<times> (driver_error + Result)" where
  "runStmt env query args c =
     (case Engine_Execute env (driver_replacePlaceholders (ert env) query args) (cn_engine c) of
        (e, Inl err) \<Rightarrow> (c\<lparr>cn_engine := e\<rparr>, Inl (ErrSql err))
      | (e, Inr r) \<Rightarrow> (c\<lparr>cn_engine := e\<rparr>, Inr r))"

record xxldbRows =
  rw_result :: Result
  rw_index :: nat
  rw_closed :: bool

definition Stmt_Exec :: "'w eng_env \<Rightarrow> string \<Rightarrow> driver_value list \<Rightarrow> 'w xxldbConn \<Rightarrow> 'w xxldbConn \<times> (driver_error + u64 \<times> u64)" where
  "Stmt_Exec env query args c =
     (case runStmt env query args c of
        (c, Inl err) \<Rightarrow> (c, Inl err)
      | (c, Inr r) \<Rightarrow> (c, Inr (res_LastInsertID r, res_RowsAffected r)))"

definition Stmt_Query :: "'w eng_env \<Rightarrow> string \<Rightarrow> driver_value list \<Rightarrow> 'w xxldbConn \<Rightarrow> 'w xxldbConn \<times> (driver_error + xxldbRows)" where
  "Stmt_Query env query args c =
     (case runStmt env query args c of
        (c, Inl err) \<Rightarrow> (c, Inl err)
      | (c, Inr r) \<Rightarrow> (c, Inr \<lparr>rw_result = r, rw_index = 0, rw_closed = False\<rparr>))"

definition Rows_Close :: "xxldbRows \<Rightarrow> xxldbRows" where
  "Rows_Close r = r\<lparr>rw_closed := True\<rparr>"

definition ConvertValue :: "Value \<Rightarrow> godata" where
  "ConvertValue v = (if IsNull v then GNil else Data v)"

definition ConvertToValue :: "godata \<Rightarrow> Value" where
  "ConvertToValue d = (if d = GNil then NewNullValue else NewValue d)"

definition Rows_Next :: "godata list \<Rightarrow> xxldbRows \<Rightarrow> xxldbRows \<times> godata list \<times> driver_error option" where
  "Rows_Next dest r =
     (if rw_closed r \<or> length (res_Rows (rw_result r)) \<le> rw_index r then (r, dest, Some ErrEOF)
      else let vs = map ConvertValue (row_Data (res_Rows (rw_result r) ! rw_index r))
           in (r\<lparr>rw_index := rw_index r + 1\<rparr>, take (length dest) vs @ drop (length vs) dest, None))"

text \<open>Reading to the end: every row of the result once, in order\<close>

fun fetchRows :: "nat \<Rightarrow> godata list \<Rightarrow> xxldbRows \<Rightarrow> godata list list \<times> bool" where
  "fetchRows 0 dest r = ([], False)"
| "fetchRows (Suc n) dest r =
     (case Rows_Next dest r of
        (_, _, Some _) \<Rightarrow> ([], True)
      | (r', d, None) \<Rightarrow> map_prod (Cons d) id (fetchRows n dest r'))"

lemma fetchRows_all:
  assumes "\<not> rw_closed r" "list_all (\<lambda>row. length (row_Data row) = length dest) (res_Rows (rw_result r))"
    "length (res_Rows (rw_result r)) - rw_index r < n"
  shows "fetchRows n dest r = (map (\<lambda>row. map ConvertValue (row_Data row)) (drop (rw_index r) (res_Rows (rw_result r))), True)"
  using assms
proof (induction n arbitrary: r)
  case (Suc n)
  show ?case
  proof (cases "length (res_Rows (rw_result r)) \<le> rw_index r")
    case False
    then have "length (row_Data (res_Rows (rw_result r) ! rw_index r)) = length dest" using Suc.prems(2) by (simp add: list_all_length)
    moreover have "drop (rw_index r) (res_Rows (rw_result r)) = res_Rows (rw_result r) ! rw_index r # drop (Suc (rw_index r)) (res_Rows (rw_result r))"
      using False by (simp add: Cons_nth_drop_Suc)
    ultimately show ?thesis using False Suc.prems Suc.IH [of "r\<lparr>rw_index := rw_index r + 1\<rparr>"] by (simp add: Rows_Next_def Let_def)
  qed (simp add: Rows_Next_def)
qed simp

lemma convert_roundtrip: "ConvertValue (ConvertToValue d) = d"
  by (auto simp: ConvertValue_def ConvertToValue_def NewNullValue_def NewValue_def)

lemma replaceFirst_split: "CHR ''?'' \<notin> set q \<Longrightarrow> replaceFirst (q @ CHR ''?'' # r) t = q @ t @ r"
  by (induction q) auto

lemma ReplaceAll_none: "c \<notin> set s \<Longrightarrow> ReplaceAll s [c] t = s"
  by (induction s) (auto simp: ReplaceAll_def replaceFrom.simps hasPrefix_def)

text \<open>
  The driver puts the arguments into the text of the statement one after the other, each in the place of the first question mark of the
  text so far. When the first argument is a question mark, the second one replaces it inside of the quotes of the first, and comes
  to stand between two empty text literals: it is read as SQL.
\<close>
theorem driver_question_mark_injects:
  assumes "CHR ''?'' \<notin> set q" "CHR 0x27 \<notin> set t"
  shows "driver_replacePlaceholders rt (q @ ''?'' @ r @ ''?'' @ r') [DVal (GString ''?''), DVal (GString t)]
         = q @ [CHR 0x27, CHR 0x27] @ t @ [CHR 0x27, CHR 0x27] @ r @ ''?'' @ r'"
proof -
  let ?quote = "CHR 0x27"
  have "replaceFirst (q @ ''?'' @ r @ ''?'' @ r') [?quote, CHR ''?'', ?quote] = (q @ [?quote]) @ CHR ''?'' # ?quote # r @ ''?'' @ r'"
    using assms(1) by (simp add: replaceFirst_split)
  moreover have "CHR ''?'' \<notin> set (q @ [?quote])" using assms(1) by simp
  ultimately show ?thesis using assms(2)
    using replaceFirst_split [of "q @ [?quote]" "?quote # r @ ''?'' @ r'" "?quote # t @ [?quote]"]
    by (simp add: driver_replacePlaceholders_def driverText_def Let_def ReplaceAll_none)
qed

text \<open>With the statement \<^verbatim>\<open>DELETE FROM t WHERE a = ? AND b = ?;\<close> the second argument becomes a condition that is always true.\<close>

theorem driver_question_mark_injects_witness:
  "driver_replacePlaceholders rt_plain (''DELETE FROM t WHERE a = '' @ ''?'' @ '' AND b = '' @ ''?'' @ '';'')
     [DVal (GString ''?''), DVal (GString '' OR 1 = 1 -- '')]
   = ''DELETE FROM t WHERE a = '' @ [CHR 0x27, CHR 0x27] @ '' OR 1 = 1 -- '' @ [CHR 0x27, CHR 0x27] @ '' AND b = '' @ ''?'' @ '';''"
  by (rule driver_question_mark_injects) simp_all

section \<open>Data source names\<close>

text \<open>
  A URL as \<^verbatim>\<open>net/url\<close> reads it: \<open>u_User\<close> is the name and the password when there is one, \<open>u_Query\<close> the method \<^verbatim>\<open>Query().Get\<close>. \<open>goUrl\<close> are the
  functions of \<^verbatim>\<open>net/url\<close>, \<^verbatim>\<open>time\<close>, \<^verbatim>\<open>os\<close> and \<^verbatim>\<open>path/filepath\<close> that are used; \<open>url_String\<close> has the parts it prints as arguments.
\<close>

record url =
  u_Scheme :: string
  u_Host :: string
  u_Hostname :: string
  u_Port :: string
  u_User :: "(string \<times> string option) option"
  u_Path :: string
  u_Query :: "string \<Rightarrow> string"

record goUrl =
  url_Parse :: "string \<Rightarrow> url option"
  url_ParseQuery :: "string \<Rightarrow> (string \<Rightarrow> string) option"
  url_String :: "string \<Rightarrow> string \<times> string option \<Rightarrow> string \<Rightarrow> string \<Rightarrow> (string \<times> string) list \<Rightarrow> string"
  parseDuration :: "string \<Rightarrow> u64 option"
  userHomeDir :: "string option"
  filepathJoin :: "string \<Rightarrow> string \<Rightarrow> string"

record SSHConfig =
  ssh_Host :: string
  ssh_Port :: u64
  ssh_Username :: string
  ssh_Password :: string
  ssh_PrivateKey :: string
  ssh_Passphrase :: string
  ssh_Timeout :: u64

record SMBConfig =
  smb_Host :: string
  smb_Port :: u64
  smb_Share :: string
  smb_Username :: string
  smb_Password :: string
  smb_Domain :: string
  smb_Timeout :: u64

record WebDAVConfig =
  dav_URL :: string
  dav_Username :: string
  dav_Password :: string
  dav_Timeout :: u64

record DSN =
  dsn_Path :: string
  dsn_InMemory :: bool
  dsn_EncryptPassword :: string
  dsn_SSH :: "SSHConfig option"
  dsn_SMB :: "SMBConfig option"
  dsn_WebDAV :: "WebDAVConfig option"

datatype dsn_error =
    InvalidURL | WrongScheme string | InvalidPort | UsernameRequired | InvalidTimeout | PathRequired | ShareRequired | HostRequired
  | CredentialRequired | URLRequired

abbreviation localDSN :: "string \<Rightarrow> DSN" where
  "localDSN path \<equiv> \<lparr>dsn_Path = path, dsn_InMemory = False, dsn_EncryptPassword = [], dsn_SSH = None, dsn_SMB = None, dsn_WebDAV = None\<rparr>"

definition expandPath :: "goUrl \<Rightarrow> string \<Rightarrow> string" where
  "expandPath lib path =
     (if hasPrefix path ''~/'' then case userHomeDir lib of None \<Rightarrow> path | Some home \<Rightarrow> filepathJoin lib home (drop 2 path) else path)"

text \<open>Shared by the three remote forms: the port, the user and the password (empty when missing), the path and the timeout\<close>

definition urlPort :: "url \<Rightarrow> u64 \<Rightarrow> dsn_error + u64" where
  "urlPort u dflt =
     (if u_Port u \<noteq> [] then case ParseInt64 (u_Port u) of Inl _ \<Rightarrow> Inl InvalidPort | Inr p \<Rightarrow> Inr p else Inr dflt)"

definition urlUser :: "url \<Rightarrow> string" where
  "urlUser u = (case u_User u of None \<Rightarrow> [] | Some (name, _) \<Rightarrow> name)"

definition urlPassword :: "url \<Rightarrow> string" where
  "urlPassword u = (case u_User u of Some (_, Some pass) \<Rightarrow> pass | _ \<Rightarrow> [])"

definition urlTimeout :: "goUrl \<Rightarrow> url \<Rightarrow> dsn_error + u64" where
  "urlTimeout lib u =
     (if u_Query u ''timeout'' \<noteq> []
      then case parseDuration lib (u_Query u ''timeout'') of None \<Rightarrow> Inl InvalidTimeout | Some t \<Rightarrow> Inr t
      else Inr 30000000000)"

definition urlPath :: "url \<Rightarrow> string" where
  "urlPath u = TrimPrefix (u_Path u) ''/''"

definition parseSSHDSN :: "goUrl \<Rightarrow> string \<Rightarrow> dsn_error + DSN" where
  "parseSSHDSN lib dsn =
     (case url_Parse lib dsn of
        None \<Rightarrow> Inl InvalidURL
      | Some u \<Rightarrow>
          if u_Scheme u \<noteq> ''ssh'' then Inl (WrongScheme (u_Scheme u))
          else case urlPort u 22 of
                 Inl e \<Rightarrow> Inl e
               | Inr port \<Rightarrow>
                   if urlUser u = [] then Inl UsernameRequired
                   else let key = (if u_Query u ''private_key_data'' \<noteq> [] then u_Query u ''private_key_data''
                                   else if u_Query u ''private_key'' \<noteq> [] then expandPath lib (u_Query u ''private_key'') else [])
                        in case urlTimeout lib u of
                             Inl e \<Rightarrow> Inl e
                           | Inr t \<Rightarrow>
                               if urlPath u = [] then Inl PathRequired
                               else Inr ((localDSN (urlPath u))
                                      \<lparr>dsn_SSH := Some \<lparr>ssh_Host = u_Hostname u, ssh_Port = port, ssh_Username = urlUser u,
                                         ssh_Password = urlPassword u, ssh_PrivateKey = key, ssh_Passphrase = u_Query u ''passphrase'',
                                         ssh_Timeout = t\<rparr>\<rparr>))"

text \<open>\<^verbatim>\<open>strings.SplitN(path, "/", 2)\<close>: the share is the part before the first slash, the database path the part after it.\<close>

definition parseSMBDSN :: "goUrl \<Rightarrow> string \<Rightarrow> dsn_error + DSN" where
  "parseSMBDSN lib dsn =
     (case url_Parse lib dsn of
        None \<Rightarrow> Inl InvalidURL
      | Some u \<Rightarrow>
          if u_Scheme u \<noteq> ''smb'' then Inl (WrongScheme (u_Scheme u))
          else case urlPort u 445 of
                 Inl e \<Rightarrow> Inl e
               | Inr port \<Rightarrow>
                   if urlUser u = [] then Inl UsernameRequired
                   else let share = takeWhile (\<lambda>c. c \<noteq> CHR ''/'') (urlPath u);
                            dbPath = drop 1 (dropWhile (\<lambda>c. c \<noteq> CHR ''/'') (urlPath u))
                        in if share = [] then Inl ShareRequired
                           else if dbPath = [] then Inl PathRequired
                           else case urlTimeout lib u of
                                  Inl e \<Rightarrow> Inl e
                                | Inr t \<Rightarrow>
                                    Inr ((localDSN dbPath)
                                      \<lparr>dsn_SMB := Some \<lparr>smb_Host = u_Hostname u, smb_Port = port, smb_Share = share,
                                         smb_Username = urlUser u, smb_Password = urlPassword u, smb_Domain = u_Query u ''domain'',
                                         smb_Timeout = t\<rparr>\<rparr>))"

definition parseWebDAVDSN :: "goUrl \<Rightarrow> string \<Rightarrow> dsn_error + DSN" where
  "parseWebDAVDSN lib dsn =
     (case url_Parse lib dsn of
        None \<Rightarrow> Inl InvalidURL
      | Some u \<Rightarrow>
          if u_Scheme u \<noteq> ''webdav'' \<and> u_Scheme u \<noteq> ''webdavs'' then Inl (WrongScheme (u_Scheme u))
          else let scheme = (if u_Scheme u = ''webdavs'' then ''https'' else ''http'')
               in if urlUser u = [] then Inl UsernameRequired
                  else if urlPath u = [] then Inl PathRequired
                  else case urlTimeout lib u of
                         Inl e \<Rightarrow> Inl e
                       | Inr t \<Rightarrow>
                           Inr ((localDSN (urlPath u))
                             \<lparr>dsn_WebDAV := Some \<lparr>dav_URL = scheme @ ''://'' @ u_Host u, dav_Username = urlUser u,
                                dav_Password = urlPassword u, dav_Timeout = t\<rparr>\<rparr>))"

definition ParseDSN :: "goUrl \<Rightarrow> string \<Rightarrow> dsn_error + DSN" where
  "ParseDSN lib dsn =
     (if dsn = '':memory:'' then Inr ((localDSN [])\<lparr>dsn_InMemory := True\<rparr>)
      else if hasPrefix dsn ''ssh://'' then parseSSHDSN lib dsn
      else if hasPrefix dsn ''smb://'' then parseSMBDSN lib dsn
      else if hasPrefix dsn ''webdav://'' \<or> hasPrefix dsn ''webdavs://'' then parseWebDAVDSN lib dsn
      else let path = TrimPrefix dsn ''file:''
           in case IndexOf path ''?'' of
                None \<Rightarrow> Inr (localDSN path)
              | Some idx \<Rightarrow>
                  (case url_ParseQuery lib (drop (idx + 1) path) of
                     None \<Rightarrow> Inr (localDSN (take idx path))
                   | Some values \<Rightarrow> Inr ((localDSN (take idx path))\<lparr>dsn_EncryptPassword := values ''encrypt''\<rparr>)))"

definition userInfo :: "string \<Rightarrow> string \<Rightarrow> string \<times> string option" where
  "userInfo username password = (username, if password \<noteq> [] then Some password else None)"

definition BuildSSHDSN :: "goUrl \<Rightarrow> string \<Rightarrow> u64 \<Rightarrow> string \<Rightarrow> string \<Rightarrow> string \<Rightarrow> string \<Rightarrow> string" where
  "BuildSSHDSN lib host port username password privateKey dbPath =
     url_String lib ''ssh'' (userInfo username password) (host @ '':'' @ dec_int (sint port)) (''/'' @ dbPath)
       (if privateKey \<noteq> [] then [(''private_key'', privateKey)] else [])"

definition DSN_String :: "goUrl \<Rightarrow> DSN \<Rightarrow> string" where
  "DSN_String lib d =
     (if dsn_InMemory d then '':memory:''
      else case dsn_SSH d of
        Some c \<Rightarrow>
          url_String lib ''ssh'' (userInfo (ssh_Username c) (ssh_Password c)) (ssh_Host c @ '':'' @ dec_int (sint (ssh_Port c)))
            (''/'' @ dsn_Path d) (if ssh_PrivateKey c \<noteq> [] then [(''private_key'', ssh_PrivateKey c)] else [])
      | None \<Rightarrow>
          (case dsn_SMB d of
             Some c \<Rightarrow>
               url_String lib ''smb'' (userInfo (smb_Username c) (smb_Password c)) (smb_Host c @ '':'' @ dec_int (sint (smb_Port c)))
                 (''/'' @ smb_Share c @ ''/'' @ dsn_Path d) []
           | None \<Rightarrow>
               (case dsn_WebDAV d of
                  Some c \<Rightarrow>
                    url_String lib (if hasPrefix (dav_URL c) ''https://'' then ''webdavs'' else ''webdav'')
                      (userInfo (dav_Username c) (dav_Password c))
                      (TrimPrefix (TrimPrefix (dav_URL c) ''http://'') ''https://'') (''/'' @ dsn_Path d) []
                | None \<Rightarrow> dsn_Path d)))"

definition IsRemote :: "DSN \<Rightarrow> bool" where
  "IsRemote d \<longleftrightarrow> dsn_SSH d \<noteq> None \<or> dsn_SMB d \<noteq> None \<or> dsn_WebDAV d \<noteq> None"

definition validateSSH :: "SSHConfig \<Rightarrow> dsn_error option" where
  "validateSSH c =
     (if ssh_Host c = [] then Some HostRequired
      else if ssh_Username c = [] then Some UsernameRequired
      else if ssh_Password c = [] \<and> ssh_PrivateKey c = [] then Some CredentialRequired
      else None)"

definition validateSMB :: "SMBConfig \<Rightarrow> dsn_error option" where
  "validateSMB c =
     (if smb_Host c = [] then Some HostRequired
      else if smb_Username c = [] then Some UsernameRequired
      else if smb_Share c = [] then Some ShareRequired
      else None)"

definition validateWebDAV :: "WebDAVConfig \<Rightarrow> dsn_error option" where
  "validateWebDAV c =
     (if dav_URL c = [] then Some URLRequired else if dav_Username c = [] then Some UsernameRequired else None)"

definition validateWith :: "('c \<Rightarrow> dsn_error option) \<Rightarrow> 'c option \<Rightarrow> dsn_error option" where
  "validateWith check c = Option.bind c check"

definition Validate :: "DSN \<Rightarrow> dsn_error option" where
  "Validate d =
     (if dsn_InMemory d then None
      else if dsn_Path d = [] then Some PathRequired
      else case validateWith validateSSH (dsn_SSH d) of
             Some e \<Rightarrow> Some e
           | None \<Rightarrow>
               (case validateWith validateSMB (dsn_SMB d) of
                  Some e \<Rightarrow> Some e
                | None \<Rightarrow> validateWith validateWebDAV (dsn_WebDAV d)))"

text \<open>What \<^verbatim>\<open>ParseDSN\<close> accepts as a remote name lacks at most the host, or both of password and key.\<close>

lemma parse_ssh_fields:
  assumes "parseSSHDSN lib name = Inr d"
  shows "dsn_Path d \<noteq> [] \<and> \<not> dsn_InMemory d \<and> dsn_SMB d = None \<and> dsn_WebDAV d = None
         \<and> (\<exists>c. dsn_SSH d = Some c \<and> ssh_Username c \<noteq> [])"
  using assms by (auto simp: parseSSHDSN_def Let_def split: if_split_asm option.split_asm sum.split_asm)

lemma parse_smb_fields:
  assumes "parseSMBDSN lib name = Inr d"
  shows "dsn_Path d \<noteq> [] \<and> \<not> dsn_InMemory d \<and> dsn_SSH d = None \<and> dsn_WebDAV d = None
         \<and> (\<exists>c. dsn_SMB d = Some c \<and> smb_Username c \<noteq> [] \<and> smb_Share c \<noteq> [])"
  using assms by (auto simp: parseSMBDSN_def Let_def split: if_split_asm option.split_asm sum.split_asm)

lemma parse_webdav_fields:
  assumes "parseWebDAVDSN lib name = Inr d"
  shows "dsn_Path d \<noteq> [] \<and> \<not> dsn_InMemory d \<and> dsn_SSH d = None \<and> dsn_SMB d = None
         \<and> (\<exists>c. dsn_WebDAV d = Some c \<and> dav_Username c \<noteq> [] \<and> dav_URL c \<noteq> [])"
  using assms by (auto simp: parseWebDAVDSN_def Let_def split: if_split_asm option.split_asm sum.split_asm)

lemma parse_remote_form:
  assumes "ParseDSN lib name = Inr d" "IsRemote d"
  shows "parseSSHDSN lib name = Inr d \<or> parseSMBDSN lib name = Inr d \<or> parseWebDAVDSN lib name = Inr d"
proof (rule ccontr)
  assume "\<not> ?thesis"
  with assms(1) have "dsn_SSH d = None" "dsn_SMB d = None" "dsn_WebDAV d = None"
    by (auto simp: ParseDSN_def Let_def split: if_split_asm option.split_asm)
  with assms(2) show False by (simp add: IsRemote_def)
qed

lemma parse_then_validate:
  assumes "ParseDSN lib name = Inr d" "IsRemote d" "Validate d = Some e"
  shows "e = HostRequired \<or> e = CredentialRequired"
  using parse_remote_form [OF assms(1,2)]
proof (elim disjE)
  assume "parseSSHDSN lib name = Inr d"
  from parse_ssh_fields [OF this] assms(3) show ?thesis
    by (auto simp: Validate_def validateWith_def validateSSH_def split: if_split_asm option.split_asm)
next
  assume "parseSMBDSN lib name = Inr d"
  from parse_smb_fields [OF this] assms(3) show ?thesis
    by (auto simp: Validate_def validateWith_def validateSMB_def split: if_split_asm option.split_asm)
next
  assume "parseWebDAVDSN lib name = Inr d"
  from parse_webdav_fields [OF this] assms(3) show ?thesis
    by (auto simp: Validate_def validateWith_def validateWebDAV_def split: if_split_asm option.split_asm)
qed

text \<open>The encryption password is not printed: the name of an encrypted database reads back as an unencrypted one.\<close>

lemma local_name_loses_password:
  assumes "ParseDSN lib name = Inr d" "\<not> IsRemote d"
  shows "DSN_String lib d = (if dsn_InMemory d then '':memory:'' else dsn_Path d)"
  using assms by (auto simp: DSN_String_def IsRemote_def)

end
