(* ===== verification/Importer.thy ===== *)
theory Importer
  imports Engine Sample
begin

text \<open>
  \<^verbatim>\<open>src/import\<close>: the types of other databases (\<^verbatim>\<open>converter.go\<close>) and the import of their tables in batches (\<^verbatim>\<open>import.go\<close>). The five importers talk to
  database servers and are values of the record \<open>importer\<close>, the interface of \<^verbatim>\<open>import.go\<close>. Offsets and counts are integers: they do not overflow
  as long as the number of rows and the batch size together are below \<open>2 ^ 63\<close>.
\<close>

section \<open>Types\<close>

text \<open>\<open>baseType\<close>: the text before a parenthesis that is not the first character. \<open>declaredLength\<close>: the digits behind it, as an \<^verbatim>\<open>int\<close>.\<close>

definition baseType :: "string \<Rightarrow> string" where
  "baseType t = (case IndexOf t ''('' of Some idx \<Rightarrow> if 0 < idx then take idx t else t | None \<Rightarrow> t)"

definition lengthText :: "string \<Rightarrow> string" where
  "lengthText t =
     (case IndexOf t ''('' of
        None \<Rightarrow> []
      | Some idx \<Rightarrow>
          if 0 < idx
          then case IndexOf t '')'' of None \<Rightarrow> [] | Some endIdx \<Rightarrow> if idx < endIdx then take (endIdx - (idx + 1)) (drop (idx + 1) t) else []
          else [])"

definition digitsOf :: "string \<Rightarrow> u64" where
  "digitsOf l = foldl (\<lambda>n ch. n * 10 + of_nat (of_char ch - 48)) 0 (takeWhile (\<lambda>ch. 48 \<le> (of_char ch :: nat) \<and> of_char ch \<le> (57 :: nat)) l)"

definition declaredLength :: "string \<Rightarrow> u64" where
  "declaredLength t = digitsOf (lengthText t)"

definition precisionOf :: "string \<Rightarrow> u64" where
  "precisionOf t =
     (let l = lengthText t
      in digitsOf (case IndexOf l '','' of Some commaIdx \<Rightarrow> if 0 < commaIdx then take commaIdx l else l | None \<Rightarrow> l))"

definition orLength :: "u64 \<Rightarrow> u64 \<Rightarrow> u64" where
  "orLength n dflt = (if n = 0 then dflt else n)"

definition ConvertMySQLType :: "go_rt \<Rightarrow> string \<Rightarrow> DataType \<times> u64" where
  "ConvertMySQLType rt mysqlType =
     (let t = ToUpper rt (TrimSpace rt mysqlType); base = baseType t; n = declaredLength t
      in if base \<in> {''TINYINT'', ''SMALLINT'', ''MEDIUMINT'', ''INT'', ''INTEGER'', ''BIGINT''} then (TypeInt, 0)
         else if base \<in> {''FLOAT'', ''DOUBLE'', ''DECIMAL'', ''NUMERIC'', ''REAL''} then (TypeFloat, 0)
         else if base \<in> {''CHAR'', ''CHARACTER'', ''NCHAR''} then (TypeChar, orLength n 1)
         else if base \<in> {''VARCHAR'', ''CHARACTER VARYING'', ''NVARCHAR'', ''VARCHAR2''} then (TypeVarchar, orLength n 255)
         else if base \<in> {''TEXT'', ''TINYTEXT'', ''MEDIUMTEXT'', ''LONGTEXT'', ''CLOB''} then (TypeText, 0)
         else if base = ''DATE'' then (TypeDate, 0)
         else if base = ''TIME'' then (TypeTime, 0)
         else if base \<in> {''DATETIME'', ''TIMESTAMP'', ''TIMESTAMP WITHOUT TIME ZONE''} then (TypeDatetime, 0)
         else if base \<in> {''BLOB'', ''TINYBLOB'', ''MEDIUMBLOB'', ''LONGBLOB'', ''BINARY'', ''VARBINARY''} then (TypeBlob, 0)
         else if base \<in> {''BIT'', ''BOOLEAN'', ''BOOL''} then (TypeInt, 0)
         else if base = ''YEAR'' then (TypeInt, 0)
         else (TypeVarchar, 255))"

definition ConvertPostgreSQLType :: "go_rt \<Rightarrow> string \<Rightarrow> DataType \<times> u64" where
  "ConvertPostgreSQLType rt pgType =
     (let u = ToUpper rt (TrimSpace rt pgType);
          t = (if hasSuffix u ''[]'' then take (length u - 2) u else u);
          base = baseType t; n = declaredLength t
      in if base \<in> {''SMALLINT'', ''INTEGER'', ''INT'', ''INT4'', ''INT2'', ''BIGINT'', ''INT8'', ''SERIAL'', ''BIGSERIAL'', ''SMALLSERIAL''}
         then (TypeInt, 0)
         else if base \<in> {''REAL'', ''FLOAT4'', ''DOUBLE PRECISION'', ''FLOAT8'', ''NUMERIC'', ''DECIMAL''} then (TypeFloat, 0)
         else if base \<in> {''CHAR'', ''CHARACTER''} then (TypeChar, orLength n 1)
         else if base \<in> {''VARCHAR'', ''CHARACTER VARYING'', ''TEXT''} then (TypeVarchar, orLength n 255)
         else if base = ''DATE'' then (TypeDate, 0)
         else if base \<in> {''TIME'', ''TIME WITHOUT TIME ZONE'', ''TIME WITH TIME ZONE'', ''TIMETZ''} then (TypeTime, 0)
         else if base \<in> {''TIMESTAMP'', ''TIMESTAMP WITHOUT TIME ZONE'', ''TIMESTAMP WITH TIME ZONE'', ''TIMESTAMPTZ''} then (TypeDatetime, 0)
         else if base = ''BYTEA'' then (TypeBlob, 0)
         else if base \<in> {''BOOLEAN'', ''BOOL''} then (TypeInt, 0)
         else if base = ''UUID'' then (TypeVarchar, 36)
         else if base \<in> {''JSON'', ''JSONB''} then (TypeText, 0)
         else (TypeVarchar, 255))"

definition hasText :: "string \<Rightarrow> string \<Rightarrow> bool" where
  "hasText s sub \<longleftrightarrow> IndexOf s sub \<noteq> None"

definition ConvertSQLiteType :: "go_rt \<Rightarrow> string \<Rightarrow> DataType \<times> u64" where
  "ConvertSQLiteType rt sqliteType =
     (let t = ToUpper rt sqliteType; n = declaredLength t
      in if hasText t ''INT'' then (TypeInt, 0)
         else if hasText t ''CHAR'' then (TypeChar, orLength n 255)
         else if hasText t ''CLOB'' \<or> hasText t ''TEXT'' then (TypeText, 0)
         else if hasText t ''BLOB'' then (TypeBlob, 0)
         else if hasText t ''REAL'' \<or> hasText t ''FLOA'' \<or> hasText t ''DOUB'' then (TypeFloat, 0)
         else if hasText t ''DATE'' then (TypeDate, 0)
         else if hasText t ''TIME'' then (TypeDatetime, 0)
         else if hasText t ''VARCHAR'' then (TypeVarchar, orLength n 255)
         else (TypeVarchar, 255))"

definition ConvertOracleType :: "go_rt \<Rightarrow> string \<Rightarrow> DataType \<times> u64" where
  "ConvertOracleType rt oracleType =
     (let t = ToUpper rt (TrimSpace rt oracleType); base = baseType t; n = precisionOf t
      in if base \<in> {''NUMBER'', ''INTEGER'', ''INT'', ''SMALLINT'', ''PLS_INTEGER'', ''BINARY_INTEGER''} then (TypeInt, 0)
         else if base \<in> {''FLOAT'', ''BINARY_FLOAT'', ''BINARY_DOUBLE''} then (TypeFloat, 0)
         else if base \<in> {''CHAR'', ''NCHAR''} then (TypeChar, orLength n 1)
         else if base \<in> {''VARCHAR'', ''VARCHAR2'', ''NVARCHAR'', ''NVARCHAR2''} then (TypeVarchar, orLength n 4000)
         else if base \<in> {''CLOB'', ''NCLOB'', ''LONG''} then (TypeText, 0)
         else if base = ''DATE'' then (TypeDatetime, 0)
         else if base = ''TIMESTAMP'' then (TypeDatetime, 0)
         else if base \<in> {''BLOB'', ''RAW'', ''LONG RAW''} then (TypeBlob, 0)
         else if base \<in> {''ROWID'', ''UROWID''} then (TypeVarchar, 18)
         else (TypeVarchar, 255))"

definition ConvertMSSQLType :: "go_rt \<Rightarrow> string \<Rightarrow> DataType \<times> u64" where
  "ConvertMSSQLType rt mssqlType =
     (let t = ToUpper rt (TrimSpace rt mssqlType); base = baseType t; n = precisionOf t
      in if base \<in> {''TINYINT'', ''SMALLINT'', ''INT'', ''INTEGER'', ''BIGINT''} then (TypeInt, 0)
         else if base \<in> {''REAL'', ''FLOAT'', ''DECIMAL'', ''NUMERIC'', ''MONEY'', ''SMALLMONEY''} then (TypeFloat, 0)
         else if base \<in> {''CHAR'', ''NCHAR''} then (TypeChar, orLength n 1)
         else if base \<in> {''VARCHAR'', ''NVARCHAR'', ''TEXT'', ''NTEXT''} then (TypeVarchar, if n = 0 \<or> n = - 1 then 255 else n)
         else if base = ''DATE'' then (TypeDate, 0)
         else if base = ''TIME'' then (TypeTime, 0)
         else if base \<in> {''DATETIME'', ''DATETIME2'', ''SMALLDATETIME'', ''DATETIMEOFFSET''} then (TypeDatetime, 0)
         else if base \<in> {''BINARY'', ''VARBINARY'', ''IMAGE''} then (TypeBlob, 0)
         else if base = ''BIT'' then (TypeInt, 0)
         else if base = ''UNIQUEIDENTIFIER'' then (TypeVarchar, 36)
         else (TypeVarchar, 255))"

text \<open>What the conversions make of common types: an unsigned integer of MySQL is a text, a text of SQLite a fixed-length one.\<close>

lemma mysql_unsigned_is_text: "ConvertMySQLType rt ''int unsigned'' = (TypeVarchar, 255)"
  by (simp add: ConvertMySQLType_def Let_def ToUpper_def TrimSpace_def is_ascii_def upper_ascii_def is_space_ascii_def baseType_def IndexOf.simps hasPrefix_def)

lemma hasText_iff: "hasText s sub \<longleftrightarrow> (\<exists>a b. s = a @ sub @ b)"
proof (induction s)
  case Nil
  show ?case by (auto simp: hasText_def IndexOf.simps [of "[]"] hasPrefix_def)
next
  case (Cons c s)
  have prefix: "hasPrefix (c # s) sub \<longleftrightarrow> (\<exists>b. c # s = sub @ b)"
    unfolding hasPrefix_def by (metis append_take_drop_id append_eq_conv_conj)
  have "hasText (c # s) sub \<longleftrightarrow> hasPrefix (c # s) sub \<or> hasText s sub"
    by (auto simp: hasText_def IndexOf.simps [of "c # s"])
  also have "\<dots> \<longleftrightarrow> (\<exists>a b. c # s = a @ sub @ b)"
    unfolding prefix Cons.IH by (metis append_Cons append_Nil neq_Nil_conv list.inject)
  finally show ?case .
qed

lemma sqlite_varchar_is_char: "ConvertSQLiteType rt t = (TypeVarchar, n) \<Longrightarrow> n = 255"
proof -
  have "hasText s ''CHAR''" if "hasText s ''VARCHAR''" for s
    using that unfolding hasText_iff by (metis append_Cons append_Nil append_assoc)
  then show "ConvertSQLiteType rt t = (TypeVarchar, n) \<Longrightarrow> n = 255"
    by (auto simp: ConvertSQLiteType_def Let_def split: if_split_asm)
qed

section \<open>Schemas\<close>

record ColumnInfo =
  ci_Name :: string
  ci_SourceType :: string
  ci_TargetType :: DataType
  ci_Length :: u64
  ci_IsNullable :: bool
  ci_IsPrimaryKey :: bool
  ci_IsUnique :: bool
  ci_DefaultValue :: godata

record ForeignKeyInfo =
  fk_Name :: string
  fk_Columns :: "string list"
  fk_RefTable :: string
  fk_RefColumns :: "string list"
  fk_OnDelete :: string
  fk_OnUpdate :: string

record UniqueKeyInfo =
  uk_Name :: string
  uk_Columns :: "string list"

record CheckInfo =
  ck_Name :: string
  ck_Definition :: string

record ImportIndexInfo =
  ix_Name :: string
  ix_Columns :: "string list"
  ix_Unique :: bool

record TableSchema =
  ts_TableName :: string
  ts_Columns :: "ColumnInfo list"
  ts_PrimaryKeys :: "string list"
  ts_ForeignKeys :: "ForeignKeyInfo list"
  ts_UniqueKeys :: "UniqueKeyInfo list"
  ts_CheckConstraints :: "CheckInfo list"
  ts_Indexes :: "ImportIndexInfo list"

fun joinTexts :: "string \<Rightarrow> string list \<Rightarrow> string" where
  "joinTexts sep [] = []"
| "joinTexts sep [s] = s"
| "joinTexts sep (s # t # ss) = s @ sep @ joinTexts sep (t # ss)"

definition handleDefaultValue :: "go_rt \<Rightarrow> godata \<Rightarrow> string" where
  "handleDefaultValue rt val =
     (if val = GNil then ''DEFAULT NULL''
      else if ToUpper rt (fmt_v rt val) = ''CURRENT_TIMESTAMP'' then ''DEFAULT NOW()''
      else ''DEFAULT '' @ fmt_v rt val)"

definition isPartOfMultiColumnUnique :: "string \<Rightarrow> TableSchema \<Rightarrow> bool" where
  "isPartOfMultiColumnUnique colName schema =
     list_ex (\<lambda>uk. 1 < length (uk_Columns uk) \<and> colName \<in> set (uk_Columns uk)) (ts_UniqueKeys schema)"

definition buildColumnDef :: "go_rt \<Rightarrow> TableSchema \<Rightarrow> ColumnInfo \<Rightarrow> string" where
  "buildColumnDef rt schema col =
     (let typ = DataType_String (ci_TargetType col)
      in joinTexts '' ''
           ([ci_Name col, if 0 <s ci_Length col then typ @ ''('' @ dec_int (sint (ci_Length col)) @ '')'' else typ]
            @ (if ci_IsPrimaryKey col \<and> length (ts_PrimaryKeys schema) \<le> 1 then [''PRIMARY KEY''] else [])
            @ (if ci_IsUnique col \<and> \<not> isPartOfMultiColumnUnique (ci_Name col) schema then [''UNIQUE''] else [])
            @ (if \<not> ci_IsNullable col then [''NOT NULL''] else [])
            @ (if ci_DefaultValue col \<noteq> GNil then [handleDefaultValue rt (ci_DefaultValue col)] else [])))"

definition foreignKeyDef :: "ForeignKeyInfo \<Rightarrow> string" where
  "foreignKeyDef fk =
     ''CONSTRAINT '' @ fk_Name fk @ '' FOREIGN KEY ('' @ joinTexts '', '' (fk_Columns fk) @ '') REFERENCES '' @ fk_RefTable fk
     @ '' ('' @ joinTexts '', '' (fk_RefColumns fk) @ '')''
     @ (if fk_OnDelete fk \<noteq> [] then '' ON DELETE '' @ fk_OnDelete fk else [])
     @ (if fk_OnUpdate fk \<noteq> [] then '' ON UPDATE '' @ fk_OnUpdate fk else [])"

definition createText :: "go_rt \<Rightarrow> string \<Rightarrow> TableSchema \<Rightarrow> string" where
  "createText rt tableName schema =
     ''CREATE TABLE '' @ tableName @ '' (''
     @ joinTexts '', ''
         (map (buildColumnDef rt schema) (ts_Columns schema)
          @ (if 1 < length (ts_PrimaryKeys schema) then [''PRIMARY KEY ('' @ joinTexts '', '' (ts_PrimaryKeys schema) @ '')''] else [])
          @ map foreignKeyDef (ts_ForeignKeys schema)
          @ map (\<lambda>uk. ''CONSTRAINT '' @ uk_Name uk @ '' UNIQUE ('' @ joinTexts '', '' (uk_Columns uk) @ '')'') (ts_UniqueKeys schema)
          @ map (\<lambda>ck. ''CONSTRAINT '' @ ck_Name ck @ '' CHECK ('' @ ck_Definition ck @ '')'') (ts_CheckConstraints schema))
     @ '')''"

definition createIndexText :: "string \<Rightarrow> ImportIndexInfo \<Rightarrow> string" where
  "createIndexText tableName idx =
     ''CREATE '' @ (if ix_Unique idx then ''UNIQUE '' else []) @ ''INDEX '' @ ix_Name idx @ '' ON '' @ tableName
     @ '' ('' @ joinTexts '', '' (ix_Columns idx) @ '')''"

section \<open>Values\<close>

definition convertValue :: "go_rt \<Rightarrow> godata \<Rightarrow> DataType \<Rightarrow> godata" where
  "convertValue rt val targetType =
     (if val = GNil then GNil
      else if targetType = TypeInt \<or> targetType = TypeSeq
      then case val of
             GInt w \<Rightarrow> GInt64 w
           | GInt32 w \<Rightarrow> GInt64 (scast w)
           | GFloat64 f \<Rightarrow> GInt64 (f64_to_i64 rt f)
           | GFloat32 f \<Rightarrow> GInt64 (f64_to_i64 rt (f32_to_f64 f))
           | _ \<Rightarrow> val
      else if targetType = TypeFloat
      then case val of
             GFloat32 f \<Rightarrow> GFloat64 (f32_to_f64 f)
           | GInt w \<Rightarrow> GFloat64 (i64_to_f64 w)
           | GInt64 w \<Rightarrow> GFloat64 (i64_to_f64 w)
           | _ \<Rightarrow> val
      else if targetType = TypeVarchar \<or> targetType = TypeText \<or> targetType = TypeChar then GString (fmt_v rt val)
      else val)"

definition valueText :: "go_rt \<Rightarrow> godata \<Rightarrow> string" where
  "valueText rt d =
     (case d of
        GNil \<Rightarrow> ''NULL''
      | GInt w \<Rightarrow> fmt_v rt d
      | GInt32 w \<Rightarrow> fmt_v rt d
      | GInt64 w \<Rightarrow> fmt_v rt d
      | GFloat32 f \<Rightarrow> fmt_v rt d
      | GFloat64 f \<Rightarrow> fmt_v rt d
      | _ \<Rightarrow> CHR 0x27 # ReplaceAll (fmt_v rt d) [CHR 0x27] [CHR 0x27, CHR 0x27] @ [CHR 0x27])"

text \<open>A row with more values than the schema has columns: the index into the columns panics.\<close>

definition rowText :: "go_rt \<Rightarrow> ColumnInfo list \<Rightarrow> godata list \<Rightarrow> fault + string" where
  "rowText rt cols row =
     (if length cols < length row then Inl GoPanic
      else Inr (''('' @ joinTexts '', '' (map2 (\<lambda>val col. valueText rt (convertValue rt val (ci_TargetType col))) row cols) @ '')''))"

fun rowTexts :: "go_rt \<Rightarrow> ColumnInfo list \<Rightarrow> godata list list \<Rightarrow> fault + string list" where
  "rowTexts rt cols [] = Inr []"
| "rowTexts rt cols (row # rows) =
     (case rowText rt cols row of
        Inl f \<Rightarrow> Inl f
      | Inr t \<Rightarrow> (case rowTexts rt cols rows of Inl f \<Rightarrow> Inl f | Inr ts \<Rightarrow> Inr (t # ts)))"

definition insertText :: "go_rt \<Rightarrow> string \<Rightarrow> TableSchema \<Rightarrow> godata list list \<Rightarrow> fault + string" where
  "insertText rt tableName schema rows =
     (case rowTexts rt (ts_Columns schema) rows of
        Inl f \<Rightarrow> Inl f
      | Inr ts \<Rightarrow> Inr (''INSERT INTO '' @ tableName @ '' ('' @ joinTexts '', '' (map ci_Name (ts_Columns schema)) @ '') VALUES ''
                     @ joinTexts '', '' ts))"

section \<open>The import manager\<close>

text \<open>
  \<open>importer\<close> is the interface \<^verbatim>\<open>Importer\<close>: methods on the connection \<open>'i\<close>, with the text of an error. \<open>errText\<close> is \<^verbatim>\<open>fmt.Sprintf("%v", err)\<close>. A panic inside
  of a statement ends the import, every other error of a statement is a value.
\<close>

record 'i importer =
  imp_Connect :: "string \<Rightarrow> 'i \<Rightarrow> 'i \<times> string option"
  imp_Disconnect :: "'i \<Rightarrow> 'i"
  imp_ListTables :: "string \<Rightarrow> 'i \<Rightarrow> string + string list"
  imp_GetTableSchema :: "string \<Rightarrow> string \<Rightarrow> 'i \<Rightarrow> string + TableSchema"
  imp_ReadTable :: "string \<Rightarrow> string \<Rightarrow> int \<Rightarrow> int \<Rightarrow> 'i \<Rightarrow> string + godata list list"
  imp_ReadTableCount :: "string \<Rightarrow> string \<Rightarrow> 'i \<Rightarrow> string + int"

record ImportConfig =
  ic_SourceType :: string
  ic_SourceDSN :: string
  ic_SourceDB :: string
  ic_SourceTable :: string
  ic_TargetTable :: string
  ic_BatchSize :: int
  ic_Overwrite :: bool
  ic_CreateTable :: bool

datatype import_error =
    UnsupportedType string | ConnectFailed string | TableRequired | SchemaFailed string | CreateFailed sql_error | CountFailed string
  | ListFailed string | BatchRead int string | BatchInsert int sql_error | TableFailed string import_error | ImportStops sql_error

record ImportResult =
  ir_TablesImported :: int
  ir_RowsImported :: int
  ir_Errors :: "import_error list"

record ('w, 'i) ImportManager =
  im_engine :: "'w Engine"
  im_importers :: "string \<Rightarrow> 'i importer option"
  im_source :: 'i

type_synonym ('w, 'i, 'a) imp = "(('w, 'i) ImportManager, import_error, 'a) go_method"

definition NewImportManager :: "'w Engine \<Rightarrow> 'i \<Rightarrow> ('w, 'i) ImportManager" where
  "NewImportManager engine src = \<lparr>im_engine = engine, im_importers = (\<lambda>_. None), im_source = src\<rparr>"

definition RegisterImporter :: "string \<Rightarrow> 'i importer \<Rightarrow> ('w, 'i) ImportManager \<Rightarrow> ('w, 'i) ImportManager" where
  "RegisterImporter dbType imp m = m\<lparr>im_importers := (im_importers m)(dbType \<mapsto> imp)\<rparr>"

fun stops :: "sql_error \<Rightarrow> bool" where
  "stops (Sql (ExecFault _)) = True"
| "stops Outside = True"
| "stops _ = False"

definition runSQL :: "'w eng_env \<Rightarrow> string \<Rightarrow> ('w, 'i, sql_error option) imp" where
  "runSQL env sql m =
     (case Engine_Execute env sql (im_engine m) of
        (e, Inr _) \<Rightarrow> (m\<lparr>im_engine := e\<rparr>, Inr None)
      | (e, Inl err) \<Rightarrow> (m\<lparr>im_engine := e\<rparr>, if stops err then Inl (ImportStops err) else Inr (Some err)))"

fun createIndexes :: "'w eng_env \<Rightarrow> (sql_error \<Rightarrow> string) \<Rightarrow> string \<Rightarrow> ImportIndexInfo list \<Rightarrow> ('w, 'i, unit) imp" where
  "createIndexes env errText tableName [] = returnS ()"
| "createIndexes env errText tableName (idx # idxs) =
     bindS (runSQL env (createIndexText tableName idx)) (\<lambda>r.
       bindS (case r of
                None \<Rightarrow> returnS None
              | Some err \<Rightarrow> runSQL env (''-- Warning: Failed to create index '' @ ix_Name idx @ '': '' @ errText err)) (\<lambda>_.
         createIndexes env errText tableName idxs))"

definition createTableFromSchema :: "'w eng_env \<Rightarrow> (sql_error \<Rightarrow> string) \<Rightarrow> string \<Rightarrow> TableSchema \<Rightarrow> bool \<Rightarrow> ('w, 'i, unit) imp" where
  "createTableFromSchema env errText tableName schema overwrite =
     bindS (if overwrite then runSQL env (''DROP TABLE IF EXISTS '' @ tableName) else returnS None) (\<lambda>_.
       bindS (runSQL env (createText (ert env) tableName schema)) (\<lambda>r.
         case r of
           Some err \<Rightarrow> failS (CreateFailed err)
         | None \<Rightarrow> createIndexes env errText tableName (ts_Indexes schema)))"

definition import_insertRows :: "'w eng_env \<Rightarrow> string \<Rightarrow> TableSchema \<Rightarrow> godata list list \<Rightarrow> ('w, 'i, sql_error option) imp" where
  "import_insertRows env tableName schema rows =
     (if rows = [] then returnS None
      else case insertText (ert env) tableName schema rows of
             Inl f \<Rightarrow> failS (ImportStops (Sql (ExecFault f)))
           | Inr sql \<Rightarrow> runSQL env sql)"

text \<open>The loop over the offsets: the offset and the limit of each batch\<close>

function batches :: "int \<Rightarrow> int \<Rightarrow> int \<Rightarrow> (int \<times> int) list" where
  "batches totalRows sz offset =
     (if offset < totalRows \<and> 0 < sz
      then (offset, if totalRows < offset + sz then totalRows - offset else sz) # batches totalRows sz (offset + sz)
      else [])"
  by auto
termination
  by (relation "measure (\<lambda>(totalRows, sz, offset). nat (totalRows - offset))") auto

declare batches.simps [simp del]

fun importBatches :: "'w eng_env \<Rightarrow> 'i importer \<Rightarrow> ImportConfig \<Rightarrow> string \<Rightarrow> TableSchema \<Rightarrow> int \<Rightarrow> (int \<times> int) list \<Rightarrow> ImportResult
    \<Rightarrow> ('w, 'i, ImportResult) imp" where
  "importBatches env imp cfg targetTable schema sz [] result = returnS result"
| "importBatches env imp cfg targetTable schema sz ((offset, limit) # bs) result =
     (\<lambda>m. case imp_ReadTable imp (ic_SourceDB cfg) (ic_SourceTable cfg) offset limit (im_source m) of
        Inl e \<Rightarrow> importBatches env imp cfg targetTable schema sz bs (result\<lparr>ir_Errors := ir_Errors result @ [BatchRead (offset div sz) e]\<rparr>) m
      | Inr rows \<Rightarrow>
          bindS (import_insertRows env targetTable schema rows) (\<lambda>r.
            case r of
              Some err \<Rightarrow>
                importBatches env imp cfg targetTable schema sz bs
                  (result\<lparr>ir_Errors := ir_Errors result @ [BatchInsert (offset div sz) err]\<rparr>)
            | None \<Rightarrow>
                importBatches env imp cfg targetTable schema sz bs
                  (result\<lparr>ir_RowsImported := ir_RowsImported result + int (length rows)\<rparr>)) m)"

definition setSkipSave :: "bool \<Rightarrow> ('w, 'i) ImportManager \<Rightarrow> ('w, 'i) ImportManager" where
  "setSkipSave skip m = m\<lparr>im_engine := (im_engine m)\<lparr>en_storage := SetSkipSave skip (en_storage (im_engine m))\<rparr>\<rparr>"

definition forceSave :: "'w eng_env \<Rightarrow> ('w, 'i) ImportManager \<Rightarrow> ('w, 'i) ImportManager" where
  "forceSave env m =
     m\<lparr>im_engine := (im_engine m)\<lparr>en_storage := fst (ForceSave (ee_senv env) (en_storage (im_engine m)))\<rparr>\<rparr>"

abbreviation emptyImport :: ImportResult where
  "emptyImport \<equiv> \<lparr>ir_TablesImported = 0, ir_RowsImported = 0, ir_Errors = []\<rparr>"

definition importRows :: "'w eng_env \<Rightarrow> 'i importer \<Rightarrow> ImportConfig \<Rightarrow> string \<Rightarrow> TableSchema \<Rightarrow> int \<Rightarrow> ('w, 'i, ImportResult) imp" where
  "importRows env imp cfg targetTable schema totalRows m =
     (let sz = (if ic_BatchSize cfg \<le> 0 then 1000 else ic_BatchSize cfg)
      in case importBatches env imp cfg targetTable schema sz (batches totalRows sz 0) emptyImport (setSkipSave True m) of
           (m, r) \<Rightarrow> (forceSave env (setSkipSave False m), map_sum id (\<lambda>res. res\<lparr>ir_TablesImported := 1\<rparr>) r))"

definition importConnected :: "'w eng_env \<Rightarrow> (sql_error \<Rightarrow> string) \<Rightarrow> 'i importer \<Rightarrow> ImportConfig \<Rightarrow> ('w, 'i, ImportResult) imp" where
  "importConnected env errText imp cfg m =
     (if ic_SourceTable cfg = [] then failS TableRequired m
      else let targetTable = (if ic_TargetTable cfg = [] then ic_SourceTable cfg else ic_TargetTable cfg)
           in case imp_GetTableSchema imp (ic_SourceDB cfg) (ic_SourceTable cfg) (im_source m) of
                Inl e \<Rightarrow> failS (SchemaFailed e) m
              | Inr schema \<Rightarrow>
                  bindS (if ic_CreateTable cfg then createTableFromSchema env errText targetTable schema (ic_Overwrite cfg)
                         else returnS ()) (\<lambda>_ m.
                    case imp_ReadTableCount imp (ic_SourceDB cfg) (ic_SourceTable cfg) (im_source m) of
                      Inl e \<Rightarrow> failS (CountFailed e) m
                    | Inr totalRows \<Rightarrow> importRows env imp cfg targetTable schema totalRows m) m)"

definition withConnection :: "ImportConfig \<Rightarrow> ('i importer \<Rightarrow> ('w, 'i, 'a) imp) \<Rightarrow> ('w, 'i, 'a) imp" where
  "withConnection cfg body m =
     (case im_importers m (ic_SourceType cfg) of
        None \<Rightarrow> failS (UnsupportedType (ic_SourceType cfg)) m
      | Some imp \<Rightarrow>
          (case imp_Connect imp (ic_SourceDSN cfg) (im_source m) of
             (src, Some e) \<Rightarrow> failS (ConnectFailed e) (m\<lparr>im_source := src\<rparr>)
           | (src, None) \<Rightarrow>
               (case body imp (m\<lparr>im_source := src\<rparr>) of (m, r) \<Rightarrow> (m\<lparr>im_source := imp_Disconnect imp (im_source m)\<rparr>, r))))"

definition ImportTable :: "'w eng_env \<Rightarrow> (sql_error \<Rightarrow> string) \<Rightarrow> ImportConfig \<Rightarrow> ('w, 'i, ImportResult) imp" where
  "ImportTable env errText cfg = withConnection cfg (\<lambda>imp. importConnected env errText imp cfg)"

fun importTables :: "'w eng_env \<Rightarrow> (sql_error \<Rightarrow> string) \<Rightarrow> ImportConfig \<Rightarrow> string list \<Rightarrow> ImportResult \<Rightarrow> ('w, 'i, ImportResult) imp" where
  "importTables env errText cfg [] result = returnS result"
| "importTables env errText cfg (tableName # tables) result =
     (\<lambda>m. case ImportTable env errText (cfg\<lparr>ic_SourceTable := tableName, ic_TargetTable := tableName, ic_CreateTable := True\<rparr>) m of
        (m, Inl (ImportStops err)) \<Rightarrow> (m, Inl (ImportStops err))
      | (m, Inl e) \<Rightarrow> importTables env errText cfg tables (result\<lparr>ir_Errors := ir_Errors result @ [TableFailed tableName e]\<rparr>) m
      | (m, Inr t) \<Rightarrow>
          importTables env errText cfg tables
            (result\<lparr>ir_TablesImported := ir_TablesImported result + ir_TablesImported t,
                    ir_RowsImported := ir_RowsImported result + ir_RowsImported t\<rparr>) m)"

definition ImportAll :: "'w eng_env \<Rightarrow> (sql_error \<Rightarrow> string) \<Rightarrow> ImportConfig \<Rightarrow> ('w, 'i, ImportResult) imp" where
  "ImportAll env errText cfg =
     withConnection cfg (\<lambda>imp m.
       case imp_ListTables imp (ic_SourceDB cfg) (im_source m) of
         Inl e \<Rightarrow> failS (ListFailed e) m
       | Inr tables \<Rightarrow> importTables env errText cfg tables emptyImport m)"

section \<open>Names of source databases\<close>

definition LastIndexOf :: "char \<Rightarrow> string \<Rightarrow> nat option" where
  "LastIndexOf c s = (if c \<in> set s then Some (length s - 1 - length (takeWhile (\<lambda>d. d \<noteq> c) (rev s))) else None)"

definition afterLast :: "char \<Rightarrow> string \<Rightarrow> string" where
  "afterLast c s = (case LastIndexOf c s of None \<Rightarrow> [] | Some i \<Rightarrow> drop (i + 1) s)"

datatype dsn_import_error = InvalidFormat | UnsupportedDatabase string

definition import_ParseDSN :: "go_rt \<Rightarrow> string \<Rightarrow> dsn_import_error + string \<times> string \<times> string" where
  "import_ParseDSN rt dsn =
     (case IndexOf dsn ''://'' of
        None \<Rightarrow> Inl InvalidFormat
      | Some i \<Rightarrow>
          let dbType = ToLower rt (take i dsn); connStr = drop (i + 3) dsn; name = afterLast (CHR ''/'') connStr
          in if dbType \<in> {''mysql'', ''postgresql'', ''mssql''}
             then Inr (dbType, connStr, case IndexOf name ''?'' of None \<Rightarrow> name | Some q \<Rightarrow> take q name)
             else if dbType = ''sqlite''
             then Inr (dbType, connStr, case LastIndexOf (CHR ''.'') name of None \<Rightarrow> name | Some d \<Rightarrow> take d name)
             else if dbType = ''oracle'' then Inr (dbType, connStr, name)
             else Inl (UnsupportedDatabase dbType))"

section \<open>What is imported\<close>

text \<open>
  \<open>reads_from imp cfg rows\<close> is what an importer promises for a table that does not change: the number of its rows, and \<^verbatim>\<open>limit\<close> rows from \<^verbatim>\<open>offset\<close> on
  whenever a batch can be read at all. \<open>lostRows\<close> is the number of rows of the batch that an error names.
\<close>

definition reads_from :: "'i importer \<Rightarrow> ImportConfig \<Rightarrow> godata list list \<Rightarrow> bool" where
  "reads_from imp cfg rows \<longleftrightarrow>
     (\<forall>src offset limit. case imp_ReadTable imp (ic_SourceDB cfg) (ic_SourceTable cfg) offset limit src of
        Inl _ \<Rightarrow> True
      | Inr batch \<Rightarrow> batch = take (nat limit) (drop (nat offset) rows))
     \<and> (\<forall>src. imp_ReadTableCount imp (ic_SourceDB cfg) (ic_SourceTable cfg) src = Inr (int (length rows)))"

definition batchSize :: "ImportConfig \<Rightarrow> int" where
  "batchSize cfg = (if ic_BatchSize cfg \<le> 0 then 1000 else ic_BatchSize cfg)"

definition batchRows :: "int \<Rightarrow> godata list list \<Rightarrow> int \<Rightarrow> int" where
  "batchRows sz rows k = int (length (take (nat sz) (drop (nat (k * sz)) rows)))"

fun lostRows :: "int \<Rightarrow> godata list list \<Rightarrow> import_error \<Rightarrow> int" where
  "lostRows sz rows (BatchRead k _) = batchRows sz rows k"
| "lostRows sz rows (BatchInsert k _) = batchRows sz rows k"
| "lostRows sz rows _ = 0"

definition accounted :: "int \<Rightarrow> godata list list \<Rightarrow> ImportResult \<Rightarrow> int" where
  "accounted sz rows r = ir_RowsImported r + sum_list (map (lostRows sz rows) (ir_Errors r))"

lemma accounted_update [simp]:
  "accounted sz rows (r\<lparr>ir_Errors := ir_Errors r @ [e]\<rparr>) = accounted sz rows r + lostRows sz rows e"
  "accounted sz rows (r\<lparr>ir_RowsImported := ir_RowsImported r + n\<rparr>) = accounted sz rows r + n"
  "accounted sz rows (r\<lparr>ir_TablesImported := t\<rparr>) = accounted sz rows r"
  by (simp_all add: accounted_def)

lemma importBatches_accounts:
  assumes "reads_from imp cfg rows" "0 < sz" "0 \<le> k"
    and "importBatches env imp cfg target schema sz (batches (int (length rows)) sz (k * sz)) result m = (m', Inr r)"
  shows "accounted sz rows r = accounted sz rows result + int (length (drop (nat (k * sz)) rows))"
  using assms(3,4)
proof (induction "nat (int (length rows) - k * sz)" arbitrary: k result m rule: less_induct)
  case less
  show ?case
  proof (cases "k * sz < int (length rows)")
    case False
    then show ?thesis using less.prems by (simp add: batches.simps [of _ _ "k * sz"] returnS_def)
  next
    case True
    define limit where "limit = (if int (length rows) < k * sz + sz then int (length rows) - k * sz else sz)"
    have div: "k * sz div sz = k" using assms(2) by simp
    have batch: "take (nat limit) (drop (nat (k * sz)) rows) = take (nat sz) (drop (nat (k * sz)) rows)"
      using True assms(2) less.prems(1) by (simp add: limit_def)
    have step: "accounted sz rows r = accounted sz rows result' + int (length (drop (nat ((k + 1) * sz)) rows))"
      if "importBatches env imp cfg target schema sz (batches (int (length rows)) sz ((k + 1) * sz)) result' n = (m', Inr r)" for result' n
      using less.hyps [of "k + 1"] that True assms(2) less.prems(1) by (simp add: algebra_simps)
    have next_off: "k * sz + sz = (k + 1) * sz" by (simp add: algebra_simps)
    have size_rest: "int (length (drop (nat (k * sz)) rows)) = batchRows sz rows k + int (length (drop (nat ((k + 1) * sz)) rows))"
    proof -
      have "nat ((k + 1) * sz) = nat (k * sz) + nat sz"
        using assms(2) less.prems(1) by (simp add: algebra_simps nat_add_distrib)
      moreover have "int (length rows - a) = int (min (length rows - a) b) + int (length rows - (a + b))" for a b by linarith
      ultimately show ?thesis by (simp add: batchRows_def)
    qed
    have list: "batches (int (length rows)) sz (k * sz) = (k * sz, limit) # batches (int (length rows)) sz ((k + 1) * sz)"
      using True assms(2) by (simp add: batches.simps [of _ _ "k * sz"] limit_def next_off)
    show ?thesis
    proof (cases "imp_ReadTable imp (ic_SourceDB cfg) (ic_SourceTable cfg) (k * sz) limit (im_source m)")
      case (Inl e)
      with less.prems(2) list div size_rest show ?thesis by (auto dest!: step)
    next
      case (Inr rs)
      with assms(1) batch have "rs = take (nat sz) (drop (nat (k * sz)) rows)"
        by (auto simp: reads_from_def split: sum.splits)
      then have n: "int (length rs) = batchRows sz rows k" by (simp add: batchRows_def)
      from Inr less.prems(2) list obtain n res where "import_insertRows env target schema rs m = (n, Inr res)"
        by (auto simp: bindS_def split: prod.splits sum.splits)
      with Inr less.prems(2) list div size_rest n show ?thesis
        by (cases res) (auto simp: bindS_def dest!: step)
    qed
  qed
qed

lemma importRows_accounts:
  assumes "reads_from imp cfg rows" "importRows env imp cfg target schema (int (length rows)) m = (m', Inr r)"
  shows "accounted (batchSize cfg) rows r = int (length rows)"
proof -
  obtain n res where res:
      "importBatches env imp cfg target schema (batchSize cfg) (batches (int (length rows)) (batchSize cfg) (0 * batchSize cfg)) emptyImport
         (setSkipSave True m) = (n, res)"
      "map_sum id (\<lambda>res. res\<lparr>ir_TablesImported := 1\<rparr>) res = Inr r"
    using assms(2) by (auto simp: importRows_def Let_def batchSize_def split: prod.splits)
  then obtain r' where "res = Inr r'" "r = r'\<lparr>ir_TablesImported := 1\<rparr>" by (cases res) auto
  moreover have "0 < batchSize cfg" by (simp add: batchSize_def)
  ultimately have "accounted (batchSize cfg) rows r' = accounted (batchSize cfg) rows emptyImport + int (length rows)"
    using importBatches_accounts [OF assms(1), of "batchSize cfg" 0] res(1) by simp
  with \<open>r = _\<close> show ?thesis by (simp add: accounted_def)
qed

lemma ImportTable_returns:
  assumes "im_importers m (ic_SourceType cfg) = Some imp" "ImportTable env errText cfg m = (m', Inr r)"
  obtains n n' target schema totalRows src where
    "importRows env imp cfg target schema totalRows n = (n', Inr r)"
    "imp_ReadTableCount imp (ic_SourceDB cfg) (ic_SourceTable cfg) src = Inr totalRows"
proof -
  from assms obtain n n' where "importConnected env errText imp cfg n = (n', Inr r)"
    by (auto simp: ImportTable_def withConnection_def failS_def split: prod.splits option.splits)
  then show ?thesis
    by (auto simp: importConnected_def bindS_def failS_def Let_def split: prod.splits sum.splits if_split_asm intro: that)
qed


text \<open>A source with three rows that breaks down after the count was read: both batches of size two are reported.\<close>

definition sampleSchema :: TableSchema where
  "sampleSchema =
     \<lparr>ts_TableName = ''t'', ts_Columns = [], ts_PrimaryKeys = [], ts_ForeignKeys = [], ts_UniqueKeys = [], ts_CheckConstraints = [], ts_Indexes = []\<rparr>"

definition brokenImporter :: "godata list list \<Rightarrow> unit importer" where
  "brokenImporter rows =
     \<lparr>imp_Connect = (\<lambda>_ src. (src, None)), imp_Disconnect = id, imp_ListTables = (\<lambda>_ _. Inr [''t'']),
      imp_GetTableSchema = (\<lambda>_ _ _. Inr sampleSchema),
      imp_ReadTable = (\<lambda>_ _ offset limit _. Inl ''connection lost''),
      imp_ReadTableCount = (\<lambda>_ _ _. Inr (int (length rows)))\<rparr>"

definition sampleConfig :: ImportConfig where
  "sampleConfig =
     \<lparr>ic_SourceType = ''mysql'', ic_SourceDSN = ''db'', ic_SourceDB = ''d'', ic_SourceTable = ''t'', ic_TargetTable = [], ic_BatchSize = 2,
      ic_Overwrite = False, ic_CreateTable = False\<rparr>"

definition sampleManager :: "(unit, unit) ImportManager" where
  "sampleManager =
     RegisterImporter ''mysql'' (brokenImporter [[GInt 1], [GInt 2], [GInt 3]]) (NewImportManager (sampleEngine sampleStorage) ())"

lemma sample_import:
  "\<exists>m'. ImportTable sampleEngEnv (\<lambda>_. []) sampleConfig sampleManager
   = (m', Inr \<lparr>ir_TablesImported = 1, ir_RowsImported = 0, ir_Errors = [BatchRead 0 ''connection lost'', BatchRead 1 ''connection lost'']\<rparr>)"
  by (simp add: ImportTable_def withConnection_def importConnected_def importRows_def sampleManager_def RegisterImporter_def NewImportManager_def
      sampleConfig_def brokenImporter_def bindS_def returnS_def batches.simps Let_def setSkipSave_def)


end
