(* ===== verification/Shell.thy ===== *)
theory Shell
  imports Driver Importer
begin

text \<open>
  \<^verbatim>\<open>src/cmd/xxldb/main.go\<close>: the parts of the command line tool that decide something. The text of a session is split into statements, each one is run
  through the driver and its result printed; a dump of MySQL is read line by line, converted and executed. Regular expressions are a
  parameter: \<open>re_Replace\<close> and \<open>re_Group\<close> are \<^verbatim>\<open>ReplaceAllString\<close> and the first group of \<^verbatim>\<open>FindStringSubmatch\<close>. The messages of the import are left out.
  Shown: statements whose text literals are closed, joined by semicolons, are split into exactly these statements.
\<close>

section \<open>Splitting\<close>

abbreviation single_quote :: char where "single_quote \<equiv> CHR 0x27"
abbreviation double_quote :: char where "double_quote \<equiv> CHR 0x22"

definition addStatement :: "go_rt \<Rightarrow> string list \<Rightarrow> string \<Rightarrow> string list" where
  "addStatement rt stmts cur = (if TrimSpace rt cur \<noteq> [] then stmts @ [TrimSpace rt cur] else stmts)"

text \<open>The third argument is \<^verbatim>\<open>stringChar\<close> when \<^verbatim>\<open>inString\<close> holds.\<close>

function splitLoop :: "go_rt \<Rightarrow> string list \<Rightarrow> char option \<Rightarrow> string \<Rightarrow> string \<Rightarrow> string list" where
  "splitLoop rt stmts q cur [] = addStatement rt stmts cur"
| "splitLoop rt stmts q cur (c # sql) =
     (if c = single_quote \<or> c = double_quote then
        (case q of
           None \<Rightarrow> splitLoop rt stmts (Some c) (cur @ [c]) sql
         | Some d \<Rightarrow>
             if c = d then
               (if sql \<noteq> [] \<and> hd sql = c then splitLoop rt stmts q (cur @ [c, c]) (tl sql)
                else splitLoop rt stmts None (cur @ [c]) sql)
             else splitLoop rt stmts q (cur @ [c]) sql)
      else if q \<noteq> None then splitLoop rt stmts q (cur @ [c]) sql
      else if c = CHR '';'' then splitLoop rt (addStatement rt stmts cur) None [] sql
      else splitLoop rt stmts None (cur @ [c]) sql)"
  by pat_completeness auto
termination
  by (relation "measure (\<lambda>(rt, stmts, q, cur, sql). length sql)") auto

definition splitStatements :: "go_rt \<Rightarrow> string \<Rightarrow> string list" where
  "splitStatements rt sql = splitLoop rt [] None [] sql"

section \<open>Running statements\<close>

definition cellText :: "go_rt \<Rightarrow> godata \<Rightarrow> string" where
  "cellText rt d = (if d = GNil then ''NULL'' else fmt_v rt d)"

definition printRows :: "go_rt \<Rightarrow> string list \<Rightarrow> godata list list \<Rightarrow> string" where
  "printRows rt columns rows =
     (let widths = fold (\<lambda>row ws. map (\<lambda>(w, d). max w (length (cellText rt d))) (zip ws row)) rows (map length columns)
      in concat (map (\<lambda>l. l @ [newline])
           ([ruleLine widths, cellLine widths columns, ruleLine widths] @ map (\<lambda>row. cellLine widths (map (cellText rt) row)) rows
            @ [ruleLine widths]))
         @ dec_nat (length rows) @ '' rows'' @ [newline])"

definition isQuery :: "go_rt \<Rightarrow> string \<Rightarrow> bool" where
  "isQuery rt stmt = list_ex (hasPrefix (ToUpper rt stmt)) [''SELECT'', ''SHOW'', ''DESCRIBE'', ''EXPLAIN'']"

text \<open>The value is the printed text. A panic of the engine ends the program.\<close>

definition reportError :: "(driver_error \<Rightarrow> string) \<Rightarrow> driver_error \<Rightarrow> ('s, sql_error, string) go_method" where
  "reportError errText e =
     (case e of ErrSql err \<Rightarrow> if stops err then failS err else returnS (''Error: '' @ errText e @ [newline]) | _ \<Rightarrow> returnS (''Error: '' @ errText e @ [newline]))"

definition runOne :: "'w eng_env \<Rightarrow> (driver_error \<Rightarrow> string) \<Rightarrow> string \<Rightarrow> ('w xxldbConn, sql_error, string) go_method" where
  "runOne env errText stmt c =
     (if isQuery (ert env) stmt then
        (case Stmt_Query env stmt [] c of
           (c, Inl e) \<Rightarrow> reportError errText e c
         | (c, Inr rows) \<Rightarrow>
             let columns = res_Columns (rw_result rows);
                 data = fst (fetchRows (length (res_Rows (rw_result rows)) + 1) (replicate (length columns) GNil) rows)
             in returnS (printRows (ert env) columns data) c)
      else
        (case Stmt_Exec env stmt [] c of
           (c, Inl e) \<Rightarrow> reportError errText e c
         | (c, Inr (lastInsertID, rowsAffected)) \<Rightarrow>
             returnS (''Rows affected: '' @ dec_int (sint rowsAffected) @ [newline]
               @ (if 0 <s lastInsertID then ''Last insert ID: '' @ dec_int (sint lastInsertID) @ [newline] else [])) c))"

fun runStatements :: "'w eng_env \<Rightarrow> (driver_error \<Rightarrow> string) \<Rightarrow> string list \<Rightarrow> ('w xxldbConn, sql_error, string) go_method" where
  "runStatements env errText [] = returnS []"
| "runStatements env errText (stmt # stmts) =
     bindS (runOne env errText stmt) (\<lambda>t. bindS (runStatements env errText stmts) (\<lambda>ts. returnS (t @ ts)))"

definition executeStatement :: "'w eng_env \<Rightarrow> (driver_error \<Rightarrow> string) \<Rightarrow> string \<Rightarrow> ('w xxldbConn, sql_error, string) go_method" where
  "executeStatement env errText sql = runStatements env errText (splitStatements (ert env) sql)"

section \<open>Data source names of the options\<close>

definition buildSSHDSN :: "string \<Rightarrow> u64 \<Rightarrow> string \<Rightarrow> string \<Rightarrow> string \<Rightarrow> string \<Rightarrow> string" where
  "buildSSHDSN host port user password key dbPath =
     ''ssh://'' @ user @ (if password \<noteq> [] then '':'' @ password else []) @ ''@'' @ host @ '':'' @ dec_int (sint port) @ ''/'' @ dbPath
     @ (if key \<noteq> [] then ''?private_key='' @ key else [])"

definition buildSMBDSN :: "string \<Rightarrow> u64 \<Rightarrow> string \<Rightarrow> string \<Rightarrow> string \<Rightarrow> string \<Rightarrow> string \<Rightarrow> string" where
  "buildSMBDSN host port share user password domain dbPath =
     ''smb://'' @ user @ '':'' @ password @ ''@'' @ host @ '':'' @ dec_int (sint port) @ ''/'' @ share @ ''/'' @ dbPath
     @ (if domain \<noteq> [] then ''?domain='' @ domain else [])"

definition buildWebDAVDSN :: "string \<Rightarrow> string \<Rightarrow> string \<Rightarrow> string \<Rightarrow> string" where
  "buildWebDAVDSN url user password dbPath =
     (if hasPrefix url ''https://''
      then ''webdavs://'' @ user @ '':'' @ password @ ''@'' @ TrimPrefix url ''https://'' @ ''/'' @ dbPath
      else ''webdav://'' @ user @ '':'' @ password @ ''@'' @ TrimPrefix url ''http://'' @ ''/'' @ dbPath)"

section \<open>Dumps of MySQL\<close>

record go_re =
  re_Replace :: "string \<Rightarrow> string \<Rightarrow> string \<Rightarrow> string"
  re_Group :: "string \<Rightarrow> string \<Rightarrow> string option"

abbreviation backtick :: char where "backtick \<equiv> CHR 0x60"
abbreviation backslash :: char where "backslash \<equiv> CHR 0x5C"

definition replaceEach :: "go_re \<Rightarrow> (string \<times> string) list \<Rightarrow> string \<Rightarrow> string" where
  "replaceEach re rules s = foldl (\<lambda>s (pattern, repl). re_Replace re pattern s repl) s rules"

definition drops :: "string list \<Rightarrow> (string \<times> string) list" where
  "drops patterns = map (\<lambda>p. (p, [])) patterns"

text \<open>A pattern is written with \<^verbatim>\<open>#\<close> for a backslash and \<^verbatim>\<open>~\<close> for a single quote; \<open>pat\<close> puts them in.\<close>

definition pat :: "string \<Rightarrow> string" where
  "pat s = map (\<lambda>c. if c = CHR ''#'' then backslash else if c = CHR ''~'' then single_quote else c) s"

definition tableRules :: "(string \<times> string) list" where
  "tableRules =
     drops (map pat [''(?i)ENGINE=#w+'', ''(?i)DEFAULT CHARSET=#w+'', ''(?i)COLLATE=#w+'', ''(?i)CHARACTER SET #w+'', ''(?i)COLLATE #w+'',
       ''(?i)AUTO_INCREMENT=#d+'', ''(?i)COMMENT=~[^~]*~'', ''(?i)ROW_FORMAT=#w+'', ''(?i)AVG_ROW_LENGTH=#d+'', ''(?i)MAX_ROWS=#d+'',
       ''(?i)MIN_ROWS=#d+'', ''(?i)DATA DIRECTORY=~[^~]*~'', ''(?i)INDEX DIRECTORY=~[^~]*~'', ''(?i)PACK_KEYS=#d'', ''(?i)CHECKSUM=#d'',
       ''(?i)DELAY_KEY_WRITE=#d'', ''(?i)STATS_PERSISTENT=#w+'', ''(?i)STATS_AUTO_RECALC=#w+'', ''(?i)STATS_SAMPLE_PAGES=#d+'',
       ''(?i)ROW_FORMAT #w+'', ''(?i)KEY_BLOCK_SIZE=#d+''])
     @ [(pat ''(?i)UNIQUE KEY #w+ #('', ''UNIQUE (''), (pat ''(?i),?#s*KEY #w+ #([^)]+#)'', []), ('' +'', '' '')]"

definition lineRules :: "(string \<times> string) list" where
  "lineRules =
     drops (map pat [''(?i) COLLATE #w+'', ''(?i) CHARACTER SET #w+''])
     @ [(pat ''(?i)UNIQUE KEY #w+ #('', ''UNIQUE ('')]
     @ drops (map pat [''(?i)KEY #w+ #([^)]+#)'', ''(?i)ENGINE=#w+'', ''(?i)DEFAULT CHARSET=#w+'', ''(?i)COLLATE=#w+'', ''(?i)AUTO_INCREMENT=#d+'',
         ''(?i)ROW_FORMAT=#w+'', ''(?i)COMMENT=~[^~]*~''])
     @ map (\<lambda>p. (pat p, ''INT'')) [''(?i)tinyint(#(#d+#))?'', ''(?i)smallint(#(#d+#))?'', ''(?i)mediumint(#(#d+#))?'', ''(?i)bigint(#(#d+#))?'']
     @ map (\<lambda>p. (pat p, ''FLOAT''))
         [''(?i)double(#(#d+,#d+#))?'', ''(?i)float(#(#d+,#d+#))?'', ''(?i)decimal(#(#d+,#d+#))?'', ''(?i)numeric(#(#d+,#d+#))?'']
     @ drops (map pat [''(?i) unsigned'', ''(?i) zerofill'', ''(?i) DEFAULT CURRENT_TIMESTAMP(#(#))?'', ''(?i) ON UPDATE CURRENT_TIMESTAMP(#(#))?'', ''(?i) COMMENT ~[^~]*~''])
     @ [('' +'', '' '')]"

definition convertCreateTable :: "go_re \<Rightarrow> string \<Rightarrow> string" where
  "convertCreateTable re line =
     ReplaceAll (ReplaceAll (ReplaceAll (replaceEach re tableRules (ReplaceAll line [backtick] [])) '' ,'' '','') ''( '' ''('') '' )'' '')''"

definition convertCreateTableLine :: "go_rt \<Rightarrow> go_re \<Rightarrow> string \<Rightarrow> string" where
  "convertCreateTableLine rt re line = TrimSpace rt (replaceEach re lineRules (ReplaceAll line [backtick] []))"

definition convertInsertStatement :: "string \<Rightarrow> string" where
  "convertInsertStatement line =
     foldl (\<lambda>s (old, new). ReplaceAll s old new) line
       [([backtick], []), ([backslash, single_quote], [single_quote, single_quote]), ([backslash, double_quote], [double_quote, double_quote]),
        ([backslash, backslash], [backslash]), ([backslash, CHR ''n''], [char_of (10 :: nat)]), ([backslash, CHR ''r''], [char_of (13 :: nat)]),
        ([backslash, CHR ''t''], [char_of (9 :: nat)])]"

text \<open>The variables of the loop over the lines\<close>

record sqlImport =
  si_currentStmt :: string
  si_inCreateTable :: bool
  si_createTableName :: string
  si_tablesCreated :: nat
  si_rowsInserted :: int

type_synonym ('w, 'a) sql_import = "(sqlImport \<times> 'w xxldbConn, sql_error, 'a) go_method"

definition execText :: "'w eng_env \<Rightarrow> string \<Rightarrow> ('w, (u64 \<times> u64) option) sql_import" where
  "execText env stmt sc =
     (case sc of (st, c) \<Rightarrow>
        case Stmt_Exec env stmt [] c of
          (c, Inl (ErrSql err)) \<Rightarrow> ((st, c), if stops err then Inl err else Inr None)
        | (c, Inl _) \<Rightarrow> ((st, c), Inr None)
        | (c, Inr r) \<Rightarrow> ((st, c), Inr (Some r)))"

text \<open>The value tells whether the statement failed; an empty one does not.\<close>

definition executeImportStatement :: "'w eng_env \<Rightarrow> string \<Rightarrow> ('w, bool) sql_import" where
  "executeImportStatement env stmt =
     (let s = TrimSpace (ert env) stmt
      in if s = [] \<or> s = '';'' then returnS False else bindS (execText env s) (\<lambda>r. returnS (r = None)))"

definition updImport :: "(sqlImport \<Rightarrow> sqlImport) \<Rightarrow> ('w, unit) sql_import" where
  "updImport f sc = (apfst f sc, Inr ())"

definition pendingStmt :: "('w, string) sql_import" where
  "pendingStmt sc = (sc, Inr (si_currentStmt (fst sc)))"

definition runPending :: "'w eng_env \<Rightarrow> ('w, bool) sql_import" where
  "runPending env =
     bindS pendingStmt (\<lambda>stmt. bindS (executeImportStatement env stmt) (\<lambda>failed.
       bindS (updImport (\<lambda>st. st\<lparr>si_currentStmt := []\<rparr>)) (\<lambda>_. returnS failed)))"

definition addText :: "string \<Rightarrow> ('w, unit) sql_import" where
  "addText t = updImport (\<lambda>st. st\<lparr>si_currentStmt := si_currentStmt st @ t\<rparr>)"

text \<open>A line of CREATE TABLE has been added: with a semicolon at its end the statement is complete.\<close>

definition endCreateLine :: "'w eng_env \<Rightarrow> string \<Rightarrow> ('w, unit) sql_import" where
  "endCreateLine env trimmed =
     (if hasSuffix trimmed '';''
      then bindS (updImport (\<lambda>st. st\<lparr>si_inCreateTable := False\<rparr>)) (\<lambda>_. bindS (runPending env) (\<lambda>failed.
             updImport (\<lambda>st. if failed then st else st\<lparr>si_tablesCreated := si_tablesCreated st + 1\<rparr>)))
      else addText [newline])"

definition skippedLine :: "string \<Rightarrow> bool" where
  "skippedLine trimmed \<longleftrightarrow>
     trimmed = [] \<or> list_ex (hasPrefix trimmed) [''--'', ''/*'', ''*/'', ''SET '', ''/*!'', ''LOCK TABLES'', ''UNLOCK TABLES'']
     \<or> hasPrefix trimmed ''ALTER TABLE'' \<and> hasText trimmed ''KEYS''"

definition dropLine :: "'w eng_env \<Rightarrow> go_re \<Rightarrow> string \<Rightarrow> ('w, unit) sql_import" where
  "dropLine env re trimmed =
     (case re_Group re (''DROP TABLE IF EXISTS '' @ [backtick] @ ''?([^'' @ [backtick, backslash] @ ''s;]+)'' @ [backtick] @ ''?'') trimmed of
        None \<Rightarrow> returnS ()
      | Some name \<Rightarrow> bindS (execText env (''DROP TABLE IF EXISTS '' @ name)) (\<lambda>_. returnS ()))"

definition createLine :: "'w eng_env \<Rightarrow> go_re \<Rightarrow> string \<Rightarrow> ('w, unit) sql_import" where
  "createLine env re trimmed =
     bindS (updImport (\<lambda>st. st\<lparr>si_inCreateTable := True,
              si_createTableName := (case re_Group re (''CREATE TABLE '' @ [backtick] @ ''?([^'' @ [backtick, backslash] @ ''s(]+)'' @ [backtick] @ ''?'') trimmed of
                Some name \<Rightarrow> name | None \<Rightarrow> si_createTableName st)\<rparr>)) (\<lambda>_.
       bindS (addText (convertCreateTable re trimmed)) (\<lambda>_. endCreateLine env trimmed))"

definition insertLine :: "'w eng_env \<Rightarrow> string \<Rightarrow> ('w, unit) sql_import" where
  "insertLine env trimmed =
     bindS (execText env (convertInsertStatement trimmed)) (\<lambda>r.
       case r of
         None \<Rightarrow> returnS ()
       | Some (_, n) \<Rightarrow> updImport (\<lambda>st. st\<lparr>si_rowsInserted := si_rowsInserted st + sint n\<rparr>))"

definition otherLine :: "'w eng_env \<Rightarrow> string \<Rightarrow> string \<Rightarrow> ('w, unit) sql_import" where
  "otherLine env line trimmed =
     bindS (addText line) (\<lambda>_.
       if hasSuffix trimmed '';'' then bindS (runPending env) (\<lambda>_. returnS ()) else addText '' '')"

definition importLine :: "'w eng_env \<Rightarrow> go_re \<Rightarrow> string \<Rightarrow> ('w, unit) sql_import" where
  "importLine env re line sc =
     (let trimmed = TrimSpace (ert env) line
      in if skippedLine trimmed then (sc, Inr ())
         else if hasPrefix trimmed ''CREATE TABLE'' \<or> hasPrefix trimmed ''DROP TABLE''
         then bindS (if si_currentStmt (fst sc) \<noteq> [] then runPending env else returnS False) (\<lambda>_.
                if hasPrefix trimmed ''DROP TABLE'' then dropLine env re trimmed else createLine env re trimmed) sc
         else if si_inCreateTable (fst sc)
         then bindS (addText (convertCreateTableLine (ert env) re trimmed)) (\<lambda>_. endCreateLine env trimmed) sc
         else if hasPrefix trimmed ''INSERT INTO'' then insertLine env trimmed sc
         else otherLine env line trimmed sc)"

fun importLines :: "'w eng_env \<Rightarrow> go_re \<Rightarrow> string list \<Rightarrow> ('w, unit) sql_import" where
  "importLines env re [] = returnS ()"
| "importLines env re (line # rest) = bindS (importLine env re line) (\<lambda>_. importLines env re rest)"

text \<open>\<open>rest\<close> are the lines that the scanner returns; the value is what the import counts.\<close>

definition handleImportSQL :: "'w eng_env \<Rightarrow> go_re \<Rightarrow> string list \<Rightarrow> ('w xxldbConn, sql_error, nat \<times> int) go_method" where
  "handleImportSQL env re fileLines c =
     (case importLines env re fileLines
             (\<lparr>si_currentStmt = [], si_inCreateTable = False, si_createTableName = [], si_tablesCreated = 0, si_rowsInserted = 0\<rparr>, c) of
        ((st, c), Inl e) \<Rightarrow> (c, Inl e)
      | ((st, c), Inr _) \<Rightarrow> (c, Inr (si_tablesCreated st, si_rowsInserted st)))"

section \<open>Statements are found\<close>

text \<open>\<open>scan q s\<close>: the state of the quotes after \<open>s\<close>, \<open>None\<close> when a semicolon stands outside of them. A statement is closed when it leaves no text open.\<close>

fun scan :: "char option \<Rightarrow> string \<Rightarrow> char option option" where
  "scan q [] = Some q"
| "scan q (c # s) =
     (if c = single_quote \<or> c = double_quote
      then scan (case q of None \<Rightarrow> Some c | Some d \<Rightarrow> if c = d then None else q) s
      else if q = None \<and> c = CHR '';'' then None
      else scan q s)"

definition closedStatement :: "go_rt \<Rightarrow> string \<Rightarrow> bool" where
  "closedStatement rt s \<longleftrightarrow> s \<noteq> [] \<and> TrimSpace rt s = s \<and> scan None s = Some None"

text \<open>Two quotes in a row close a text and open it again, which leaves the state of the quotes as the code does.\<close>

lemma splitLoop_scan:
  assumes "scan q s = Some q'" "q' \<noteq> None \<or> rest = [] \<or> hd rest = CHR '';''"
  shows "splitLoop rt stmts q cur (s @ rest) = splitLoop rt stmts q' (cur @ s) rest"
  using assms
proof (induction s arbitrary: q cur rule: length_induct)
  case (1 s)
  note IH = 1(1) [rule_format] and scan = 1(2) and rest = 1(3)
  show ?case
  proof (cases s)
    case Nil
    then show ?thesis using scan by simp
  next
    case (Cons c t)
    consider (qopen) "c = single_quote \<or> c = double_quote" "q = None"
      | (qclose) "c = single_quote \<or> c = double_quote" "q = Some c"
      | (qother) d where "c = single_quote \<or> c = double_quote" "q = Some d" "d \<noteq> c"
      | (qin) d where "\<not> (c = single_quote \<or> c = double_quote)" "q = Some d"
      | (qout) "\<not> (c = single_quote \<or> c = double_quote)" "q = None" "c \<noteq> CHR '';''"
      using scan Cons by (cases q) (auto split: if_splits)
    then show ?thesis
    proof cases
      case qclose
      show ?thesis
      proof (cases "t \<noteq> [] \<and> hd t = c")
        case True
        then obtain u where t: "t = c # u" by (cases t) auto
        then have "scan q u = Some q'" using scan Cons qclose by simp
        then show ?thesis using IH [of u q "cur @ [c, c]"] rest Cons t qclose by simp
      next
        case False
        then have "\<not> (t @ rest \<noteq> [] \<and> hd (t @ rest) = c)"
          using scan Cons qclose rest by (cases t) auto
        moreover have "scan None t = Some q'" using scan Cons qclose by simp
        ultimately show ?thesis using IH [of t None "cur @ [c]"] rest Cons qclose by auto
      qed
    qed (use IH [of t _ "cur @ [c]"] scan rest Cons in auto)
  qed
qed

lemma splitLoop_joined:
  assumes "list_all (closedStatement rt) ss"
  shows "splitLoop rt stmts None [] (concat (map (\<lambda>s. s @ '';'') ss)) = stmts @ ss"
  using assms
proof (induction ss arbitrary: stmts)
  case Nil
  show ?case by (simp add: addStatement_def TrimSpace_def)
next
  case (Cons s ss)
  then have s: "closedStatement rt s" by simp
  have "splitLoop rt stmts None [] (s @ '';'' @ concat (map (\<lambda>s. s @ '';'') ss))
    = splitLoop rt stmts None s ('';'' @ concat (map (\<lambda>s. s @ '';'') ss))"
    using splitLoop_scan [of None s None "'';'' @ concat (map (\<lambda>s. s @ '';'') ss)" rt stmts "[]"] s by (simp add: closedStatement_def)
  also have "\<dots> = splitLoop rt (stmts @ [s]) None [] (concat (map (\<lambda>s. s @ '';'') ss))"
    using s by (simp add: closedStatement_def addStatement_def)
  finally show ?case using Cons.IH [of "stmts @ [s]"] Cons.prems by simp
qed

text \<open>
  The command line tool finds the statements of a text: when every statement has its text literals closed, has no semicolon outside of
  them and no spaces around it, then splitting the statements followed by semicolons gives exactly these statements, in order, semicolons
  and doubled quotes inside of text literals included.
\<close>
lemma split_finds_statements:
  assumes "list_all (closedStatement rt) ss"
  shows "splitStatements rt (concat (map (\<lambda>s. s @ '';'') ss)) = ss"
  using splitLoop_joined [OF assms, of "[]"] by (simp add: splitStatements_def)

end
