(* ===== verification/Transfers.thy ===== *)
theory Transfers
  imports Storage
begin

text \<open>
  \<^verbatim>\<open>src/storage/transfer.go\<close>: the record of file transfers that can be resumed. The methods hold the lock of the record for their whole duration. The
  clock and the JSON functions are parameters; \<open>tr_files\<close> are the files of the file system, which may refuse to write. Shown: the record is
  an entry per transfer, none of them complete; whatever was saved last is what a new process finds; the progress of a transfer is not
  saved by itself, so that a transfer which was only updated cannot be resumed by another process.
\<close>

section \<open>State\<close>

datatype TransferStatus = TransferStatusPending | TransferStatusUploading | TransferStatusComplete | TransferStatusFailed

record TransferInfo =
  ti_ID :: string
  ti_SourcePath :: string
  ti_TargetPath :: string
  ti_TempPath :: string
  ti_TotalSize :: u64
  ti_Transferred :: u64
  ti_Checksum :: string
  ti_Status :: TransferStatus
  ti_StartedAt :: int
  ti_UpdatedAt :: int
  ti_Error :: string
  ti_Retries :: u64

record tr_env =
  tr_enc :: "TransferInfo list \<Rightarrow> bytes"
  tr_dec :: "bytes \<Rightarrow> TransferInfo list option"
  tr_now :: int
  tr_writable :: "string \<Rightarrow> bool"

record TransferState =
  tr_transfers :: "(string, TransferInfo) gomap"
  tr_stateFile :: string
  tr_fs :: bool
  tr_files :: "(string, bytes) gomap"

section \<open>Operations\<close>

definition transfer_load :: "tr_env \<Rightarrow> TransferState \<Rightarrow> TransferState" where
  "transfer_load env ts =
     (if \<not> tr_fs ts \<or> tr_stateFile ts = [] then ts
      else case Option.bind (map_of (tr_files ts) (tr_stateFile ts)) (tr_dec env) of
             None \<Rightarrow> ts
           | Some infos \<Rightarrow> ts\<lparr>tr_transfers := fold (\<lambda>t m. put_key (ti_ID t) t m) infos (tr_transfers ts)\<rparr>)"

definition transfer_save :: "tr_env \<Rightarrow> TransferState \<Rightarrow> TransferState" where
  "transfer_save env ts =
     (if \<not> tr_fs ts \<or> tr_stateFile ts = [] \<or> \<not> tr_writable env (tr_stateFile ts) then ts
      else ts\<lparr>tr_files := put_key (tr_stateFile ts) (tr_enc env (map snd (tr_transfers ts))) (tr_files ts)\<rparr>)"

definition NewTransferState :: "tr_env \<Rightarrow> bool \<Rightarrow> string \<Rightarrow> (string, bytes) gomap \<Rightarrow> TransferState" where
  "NewTransferState env fs stateFile files =
     transfer_load env \<lparr>tr_transfers = [], tr_stateFile = stateFile, tr_fs = fs, tr_files = files\<rparr>"

definition putInfo :: "string \<Rightarrow> TransferInfo \<Rightarrow> TransferState \<Rightarrow> TransferState" where
  "putInfo i info ts = ts\<lparr>tr_transfers := put_key i info (tr_transfers ts)\<rparr>"

definition dropInfo :: "string \<Rightarrow> TransferState \<Rightarrow> TransferState" where
  "dropInfo i ts = ts\<lparr>tr_transfers := del_key i (tr_transfers ts)\<rparr>"

definition BeginTransfer :: "tr_env \<Rightarrow> string \<Rightarrow> string \<Rightarrow> string \<Rightarrow> string \<Rightarrow> u64 \<Rightarrow> TransferState \<Rightarrow> TransferState" where
  "BeginTransfer env i source target temp totalSize ts =
     transfer_save env (putInfo i
       \<lparr>ti_ID = i, ti_SourcePath = source, ti_TargetPath = target, ti_TempPath = temp, ti_TotalSize = totalSize, ti_Transferred = 0,
        ti_Checksum = [], ti_Status = TransferStatusPending, ti_StartedAt = tr_now env, ti_UpdatedAt = tr_now env, ti_Error = [],
        ti_Retries = 0\<rparr> ts)"

definition UpdateProgress :: "tr_env \<Rightarrow> string \<Rightarrow> u64 \<Rightarrow> TransferState \<Rightarrow> TransferState" where
  "UpdateProgress env i transferred ts =
     (case map_of (tr_transfers ts) i of
        None \<Rightarrow> ts
      | Some info \<Rightarrow>
          putInfo i (info\<lparr>ti_Transferred := transferred, ti_Status := TransferStatusUploading, ti_UpdatedAt := tr_now env\<rparr>) ts)"

definition CompleteTransfer :: "tr_env \<Rightarrow> string \<Rightarrow> TransferState \<Rightarrow> TransferState" where
  "CompleteTransfer env i ts = (if has_key i (tr_transfers ts) then transfer_save env (dropInfo i ts) else ts)"

definition FailTransfer :: "tr_env \<Rightarrow> string \<Rightarrow> string \<Rightarrow> TransferState \<Rightarrow> TransferState" where
  "FailTransfer env i err ts =
     (case map_of (tr_transfers ts) i of
        None \<Rightarrow> ts
      | Some info \<Rightarrow>
          transfer_save env (putInfo i (info\<lparr>ti_Status := TransferStatusFailed, ti_Error := err, ti_UpdatedAt := tr_now env\<rparr>) ts))"

definition GetTransfer :: "string \<Rightarrow> TransferState \<Rightarrow> TransferInfo option" where
  "GetTransfer i ts = map_of (tr_transfers ts) i"

definition GetPendingTransfers :: "TransferState \<Rightarrow> TransferInfo list" where
  "GetPendingTransfers ts = filter (\<lambda>info. ti_Status info \<noteq> TransferStatusComplete) (map snd (tr_transfers ts))"

text \<open>
  \<open>removable\<close> tells which files can be removed; the file system passed to the method is the one of the record. The value is the list of the
  temporary files that could not be removed.
\<close>

definition stale :: "TransferInfo \<Rightarrow> bool" where
  "stale info \<longleftrightarrow> ti_Status info = TransferStatusFailed \<or> ti_Status info = TransferStatusPending"

fun removeTemps :: "(string \<Rightarrow> bool) \<Rightarrow> string list \<Rightarrow> (string, bytes) gomap \<Rightarrow> (string, bytes) gomap \<times> string list" where
  "removeTemps removable [] files = (files, [])"
| "removeTemps removable (path # paths) files =
     (if path = [] then removeTemps removable paths files
      else if removable path \<and> has_key path files then removeTemps removable paths (del_key path files)
      else map_prod id (Cons path) (removeTemps removable paths files))"

definition CleanupIncomplete :: "tr_env \<Rightarrow> (string \<Rightarrow> bool) \<Rightarrow> TransferState \<Rightarrow> TransferState \<times> string list" where
  "CleanupIncomplete env removable ts =
     (case removeTemps removable (map ti_TempPath (filter stale (map snd (tr_transfers ts)))) (tr_files ts) of
        (files, failures) \<Rightarrow>
          (transfer_save env (ts\<lparr>tr_transfers := filter (\<lambda>(_, info). \<not> stale info) (tr_transfers ts), tr_files := files\<rparr>), failures))"

definition CleanupOldTransfers :: "tr_env \<Rightarrow> int \<Rightarrow> TransferState \<Rightarrow> TransferState \<times> nat" where
  "CleanupOldTransfers env maxAge ts =
     (let kept = filter (\<lambda>(_, info). \<not> maxAge < tr_now env - ti_StartedAt info) (tr_transfers ts);
          cleaned = length (tr_transfers ts) - length kept;
          ts' = ts\<lparr>tr_transfers := kept\<rparr>
      in (if 0 < cleaned then transfer_save env ts' else ts', cleaned))"

definition IncrementRetry :: "tr_env \<Rightarrow> string \<Rightarrow> TransferState \<Rightarrow> TransferState \<times> u64" where
  "IncrementRetry env i ts =
     (case map_of (tr_transfers ts) i of
        None \<Rightarrow> (ts, 0)
      | Some info \<Rightarrow>
          (transfer_save env (putInfo i (info\<lparr>ti_Retries := ti_Retries info + 1, ti_UpdatedAt := tr_now env\<rparr>) ts), ti_Retries info + 1))"

definition CanRetry :: "string \<Rightarrow> u64 \<Rightarrow> TransferState \<Rightarrow> bool" where
  "CanRetry i maxRetries ts = (case map_of (tr_transfers ts) i of None \<Rightarrow> False | Some info \<Rightarrow> ti_Retries info <s maxRetries)"

definition GetResumeInfo :: "string \<Rightarrow> TransferState \<Rightarrow> (u64 \<times> string) option" where
  "GetResumeInfo i ts =
     (case map_of (tr_transfers ts) i of
        None \<Rightarrow> None
      | Some info \<Rightarrow>
          if ti_Status info = TransferStatusUploading \<and> 0 <s ti_Transferred info then Some (ti_Transferred info, ti_TempPath info) else None)"

definition transfer_Count :: "TransferState \<Rightarrow> nat" where
  "transfer_Count ts = length (tr_transfers ts)"

definition CountByStatus :: "TransferStatus \<Rightarrow> TransferState \<Rightarrow> nat" where
  "CountByStatus status ts = length (filter (\<lambda>info. ti_Status info = status) (map snd (tr_transfers ts)))"

section \<open>Reachable states\<close>

inductive transfer_step :: "TransferState \<Rightarrow> TransferState \<Rightarrow> bool" where
  began: "transfer_step ts (BeginTransfer env i source target temp n ts)"
| progress: "transfer_step ts (UpdateProgress env i n ts)"
| completed: "transfer_step ts (CompleteTransfer env i ts)"
| failed: "transfer_step ts (FailTransfer env i err ts)"
| cleaned: "transfer_step ts (fst (CleanupIncomplete env removable ts))"
| expired: "transfer_step ts (fst (CleanupOldTransfers env age ts))"
| retried: "transfer_step ts (fst (IncrementRetry env i ts))"

definition transfers_ok :: "(string, TransferInfo) gomap \<Rightarrow> bool" where
  "transfers_ok m \<longleftrightarrow> distinct (keys_of m) \<and> list_all (\<lambda>(i, info). ti_ID info = i \<and> ti_Status info \<noteq> TransferStatusComplete) m"

lemma transfer_save_transfers [simp]: "tr_transfers (transfer_save env ts) = tr_transfers ts"
  by (simp add: transfer_save_def)

lemma transfers_ok_put:
  "transfers_ok m \<Longrightarrow> ti_ID info = i \<Longrightarrow> ti_Status info \<noteq> TransferStatusComplete \<Longrightarrow> transfers_ok (put_key i info m)"
  using set_put_key_subset [of i info m] by (auto simp: transfers_ok_def list_all_iff gomap)

lemma transfers_ok_del: "transfers_ok m \<Longrightarrow> transfers_ok (del_key i m)"
  by (auto simp: transfers_ok_def list_all_iff set_del_key gomap distinct_removeAll)

lemma transfers_ok_filter: "transfers_ok m \<Longrightarrow> transfers_ok (filter P m)"
  by (auto simp: transfers_ok_def list_all_iff distinct_map_filter)

lemma transfers_okD: "transfers_ok m \<Longrightarrow> map_of m i = Some info \<Longrightarrow> ti_ID info = i \<and> ti_Status info \<noteq> TransferStatusComplete"
  by (auto simp: transfers_ok_def list_all_iff dest!: map_of_SomeD)

lemma transfer_step_ok: "transfer_step ts ts' \<Longrightarrow> transfers_ok (tr_transfers ts) \<Longrightarrow> transfers_ok (tr_transfers ts')"
  by (induction rule: transfer_step.induct)
    (auto simp: BeginTransfer_def UpdateProgress_def CompleteTransfer_def FailTransfer_def CleanupIncomplete_def CleanupOldTransfers_def
      IncrementRetry_def putInfo_def dropInfo_def Let_def intro!: transfers_ok_put transfers_ok_del transfers_ok_filter
      dest: transfers_okD split: option.split prod.split)

text \<open>Between the operations an entry is never complete: a transfer is complete when it is gone.\<close>

lemma transfer_reachable_ok:
  assumes "transfer_step\<^sup>*\<^sup>* ts ts'" "transfers_ok (tr_transfers ts)"
  shows "transfers_ok (tr_transfers ts') \<and> GetPendingTransfers ts' = map snd (tr_transfers ts') \<and> CountByStatus TransferStatusComplete ts' = 0"
proof -
  from assms have ok: "transfers_ok (tr_transfers ts')" by (induction rule: rtranclp_induct) (auto intro: transfer_step_ok)
  then have "\<forall>info \<in> set (map snd (tr_transfers ts')). ti_Status info \<noteq> TransferStatusComplete"
    by (auto simp: transfers_ok_def list_all_iff)
  with ok show ?thesis by (simp add: GetPendingTransfers_def CountByStatus_def filter_empty_conv filter_id_conv)
qed

section \<open>Another process\<close>

lemma fold_put_infos:
  assumes "distinct (map ti_ID infos @ keys_of m)"
  shows "fold (\<lambda>t m. put_key (ti_ID t) t m) infos m = m @ map (\<lambda>t. (ti_ID t, t)) infos"
  using assms
proof (induction infos arbitrary: m)
  case (Cons t infos)
  then have "put_key (ti_ID t) t m = m @ [(ti_ID t, t)]" by (induction m) auto
  with Cons show ?case by simp
qed simp

lemma saved_transfers_found:
  assumes "transfers_ok (tr_transfers ts)" "tr_fs ts" "tr_stateFile ts \<noteq> []" "tr_writable env (tr_stateFile ts)"
    and "tr_dec env (tr_enc env (map snd (tr_transfers ts))) = Some (map snd (tr_transfers ts))"
  shows "tr_transfers (NewTransferState env True (tr_stateFile ts) (tr_files (transfer_save env ts))) = tr_transfers ts"
proof -
  let ?infos = "map snd (tr_transfers ts)"
  have ids: "map ti_ID ?infos = keys_of (tr_transfers ts)" and pairs: "map (\<lambda>t. (ti_ID t, t)) ?infos = tr_transfers ts"
    using assms(1) by (auto simp: transfers_ok_def list_all_iff intro!: map_idI)
  have "fold (\<lambda>t m. put_key (ti_ID t) t m) ?infos [] = tr_transfers ts"
    using fold_put_infos [of ?infos "[]"] assms(1) unfolding ids pairs by (simp add: transfers_ok_def)
  then show ?thesis using assms(2-5) by (simp add: NewTransferState_def transfer_load_def transfer_save_def update_conv')
qed

text \<open>A transfer that was begun and updated is pending without progress for another process: it cannot be resumed.\<close>

lemma progress_not_resumable:
  assumes "transfers_ok (tr_transfers ts)" "tr_fs ts" "tr_stateFile ts \<noteq> []" "tr_writable env (tr_stateFile ts)"
    and "\<forall>infos. tr_dec env (tr_enc env infos) = Some infos"
  shows "GetResumeInfo i (NewTransferState env True (tr_stateFile ts)
           (tr_files (UpdateProgress env i n (BeginTransfer env i source target temp total_size ts)))) = None"
proof -
  let ?begun = "BeginTransfer env i source target temp total_size ts"
  have files: "tr_files (UpdateProgress env i n ?begun) = tr_files ?begun"
    by (simp add: UpdateProgress_def putInfo_def split: option.split)
  obtain info where info: "?begun = transfer_save env (putInfo i info ts)" "ti_ID info = i" "ti_Status info = TransferStatusPending"
    by (auto simp: BeginTransfer_def)
  have "transfers_ok (tr_transfers (putInfo i info ts))" using assms(1) info(2,3) by (simp add: putInfo_def transfers_ok_put)
  from saved_transfers_found [OF this, of env] assms(2-5)
  have "tr_transfers (NewTransferState env True (tr_stateFile ts) (tr_files ?begun)) = put_key i info (tr_transfers ts)"
    by (simp add: info(1) putInfo_def)
  then show ?thesis using info(3) by (simp add: GetResumeInfo_def files update_conv')
qed

end
