(* ===== verification/Spec2Isabelle.thy ===== *)
theory Spec2Isabelle
  imports Database TableStore Recovery Auth Protocol Server Misread FullText Engine Faults Typing Queries Like Changes Shell Migration Transfers
begin

text \<open>
  Verification of XxLdb, an embedded SQL database in Go.

  \<^bold>\<open>The program.\<close> A statement text is read by \<^verbatim>\<open>src/parser\<close>, run by \<^verbatim>\<open>src/executor\<close> with the functions of \<^verbatim>\<open>src/function\<close> and the full-text
  index of \<^verbatim>\<open>src/fts\<close>, and works on the catalog and the rows that \<^verbatim>\<open>src/storage\<close> keeps. The storage has its rows in memory or in
  table files of 16 KB pages behind a page cache, writes changes to a log, keeps its catalog in an (optionally
  encrypted) metadata file, and restores both when a database is opened. Clients use the library directly, \<^verbatim>\<open>database/sql\<close>
  (\<^verbatim>\<open>src/driver\<close>), or the MySQL protocol (\<^verbatim>\<open>src/mysql\<close>), which asks \<^verbatim>\<open>src/auth\<close> for the password.

  \<^bold>\<open>The theories.\<close>
  \<^item> \<open>Prelude\<close>: bytes, words, slices, Go maps, errors, CRC-32, the locale \<open>prefix_codec\<close> of encodings that can be read off a stream.
  \<^item> \<open>Crypto\<close> (\<^verbatim>\<open>src/storage/crypto/crypto.go\<close>): the TXDEF cipher on blocks and streams.
  \<^item> \<open>Values\<close> (\<^verbatim>\<open>src/types/types.go\<close>): data types, values, conversions, comparison, columns, rows. Floats are bit patterns.
  \<^item> \<open>Page\<close>, \<open>PageCache\<close>, \<open>TableFile\<close> (\<^verbatim>\<open>src/storage/page.go\<close>, \<^verbatim>\<open>pagecache.go\<close>, \<^verbatim>\<open>tablefile.go\<close>): slotted pages and the row codec, the LRU
    cache, files of pages with their iterator.
  \<^item> \<open>Utf8\<close>, \<open>Lexer\<close> (\<^verbatim>\<open>src/parser/lexer.go\<close>): runes and tokens.
  \<^item> \<open>Ast\<close>, \<open>Parser\<close>, \<open>Statements\<close> (\<^verbatim>\<open>src/parser/ast.go\<close>, \<^verbatim>\<open>parser.go\<close>, \<^verbatim>\<open>parser_dml.go\<close>): syntax trees, the recursive-descent parser for expressions and
    queries, and all statements. A parser is a function of the remaining tokens. \<open>Grammar\<close> is the grammar of expressions as an
    inductive relation, which the parser implements; \<open>Misread\<close> shows what the parser accepts by mistake.
  \<^item> \<open>Json\<close>: the trees of \<^verbatim>\<open>encoding/json\<close> that the metadata and the log records become; the text itself is a parameter.
  \<^item> \<open>Wal\<close> (\<^verbatim>\<open>src/storage/wal.go\<close>, first half): framing, checksums and encryption of log records.
  \<^item> \<open>Storage\<close> (\<^verbatim>\<open>src/storage/storage.go\<close>, \<^verbatim>\<open>update_callback.go\<close>, \<^verbatim>\<open>delete_callback.go\<close>, transactions of \<^verbatim>\<open>wal.go\<close>): the catalog, sequences, rows, blobs, metadata
    output. The state is the record \<open>Storage\<close> with a field per field of the struct; an operation is a function of the state
    that returns the new state and a value or an error.
  \<^item> \<open>Database\<close>: an abstract database (tables as lists of numbered rows) and the refinement of the storage in memory to it.
  \<^item> \<open>TableStore\<close>: the storage over table files, on top of the refinement of \<open>TableFile\<close>.
  \<^item> \<open>Recovery\<close> (\<^verbatim>\<open>loadMetadata\<close>, \<^verbatim>\<open>initFileStorage\<close>, \<^verbatim>\<open>SetEncryption\<close> of \<^verbatim>\<open>storage.go\<close>, \<^verbatim>\<open>recoverFromWAL\<close> and its conversions of \<^verbatim>\<open>wal.go\<close>): reading the metadata back
    and replaying the log.
  \<^item> \<open>Hash\<close>, \<open>Auth\<close> (\<^verbatim>\<open>src/auth/auth.go\<close>): SHA-1, SHA-256, hexadecimal text, and the credentials.
  \<^item> \<open>Protocol\<close>, \<open>Server\<close> (\<^verbatim>\<open>src/mysql/protocol.go\<close>, \<^verbatim>\<open>server.go\<close>): packets, and a session of the server from the handshake to the end of the
    command loop.
  \<^item> \<open>FullText\<close> (\<^verbatim>\<open>src/fts/fts.go\<close>): tokenizers, the inverted index, searches, highlighting and the manager of the indexes. The index refines
    a map from rows to texts.
  \<^item> \<open>GoLib\<close>: the functions of the Go library that the executor uses (text, arithmetic, the operating system as records of functions), and \<open>fault\<close>, a panic or a
    loop that does not end.
  \<^item> \<open>Script\<close> (\<^verbatim>\<open>src/script/script.go\<close>): scripts, binding of their arguments, their tokenizer and evaluator.
  \<^item> \<open>Functions\<close>, \<open>Builtins\<close> (\<^verbatim>\<open>src/function/functions.go\<close>): the SQL functions and the registry; \<open>Faults\<close> says which calls panic.
  \<^item> \<open>Eval\<close>, \<open>Select\<close> (\<^verbatim>\<open>src/executor/executor.go\<close>): evaluation of expressions, and queries with their filters, groups, aggregates, order and limits.
    \<open>Execute\<close>, \<open>Engine\<close> (\<^verbatim>\<open>src/executor/executor_dml.go\<close> and the rest of \<^verbatim>\<open>executor.go\<close>): the statements that change rows or the catalog, and the engine that runs a text.
    \<open>Direct\<close>: access to binary columns without SQL, and the printing of results.
  \<^item> \<open>Typing\<close>, \<open>Queries\<close>, \<open>Like\<close>, \<open>Changes\<close>: what the executor promises. Values have the data of their type; a query without grouping returns the rows
    that satisfy its condition in the order of ORDER BY; LIKE is a relation between patterns and texts; DELETE, UPDATE and INSERT change the abstract
    database of \<open>Database\<close> as they should. \<open>Sample\<close> is an engine for the witnesses.
  \<^item> \<open>Driver\<close> (\<^verbatim>\<open>src/driver/driver.go\<close>, \<^verbatim>\<open>dsn.go\<close>): connections, statements, rows, and data source names.
  \<^item> \<open>Importer\<close> (\<^verbatim>\<open>src/import/converter.go\<close>, \<^verbatim>\<open>import.go\<close>): types and tables of other databases; the importers are values of the interface.
  \<^item> \<open>Migration\<close>, \<open>Transfers\<close> (\<^verbatim>\<open>src/storage/migration.go\<close>, \<^verbatim>\<open>transfer.go\<close>): the old format of the metadata, and the record of file transfers as a state machine.
  \<^item> \<open>Shell\<close> (\<^verbatim>\<open>src/cmd/xxldb/main.go\<close>): splitting a session into statements, running and printing them, and the import of dumps.

  \<^bold>\<open>What the lemmas show.\<close> Codecs (cipher, rows, pages, table headers, log records, metadata, packets, length-encoded values,
  literals) are round trips; the codecs that read from a stream are interpretations of \<open>prefix_codec\<close>. Stateful components have a
  well-formedness predicate that every operation keeps, and refine an abstract description: a page is a list of rows, the page
  cache an LRU list, a table file a list of rows over its pages, the storage a map from table names to rows. The locales of these
  contracts are interpreted on the definitions of the model. The server accepts a login exactly with the
  password, its command loop ends without a panic on inputs without oversized lengths, and every command is answered. Every text is
  parsed or rejected, and expressions are read with the documented precedence. SELECT, DELETE, UPDATE and INSERT are stated against the abstract
  database, for statements whose expressions have no effect of their own (no script functions, no random numbers and no files). An import accounts for every row. A search finds exactly the rows with all terms. The
  defects found on the way are theorems too: each states what the code does on the inputs in question.

  \<^bold>\<open>Conventions.\<close> Errors are values of a sum type or of \<open>option\<close>; a panic is a value of its own. Go's maps are association lists; machine
  integers are words. Loops are functions with a measure (the bytes or pages left). The mutually recursive functions of the parser
  have a bound on their depth (twice the number of tokens) and on their rounds, which is proved to be out of reach. Locks are left out where an
  operation holds its lock for the whole duration; the one place where the code locks twice is modelled as such
  (\<open>readPageHeld\<close>). The parameters of the model are the functions of the Go library whose algorithm the sources do not fix
  (\<open>go_rt\<close>: formatting and parsing of floats and times, case mapping outside ASCII) and the environment (\<open>senv\<close>: file
  contents, the clock, the text of JSON trees). What a property needs of them is a hypothesis of the property, and its witness
  instantiates them. For the server the engine is a parameter: its properties hold for every engine.

  \<^bold>\<open>Not modelled.\<close> \<^verbatim>\<open>Backup\<close>, \<^verbatim>\<open>ImportFile\<close> and \<^verbatim>\<open>ExportFile\<close> of the storage and the BACKUP statement (copying of files); UPDATE and DELETE whose expressions have an effect
  of their own, which run inside of the loop of the storage (the value \<open>Outside\<close> of the model); the file systems over SFTP, SMB and WebDAV, and the five importers
  (third-party clients); the connections of the driver to remote file systems; the listener of the server and the RSA exchange of
  \<^verbatim>\<open>caching_sha2_password\<close>; the flags and the interactive loop of the command line tool, the logger and the facade (terminal I/O and delegation).
\<close>

end
